(* ===== verification/Prelude.thy ===== *)
theory Prelude
  imports Main
begin

text \<open>
  Shared vocabulary of the development: the names of the identifier types, results with
  typed failures, the JavaScript \<^verbatim>\<open>Map\<close> and \<^verbatim>\<open>Set\<close> as insertion-ordered lists with the
  interface the components rely on, and the generic list lemmas their proofs share.
\<close>

section \<open>Collections of facts\<close>

named_theorems split_rules \<open>case splits over the sums, options and lists of the model\<close>

declare sum.splits [split_rules]
declare option.splits [split_rules]
declare list.splits [split_rules]
declare prod.splits [split_rules]
declare if_splits [split_rules]

section \<open>Identifiers\<close>

type_synonym agent_id = string
type_synonym message_id = string
type_synonym router_instance_id = string
type_synonym signed_message_digest = string

section \<open>Results with typed failures\<close>

text \<open>An \<^verbatim>\<open>Effect<A, E>\<close> that neither suspends nor is interrupted is a value of \<open>'e + 'a\<close>.\<close>

definition bindE :: "'e + 'a \<Rightarrow> ('a \<Rightarrow> 'e + 'b) \<Rightarrow> 'e + 'b" where
  "bindE m f = (case m of Inl e \<Rightarrow> Inl e | Inr a \<Rightarrow> f a)"

definition mapE :: "('a \<Rightarrow> 'b) \<Rightarrow> 'e + 'a \<Rightarrow> 'e + 'b" where
  "mapE f m = (case m of Inl e \<Rightarrow> Inl e | Inr a \<Rightarrow> Inr (f a))"

definition ofOption :: "'e \<Rightarrow> 'a option \<Rightarrow> 'e + 'a" where
  "ofOption e m = (case m of None \<Rightarrow> Inl e | Some a \<Rightarrow> Inr a)"

definition guardE :: "bool \<Rightarrow> 'e \<Rightarrow> 'e + unit" where
  "guardE b e = (if b then Inr () else Inl e)"

text \<open>\<^verbatim>\<open>Effect.forEach\<close>: every element in order, stopping at the first failure.\<close>

fun forEachE :: "('a \<Rightarrow> 'e + 'b) \<Rightarrow> 'a list \<Rightarrow> 'e + 'b list" where
  "forEachE f [] = Inr []"
| "forEachE f (x # xs) = bindE (f x) (\<lambda>y. mapE (\<lambda>ys. y # ys) (forEachE f xs))"

lemma bindE_simps [simp]: "bindE (Inl e) f = Inl e" "bindE (Inr a) f = f a"
  by (simp_all add: bindE_def)

lemma mapE_simps [simp]: "mapE f (Inl e) = Inl e" "mapE f (Inr a) = Inr (f a)"
  by (simp_all add: mapE_def)

lemma ofOption_simps [simp]: "ofOption e None = Inl e" "ofOption e (Some a) = Inr a"
  by (simp_all add: ofOption_def)

lemma guardE_simps [simp]: "guardE True e = Inr ()" "guardE False e = Inl e"
  by (simp_all add: guardE_def)

lemma bindE_Inr_iff: "bindE m f = Inr b \<longleftrightarrow> (\<exists>a. m = Inr a \<and> f a = Inr b)"
  by (cases m) auto

lemma mapE_Inr_iff: "mapE f m = Inr b \<longleftrightarrow> (\<exists>a. m = Inr a \<and> b = f a)"
  by (cases m) auto

lemma ofOption_Inr_iff: "ofOption e m = Inr a \<longleftrightarrow> m = Some a"
  by (cases m) auto

lemma guardE_Inr_iff: "guardE b e = Inr u \<longleftrightarrow> b"
  by (cases b) auto

lemmas resultE_iffs = bindE_Inr_iff mapE_Inr_iff ofOption_Inr_iff guardE_Inr_iff

lemma forEachE_Inr_iff:
  "forEachE f xs = Inr ys \<longleftrightarrow> list_all2 (\<lambda>x y. f x = Inr y) xs ys"
  by (induction xs arbitrary: ys) (auto simp: resultE_iffs list_all2_Cons1)

lemma forEachE_length: "forEachE f xs = Inr ys \<Longrightarrow> length ys = length xs"
  by (auto simp: forEachE_Inr_iff dest: list_all2_lengthD)

lemma forEachE_source: "forEachE f xs = Inr ys \<Longrightarrow> y \<in> set ys \<Longrightarrow> \<exists>x\<in>set xs. f x = Inr y"
  by (induction xs arbitrary: ys) (auto simp: resultE_iffs)

lemma forEachE_result: "forEachE f xs = Inr ys \<Longrightarrow> x \<in> set xs \<Longrightarrow> \<exists>y\<in>set ys. f x = Inr y"
  by (induction xs arbitrary: ys) (auto simp: resultE_iffs)

section \<open>JavaScript sets as insertion-ordered lists\<close>

text \<open>\<^verbatim>\<open>new Set(xs)\<close> iterates its elements in the order of their first occurrence.\<close>

definition jsSet :: "'a list \<Rightarrow> 'a list" where
  "jsSet xs = rev (remdups (rev xs))"

lemma set_jsSet [simp]: "set (jsSet xs) = set xs"
  by (simp add: jsSet_def)

lemma distinct_jsSet [simp]: "distinct (jsSet xs)"
  by (simp add: jsSet_def)

text \<open>The idiom \<^verbatim>\<open>new Set(xs).size === xs.length\<close> says that \<open>xs\<close> has no duplicate.\<close>

lemma length_jsSet_eq_iff [simp]: "length (jsSet xs) = length xs \<longleftrightarrow> distinct xs"
  by (metis distinct_rev length_rev distinct_card card_distinct distinct_jsSet set_jsSet)

lemma jsSet_distinct: "distinct xs \<Longrightarrow> jsSet xs = xs"
  by (simp add: jsSet_def distinct_remdups_id)

section \<open>JavaScript maps as insertion-ordered association lists\<close>

type_synonym ('k, 'v) jsmap = "('k \<times> 'v) list"

definition jmGet :: "('k, 'v) jsmap \<Rightarrow> 'k \<Rightarrow> 'v option" where
  "jmGet m k = map_of m k"

fun jmSet :: "'k \<Rightarrow> 'v \<Rightarrow> ('k, 'v) jsmap \<Rightarrow> ('k, 'v) jsmap" where
  "jmSet k v [] = [(k, v)]"
| "jmSet k v ((k', v') # m) = (if k' = k then (k', v) # m else (k', v') # jmSet k v m)"

definition jmDelete :: "'k \<Rightarrow> ('k, 'v) jsmap \<Rightarrow> ('k, 'v) jsmap" where
  "jmDelete k m = filter (\<lambda>kv. fst kv \<noteq> k) m"

definition jmWf :: "('k, 'v) jsmap \<Rightarrow> bool" where
  "jmWf m \<longleftrightarrow> distinct (map fst m)"

text \<open>
  The interface of a \<^verbatim>\<open>Map\<close> that the Router's waiters, the bounded caches and the firewall's
  projections rely on: lookups after updates and deletions, the number of entries, and
  that every update keeps the keys distinct.
\<close>

locale js_map =
  fixes empty :: "'m"
    and get :: "'m \<Rightarrow> 'k \<Rightarrow> 'v option"
    and put :: "'k \<Rightarrow> 'v \<Rightarrow> 'm \<Rightarrow> 'm"
    and del :: "'k \<Rightarrow> 'm \<Rightarrow> 'm"
    and count :: "'m \<Rightarrow> nat"
    and wf :: "'m \<Rightarrow> bool"
  assumes get_empty: "get empty k = None"
    and get_put: "wf m \<Longrightarrow> get (put k v m) k' = (if k' = k then Some v else get m k')"
    and get_del: "wf m \<Longrightarrow> get (del k m) k' = (if k' = k then None else get m k')"
    and wf_empty: "wf empty"
    and wf_put: "wf m \<Longrightarrow> wf (put k v m)"
    and wf_del: "wf m \<Longrightarrow> wf (del k m)"
    and count_empty: "count empty = 0"
    and count_put: "wf m \<Longrightarrow> count (put k v m) = (if get m k = None then Suc (count m) else count m)"
    and count_del: "wf m \<Longrightarrow> count (del k m) = (if get m k = None then count m else count m - 1)"
    and count_pos: "wf m \<Longrightarrow> get m k = Some v \<Longrightarrow> 0 < count m"
begin

lemmas map_laws = get_empty get_put get_del wf_empty wf_put wf_del

lemma get_del_put_other:
  "wf m \<Longrightarrow> k' \<noteq> k \<Longrightarrow> get (del k (put k v m)) k' = get m k'"
  by (simp add: map_laws)

lemma count_put_le: "wf m \<Longrightarrow> count (put k v m) \<le> Suc (count m)"
  by (simp add: count_put)

lemma count_del_le: "wf m \<Longrightarrow> count (del k m) \<le> count m"
  by (simp add: count_del)

text \<open>Deleting a list of keys, as a loop over a set of recipients does.\<close>

lemma get_fold_del:
  "wf m \<Longrightarrow> get (fold del ks m) k = (if k \<in> set ks then None else get m k) \<and> wf (fold del ks m)"
  by (induction ks arbitrary: m) (auto simp: map_laws)

lemma count_fold_del_le: "wf m \<Longrightarrow> count (fold del ks m) \<le> count m"
proof (induction ks arbitrary: m)
  case Nil
  then show ?case by simp
next
  case (Cons k ks)
  then have "count (fold del ks (del k m)) \<le> count (del k m)" by (simp add: wf_del)
  also have "\<dots> \<le> count m" using Cons.prems by (rule count_del_le)
  finally show ?case by simp
qed

end

lemma jmSet_keys: "fst ` set (jmSet k v m) = insert k (fst ` set m)"
  by (induction k v m rule: jmSet.induct) auto

lemma jmWf_jmSet: "jmWf m \<Longrightarrow> jmWf (jmSet k v m)"
  unfolding jmWf_def
proof (induction k v m rule: jmSet.induct)
  case (2 k v k' v' m)
  then show ?case using jmSet_keys [of k v m] by (auto simp: image_iff)
qed simp

lemma jmWf_jmDelete: "jmWf m \<Longrightarrow> jmWf (jmDelete k m)"
  by (simp add: jmWf_def jmDelete_def distinct_map_filter)

lemma jmGet_jmSet: "jmGet (jmSet k v m) k' = (if k' = k then Some v else jmGet m k')"
  unfolding jmGet_def by (induction k v m rule: jmSet.induct) auto

lemma jmGet_jmDelete: "jmGet (jmDelete k m) k' = (if k' = k then None else jmGet m k')"
  unfolding jmGet_def jmDelete_def by (induction m) auto

lemma length_jmSet:
  "length (jmSet k v m) = (if jmGet m k = None then Suc (length m) else length m)"
  unfolding jmGet_def by (induction k v m rule: jmSet.induct) auto

lemma jmDelete_absent: "jmGet m k = None \<Longrightarrow> jmDelete k m = m"
  unfolding jmGet_def jmDelete_def by (induction m) (auto split: if_splits)

lemma length_jmDelete:
  "jmWf m \<Longrightarrow> length (jmDelete k m) = (if jmGet m k = None then length m else length m - 1)"
proof (induction m)
  case Nil
  then show ?case by (simp add: jmDelete_def)
next
  case (Cons kv m)
  obtain k' v' where kv: "kv = (k', v')" by (cases kv)
  have wf: "jmWf m" and fresh: "k' \<notin> fst ` set m"
    using Cons.prems by (auto simp: jmWf_def kv)
  show ?case
  proof (cases "k' = k")
    case True
    with fresh have "jmGet m k = None" by (auto simp: jmGet_def map_of_eq_None_iff)
    then have "jmDelete k m = m" by (rule jmDelete_absent)
    then show ?thesis using True by (simp add: kv jmDelete_def jmGet_def)
  next
    case False
    have "jmGet m k \<noteq> None \<Longrightarrow> 0 < length m" by (cases m) (auto simp: jmGet_def)
    then show ?thesis using False Cons.IH [OF wf] by (auto simp: kv jmDelete_def jmGet_def)
  qed
qed

interpretation jm: js_map "[]" jmGet jmSet jmDelete length jmWf
proof unfold_locales
  show "\<And>m k v. jmWf m \<Longrightarrow> jmGet m k = Some v \<Longrightarrow> 0 < length m"
    by (auto simp: jmGet_def dest: map_of_SomeD)
qed (simp_all add: jmGet_jmSet jmGet_jmDelete jmWf_jmSet jmWf_jmDelete length_jmSet
    length_jmDelete jmWf_def [of "[]"] jmGet_def [of "[]"])

section \<open>Lists\<close>

text \<open>\<^verbatim>\<open>xs.find(p)\<close> is \<open>List.find\<close>; \<^verbatim>\<open>xs.some(p)\<close> is \<open>list_ex\<close>; \<^verbatim>\<open>xs.every(p)\<close> is \<open>list_all\<close>.\<close>

lemma find_Some_mem: "List.find P xs = Some x \<Longrightarrow> x \<in> set xs \<and> P x"
  by (auto simp: find_Some_iff)

lemma find_filter_hd: "List.find P xs = (case filter P xs of [] \<Rightarrow> None | y # _ \<Rightarrow> Some y)"
  by (induction xs) auto

lemma nth_mem_drop: "k \<le> i \<Longrightarrow> i < length xs \<Longrightarrow> xs ! i \<in> set (drop k xs)"
  by (auto simp: in_set_conv_nth intro!: exI [of _ "i - k"])

lemma sum_list_int_nonneg: "(\<And>x. x \<in> set xs \<Longrightarrow> (0::int) \<le> f x) \<Longrightarrow> 0 \<le> sum_list (map f xs)"
  by (induction xs) auto

lemma filter_sorted_gt_upto:
  "filter (\<lambda>i. a < i) [b..c] = [max (a + 1) b..c]" for a b c :: int
proof -
  have "sorted (filter (\<lambda>i. a < i) [b..c])" "distinct (filter (\<lambda>i. a < i) [b..c])"
    by (simp_all add: sorted_filter [where f = id, simplified])
  moreover have "set (filter (\<lambda>i. a < i) [b..c]) = set [max (a + 1) b..c]" by auto
  ultimately show ?thesis
    by (intro sorted_distinct_set_unique) simp_all
qed

end
