(* ===== verification/Json.thy ===== *)
theory Json
  imports Prelude "HOL-Library.List_Lexorder" "HOL-Library.Char_ord" "HOL-Library.Multiset"
begin

text \<open>
  JSON values and their canonical text. The code obtains canonical text from the package
  \<^verbatim>\<open>canonicalize\<close>, which is not part of the repository: wherever it is used the model takes
  it as a parameter \<open>canonicalize :: json \<Rightarrow> string option\<close>, and the properties that need to
  know what it returns assume \<open>rfc8785 canonicalize\<close>, its documented behaviour, with
  \<open>jcs\<close> below as the JSON Canonicalization Scheme. A text is the sequence of its UTF-8
  bytes, one \<open>char\<close> each, so \<^verbatim>\<open>TextEncoder.encode(text).byteLength\<close> is its length.
  Numbers are the integers the Router and the Client put into such values.
\<close>

section \<open>Values\<close>

datatype json =
    JNull
  | JBool bool
  | JNum int
  | JStr string
  | JArr "json list"
  | JObj "(string \<times> json) list"

section \<open>Text\<close>

text \<open>\<^verbatim>\<open>parts.join(separator)\<close> and \<^verbatim>\<open>text.split(separator)\<close> for a one-character separator.\<close>

fun joinWith :: "string \<Rightarrow> string list \<Rightarrow> string" where
  "joinWith sep [] = []"
| "joinWith sep [x] = x"
| "joinWith sep (x # y # xs) = x @ sep @ joinWith sep (y # xs)"

fun splitOn :: "char \<Rightarrow> string \<Rightarrow> string list" where
  "splitOn c [] = [[]]"
| "splitOn c (x # xs) =
     (if x = c then [] # splitOn c xs
      else case splitOn c xs of [] \<Rightarrow> [[x]] | s # ss \<Rightarrow> (x # s) # ss)"

definition digitChar :: "nat \<Rightarrow> char" where
  "digitChar d = char_of (48 + d)"

fun natText :: "nat \<Rightarrow> string" where
  "natText n = (if n < 10 then [digitChar n] else natText (n div 10) @ [digitChar (n mod 10)])"

declare natText.simps [simp del]

definition intText :: "int \<Rightarrow> string" where
  "intText i = (if i < 0 then CHR ''-'' # natText (nat (- i)) else natText (nat i))"

definition hexChar :: "nat \<Rightarrow> char" where
  "hexChar d = (if d < 10 then char_of (48 + d) else char_of (87 + d))"

definition escapeChar :: "char \<Rightarrow> string" where
  "escapeChar c =
     (if c = CHR 0x22 then [CHR 0x5C, CHR 0x22]
      else if c = CHR 0x5C then [CHR 0x5C, CHR 0x5C]
      else if c = CHR 0x08 then [CHR 0x5C, CHR ''b'']
      else if c = CHR 0x09 then [CHR 0x5C, CHR ''t'']
      else if c = CHR 0x0A then [CHR 0x5C, CHR ''n'']
      else if c = CHR 0x0C then [CHR 0x5C, CHR ''f'']
      else if c = CHR 0x0D then [CHR 0x5C, CHR ''r'']
      else if of_char c < (32 :: nat)
      then [CHR 0x5C, CHR ''u'', CHR ''0'', CHR ''0'', hexChar (of_char c div 16), hexChar (of_char c mod 16)]
      else [c])"

definition jsonString :: "string \<Rightarrow> string" where
  "jsonString s = CHR 0x22 # concat (map escapeChar s) @ [CHR 0x22]"

fun jcs :: "json \<Rightarrow> string" where
  "jcs JNull = ''null''"
| "jcs (JBool b) = (if b then ''true'' else ''false'')"
| "jcs (JNum i) = intText i"
| "jcs (JStr s) = jsonString s"
| "jcs (JArr vs) = ''['' @ joinWith '','' (map jcs vs) @ '']''"
| "jcs (JObj ms) =
     ''{'' @ joinWith '',''
       (map (\<lambda>(k, t). jsonString k @ '':'' @ t) (sort_key fst (map (\<lambda>(k, v). (k, jcs v)) ms))) @ ''}''"

definition rfc8785 :: "(json \<Rightarrow> string option) \<Rightarrow> bool" where
  "rfc8785 canonicalize \<longleftrightarrow> (\<forall>v. canonicalize v = Some (jcs v))"

section \<open>Lengths\<close>

definition plainText :: "string \<Rightarrow> bool" where
  "plainText s \<longleftrightarrow> list_all (\<lambda>c. c \<noteq> CHR 0x22 \<and> c \<noteq> CHR 0x5C \<and> 32 \<le> (of_char c :: nat)) s"

lemma plainText_simps [simp]:
  "plainText []"
  "plainText (c # s) \<longleftrightarrow> c \<noteq> CHR 0x22 \<and> c \<noteq> CHR 0x5C \<and> 32 \<le> (of_char c :: nat) \<and> plainText s"
  "plainText (s @ t) \<longleftrightarrow> plainText s \<and> plainText t"
  by (auto simp: plainText_def)

lemma escapeChar_plain:
  "c \<noteq> CHR 0x22 \<Longrightarrow> c \<noteq> CHR 0x5C \<Longrightarrow> 32 \<le> (of_char c :: nat) \<Longrightarrow> escapeChar c = [c]"
  by (auto simp: escapeChar_def)

lemma jsonString_plain: "plainText s \<Longrightarrow> jsonString s = CHR 0x22 # s @ [CHR 0x22]"
proof -
  have "plainText s \<Longrightarrow> concat (map escapeChar s) = s"
    by (induction s) (auto simp: escapeChar_plain)
  then show "plainText s \<Longrightarrow> jsonString s = CHR 0x22 # s @ [CHR 0x22]" by (simp add: jsonString_def)
qed

lemma length_jsonString_plain [simp]: "plainText s \<Longrightarrow> length (jsonString s) = length s + 2"
  by (simp add: jsonString_plain)

lemma length_joinWith:
  "length (joinWith sep xs) = sum_list (map length xs) + (length xs - 1) * length sep"
  by (induction sep xs rule: joinWith.induct) (auto simp: algebra_simps)

lemma sum_list_map_sort_key: "sum_list (map g (sort_key f xs)) = (sum_list (map g xs) :: nat)"
proof -
  have "mset (map g (sort_key f xs)) = mset (map g xs)" by simp
  then show ?thesis by (metis sum_mset_sum_list)
qed

lemma length_jcs_arr: "length (jcs (JArr vs)) = 2 + sum_list (map (length \<circ> jcs) vs) + (length vs - 1)"
  by (simp add: length_joinWith)

lemma length_jcs_obj:
  "length (jcs (JObj ms)) =
     2 + sum_list (map (\<lambda>(k, v). length (jsonString k) + 1 + length (jcs v)) ms) + (length ms - 1)"
  by (simp add: length_joinWith o_def case_prod_unfold sum_list_map_sort_key)

section \<open>Splitting a joined text\<close>

lemma splitOn_append: "d \<notin> set s \<Longrightarrow> splitOn d (s @ d # t) = s # splitOn d t"
  by (induction s) auto

lemma splitOn_free: "d \<notin> set s \<Longrightarrow> splitOn d s = [s]"
  by (induction s) auto

lemma splitOn_pieces: "c \<in> set s \<Longrightarrow> c = d \<or> (\<exists>p\<in>set (splitOn d s). c \<in> set p)"
  by (induction s) (auto split: list.splits)

lemma splitOn_joinWith:
  "xs \<noteq> [] \<Longrightarrow> list_all (\<lambda>s. d \<notin> set s) xs \<Longrightarrow> splitOn d (joinWith [d] xs) = xs"
proof (induction xs rule: induct_list012)
  case (3 x y xs)
  then show ?case using splitOn_append [of d x "joinWith [d] (y # xs)"] by simp
qed (auto simp: splitOn_free)

section \<open>Closed objects\<close>

text \<open>
  A closed struct schema (\<^verbatim>\<open>exact: true, onExcessProperty: "error"\<close>) admits an object that has
  exactly the declared members; the members are returned in the declared order.
\<close>

definition closedObject :: "string list \<Rightarrow> json \<Rightarrow> json list option" where
  "closedObject names v =
     (case v of
        JObj ms \<Rightarrow>
          if distinct (map fst ms) \<and> set (map fst ms) = set names
          then Some (map (\<lambda>n. the (map_of ms n)) names) else None
      | _ \<Rightarrow> None)"

definition asString :: "json \<Rightarrow> string option" where
  "asString v = (case v of JStr s \<Rightarrow> Some s | _ \<Rightarrow> None)"

definition asArray :: "json \<Rightarrow> json list option" where
  "asArray v = (case v of JArr vs \<Rightarrow> Some vs | _ \<Rightarrow> None)"

fun asStrings :: "json list \<Rightarrow> string list option" where
  "asStrings [] = Some []"
| "asStrings (v # vs) =
     (case asString v of None \<Rightarrow> None | Some s \<Rightarrow> map_option (\<lambda>ss. s # ss) (asStrings vs))"

lemma asString_JStr [simp]: "asString (JStr s) = Some s"
  by (simp add: asString_def)

lemma asStrings_map [simp]: "asStrings (map JStr ss) = Some ss"
  by (induction ss) auto

end
