(* ===== verification/Base64.thy ===== *)
theory Base64
  imports Prelude "HOL-Library.Word"
begin

text \<open>
  Unpadded base64url. The code uses the codec of the package \<^verbatim>\<open>effect\<close>, which the model takes
  as a parameter: a record of its two functions, with their documented behaviour (RFC 4648,
  section 5) as \<open>base64urlLaws\<close>. The second half gives that encoding as a function on bit
  strings and proves that it satisfies those laws.
\<close>

section \<open>The codec as a parameter\<close>

type_synonym byte = "8 word"

record base64url =
  b64_encode :: "byte list \<Rightarrow> string"
  b64_decode :: "string \<Rightarrow> byte list option"

definition b64Alphabet :: string where
  "b64Alphabet = ''ABCDEFGHIJKLMNOPQRSTUVWXYZabcdefghijklmnopqrstuvwxyz0123456789-_''"

definition base64urlLaws :: "base64url \<Rightarrow> bool" where
  "base64urlLaws b \<longleftrightarrow>
     (\<forall>bs. b64_decode b (b64_encode b bs) = Some bs) \<and>
     (\<forall>bs. length (b64_encode b bs) = (length bs * 8 + 5) div 6) \<and>
     (\<forall>bs. set (b64_encode b bs) \<subseteq> set b64Alphabet)"

section \<open>Bit strings\<close>

fun natBits :: "nat \<Rightarrow> nat \<Rightarrow> bool list" where
  "natBits 0 n = []"
| "natBits (Suc w) n = natBits w (n div 2) @ [odd n]"

definition bitsNat :: "bool list \<Rightarrow> nat" where
  "bitsNat bs = foldl (\<lambda>a b. 2 * a + of_bool b) 0 bs"

lemma length_natBits [simp]: "length (natBits w n) = w"
  by (induction w arbitrary: n) auto

lemma bitsNat_snoc [simp]: "bitsNat [] = 0" "bitsNat (bs @ [b]) = 2 * bitsNat bs + of_bool b"
  by (simp_all add: bitsNat_def)

lemma bitsNat_natBits: "n < 2 ^ w \<Longrightarrow> bitsNat (natBits w n) = n"
  by (induction w arbitrary: n) auto

lemma bitsNat_less: "bitsNat bs < 2 ^ length bs"
  by (induction bs rule: rev_induct) auto

lemma natBits_bitsNat: "natBits (length bs) (bitsNat bs) = bs"
  by (induction bs rule: rev_induct) auto

text \<open>Groups of a fixed width.\<close>

fun chunks :: "nat \<Rightarrow> nat \<Rightarrow> 'a list \<Rightarrow> 'a list list" where
  "chunks 0 w xs = []"
| "chunks (Suc n) w xs = take w xs # chunks n w (drop w xs)"

lemma length_chunks [simp]: "length (chunks n w xs) = n"
  by (induction n arbitrary: xs) auto

lemma chunks_width: "n * w \<le> length xs \<Longrightarrow> g \<in> set (chunks n w xs) \<Longrightarrow> length g = w"
proof (induction n arbitrary: xs)
  case (Suc n)
  then show ?case using Suc.IH [of "drop w xs"] by auto
qed simp

lemma concat_chunks: "length xs = n * w \<Longrightarrow> concat (chunks n w xs) = xs"
  by (induction n arbitrary: xs) auto

lemma chunks_concat:
  "(\<And>g. g \<in> set gs \<Longrightarrow> length g = w) \<Longrightarrow> chunks (length gs) w (concat gs) = gs"
  by (induction gs) auto

section \<open>RFC 4648\<close>

definition sextetChar :: "nat \<Rightarrow> char" where
  "sextetChar n = b64Alphabet ! n"

fun indexIn :: "'a list \<Rightarrow> 'a \<Rightarrow> nat option" where
  "indexIn [] c = None"
| "indexIn (x # xs) c = (if x = c then Some 0 else map_option Suc (indexIn xs c))"

definition byteBits :: "byte \<Rightarrow> bool list" where
  "byteBits b = natBits 8 (unat b)"

definition rfcEncode :: "byte list \<Rightarrow> string" where
  "rfcEncode bs =
     (let bits = concat (map byteBits bs);
          n = (length bs * 8 + 5) div 6
      in map (\<lambda>g. sextetChar (bitsNat g)) (chunks n 6 (bits @ replicate (n * 6 - length bits) False)))"

definition rfcDecode :: "string \<Rightarrow> byte list option" where
  "rfcDecode s =
     (if list_all (\<lambda>c. c \<in> set b64Alphabet) s \<and> length s mod 4 \<noteq> 1 then
        let bits = concat (map (\<lambda>c. natBits 6 (the (indexIn b64Alphabet c))) s);
            n = length bits div 8
        in Some (map (\<lambda>g. of_nat (bitsNat g)) (chunks n 8 (take (n * 8) bits)))
      else None)"

definition rfc4648 :: base64url where
  "rfc4648 = \<lparr>b64_encode = rfcEncode, b64_decode = rfcDecode\<rparr>"

lemma distinct_alphabet: "distinct b64Alphabet" and length_alphabet: "length b64Alphabet = 64"
  by (simp_all add: b64Alphabet_def)

lemma indexIn_nth: "distinct xs \<Longrightarrow> i < length xs \<Longrightarrow> indexIn xs (xs ! i) = Some i"
proof (induction xs arbitrary: i)
  case (Cons x xs)
  then show ?case by (cases i) auto
qed simp

lemma index_sextetChar: "n < 64 \<Longrightarrow> the (indexIn b64Alphabet (sextetChar n)) = n"
  by (simp add: sextetChar_def indexIn_nth distinct_alphabet length_alphabet)

lemma sextetChar_mem: "n < 64 \<Longrightarrow> sextetChar n \<in> set b64Alphabet"
  by (simp add: sextetChar_def length_alphabet)

lemma byte_of_byteBits: "of_nat (bitsNat (byteBits b)) = b"
proof -
  have "unat b < 2 ^ 8" using unsigned_less [of b] by simp
  then show ?thesis by (simp add: byteBits_def bitsNat_natBits del: natBits.simps)
qed

lemma length_byteBits: "length (byteBits b) = 8"
  by (simp add: byteBits_def del: natBits.simps)

lemma length_concat_byteBits: "length (concat (map byteBits bs)) = length bs * 8"
  by (induction bs) (auto simp: length_byteBits)

lemma rfcEncode_length: "length (rfcEncode bs) = (length bs * 8 + 5) div 6"
  by (simp add: rfcEncode_def Let_def)

lemma rfcEncode_bits:
  "\<exists>z<6. concat (map (\<lambda>c. natBits 6 (the (indexIn b64Alphabet c))) (rfcEncode bs)) =
     concat (map byteBits bs) @ replicate z False \<and> list_all (\<lambda>c. c \<in> set b64Alphabet) (rfcEncode bs)"
proof -
  define bits where "bits = concat (map byteBits bs)"
  define n where "n = (length bs * 8 + 5) div 6"
  define padded where "padded = bits @ replicate (n * 6 - length bits) False"
  have enc: "rfcEncode bs = map (\<lambda>g. sextetChar (bitsNat g)) (chunks n 6 padded)"
    by (simp only: rfcEncode_def Let_def bits_def n_def padded_def)
  have len: "length bits = length bs * 8"
    by (simp add: bits_def length_concat_byteBits)
  have n: "length bits \<le> n * 6" "n * 6 - length bits < 6" unfolding len n_def by simp_all
  then have padlen: "length padded = n * 6" by (simp add: padded_def)
  have small: "bitsNat g < 64 \<and> length g = 6" if "g \<in> set (chunks n 6 padded)" for g
    using chunks_width [OF _ that] bitsNat_less [of g] padlen by simp
  have "map (\<lambda>g. natBits 6 (the (indexIn b64Alphabet (sextetChar (bitsNat g))))) (chunks n 6 padded) = chunks n 6 padded"
    by (rule map_idI) (metis small index_sextetChar natBits_bitsNat)
  then have "concat (map (\<lambda>c. natBits 6 (the (indexIn b64Alphabet c))) (rfcEncode bs)) = padded"
    using concat_chunks [OF padlen] by (simp only: enc map_map o_def)
  moreover have "list_all (\<lambda>c. c \<in> set b64Alphabet) (rfcEncode bs)"
    unfolding enc list_all_iff using small sextetChar_mem by fastforce
  ultimately show ?thesis using n(2) by (auto simp: padded_def bits_def)
qed

lemma rfcDecode_rfcEncode: "rfcDecode (rfcEncode bs) = Some bs"
proof -
  obtain z where z: "z < 6"
    "concat (map (\<lambda>c. natBits 6 (the (indexIn b64Alphabet c))) (rfcEncode bs)) =
      concat (map byteBits bs) @ replicate z False"
    "list_all (\<lambda>c. c \<in> set b64Alphabet) (rfcEncode bs)"
    using rfcEncode_bits by blast
  note len = length_concat_byteBits [of bs]
  have "chunks (length bs) 8 (concat (map byteBits bs)) = map byteBits bs"
    using chunks_concat [of "map byteBits bs" 8] length_byteBits by auto
  moreover have "(length bs * 8 + z) div 8 = length bs" using z(1) by simp
  moreover have "length (rfcEncode bs) mod 4 \<noteq> 1" unfolding rfcEncode_length by presburger
  ultimately show ?thesis
    using z(2,3) len by (simp add: rfcDecode_def Let_def o_def byte_of_byteBits del: natBits.simps)
qed

lemma rfc4648_laws: "base64urlLaws rfc4648"
proof -
  have "set (rfcEncode bs) \<subseteq> set b64Alphabet" for bs
    using rfcEncode_bits [of bs] by (auto simp: list_all_iff)
  then show ?thesis
    by (simp add: base64urlLaws_def rfc4648_def rfcDecode_rfcEncode rfcEncode_length)
qed

lemma rfcEncode_zero: "rfcEncode [0] = ''AA''" by code_simp

end
