(* ===== verification/Identifiers.thy ===== *)
theory Identifiers
  imports Json Base64
begin

text \<open>
  Canonical identifiers: \<^verbatim>\<open>packages/client/src/encoding/identifier.ts\<close> and
  \<^verbatim>\<open>packages/identity/src/identifiers.ts\<close>. An identifier is a prefix and the one base64url
  spelling of a fixed number of bytes; agent identifiers are ordered by their decoded
  bytes, and a member or signer list is canonical when that order increases strictly.
\<close>

section \<open>Decoding\<close>

definition utf8Bytes :: "string \<Rightarrow> byte list" where
  "utf8Bytes s = map (\<lambda>c. of_nat (of_char c)) s"

text \<open>
  \<^verbatim>\<open>TextDecoder\<close> with \<^verbatim>\<open>fatal: true\<close>: the well-formed byte sequences of UTF-8. Continuation
  bytes lie between 128 and 191; the second byte of some sequences has a smaller range.
\<close>

definition continuation :: "byte \<Rightarrow> bool" where
  "continuation b \<longleftrightarrow> 128 \<le> b \<and> b \<le> 191"

fun wellFormedUtf8 :: "byte list \<Rightarrow> bool" where
  "wellFormedUtf8 [] = True"
| "wellFormedUtf8 (a # bs) =
     (if a \<le> 127 then wellFormedUtf8 bs
      else case bs of
        [] \<Rightarrow> False
      | b # cs \<Rightarrow>
          if 194 \<le> a \<and> a \<le> 223 then continuation b \<and> wellFormedUtf8 cs
          else case cs of
            [] \<Rightarrow> False
          | c # ds \<Rightarrow>
              if 224 \<le> a \<and> a \<le> 239
              then continuation b \<and> (a = 224 \<longrightarrow> 160 \<le> b) \<and> (a = 237 \<longrightarrow> b \<le> 159) \<and>
                   continuation c \<and> wellFormedUtf8 ds
              else case ds of
                [] \<Rightarrow> False
              | d # es \<Rightarrow>
                  240 \<le> a \<and> a \<le> 244 \<and> continuation b \<and> (a = 240 \<longrightarrow> 144 \<le> b) \<and> (a = 244 \<longrightarrow> b \<le> 143) \<and>
                  continuation c \<and> continuation d \<and> wellFormedUtf8 es)"

definition utf8Decode :: "byte list \<Rightarrow> string option" where
  "utf8Decode bs = (if wellFormedUtf8 bs then Some (map (\<lambda>b. char_of (unat b)) bs) else None)"

definition startsWith :: "string \<Rightarrow> string \<Rightarrow> bool" where
  "startsWith text pre \<longleftrightarrow> take (length pre) text = pre"

definition decodeCanonicalBase64Url :: "base64url \<Rightarrow> string \<Rightarrow> byte list option" where
  "decodeCanonicalBase64Url b64 value =
     (case b64_decode b64 value of
        None \<Rightarrow> None
      | Some bytes \<Rightarrow> if b64_encode b64 bytes = value then Some bytes else None)"

definition HASH_BYTE_LENGTH :: nat where
  "HASH_BYTE_LENGTH = 32"

definition isCanonicalIdentifier :: "base64url \<Rightarrow> string \<Rightarrow> string \<Rightarrow> bool" where
  "isCanonicalIdentifier b64 pre value =
     (if \<not> startsWith value pre then False
      else map_option length (decodeCanonicalBase64Url b64 (drop (length pre) value)) = Some HASH_BYTE_LENGTH)"

section \<open>Text as bytes\<close>

lemma byte_less: "unat (b :: byte) < 256"
  using unsigned_less [of b] by simp

lemma utf8Decode_bytes: "utf8Decode bs = Some text \<Longrightarrow> bs = utf8Bytes text"
  by (auto simp: utf8Decode_def utf8Bytes_def o_def byte_less split: if_splits intro!: map_idI [symmetric])

definition asciiText :: "string \<Rightarrow> bool" where
  "asciiText s \<longleftrightarrow> list_all (\<lambda>c. (of_char c :: nat) < 128) s"

lemma asciiText_simps [simp]:
  "asciiText []" "asciiText (c # s) \<longleftrightarrow> (of_char c :: nat) < 128 \<and> asciiText s"
  "asciiText (s @ t) \<longleftrightarrow> asciiText s \<and> asciiText t"
  by (auto simp: asciiText_def)

lemma asciiText_subset: "set s \<subseteq> set t \<Longrightarrow> asciiText t \<Longrightarrow> asciiText s"
  by (auto simp: asciiText_def list_all_iff)

lemma ascii_byte: "n < 128 \<Longrightarrow> (of_nat n :: byte) \<le> 127 \<and> unat (of_nat n :: byte) = n"
  by (auto simp: word_le_nat_alt unat_of_nat)

lemma utf8Decode_ascii: "asciiText s \<Longrightarrow> utf8Decode (utf8Bytes s) = Some s"
proof -
  have "asciiText s \<Longrightarrow> wellFormedUtf8 (utf8Bytes s) \<and> map (\<lambda>b. char_of (unat b)) (utf8Bytes s) = s"
    by (induction s) (auto simp: utf8Bytes_def ascii_byte)
  then show "asciiText s \<Longrightarrow> utf8Decode (utf8Bytes s) = Some s" by (simp add: utf8Decode_def)
qed

lemma length_utf8Bytes: "length (utf8Bytes t) = length t"
  by (simp add: utf8Bytes_def)

text \<open>What a lawful codec encodes is ASCII, and is the one spelling of its bytes.\<close>

lemma encoded_ascii: "base64urlLaws b64 \<Longrightarrow> asciiText (b64_encode b64 bs)"
proof -
  have "asciiText b64Alphabet" by (simp add: b64Alphabet_def)
  then show "base64urlLaws b64 \<Longrightarrow> asciiText (b64_encode b64 bs)"
    using asciiText_subset unfolding base64urlLaws_def by blast
qed

lemma decodeCanonicalBase64Url_encoded:
  "base64urlLaws b64 \<Longrightarrow> decodeCanonicalBase64Url b64 (b64_encode b64 bs) = Some bs"
  by (simp add: decodeCanonicalBase64Url_def base64urlLaws_def)

section \<open>Orders\<close>

text \<open>The loop over the shared prefix, then the difference of the lengths.\<close>

fun compareBytes :: "byte list \<Rightarrow> byte list \<Rightarrow> int" where
  "compareBytes (x # xs) (y # ys) =
     (let difference = uint x - uint y in if difference \<noteq> 0 then difference else compareBytes xs ys)"
| "compareBytes xs ys = int (length xs) - int (length ys)"

definition compareAgentIds :: "base64url \<Rightarrow> agent_id \<Rightarrow> agent_id \<Rightarrow> int" where
  "compareAgentIds b64 left right =
     (case (decodeCanonicalBase64Url b64 (drop 4 left), decodeCanonicalBase64Url b64 (drop 4 right)) of
        (Some leftBytes, Some rightBytes) \<Rightarrow> compareBytes leftBytes rightBytes
      | _ \<Rightarrow> 0)"

fun compareAscii :: "string \<Rightarrow> string \<Rightarrow> int" where
  "compareAscii (x # xs) (y # ys) =
     (let difference = int (of_char x) - int (of_char y) in
      if difference \<noteq> 0 then difference else compareAscii xs ys)"
| "compareAscii xs ys = int (length xs) - int (length ys)"

fun isStrictlyAscending :: "('a \<Rightarrow> 'a \<Rightarrow> int) \<Rightarrow> 'a list \<Rightarrow> bool" where
  "isStrictlyAscending compare (previous # current # rest) =
     (if compare previous current \<ge> 0 then False else isStrictlyAscending compare (current # rest))"
| "isStrictlyAscending compare values = True"

section \<open>Identity schemas\<close>

definition inCharRange :: "char \<Rightarrow> char \<Rightarrow> char \<Rightarrow> bool" where
  "inCharRange lo hi c \<longleftrightarrow> (of_char lo :: nat) \<le> of_char c \<and> (of_char c :: nat) \<le> of_char hi"

text \<open>
  \<^verbatim>\<open>canonicalIdentifier(name, prefix, byteLength)\<close>: the exact length and the pattern whose last
  character class allows only the spellings with zero padding bits.
\<close>

definition finalCharacters :: "base64url \<Rightarrow> nat \<Rightarrow> string" where
  "finalCharacters b64 remainingBits =
     concat (map (\<lambda>v. take 1 (b64_encode b64 [of_nat (v * 2 ^ (8 - remainingBits))])) [0..<2 ^ remainingBits])"

definition canonicalIdentifier :: "base64url \<Rightarrow> string \<Rightarrow> nat \<Rightarrow> string \<Rightarrow> bool" where
  "canonicalIdentifier b64 pre byteLength value \<longleftrightarrow>
     (let wholeCharacters = byteLength * 8 div 6;
          remainingBits = byteLength * 8 mod 6;
          payload = drop (length pre) value
      in length value = length pre + (byteLength * 8 + 5) div 6 \<and>
         startsWith value pre \<and>
         list_all (\<lambda>c. inCharRange (CHR ''A'') (CHR ''Z'') c \<or> inCharRange (CHR ''a'') (CHR ''z'') c \<or>
             inCharRange (CHR ''0'') (CHR ''9'') c \<or> c = CHR ''_'' \<or> c = CHR ''-'')
           (take wholeCharacters payload) \<and>
         (if remainingBits = 0 then length payload = wholeCharacters
          else length payload = wholeCharacters + 1 \<and>
               list_all (\<lambda>c. c \<in> set (finalCharacters b64 remainingBits)) (drop wholeCharacters payload)))"

definition isAgentId :: "base64url \<Rightarrow> string \<Rightarrow> bool" where
  "isAgentId b64 = canonicalIdentifier b64 ''agt_'' 16"

definition isMessageId :: "base64url \<Rightarrow> string \<Rightarrow> bool" where
  "isMessageId b64 = canonicalIdentifier b64 ''msg_'' 16"

text \<open>\<^verbatim>\<open>/^[a-z0-9]+(-[a-z0-9]+)*$/\<close> with 3 to 32 characters.\<close>

definition isAgentName :: "string \<Rightarrow> bool" where
  "isAgentName s \<longleftrightarrow>
     3 \<le> length s \<and> length s \<le> 32 \<and>
     list_all (\<lambda>w. w \<noteq> '''' \<and>
        list_all (\<lambda>c. inCharRange (CHR ''a'') (CHR ''z'') c \<or> inCharRange (CHR ''0'') (CHR ''9'') c) w)
       (splitOn (CHR ''-'') s)"

section \<open>The interface of a comparison\<close>

text \<open>
  What canonical lists rely on of a comparison: it ranks the values it can compare by a key
  in a linear order, and never calls a value it cannot rank smaller.
\<close>

locale ranked_comparison =
  fixes compare :: "'a \<Rightarrow> 'a \<Rightarrow> int"
    and rank :: "'a \<Rightarrow> 'k::linorder option"
  assumes compare_less: "compare x y < 0 \<longleftrightarrow> (\<exists>k l. rank x = Some k \<and> rank y = Some l \<and> k < l)"
begin

lemma ascending_sorted:
  "isStrictlyAscending compare (x # xs) \<Longrightarrow> y \<in> set xs \<Longrightarrow> compare x y < 0"
proof (induction xs arbitrary: x)
  case Nil
  then show ?case by simp
next
  case (Cons z zs)
  from Cons.prems(1) have xz: "compare x z < 0" and rest: "isStrictlyAscending compare (z # zs)"
    by (auto split: if_splits)
  show ?case
  proof (cases "y = z")
    case True
    with xz show ?thesis by simp
  next
    case False
    with Cons.prems(2) have "y \<in> set zs" by simp
    then have "compare z y < 0" using Cons.IH rest by blast
    with xz show ?thesis by (fastforce simp: compare_less)
  qed
qed

lemma ascending_distinct: "isStrictlyAscending compare xs \<Longrightarrow> distinct xs"
proof (induction xs)
  case Nil
  then show ?case by simp
next
  case (Cons x xs)
  have "isStrictlyAscending compare xs" using Cons.prems by (cases xs) (auto split: if_splits)
  moreover have "x \<notin> set xs"
    using ascending_sorted [OF Cons.prems, of x] by (auto simp: compare_less)
  ultimately show ?case using Cons.IH by simp
qed

text \<open>A canonical list is determined by its elements.\<close>

lemma ascending_unique:
  "isStrictlyAscending compare xs \<Longrightarrow> isStrictlyAscending compare ys \<Longrightarrow> set xs = set ys \<Longrightarrow> xs = ys"
proof (induction xs arbitrary: ys)
  case Nil
  then show ?case by simp
next
  case (Cons x xs)
  then obtain y ys' where ys: "ys = y # ys'" by (cases ys) auto
  have "x = y"
  proof (rule ccontr)
    assume "x \<noteq> y"
    with Cons.prems ys have "x \<in> set ys'" "y \<in> set xs" by auto
    with Cons.prems ys have "compare y x < 0" "compare x y < 0" by (auto intro: ascending_sorted)
    then show False by (fastforce simp: compare_less)
  qed
  have asc: "isStrictlyAscending compare xs" "isStrictlyAscending compare ys'"
    using Cons.prems ys by (cases xs; cases ys'; auto split: if_splits)+
  have "x \<notin> set xs" "y \<notin> set ys'"
    using ascending_distinct [OF Cons.prems(1)] ascending_distinct [OF Cons.prems(2)] ys by auto
  with Cons.prems(3) ys \<open>x = y\<close> have "set xs = set ys'" by auto
  with Cons.IH asc show ?case using ys \<open>x = y\<close> by simp
qed

end

lemma startsWith_iff: "startsWith text pre \<longleftrightarrow> (\<exists>rest. text = pre @ rest)"
  by (auto simp: startsWith_def) (metis append_take_drop_id)

lemma Nil_less_iff: "[] < ys \<longleftrightarrow> ys \<noteq> []" for ys :: "'a::order list"
  by (cases ys) simp_all

lemma compareBytes_less: "compareBytes xs ys < 0 \<longleftrightarrow> map uint xs < map uint ys"
  by (induction xs ys rule: compareBytes.induct) (auto simp: Let_def Nil_less_iff)

lemma compareBytes_zero: "compareBytes xs ys = 0 \<longleftrightarrow> xs = ys"
  by (induction xs ys rule: compareBytes.induct) (auto simp: Let_def word_uint_eq_iff)

lemma compareAscii_less: "compareAscii xs ys < 0 \<longleftrightarrow> map (\<lambda>c. of_char c :: nat) xs < map (\<lambda>c. of_char c) ys"
  by (induction xs ys rule: compareAscii.induct) (auto simp: Let_def Nil_less_iff)

interpretation agentOrder: ranked_comparison
  "compareAgentIds b64" "\<lambda>a. map_option (map uint) (decodeCanonicalBase64Url b64 (drop 4 a))" for b64
  by unfold_locales (auto simp: compareAgentIds_def compareBytes_less split: option.splits)

interpretation nameOrder: ranked_comparison compareAscii "\<lambda>s. Some (map (\<lambda>c. of_char c :: nat) s)"
  by unfold_locales (simp add: compareAscii_less)

lemma decodeCanonicalBase64Url_inj:
  "decodeCanonicalBase64Url b64 s = Some bs \<Longrightarrow> decodeCanonicalBase64Url b64 t = Some bs \<Longrightarrow> s = t"
  by (auto simp: decodeCanonicalBase64Url_def split: option.splits if_splits)

text \<open>Two canonical identifiers of the same prefix that compare equal are the same text.\<close>

lemma compareAgentIds_zero:
  assumes "isCanonicalIdentifier b64 pre l" "isCanonicalIdentifier b64 pre r" "length pre = 4"
    and "compareAgentIds b64 l r = 0"
  shows "l = r"
proof -
  have l: "take 4 l = pre" "take 4 r = pre"
    using assms by (auto simp: isCanonicalIdentifier_def startsWith_def split: if_splits)
  obtain a b where ab: "decodeCanonicalBase64Url b64 (drop 4 l) = Some a"
    "decodeCanonicalBase64Url b64 (drop 4 r) = Some b"
    using assms by (auto simp: isCanonicalIdentifier_def split: if_splits)
  with assms(4) have "a = b" by (simp add: compareAgentIds_def compareBytes_zero)
  with ab have "drop 4 l = drop 4 r" by (auto intro: decodeCanonicalBase64Url_inj)
  with l show ?thesis by (metis append_take_drop_id)
qed

text \<open>Strictly ascending identifiers decode to bytes in strictly ascending lexicographic order.\<close>

lemma ascending_agentIds:
  "isStrictlyAscending (compareAgentIds b64) (x # y # zs) \<Longrightarrow>
   \<exists>ids. map (\<lambda>a. decodeCanonicalBase64Url b64 (drop 4 a)) (x # y # zs) = map Some ids \<and> sorted_wrt (<) (map (map uint) ids)"
proof (induction zs arbitrary: x y)
  case Nil
  then have "compareAgentIds b64 x y < 0" by (simp split: if_splits)
  then obtain bx bys where "decodeCanonicalBase64Url b64 (drop 4 x) = Some bx" "decodeCanonicalBase64Url b64 (drop 4 y) = Some bys"
    "map uint bx < map uint bys"
    by (auto simp: compareAgentIds_def compareBytes_less split: option.splits)
  then show ?case by (intro exI [of _ "[bx, bys]"]) simp
next
  case (Cons z zs)
  then have "compareAgentIds b64 x y < 0" "isStrictlyAscending (compareAgentIds b64) (y # z # zs)" by (simp_all split: if_splits)
  with Cons.IH obtain ids where ids: "map (\<lambda>a. decodeCanonicalBase64Url b64 (drop 4 a)) (y # z # zs) = map Some ids"
    "sorted_wrt (<) (map (map uint) ids)" by blast
  obtain bys rest where split: "ids = bys # rest" "decodeCanonicalBase64Url b64 (drop 4 y) = Some bys" using ids(1) by (cases ids) auto
  obtain bx where bx: "decodeCanonicalBase64Url b64 (drop 4 x) = Some bx" "map uint bx < map uint bys"
    using \<open>compareAgentIds b64 x y < 0\<close> split(2) by (auto simp: compareAgentIds_def compareBytes_less split: option.splits)
  have "sorted_wrt (<) (map (map uint) (bx # ids))" using ids(2) bx(2) split(1) by (auto dest: less_trans)
  then show ?case using ids(1) bx(1) by (intro exI [of _ "bx # ids"]) simp
qed

lemma ascending_agentIds_bytes:
  assumes "isStrictlyAscending (compareAgentIds b64) agentIds" "2 \<le> length agentIds"
  shows "\<exists>ids. map (\<lambda>a. decodeCanonicalBase64Url b64 (drop 4 a)) agentIds = map Some ids \<and> sorted_wrt (<) (map (map uint) ids)"
proof -
  obtain x y zs where "agentIds = x # y # zs" using assms(2) by (cases agentIds; cases "tl agentIds") auto
  then show ?thesis using ascending_agentIds assms(1) by blast
qed

end
