(* ===== verification/Ed25519.thy ===== *)
theory Ed25519
  imports Identifiers
begin

text \<open>
  Closed Ed25519 representations, the first part of \<^verbatim>\<open>packages/identity/src/agent-key.ts\<close>: which
  32-byte public keys and 64-byte signatures are admitted before any cryptographic check.
  The loops compare byte arrays from the most significant byte; the lemmas give them as
  comparisons of the little-endian numbers the arrays spell.
\<close>

unbundle bit_operations_syntax

section \<open>Definitions\<close>

definition PUBLIC_KEY_BYTE_LENGTH :: nat where
  "PUBLIC_KEY_BYTE_LENGTH = 32"

definition SIGNATURE_BYTE_LENGTH :: nat where
  "SIGNATURE_BYTE_LENGTH = 64"

definition FIELD_MODULUS :: "byte list" where
  "FIELD_MODULUS = 0xed # replicate 30 0xff @ [0x7f]"

definition SCALAR_ORDER :: "byte list" where
  "SCALAR_ORDER =
     [0xed, 0xd3, 0xf5, 0x5c, 0x1a, 0x63, 0x12, 0x58, 0xd6, 0x9c, 0xf7, 0xa2, 0xde,
      0xf9, 0xde, 0x14, 0x00, 0x00, 0x00, 0x00, 0x00, 0x00, 0x00, 0x00, 0x00, 0x00,
      0x00, 0x00, 0x00, 0x00, 0x00, 0x10]"

definition hexValue :: "char \<Rightarrow> nat" where
  "hexValue c = (let n = of_char c :: nat in if n \<le> 57 then n - 48 else n - 87)"

fun bytesFromHex :: "string \<Rightarrow> byte list" where
  "bytesFromHex (h # l # rest) = of_nat (16 * hexValue h + hexValue l) # bytesFromHex rest"
| "bytesFromHex _ = []"

definition SMALL_ORDER_POINTS :: "byte list list" where
  "SMALL_ORDER_POINTS =
     [replicate 32 0,
      1 # replicate 31 0,
      bytesFromHex ''26e8958fc2b227b045c3f489f2ef98f0d5dfac05d3c63339b13802886d53fc05'',
      bytesFromHex ''c7176a703d4dd84fba3c0b760d10670f2a2053fa2c39ccc64ec7fd7792ac037a'',
      0xec # replicate 30 0xff @ [0x7f],
      0xed # replicate 30 0xff @ [0x7f],
      0xee # replicate 30 0xff @ [0x7f]]"

text \<open>The loop of \<^verbatim>\<open>isLessThanLittleEndian\<close>: the argument counts the indices still to visit.\<close>

fun lessLoop :: "byte list \<Rightarrow> byte list \<Rightarrow> nat \<Rightarrow> bool" where
  "lessLoop value upperBound 0 = False"
| "lessLoop value upperBound (Suc index) =
     (if value ! index \<noteq> upperBound ! index then value ! index < upperBound ! index
      else lessLoop value upperBound index)"

definition isLessThanLittleEndian :: "byte list \<Rightarrow> byte list \<Rightarrow> bool" where
  "isLessThanLittleEndian value upperBound =
     (if length value \<noteq> length upperBound then False else lessLoop value upperBound (length value))"

definition hasCanonicalPointEncoding :: "byte list \<Rightarrow> bool" where
  "hasCanonicalPointEncoding value =
     (if length value \<noteq> PUBLIC_KEY_BYTE_LENGTH then False
      else isLessThanLittleEndian
             (value[PUBLIC_KEY_BYTE_LENGTH - 1 := (value ! (PUBLIC_KEY_BYTE_LENGTH - 1)) AND 0x7f]) FIELD_MODULUS)"

definition encodesSmallOrderPoint :: "byte list \<Rightarrow> bool" where
  "encodesSmallOrderPoint value =
     list_ex (\<lambda>point.
       list_all (\<lambda>index.
         index < length value \<and> index < length point \<and>
         (let mask = (if index = PUBLIC_KEY_BYTE_LENGTH - 1 then 0x7f else 0xff) in
          (value ! index) AND mask = point ! index)) [0..<PUBLIC_KEY_BYTE_LENGTH])
       SMALL_ORDER_POINTS"

definition hasAcceptedPublicKeyEncoding :: "byte list \<Rightarrow> bool" where
  "hasAcceptedPublicKeyEncoding value \<longleftrightarrow> hasCanonicalPointEncoding value \<and> \<not> encodesSmallOrderPoint value"

definition decodeAcceptedPublicKey :: "base64url \<Rightarrow> string \<Rightarrow> byte list option" where
  "decodeAcceptedPublicKey b64 value =
     (case decodeCanonicalBase64Url b64 value of
        None \<Rightarrow> None
      | Some bytes \<Rightarrow> if hasAcceptedPublicKeyEncoding bytes then Some bytes else None)"

definition hasCanonicalEd25519SignatureEncoding :: "byte list \<Rightarrow> bool" where
  "hasCanonicalEd25519SignatureEncoding signature =
     (if length signature \<noteq> SIGNATURE_BYTE_LENGTH then False
      else hasCanonicalPointEncoding (take PUBLIC_KEY_BYTE_LENGTH signature) \<and>
           isLessThanLittleEndian (drop PUBLIC_KEY_BYTE_LENGTH signature) SCALAR_ORDER)"

section \<open>Little-endian numbers\<close>

fun leValue :: "byte list \<Rightarrow> nat" where
  "leValue [] = 0"
| "leValue (b # bs) = unat b + 256 * leValue bs"

lemma byte_bound: "unat (b :: byte) < 256"
  using unsigned_less [of b] by simp

lemma leValue_append: "leValue (xs @ ys) = leValue xs + 256 ^ length xs * leValue ys"
  by (induction xs) (auto simp: algebra_simps)

lemma leValue_less: "leValue bs < 256 ^ length bs"
proof (induction bs)
  case (Cons b bs)
  then have "leValue bs + 1 \<le> 256 ^ length bs" by simp
  then have "256 * (leValue bs + 1) \<le> 256 * 256 ^ length bs" by (rule mult_le_mono2)
  with byte_bound [of b] show ?case by simp
qed simp

lemma lessLoop_take:
  "n \<le> length v \<Longrightarrow> n \<le> length b \<Longrightarrow> lessLoop v b n \<longleftrightarrow> leValue (take n v) < leValue (take n b)"
proof (induction n)
  case (Suc n)
  have v: "leValue (take (Suc n) v) = leValue (take n v) + 256 ^ n * unat (v ! n)"
    and b: "leValue (take (Suc n) b) = leValue (take n b) + 256 ^ n * unat (b ! n)"
    using Suc.prems by (simp_all add: take_Suc_conv_app_nth leValue_append)
  have bv: "leValue (take n v) < 256 ^ n" and bb: "leValue (take n b) < 256 ^ n"
    using leValue_less [of "take n v"] leValue_less [of "take n b"] Suc.prems by simp_all
  have lt: "x < 256 ^ n \<Longrightarrow> i < j \<Longrightarrow> x + 256 ^ n * i < y + 256 ^ n * j" for x y i j :: nat
  proof -
    assume "x < 256 ^ n" "i < j"
    then have "x + 256 ^ n * i < 256 ^ n * (i + 1)" by simp
    also have "\<dots> \<le> 256 ^ n * j" using \<open>i < j\<close> by (intro mult_le_mono2) simp
    finally show ?thesis by simp
  qed
  show ?case
  proof (cases "v ! n = b ! n")
    case True
    with Suc v b show ?thesis by simp
  next
    case False
    then consider "unat (v ! n) < unat (b ! n)" | "unat (b ! n) < unat (v ! n)"
      by (metis linorder_neqE_nat word_unat_eq_iff)
    then show ?thesis
    proof cases
      case 1
      with False lt [OF bv 1, of "leValue (take n b)"] show ?thesis
        unfolding v b by (simp add: word_less_nat_alt)
    next
      case 2
      with False lt [OF bb 2, of "leValue (take n v)"] show ?thesis
        unfolding v b by (simp add: word_less_nat_alt)
    qed
  qed
qed simp

lemma isLessThanLittleEndian_iff:
  "isLessThanLittleEndian v b \<longleftrightarrow> length v = length b \<and> leValue v < leValue b"
  by (auto simp: isLessThanLittleEndian_def lessLoop_take)

lemma unat_ff: "unat (0xff :: byte) = 255"
  by code_simp

lemma leValue_ff: "leValue (replicate n 0xff) + 1 = 256 ^ n"
proof (induction n)
  case (Suc n)
  have "leValue (replicate (Suc n) 0xff) = 255 + 256 * leValue (replicate n 0xff)"
    by (simp only: replicate_Suc leValue.simps unat_ff)
  then show ?case using Suc by simp
qed simp

lemma add_mult_mod: "x < m \<Longrightarrow> (x + m * y) mod (m * k) = x + m * (y mod k)" for x m y k :: nat
  by (simp add: mod_mult2_eq)

lemma leValue_field: "leValue FIELD_MODULUS = 2 ^ 255 - 19" "length FIELD_MODULUS = 32"
proof -
  have "leValue (replicate 30 0xff) = 256 ^ 30 - 1" using leValue_ff [of 30] by linarith
  then show "leValue FIELD_MODULUS = 2 ^ 255 - 19" by (simp add: FIELD_MODULUS_def leValue_append)
  show "length FIELD_MODULUS = 32" by (simp add: FIELD_MODULUS_def)
qed

lemma leValue_scalar:
  "leValue SCALAR_ORDER = 2 ^ 252 + 27742317777372353535851937790883648493" "length SCALAR_ORDER = 32"
  by (simp_all add: SCALAR_ORDER_def)

lemma unat_and_7f: "unat (b AND 0x7f :: byte) = unat b mod 128"
proof -
  have "(0x7f :: byte) = mask 7" by (simp add: mask_eq_exp_minus_1)
  then have "b AND 0x7f = take_bit 7 b" by (simp add: take_bit_eq_mask)
  then have "unat (b AND 0x7f) = take_bit 7 (unat b)" by (simp only: unsigned_take_bit_eq)
  then show ?thesis by (simp add: take_bit_eq_mod)
qed

lemma leValue_clear_top:
  assumes "length v = 32"
  shows "leValue (v[31 := (v ! 31) AND 0x7f]) = leValue v mod 2 ^ 255"
proof -
  have v: "v = take 31 v @ [v ! 31]"
    using assms take_Suc_conv_app_nth [of 31 v] by simp
  define t where "t = take 31 v"
  have len: "length t = 31" and lt: "leValue t < 256 ^ 31"
    using assms leValue_less [of t] by (simp_all add: t_def)
  have "v[31 := (v ! 31) AND 0x7f] = t @ [(v ! 31) AND 0x7f]"
    by (subst v) (simp add: t_def [symmetric] len list_update_append)
  then have l: "leValue (v[31 := (v ! 31) AND 0x7f]) = leValue t + 256 ^ 31 * (unat (v ! 31) mod 128)"
    by (simp add: leValue_append len unat_and_7f)
  have "leValue v = leValue t + 256 ^ 31 * unat (v ! 31)"
    by (subst v) (simp add: t_def [symmetric] leValue_append len)
  also have "\<dots> mod (256 ^ 31 * 128) = leValue t + 256 ^ 31 * (unat (v ! 31) mod 128)"
    using lt by (rule add_mult_mod)
  finally show ?thesis by (simp add: l)
qed

lemma hasCanonicalPointEncoding_iff:
  "hasCanonicalPointEncoding v \<longleftrightarrow> length v = 32 \<and> leValue v mod 2 ^ 255 < 2 ^ 255 - 19"
  by (auto simp: hasCanonicalPointEncoding_def PUBLIC_KEY_BYTE_LENGTH_def isLessThanLittleEndian_iff
      leValue_field leValue_clear_top)

text \<open>
  C16: A public key is admitted only in the one encoding of its point: 32 bytes whose
  little-endian number without the sign bit is below the field prime; and a
  signature only in the one encoding of its point and scalar: 64 bytes, the first half
  such a point, the second half a number below the group order. Of a point whose x is
  zero a signature's first half may carry either sign bit, as in the code; a key excludes
  it with the small-order points.
\<close>

theorem canonical_ed25519_encodings:
  "(hasAcceptedPublicKeyEncoding key \<longleftrightarrow>
      length key = 32 \<and> leValue key mod 2 ^ 255 < 2 ^ 255 - 19 \<and> \<not> encodesSmallOrderPoint key) \<and>
   (hasCanonicalEd25519SignatureEncoding sig \<longleftrightarrow>
      length sig = 64 \<and> leValue (take 32 sig) mod 2 ^ 255 < 2 ^ 255 - 19 \<and>
      leValue (drop 32 sig) < 2 ^ 252 + 27742317777372353535851937790883648493)"
  by (auto simp: hasAcceptedPublicKeyEncoding_def hasCanonicalEd25519SignatureEncoding_def
      hasCanonicalPointEncoding_iff isLessThanLittleEndian_iff leValue_scalar
      PUBLIC_KEY_BYTE_LENGTH_def SIGNATURE_BYTE_LENGTH_def)

end
