(* ===== verification/Signed_Message.thy ===== *)
theory Signed_Message
  imports Ed25519
begin

text \<open>
  Attributed messages, \<^verbatim>\<open>packages/identity/src/signed-message.ts\<close>, over the canonical JSON
  boundary of \<^verbatim>\<open>canonical-json.ts\<close> and the single-signature JWS of \<^verbatim>\<open>agent-key.ts\<close>. JSON
  parsing and canonicalization, base64url, and the signature check of \<^verbatim>\<open>jose\<close> are parameters.
  A decoded message is the record of its view and of the state the code keeps for it in a
  \<^verbatim>\<open>WeakMap\<close>. The wire-version service is the production default, the binary's own sets;
  the check that no in-process code replaced the canonicalizer's intrinsics is taken to pass.
\<close>

section \<open>Canonical JSON\<close>

definition MAXIMUM_CONTAINER_DEPTH :: nat where
  "MAXIMUM_CONTAINER_DEPTH = 16"

definition hasWellFormedUnicode :: "string \<Rightarrow> bool" where
  "hasWellFormedUnicode s \<longleftrightarrow> wellFormedUtf8 (utf8Bytes s)"

lemma hasWellFormedUnicode_ascii: "asciiText s \<Longrightarrow> hasWellFormedUnicode s"
  using utf8Decode_ascii [of s] by (auto simp: hasWellFormedUnicode_def utf8Decode_def split: if_splits)

text \<open>The visit of a JSON value: well-formed text everywhere, containers no deeper than the bound.\<close>

fun visitJsonValue :: "json \<Rightarrow> nat \<Rightarrow> bool" where
  "visitJsonValue JNull d = True"
| "visitJsonValue (JBool b) d = True"
| "visitJsonValue (JNum n) d = True"
| "visitJsonValue (JStr s) d = hasWellFormedUnicode s"
| "visitJsonValue (JArr vs) d =
     (let nextDepth = d + 1 in
      if nextDepth > MAXIMUM_CONTAINER_DEPTH then False else list_all (\<lambda>v. visitJsonValue v nextDepth) vs)"
| "visitJsonValue (JObj ms) d =
     (let nextDepth = d + 1 in
      if nextDepth > MAXIMUM_CONTAINER_DEPTH then False
      else list_all (\<lambda>(k, v). hasWellFormedUnicode k \<and> visitJsonValue v nextDepth) ms)"

definition encodeCanonicalJson :: "(json \<Rightarrow> string option) \<Rightarrow> json \<Rightarrow> byte list option" where
  "encodeCanonicalJson canonicalize value =
     (if visitJsonValue value 0 then map_option utf8Bytes (canonicalize value) else None)"

text \<open>\<^verbatim>\<open>TextDecoder\<close> drops a leading byte order mark unless told to keep it.\<close>

definition decodeText :: "byte list \<Rightarrow> string option" where
  "decodeText bytes = utf8Decode (if take 3 bytes = [0xEF, 0xBB, 0xBF] then drop 3 bytes else bytes)"

definition parseCanonicalJson ::
  "(string \<Rightarrow> json option) \<Rightarrow> (json \<Rightarrow> string option) \<Rightarrow> byte list \<Rightarrow> json option" where
  "parseCanonicalJson parseJson canonicalize bytes =
     Option.bind (Option.bind (decodeText bytes) parseJson) (\<lambda>value.
       if \<not> visitJsonValue value 0 then None
       else Option.bind (canonicalize value) (\<lambda>encoded. if utf8Bytes encoded = bytes then Some value else None))"

text \<open>A value that was parsed is encoded back to the very bytes it was parsed from.\<close>

lemma parseCanonicalJson_encode:
  "parseCanonicalJson parseJson canonicalize bytes = Some value \<Longrightarrow> encodeCanonicalJson canonicalize value = Some bytes"
  by (auto simp: parseCanonicalJson_def encodeCanonicalJson_def bind_eq_Some_conv split: if_splits)

section \<open>The single-signature General JWS\<close>

record general_jws =
  gj_payload :: string
  gj_protected :: string
  gj_signature :: string

definition generalJwsJson :: "general_jws \<Rightarrow> json" where
  "generalJwsJson rep =
     JObj [(''payload'', JStr (gj_payload rep)),
           (''signatures'', JArr [JObj [(''protected'', JStr (gj_protected rep)), (''signature'', JStr (gj_signature rep))]])]"

definition isGeneralJws :: "base64url \<Rightarrow> general_jws \<Rightarrow> bool" where
  "isGeneralJws b64 rep \<longleftrightarrow>
     decodeCanonicalBase64Url b64 (gj_payload rep) \<noteq> None \<and>
     decodeCanonicalBase64Url b64 (gj_protected rep) \<noteq> None \<and>
     (case decodeCanonicalBase64Url b64 (gj_signature rep) of
        None \<Rightarrow> False | Some bytes \<Rightarrow> hasCanonicalEd25519SignatureEncoding bytes)"

definition decodeGeneralJws :: "base64url \<Rightarrow> json \<Rightarrow> general_jws option" where
  "decodeGeneralJws b64 value =
     (case closedObject [''payload'', ''signatures''] value of
        Some [JStr payload, JArr [signature]] \<Rightarrow>
          (case closedObject [''protected'', ''signature''] signature of
             Some [JStr protected, JStr sig] \<Rightarrow>
               let rep = \<lparr>gj_payload = payload, gj_protected = protected, gj_signature = sig\<rparr>
               in if isGeneralJws b64 rep then Some rep else None
           | _ \<Rightarrow> None)
      | _ \<Rightarrow> None)"

section \<open>Signed messages\<close>

definition WIRE_VERSION :: string where
  "WIRE_VERSION = ''2026.1021.3''"

definition LIVE_WIRE_VERSIONS :: "string list" where
  "LIVE_WIRE_VERSIONS = [WIRE_VERSION]"

definition HISTORY_WIRE_VERSIONS :: "string list" where
  "HISTORY_WIRE_VERSIONS = LIVE_WIRE_VERSIONS @ []"

definition SIGNED_MESSAGE_TYPE :: string where
  "SIGNED_MESSAGE_TYPE = ''application/vnd.sharness.signed-message+jws''"

definition MAXIMUM_BODY_BYTES :: nat where
  "MAXIMUM_BODY_BYTES = 262144"

definition MAXIMUM_RECIPIENTS :: nat where
  "MAXIMUM_RECIPIENTS = 128"

definition signedMessagePayloadJson ::
  "string \<Rightarrow> agent_id \<Rightarrow> string \<Rightarrow> agent_id list \<Rightarrow> message_id \<Rightarrow> string \<Rightarrow> json" where
  "signedMessagePayloadJson version sender cardDigest recipients messageId body =
     JObj [(''kind'', JStr ''signedMessage''), (''sharnessVersion'', JStr version),
           (''senderAgentId'', JStr sender), (''agentCardDigest'', JStr cardDigest),
           (''recipientAgentIds'', JArr (map JStr recipients)), (''messageId'', JStr messageId),
           (''body'', JStr body)]"

definition protectedHeaderJson :: "string \<Rightarrow> json" where
  "protectedHeaderJson kid = JObj [(''alg'', JStr ''Ed25519''), (''kid'', JStr kid), (''typ'', JStr SIGNED_MESSAGE_TYPE)]"

text \<open>
  The bound computed when the module loads, from a maximal payload and a fixed-width
  signature; \<open>None\<close> stands for the module failing to load.
\<close>

definition MAXIMUM_ENCODED_BYTES :: "base64url \<Rightarrow> (json \<Rightarrow> string option) \<Rightarrow> nat option" where
  "MAXIMUM_ENCODED_BYTES b64 canonicalize =
     (let encoded = (\<lambda>n. b64_encode b64 (replicate n 0)) in
      Option.bind (encodeCanonicalJson canonicalize
        (signedMessagePayloadJson WIRE_VERSION (''agt_'' @ encoded 16) (''acd_'' @ encoded 32)
          (replicate MAXIMUM_RECIPIENTS (''agt_'' @ encoded 16)) (''msg_'' @ encoded 16) (encoded MAXIMUM_BODY_BYTES)))
        (\<lambda>payloadBytes.
      Option.bind (encodeCanonicalJson canonicalize
        (protectedHeaderJson (''urn:ietf:params:oauth:jwk-thumbprint:sha-256:'' @ encoded 32))) (\<lambda>headerBytes.
      map_option length (encodeCanonicalJson canonicalize
        (generalJwsJson \<lparr>gj_payload = b64_encode b64 payloadBytes, gj_protected = b64_encode b64 headerBytes,
           gj_signature = encoded 64\<rparr>)))))"

definition recipientsAreCanonical :: "base64url \<Rightarrow> agent_id list \<Rightarrow> bool" where
  "recipientsAreCanonical b64 = isStrictlyAscending (compareAgentIds b64)"

definition isRecipientAgentIds :: "base64url \<Rightarrow> agent_id list \<Rightarrow> bool" where
  "isRecipientAgentIds b64 recipients \<longleftrightarrow>
     list_all (isAgentId b64) recipients \<and> 1 \<le> length recipients \<and> length recipients \<le> MAXIMUM_RECIPIENTS \<and>
     recipientsAreCanonical b64 recipients"

definition isOpaqueBody :: "base64url \<Rightarrow> string \<Rightarrow> bool" where
  "isOpaqueBody b64 value =
     (case decodeCanonicalBase64Url b64 value of None \<Rightarrow> False | Some bytes \<Rightarrow> length bytes \<le> MAXIMUM_BODY_BYTES)"

definition isAgentCardDigest :: "base64url \<Rightarrow> string \<Rightarrow> bool" where
  "isAgentCardDigest b64 = canonicalIdentifier b64 ''acd_'' 32"

record signed_message_payload =
  sp_sharnessVersion :: string
  sp_senderAgentId :: agent_id
  sp_agentCardDigest :: string
  sp_recipientAgentIds :: "agent_id list"
  sp_messageId :: message_id
  sp_body :: string

definition decodePayload :: "base64url \<Rightarrow> json \<Rightarrow> signed_message_payload option" where
  "decodePayload b64 value =
     Option.bind (closedObject [''kind'', ''sharnessVersion'', ''senderAgentId'', ''agentCardDigest'',
                                ''recipientAgentIds'', ''messageId'', ''body''] value) (\<lambda>ms.
     Option.bind (asString (ms ! 0)) (\<lambda>kind.
     Option.bind (asString (ms ! 1)) (\<lambda>version.
     Option.bind (asString (ms ! 2)) (\<lambda>sender.
     Option.bind (asString (ms ! 3)) (\<lambda>cardDigest.
     Option.bind (Option.bind (asArray (ms ! 4)) asStrings) (\<lambda>recipients.
     Option.bind (asString (ms ! 5)) (\<lambda>messageId.
     Option.bind (asString (ms ! 6)) (\<lambda>body.
       if kind = ''signedMessage'' \<and> version \<in> set HISTORY_WIRE_VERSIONS \<and> isAgentId b64 sender \<and>
          isAgentCardDigest b64 cardDigest \<and> isRecipientAgentIds b64 recipients \<and> isMessageId b64 messageId \<and>
          isOpaqueBody b64 body
       then Some \<lparr>sp_sharnessVersion = version, sp_senderAgentId = sender, sp_agentCardDigest = cardDigest,
                  sp_recipientAgentIds = recipients, sp_messageId = messageId, sp_body = body\<rparr>
       else None))))))))"

record protected_header =
  ph_alg :: string
  ph_kid :: string
  ph_typ :: string

definition decodeProtectedHeader :: "json \<Rightarrow> protected_header option" where
  "decodeProtectedHeader value =
     Option.bind (Option.bind (closedObject [''alg'', ''kid'', ''typ''] value) asStrings) (\<lambda>ss.
       if ss ! 0 = ''Ed25519'' \<and> ss ! 2 = SIGNED_MESSAGE_TYPE
       then Some \<lparr>ph_alg = ss ! 0, ph_kid = ss ! 1, ph_typ = ss ! 2\<rparr> else None)"

record signed_message =
  sm_senderAgentId :: agent_id
  sm_agentCardDigest :: string
  sm_recipientAgentIds :: "agent_id list"
  sm_messageId :: message_id
  sm_body :: "byte list"
  sm_wireVersion :: string
  sm_representation :: general_jws
  sm_protectedHeader :: protected_header
  sm_encodedByteLength :: nat

record identity_environment =
  ie_base64url :: base64url
  ie_parseJson :: "string \<Rightarrow> json option"
  ie_canonicalize :: "json \<Rightarrow> string option"

abbreviation decodeCanonicalJson :: "identity_environment \<Rightarrow> byte list \<Rightarrow> json option" where
  "decodeCanonicalJson env \<equiv> parseCanonicalJson (ie_parseJson env) (ie_canonicalize env)"

definition decodeRepresentation :: "identity_environment \<Rightarrow> general_jws \<Rightarrow> signed_message option" where
  "decodeRepresentation env rep =
     (let b64 = ie_base64url env in
      Option.bind (decodeCanonicalBase64Url b64 (gj_payload rep)) (\<lambda>payloadBytes.
      Option.bind (decodeCanonicalBase64Url b64 (gj_protected rep)) (\<lambda>headerBytes.
      Option.bind (Option.bind (decodeCanonicalJson env payloadBytes) (decodePayload b64)) (\<lambda>payload.
      Option.bind (Option.bind (decodeCanonicalJson env headerBytes) decodeProtectedHeader) (\<lambda>header.
      Option.bind (decodeCanonicalBase64Url b64 (sp_body payload)) (\<lambda>body.
      Option.bind (encodeCanonicalJson (ie_canonicalize env) (generalJwsJson rep)) (\<lambda>encoded.
      Option.bind (MAXIMUM_ENCODED_BYTES b64 (ie_canonicalize env)) (\<lambda>maximum.
      if length encoded > maximum then None
      else Some \<lparr>sm_senderAgentId = sp_senderAgentId payload, sm_agentCardDigest = sp_agentCardDigest payload,
                 sm_recipientAgentIds = sp_recipientAgentIds payload, sm_messageId = sp_messageId payload,
                 sm_body = body, sm_wireVersion = sp_sharnessVersion payload, sm_representation = rep,
                 sm_protectedHeader = header, sm_encodedByteLength = length encoded\<rparr>))))))))"

definition decodeSignedMessage :: "identity_environment \<Rightarrow> json \<Rightarrow> signed_message option" where
  "decodeSignedMessage env value =
     Option.bind (decodeGeneralJws (ie_base64url env) value) (decodeRepresentation env)"

definition encodeView :: "signed_message \<Rightarrow> json" where
  "encodeView message = generalJwsJson (sm_representation message)"

definition decodeLive :: "identity_environment \<Rightarrow> json \<Rightarrow> signed_message option" where
  "decodeLive env value =
     Option.bind (decodeSignedMessage env value) (\<lambda>message.
       if sm_wireVersion message \<in> set LIVE_WIRE_VERSIONS then Some message else None)"

section \<open>Verification\<close>

record agent_card =
  ac_agentId :: agent_id
  ac_publicKey :: string
  ac_digest :: string
  ac_principalId :: string
  ac_agentName :: string
  ac_issuedAt :: string
  ac_wireVersion :: string
  ac_representation :: general_jws
  ac_protectedHeader :: protected_header

text \<open>The operations of \<^verbatim>\<open>jose\<close>: the thumbprint of a key, its import, and the signature check.\<close>

record 'k jose_verifier =
  jv_thumbprintUri :: "string \<Rightarrow> string option"
  jv_importKey :: "string \<Rightarrow> 'k option"
  jv_generalVerify :: "general_jws \<Rightarrow> 'k \<Rightarrow> bool"

definition verifySignature :: "'k jose_verifier \<Rightarrow> general_jws \<Rightarrow> string \<Rightarrow> bool" where
  "verifySignature jose rep publicKey =
     (case jv_importKey jose publicKey of None \<Rightarrow> False | Some key \<Rightarrow> jv_generalVerify jose rep key)"

definition verifySignedMessage :: "'k jose_verifier \<Rightarrow> signed_message \<Rightarrow> agent_card \<Rightarrow> bool" where
  "verifySignedMessage jose message agentCard =
     (case jv_thumbprintUri jose (ac_publicKey agentCard) of
        None \<Rightarrow> False
      | Some expectedKid \<Rightarrow>
          let messageMatches = sm_senderAgentId message = ac_agentId agentCard \<and> sm_agentCardDigest message = ac_digest agentCard;
              header = sm_protectedHeader message;
              headerMatches = ph_kid header = expectedKid \<and> ph_alg header = ''Ed25519'' \<and> ph_typ header = SIGNED_MESSAGE_TYPE
          in if \<not> messageMatches \<or> \<not> headerMatches then False
             else verifySignature jose (sm_representation message) (ac_publicKey agentCard))"

section \<open>Properties\<close>

lemma decodePayload_facts:
  "decodePayload b64 v = Some p \<Longrightarrow>
   isAgentId b64 (sp_senderAgentId p) \<and> isMessageId b64 (sp_messageId p) \<and>
   isRecipientAgentIds b64 (sp_recipientAgentIds p) \<and> isOpaqueBody b64 (sp_body p)"
  by (auto simp: decodePayload_def bind_eq_Some_conv split: if_splits)

lemma decodeProtectedHeader_facts:
  "decodeProtectedHeader v = Some h \<Longrightarrow> ph_alg h = ''Ed25519'' \<and> ph_typ h = SIGNED_MESSAGE_TYPE"
  by (auto simp: decodeProtectedHeader_def bind_eq_Some_conv split: if_splits)

lemma decodeRepresentation_facts:
  assumes "decodeRepresentation env rep = Some m"
  shows "sm_representation m = rep"
    and "\<exists>encoded maximum. encodeCanonicalJson (ie_canonicalize env) (generalJwsJson rep) = Some encoded \<and>
      MAXIMUM_ENCODED_BYTES (ie_base64url env) (ie_canonicalize env) = Some maximum \<and>
      sm_encodedByteLength m = length encoded \<and> sm_encodedByteLength m \<le> maximum"
    and "isAgentId (ie_base64url env) (sm_senderAgentId m) \<and> isMessageId (ie_base64url env) (sm_messageId m) \<and>
      isRecipientAgentIds (ie_base64url env) (sm_recipientAgentIds m) \<and> length (sm_body m) \<le> MAXIMUM_BODY_BYTES"
    and "ph_alg (sm_protectedHeader m) = ''Ed25519'' \<and> ph_typ (sm_protectedHeader m) = SIGNED_MESSAGE_TYPE"
  using assms
  by (auto simp: decodeRepresentation_def isOpaqueBody_def bind_eq_Some_conv Let_def
      dest!: decodePayload_facts decodeProtectedHeader_facts split: if_splits)

lemma decodeLive_facts:
  assumes "decodeLive env v = Some m"
  shows "decodeRepresentation env (sm_representation m) = Some m" and "sm_wireVersion m \<in> set LIVE_WIRE_VERSIONS"
  using assms decodeRepresentation_facts(1)
  by (fastforce simp: decodeLive_def decodeSignedMessage_def bind_eq_Some_conv split: if_splits)+

end
