(* ===== verification/Router_Contract.thy ===== *)
theory Router_Contract
  imports Signed_Message
begin

text \<open>
  The Router's wire contract, \<^verbatim>\<open>packages/router/src/router/contract.ts\<close>: canonical identifier
  and cursor shapes, the exact error envelopes, the request decoders, and the byte limits
  derived from the closed representations. The base64url codec belongs to the package
  \<^verbatim>\<open>effect\<close> and is a parameter, a record of its two functions; \<^verbatim>\<open>Number.POSITIVE_INFINITY\<close> is
  the value \<open>None\<close> of a length.
\<close>

section \<open>Canonical values\<close>

definition base64UrlLength :: "nat \<Rightarrow> nat" where
  "base64UrlLength byteLength = (byteLength * 8 + 5) div 6"

definition hasCanonicalBase64UrlLength :: "base64url \<Rightarrow> string \<Rightarrow> nat \<Rightarrow> bool" where
  "hasCanonicalBase64UrlLength b64 value byteLength =
     (case b64_decode b64 value of
        None \<Rightarrow> False
      | Some decoded \<Rightarrow> length decoded = byteLength \<and> b64_encode b64 decoded = value)"

definition canonicalValue :: "base64url \<Rightarrow> string \<Rightarrow> nat \<Rightarrow> string \<Rightarrow> bool" where
  "canonicalValue b64 pre byteLength text \<longleftrightarrow>
     startsWith text pre \<and> hasCanonicalBase64UrlLength b64 (drop (length pre) text) byteLength"

definition isRouterInstanceId :: "base64url \<Rightarrow> string \<Rightarrow> bool" where
  "isRouterInstanceId b64 = canonicalValue b64 ''rti_'' 16"

definition isSignedMessageDigest :: "base64url \<Rightarrow> string \<Rightarrow> bool" where
  "isSignedMessageDigest b64 = canonicalValue b64 ''smd_'' 32"

section \<open>Poll cursors\<close>

definition pollCursorPrefix :: string where
  "pollCursorPrefix = ''plc_''"

definition pollCursorType :: string where
  "pollCursorType = ''application/vnd.sharness.poll-cursor+jwe''"

definition pollCursorProtectedHeaderJson :: string where
  "pollCursorProtectedHeaderJson =
     jcs (JObj [(''alg'', JStr ''dir''), (''enc'', JStr ''A256GCM''), (''typ'', JStr pollCursorType)])"

definition encodedPollCursorProtectedHeader :: "base64url \<Rightarrow> string" where
  "encodedPollCursorProtectedHeader b64 = b64_encode b64 (utf8Bytes pollCursorProtectedHeaderJson)"

definition encodedPollCursorProtectedHeaderLength :: nat where
  "encodedPollCursorProtectedHeaderLength = (length pollCursorProtectedHeaderJson * 8 + 5) div 6"

definition cursorPlaintextJson :: "agent_id \<Rightarrow> router_instance_id \<Rightarrow> string \<Rightarrow> json" where
  "cursorPlaintextJson agentId routerInstanceId lastScannedOrder =
     JObj [(''agentId'', JStr agentId), (''routerInstanceId'', JStr routerInstanceId),
           (''lastScannedOrder'', JStr lastScannedOrder)]"

definition pollCursorEncodedLength ::
  "(json \<Rightarrow> string option) \<Rightarrow> agent_id \<Rightarrow> router_instance_id \<Rightarrow> int \<Rightarrow> nat option" where
  "pollCursorEncodedLength canonicalize agentId routerInstanceId lastScannedOrder =
     (case canonicalize (cursorPlaintextJson agentId routerInstanceId (intText lastScannedOrder)) of
        None \<Rightarrow> None
      | Some plaintext \<Rightarrow>
          Some (length pollCursorPrefix + encodedPollCursorProtectedHeaderLength + 1 + 1 + 16 + 1 +
                base64UrlLength (length plaintext) + 1 + 22))"

definition maximumAgentId :: agent_id where
  "maximumAgentId = ''agt_AAAAAAAAAAAAAAAAAAAAAA''"

definition maximumRouterInstanceId :: router_instance_id where
  "maximumRouterInstanceId = ''rti_AAAAAAAAAAAAAAAAAAAAAA''"

definition maximumPollCursorLength :: "(json \<Rightarrow> string option) \<Rightarrow> nat option" where
  "maximumPollCursorLength canonicalize =
     pollCursorEncodedLength canonicalize maximumAgentId maximumRouterInstanceId (2 ^ 128 - 1)"

record cursor_segments =
  cs_encodedHeader :: string
  cs_encryptedKey :: string
  cs_iv :: string
  cs_ciphertext :: string
  cs_tag :: string

text \<open>
  The cursor pattern: at most the maximum length in all, the prefix, then five segments
  without a dot, separated by dots, up to the end of the text.
\<close>

definition extractCursorSegments :: "nat \<Rightarrow> string \<Rightarrow> cursor_segments option" where
  "extractCursorSegments maximumLength value =
     (if length value \<le> maximumLength \<and> startsWith value pollCursorPrefix then
        (case splitOn (CHR ''.'') (drop (length pollCursorPrefix) value) of
           [h, k, iv, c, t] \<Rightarrow>
             Some \<lparr>cs_encodedHeader = h, cs_encryptedKey = k, cs_iv = iv, cs_ciphertext = c, cs_tag = t\<rparr>
         | _ \<Rightarrow> None)
      else None)"

definition hasCanonicalCiphertext :: "base64url \<Rightarrow> string \<Rightarrow> bool" where
  "hasCanonicalCiphertext b64 ciphertext =
     (case b64_decode b64 ciphertext of
        None \<Rightarrow> False
      | Some decoded \<Rightarrow> length decoded > 0 \<and> b64_encode b64 decoded = ciphertext)"

definition hasCanonicalCursorShape :: "base64url \<Rightarrow> nat \<Rightarrow> string \<Rightarrow> bool" where
  "hasCanonicalCursorShape b64 maximumLength value =
     (case extractCursorSegments maximumLength value of
        None \<Rightarrow> False
      | Some segments \<Rightarrow>
          if cs_encryptedKey segments \<noteq> '''' then False
          else if cs_encodedHeader segments \<noteq> encodedPollCursorProtectedHeader b64 \<or>
                  \<not> hasCanonicalBase64UrlLength b64 (cs_iv segments) 12 then False
          else hasCanonicalBase64UrlLength b64 (cs_tag segments) 16 \<and>
               hasCanonicalCiphertext b64 (cs_ciphertext segments))"

section \<open>Error envelopes\<close>

datatype router_http_error =
    MalformedRequestError
  | AuthenticationFailedError
  | RouteNotFoundError
  | MethodNotAllowedError
  | VersionMismatchError "string list"
  | PayloadTooLargeError
  | UnsupportedMediaTypeError
  | OverloadedError
  | UnavailableError
  | InternalServerError

definition isDigit :: "char \<Rightarrow> bool" where
  "isDigit c \<longleftrightarrow> (48::nat) \<le> of_char c \<and> of_char c \<le> (57::nat)"

text \<open>\<^verbatim>\<open>/^\d{4}\.\d{3,4}\.\d+$/\<close>\<close>

definition matchesWireVersionPattern :: "string \<Rightarrow> bool" where
  "matchesWireVersionPattern s =
     (case splitOn (CHR ''.'') s of
        [y, d, n] \<Rightarrow>
          list_all isDigit y \<and> length y = 4 \<and>
          list_all isDigit d \<and> (length d = 3 \<or> length d = 4) \<and>
          list_all isDigit n \<and> n \<noteq> ''''
      | _ \<Rightarrow> False)"

definition errorBody :: "string \<Rightarrow> string" where
  "errorBody name = ''{'' @ jsonString ''error'' @ '':'' @ jsonString name @ ''}''"

definition versionMismatchJson :: "string list \<Rightarrow> json" where
  "versionMismatchJson supported =
     JObj [(''error'', JStr ''version_mismatch''), (''supported'', JArr (map JStr supported))]"

text \<open>The table of tags with their status and body, in declaration order.\<close>

definition routerHttpErrors :: "(string \<times> nat \<times> string \<times> router_http_error) list" where
  "routerHttpErrors =
     [(''MalformedRequestError'', 400, errorBody ''malformed'', MalformedRequestError),
      (''AuthenticationFailedError'', 401, errorBody ''authentication_failed'', AuthenticationFailedError),
      (''RouteNotFoundError'', 404, errorBody ''not_found'', RouteNotFoundError),
      (''MethodNotAllowedError'', 405, errorBody ''method_not_allowed'', MethodNotAllowedError),
      (''VersionMismatchError'', 412, jcs (versionMismatchJson LIVE_WIRE_VERSIONS), VersionMismatchError LIVE_WIRE_VERSIONS),
      (''PayloadTooLargeError'', 413, errorBody ''payload_too_large'', PayloadTooLargeError),
      (''UnsupportedMediaTypeError'', 415, errorBody ''unsupported_media_type'', UnsupportedMediaTypeError),
      (''OverloadedError'', 429, errorBody ''overloaded'', OverloadedError),
      (''UnavailableError'', 503, errorBody ''unavailable'', UnavailableError),
      (''InternalServerError'', 500, errorBody ''internal'', InternalServerError)]"

fun errorTag :: "router_http_error \<Rightarrow> string" where
  "errorTag MalformedRequestError = ''MalformedRequestError''"
| "errorTag AuthenticationFailedError = ''AuthenticationFailedError''"
| "errorTag RouteNotFoundError = ''RouteNotFoundError''"
| "errorTag MethodNotAllowedError = ''MethodNotAllowedError''"
| "errorTag (VersionMismatchError _) = ''VersionMismatchError''"
| "errorTag PayloadTooLargeError = ''PayloadTooLargeError''"
| "errorTag UnsupportedMediaTypeError = ''UnsupportedMediaTypeError''"
| "errorTag OverloadedError = ''OverloadedError''"
| "errorTag UnavailableError = ''UnavailableError''"
| "errorTag InternalServerError = ''InternalServerError''"

definition routerHttpErrorEnvelope :: "string \<Rightarrow> (nat \<times> string) option" where
  "routerHttpErrorEnvelope tag = map_option (\<lambda>(status, body, _). (status, body)) (map_of routerHttpErrors tag)"

definition isCanonicalRouterJson :: "(json \<Rightarrow> string option) \<Rightarrow> string \<Rightarrow> json \<Rightarrow> bool" where
  "isCanonicalRouterJson canonicalize text encoded =
     (case canonicalize encoded of None \<Rightarrow> False | Some canonical \<Rightarrow> text = canonical)"

text \<open>The closed struct of a mismatch body: its error literal and at least one version.\<close>

definition decodeVersionMismatch :: "json \<Rightarrow> string list option" where
  "decodeVersionMismatch v =
     (case closedObject [''error'', ''supported''] v of
        Some [e, JArr vs] \<Rightarrow>
          if e = JStr ''version_mismatch'' then
            (case asStrings vs of
               None \<Rightarrow> None
             | Some supported \<Rightarrow>
                 if supported \<noteq> [] \<and> list_all matchesWireVersionPattern supported
                 then Some supported else None)
          else None
      | _ \<Rightarrow> None)"

definition routerHttpErrorFromResponse ::
  "(string \<Rightarrow> json option) \<Rightarrow> (json \<Rightarrow> string option) \<Rightarrow> nat \<Rightarrow> string \<Rightarrow> router_http_error option" where
  "routerHttpErrorFromResponse parseJson canonicalize status body =
     (if status = 412 then
        (case Option.bind (parseJson body) decodeVersionMismatch of
           None \<Rightarrow> None
         | Some supported \<Rightarrow>
             if isCanonicalRouterJson canonicalize body (versionMismatchJson supported)
             then Some (VersionMismatchError supported) else None)
      else map_option (\<lambda>(_, _, _, e). e)
             (List.find (\<lambda>(_, s, b, _). s = status \<and> b = body) routerHttpErrors))"

section \<open>Representation limits\<close>

datatype representation_error = RouterRepresentationLengthError

record router_representation_limits =
  rl_sendRequestBodyBytes :: int
  rl_pollRequestBodyBytes :: int
  rl_oneMessageBatchBytes :: int

definition signedMessagePlaceholder :: string where
  "signedMessagePlaceholder = ''__signed_message__''"

definition signedMessagePlaceholderByteLength :: int where
  "signedMessagePlaceholderByteLength = int (length (jsonString signedMessagePlaceholder))"

definition canonicalByteLength :: "(json \<Rightarrow> string option) \<Rightarrow> json \<Rightarrow> representation_error + int" where
  "canonicalByteLength canonicalize value =
     (case canonicalize value of
        None \<Rightarrow> Inl RouterRepresentationLengthError
      | Some encoded \<Rightarrow> Inr (int (length encoded)))"

text \<open>\<^verbatim>\<open>Number.isSafeInteger\<close> on an integer.\<close>

definition isSafeInteger :: "int \<Rightarrow> bool" where
  "isSafeInteger value \<longleftrightarrow> - (2 ^ 53 - 1) \<le> value \<and> value \<le> 2 ^ 53 - 1"

definition supportedLength :: "int \<Rightarrow> bool" where
  "supportedLength value \<longleftrightarrow> isSafeInteger value \<and> value \<ge> 0"

definition checkedAdd :: "int \<Rightarrow> int \<Rightarrow> representation_error + int" where
  "checkedAdd left right =
     (let result = left + right in
      if \<not> supportedLength left \<or> \<not> supportedLength right \<or> \<not> supportedLength result
      then Inl RouterRepresentationLengthError else Inr result)"

definition sendBodyJson :: "string \<Rightarrow> json \<Rightarrow> json" where
  "sendBodyJson mode message =
     JObj [(''callerAgentId'', JStr maximumAgentId),
           (''request'', JObj [(''expectedRouterInstanceId'', JStr maximumRouterInstanceId),
                               (''mode'', JStr mode), (''signedMessage'', message)])]"

definition maximumSendBody :: json where
  "maximumSendBody = sendBodyJson ''initial'' (JStr signedMessagePlaceholder)"

definition maximumPollBody :: "nat \<Rightarrow> json" where
  "maximumPollBody cursorLength =
     JObj [(''callerAgentId'', JStr maximumAgentId),
           (''request'', JObj [(''pollCursor'', JStr (replicate cursorLength (CHR ''A'')))])]"

definition batchJson :: "router_instance_id \<Rightarrow> json list \<Rightarrow> string \<Rightarrow> json" where
  "batchJson routerInstanceId messages pollCursor =
     JObj [(''kind'', JStr ''batch''), (''pollCursor'', JStr pollCursor),
           (''routerInstanceId'', JStr routerInstanceId), (''signedMessages'', JArr messages)]"

definition maximumOneMessageBatch :: "nat \<Rightarrow> json" where
  "maximumOneMessageBatch cursorLength =
     batchJson maximumRouterInstanceId [JStr signedMessagePlaceholder] (replicate cursorLength (CHR ''A''))"

definition calculateRouterRepresentationLimits ::
  "(json \<Rightarrow> string option) \<Rightarrow> nat \<Rightarrow> int \<Rightarrow> representation_error + router_representation_limits" where
  "calculateRouterRepresentationLimits canonicalize cursorLength maximumSignedMessageByteLength =
     bindE (canonicalByteLength canonicalize maximumSendBody) (\<lambda>sendTemplateBytes.
     bindE (canonicalByteLength canonicalize (maximumPollBody cursorLength)) (\<lambda>pollRequestBodyBytes.
     bindE (canonicalByteLength canonicalize (maximumOneMessageBatch cursorLength)) (\<lambda>batchTemplateBytes.
     bindE (checkedAdd (sendTemplateBytes - signedMessagePlaceholderByteLength) maximumSignedMessageByteLength)
       (\<lambda>sendRequestBodyBytes.
     bindE (checkedAdd (batchTemplateBytes - signedMessagePlaceholderByteLength) maximumSignedMessageByteLength)
       (\<lambda>oneMessageBatchBytes.
     Inr \<lparr>rl_sendRequestBodyBytes = sendRequestBodyBytes,
          rl_pollRequestBodyBytes = pollRequestBodyBytes,
          rl_oneMessageBatchBytes = oneMessageBatchBytes\<rparr>)))))"

section \<open>Properties of the limits\<close>

lemma plainText_replicate [simp]: "plainText (replicate n (CHR ''A''))"
  by (induction n) auto

lemma calculateRouterRepresentationLimits_Inr:
  assumes "rfc8785 c" "calculateRouterRepresentationLimits c L maxBytes = Inr lim"
  shows "rl_oneMessageBatchBytes lim =
      int (length (jcs (maximumOneMessageBatch L))) - signedMessagePlaceholderByteLength + maxBytes"
    and "rl_sendRequestBodyBytes lim =
      int (length (jcs maximumSendBody)) - signedMessagePlaceholderByteLength + maxBytes"
    and "rl_pollRequestBodyBytes lim = int (length (jcs (maximumPollBody L)))"
  using assms
  by (auto simp: calculateRouterRepresentationLimits_def canonicalByteLength_def rfc8785_def
      checkedAdd_def resultE_iffs Let_def split: if_splits)

lemma length_jcs_batch:
  "plainText rid \<Longrightarrow> plainText cursor \<Longrightarrow>
   length (jcs (batchJson rid [m] cursor)) = 74 + length rid + length cursor + length (jcs m)"
  by (simp add: batchJson_def length_jcs_obj length_jcs_arr del: jcs.simps(5,6))

lemma one_message_bound:
  assumes "rfc8785 c" and "calculateRouterRepresentationLimits c L maxBytes = Inr lim"
    and "plainText rid" and "length rid = length maximumRouterInstanceId"
    and "plainText cursor" and "length cursor \<le> L"
    and "int (length (jcs m)) \<le> maxBytes"
  shows "int (length (jcs (batchJson rid [m] cursor))) \<le> rl_oneMessageBatchBytes lim"
proof -
  have "plainText maximumRouterInstanceId" by (simp add: maximumRouterInstanceId_def)
  moreover have "plainText signedMessagePlaceholder" by (simp add: signedMessagePlaceholder_def)
  ultimately have "rl_oneMessageBatchBytes lim = int (74 + length rid + L) + maxBytes"
    using calculateRouterRepresentationLimits_Inr(1) [OF assms(1,2)] assms(4)
    by (simp add: maximumOneMessageBatch_def length_jcs_batch signedMessagePlaceholderByteLength_def)
  then show ?thesis using assms by (simp add: length_jcs_batch)
qed

text \<open>
  The derived one-message limit is a bound on the wire: with a canonicalizer that follows
  RFC 8785, every batch that carries a single message no longer than the identity layer's
  maximum, a cursor no longer than the maximum cursor and an instance identity of the
  canonical width is encoded in at most \<^verbatim>\<open>oneMessageBatchBytes\<close> bytes.
\<close>

theorem one_message_batch_fits:
  assumes "rfc8785 c" and "calculateRouterRepresentationLimits c L maxBytes = Inr lim"
    and "plainText rid" and "length rid = length maximumRouterInstanceId"
    and "plainText cursor" and "length cursor \<le> L"
    and "int (length (jcs m)) \<le> maxBytes"
  shows "int (length (jcs (batchJson rid [m] cursor))) \<le> rl_oneMessageBatchBytes lim"
  using assms by (rule one_message_bound)

lemma length_jcs_send:
  "length (jcs (sendBodyJson mode m)) = 139 + length (jsonString mode) + length (jcs m)"
  by (simp add: sendBodyJson_def length_jcs_obj maximumAgentId_def maximumRouterInstanceId_def del: jcs.simps(5,6))

lemma length_jcs_poll: "length (jcs (maximumPollBody L)) = 74 + L"
  by (simp add: maximumPollBody_def length_jcs_obj maximumAgentId_def del: jcs.simps(5,6))

lemma calculateRouterRepresentationLimits_jcs:
  assumes "0 \<le> maxBytes" "maxBytes + int L + 148 \<le> 2 ^ 53 - 1"
  shows "calculateRouterRepresentationLimits (\<lambda>v. Some (jcs v)) L maxBytes =
     Inr \<lparr>rl_sendRequestBodyBytes = 148 + maxBytes, rl_pollRequestBodyBytes = 74 + int L,
          rl_oneMessageBatchBytes = 100 + int L + maxBytes\<rparr>"
proof -
  have p: "plainText maximumRouterInstanceId" "length maximumRouterInstanceId = 26"
    "plainText signedMessagePlaceholder" "length signedMessagePlaceholder = 18"
    by (simp_all add: maximumRouterInstanceId_def signedMessagePlaceholder_def)
  have i: "plainText ''initial''" by simp
  show ?thesis
    using assms p
    by (simp add: calculateRouterRepresentationLimits_def canonicalByteLength_def maximumSendBody_def
        maximumOneMessageBatch_def length_jcs_send length_jcs_batch length_jcs_poll checkedAdd_def
        supportedLength_def isSafeInteger_def signedMessagePlaceholderByteLength_def
        length_jsonString_plain [OF i] Let_def)
qed

theorem one_message_batch_fits_witness:
  "int (length (jcs (batchJson maximumRouterInstanceId [JStr ''hello''] ''plc_x''))) \<le> 1400"
  using one_message_batch_fits [of "\<lambda>v. Some (jcs v)" 300 1000 _ maximumRouterInstanceId "''plc_x''" "JStr ''hello''",
      OF _ calculateRouterRepresentationLimits_jcs]
  by (simp add: rfc8785_def maximumRouterInstanceId_def)

section \<open>Properties of the error envelopes\<close>

lemma decodeVersionMismatch_json:
  "supported \<noteq> [] \<Longrightarrow> list_all matchesWireVersionPattern supported \<Longrightarrow>
   decodeVersionMismatch (versionMismatchJson supported) = Some supported"
  by (simp add: decodeVersionMismatch_def versionMismatchJson_def closedObject_def)

lemma live_versions_match: "LIVE_WIRE_VERSIONS \<noteq> []" "list_all matchesWireVersionPattern LIVE_WIRE_VERSIONS"
  by (simp_all add: LIVE_WIRE_VERSIONS_def WIRE_VERSION_def matchesWireVersionPattern_def isDigit_def)

lemma routerHttpErrors_distinct_status: "distinct (map (\<lambda>(_, s, _, _). s) routerHttpErrors)"
  by (simp add: routerHttpErrors_def)

lemma find_by_status:
  "distinct (map (\<lambda>(_, s, _, _). s) xs) \<Longrightarrow> (tag, status, body, e) \<in> set xs \<Longrightarrow>
   List.find (\<lambda>(_, s, b, _). s = status \<and> b = body) xs = Some (tag, status, body, e)"
  by (induction xs) force+

text \<open>
  Every declared failure survives the wire: the envelope the server writes for its tag is
  the one status and body pair the client decodes back into that failure. The mismatch envelope, which carries the supported versions, is
  read through the JSON parser and must be canonical text.
\<close>

theorem error_envelope_roundtrip:
  assumes "rfc8785 c"
    and "parseJson (jcs (versionMismatchJson LIVE_WIRE_VERSIONS)) = Some (versionMismatchJson LIVE_WIRE_VERSIONS)"
    and "(tag, status, body, e) \<in> set routerHttpErrors"
  shows "errorTag e = tag \<and> routerHttpErrorEnvelope tag = Some (status, body) \<and>
    routerHttpErrorFromResponse parseJson c status body = Some e"
proof (intro conjI)
  show "errorTag e = tag" using assms(3) by (auto simp: routerHttpErrors_def)
  have "distinct (map fst routerHttpErrors)" by (simp add: routerHttpErrors_def)
  then show "routerHttpErrorEnvelope tag = Some (status, body)"
    using assms(3) by (simp add: routerHttpErrorEnvelope_def)
  show "routerHttpErrorFromResponse parseJson c status body = Some e"
  proof (cases "status = 412")
    case True
    with assms(3) have "body = jcs (versionMismatchJson LIVE_WIRE_VERSIONS)"
      "e = VersionMismatchError LIVE_WIRE_VERSIONS"
      by (auto simp: routerHttpErrors_def)
    with True assms(1,2) show ?thesis
      by (simp add: routerHttpErrorFromResponse_def decodeVersionMismatch_json live_versions_match
          isCanonicalRouterJson_def rfc8785_def)
  next
    case False
    with find_by_status [OF routerHttpErrors_distinct_status assms(3)] show ?thesis
      by (simp add: routerHttpErrorFromResponse_def)
  qed
qed

theorem error_envelope_roundtrip_witness:
  "routerHttpErrorFromResponse
     (\<lambda>t. if t = jcs (versionMismatchJson LIVE_WIRE_VERSIONS) then Some (versionMismatchJson LIVE_WIRE_VERSIONS) else None)
     (\<lambda>v. Some (jcs v)) 429 (errorBody ''overloaded'') = Some OverloadedError"
  using error_envelope_roundtrip [of "\<lambda>v. Some (jcs v)"
      "\<lambda>t. if t = jcs (versionMismatchJson LIVE_WIRE_VERSIONS) then Some (versionMismatchJson LIVE_WIRE_VERSIONS) else None"
      "''OverloadedError''" 429 "errorBody ''overloaded''" OverloadedError]
  by (simp add: rfc8785_def routerHttpErrors_def del: jcs.simps)

end
