(* ===== verification/Router_Feed.thy ===== *)
theory Router_Feed
  imports Prelude
begin

text \<open>
  The Router's volatile feed, \<^verbatim>\<open>packages/router/src/router/feed.ts\<close>: one globally ordered list
  of retained messages with finite count and byte retention, the retry index that makes a
  send idempotent, and the private order that numbers every accepted message. A
  \<^verbatim>\<open>bigint\<close> is an \<open>int\<close>; the recipients, a JavaScript \<^verbatim>\<open>Set\<close>, are the list of its elements in
  insertion order. Entries are compared by value where the code compares references: two
  entries of one feed never carry the same order.
\<close>

section \<open>Data\<close>

definition maximumPrivateOrder :: int where
  "maximumPrivateOrder = 2 ^ 128 - 1"

datatype send_mode = Initial | Retry

datatype router_send_result =
    Accepted router_instance_id signed_message_digest
  | RouterRestarted router_instance_id
  | MessageInvalid
  | IdempotencyConflict
  | RetryIdentityUnknown

record router_feed_input =
  rf_routerInstanceId :: router_instance_id
  rf_retainedMessageCapacity :: int
  rf_retainedMessageByteCapacity :: int

record 'm feed_candidate =
  fc_mode :: send_mode
  fc_signedMessage :: 'm
  fc_encodedMessageJcs :: string
  fc_encodedByteLength :: int
  fc_recipients :: "agent_id list"
  fc_senderAgentId :: agent_id
  fc_messageId :: message_id
  fc_signedMessageDigest :: signed_message_digest

record 'm feed_entry =
  fe_order :: int
  fe_signedMessage :: 'm
  fe_encodedMessageJcs :: string
  fe_encodedByteLength :: int
  fe_recipients :: "agent_id list"
  fe_senderAgentId :: agent_id
  fe_messageId :: message_id
  fe_signedMessageDigest :: signed_message_digest

record 'm feed_state =
  fs_entries :: "'m feed_entry list"
  fs_retryIndex :: "string \<rightharpoonup> 'm feed_entry"
  fs_retainedBytes :: int
  fs_tailOrder :: int
  fs_greatestEvictedOrder :: int

datatype feed_accept_result =
    FeedResult router_send_result "agent_id list option"
  | FeedOverloaded

record 'm feed_snapshot =
  sn_entries :: "'m feed_entry list"
  sn_tailOrder :: int
  sn_greatestEvictedOrder :: int

datatype feed_error = FeedOrderOutOfRangeError

section \<open>Operations\<close>

definition retryKey :: "agent_id \<Rightarrow> message_id \<Rightarrow> string" where
  "retryKey senderAgentId messageId = senderAgentId @ CHR 0x00 # messageId"

definition makeInitialState :: "int \<Rightarrow> 'm feed_state" where
  "makeInitialState tailOrder =
     \<lparr>fs_entries = [], fs_retryIndex = Map.empty, fs_retainedBytes = 0,
      fs_tailOrder = tailOrder, fs_greatestEvictedOrder = tailOrder\<rparr>"

definition acceptedResult :: "router_instance_id \<Rightarrow> 'm feed_entry \<Rightarrow> router_send_result" where
  "acceptedResult routerInstanceId entry = Accepted routerInstanceId (fe_signedMessageDigest entry)"

definition retryResult ::
  "router_instance_id \<Rightarrow> 'm feed_candidate \<Rightarrow> (string \<rightharpoonup> 'm feed_entry) \<Rightarrow> string \<Rightarrow> feed_accept_result" where
  "retryResult routerInstanceId candidate retryIndex key =
     FeedResult
       (case retryIndex key of
          None \<Rightarrow> RetryIdentityUnknown
        | Some retained \<Rightarrow>
            if fe_encodedMessageJcs retained \<noteq> fc_encodedMessageJcs candidate
            then IdempotencyConflict
            else acceptedResult routerInstanceId retained)
       None"

text \<open>
  The eviction loop shifts entries off the front while either bound is exceeded. It returns
  the remaining entries, the retry index, the retained bytes and the last evicted order.
\<close>

fun evictUntilWithinBounds ::
  "'m feed_entry list \<Rightarrow> (string \<rightharpoonup> 'm feed_entry) \<Rightarrow> int \<Rightarrow> int \<Rightarrow> int \<Rightarrow> int option \<Rightarrow>
   'm feed_entry list \<times> (string \<rightharpoonup> 'm feed_entry) \<times> int \<times> int option" where
  "evictUntilWithinBounds [] retryIndex retainedBytes countCapacity byteCapacity greatest =
     ([], retryIndex, retainedBytes, greatest)"
| "evictUntilWithinBounds (evicted # rest) retryIndex retainedBytes countCapacity byteCapacity greatest =
     (if int (length (evicted # rest)) > countCapacity \<or> retainedBytes > byteCapacity then
        let key = retryKey (fe_senderAgentId evicted) (fe_messageId evicted) in
        evictUntilWithinBounds rest
          (if retryIndex key = Some evicted then retryIndex(key := None) else retryIndex)
          (retainedBytes - fe_encodedByteLength evicted)
          countCapacity byteCapacity (Some (fe_order evicted))
      else (evicted # rest, retryIndex, retainedBytes, greatest))"

definition entryOf :: "'m feed_candidate \<Rightarrow> int \<Rightarrow> 'm feed_entry" where
  "entryOf candidate order =
     \<lparr>fe_order = order,
      fe_signedMessage = fc_signedMessage candidate,
      fe_encodedMessageJcs = fc_encodedMessageJcs candidate,
      fe_encodedByteLength = fc_encodedByteLength candidate,
      fe_recipients = fc_recipients candidate,
      fe_senderAgentId = fc_senderAgentId candidate,
      fe_messageId = fc_messageId candidate,
      fe_signedMessageDigest = fc_signedMessageDigest candidate\<rparr>"

definition appendCandidate ::
  "'m feed_state \<Rightarrow> 'm feed_candidate \<Rightarrow> string \<Rightarrow> router_feed_input \<Rightarrow> feed_accept_result \<times> 'm feed_state" where
  "appendCandidate current candidate key input =
     (let entry = entryOf candidate (fs_tailOrder current + 1);
          (entries, retryIndex, retainedBytes, greatest) =
            evictUntilWithinBounds (fs_entries current @ [entry])
              ((fs_retryIndex current)(key \<mapsto> entry))
              (fs_retainedBytes current + fc_encodedByteLength candidate)
              (rf_retainedMessageCapacity input) (rf_retainedMessageByteCapacity input) None
      in (FeedResult (acceptedResult (rf_routerInstanceId input) entry) (Some (fe_recipients entry)),
          \<lparr>fs_entries = entries, fs_retryIndex = retryIndex, fs_retainedBytes = retainedBytes,
           fs_tailOrder = fe_order entry,
           fs_greatestEvictedOrder =
             (case greatest of None \<Rightarrow> fs_greatestEvictedOrder current | Some g \<Rightarrow> g)\<rparr>))"

definition modifyFeed ::
  "'m feed_state \<Rightarrow> 'm feed_candidate \<Rightarrow> router_feed_input \<Rightarrow> feed_accept_result \<times> 'm feed_state" where
  "modifyFeed current candidate input =
     (let key = retryKey (fc_senderAgentId candidate) (fc_messageId candidate);
          retained = fs_retryIndex current key
      in if fc_mode candidate = Retry then
           (retryResult (rf_routerInstanceId input) candidate (fs_retryIndex current) key, current)
         else if retained \<noteq> None then
           (FeedResult IdempotencyConflict None, current)
         else if fs_tailOrder current = maximumPrivateOrder then
           (FeedOverloaded, current)
         else appendCandidate current candidate key input)"

definition makeRouterFeed :: "'m feed_state" where
  "makeRouterFeed = makeInitialState 0"

definition makeRouterFeedAtOrder :: "int \<Rightarrow> feed_error + 'm feed_state" where
  "makeRouterFeedAtOrder initialTailOrder =
     (if initialTailOrder < 0 \<or> initialTailOrder > maximumPrivateOrder
      then Inl FeedOrderOutOfRangeError
      else Inr (makeInitialState initialTailOrder))"

definition feedSnapshot :: "'m feed_state \<Rightarrow> 'm feed_snapshot" where
  "feedSnapshot current =
     \<lparr>sn_entries = fs_entries current, sn_tailOrder = fs_tailOrder current,
      sn_greatestEvictedOrder = fs_greatestEvictedOrder current\<rparr>"

definition freshAppendReady :: "'m feed_state \<Rightarrow> bool" where
  "freshAppendReady current \<longleftrightarrow> fs_tailOrder current < maximumPrivateOrder"

definition entriesAfter :: "'m feed_snapshot \<Rightarrow> int \<Rightarrow> 'm feed_entry list" where
  "entriesAfter snapshot order = filter (\<lambda>entry. fe_order entry > order) (sn_entries snapshot)"

text \<open>A sequence of acceptances, in the order the \<^verbatim>\<open>Ref\<close> serializes them.\<close>

fun feedRun :: "router_feed_input \<Rightarrow> 'm feed_candidate list \<Rightarrow> 'm feed_state \<Rightarrow> 'm feed_state" where
  "feedRun input [] st = st"
| "feedRun input (c # cs) st = feedRun input cs (snd (modifyFeed st c input))"

section \<open>The interface of an ordered feed\<close>

text \<open>
  What the poll and the send handlers rely on: the retained entries carry exactly the
  orders after the greatest evicted one up to the tail, an acceptance only appends behind
  the tail and drops from the front, and neither bound of the window moves backwards.
\<close>

locale ordered_feed =
  fixes step :: "'c \<Rightarrow> 's \<Rightarrow> 's"
    and inv :: "'s \<Rightarrow> bool"
    and entries :: "'s \<Rightarrow> 'e list"
    and order :: "'e \<Rightarrow> int"
    and tail :: "'s \<Rightarrow> int"
    and evicted :: "'s \<Rightarrow> int"
  assumes inv_step: "inv s \<Longrightarrow> inv (step c s)"
    and contiguous: "inv s \<Longrightarrow> map order (entries s) = [evicted s + 1..tail s]"
    and window: "inv s \<Longrightarrow> evicted s \<le> tail s"
    and tail_step: "inv s \<Longrightarrow> tail s \<le> tail (step c s)"
    and evicted_step: "inv s \<Longrightarrow> evicted s \<le> evicted (step c s)"
    and kept_step: "inv s \<Longrightarrow> e \<in> set (entries s) \<Longrightarrow> evicted (step c s) < order e \<Longrightarrow> e \<in> set (entries (step c s))"
    and fresh_step: "inv s \<Longrightarrow> e \<in> set (entries (step c s)) \<Longrightarrow> e \<in> set (entries s) \<or> tail s < order e"
begin

lemma order_bounds: "inv s \<Longrightarrow> e \<in> set (entries s) \<Longrightarrow> evicted s < order e \<and> order e \<le> tail s"
proof -
  assume "inv s" "e \<in> set (entries s)"
  then have "order e \<in> set [evicted s + 1..tail s]" by (simp flip: contiguous)
  then show ?thesis by simp
qed

lemma inv_run: "inv s \<Longrightarrow> inv (fold step cs s)"
  by (induction cs arbitrary: s) (auto simp: inv_step)

lemma bounds_run: "inv s \<Longrightarrow> tail s \<le> tail (fold step cs s) \<and> evicted s \<le> evicted (fold step cs s)"
proof (induction cs arbitrary: s)
  case Nil
  then show ?case by simp
next
  case (Cons c cs)
  then have "tail (step c s) \<le> tail (fold step cs (step c s)) \<and>
    evicted (step c s) \<le> evicted (fold step cs (step c s))"
    by (simp add: inv_step)
  with Cons.prems tail_step [of s c] evicted_step [of s c] show ?case by simp
qed

text \<open>A retained entry stays retained until the window passes it.\<close>

lemma kept_run:
  "inv s \<Longrightarrow> e \<in> set (entries s) \<Longrightarrow> evicted (fold step cs s) < order e \<Longrightarrow> e \<in> set (entries (fold step cs s))"
proof (induction cs arbitrary: s)
  case Nil
  then show ?case by simp
next
  case (Cons c cs)
  have "evicted (step c s) \<le> evicted (fold step cs (step c s))"
    using Cons.prems(1) bounds_run [of "step c s" cs] by (simp add: inv_step)
  with Cons.prems have "e \<in> set (entries (step c s))" by (auto intro: kept_step)
  with Cons.IH [of "step c s"] Cons.prems show ?case by (simp add: inv_step)
qed

text \<open>Whatever a run added is numbered behind the tail it started from.\<close>

lemma fresh_run:
  "inv s \<Longrightarrow> e \<in> set (entries (fold step cs s)) \<Longrightarrow> e \<in> set (entries s) \<or> tail s < order e"
proof (induction cs arbitrary: s)
  case Nil
  then show ?case by simp
next
  case (Cons c cs)
  then have "e \<in> set (entries (step c s)) \<or> tail (step c s) < order e" by (simp add: inv_step)
  then show ?case
    using Cons.prems(1) tail_step [of s c] fresh_step [of s e c] by auto
qed

end

section \<open>Invariant and bounds\<close>

abbreviation entryKey :: "'m feed_entry \<Rightarrow> string" where
  "entryKey e \<equiv> retryKey (fe_senderAgentId e) (fe_messageId e)"

definition retryIndexOf :: "'m feed_entry list \<Rightarrow> (string \<rightharpoonup> 'm feed_entry)" where
  "retryIndexOf es = map_of (map (\<lambda>e. (entryKey e, e)) es)"

definition totalBytes :: "'m feed_entry list \<Rightarrow> int" where
  "totalBytes es = sum_list (map fe_encodedByteLength es)"

definition feedInv :: "'m feed_state \<Rightarrow> bool" where
  "feedInv st \<longleftrightarrow>
     0 \<le> fs_greatestEvictedOrder st \<and> fs_greatestEvictedOrder st \<le> fs_tailOrder st \<and>
     fs_tailOrder st \<le> maximumPrivateOrder \<and>
     map fe_order (fs_entries st) = [fs_greatestEvictedOrder st + 1..fs_tailOrder st] \<and>
     fs_retainedBytes st = totalBytes (fs_entries st) \<and>
     fs_retryIndex st = retryIndexOf (fs_entries st) \<and>
     distinct (map entryKey (fs_entries st))"

definition fitsBounds :: "router_feed_input \<Rightarrow> 'm feed_entry list \<Rightarrow> bool" where
  "fitsBounds input es \<longleftrightarrow>
     int (length es) \<le> rf_retainedMessageCapacity input \<and>
     totalBytes es \<le> rf_retainedMessageByteCapacity input"

lemma retryIndexOf_simps [simp]:
  "retryIndexOf [] = Map.empty"
  "retryIndexOf (e # es) = (retryIndexOf es)(entryKey e \<mapsto> e)"
  by (simp_all add: retryIndexOf_def)

lemma totalBytes_simps [simp]:
  "totalBytes [] = 0"
  "totalBytes (e # es) = fe_encodedByteLength e + totalBytes es"
  "totalBytes (es @ es') = totalBytes es + totalBytes es'"
  by (simp_all add: totalBytes_def)

lemma retryIndexOf_mem:
  "distinct (map entryKey es) \<Longrightarrow> retryIndexOf es k = Some e \<longleftrightarrow> e \<in> set es \<and> k = entryKey e"
  by (induction es) auto

lemma retryIndexOf_None: "retryIndexOf es k = None \<longleftrightarrow> k \<notin> entryKey ` set es"
  by (induction es) auto

lemma retryIndexOf_append_fresh:
  "entryKey e \<notin> entryKey ` set es \<Longrightarrow> retryIndexOf (es @ [e]) = (retryIndexOf es)(entryKey e \<mapsto> e)"
  by (induction es) (auto simp: fun_upd_twist)

text \<open>
  The loop evicts the shortest prefix whose removal satisfies both bounds, and keeps the
  retry index and the byte count those of the entries that remain.
\<close>

lemma evictUntilWithinBounds_spec:
  assumes "distinct (map entryKey es)"
  shows "\<exists>k\<le>length es.
     evictUntilWithinBounds es (retryIndexOf es) (totalBytes es)
       (rf_retainedMessageCapacity input) (rf_retainedMessageByteCapacity input) g =
       (drop k es, retryIndexOf (drop k es), totalBytes (drop k es),
        if k = 0 then g else Some (fe_order (es ! (k - 1)))) \<and>
     (k < length es \<longrightarrow> fitsBounds input (drop k es)) \<and>
     (\<forall>j<k. \<not> fitsBounds input (drop j es))"
  using assms
proof (induction es arbitrary: g)
  case Nil
  then show ?case by simp
next
  case (Cons e es)
  show ?case
  proof (cases "fitsBounds input (e # es)")
    case True
    then show ?thesis by (intro exI [of _ 0]) (auto simp: fitsBounds_def)
  next
    case False
    have fresh: "(retryIndexOf (e # es))(entryKey e := None) = retryIndexOf es"
      using Cons.prems retryIndexOf_None [of es "entryKey e"] by (auto simp: fun_eq_iff)
    obtain k where k: "k \<le> length es"
      "evictUntilWithinBounds es (retryIndexOf es) (totalBytes es)
        (rf_retainedMessageCapacity input) (rf_retainedMessageByteCapacity input) (Some (fe_order e)) =
        (drop k es, retryIndexOf (drop k es), totalBytes (drop k es),
         if k = 0 then Some (fe_order e) else Some (fe_order (es ! (k - 1))))"
      "k < length es \<longrightarrow> fitsBounds input (drop k es)" "\<forall>j<k. \<not> fitsBounds input (drop j es)"
      using Cons.IH [of "Some (fe_order e)"] Cons.prems by auto
    have least: "\<forall>j<Suc k. \<not> fitsBounds input (drop j (e # es))"
      using k(4) False by (auto simp: less_Suc_eq_0_disj)
    have ev: "evictUntilWithinBounds (e # es) (retryIndexOf (e # es)) (totalBytes (e # es))
       (rf_retainedMessageCapacity input) (rf_retainedMessageByteCapacity input) g =
       (drop k es, retryIndexOf (drop k es), totalBytes (drop k es), Some (fe_order ((e # es) ! k)))"
      using k(1,2) False fresh by (cases k) (auto simp: Let_def fitsBounds_def)
    show ?thesis
    proof (intro exI [of _ "Suc k"] conjI)
      show "\<forall>j<Suc k. \<not> fitsBounds input (drop j (e # es))" by (rule least)
    qed (use k ev in \<open>simp_all del: evictUntilWithinBounds.simps totalBytes_simps retryIndexOf_simps\<close>)
  qed
qed

lemma map_drop_upto: "map f xs = [a..b] \<Longrightarrow> map f (drop k xs) = [a + int k..b]"
proof (induction k arbitrary: xs a)
  case 0
  then show ?case by simp
next
  case (Suc k)
  show ?case
  proof (cases xs)
    case Nil
    with Suc.prems have "b < a" by (metis Nil_is_map_conv upto_Nil2)
    with Nil show ?thesis by simp
  next
    case (Cons x ys)
    with Suc.prems have "map f ys = [a + 1..b]" by (metis list.inject list.simps(9) upto_rec1 upto_Nil list.distinct(1) upto.simps)
    then have "map f (drop k ys) = [a + 1 + int k..b]" by (rule Suc.IH)
    with Cons show ?thesis by (simp add: algebra_simps)
  qed
qed

lemma nth_order_upto: "map f xs = [a..b] \<Longrightarrow> i < length xs \<Longrightarrow> f (xs ! i) = a + int i"
proof -
  assume eq: "map f xs = [a..b]" and i: "i < length xs"
  have "f (xs ! i) # map f (drop (Suc i) xs) = [a + int i..b]"
    using map_drop_upto [OF eq, of i] by (simp add: Cons_nth_drop_Suc [OF i, symmetric])
  then show ?thesis by (metis list.inject list.distinct(1) upto.simps)
qed

lemma feedInv_initial: "0 \<le> t \<Longrightarrow> t \<le> maximumPrivateOrder \<Longrightarrow> feedInv (makeInitialState t)"
  by (simp add: feedInv_def makeInitialState_def)

text \<open>One append in terms of the entries: the shortest sufficient prefix is evicted.\<close>

lemma appendCandidate_spec:
  assumes inv: "feedInv st" and fresh: "fs_retryIndex st key = None"
    and key: "key = retryKey (fc_senderAgentId c) (fc_messageId c)"
    and room: "fs_tailOrder st \<noteq> maximumPrivateOrder"
  defines "e \<equiv> entryOf c (fs_tailOrder st + 1)"
  defines "all \<equiv> fs_entries st @ [e]"
  shows "\<exists>k\<le>length all.
     appendCandidate st c key input =
       (FeedResult (Accepted (rf_routerInstanceId input) (fc_signedMessageDigest c)) (Some (fc_recipients c)),
        \<lparr>fs_entries = drop k all, fs_retryIndex = retryIndexOf (drop k all),
         fs_retainedBytes = totalBytes (drop k all), fs_tailOrder = fs_tailOrder st + 1,
         fs_greatestEvictedOrder = fs_greatestEvictedOrder st + int k\<rparr>) \<and>
     (k < length all \<longrightarrow> fitsBounds input (drop k all)) \<and>
     (\<forall>j<k. \<not> fitsBounds input (drop j all)) \<and>
     map fe_order all = [fs_greatestEvictedOrder st + 1..fs_tailOrder st + 1] \<and>
     distinct (map entryKey all)"
proof -
  have ek: "entryKey e = key" and len: "fe_encodedByteLength e = fc_encodedByteLength c"
    by (simp_all add: e_def entryOf_def key)
  have new: "entryKey e \<notin> entryKey ` set (fs_entries st)"
    using fresh inv ek by (simp add: feedInv_def retryIndexOf_None)
  then have dist: "distinct (map entryKey all)" using inv by (auto simp: all_def feedInv_def)
  have ord: "map fe_order all = [fs_greatestEvictedOrder st + 1..fs_tailOrder st + 1]"
    using inv upto_rec2 [of "fs_greatestEvictedOrder st + 1" "fs_tailOrder st + 1"]
    by (simp add: all_def e_def entryOf_def feedInv_def)
  have idx: "(fs_retryIndex st)(key \<mapsto> e) = retryIndexOf all"
    and bytes: "fs_retainedBytes st + fc_encodedByteLength c = totalBytes all"
    using inv retryIndexOf_append_fresh [OF new] ek len by (simp_all add: all_def feedInv_def)
  obtain k where k: "k \<le> length all"
    "evictUntilWithinBounds all (retryIndexOf all) (totalBytes all)
       (rf_retainedMessageCapacity input) (rf_retainedMessageByteCapacity input) None =
       (drop k all, retryIndexOf (drop k all), totalBytes (drop k all),
        if k = 0 then None else Some (fe_order (all ! (k - 1))))"
    "k < length all \<longrightarrow> fitsBounds input (drop k all)" "\<forall>j<k. \<not> fitsBounds input (drop j all)"
    using evictUntilWithinBounds_spec [OF dist, of input None] by auto
  have "0 < k \<Longrightarrow> fe_order (all ! (k - 1)) = fs_greatestEvictedOrder st + int k"
    using nth_order_upto [OF ord, of "k - 1"] k(1) by auto
  then have "appendCandidate st c key input =
       (FeedResult (Accepted (rf_routerInstanceId input) (fc_signedMessageDigest c)) (Some (fc_recipients c)),
        \<lparr>fs_entries = drop k all, fs_retryIndex = retryIndexOf (drop k all),
         fs_retainedBytes = totalBytes (drop k all), fs_tailOrder = fs_tailOrder st + 1,
         fs_greatestEvictedOrder = fs_greatestEvictedOrder st + int k\<rparr>)"
    using k(2) idx bytes
    by (auto simp: appendCandidate_def acceptedResult_def all_def e_def entryOf_def Let_def)
  with k ord dist show ?thesis by blast
qed

text \<open>Every acceptance either leaves the feed alone or is such an append.\<close>

lemma modifyFeed_cases:
  assumes "feedInv st"
  obtains (unchanged) "snd (modifyFeed st c input) = st"
    "\<And>recipients r. fst (modifyFeed st c input) \<noteq> FeedResult r (Some recipients)"
  | (appended) k where "k \<le> Suc (length (fs_entries st))"
    "fc_mode c = Initial"
    "fs_retryIndex st (retryKey (fc_senderAgentId c) (fc_messageId c)) = None"
    "fs_tailOrder st < maximumPrivateOrder"
    "fst (modifyFeed st c input) =
       FeedResult (Accepted (rf_routerInstanceId input) (fc_signedMessageDigest c)) (Some (fc_recipients c))"
    "fs_entries (snd (modifyFeed st c input)) =
       drop k (fs_entries st @ [entryOf c (fs_tailOrder st + 1)])"
    "fs_tailOrder (snd (modifyFeed st c input)) = fs_tailOrder st + 1"
    "fs_greatestEvictedOrder (snd (modifyFeed st c input)) = fs_greatestEvictedOrder st + int k"
    "feedInv (snd (modifyFeed st c input))"
    "k \<le> length (fs_entries st) \<longrightarrow> fitsBounds input (fs_entries (snd (modifyFeed st c input)))"
    "\<forall>j<k. \<not> fitsBounds input (drop j (fs_entries st @ [entryOf c (fs_tailOrder st + 1)]))"
proof (cases "fc_mode c = Retry \<or> fs_retryIndex st (retryKey (fc_senderAgentId c) (fc_messageId c)) \<noteq> None \<or>
    fs_tailOrder st = maximumPrivateOrder")
  case True
  then show ?thesis using unchanged by (auto simp: modifyFeed_def retryResult_def Let_def)
next
  case False
  define all where "all = fs_entries st @ [entryOf c (fs_tailOrder st + 1)]"
  let ?key = "retryKey (fc_senderAgentId c) (fc_messageId c)"
  from False have m: "modifyFeed st c input = appendCandidate st c ?key input"
    by (auto simp: modifyFeed_def Let_def)
  obtain k where k: "k \<le> length all"
    "modifyFeed st c input =
       (FeedResult (Accepted (rf_routerInstanceId input) (fc_signedMessageDigest c)) (Some (fc_recipients c)),
        \<lparr>fs_entries = drop k all, fs_retryIndex = retryIndexOf (drop k all),
         fs_retainedBytes = totalBytes (drop k all), fs_tailOrder = fs_tailOrder st + 1,
         fs_greatestEvictedOrder = fs_greatestEvictedOrder st + int k\<rparr>)"
    "k < length all \<longrightarrow> fitsBounds input (drop k all)"
    "\<forall>j<k. \<not> fitsBounds input (drop j all)"
    "map fe_order all = [fs_greatestEvictedOrder st + 1..fs_tailOrder st + 1]"
    "distinct (map entryKey all)"
    using appendCandidate_spec [OF assms, of ?key c input] False m by (auto simp: all_def)
  have len: "int (length all) = fs_tailOrder st - fs_greatestEvictedOrder st + 1"
    using arg_cong [OF k(5), of length] assms by (simp add: feedInv_def)
  have "distinct (map entryKey (drop k all))" using k(6) by (simp add: drop_map [symmetric])
  then have "feedInv (snd (modifyFeed st c input))"
    using k(1,2) map_drop_upto [OF k(5), of k] assms False len
    by (auto simp: feedInv_def algebra_simps)
  moreover have "fs_tailOrder st < maximumPrivateOrder"
    using assms False by (auto simp: feedInv_def)
  moreover have "fc_mode c = Initial" using False by (cases "fc_mode c") auto
  ultimately show ?thesis
    using k False by (intro appended [of k]) (auto simp: all_def)
qed

lemma feedInv_modifyFeed: "feedInv st \<Longrightarrow> feedInv (snd (modifyFeed st c input))"
  by (cases rule: modifyFeed_cases [of st c input]) auto

interpretation feed: ordered_feed
  "\<lambda>c s. snd (modifyFeed s c input)" feedInv fs_entries fe_order fs_tailOrder fs_greatestEvictedOrder
  for input
proof unfold_locales
  fix s :: "'a feed_state" and c e
  show "feedInv s \<Longrightarrow> feedInv (snd (modifyFeed s c input))" by (rule feedInv_modifyFeed)
  show "feedInv s \<Longrightarrow> map fe_order (fs_entries s) = [fs_greatestEvictedOrder s + 1..fs_tailOrder s]"
    "feedInv s \<Longrightarrow> fs_greatestEvictedOrder s \<le> fs_tailOrder s"
    by (simp_all add: feedInv_def)
  assume inv: "feedInv s"
  then show "fs_tailOrder s \<le> fs_tailOrder (snd (modifyFeed s c input))"
    "fs_greatestEvictedOrder s \<le> fs_greatestEvictedOrder (snd (modifyFeed s c input))"
    by (cases rule: modifyFeed_cases [of s c input]; simp)+
  show "e \<in> set (fs_entries (snd (modifyFeed s c input))) \<Longrightarrow> e \<in> set (fs_entries s) \<or> fs_tailOrder s < fe_order e"
    using inv
    by (cases rule: modifyFeed_cases [of s c input]) (auto simp: entryOf_def dest!: in_set_dropD)
  assume e: "e \<in> set (fs_entries s)" "fs_greatestEvictedOrder (snd (modifyFeed s c input)) < fe_order e"
  show "e \<in> set (fs_entries (snd (modifyFeed s c input)))"
    using inv
  proof (cases rule: modifyFeed_cases [of s c input])
    case unchanged
    with e show ?thesis by simp
  next
    case (appended k)
    let ?all = "fs_entries s @ [entryOf c (fs_tailOrder s + 1)]"
    from e obtain i where i: "i < length (fs_entries s)" "fs_entries s ! i = e"
      by (auto simp: in_set_conv_nth)
    have "fe_order e = fs_greatestEvictedOrder s + 1 + int i"
      using nth_order_upto [of fe_order "fs_entries s"] inv i by (auto simp: feedInv_def)
    with e(2) appended(8) have "k \<le> i" by simp
    then have "?all ! i \<in> set (drop k ?all)"
      using i by (intro nth_mem_drop) simp_all
    with i appended(6) show ?thesis by (simp add: nth_append)
  qed
qed

lemma feedRun_fold: "feedRun input cs st = fold (\<lambda>c s. snd (modifyFeed s c input)) cs st"
  by (induction cs arbitrary: st) auto

section \<open>Properties\<close>

lemma fitsBounds_modifyFeed:
  assumes "feedInv st" "fitsBounds input (fs_entries st)"
    "0 \<le> rf_retainedMessageCapacity input" "0 \<le> rf_retainedMessageByteCapacity input"
  shows "fitsBounds input (fs_entries (snd (modifyFeed st c input)))"
  using assms(1)
proof (cases rule: modifyFeed_cases [of st c input])
  case unchanged
  with assms show ?thesis by simp
next
  case (appended k)
  show ?thesis
  proof (cases "k \<le> length (fs_entries st)")
    case True
    with appended show ?thesis by simp
  next
    case False
    with appended have "fs_entries (snd (modifyFeed st c input)) = []" by simp
    with assms show ?thesis by (simp add: fitsBounds_def)
  qed
qed

lemma feedRun_invariants:
  "feedInv st \<Longrightarrow> fitsBounds input (fs_entries st) \<Longrightarrow>
   0 \<le> rf_retainedMessageCapacity input \<Longrightarrow> 0 \<le> rf_retainedMessageByteCapacity input \<Longrightarrow>
   feedInv (feedRun input cs st) \<and> fitsBounds input (fs_entries (feedRun input cs st))"
  by (induction cs arbitrary: st) (auto simp: feedInv_modifyFeed fitsBounds_modifyFeed)

text \<open>
  C1: Whatever sequence of acceptances a Router process serves from a starting order inside
  the unsigned range, the retained entries carry exactly the orders after the greatest
  evicted one up to the tail, the byte count and the retry index are those of the
  retained entries, no two of them share a retry identity, the order never leaves its
  128 bits, and both retention bounds hold.
\<close>

theorem feed_run_invariant:
  assumes "makeRouterFeedAtOrder t = Inr st0"
    and "0 \<le> rf_retainedMessageCapacity input" and "0 \<le> rf_retainedMessageByteCapacity input"
  shows "feedInv (feedRun input cs st0) \<and> fitsBounds input (fs_entries (feedRun input cs st0))"
proof -
  from assms(1) have st0: "st0 = makeInitialState t" "0 \<le> t" "t \<le> maximumPrivateOrder"
    by (auto simp: makeRouterFeedAtOrder_def split: if_splits)
  then have "feedInv st0" "fitsBounds input (fs_entries st0)"
    using assms(2,3) feedInv_initial [of t] by (simp_all add: fitsBounds_def makeInitialState_def)
  then show ?thesis using assms(2,3) by (rule feedRun_invariants)
qed

definition sampleInput :: router_feed_input where
  "sampleInput = \<lparr>rf_routerInstanceId = ''rti_x'', rf_retainedMessageCapacity = 2,
     rf_retainedMessageByteCapacity = 100\<rparr>"

definition sampleCandidate :: "string \<Rightarrow> string \<Rightarrow> string feed_candidate" where
  "sampleCandidate mid jcs =
     \<lparr>fc_mode = Initial, fc_signedMessage = jcs, fc_encodedMessageJcs = jcs, fc_encodedByteLength = 40,
      fc_recipients = [''bob''], fc_senderAgentId = ''alice'', fc_messageId = mid,
      fc_signedMessageDigest = ''smd_'' @ jcs\<rparr>"

theorem feed_run_invariant_witness:
  "feedInv (feedRun sampleInput [sampleCandidate ''m1'' ''a'', sampleCandidate ''m2'' ''b'',
      sampleCandidate ''m3'' ''c''] (makeInitialState 0)) \<and>
   fitsBounds sampleInput (fs_entries (feedRun sampleInput [sampleCandidate ''m1'' ''a'',
      sampleCandidate ''m2'' ''b'', sampleCandidate ''m3'' ''c''] (makeInitialState 0)))"
  by (rule feed_run_invariant [of 0])
    (simp_all add: makeRouterFeedAtOrder_def maximumPrivateOrder_def sampleInput_def)

text \<open>
  An accepted message is stored under the next order, at the end of the feed, and the
  feed evicts from its front exactly the fewest entries that bring it within both bounds:
  no shorter eviction would do. With a count capacity of at least one and a byte
  capacity of at least the message's length, the accepted message itself is retained.
\<close>

theorem feed_append_evicts_least:
  assumes "feedInv st"
    and "modifyFeed st c input = (FeedResult (Accepted r d) (Some rs), st')"
    and "1 \<le> rf_retainedMessageCapacity input"
    and "fc_encodedByteLength c \<le> rf_retainedMessageByteCapacity input"
  shows "\<exists>k\<le>length (fs_entries st).
    fs_entries st' = drop k (fs_entries st) @ [entryOf c (fs_tailOrder st + 1)] \<and>
    fs_tailOrder st' = fs_tailOrder st + 1 \<and>
    fs_greatestEvictedOrder st' = fs_greatestEvictedOrder st + int k \<and>
    fitsBounds input (fs_entries st') \<and>
    (\<forall>j<k. \<not> fitsBounds input (drop j (fs_entries st) @ [entryOf c (fs_tailOrder st + 1)]))"
  using assms(1)
proof (cases rule: modifyFeed_cases [of st c input])
  case unchanged
  with assms(2) show ?thesis by auto
next
  case (appended k)
  have "fitsBounds input [entryOf c (fs_tailOrder st + 1)]"
    using assms(3,4) by (simp add: fitsBounds_def entryOf_def)
  then have k: "k \<le> length (fs_entries st)"
    using appended(11) by (metis append_eq_conv_conj linorder_not_less)
  have "\<forall>j<k. \<not> fitsBounds input (drop j (fs_entries st) @ [entryOf c (fs_tailOrder st + 1)])"
    using appended(11) k by auto
  then show ?thesis using appended assms(2) k by (intro exI [of _ k]) auto
qed

theorem feed_append_evicts_least_witness:
  "\<exists>k\<le>length (fs_entries (makeInitialState 0 :: string feed_state)).
    fs_entries (snd (modifyFeed (makeInitialState 0) (sampleCandidate ''m1'' ''a'') sampleInput)) =
      drop k (fs_entries (makeInitialState 0)) @
        [entryOf (sampleCandidate ''m1'' ''a'') (fs_tailOrder (makeInitialState 0 :: string feed_state) + 1)]"
  using feed_append_evicts_least [of "makeInitialState 0" "sampleCandidate ''m1'' ''a''" sampleInput
      "''rti_x''" "''smd_a''" "[''bob'']"
      "snd (modifyFeed (makeInitialState 0) (sampleCandidate ''m1'' ''a'') sampleInput)"]
    feedInv_initial [of 0]
  by (auto simp: modifyFeed_def appendCandidate_def makeInitialState_def sampleInput_def
      sampleCandidate_def acceptedResult_def entryOf_def maximumPrivateOrder_def Let_def)

text \<open>
  A send is idempotent while its message is retained: after any further acceptances that
  did not evict it, repeating the message as a retry returns the same acceptance, a retry
  with different bytes or a second initial send under the same identity is refused as a
  conflict, and none of them changes the feed or notifies anyone.
\<close>

theorem feed_retry_idempotent:
  assumes "feedInv st"
    and "modifyFeed st c input = (FeedResult (Accepted r d) (Some rs), st')"
    and "entryOf c (fs_tailOrder st + 1) \<in> set (fs_entries st')"
    and "fs_greatestEvictedOrder (feedRun input cs st') < fs_tailOrder st + 1"
    and "jcs \<noteq> fc_encodedMessageJcs c"
  shows "modifyFeed (feedRun input cs st') (c\<lparr>fc_mode := Retry\<rparr>) input =
      (FeedResult (Accepted r d) None, feedRun input cs st') \<and>
    modifyFeed (feedRun input cs st') (c\<lparr>fc_mode := Retry, fc_encodedMessageJcs := jcs\<rparr>) input =
      (FeedResult IdempotencyConflict None, feedRun input cs st') \<and>
    modifyFeed (feedRun input cs st') (c\<lparr>fc_mode := Initial, fc_encodedMessageJcs := anyJcs\<rparr>) input =
      (FeedResult IdempotencyConflict None, feedRun input cs st')"
proof -
  let ?st2 = "feedRun input cs st'" and ?e = "entryOf c (fs_tailOrder st + 1)"
  have st': "st' = snd (modifyFeed st c input)" using assms(2) by simp
  have inv': "feedInv st'" using assms(1) by (simp add: st' feedInv_modifyFeed)
  have "?e \<in> set (fs_entries ?st2)"
    using feed.kept_run [OF inv' assms(3), of input cs] assms(4) by (simp add: feedRun_fold entryOf_def)
  moreover have "feedInv ?st2" using feed.inv_run [OF inv'] by (simp add: feedRun_fold)
  ultimately have idx: "fs_retryIndex ?st2 (retryKey (fc_senderAgentId c) (fc_messageId c)) = Some ?e"
    by (simp add: feedInv_def retryIndexOf_mem entryOf_def)
  have rd: "r = rf_routerInstanceId input \<and> d = fc_signedMessageDigest c"
    using assms(1) by (cases rule: modifyFeed_cases [of st c input]) (use assms(2) in auto)
  then show ?thesis
    using idx assms(5)
    by (simp add: modifyFeed_def retryResult_def acceptedResult_def entryOf_def Let_def)
qed

theorem feed_retry_idempotent_witness:
  "modifyFeed (feedRun sampleInput [sampleCandidate ''m2'' ''b'']
      (snd (modifyFeed (makeInitialState 0) (sampleCandidate ''m1'' ''a'') sampleInput)))
      ((sampleCandidate ''m1'' ''a'')\<lparr>fc_mode := Retry\<rparr>) sampleInput =
    (FeedResult (Accepted ''rti_x'' ''smd_a'') None,
     feedRun sampleInput [sampleCandidate ''m2'' ''b'']
      (snd (modifyFeed (makeInitialState 0) (sampleCandidate ''m1'' ''a'') sampleInput)))"
  by (rule feed_retry_idempotent [of "makeInitialState 0" _ _ _ _ "[''bob'']" _ _ "''z''", THEN conjunct1])
    (use feedInv_initial [of 0] in
      \<open>auto simp: modifyFeed_def appendCandidate_def makeInitialState_def sampleInput_def
       sampleCandidate_def acceptedResult_def entryOf_def maximumPrivateOrder_def retryKey_def Let_def\<close>)

text \<open>
  The feed refuses a send for lack of order exactly when a fresh message arrives and the
  whole 128-bit order is used up, which is exactly when its readiness answer is negative;
  a refused send changes nothing, and no other answer of the feed is a refusal.
\<close>

theorem feed_overloaded_iff:
  assumes "feedInv st"
  shows "fst (modifyFeed st c input) = FeedOverloaded \<longleftrightarrow>
      fc_mode c = Initial \<and> (\<forall>e\<in>set (fs_entries st). entryKey e \<noteq> retryKey (fc_senderAgentId c) (fc_messageId c)) \<and>
      \<not> freshAppendReady st"
proof -
  have "fs_retryIndex st (retryKey (fc_senderAgentId c) (fc_messageId c)) = None \<longleftrightarrow>
     (\<forall>e\<in>set (fs_entries st). entryKey e \<noteq> retryKey (fc_senderAgentId c) (fc_messageId c))"
    using assms by (simp add: feedInv_def retryIndexOf_None image_iff) metis
  moreover have "freshAppendReady st \<longleftrightarrow> fs_tailOrder st \<noteq> maximumPrivateOrder"
    using assms by (auto simp: feedInv_def freshAppendReady_def)
  ultimately show ?thesis
    by (cases "fc_mode c")
      (auto simp: modifyFeed_def retryResult_def appendCandidate_def Let_def split: prod.splits)
qed

theorem feed_overloaded_iff_witness:
  "fst (modifyFeed (makeInitialState maximumPrivateOrder) (sampleCandidate ''m1'' ''a'') sampleInput) = FeedOverloaded"
  using feed_overloaded_iff [of "makeInitialState maximumPrivateOrder" "sampleCandidate ''m1'' ''a''" sampleInput]
    feedInv_initial [of maximumPrivateOrder]
  by (simp add: makeInitialState_def sampleCandidate_def freshAppendReady_def maximumPrivateOrder_def)

end
