(* ===== verification/Router_Cursor.thy ===== *)
theory Router_Cursor
  imports Router_Contract Router_Feed
begin

text \<open>
  The poll cursor codec, \<^verbatim>\<open>packages/router/src/router/poll-cursor.ts\<close>: a cursor is an encrypted
  plaintext naming the caller, the Router process and the last order the caller has
  scanned. The JWE operations of the package \<^verbatim>\<open>jose\<close> are a parameter, a record of its two
  functions; the encryption takes the random bytes it draws as an argument.
\<close>

section \<open>Decimal text\<close>

definition digitValue :: "char \<Rightarrow> nat" where
  "digitValue c = of_char c - 48"

text \<open>\<^verbatim>\<open>BigInt(text)\<close> on a text of decimal digits.\<close>

definition bigIntOf :: "string \<Rightarrow> nat" where
  "bigIntOf s = foldl (\<lambda>n c. 10 * n + digitValue c) 0 s"

text \<open>\<^verbatim>\<open>/^(?:0|[1-9]\d*)$/\<close>\<close>

definition isDecimalText :: "string \<Rightarrow> bool" where
  "isDecimalText s \<longleftrightarrow> s = ''0'' \<or> (s \<noteq> [] \<and> list_all isDigit s \<and> hd s \<noteq> CHR ''0'')"

definition orderText :: "string \<Rightarrow> bool" where
  "orderText s \<longleftrightarrow> isDecimalText s \<and> int (bigIntOf s) \<le> maximumPrivateOrder"

lemma isDigit_digitChar: "d < 10 \<Longrightarrow> isDigit (digitChar d)"
  by (simp add: isDigit_def digitChar_def)

lemma digitValue_digitChar: "d < 10 \<Longrightarrow> digitValue (digitChar d) = d"
  by (simp add: digitValue_def digitChar_def)

lemma digitChar_digitValue: "isDigit c \<Longrightarrow> digitChar (digitValue c) = c \<and> digitValue c < 10"
  by (auto simp: isDigit_def digitChar_def digitValue_def)

lemma bigIntOf_snoc [simp]: "bigIntOf [] = 0" "bigIntOf (s @ [c]) = 10 * bigIntOf s + digitValue c"
  by (simp_all add: bigIntOf_def)

lemma bigIntOf_natText: "bigIntOf (natText n) = n"
proof (induction n rule: natText.induct)
  case (1 n)
  then show ?case
    by (cases "n < 10") (simp_all add: natText.simps [of n] bigIntOf_def digitValue_digitChar)
qed

lemma natText_digits: "list_all isDigit (natText n) \<and> natText n \<noteq> []"
proof (induction n rule: natText.induct)
  case (1 n)
  then show ?case by (cases "n < 10") (simp_all add: natText.simps [of n] isDigit_digitChar)
qed

lemma natText_hd: "0 < n \<Longrightarrow> hd (natText n) \<noteq> CHR ''0''"
proof (induction n rule: natText.induct)
  case (1 n)
  have zero: "\<And>d. d < 10 \<Longrightarrow> digitChar d = CHR ''0'' \<Longrightarrow> d = 0"
    using digitValue_digitChar by (fastforce simp: digitValue_def)
  show ?case
  proof (cases "n < 10")
    case True
    with 1(2) zero [of n] show ?thesis by (auto simp: natText.simps [of n])
  next
    case False
    with 1(1) natText_digits show ?thesis by (simp add: natText.simps [of n])
  qed
qed

lemma natText_zero [simp]: "natText 0 = ''0''"
  by code_simp

lemma isDecimalText_natText: "isDecimalText (natText n)"
proof (cases "n = 0")
  case True
  then show ?thesis by (simp add: isDecimalText_def)
next
  case False
  then show ?thesis using natText_digits natText_hd by (simp add: isDecimalText_def)
qed

text \<open>A canonical decimal text is determined by its value.\<close>

lemma natText_bigIntOf: "isDecimalText s \<Longrightarrow> natText (bigIntOf s) = s"
proof (induction s rule: rev_induct)
  case Nil
  then show ?case by (simp add: isDecimalText_def)
next
  case (snoc c s)
  show ?case
  proof (cases s)
    case Nil
    with snoc.prems have "isDigit c" by (auto simp: isDecimalText_def isDigit_def)
    then show ?thesis using Nil digitChar_digitValue [of c]
      by (simp add: natText.simps bigIntOf_def)
  next
    case (Cons x xs)
    with snoc.prems have c: "isDigit c" and s: "isDecimalText s" "hd s \<noteq> CHR ''0''"
      by (auto simp: isDecimalText_def)
    have IH: "natText (bigIntOf s) = s" using snoc.IH s by simp
    have "bigIntOf s \<noteq> 0"
    proof
      assume "bigIntOf s = 0"
      with IH have "s = ''0''" by simp
      with s show False by simp
    qed
    then show ?thesis
      using IH digitChar_digitValue [OF c] by (simp add: natText.simps [of "10 * bigIntOf s + digitValue c"])
  qed
qed

section \<open>The codec\<close>

datatype poll_cursor_error = PollCursorEncryptionError | PollCursorInvalidError

record 'key jwe =
  jwe_encrypt :: "string \<Rightarrow> 'key \<Rightarrow> byte list \<Rightarrow> byte list \<Rightarrow> string option"
  jwe_decrypt :: "string \<Rightarrow> 'key \<Rightarrow> byte list option"

definition isPollCursor :: "base64url \<Rightarrow> (json \<Rightarrow> string option) \<Rightarrow> string \<Rightarrow> bool" where
  "isPollCursor b64 canonicalize value =
     hasCanonicalCursorShape b64
       (case maximumPollCursorLength canonicalize of None \<Rightarrow> length value | Some n \<Rightarrow> n) value"

definition canonicalPlaintext ::
  "(json \<Rightarrow> string option) \<Rightarrow> agent_id \<Rightarrow> router_instance_id \<Rightarrow> int \<Rightarrow> string option" where
  "canonicalPlaintext canonicalize agentId routerInstanceId lastScannedOrder =
     canonicalize (cursorPlaintextJson agentId routerInstanceId (intText lastScannedOrder))"

definition encodePollCursor ::
  "base64url \<Rightarrow> (json \<Rightarrow> string option) \<Rightarrow> 'key jwe \<Rightarrow> byte list \<Rightarrow> 'key \<Rightarrow> router_instance_id \<Rightarrow>
   agent_id \<Rightarrow> int \<Rightarrow> poll_cursor_error + string" where
  "encodePollCursor b64 canonicalize jose entropy key routerInstanceId agentId lastScannedOrder =
     (if lastScannedOrder < 0 \<or> lastScannedOrder > maximumPrivateOrder then Inl PollCursorEncryptionError
      else case canonicalPlaintext canonicalize agentId routerInstanceId lastScannedOrder of
        None \<Rightarrow> Inl PollCursorEncryptionError
      | Some plaintext \<Rightarrow>
          bindE (ofOption PollCursorEncryptionError
                  (jwe_encrypt jose pollCursorProtectedHeaderJson key entropy (utf8Bytes plaintext))) (\<lambda>compact.
          if isPollCursor b64 canonicalize (pollCursorPrefix @ compact)
          then Inr (pollCursorPrefix @ compact) else Inl PollCursorEncryptionError))"

record cursor_plaintext =
  cp_agentId :: agent_id
  cp_routerInstanceId :: router_instance_id
  cp_lastScannedOrder :: string

definition plaintextIsCurrent ::
  "string \<Rightarrow> string \<Rightarrow> agent_id \<Rightarrow> agent_id \<Rightarrow> router_instance_id \<Rightarrow> router_instance_id \<Rightarrow> bool" where
  "plaintextIsCurrent canonical text agentId callerAgentId routerInstanceId currentRouterInstanceId =
     (if canonical \<noteq> text then False
      else agentId = callerAgentId \<and> routerInstanceId = currentRouterInstanceId)"

definition decodeCursorPlaintext ::
  "base64url \<Rightarrow> (string \<Rightarrow> json option) \<Rightarrow> string \<Rightarrow> poll_cursor_error + cursor_plaintext" where
  "decodeCursorPlaintext b64 parseJson text =
     (case Option.bind (parseJson text)
             (\<lambda>v. Option.bind (closedObject [''agentId'', ''routerInstanceId'', ''lastScannedOrder''] v) asStrings) of
        Some [agentId, routerInstanceId, lastScannedOrder] \<Rightarrow>
          if isAgentId b64 agentId \<and> isRouterInstanceId b64 routerInstanceId \<and> orderText lastScannedOrder
          then Inr \<lparr>cp_agentId = agentId, cp_routerInstanceId = routerInstanceId,
                    cp_lastScannedOrder = lastScannedOrder\<rparr>
          else Inl PollCursorInvalidError
      | _ \<Rightarrow> Inl PollCursorInvalidError)"

definition decodePollCursor ::
  "base64url \<Rightarrow> (json \<Rightarrow> string option) \<Rightarrow> (string \<Rightarrow> json option) \<Rightarrow> 'key jwe \<Rightarrow> 'key \<Rightarrow>
   router_instance_id \<Rightarrow> string \<Rightarrow> agent_id \<Rightarrow> poll_cursor_error + int" where
  "decodePollCursor b64 canonicalize parseJson jose key routerInstanceId cursor callerAgentId =
     (let compact = drop (length pollCursorPrefix) cursor in
      if hd (splitOn (CHR ''.'') compact) \<noteq> encodedPollCursorProtectedHeader b64
      then Inl PollCursorInvalidError
      else
        bindE (ofOption PollCursorInvalidError (jwe_decrypt jose compact key)) (\<lambda>decrypted.
        bindE (ofOption PollCursorInvalidError (utf8Decode decrypted)) (\<lambda>text.
        bindE (decodeCursorPlaintext b64 parseJson text) (\<lambda>value.
        case canonicalize (cursorPlaintextJson (cp_agentId value) (cp_routerInstanceId value) (cp_lastScannedOrder value)) of
          None \<Rightarrow> Inl PollCursorInvalidError
        | Some canonical \<Rightarrow>
            if \<not> plaintextIsCurrent canonical text (cp_agentId value) callerAgentId
                   (cp_routerInstanceId value) routerInstanceId
            then Inl PollCursorInvalidError
            else Inr (int (bigIntOf (cp_lastScannedOrder value)))))))"

text \<open>A \<^verbatim>\<open>rti_\<close> identity over the sixteen random bytes drawn.\<close>

definition generateRouterInstanceId :: "base64url \<Rightarrow> byte list \<Rightarrow> router_instance_id option" where
  "generateRouterInstanceId b64 randomBytes =
     (let value = ''rti_'' @ b64_encode b64 randomBytes in
      if isRouterInstanceId b64 value then Some value else None)"

section \<open>Properties\<close>

lemma plainText_subset: "set s \<subseteq> set t \<Longrightarrow> plainText t \<Longrightarrow> plainText s"
  by (auto simp: plainText_def list_all_iff)

lemma b64Alphabet_plain: "plainText b64Alphabet" "asciiText b64Alphabet"
  by (simp_all add: b64Alphabet_def)

lemma digits_plain: "list_all isDigit s \<Longrightarrow> plainText s \<and> asciiText s"
  by (induction s) (auto simp: isDigit_def)

lemma natText_plain: "plainText (natText n)" "asciiText (natText n)"
  using natText_digits [of n] digits_plain by blast+

lemma encoded_plain:
  "base64urlLaws b64 \<Longrightarrow> plainText (b64_encode b64 bs) \<and> asciiText (b64_encode b64 bs)"
  using b64Alphabet_plain plainText_subset asciiText_subset by (metis base64urlLaws_def)

lemma isRouterInstanceId_plain:
  assumes "base64urlLaws b64" "isRouterInstanceId b64 r"
  shows "plainText r \<and> asciiText r \<and> length r = 26"
proof -
  obtain bs where bs: "length bs = 16" and r: "r = ''rti_'' @ b64_encode b64 bs"
    using assms(2)
    by (auto simp: isRouterInstanceId_def canonicalValue_def startsWith_iff hasCanonicalBase64UrlLength_def
        split: option.splits)
  have "length (b64_encode b64 bs) = 22" using assms(1) bs by (simp add: base64urlLaws_def)
  then show ?thesis using encoded_plain [OF assms(1), of bs] by (simp add: r)
qed

lemma inCharRange_plain:
  "inCharRange lo hi c \<Longrightarrow> 48 \<le> (of_char lo :: nat) \<Longrightarrow> (of_char hi :: nat) < 128 \<Longrightarrow>
   c \<noteq> CHR 0x5C \<Longrightarrow> plainText [c] \<and> asciiText [c]"
  by (auto simp: inCharRange_def)

lemma plain_chars:
  "list_all (\<lambda>c. plainText [c] \<and> asciiText [c]) s \<Longrightarrow> plainText s \<and> asciiText s"
  by (induction s) auto

lemma isAgentId_plain:
  assumes "base64urlLaws b64" "isAgentId b64 a"
  shows "plainText a \<and> asciiText a"
proof -
  have f: "plainText (finalCharacters b64 2) \<and> asciiText (finalCharacters b64 2)"
  proof -
    have "set (finalCharacters b64 2) \<subseteq> set b64Alphabet"
      using assms(1) by (fastforce simp: finalCharacters_def base64urlLaws_def dest: in_set_takeD)
    then show ?thesis using b64Alphabet_plain plainText_subset asciiText_subset by blast
  qed
  obtain payload where a: "a = ''agt_'' @ payload"
    using assms(2) by (auto simp: isAgentId_def canonicalIdentifier_def startsWith_iff Let_def)
  have w: "list_all (\<lambda>c. inCharRange (CHR ''A'') (CHR ''Z'') c \<or> inCharRange (CHR ''a'') (CHR ''z'') c \<or>
             inCharRange (CHR ''0'') (CHR ''9'') c \<or> c = CHR ''_'' \<or> c = CHR ''-'') (take 21 payload)"
    and l: "list_all (\<lambda>c. c \<in> set (finalCharacters b64 2)) (drop 21 payload)"
    using assms(2) by (simp_all add: isAgentId_def canonicalIdentifier_def a Let_def)
  have "list_all (\<lambda>c. plainText [c] \<and> asciiText [c]) (take 21 payload)"
    using w by (rule list.pred_mono_strong) (auto simp: inCharRange_def)
  moreover have "list_all (\<lambda>c. plainText [c] \<and> asciiText [c]) (drop 21 payload)"
    using l by (rule list.pred_mono_strong) (use f in \<open>auto simp: plainText_def asciiText_def list_all_iff\<close>)
  ultimately have "plainText payload \<and> asciiText payload"
    using plain_chars by (metis append_take_drop_id asciiText_simps(3) plainText_simps(3))
  then show ?thesis by (simp add: a)
qed

lemma jcs_cursorPlaintext:
  "jcs (cursorPlaintextJson a r n) =
     ''{'' @ jsonString ''agentId'' @ '':'' @ jsonString a @ '','' @
     jsonString ''lastScannedOrder'' @ '':'' @ jsonString n @ '','' @
     jsonString ''routerInstanceId'' @ '':'' @ jsonString r @ ''}''"
  by (simp add: cursorPlaintextJson_def)

lemma plaintext_ascii:
  "plainText a \<and> asciiText a \<Longrightarrow> plainText r \<and> asciiText r \<Longrightarrow> plainText n \<and> asciiText n \<Longrightarrow>
   asciiText (jcs (cursorPlaintextJson a r n))"
  by (simp add: jcs_cursorPlaintext jsonString_plain)

lemma length_natText_mono: "m \<le> n \<Longrightarrow> length (natText m) \<le> length (natText n)"
proof (induction n arbitrary: m rule: natText.induct)
  case (1 n)
  show ?case
  proof (cases "m < 10")
    case True
    then have "length (natText m) = 1" by (simp add: natText.simps [of m])
    then show ?thesis using natText_digits [of n] by (simp add: Suc_leI)
  next
    case False
    with 1 have "length (natText (m div 10)) \<le> length (natText (n div 10))" by (simp add: div_le_mono)
    with False 1(2) show ?thesis by (simp add: natText.simps [of n] natText.simps [of m])
  qed
qed

lemma encoded_no_dot: "base64urlLaws b64 \<Longrightarrow> CHR ''.'' \<notin> set (b64_encode b64 bs)"
proof -
  have "CHR ''.'' \<notin> set b64Alphabet" by (simp add: b64Alphabet_def)
  then show "base64urlLaws b64 \<Longrightarrow> CHR ''.'' \<notin> set (b64_encode b64 bs)" by (auto simp: base64urlLaws_def)
qed

lemma splitOn_compact:
  assumes "base64urlLaws b64"
  shows "splitOn (CHR ''.'') (joinWith ''.'' [b64_encode b64 h, '''', b64_encode b64 iv, b64_encode b64 ct, b64_encode b64 tag]) =
    [b64_encode b64 h, '''', b64_encode b64 iv, b64_encode b64 ct, b64_encode b64 tag]"
  using encoded_no_dot [OF assms] by (simp add: splitOn_append splitOn_free)

lemma length_cursorPlaintext:
  "plainText a \<Longrightarrow> plainText r \<Longrightarrow> plainText n \<Longrightarrow>
   length (jcs (cursorPlaintextJson a r n)) = 58 + length a + length r + length n"
  by (simp add: jcs_cursorPlaintext)

text \<open>
  The documented behaviour of direct authenticated encryption used: encrypting always
  yields the compact serialization with an empty encrypted key, a 12-byte initialization
  vector, a ciphertext of the plaintext's length and a 16-byte tag, and decrypting it under
  the same key returns the plaintext.
\<close>

definition jweLaws :: "base64url \<Rightarrow> 'key jwe \<Rightarrow> bool" where
  "jweLaws b64 jose \<longleftrightarrow>
     (\<forall>header key entropy plaintext. \<exists>iv ct tag.
        length iv = 12 \<and> length ct = length plaintext \<and> length tag = 16 \<and>
        (let compact = joinWith ''.'' [b64_encode b64 (utf8Bytes header), '''', b64_encode b64 iv,
                                       b64_encode b64 ct, b64_encode b64 tag]
         in jwe_encrypt jose header key entropy plaintext = Some compact \<and>
            jwe_decrypt jose compact key = Some plaintext))"

lemma base64UrlLength_mono: "m \<le> n \<Longrightarrow> base64UrlLength m \<le> base64UrlLength n"
  by (simp add: base64UrlLength_def div_le_mono)

lemma maximumIds_plain:
  "plainText maximumAgentId" "length maximumAgentId = 26"
  "plainText maximumRouterInstanceId" "length maximumRouterInstanceId = 26"
  by (simp_all add: maximumAgentId_def maximumRouterInstanceId_def)

text \<open>The maximum cursor length bounds the cursor of every caller, process and order.\<close>

lemma maximumPollCursorLength_bound:
  assumes "rfc8785 c" "plainText a" "length a = 26" "plainText r" "length r = 26"
    and "0 \<le> n" "n \<le> maximumPrivateOrder"
  shows "\<exists>L. maximumPollCursorLength c = Some L \<and>
    46 + encodedPollCursorProtectedHeaderLength +
      base64UrlLength (length (jcs (cursorPlaintextJson a r (intText n)))) \<le> L"
proof -
  have "length (intText n) \<le> length (intText maximumPrivateOrder)"
    using assms(6,7) by (simp add: intText_def length_natText_mono nat_mono)
  moreover have "plainText (intText n)" "plainText (intText maximumPrivateOrder)"
    using assms(6,7) natText_plain by (simp_all add: intText_def)
  ultimately have "length (jcs (cursorPlaintextJson a r (intText n))) \<le>
      length (jcs (cursorPlaintextJson maximumAgentId maximumRouterInstanceId (intText maximumPrivateOrder)))"
    using assms maximumIds_plain by (simp add: length_cursorPlaintext)
  from base64UrlLength_mono [OF this] show ?thesis
    using assms(1)
    by (simp add: maximumPollCursorLength_def pollCursorEncodedLength_def rfc8785_def pollCursorPrefix_def
        maximumPrivateOrder_def)
qed

lemma hasCanonicalCursorShape_compact:
  assumes "base64urlLaws b64" "length iv = 12" "ct \<noteq> []" "length tag = 16"
    and "46 + encodedPollCursorProtectedHeaderLength + base64UrlLength (length ct) \<le> L"
  shows "hasCanonicalCursorShape b64 L (pollCursorPrefix @ joinWith ''.''
    [encodedPollCursorProtectedHeader b64, '''', b64_encode b64 iv, b64_encode b64 ct, b64_encode b64 tag])"
  (is "hasCanonicalCursorShape b64 L (pollCursorPrefix @ ?compact)")
proof -
  have len: "length (b64_encode b64 bs) = base64UrlLength (length bs)" for bs
    using assms(1) by (simp add: base64urlLaws_def base64UrlLength_def)
  have dec: "b64_decode b64 (b64_encode b64 bs) = Some bs" for bs
    using assms(1) by (simp add: base64urlLaws_def)
  have hl: "base64UrlLength (length (utf8Bytes pollCursorProtectedHeaderJson)) = encodedPollCursorProtectedHeaderLength"
    by (simp add: base64UrlLength_def encodedPollCursorProtectedHeaderLength_def utf8Bytes_def)
  have "length (pollCursorPrefix @ ?compact) =
      46 + encodedPollCursorProtectedHeaderLength + base64UrlLength (length ct)"
    unfolding encodedPollCursorProtectedHeader_def
    using assms(2,4) by (simp add: len hl pollCursorPrefix_def) (simp add: base64UrlLength_def)
  then have "length (pollCursorPrefix @ ?compact) \<le> L" using assms(5) by simp
  moreover have "splitOn (CHR ''.'') ?compact =
      [encodedPollCursorProtectedHeader b64, '''', b64_encode b64 iv, b64_encode b64 ct, b64_encode b64 tag]"
    unfolding encodedPollCursorProtectedHeader_def by (rule splitOn_compact [OF assms(1)])
  ultimately show ?thesis
    using assms(2-4) dec
    by (simp add: hasCanonicalCursorShape_def extractCursorSegments_def startsWith_def
        hasCanonicalBase64UrlLength_def hasCanonicalCiphertext_def del: joinWith.simps)
qed

text \<open>The members of a cursor plaintext in the order of its canonical text.\<close>

definition sortedPlaintextJson :: "agent_id \<Rightarrow> router_instance_id \<Rightarrow> string \<Rightarrow> json" where
  "sortedPlaintextJson agentId routerInstanceId lastScannedOrder =
     JObj [(''agentId'', JStr agentId), (''lastScannedOrder'', JStr lastScannedOrder),
           (''routerInstanceId'', JStr routerInstanceId)]"

lemma decodeCursorPlaintext_sorted:
  assumes "parseJson text = Some (sortedPlaintextJson a r n)"
    and "isAgentId b64 a" "isRouterInstanceId b64 r" "orderText n"
  shows "decodeCursorPlaintext b64 parseJson text =
    Inr \<lparr>cp_agentId = a, cp_routerInstanceId = r, cp_lastScannedOrder = n\<rparr>"
proof -
  have "closedObject [''agentId'', ''routerInstanceId'', ''lastScannedOrder''] (sortedPlaintextJson a r n) =
      Some [JStr a, JStr r, JStr n]"
    by (auto simp: closedObject_def sortedPlaintextJson_def)
  then show ?thesis using assms by (simp add: decodeCursorPlaintext_def)
qed

lemma orderText_intText: "0 \<le> n \<Longrightarrow> n \<le> maximumPrivateOrder \<Longrightarrow> orderText (intText n)"
  by (simp add: orderText_def intText_def isDecimalText_natText bigIntOf_natText)

lemma length_agentId: "isAgentId b64 a \<Longrightarrow> length a = 26"
  by (simp add: isAgentId_def canonicalIdentifier_def Let_def)

lemma encodePollCursor_compact:
  assumes "base64urlLaws b64" "rfc8785 c" "jweLaws b64 jose" "isAgentId b64 a" "isRouterInstanceId b64 r"
    and "0 \<le> n" "n \<le> maximumPrivateOrder"
  obtains compact where
    "encodePollCursor b64 c jose entropy key r a n = Inr (pollCursorPrefix @ compact)"
    "hd (splitOn (CHR ''.'') compact) = encodedPollCursorProtectedHeader b64"
    "jwe_decrypt jose compact key = Some (utf8Bytes (jcs (cursorPlaintextJson a r (intText n))))"
proof -
  let ?p = "jcs (cursorPlaintextJson a r (intText n))"
  obtain iv ct tag compact where sizes: "length iv = 12" "length ct = length ?p" "length tag = 16"
    and compact: "compact = joinWith ''.'' [encodedPollCursorProtectedHeader b64, '''', b64_encode b64 iv,
        b64_encode b64 ct, b64_encode b64 tag]"
    and jwe: "jwe_encrypt jose pollCursorProtectedHeaderJson key entropy (utf8Bytes ?p) = Some compact"
      "jwe_decrypt jose compact key = Some (utf8Bytes ?p)"
    using assms(3) unfolding jweLaws_def encodedPollCursorProtectedHeader_def Let_def
    by (metis length_map utf8Bytes_def)
  have ids: "plainText a" "length a = 26" "plainText r" "length r = 26"
    using assms(1,4,5) isAgentId_plain isRouterInstanceId_plain length_agentId by blast+
  obtain L where L: "maximumPollCursorLength c = Some L"
    "46 + encodedPollCursorProtectedHeaderLength + base64UrlLength (length ct) \<le> L"
    using maximumPollCursorLength_bound [OF assms(2) ids assms(6,7)] sizes by auto
  have "ct \<noteq> []" using sizes by (auto simp: jcs_cursorPlaintext)
  then have "isPollCursor b64 c (pollCursorPrefix @ compact)"
    using hasCanonicalCursorShape_compact [OF assms(1) sizes(1) _ sizes(3) L(2)] L(1)
    by (simp add: isPollCursor_def compact)
  moreover have "hd (splitOn (CHR ''.'') compact) = encodedPollCursorProtectedHeader b64"
    unfolding compact encodedPollCursorProtectedHeader_def by (simp only: splitOn_compact [OF assms(1)] list.sel)
  ultimately show thesis
    using that [of compact] jwe assms(2,6,7)
    by (simp add: encodePollCursor_def canonicalPlaintext_def rfc8785_def)
qed

text \<open>
  C10: The Router can always issue a cursor for an order of its range, and it continues where
  it was issued: the caller it was issued to reads back exactly the order it carries, and
  for every other caller and every other Router process the same cursor is invalid.
\<close>

theorem cursor_roundtrip:
  assumes "base64urlLaws b64" and "rfc8785 c" and "jweLaws b64 jose"
    and "isAgentId b64 a" and "isRouterInstanceId b64 r" and "0 \<le> n" and "n \<le> maximumPrivateOrder"
    and "parseJson (jcs (cursorPlaintextJson a r (intText n))) = Some (sortedPlaintextJson a r (intText n))"
  shows "\<exists>cursor. encodePollCursor b64 c jose entropy key r a n = Inr cursor \<and>
    (\<forall>a' r'. decodePollCursor b64 c parseJson jose key r' cursor a' =
      (if a' = a \<and> r' = r then Inr n else Inl PollCursorInvalidError))"
proof -
  let ?text = "jcs (cursorPlaintextJson a r (intText n))"
  obtain compact where enc: "encodePollCursor b64 c jose entropy key r a n = Inr (pollCursorPrefix @ compact)"
    "hd (splitOn (CHR ''.'') compact) = encodedPollCursorProtectedHeader b64"
    "jwe_decrypt jose compact key = Some (utf8Bytes ?text)"
    using encodePollCursor_compact [OF assms(1-7)] by blast
  have "asciiText ?text"
    using assms isAgentId_plain isRouterInstanceId_plain natText_plain
    by (intro plaintext_ascii) (auto simp: intText_def)
  moreover have "decodeCursorPlaintext b64 parseJson ?text =
      Inr \<lparr>cp_agentId = a, cp_routerInstanceId = r, cp_lastScannedOrder = intText n\<rparr>"
    using assms(4-8) by (intro decodeCursorPlaintext_sorted orderText_intText)
  ultimately have "decodePollCursor b64 c parseJson jose key r' (pollCursorPrefix @ compact) a' =
      (if a' = a \<and> r' = r then Inr n else Inl PollCursorInvalidError)" for a' r'
    using enc assms(2,6)
    by (simp add: decodePollCursor_def utf8Decode_ascii rfc8785_def plaintextIsCurrent_def
        intText_def bigIntOf_natText)
  then show ?thesis using enc(1) by blast
qed

lemma isAgentId_maximum: "isAgentId rfc4648 maximumAgentId" 
proof -
  have "CHR ''A'' \<in> set (finalCharacters rfc4648 2)"
    unfolding finalCharacters_def by (auto simp: rfc4648_def rfcEncode_zero intro!: bexI [of _ 0])
  then show ?thesis by (simp add: isAgentId_def canonicalIdentifier_def maximumAgentId_def startsWith_def inCharRange_def Let_def)
qed

definition sampleJwe :: "unit jwe" where
  "sampleJwe =
     \<lparr>jwe_encrypt = (\<lambda>header key entropy plaintext.
        Some (joinWith ''.'' [b64_encode rfc4648 (utf8Bytes header), '''', b64_encode rfc4648 (replicate 12 0),
                b64_encode rfc4648 plaintext, b64_encode rfc4648 (replicate 16 0)])),
      jwe_decrypt = (\<lambda>compact key.
        case splitOn (CHR ''.'') compact of [_, _, _, c, _] \<Rightarrow> b64_decode rfc4648 c | _ \<Rightarrow> None)\<rparr>"

lemma sampleJwe_laws: "jweLaws rfc4648 sampleJwe"
proof -
  have dec: "b64_decode rfc4648 (b64_encode rfc4648 p) = Some p" for p
    using rfc4648_laws by (simp add: base64urlLaws_def)
  show ?thesis
    unfolding jweLaws_def Let_def
  proof (intro allI exI conjI)
    fix header :: string and key :: unit and entropy plaintext :: "byte list"
    show "jwe_decrypt sampleJwe (joinWith ''.'' [b64_encode rfc4648 (utf8Bytes header), '''',
        b64_encode rfc4648 (replicate 12 0), b64_encode rfc4648 plaintext, b64_encode rfc4648 (replicate 16 0)]) key =
        Some plaintext"
      using dec splitOn_compact [OF rfc4648_laws] by (simp add: sampleJwe_def del: joinWith.simps)
  qed (simp_all add: sampleJwe_def del: joinWith.simps)
qed

lemma isRouterInstanceId_maximum: "isRouterInstanceId rfc4648 maximumRouterInstanceId"
  by code_simp

definition sampleParse :: "string \<Rightarrow> json option" where
  "sampleParse _ = Some (sortedPlaintextJson maximumAgentId maximumRouterInstanceId (intText 7))"

theorem cursor_roundtrip_witness:
  "\<exists>cursor. encodePollCursor rfc4648 (\<lambda>v. Some (jcs v)) sampleJwe [] () maximumRouterInstanceId maximumAgentId 7 = Inr cursor \<and>
    decodePollCursor rfc4648 (\<lambda>v. Some (jcs v)) sampleParse sampleJwe () maximumRouterInstanceId cursor maximumAgentId = Inr 7"
  using cursor_roundtrip [of rfc4648 "\<lambda>v. Some (jcs v)" sampleJwe maximumAgentId maximumRouterInstanceId 7 sampleParse "[]" "()"]
    rfc4648_laws sampleJwe_laws isAgentId_maximum isRouterInstanceId_maximum
  by (auto simp: rfc8785_def maximumPrivateOrder_def sampleParse_def)

text \<open>
  C15: A cursor is honoured only for the caller and the process its authenticated plaintext
  names: whenever decoding returns an order, what the cursor decrypts to under the
  process key is the canonical text of exactly this caller, this process and this
  order, and the order lies in its 128-bit range.
\<close>

theorem cursor_decode_authentic:
  assumes "rfc8785 c" and "decodePollCursor b64 c parseJson jose key r cursor a = Inr n"
  shows "jwe_decrypt jose (drop (length pollCursorPrefix) cursor) key =
      Some (utf8Bytes (jcs (cursorPlaintextJson a r (intText n)))) \<and>
    isAgentId b64 a \<and> isRouterInstanceId b64 r \<and> 0 \<le> n \<and> n \<le> maximumPrivateOrder"
proof -
  from assms(2) obtain bs t v
    where bs: "jwe_decrypt jose (drop (length pollCursorPrefix) cursor) key = Some bs" "utf8Decode bs = Some t"
      and v: "decodeCursorPlaintext b64 parseJson t = Inr v"
      and eq: "t = jcs (cursorPlaintextJson (cp_agentId v) (cp_routerInstanceId v) (cp_lastScannedOrder v))"
      "cp_agentId v = a" "cp_routerInstanceId v = r" "n = int (bigIntOf (cp_lastScannedOrder v))"
    using assms(1)
    by (auto simp: decodePollCursor_def rfc8785_def plaintextIsCurrent_def resultE_iffs Let_def split: if_splits)
  have ok: "isAgentId b64 (cp_agentId v) \<and> isRouterInstanceId b64 (cp_routerInstanceId v) \<and> orderText (cp_lastScannedOrder v)"
    using v by (auto simp: decodeCursorPlaintext_def split: option.splits list.splits if_splits)
  then have "intText n = cp_lastScannedOrder v"
    by (simp add: eq(4) intText_def orderText_def natText_bigIntOf)
  then show ?thesis using bs utf8Decode_bytes [OF bs(2)] eq ok by (auto simp: orderText_def)
qed

theorem cursor_decode_authentic_witness:
  "\<exists>cursor. jwe_decrypt sampleJwe (drop (length pollCursorPrefix) cursor) () =
     Some (utf8Bytes (jcs (cursorPlaintextJson maximumAgentId maximumRouterInstanceId (intText 7))))"
proof -
  let ?p = "utf8Bytes (jcs (cursorPlaintextJson maximumAgentId maximumRouterInstanceId (intText 7)))"
  obtain compact where compact: "hd (splitOn (CHR ''.'') compact) = encodedPollCursorProtectedHeader rfc4648"
    "jwe_decrypt sampleJwe compact () = Some ?p"
    using encodePollCursor_compact [OF rfc4648_laws _ sampleJwe_laws isAgentId_maximum isRouterInstanceId_maximum,
        of "\<lambda>v. Some (jcs v)" 7] by (auto simp: rfc8785_def maximumPrivateOrder_def)
  have "asciiText (jcs (cursorPlaintextJson maximumAgentId maximumRouterInstanceId (intText 7)))"
    by (intro plaintext_ascii) (simp_all add: maximumAgentId_def maximumRouterInstanceId_def intText_def natText_plain)
  moreover have "decodeCursorPlaintext rfc4648 sampleParse t = Inr \<lparr>cp_agentId = maximumAgentId,
      cp_routerInstanceId = maximumRouterInstanceId, cp_lastScannedOrder = intText 7\<rparr>" for t
    using isAgentId_maximum isRouterInstanceId_maximum
    by (intro decodeCursorPlaintext_sorted orderText_intText) (simp_all add: sampleParse_def maximumPrivateOrder_def)
  ultimately have dec: "decodePollCursor rfc4648 (\<lambda>v. Some (jcs v)) sampleParse sampleJwe () maximumRouterInstanceId
      (pollCursorPrefix @ compact) maximumAgentId = Inr 7"
    using compact
    by (simp add: decodePollCursor_def utf8Decode_ascii plaintextIsCurrent_def intText_def bigIntOf_natText)
  have "rfc8785 (\<lambda>v. Some (jcs v))" by (simp add: rfc8785_def)
  from cursor_decode_authentic [OF this dec]
  show ?thesis by (intro exI [of _ "pollCursorPrefix @ compact"]) (rule conjunct1)
qed

end
