(* ===== verification/Router_Waiters.thy ===== *)
theory Router_Waiters
  imports Router_Feed
begin

text \<open>
  Long-poll waiters, \<^verbatim>\<open>packages/router/src/router/poll-waiters.ts\<close>: at most one registered
  waiter per agent and at most \<open>capacity\<close> in all. A \<^verbatim>\<open>Deferred\<close> is its identity, a number.
  These are the atomic updates of the table; \<open>Router_System\<close> runs them beside the feed.
\<close>

section \<open>Operations on the waiter table\<close>

type_synonym deferred = nat
type_synonym waiters = "(agent_id, deferred) jsmap"

definition removeWaiter :: "waiters \<Rightarrow> agent_id \<Rightarrow> deferred \<Rightarrow> waiters" where
  "removeWaiter current agentId deferred =
     (if jmGet current agentId \<noteq> Some deferred then current else jmDelete agentId current)"

definition registerWaiter :: "waiters \<Rightarrow> int \<Rightarrow> agent_id \<Rightarrow> deferred \<Rightarrow> bool \<times> waiters" where
  "registerWaiter current capacity agentId deferred =
     (if jmGet current agentId \<noteq> None \<or> int (length current) \<ge> capacity
      then (False, current)
      else (True, jmSet agentId deferred current))"

fun detachLoop :: "agent_id list \<Rightarrow> deferred list \<Rightarrow> waiters \<Rightarrow> deferred list \<times> waiters" where
  "detachLoop [] found nxt = (found, nxt)"
| "detachLoop (agentId # recipients) found nxt =
     (case jmGet nxt agentId of
        None \<Rightarrow> detachLoop recipients found nxt
      | Some deferred \<Rightarrow> detachLoop recipients (found @ [deferred]) (jmDelete agentId nxt))"

definition detachWaiters :: "waiters \<Rightarrow> agent_id list \<Rightarrow> deferred list \<times> waiters" where
  "detachWaiters current recipients = detachLoop recipients [] current"

definition activeCount :: "waiters \<Rightarrow> nat" where
  "activeCount current = length current"

text \<open>Detaching returns the waiters of exactly the recipients and leaves the others.\<close>

lemma detachLoop_spec:
  "jmWf m \<Longrightarrow> detachLoop rs found m =
     (found @ fst (detachLoop rs [] m), fold jmDelete rs m)"
proof (induction rs arbitrary: found m)
  case Nil
  then show ?case by simp
next
  case (Cons r rs)
  show ?case
  proof (cases "jmGet m r")
    case None
    then show ?thesis using Cons.IH [OF Cons.prems, of found] by (simp add: jmDelete_absent)
  next
    case (Some d)
    have wf: "jmWf (jmDelete r m)" using Cons.prems by (rule jmWf_jmDelete)
    show ?thesis
      using Some Cons.IH [OF wf, of "found @ [d]"] Cons.IH [OF wf, of "[d]"] by simp
  qed
qed

lemma detachLoop_found:
  "jmWf m \<Longrightarrow> set (fst (detachLoop rs [] m)) = {d. \<exists>a\<in>set rs. jmGet m a = Some d}"
proof (induction rs arbitrary: m)
  case Nil
  then show ?case by simp
next
  case (Cons r rs)
  show ?case
  proof (cases "jmGet m r")
    case None
    then show ?thesis using Cons by auto
  next
    case (Some d)
    have wf: "jmWf (jmDelete r m)" using Cons.prems by (rule jmWf_jmDelete)
    have "fst (detachLoop (r # rs) [] m) = d # fst (detachLoop rs [] (jmDelete r m))"
      using Some detachLoop_spec [OF wf, of rs "[d]"] by simp
    moreover have "(\<exists>a\<in>set rs. jmGet (jmDelete r m) a = Some x) \<or> x = d \<longleftrightarrow> (\<exists>a\<in>set (r # rs). jmGet m a = Some x)" for x
      using Some by (simp add: jmGet_jmDelete) (metis option.inject)
    ultimately show ?thesis using Cons.IH [OF wf] by auto
  qed
qed

lemma detachWaiters_spec:
  assumes "jmWf w" "detachWaiters w rs = (found, w')"
  shows "set found = {d. \<exists>a\<in>set rs. jmGet w a = Some d}"
    and "jmGet w' a = (if a \<in> set rs then None else jmGet w a)"
    and "jmWf w'" and "length w' \<le> length w"
proof -
  have w': "w' = fold jmDelete rs w"
    using assms(2) detachLoop_spec [OF assms(1), of rs "[]"] by (simp add: detachWaiters_def)
  show "set found = {d. \<exists>a\<in>set rs. jmGet w a = Some d}"
    using detachLoop_found [OF assms(1), of rs] assms(2) by (simp add: detachWaiters_def)
  show "jmGet w' a = (if a \<in> set rs then None else jmGet w a)" "jmWf w'"
    using jm.get_fold_del [OF assms(1), of rs a] by (simp_all add: w')
  show "length w' \<le> length w"
    using jm.count_fold_del_le [OF assms(1), of rs] by (simp add: w')
qed

end
