(* ===== verification/Router_Poll.thy ===== *)
theory Router_Poll
  imports Router_Cursor Router_Waiters
begin

text \<open>
  Polling, \<^verbatim>\<open>packages/router/src/router/poll.ts\<close>: an authenticated caller continues from the
  order its cursor carries and receives the messages addressed to it in feed order, as many
  as the count and byte limits allow, with a cursor for the last order scanned. A poll reads the
  feed twice: before it is held at the tail and after; the model takes both snapshots and
  the outcome of the hold as arguments, so every interleaving is some pair of snapshots.
\<close>

section \<open>Data\<close>

datatype 'm poll_result =
    Batch router_instance_id "'m list" string
  | FeedGap router_instance_id
  | CursorInvalid

datatype poll_failure = PollOverloaded | PollInternalServerError

datatype hold_outcome = HoldSignalled | HoldElapsed | HoldRefused

text \<open>
  The dependencies: the cursor codec, the encoding of a message into its JSON value (the
  identity package's schema) and the canonicalizer are parameters of the operations.
\<close>

record 'm poll_dependencies =
  pd_routerInstanceId :: router_instance_id
  pd_encrypt :: "agent_id \<Rightarrow> int \<Rightarrow> string option"
  pd_decrypt :: "string \<Rightarrow> agent_id \<Rightarrow> int option"
  pd_encodeMessage :: "'m \<Rightarrow> json option"
  pd_canonicalize :: "json \<Rightarrow> string option"
  pd_pollMessageLimit :: int
  pd_pollResponseByteLimit :: int

record 'm scan_state =
  ss_selected :: "'m list"
  ss_lastScannedOrder :: int

record 'm scan_result =
  sr_result :: "'m poll_result"
  sr_reachedTail :: bool
  sr_lastScannedOrder :: int

section \<open>Operations\<close>

fun encodeAll :: "('m \<Rightarrow> json option) \<Rightarrow> 'm list \<Rightarrow> json list option" where
  "encodeAll f [] = Some []"
| "encodeAll f (m # ms) = (case f m of None \<Rightarrow> None | Some j \<Rightarrow> map_option (\<lambda>js. j # js) (encodeAll f ms))"

definition encodePollResult :: "('m \<Rightarrow> json option) \<Rightarrow> 'm poll_result \<Rightarrow> json option" where
  "encodePollResult encodeMessage result =
     (case result of
        Batch rid messages cursor \<Rightarrow> map_option (\<lambda>js. batchJson rid js cursor) (encodeAll encodeMessage messages)
      | FeedGap rid \<Rightarrow> Some (JObj [(''kind'', JStr ''feed_gap''), (''routerInstanceId'', JStr rid)])
      | CursorInvalid \<Rightarrow> Some (JObj [(''kind'', JStr ''cursor_invalid'')]))"

definition encodedResultLength ::
  "('m \<Rightarrow> json option) \<Rightarrow> (json \<Rightarrow> string option) \<Rightarrow> 'm poll_result \<Rightarrow> poll_failure + int" where
  "encodedResultLength encodeMessage canonicalize result =
     (case Option.bind (encodePollResult encodeMessage result) canonicalize of
        None \<Rightarrow> Inl PollInternalServerError
      | Some text \<Rightarrow> Inr (int (length text)))"

definition addressedDataIsReady :: "'m feed_state \<Rightarrow> agent_id \<Rightarrow> int \<Rightarrow> bool" where
  "addressedDataIsReady feed callerAgentId order =
     (let snapshot = feedSnapshot feed in
      order < sn_greatestEvictedOrder snapshot \<or>
      list_ex (\<lambda>entry. callerAgentId \<in> set (fe_recipients entry)) (entriesAfter snapshot order))"

definition makeBatch ::
  "'m poll_dependencies \<Rightarrow> agent_id \<Rightarrow> 'm list \<Rightarrow> int \<Rightarrow> poll_failure + 'm poll_result" where
  "makeBatch input callerAgentId signedMessages lastScannedOrder =
     (case pd_encrypt input callerAgentId lastScannedOrder of
        None \<Rightarrow> Inl PollInternalServerError
      | Some pollCursor \<Rightarrow> Inr (Batch (pd_routerInstanceId input) signedMessages pollCursor))"

definition scanEntry ::
  "'m poll_dependencies \<Rightarrow> agent_id \<Rightarrow> 'm scan_state \<Rightarrow> 'm feed_entry \<Rightarrow> poll_failure + 'm scan_state option" where
  "scanEntry input callerAgentId state entry =
     (if callerAgentId \<notin> set (fe_recipients entry) then Inr (Some (state\<lparr>ss_lastScannedOrder := fe_order entry\<rparr>))
      else if int (length (ss_selected state)) \<ge> pd_pollMessageLimit input then Inr None
      else
        let selected = ss_selected state @ [fe_signedMessage entry] in
        bindE (makeBatch input callerAgentId selected (fe_order entry)) (\<lambda>batch.
        bindE (encodedResultLength (pd_encodeMessage input) (pd_canonicalize input) batch) (\<lambda>byteLength.
        Inr (if byteLength \<le> pd_pollResponseByteLimit input
             then Some \<lparr>ss_selected = selected, ss_lastScannedOrder = fe_order entry\<rparr> else None))))"

text \<open>The loop over the entries after the start; the flag is \<^verbatim>\<open>reachedTail\<close>.\<close>

fun scanLoop ::
  "'m poll_dependencies \<Rightarrow> agent_id \<Rightarrow> 'm scan_state \<Rightarrow> 'm feed_entry list \<Rightarrow> poll_failure + 'm scan_state \<times> bool" where
  "scanLoop input callerAgentId state [] = Inr (state, True)"
| "scanLoop input callerAgentId state (entry # entries) =
     bindE (scanEntry input callerAgentId state entry) (\<lambda>nxt.
       case nxt of
         None \<Rightarrow> Inr (state, False)
       | Some state' \<Rightarrow> scanLoop input callerAgentId state' entries)"

definition scan ::
  "'m poll_dependencies \<Rightarrow> 'm feed_snapshot \<Rightarrow> agent_id \<Rightarrow> int \<Rightarrow> poll_failure + 'm scan_result" where
  "scan input snapshot callerAgentId startOrder =
     bindE (scanLoop input callerAgentId \<lparr>ss_selected = [], ss_lastScannedOrder = startOrder\<rparr>
             (entriesAfter snapshot startOrder)) (\<lambda>(state, reachedTail).
     bindE (makeBatch input callerAgentId (ss_selected state) (ss_lastScannedOrder state)) (\<lambda>result.
     Inr \<lparr>sr_result = result, sr_reachedTail = reachedTail, sr_lastScannedOrder = ss_lastScannedOrder state\<rparr>))"

definition holdAtTail :: "hold_outcome \<Rightarrow> poll_failure + unit" where
  "holdAtTail outcome = (case outcome of HoldRefused \<Rightarrow> Inl PollOverloaded | _ \<Rightarrow> Inr ())"

definition batchMessages :: "'m poll_result \<Rightarrow> 'm list" where
  "batchMessages result = (case result of Batch _ ms _ \<Rightarrow> ms | _ \<Rightarrow> [])"

definition continueFromOrder ::
  "'m poll_dependencies \<Rightarrow> 'm feed_snapshot \<Rightarrow> hold_outcome \<Rightarrow> 'm feed_snapshot \<Rightarrow> agent_id \<Rightarrow> int \<Rightarrow>
   poll_failure + 'm poll_result" where
  "continueFromOrder input snapshot held finalSnapshot callerAgentId startOrder =
     (if startOrder > sn_tailOrder snapshot then Inr CursorInvalid
      else if startOrder < sn_greatestEvictedOrder snapshot then Inr (FeedGap (pd_routerInstanceId input))
      else
        bindE (scan input snapshot callerAgentId startOrder) (\<lambda>first.
        if length (batchMessages (sr_result first)) > 0 \<or> \<not> sr_reachedTail first then Inr (sr_result first)
        else
          bindE (holdAtTail held) (\<lambda>_.
          if sr_lastScannedOrder first < sn_greatestEvictedOrder finalSnapshot
          then Inr (FeedGap (pd_routerInstanceId input))
          else mapE sr_result (scan input finalSnapshot callerAgentId (sr_lastScannedOrder first)))))"

definition continuePoll ::
  "'m poll_dependencies \<Rightarrow> 'm feed_snapshot \<Rightarrow> hold_outcome \<Rightarrow> 'm feed_snapshot \<Rightarrow> agent_id \<Rightarrow> string \<Rightarrow>
   poll_failure + 'm poll_result" where
  "continuePoll input snapshot held finalSnapshot callerAgentId pollCursor =
     (case pd_decrypt input pollCursor callerAgentId of
        None \<Rightarrow> Inr CursorInvalid
      | Some order \<Rightarrow> continueFromOrder input snapshot held finalSnapshot callerAgentId order)"

definition handlePoll ::
  "'m poll_dependencies \<Rightarrow> 'm feed_snapshot \<Rightarrow> hold_outcome \<Rightarrow> 'm feed_snapshot \<Rightarrow> string option \<Rightarrow> agent_id \<Rightarrow>
   poll_failure + 'm poll_result" where
  "handlePoll input snapshot held finalSnapshot pollCursor callerAgentId =
     (case pollCursor of
        Some cursor \<Rightarrow> continuePoll input snapshot held finalSnapshot callerAgentId cursor
      | None \<Rightarrow> makeBatch input callerAgentId [] (sn_tailOrder snapshot))"

section \<open>What one scan returns\<close>

abbreviation addressedTo :: "agent_id \<Rightarrow> 'm feed_entry \<Rightarrow> bool" where
  "addressedTo a e \<equiv> a \<in> set (fe_recipients e)"

text \<open>The messages for one agent among the entries of a list whose orders lie in a range.\<close>

definition addressedBetween :: "agent_id \<Rightarrow> int \<Rightarrow> int \<Rightarrow> 'm feed_entry list \<Rightarrow> 'm list" where
  "addressedBetween a lo hi es =
     map fe_signedMessage (filter (\<lambda>e. addressedTo a e \<and> lo < fe_order e \<and> fe_order e \<le> hi) es)"

lemma scanEntry_Inr:
  assumes "scanEntry input a state e = Inr res"
  shows "res = (if \<not> addressedTo a e then Some (state\<lparr>ss_lastScannedOrder := fe_order e\<rparr>) else
      if res = None then None
      else Some \<lparr>ss_selected = ss_selected state @ [fe_signedMessage e], ss_lastScannedOrder = fe_order e\<rparr>)"
    and "res \<noteq> None \<Longrightarrow> addressedTo a e \<Longrightarrow> int (length (ss_selected state)) < pd_pollMessageLimit input"
  using assms by (auto simp: scanEntry_def resultE_iffs Let_def split: if_splits)

lemma scanLoop_spec:
  assumes "scanLoop input a state es = Inr (state', reached)"
  shows "\<exists>k\<le>length es.
    ss_selected state' = ss_selected state @ map fe_signedMessage (filter (addressedTo a) (take k es)) \<and>
    ss_lastScannedOrder state' = (if k = 0 then ss_lastScannedOrder state else fe_order (es ! (k - 1))) \<and>
    (reached \<longleftrightarrow> k = length es) \<and>
    (int (length (ss_selected state)) \<le> pd_pollMessageLimit input \<longrightarrow>
     int (length (ss_selected state')) \<le> pd_pollMessageLimit input)"
  using assms
proof (induction es arbitrary: state)
  case Nil
  then show ?case by simp
next
  case (Cons e es)
  then obtain res where res: "scanEntry input a state e = Inr res" by (auto simp: resultE_iffs)
  show ?case
  proof (cases res)
    case None
    with Cons.prems res show ?thesis by (intro exI [of _ 0]) auto
  next
    case (Some mid)
    with Cons.prems res have "scanLoop input a mid es = Inr (state', reached)" by simp
    from Cons.IH [OF this] obtain k where k: "k \<le> length es"
      "ss_selected state' = ss_selected mid @ map fe_signedMessage (filter (addressedTo a) (take k es))"
      "ss_lastScannedOrder state' = (if k = 0 then ss_lastScannedOrder mid else fe_order (es ! (k - 1)))"
      "reached \<longleftrightarrow> k = length es"
      "int (length (ss_selected mid)) \<le> pd_pollMessageLimit input \<longrightarrow>
       int (length (ss_selected state')) \<le> pd_pollMessageLimit input"
      by blast
    have mid: "ss_lastScannedOrder mid = fe_order e"
      "ss_selected mid = ss_selected state @ (if addressedTo a e then [fe_signedMessage e] else [])"
      using scanEntry_Inr(1) [OF res] Some by (auto split: if_splits)
    have "int (length (ss_selected state)) \<le> pd_pollMessageLimit input \<longrightarrow>
       int (length (ss_selected mid)) \<le> pd_pollMessageLimit input"
      using scanEntry_Inr(2) [OF res] Some mid by (auto split: if_splits)
    then show ?thesis
      using k mid by (intro exI [of _ "Suc k"]) (auto simp: nth_Cons' split: if_splits)
  qed
qed

lemma feedInv_length:
  assumes "feedInv st"
  shows "int (length (fs_entries st)) = fs_tailOrder st - fs_greatestEvictedOrder st"
proof -
  have "length (map fe_order (fs_entries st)) = length [fs_greatestEvictedOrder st + 1..fs_tailOrder st]"
    using assms by (simp add: feedInv_def)
  then show ?thesis using assms by (simp add: feedInv_def)
qed

lemma drop_append_le: "k \<le> length xs \<Longrightarrow> drop k (xs @ ys) = drop k xs @ ys"
  by simp

lemma entriesAfter_orders:
  assumes "feedInv st" "fs_greatestEvictedOrder st \<le> start"
  shows "map fe_order (entriesAfter (feedSnapshot st) start) = [start + 1..fs_tailOrder st]"
proof -
  have "map fe_order (filter (\<lambda>e. start < fe_order e) (fs_entries st)) =
      filter (\<lambda>i. start < i) (map fe_order (fs_entries st))"
    by (simp add: filter_map o_def)
  then show ?thesis
    using assms by (simp add: entriesAfter_def feedSnapshot_def feedInv_def filter_sorted_gt_upto)
qed

lemma take_filter_upto:
  assumes "map f xs = [a..b]" "k \<le> length xs"
  shows "take k xs = filter (\<lambda>x. f x \<le> a + int k - 1) xs"
proof -
  have "filter (\<lambda>x. f x \<le> a + int k - 1) (take k xs) = take k xs"
    using assms nth_order_upto [OF assms(1)] by (intro filter_True) (auto simp: in_set_conv_nth)
  moreover have "filter (\<lambda>x. f x \<le> a + int k - 1) (drop k xs) = []"
    using assms nth_order_upto [OF assms(1)] by (intro filter_False) (auto simp: in_set_conv_nth)
  ultimately show ?thesis by (metis append_Nil2 append_take_drop_id filter_append)
qed

lemma take_upto_less: "map f xs = [a..b] \<Longrightarrow> x \<in> set (take k xs) \<Longrightarrow> f x < a + int k"
  using nth_order_upto [of f xs a b] by (fastforce simp: in_set_conv_nth)

lemma scan_spec:
  assumes inv: "feedInv st" and start: "fs_greatestEvictedOrder st \<le> start" "start \<le> fs_tailOrder st"
    and scan: "scan input (feedSnapshot st) a start = Inr sr"
  shows "\<exists>cursor. sr_result sr = Batch (pd_routerInstanceId input)
        (addressedBetween a start (sr_lastScannedOrder sr) (fs_entries st)) cursor \<and>
      pd_encrypt input a (sr_lastScannedOrder sr) = Some cursor"
    and "start \<le> sr_lastScannedOrder sr \<and> sr_lastScannedOrder sr \<le> fs_tailOrder st"
    and "sr_reachedTail sr \<longleftrightarrow> sr_lastScannedOrder sr = fs_tailOrder st"
    and "0 \<le> pd_pollMessageLimit input \<Longrightarrow>
      int (length (batchMessages (sr_result sr))) \<le> pd_pollMessageLimit input"
proof -
  let ?es = "entriesAfter (feedSnapshot st) start"
  obtain state reached where
    loop: "scanLoop input a \<lparr>ss_selected = [], ss_lastScannedOrder = start\<rparr> ?es = Inr (state, reached)"
    and batch: "makeBatch input a (ss_selected state) (ss_lastScannedOrder state) = Inr (sr_result sr)"
    and sr: "sr_reachedTail sr = reached" "sr_lastScannedOrder sr = ss_lastScannedOrder state"
    using scan by (auto simp: scan_def resultE_iffs)
  have "\<exists>k\<le>length ?es. ss_selected state = map fe_signedMessage (filter (addressedTo a) (take k ?es)) \<and>
      ss_lastScannedOrder state = (if k = 0 then start else fe_order (?es ! (k - 1))) \<and>
      (reached \<longleftrightarrow> k = length ?es) \<and>
      (0 \<le> pd_pollMessageLimit input \<longrightarrow> int (length (ss_selected state)) \<le> pd_pollMessageLimit input)"
    using scanLoop_spec [OF loop] by (simp cong: if_cong)
  then obtain k where k: "k \<le> length ?es"
    "ss_selected state = map fe_signedMessage (filter (addressedTo a) (take k ?es))"
    "ss_lastScannedOrder state = (if k = 0 then start else fe_order (?es ! (k - 1)))"
    "reached \<longleftrightarrow> k = length ?es"
    "0 \<le> pd_pollMessageLimit input \<longrightarrow> int (length (ss_selected state)) \<le> pd_pollMessageLimit input"
    by blast
  note orders = entriesAfter_orders [OF inv start(1)]
  have len: "int (length ?es) = fs_tailOrder st - start"
    using arg_cong [OF orders, of length] start(2) by simp
  have last: "ss_lastScannedOrder state = start + int k"
    using k(1,3) nth_order_upto [OF orders, of "k - 1"] by auto
  have "take k ?es = filter (\<lambda>e. fe_order e \<le> start + int k) ?es"
    using take_filter_upto [OF orders k(1)] by simp
  then have sel: "ss_selected state = addressedBetween a start (start + int k) (fs_entries st)"
    by (simp add: k(2) addressedBetween_def entriesAfter_def feedSnapshot_def conj_ac)
  show "\<exists>cursor. sr_result sr = Batch (pd_routerInstanceId input)
        (addressedBetween a start (sr_lastScannedOrder sr) (fs_entries st)) cursor \<and>
      pd_encrypt input a (sr_lastScannedOrder sr) = Some cursor"
    using batch by (auto simp: makeBatch_def sel last sr split: option.splits)
  show "start \<le> sr_lastScannedOrder sr \<and> sr_lastScannedOrder sr \<le> fs_tailOrder st"
    "sr_reachedTail sr \<longleftrightarrow> sr_lastScannedOrder sr = fs_tailOrder st"
    using k(1,4) len by (auto simp: sr last)
  show "0 \<le> pd_pollMessageLimit input \<Longrightarrow>
      int (length (batchMessages (sr_result sr))) \<le> pd_pollMessageLimit input"
    using k(5) batch by (auto simp: makeBatch_def batchMessages_def split: option.splits poll_result.splits)
qed

section \<open>The history behind the retained window\<close>

text \<open>The entries that a sequence of sends appends, in order, whether or not still retained.\<close>

fun acceptedEntries :: "router_feed_input \<Rightarrow> 'm feed_candidate list \<Rightarrow> 'm feed_state \<Rightarrow> 'm feed_entry list" where
  "acceptedEntries input [] st = []"
| "acceptedEntries input (c # cs) st =
     (case fst (modifyFeed st c input) of
        FeedResult _ (Some _) \<Rightarrow> [entryOf c (fs_tailOrder st + 1)]
      | _ \<Rightarrow> []) @ acceptedEntries input cs (snd (modifyFeed st c input))"

lemma feedRun_history:
  assumes "feedInv st"
  shows "map fe_order (fs_entries st @ acceptedEntries input cs st) =
      [fs_greatestEvictedOrder st + 1..fs_tailOrder (feedRun input cs st)] \<and>
    (\<exists>k. fs_entries (feedRun input cs st) = drop k (fs_entries st @ acceptedEntries input cs st))"
  using assms
proof (induction cs arbitrary: st)
  case Nil
  then show ?case by (auto simp: feedInv_def intro: exI [of _ 0])
next
  case (Cons c cs)
  let ?st = "snd (modifyFeed st c input)"
  note inv = feedInv_modifyFeed [OF Cons.prems, of c input]
  obtain j where IH: "map fe_order (fs_entries ?st @ acceptedEntries input cs ?st) =
      [fs_greatestEvictedOrder ?st + 1..fs_tailOrder (feedRun input cs ?st)]"
    "fs_entries (feedRun input cs ?st) = drop j (fs_entries ?st @ acceptedEntries input cs ?st)"
    using Cons.IH [OF inv] by blast
  from Cons.prems show ?case
  proof (cases rule: modifyFeed_cases [of st c input])
    case unchanged
    then have "acceptedEntries input (c # cs) st = acceptedEntries input cs st"
      by (auto split: feed_accept_result.splits option.splits)
    with IH unchanged show ?thesis by auto
  next
    case (appended k)
    let ?all = "fs_entries st @ [entryOf c (fs_tailOrder st + 1)]"
    have acc: "acceptedEntries input (c # cs) st = entryOf c (fs_tailOrder st + 1) # acceptedEntries input cs ?st"
      using appended(5) by simp
    have klen: "k \<le> length ?all" using appended(1) by simp
    have ent: "fs_entries ?st @ acceptedEntries input cs ?st =
        drop k (?all @ acceptedEntries input cs ?st)" by (simp only: appended(6) drop_append_le [OF klen])
    have ord: "map fe_order ?all = [fs_greatestEvictedOrder st + 1..fs_tailOrder st + 1]"
      using Cons.prems by (simp add: feedInv_def entryOf_def upto_rec2)
    have tail: "fs_tailOrder st + 1 \<le> fs_tailOrder (feedRun input cs ?st)"
      using feed.bounds_run [OF inv, of input cs] appended(7) by (simp add: feedRun_fold)
    have "map fe_order (drop (length (fs_entries ?st)) (fs_entries ?st @ acceptedEntries input cs ?st)) =
        [fs_greatestEvictedOrder ?st + 1 + int (length (fs_entries ?st))..fs_tailOrder (feedRun input cs ?st)]"
      by (rule map_drop_upto [OF IH(1)])
    then have rest: "map fe_order (acceptedEntries input cs ?st) =
        [fs_tailOrder st + 1 + 1..fs_tailOrder (feedRun input cs ?st)]"
      using feedInv_length [OF inv] appended(7) by (simp add: algebra_simps)
    have "[fs_greatestEvictedOrder st + 1..fs_tailOrder (feedRun input cs ?st)] =
        [fs_greatestEvictedOrder st + 1..fs_tailOrder st + 1] @
        [fs_tailOrder st + 1 + 1..fs_tailOrder (feedRun input cs ?st)]"
      using tail Cons.prems by (intro upto_split2) (simp_all add: feedInv_def)
    then have all: "map fe_order (?all @ acceptedEntries input cs ?st) =
        [fs_greatestEvictedOrder st + 1..fs_tailOrder (feedRun input cs ?st)]"
      by (simp only: map_append [of _ ?all] ord rest)
    have hist: "fs_entries st @ acceptedEntries input (c # cs) st = ?all @ acceptedEntries input cs ?st"
      unfolding acc by simp
    have "fs_entries (feedRun input (c # cs) st) = drop (j + k) (?all @ acceptedEntries input cs ?st)"
      by (simp only: feedRun.simps IH(2) ent drop_drop)
    then show ?thesis unfolding hist using all by (simp only: feedRun.simps) blast
  qed
qed

text \<open>Restricted to orders the window has not passed, the history is what is retained.\<close>

lemma addressedBetween_history:
  assumes "feedInv st" "fs_greatestEvictedOrder (feedRun input cs st) \<le> lo" "hi \<le> fs_tailOrder (feedRun input cs st)"
  shows "addressedBetween a lo hi (fs_entries (feedRun input cs st)) =
    addressedBetween a lo hi (fs_entries st @ acceptedEntries input cs st)"
proof -
  let ?st = "feedRun input cs st" and ?hist = "fs_entries st @ acceptedEntries input cs st"
  obtain k where k: "map fe_order ?hist = [fs_greatestEvictedOrder st + 1..fs_tailOrder ?st]"
    "fs_entries ?st = drop k ?hist"
    using feedRun_history [OF assms(1)] by blast
  have inv: "feedInv ?st" using feed.inv_run [OF assms(1)] by (simp add: feedRun_fold)
  show ?thesis
  proof (cases "k \<le> length ?hist")
    case True
    have ord: "map fe_order (drop k ?hist) = [fs_greatestEvictedOrder st + 1 + int k..fs_tailOrder ?st]"
      by (rule map_drop_upto [OF k(1)])
    have lenh: "int (length ?hist) = fs_tailOrder ?st - fs_greatestEvictedOrder st"
      using arg_cong [OF k(1), of length] feed.bounds_run [OF assms(1), of input cs] assms(1)
      by (simp add: feedRun_fold feedInv_def)
    have lene: "int (length (fs_entries ?st)) = fs_tailOrder ?st - fs_greatestEvictedOrder ?st"
      using inv by (rule feedInv_length)
    have "int (length (drop k ?hist)) = int (length ?hist) - int k" using True by simp
    then have ev: "fs_greatestEvictedOrder ?st = fs_greatestEvictedOrder st + int k"
      using lenh lene k(2) by simp
    have "filter (\<lambda>e. addressedTo a e \<and> lo < fe_order e \<and> fe_order e \<le> hi) (take k ?hist) = []"
      using take_upto_less [OF k(1), of _ k] assms(2) ev by (intro filter_False) fastforce
    then have "filter (\<lambda>e. addressedTo a e \<and> lo < fe_order e \<and> fe_order e \<le> hi) (take k ?hist @ drop k ?hist) =
        filter (\<lambda>e. addressedTo a e \<and> lo < fe_order e \<and> fe_order e \<le> hi) (drop k ?hist)"
      by (simp only: filter_append append_Nil)
    then show ?thesis by (simp only: addressedBetween_def k(2) append_take_drop_id)
  next
    case False
    then have "fs_entries ?st = []" by (simp add: k(2))
    with inv have "fs_tailOrder ?st \<le> fs_greatestEvictedOrder ?st" by (simp add: feedInv_def)
    with assms(2,3) show ?thesis by (auto simp: addressedBetween_def filter_empty_conv)
  qed
qed

lemma acceptedEntries_orders:
  assumes "feedInv st"
  shows "map fe_order (acceptedEntries input cs st) = [fs_tailOrder st + 1..fs_tailOrder (feedRun input cs st)]"
proof -
  have "map fe_order (drop (length (fs_entries st)) (fs_entries st @ acceptedEntries input cs st)) =
      [fs_greatestEvictedOrder st + 1 + int (length (fs_entries st))..fs_tailOrder (feedRun input cs st)]"
    using feedRun_history [OF assms] by (intro map_drop_upto) blast
  then show ?thesis using feedInv_length [OF assms] by (simp add: algebra_simps)
qed

lemma acceptedEntries_append:
  "acceptedEntries input (cs @ ds) st = acceptedEntries input cs st @ acceptedEntries input ds (feedRun input cs st)"
  by (induction cs arbitrary: st) auto

lemma feedRun_append: "feedRun input (cs @ ds) st = feedRun input ds (feedRun input cs st)"
  by (induction cs arbitrary: st) auto

lemma feedInv_feedRun: "feedInv st \<Longrightarrow> feedInv (feedRun input cs st)"
  using feed.inv_run by (simp add: feedRun_fold)

text \<open>What a poll sees of the history at some moment is what the whole history says.\<close>

lemma addressedBetween_moment:
  assumes "feedInv st" "fs_greatestEvictedOrder (feedRun input (take i cs) st) \<le> lo"
    "hi \<le> fs_tailOrder (feedRun input (take i cs) st)"
  shows "addressedBetween a lo hi (fs_entries (feedRun input (take i cs) st)) =
    addressedBetween a lo hi (fs_entries st @ acceptedEntries input cs st)"
proof -
  let ?mid = "feedRun input (take i cs) st"
  let ?later = "acceptedEntries input (drop i cs) ?mid"
  have orders: "set (map fe_order ?later) = {fs_tailOrder ?mid + 1..fs_tailOrder (feedRun input (drop i cs) ?mid)}"
    using acceptedEntries_orders [OF feedInv_feedRun [OF assms(1)]] by simp
  have "hi < fe_order e" if "e \<in> set ?later" for e
  proof -
    have "fe_order e \<in> set (map fe_order ?later)" using that by simp
    then show ?thesis unfolding orders using assms(3) by simp
  qed
  then have "addressedBetween a lo hi ?later = []"
    by (force simp: addressedBetween_def filter_empty_conv)
  moreover have "acceptedEntries input cs st = acceptedEntries input (take i cs) st @ ?later"
    using acceptedEntries_append [of input "take i cs" "drop i cs"] by simp
  ultimately show ?thesis
    using addressedBetween_history [OF assms] by (simp add: addressedBetween_def)
qed

lemma filter_sorted_split:
  "sorted (map f xs) \<Longrightarrow> lo \<le> mid \<Longrightarrow> mid \<le> hi \<Longrightarrow>
   filter (\<lambda>x. P x \<and> lo < f x \<and> f x \<le> mid) xs @ filter (\<lambda>x. P x \<and> mid < f x \<and> f x \<le> hi) xs =
   filter (\<lambda>x. P x \<and> lo < f x \<and> f x \<le> (hi::int)) xs"
proof (induction xs)
  case Nil
  then show ?case by simp
next
  case (Cons x xs)
  have "mid < f x \<Longrightarrow> filter (\<lambda>x. P x \<and> lo < f x \<and> f x \<le> mid) xs = []"
    using Cons.prems(1) by (force simp: filter_empty_conv)
  with Cons show ?case by fastforce
qed

lemma addressedBetween_join:
  assumes "map fe_order es = [b..c]" "lo \<le> mid" "mid \<le> hi"
  shows "addressedBetween a lo mid es @ addressedBetween a mid hi es = addressedBetween a lo hi es"
  using filter_sorted_split [of fe_order es lo mid hi "addressedTo a"] assms
  by (simp add: addressedBetween_def flip: map_append)

section \<open>Properties\<close>

text \<open>The five ways a continuation answers.\<close>

lemma continueFromOrder_cases:
  assumes "continueFromOrder input (feedSnapshot st) held (feedSnapshot st') a start = Inr res"
  obtains (ahead) "fs_tailOrder st < start" "res = CursorInvalid"
  | (behind) "start \<le> fs_tailOrder st" "start < fs_greatestEvictedOrder st" "res = FeedGap (pd_routerInstanceId input)"
  | (immediate) sr where "start \<le> fs_tailOrder st" "fs_greatestEvictedOrder st \<le> start"
      "scan input (feedSnapshot st) a start = Inr sr"
      "batchMessages (sr_result sr) \<noteq> [] \<or> \<not> sr_reachedTail sr" "res = sr_result sr"
  | (passed) sr where "start \<le> fs_tailOrder st" "fs_greatestEvictedOrder st \<le> start"
      "scan input (feedSnapshot st) a start = Inr sr" "batchMessages (sr_result sr) = []" "sr_reachedTail sr"
      "sr_lastScannedOrder sr < fs_greatestEvictedOrder st'" "res = FeedGap (pd_routerInstanceId input)"
  | (held) sr sr' where "start \<le> fs_tailOrder st" "fs_greatestEvictedOrder st \<le> start"
      "scan input (feedSnapshot st) a start = Inr sr" "batchMessages (sr_result sr) = []" "sr_reachedTail sr"
      "fs_greatestEvictedOrder st' \<le> sr_lastScannedOrder sr"
      "scan input (feedSnapshot st') a (sr_lastScannedOrder sr) = Inr sr'" "res = sr_result sr'"
proof -
  have snap: "sn_tailOrder (feedSnapshot s) = fs_tailOrder s"
    "sn_greatestEvictedOrder (feedSnapshot s) = fs_greatestEvictedOrder s" for s :: "'a feed_state"
    by (simp_all add: feedSnapshot_def)
  note def = continueFromOrder_def snap
  show thesis
  proof (cases "fs_tailOrder st < start \<or> start < fs_greatestEvictedOrder st")
    case True
    with assms ahead behind show ?thesis by (auto simp: def split: if_splits)
  next
    case False
    then have start: "start \<le> fs_tailOrder st" "fs_greatestEvictedOrder st \<le> start" by auto
    then obtain sr where sr: "scan input (feedSnapshot st) a start = Inr sr"
      using assms by (auto simp: def resultE_iffs)
    show ?thesis
    proof (cases "batchMessages (sr_result sr) \<noteq> [] \<or> \<not> sr_reachedTail sr")
      case True
      then have "res = sr_result sr" using assms start sr by (simp add: def)
      with True show ?thesis by (rule immediate [OF start sr])
    next
      case False
      then have idle: "batchMessages (sr_result sr) = []" "sr_reachedTail sr" by auto
      show ?thesis
      proof (cases "sr_lastScannedOrder sr < fs_greatestEvictedOrder st'")
        case True
        then have "res = FeedGap (pd_routerInstanceId input)"
          using assms start by (auto simp: def sr idle resultE_iffs)
        with True show ?thesis by (rule passed [OF start sr idle])
      next
        case False
        with assms start obtain sr'
          where "scan input (feedSnapshot st') a (sr_lastScannedOrder sr) = Inr sr'" "res = sr_result sr'"
          by (auto simp: def sr idle resultE_iffs)
        moreover have "fs_greatestEvictedOrder st' \<le> sr_lastScannedOrder sr" using False by simp
        ultimately show ?thesis by (intro held [OF start sr idle])
      qed
    qed
  qed
qed

lemma scan_result_Batch:
  assumes "scan input snapshot a start = Inr sr"
  obtains ms cursor where "sr_result sr = Batch (pd_routerInstanceId input) ms cursor"
  using assms by (auto simp: scan_def makeBatch_def resultE_iffs split: option.splits)

lemma continueFromOrder_kind:
  "continueFromOrder input (feedSnapshot st) held (feedSnapshot st') a start = Inr res \<Longrightarrow>
   res = CursorInvalid \<or> res = FeedGap (pd_routerInstanceId input) \<or>
   (\<exists>ms cursor. res = Batch (pd_routerInstanceId input) ms cursor)"
  by (cases rule: continueFromOrder_cases) (auto elim: scan_result_Batch)

lemma addressedBetween_empty: "hi \<le> lo \<Longrightarrow> addressedBetween a lo hi es = []"
  by (auto simp: addressedBetween_def filter_empty_conv)

lemma scan_nothing:
  assumes "feedInv st" "fs_greatestEvictedOrder st \<le> start" "start \<le> fs_tailOrder st"
    and "scan input (feedSnapshot st) a start = Inr sr"
  shows "batchMessages (sr_result sr) = [] \<and> sr_reachedTail sr \<longleftrightarrow>
    sr_lastScannedOrder sr = fs_tailOrder st \<and> addressedBetween a start (fs_tailOrder st) (fs_entries st) = []"
  using scan_spec(1,3) [OF assms] by (auto simp: batchMessages_def)

lemma continueFromOrder_batch:
  assumes inv: "feedInv st" "feedInv st'" "fs_tailOrder st \<le> fs_tailOrder st'"
    and res: "continueFromOrder input (feedSnapshot st) held (feedSnapshot st') a start = Inr (Batch rid ms cursor)"
  obtains last where "start \<le> last" "pd_encrypt input a last = Some cursor"
    "fs_greatestEvictedOrder st \<le> start" "start \<le> fs_tailOrder st"
    "last \<le> fs_tailOrder st \<and> ms = addressedBetween a start last (fs_entries st) \<or>
     fs_tailOrder st \<le> last \<and> last \<le> fs_tailOrder st' \<and> fs_greatestEvictedOrder st' \<le> fs_tailOrder st \<and>
     addressedBetween a start (fs_tailOrder st) (fs_entries st) = [] \<and>
     ms = addressedBetween a (fs_tailOrder st) last (fs_entries st')"
  using res
proof (cases rule: continueFromOrder_cases)
  case (immediate sr)
  then show ?thesis
    using scan_spec(1,2) [OF inv(1) immediate(2,1,3)] by (intro that [of "sr_lastScannedOrder sr"]) auto
next
  case (held sr sr')
  have tail: "sr_lastScannedOrder sr = fs_tailOrder st"
    and none: "addressedBetween a start (fs_tailOrder st) (fs_entries st) = []"
    using scan_nothing [OF inv(1) held(2,1,3)] held(4,5) by simp_all
  then show ?thesis
    using scan_spec(1,2) [OF inv(2) held(6) _ held(7)] held inv(3)
    by (intro that [of "sr_lastScannedOrder sr'"]) auto
qed simp_all

lemma continueFromOrder_gap:
  assumes inv: "feedInv st"
    and res: "continueFromOrder input (feedSnapshot st) held (feedSnapshot st') a start = Inr res"
  shows "res = FeedGap (pd_routerInstanceId input) \<longleftrightarrow>
      start < fs_greatestEvictedOrder st \<or>
      start \<le> fs_tailOrder st \<and> addressedBetween a start (fs_tailOrder st) (fs_entries st) = [] \<and>
      fs_tailOrder st < fs_greatestEvictedOrder st' \<and>
      (\<exists>sr. scan input (feedSnapshot st) a start = Inr sr \<and> sr_reachedTail sr)"
  using res
proof (cases rule: continueFromOrder_cases)
  case ahead
  then show ?thesis using inv by (auto simp: feedInv_def)
next
  case behind
  then show ?thesis by simp
next
  case (immediate sr)
  obtain ms cursor where "res = Batch (pd_routerInstanceId input) ms cursor"
    using scan_result_Batch [OF immediate(3)] immediate(5) by blast
  moreover have "sr_reachedTail sr \<Longrightarrow> addressedBetween a start (fs_tailOrder st) (fs_entries st) \<noteq> []"
    using scan_nothing [OF inv immediate(2,1,3)] scan_spec(3) [OF inv immediate(2,1,3)] immediate(4) by auto
  ultimately show ?thesis using immediate by auto
next
  case (passed sr)
  then show ?thesis using scan_nothing [OF inv passed(2,1,3)] by auto
next
  case (held sr sr')
  obtain ms cursor where "res = Batch (pd_routerInstanceId input) ms cursor"
    using scan_result_Batch [OF held(7)] held(8) by blast
  then show ?thesis using held scan_nothing [OF inv held(2,1,3)] by auto
qed

text \<open>
  A caller that follows its cursors: each poll continues with the cursor the previous batch
  carried, and stops being a run when a poll answers anything but a batch.
\<close>

fun pollRun ::
  "'m poll_dependencies \<Rightarrow> ('m feed_snapshot \<times> hold_outcome \<times> 'm feed_snapshot) list \<Rightarrow> agent_id \<Rightarrow> string \<Rightarrow>
   ('m list \<times> string) option" where
  "pollRun input [] a cursor = Some ([], cursor)"
| "pollRun input ((snapshot, held, finalSnapshot) # polls) a cursor =
     (case continuePoll input snapshot held finalSnapshot a cursor of
        Inr (Batch _ ms cursor') \<Rightarrow> map_option (\<lambda>(ms', c). (ms @ ms', c)) (pollRun input polls a cursor')
      | _ \<Rightarrow> None)"

definition momentsOf ::
  "router_feed_input \<Rightarrow> 'm feed_state \<Rightarrow> 'm feed_candidate list \<Rightarrow> (nat \<times> hold_outcome \<times> nat) list \<Rightarrow>
   ('m feed_snapshot \<times> hold_outcome \<times> 'm feed_snapshot) list" where
  "momentsOf feed st cs schedule =
     map (\<lambda>(i, held, j). (feedSnapshot (feedRun feed (take i cs) st), held, feedSnapshot (feedRun feed (take j cs) st)))
       schedule"

lemma feedRun_tail_mono: "feedInv st \<Longrightarrow> i \<le> j \<Longrightarrow>
   fs_tailOrder (feedRun feed (take i cs) st) \<le> fs_tailOrder (feedRun feed (take j cs) st)"
proof -
  assume inv: "feedInv st" and ij: "i \<le> j"
  have "take j cs = take i cs @ take (j - i) (drop i cs)"
    using ij by (metis le_add_diff_inverse take_add)
  then show ?thesis
    using feed.bounds_run [OF feedInv_feedRun [OF inv]] by (simp add: feedRun_append feedRun_fold)
qed

lemma one_poll_delivers:
  assumes inv: "feedInv st" and ij: "i \<le> j"
    and poll: "continueFromOrder input (feedSnapshot (feedRun feed (take i cs) st)) held
      (feedSnapshot (feedRun feed (take j cs) st)) a start = Inr (Batch rid ms cursor)"
  obtains last where "start \<le> last" "pd_encrypt input a last = Some cursor"
    "ms = addressedBetween a start last (fs_entries st @ acceptedEntries feed cs st)"
proof -
  let ?i = "feedRun feed (take i cs) st" and ?j = "feedRun feed (take j cs) st"
  let ?hist = "fs_entries st @ acceptedEntries feed cs st"
  obtain last where last: "start \<le> last" "pd_encrypt input a last = Some cursor"
    "fs_greatestEvictedOrder ?i \<le> start" "start \<le> fs_tailOrder ?i"
    "last \<le> fs_tailOrder ?i \<and> ms = addressedBetween a start last (fs_entries ?i) \<or>
     fs_tailOrder ?i \<le> last \<and> last \<le> fs_tailOrder ?j \<and> fs_greatestEvictedOrder ?j \<le> fs_tailOrder ?i \<and>
     addressedBetween a start (fs_tailOrder ?i) (fs_entries ?i) = [] \<and>
     ms = addressedBetween a (fs_tailOrder ?i) last (fs_entries ?j)"
    using continueFromOrder_batch [OF feedInv_feedRun [OF inv] feedInv_feedRun [OF inv]
        feedRun_tail_mono [OF inv ij] poll] by blast
  have hist: "\<exists>b c. map fe_order ?hist = [b..c]" using feedRun_history [OF inv] by blast
  have "ms = addressedBetween a start last ?hist"
    using last(5)
  proof
    assume "last \<le> fs_tailOrder ?i \<and> ms = addressedBetween a start last (fs_entries ?i)"
    then show ?thesis using addressedBetween_moment [OF inv last(3)] by simp
  next
    assume l: "fs_tailOrder ?i \<le> last \<and> last \<le> fs_tailOrder ?j \<and> fs_greatestEvictedOrder ?j \<le> fs_tailOrder ?i \<and>
      addressedBetween a start (fs_tailOrder ?i) (fs_entries ?i) = [] \<and>
      ms = addressedBetween a (fs_tailOrder ?i) last (fs_entries ?j)"
    then have "addressedBetween a start (fs_tailOrder ?i) ?hist = []"
      "ms = addressedBetween a (fs_tailOrder ?i) last ?hist"
      using addressedBetween_moment [OF inv last(3)] addressedBetween_moment [OF inv, of feed j cs "fs_tailOrder ?i" last a]
      by simp_all
    then show ?thesis using hist l last(4) addressedBetween_join [of ?hist _ _ start "fs_tailOrder ?i" last a] by auto
  qed
  then show thesis using that last(1,2) by blast
qed

text \<open>
  C2: Delivery is exactly once and in order. Take any sends, any moments at which a caller's
  polls read the feed before and after being held, and any retention: as long as every
  poll of the run answers with a batch, the messages of the batches, one after the other,
  are exactly the messages addressed to the caller among all accepted ones from the
  order of the first cursor to the order of the last, each once, in the order of
  acceptance, whether or not they are still retained.
\<close>

theorem polls_deliver_exactly_once:
  assumes "feedInv st"
    and "\<forall>n cursor. pd_encrypt input a n = Some cursor \<longrightarrow> pd_decrypt input cursor a = Some n"
    and "list_all (\<lambda>(i, held, j). i \<le> j) schedule"
    and "pd_decrypt input cursor a = Some start"
    and "pollRun input (momentsOf feed st cs schedule) a cursor = Some (ms, cursor')"
  shows "\<exists>last. pd_decrypt input cursor' a = Some last \<and> start \<le> last \<and>
    ms = addressedBetween a start last (fs_entries st @ acceptedEntries feed cs st)"
  using assms(3-5)
proof (induction schedule arbitrary: cursor start ms)
  case Nil
  then show ?case by (auto simp: momentsOf_def addressedBetween_def)
next
  case (Cons poll schedule)
  obtain i held j where poll: "poll = (i, held, j)" by (cases poll)
  obtain rid ms1 c1 ms2
    where p: "continueFromOrder input (feedSnapshot (feedRun feed (take i cs) st)) held
        (feedSnapshot (feedRun feed (take j cs) st)) a start = Inr (Batch rid ms1 c1)"
      and rest: "pollRun input (momentsOf feed st cs schedule) a c1 = Some (ms2, cursor')" and ms: "ms = ms1 @ ms2"
    using Cons.prems(2,3) poll
    by (auto simp: momentsOf_def continuePoll_def split: sum.splits poll_result.splits)
  from Cons.prems(1) poll have "i \<le> j" by simp
  from one_poll_delivers [OF assms(1) this p]
  obtain mid where mid: "start \<le> mid" "pd_encrypt input a mid = Some c1"
    "ms1 = addressedBetween a start mid (fs_entries st @ acceptedEntries feed cs st)" .
  have "pd_decrypt input c1 a = Some mid" using assms(2) mid(2) by blast
  then obtain last where last: "pd_decrypt input cursor' a = Some last" "mid \<le> last"
    "ms2 = addressedBetween a mid last (fs_entries st @ acceptedEntries feed cs st)"
    using Cons.IH [OF _ _ rest] Cons.prems(1) by auto
  obtain b c where "map fe_order (fs_entries st @ acceptedEntries feed cs st) = [b..c]"
    using feedRun_history [OF assms(1)] by blast
  from addressedBetween_join [OF this mid(1) last(2), of a]
  show ?case using last mid ms by (intro exI [of _ last]) simp
qed

definition sampleDeps :: "string poll_dependencies" where
  "sampleDeps =
     \<lparr>pd_routerInstanceId = ''rti_x'',
      pd_encrypt = (\<lambda>a n. if 0 \<le> n then Some (natText (nat n)) else None),
      pd_decrypt = (\<lambda>cursor a. Some (int (bigIntOf cursor))),
      pd_encodeMessage = (\<lambda>m. Some (JStr m)), pd_canonicalize = (\<lambda>v. Some (jcs v)),
      pd_pollMessageLimit = 1, pd_pollResponseByteLimit = 1000\<rparr>"

definition sampleSends :: "string feed_candidate list" where
  "sampleSends = [sampleCandidate ''m1'' ''a'', sampleCandidate ''m2'' ''b'', sampleCandidate ''m3'' ''c'']"

definition sampleSchedule :: "(nat \<times> hold_outcome \<times> nat) list" where
  "sampleSchedule = [(0, HoldSignalled, 1), (2, HoldElapsed, 2), (3, HoldElapsed, 3)]"

lemma bigIntOf_zero: "bigIntOf ''0'' = 0"
  by (simp add: bigIntOf_def digitValue_def)

lemma sample_pollRun:
  "pollRun sampleDeps (momentsOf sampleInput (makeInitialState 0) sampleSends sampleSchedule) ''bob'' ''0'' =
    Some ([''a'', ''b'', ''c''], ''3'')"
  by code_simp

theorem polls_deliver_exactly_once_witness:
  "\<exists>last. pd_decrypt sampleDeps ''3'' ''bob'' = Some last \<and> 0 \<le> last \<and>
    [''a'', ''b'', ''c''] = addressedBetween ''bob'' 0 last
      (fs_entries (makeInitialState 0) @ acceptedEntries sampleInput sampleSends (makeInitialState 0))"
  by (rule polls_deliver_exactly_once [OF _ _ _ _ sample_pollRun])
    (auto simp: feedInv_initial maximumPrivateOrder_def sampleDeps_def sampleSchedule_def bigIntOf_natText
      bigIntOf_zero split: if_splits)

text \<open>
  C11: A poll tells its caller precisely what happened. With a current cursor it answers
  \<^verbatim>\<open>cursor_invalid\<close> exactly when the cursor is ahead of the feed, \<^verbatim>\<open>feed_gap\<close> exactly
  when the feed has evicted past the cursor, before the poll or while it was held
  without anything to deliver, and otherwise a batch: the messages addressed to the
  caller that follow the cursor, with a cursor that covers exactly what was scanned.
\<close>

theorem poll_outcome:
  assumes "feedInv st" and "feedInv st'" and "fs_tailOrder st \<le> fs_tailOrder st'"
    and "continueFromOrder input (feedSnapshot st) held (feedSnapshot st') a start = Inr res"
  shows "(res = CursorInvalid \<longleftrightarrow> fs_tailOrder st < start) \<and>
    (res = FeedGap (pd_routerInstanceId input) \<longleftrightarrow>
      start < fs_greatestEvictedOrder st \<or>
      start \<le> fs_tailOrder st \<and> addressedBetween a start (fs_tailOrder st) (fs_entries st) = [] \<and>
      fs_tailOrder st < fs_greatestEvictedOrder st' \<and>
      (\<exists>sr. scan input (feedSnapshot st) a start = Inr sr \<and> sr_reachedTail sr)) \<and>
    (res \<noteq> CursorInvalid \<and> res \<noteq> FeedGap (pd_routerInstanceId input) \<longrightarrow>
      (\<exists>last cursor. pd_encrypt input a last = Some cursor \<and> start \<le> last \<and> last \<le> fs_tailOrder st' \<and>
        res = Batch (pd_routerInstanceId input)
          (addressedBetween a start (min last (fs_tailOrder st)) (fs_entries st) @
           addressedBetween a (max start (fs_tailOrder st)) last (fs_entries st')) cursor))"
proof (intro conjI impI)
  show "res = CursorInvalid \<longleftrightarrow> fs_tailOrder st < start"
    using assms(4) by (cases rule: continueFromOrder_cases) (auto elim: scan_result_Batch)
  show "res = FeedGap (pd_routerInstanceId input) \<longleftrightarrow>
      start < fs_greatestEvictedOrder st \<or>
      start \<le> fs_tailOrder st \<and> addressedBetween a start (fs_tailOrder st) (fs_entries st) = [] \<and>
      fs_tailOrder st < fs_greatestEvictedOrder st' \<and>
      (\<exists>sr. scan input (feedSnapshot st) a start = Inr sr \<and> sr_reachedTail sr)"
    by (rule continueFromOrder_gap [OF assms(1,4)])
  assume neither: "res \<noteq> CursorInvalid \<and> res \<noteq> FeedGap (pd_routerInstanceId input)"
  then obtain ms cursor where res: "res = Batch (pd_routerInstanceId input) ms cursor"
    using continueFromOrder_kind [OF assms(4)] by blast
  from continueFromOrder_batch [OF assms(1-3) assms(4) [unfolded res]]
  obtain last where last: "start \<le> last" "pd_encrypt input a last = Some cursor"
    "fs_greatestEvictedOrder st \<le> start" "start \<le> fs_tailOrder st"
    "last \<le> fs_tailOrder st \<and> ms = addressedBetween a start last (fs_entries st) \<or>
     fs_tailOrder st \<le> last \<and> last \<le> fs_tailOrder st' \<and> fs_greatestEvictedOrder st' \<le> fs_tailOrder st \<and>
     addressedBetween a start (fs_tailOrder st) (fs_entries st) = [] \<and>
     ms = addressedBetween a (fs_tailOrder st) last (fs_entries st')" .
  then show "\<exists>last cursor. pd_encrypt input a last = Some cursor \<and> start \<le> last \<and> last \<le> fs_tailOrder st' \<and>
        res = Batch (pd_routerInstanceId input)
          (addressedBetween a start (min last (fs_tailOrder st)) (fs_entries st) @
           addressedBetween a (max start (fs_tailOrder st)) last (fs_entries st')) cursor"
    using res assms(3) addressedBetween_empty
    by (intro exI [of _ last] exI [of _ cursor]) (auto simp: min_def max_def)
qed

theorem poll_outcome_witness:
  "(CursorInvalid \<noteq> (Batch ''rti_x'' [''a''] ''1'' :: string poll_result)) \<and>
   (Batch ''rti_x'' [''a''] ''1'' :: string poll_result) \<noteq> FeedGap ''rti_x'' \<and>
   (\<exists>last. pd_encrypt sampleDeps ''bob'' last = Some ''1'' \<and> 0 \<le> last)"
proof -
  let ?st = "makeInitialState 0 :: string feed_state" and ?st' = "feedRun sampleInput sampleSends (makeInitialState 0)"
  have inv: "feedInv ?st" by (simp add: feedInv_initial maximumPrivateOrder_def)
  have "continueFromOrder sampleDeps (feedSnapshot (feedRun sampleInput [sampleCandidate ''m1'' ''a''] ?st)) HoldElapsed
      (feedSnapshot (feedRun sampleInput [sampleCandidate ''m1'' ''a''] ?st)) ''bob'' 0 =
      Inr (Batch ''rti_x'' [''a''] ''1'')"
    by code_simp
  from poll_outcome [OF feedInv_feedRun [OF inv] feedInv_feedRun [OF inv] order_refl this]
  show ?thesis by (auto simp: sampleDeps_def split: if_splits)
qed

lemma encodeAll_Some:
  "list_all (\<lambda>m. f m \<noteq> None) ms \<Longrightarrow> \<exists>js. encodeAll f ms = Some js"
  by (induction ms) auto

text \<open>
  What configuration guarantees of the dependencies: a canonicalizer after RFC 8785, a cursor
  within the maximum length for every order, limits that admit the largest one-message
  batch, and messages within the identity layer's maximum.
\<close>

definition soundLimits :: "'m poll_dependencies \<Rightarrow> nat \<Rightarrow> int \<Rightarrow> agent_id \<Rightarrow> 'm feed_entry list \<Rightarrow> bool" where
  "soundLimits input cursorLength maximumBytes a es \<longleftrightarrow>
     rfc8785 (pd_canonicalize input) \<and> 1 \<le> pd_pollMessageLimit input \<and>
     (\<exists>lim. calculateRouterRepresentationLimits (pd_canonicalize input) cursorLength maximumBytes = Inr lim \<and>
        rl_oneMessageBatchBytes lim \<le> pd_pollResponseByteLimit input) \<and>
     plainText (pd_routerInstanceId input) \<and>
     length (pd_routerInstanceId input) = length maximumRouterInstanceId \<and>
     (\<forall>n. 0 \<le> n \<and> n \<le> maximumPrivateOrder \<longrightarrow>
        (\<exists>cursor. pd_encrypt input a n = Some cursor \<and> plainText cursor \<and> length cursor \<le> cursorLength)) \<and>
     list_all (\<lambda>e. \<exists>j. pd_encodeMessage input (fe_signedMessage e) = Some j \<and> int (length (jcs j)) \<le> maximumBytes) es"

lemma scanEntry_total:
  assumes "soundLimits input L B a es" "e \<in> set es" "0 \<le> fe_order e" "fe_order e \<le> maximumPrivateOrder"
    and "list_all (\<lambda>m. pd_encodeMessage input m \<noteq> None) (ss_selected state)"
  shows "\<exists>res. scanEntry input a state e = Inr res \<and> (ss_selected state = [] \<longrightarrow> res \<noteq> None) \<and>
    (\<forall>mid. res = Some mid \<longrightarrow> list_all (\<lambda>m. pd_encodeMessage input m \<noteq> None) (ss_selected mid))"
proof -
  obtain cursor where cursor: "pd_encrypt input a (fe_order e) = Some cursor" "plainText cursor" "length cursor \<le> L"
    using assms(1,3,4) by (auto simp: soundLimits_def)
  obtain j where j: "pd_encodeMessage input (fe_signedMessage e) = Some j" "int (length (jcs j)) \<le> B"
    using assms(1,2) by (auto simp: soundLimits_def list_all_iff)
  obtain lim where lim: "calculateRouterRepresentationLimits (pd_canonicalize input) L B = Inr lim"
    "rl_oneMessageBatchBytes lim \<le> pd_pollResponseByteLimit input"
    using assms(1) by (auto simp: soundLimits_def)
  obtain js where js: "encodeAll (pd_encodeMessage input) (ss_selected state @ [fe_signedMessage e]) = Some js"
    using encodeAll_Some [of "pd_encodeMessage input" "ss_selected state @ [fe_signedMessage e]"] assms(5) j by auto
  have can: "pd_canonicalize input v = Some (jcs v)" for v
    using assms(1) by (simp add: soundLimits_def rfc8785_def)
  have "ss_selected state = [] \<Longrightarrow>
      int (length (jcs (batchJson (pd_routerInstanceId input) js cursor))) \<le> pd_pollResponseByteLimit input"
    using one_message_bound [OF _ lim(1) _ _ cursor(2,3) j(2), of "pd_routerInstanceId input"] assms(1) js j(1) lim(2)
    by (simp add: soundLimits_def)
  then show ?thesis
    using assms(1,5) j(1) js cursor(1)
    by (cases "scanEntry input a state e")
      (auto simp: scanEntry_def makeBatch_def encodedResultLength_def encodePollResult_def can soundLimits_def
        Let_def split: if_splits)
qed

lemma scanLoop_total:
  assumes "soundLimits input L B a es" "set es' \<subseteq> set es"
    "\<forall>e\<in>set es'. 0 \<le> fe_order e \<and> fe_order e \<le> maximumPrivateOrder"
    "list_all (\<lambda>m. pd_encodeMessage input m \<noteq> None) (ss_selected state)"
  shows "\<exists>p. scanLoop input a state es' = Inr p"
  using assms(2-4)
proof (induction es' arbitrary: state)
  case Nil
  show ?case by (intro exI) (rule scanLoop.simps(1))
next
  case (Cons e es')
  obtain res where res: "scanEntry input a state e = Inr res"
    "\<forall>mid. res = Some mid \<longrightarrow> list_all (\<lambda>m. pd_encodeMessage input m \<noteq> None) (ss_selected mid)"
    using scanEntry_total [OF assms(1), of e state] Cons.prems by auto
  show ?case
  proof (cases res)
    case None
    then have "scanLoop input a state (e # es') = Inr (state, False)" using res by simp
    then show ?thesis by blast
  next
    case (Some mid)
    with res Cons.IH [of mid] Cons.prems show ?thesis by simp
  qed
qed

lemma scan_total:
  assumes sound: "soundLimits input L B a (fs_entries st)"
    and inv: "feedInv st" and start: "fs_greatestEvictedOrder st \<le> start" "start \<le> fs_tailOrder st"
  obtains sr where "scan input (feedSnapshot st) a start = Inr sr"
    "start < fs_tailOrder st \<Longrightarrow> start < sr_lastScannedOrder sr"
proof -
  let ?es = "entriesAfter (feedSnapshot st) start"
  let ?init = "\<lparr>ss_selected = [] :: 'a list, ss_lastScannedOrder = start\<rparr>"
  note orders = entriesAfter_orders [OF inv start(1)]
  have range: "start < fe_order e \<and> fe_order e \<le> fs_tailOrder st" if "e \<in> set ?es" for e
  proof -
    have "fe_order e \<in> set (map fe_order ?es)" using that by simp
    then show ?thesis unfolding orders by simp
  qed
  have sub: "set ?es \<subseteq> set (fs_entries st)" by (auto simp: entriesAfter_def feedSnapshot_def)
  have nonneg: "0 \<le> start" "fs_tailOrder st \<le> maximumPrivateOrder" using inv start by (auto simp: feedInv_def)
  have ok: "\<forall>e\<in>set ?es. 0 \<le> fe_order e \<and> fe_order e \<le> maximumPrivateOrder"
    using range nonneg by fastforce
  obtain state reached where loop: "scanLoop input a ?init ?es = Inr (state, reached)"
    using scanLoop_total [OF sound sub ok, of ?init] by auto
  have last: "start \<le> ss_lastScannedOrder state \<and> ss_lastScannedOrder state \<le> fs_tailOrder st \<and>
      (?es \<noteq> [] \<longrightarrow> start < ss_lastScannedOrder state)"
  proof (cases ?es)
    case Nil
    with loop start show ?thesis by auto
  next
    case (Cons e es)
    obtain mid where mid: "scanEntry input a ?init e = Inr (Some mid)"
      using scanEntry_total [OF sound, of e ?init] sub ok Cons by (auto simp: subset_iff)
    then have "ss_lastScannedOrder mid = fe_order e" using scanEntry_Inr(1) [OF mid] by (auto split: if_splits)
    moreover have "scanLoop input a mid es = Inr (state, reached)" using loop Cons mid by simp
    then obtain k where "k \<le> length es"
      "ss_lastScannedOrder state = (if k = 0 then ss_lastScannedOrder mid else fe_order (es ! (k - 1)))"
      using scanLoop_spec by blast
    moreover have "k \<noteq> 0 \<Longrightarrow> k \<le> length es \<Longrightarrow> es ! (k - 1) \<in> set ?es" for k using Cons by auto
    ultimately have "ss_lastScannedOrder state \<in> fe_order ` set ?es" using Cons by auto
    then show ?thesis using range by fastforce
  qed
  have "0 \<le> ss_lastScannedOrder state" "ss_lastScannedOrder state \<le> maximumPrivateOrder"
    using last nonneg by auto
  then obtain cursor where "pd_encrypt input a (ss_lastScannedOrder state) = Some cursor"
    using sound by (auto simp: soundLimits_def)
  moreover have "start < fs_tailOrder st \<Longrightarrow> ?es \<noteq> []" using orders by auto
  ultimately show thesis
    using that loop last by (auto simp: scan_def makeBatch_def)
qed

text \<open>A scan inside the retained window returns a batch, and its cursor moves when anything follows the start.\<close>

lemma scan_batch:
  assumes "soundLimits input L B a (fs_entries st)" "feedInv st" "fs_greatestEvictedOrder st \<le> start" "start \<le> fs_tailOrder st"
  obtains sr ms cursor where "scan input (feedSnapshot st) a start = Inr sr"
    "sr_result sr = Batch (pd_routerInstanceId input) ms cursor" "pd_encrypt input a (sr_lastScannedOrder sr) = Some cursor"
    "start \<le> sr_lastScannedOrder sr" "sr_lastScannedOrder sr \<le> fs_tailOrder st"
    "start < fs_tailOrder st \<longrightarrow> start < sr_lastScannedOrder sr" "sr_reachedTail sr \<longleftrightarrow> sr_lastScannedOrder sr = fs_tailOrder st"
proof -
  obtain sr where sr: "scan input (feedSnapshot st) a start = Inr sr" "start < fs_tailOrder st \<Longrightarrow> start < sr_lastScannedOrder sr"
    using scan_total [OF assms] by blast
  note spec = scan_spec(1-3) [OF assms(2-4) sr(1)]
  obtain cursor where "sr_result sr = Batch (pd_routerInstanceId input) (addressedBetween a start (sr_lastScannedOrder sr) (fs_entries st)) cursor"
    "pd_encrypt input a (sr_lastScannedOrder sr) = Some cursor" using spec(1) by blast
  then show thesis using that sr spec(2,3) by blast
qed

text \<open>Where a poll continues, it either finds the order outside the feeds it reads, is refused its hold, or moves on.\<close>

lemma continueFromOrder_progress:
  assumes limits: "soundLimits input L B a (fs_entries st)" "soundLimits input L B a (fs_entries st')"
    and inv: "feedInv st" "feedInv st'" and later: "fs_tailOrder st \<le> fs_tailOrder st'"
  shows "case continueFromOrder input (feedSnapshot st) held (feedSnapshot st') a order of
      Inl problem \<Rightarrow> problem = PollOverloaded \<and> held = HoldRefused
    | Inr (Batch rid ms cursor) \<Rightarrow> \<exists>last. pd_encrypt input a last = Some cursor \<and> order \<le> last \<and> last \<le> fs_tailOrder st' \<and>
        (order < fs_tailOrder st' \<longrightarrow> order < last)
    | Inr _ \<Rightarrow> fs_tailOrder st < order \<or> order < fs_greatestEvictedOrder st \<or> order < fs_greatestEvictedOrder st'"
proof -
  have tails: "sn_tailOrder (feedSnapshot s) = fs_tailOrder s" "sn_greatestEvictedOrder (feedSnapshot s) = fs_greatestEvictedOrder s"
    for s :: "'a feed_state" by (simp_all add: feedSnapshot_def)
  consider (ahead) "fs_tailOrder st < order" | (evicted) "order < fs_greatestEvictedOrder st"
    | (inside) "fs_greatestEvictedOrder st \<le> order" "order \<le> fs_tailOrder st" by linarith
  then show ?thesis
  proof cases
    case ahead
    then show ?thesis by (simp add: continueFromOrder_def tails)
  next
    case evicted
    then show ?thesis by (simp add: continueFromOrder_def tails)
  next
    case inside
    obtain sr ms cursor where first: "scan input (feedSnapshot st) a order = Inr sr"
      "sr_result sr = Batch (pd_routerInstanceId input) ms cursor" "pd_encrypt input a (sr_lastScannedOrder sr) = Some cursor"
      "order \<le> sr_lastScannedOrder sr" "sr_lastScannedOrder sr \<le> fs_tailOrder st"
      "order < fs_tailOrder st \<longrightarrow> order < sr_lastScannedOrder sr" "sr_reachedTail sr \<longleftrightarrow> sr_lastScannedOrder sr = fs_tailOrder st"
      by (rule scan_batch [OF limits(1) inv(1) inside]) blast
    show ?thesis
    proof (cases "0 < length ms \<or> \<not> sr_reachedTail sr")
      case True
      have "order < sr_lastScannedOrder sr"
      proof (cases "sr_reachedTail sr")
        case True
        show ?thesis
        proof (rule ccontr)
          assume stuck: "\<not> order < sr_lastScannedOrder sr"
          then have "order = sr_lastScannedOrder sr" using first(4) by simp
          moreover have "ms = addressedBetween a order (sr_lastScannedOrder sr) (fs_entries st)"
            using scan_spec(1) [OF inv(1) inside first(1)] first(2) by auto
          ultimately show False using \<open>0 < length ms \<or> \<not> sr_reachedTail sr\<close> True by (auto simp: addressedBetween_def)
        qed
      next
        case False
        then have "order < fs_tailOrder st" using first(4,5,7) by auto
        then show ?thesis using first(6) by blast
      qed
      then show ?thesis
        using True inside first later by (auto simp: continueFromOrder_def tails batchMessages_def)
    next
      case False
      then have tail: "sr_lastScannedOrder sr = fs_tailOrder st" "ms = []" "sr_reachedTail sr" using first(7) by auto
      show ?thesis
      proof (cases "held = HoldRefused \<or> fs_tailOrder st < fs_greatestEvictedOrder st'")
        case True
        then show ?thesis
          using tail inside first(1,2) by (auto simp: continueFromOrder_def tails batchMessages_def holdAtTail_def split: hold_outcome.splits)
      next
        case False
        then have retained: "fs_greatestEvictedOrder st' \<le> fs_tailOrder st" by simp
        obtain sr' ms' cursor' where second: "scan input (feedSnapshot st') a (fs_tailOrder st) = Inr sr'"
          "sr_result sr' = Batch (pd_routerInstanceId input) ms' cursor'" "pd_encrypt input a (sr_lastScannedOrder sr') = Some cursor'"
          "fs_tailOrder st \<le> sr_lastScannedOrder sr'" "sr_lastScannedOrder sr' \<le> fs_tailOrder st'"
          "fs_tailOrder st < fs_tailOrder st' \<longrightarrow> fs_tailOrder st < sr_lastScannedOrder sr'"
          by (rule scan_batch [OF limits(2) inv(2) retained later]) blast
        have "holdAtTail held = Inr ()" using False by (cases held) (simp_all add: holdAtTail_def)
        then have "continueFromOrder input (feedSnapshot st) held (feedSnapshot st') a order = Inr (Batch (pd_routerInstanceId input) ms' cursor')"
          using False tail inside first(1,2) second(1,2) by (simp add: continueFromOrder_def tails batchMessages_def)
        then show ?thesis using second(3-6) inside by auto
      qed
    qed
  qed
qed

text \<open>
  C12: A poll cannot fail internally or stall on well-configured limits. Whatever cursor it carries or none, and whatever
  happened to the feed while it was held at the tail, it fails only by being refused its hold, and then as overloaded.
  With a valid cursor in the window both reads of the feed retain, or with none, every other answer is a batch.
  Every batch it answers carries a cursor that covers strictly more than the one it came with as soon as either
  feed it read has anything after that: even a message of the largest size, alone in a batch, fits the response limit.
\<close>

theorem polls_make_progress:
  assumes "feedInv st" "feedInv st'" "fs_tailOrder st \<le> fs_tailOrder st'"
    and "soundLimits input L B a (fs_entries st)" "soundLimits input L B a (fs_entries st')"
  shows "case handlePoll input (feedSnapshot st) held (feedSnapshot st') pollCursor a of
      Inl problem \<Rightarrow> problem = PollOverloaded \<and> held = HoldRefused
    | Inr (Batch rid ms cursor) \<Rightarrow>
        (case pollCursor of
           None \<Rightarrow> ms = [] \<and> pd_encrypt input a (fs_tailOrder st) = Some cursor
         | Some current \<Rightarrow>
             (\<exists>order last. pd_decrypt input current a = Some order \<and> pd_encrypt input a last = Some cursor \<and>
                order \<le> last \<and> last \<le> fs_tailOrder st' \<and> (order < fs_tailOrder st' \<longrightarrow> order < last)))
    | Inr _ \<Rightarrow> (\<exists>current. pollCursor = Some current \<and> (\<forall>order. pd_decrypt input current a = Some order \<longrightarrow>
        fs_tailOrder st < order \<or> order < fs_greatestEvictedOrder st \<or> order < fs_greatestEvictedOrder st'))"
proof (cases pollCursor)
  case None
  have "0 \<le> fs_tailOrder st" "fs_tailOrder st \<le> maximumPrivateOrder" using assms(1) by (auto simp: feedInv_def)
  then obtain cursor where "pd_encrypt input a (fs_tailOrder st) = Some cursor" using assms(4) by (auto simp: soundLimits_def)
  with None show ?thesis by (simp add: handlePoll_def makeBatch_def feedSnapshot_def)
next
  case (Some current)
  show ?thesis
  proof (cases "pd_decrypt input current a")
    case None
    with Some show ?thesis by (simp add: handlePoll_def continuePoll_def)
  next
    case order: (Some order)
    from continueFromOrder_progress [OF assms(4,5,1,2,3), of held order] Some order show ?thesis
      by (auto simp: handlePoll_def continuePoll_def split: sum.splits poll_result.splits)
  qed
qed

definition sampleStrict :: "string poll_dependencies" where
  "sampleStrict = sampleDeps\<lparr>pd_routerInstanceId := maximumRouterInstanceId,
     pd_encrypt := (\<lambda>a n. Some ''c''), pd_pollResponseByteLimit := 200\<rparr>"

text \<open>Bob polls at the tail, is held there, and finds the first of the two messages sent meanwhile.\<close>

definition sampleFeed :: "nat \<Rightarrow> string feed_state" where
  "sampleFeed n = feedRun sampleInput (take n sampleSends) (makeInitialState 0)"

lemma sample_handlePoll:
  "handlePoll sampleStrict (feedSnapshot (sampleFeed 1)) HoldSignalled (feedSnapshot (sampleFeed 3)) (Some ''1'') ''bob'' =
     Inr (Batch maximumRouterInstanceId [''b''] ''c'')"
  by code_simp

lemma sample_sound: "n \<in> {1, 3} \<Longrightarrow> soundLimits sampleStrict 10 50 ''bob'' (fs_entries (sampleFeed n))"
proof -
  have "map fe_signedMessage (fs_entries (sampleFeed 1)) = [''a'']" "map fe_signedMessage (fs_entries (sampleFeed 3)) = [''b'', ''c'']"
    by code_simp+
  moreover assume "n \<in> {1, 3}"
  ultimately have "set (map fe_signedMessage (fs_entries (sampleFeed n))) \<subseteq> {''a'', ''b'', ''c''}" by auto
  then have msgs: "\<forall>e\<in>set (fs_entries (sampleFeed n)). fe_signedMessage e \<in> {''a'', ''b'', ''c''}" by (simp add: image_subset_iff)
  have "list_all (\<lambda>e. \<exists>j. pd_encodeMessage sampleStrict (fe_signedMessage e) = Some j \<and> int (length (jcs j)) \<le> 50) (fs_entries (sampleFeed n))"
    unfolding list_all_iff
  proof
    fix e assume "e \<in> set (fs_entries (sampleFeed n))"
    then have "fe_signedMessage e \<in> {''a'', ''b'', ''c''}" using msgs by blast
    then show "\<exists>j. pd_encodeMessage sampleStrict (fe_signedMessage e) = Some j \<and> int (length (jcs j)) \<le> 50"
      by (auto simp: sampleStrict_def sampleDeps_def)
  qed
  then show "soundLimits sampleStrict 10 50 ''bob'' (fs_entries (sampleFeed n))"
    using calculateRouterRepresentationLimits_jcs [of 50 10]
    by (auto simp: soundLimits_def sampleStrict_def sampleDeps_def rfc8785_def maximumRouterInstanceId_def)
qed

theorem polls_make_progress_witness:
  "\<exists>order last. pd_decrypt sampleStrict ''1'' ''bob'' = Some order \<and> pd_encrypt sampleStrict ''bob'' last = Some ''c'' \<and>
    order \<le> last \<and> last \<le> fs_tailOrder (sampleFeed 3) \<and> (order < fs_tailOrder (sampleFeed 3) \<longrightarrow> order < last)"
proof -
  have inv: "feedInv (sampleFeed n)" for n
    by (simp add: sampleFeed_def feedInv_feedRun feedInv_initial maximumPrivateOrder_def)
  have "fs_tailOrder (sampleFeed 1) \<le> fs_tailOrder (sampleFeed 3)" by code_simp
  from polls_make_progress [OF inv inv this sample_sound sample_sound, of HoldSignalled "Some ''1''"] sample_handlePoll
  show ?thesis by simp
qed

end
