(* ===== verification/Router_System.thy ===== *)
theory Router_System
  imports Router_Poll
begin

text \<open>
  The Router's requests running beside each other: \<^verbatim>\<open>send.ts\<close> accepts into the feed and then
  notifies, \<^verbatim>\<open>poll-waiters.ts\<close> registers a waiter, looks at the feed again and then waits, and
  the fibers interleave between any two of these atomic \<^verbatim>\<open>Ref\<close> and \<^verbatim>\<open>Deferred\<close> operations.
  The step relation has one rule per atomic operation; a rule's state change is the
  operation of the component theories.
\<close>

section \<open>States and steps\<close>

datatype poll_phase = Registered | Awaiting | Finished

record held_poll =
  hp_agent :: agent_id
  hp_order :: int
  hp_phase :: poll_phase

record 'm system =
  sy_feed :: "'m feed_state"
  sy_waiters :: waiters
  sy_polls :: "deferred \<rightharpoonup> held_poll"
  sy_pending :: "agent_id list list"
  sy_completing :: "deferred set"
  sy_resolved :: "deferred set"
  sy_next :: deferred

definition finishPoll :: "deferred \<Rightarrow> held_poll \<Rightarrow> 'm system \<Rightarrow> 'm system" where
  "finishPoll d p s =
     s\<lparr>sy_polls := (sy_polls s)(d \<mapsto> p\<lparr>hp_phase := Finished\<rparr>),
       sy_waiters := removeWaiter (sy_waiters s) (hp_agent p) d\<rparr>"

text \<open>
  \<open>accept\<close> is \<^verbatim>\<open>feed.accept\<close> of a send, which still has to notify when recipients are returned;
  \<open>notify\<close> is \<^verbatim>\<open>detachWaiters\<close>, \<open>complete\<close> one \<^verbatim>\<open>Deferred.succeed\<close>; \<open>hold\<close> and \<open>refuse\<close> are
  the two outcomes of \<^verbatim>\<open>registerWaiter\<close>; \<open>ready\<close> and \<open>wait\<close> the two outcomes of the second look
  at the feed; \<open>wake\<close> is the completion of \<^verbatim>\<open>Deferred.await\<close>; \<open>elapse\<close> is the hold duration
  or an interruption, which run the same finalizer.
\<close>

inductive step :: "router_feed_input \<Rightarrow> int \<Rightarrow> 'm system \<Rightarrow> 'm system \<Rightarrow> bool" for input capacity where
  accept: "modifyFeed (sy_feed s) c input = (answer, feed') \<Longrightarrow>
     step input capacity s (s\<lparr>sy_feed := feed',
       sy_pending := sy_pending s @ (case answer of FeedResult _ (Some recipients) \<Rightarrow> [recipients] | _ \<Rightarrow> [])\<rparr>)"
| notify: "recipients \<in> set (sy_pending s) \<Longrightarrow> detachWaiters (sy_waiters s) recipients = (found, waiters') \<Longrightarrow>
     step input capacity s (s\<lparr>sy_pending := remove1 recipients (sy_pending s), sy_waiters := waiters',
       sy_completing := sy_completing s \<union> set found\<rparr>)"
| complete: "d \<in> sy_completing s \<Longrightarrow>
     step input capacity s (s\<lparr>sy_completing := sy_completing s - {d}, sy_resolved := insert d (sy_resolved s)\<rparr>)"
| hold: "registerWaiter (sy_waiters s) capacity a (sy_next s) = (True, waiters') \<Longrightarrow>
     step input capacity s (s\<lparr>sy_waiters := waiters', sy_next := sy_next s + 1,
       sy_polls := (sy_polls s)(sy_next s \<mapsto> \<lparr>hp_agent = a, hp_order = n, hp_phase = Registered\<rparr>)\<rparr>)"
| refuse: "registerWaiter (sy_waiters s) capacity a (sy_next s) = (False, waiters') \<Longrightarrow>
     step input capacity s (s\<lparr>sy_waiters := waiters', sy_next := sy_next s + 1\<rparr>)"
| ready: "sy_polls s d = Some p \<Longrightarrow> hp_phase p = Registered \<Longrightarrow>
     addressedDataIsReady (sy_feed s) (hp_agent p) (hp_order p) \<Longrightarrow> step input capacity s (finishPoll d p s)"
| wait: "sy_polls s d = Some p \<Longrightarrow> hp_phase p = Registered \<Longrightarrow>
     \<not> addressedDataIsReady (sy_feed s) (hp_agent p) (hp_order p) \<Longrightarrow>
     step input capacity s (s\<lparr>sy_polls := (sy_polls s)(d \<mapsto> p\<lparr>hp_phase := Awaiting\<rparr>)\<rparr>)"
| wake: "sy_polls s d = Some p \<Longrightarrow> hp_phase p = Awaiting \<Longrightarrow> d \<in> sy_resolved s \<Longrightarrow>
     step input capacity s (finishPoll d p s)"
| elapse: "sy_polls s d = Some p \<Longrightarrow> hp_phase p \<noteq> Finished \<Longrightarrow> step input capacity s (finishPoll d p s)"

inductive_cases stepE: "step input capacity s s'"

definition initialSystem :: "'m system" where
  "initialSystem =
     \<lparr>sy_feed = makeRouterFeed, sy_waiters = [], sy_polls = Map.empty, sy_pending = [],
      sy_completing = {}, sy_resolved = {}, sy_next = 0\<rparr>"

inductive reachable :: "router_feed_input \<Rightarrow> int \<Rightarrow> 'm system \<Rightarrow> bool" for input capacity where
  start: "reachable input capacity initialSystem"
| continue: "reachable input capacity s \<Longrightarrow> step input capacity s s' \<Longrightarrow> reachable input capacity s'"

section \<open>Invariants\<close>

definition addressedAfter :: "'m feed_state \<Rightarrow> agent_id \<Rightarrow> int \<Rightarrow> bool" where
  "addressedAfter feed a n \<longleftrightarrow> (\<exists>e\<in>set (fs_entries feed). n < fe_order e \<and> a \<in> set (fe_recipients e))"

definition signalled :: "'m system \<Rightarrow> deferred \<Rightarrow> bool" where
  "signalled s d \<longleftrightarrow> d \<in> sy_completing s \<or> d \<in> sy_resolved s"

definition tableInv :: "int \<Rightarrow> 'm system \<Rightarrow> bool" where
  "tableInv capacity s \<longleftrightarrow>
     jmWf (sy_waiters s) \<and> int (length (sy_waiters s)) \<le> max 0 capacity \<and>
     (\<forall>a d. jmGet (sy_waiters s) a = Some d \<longrightarrow>
        (\<exists>p. sy_polls s d = Some p \<and> hp_agent p = a \<and> hp_phase p \<noteq> Finished)) \<and>
     (\<forall>d p. sy_polls s d = Some p \<longrightarrow> hp_phase p \<noteq> Finished \<longrightarrow>
        jmGet (sy_waiters s) (hp_agent p) = Some d \<or> signalled s d) \<and>
     (\<forall>d. signalled s d \<or> sy_polls s d \<noteq> None \<longrightarrow> d < sy_next s)"

definition wakeInv :: "'m system \<Rightarrow> bool" where
  "wakeInv s \<longleftrightarrow>
     (\<forall>d p. sy_polls s d = Some p \<longrightarrow> hp_phase p = Awaiting \<longrightarrow>
        addressedAfter (sy_feed s) (hp_agent p) (hp_order p) \<longrightarrow>
        signalled s d \<or> (\<exists>recipients\<in>set (sy_pending s). hp_agent p \<in> set recipients))"

lemma removeWaiter_spec:
  assumes "jmWf w"
  shows "jmWf (removeWaiter w a d)" "length (removeWaiter w a d) \<le> length w"
    "jmGet (removeWaiter w a d) b = (if b = a \<and> jmGet w a = Some d then None else jmGet w b)"
  using assms by (auto simp: removeWaiter_def jmWf_jmDelete jmGet_jmDelete length_jmDelete)

lemma tableInvI:
  assumes "jmWf (sy_waiters s)" "int (length (sy_waiters s)) \<le> max 0 capacity"
    and "\<And>a d. jmGet (sy_waiters s) a = Some d \<Longrightarrow> \<exists>p. sy_polls s d = Some p \<and> hp_agent p = a \<and> hp_phase p \<noteq> Finished"
    and "\<And>d p. sy_polls s d = Some p \<Longrightarrow> hp_phase p \<noteq> Finished \<Longrightarrow>
      jmGet (sy_waiters s) (hp_agent p) = Some d \<or> signalled s d"
    and "\<And>d. signalled s d \<or> sy_polls s d \<noteq> None \<Longrightarrow> d < sy_next s"
  shows "tableInv capacity s"
  using assms by (simp add: tableInv_def)

lemma tableInvD:
  assumes "tableInv capacity s"
  shows "jmWf (sy_waiters s)" "int (length (sy_waiters s)) \<le> max 0 capacity"
    and "jmGet (sy_waiters s) a = Some d \<Longrightarrow> \<exists>p. sy_polls s d = Some p \<and> hp_agent p = a \<and> hp_phase p \<noteq> Finished"
    and "sy_polls s d = Some p \<Longrightarrow> hp_phase p \<noteq> Finished \<Longrightarrow>
      jmGet (sy_waiters s) (hp_agent p) = Some d \<or> signalled s d"
    and "signalled s d \<or> sy_polls s d \<noteq> None \<Longrightarrow> d < sy_next s"
  using assms by (auto simp: tableInv_def)

lemma tableInv_finishPoll:
  assumes inv: "tableInv capacity s" and p: "sy_polls s d = Some p"
  shows "tableInv capacity (finishPoll d p s)"
proof (rule tableInvI)
  note rem = removeWaiter_spec [OF tableInvD(1) [OF inv]]
  show "jmWf (sy_waiters (finishPoll d p s))" by (simp add: finishPoll_def rem)
  show "int (length (sy_waiters (finishPoll d p s))) \<le> max 0 capacity"
    using rem(2) [of "hp_agent p" d] tableInvD(2) [OF inv] by (simp add: finishPoll_def)
next
  fix a d' assume "jmGet (sy_waiters (finishPoll d p s)) a = Some d'"
  then have old: "jmGet (sy_waiters s) a = Some d'" "\<not> (a = hp_agent p \<and> jmGet (sy_waiters s) (hp_agent p) = Some d)"
    by (auto simp: finishPoll_def removeWaiter_spec [OF tableInvD(1) [OF inv]] split: if_splits)
  from tableInvD(3) [OF inv old(1)] old p have "d' \<noteq> d" by auto
  with tableInvD(3) [OF inv old(1)]
  show "\<exists>q. sy_polls (finishPoll d p s) d' = Some q \<and> hp_agent q = a \<and> hp_phase q \<noteq> Finished"
    by (simp add: finishPoll_def)
next
  fix d' q assume q: "sy_polls (finishPoll d p s) d' = Some q" "hp_phase q \<noteq> Finished"
  then have "d' \<noteq> d" "sy_polls s d' = Some q" by (auto simp: finishPoll_def split: if_splits)
  with tableInvD(4) [OF inv this(2) q(2)]
  show "jmGet (sy_waiters (finishPoll d p s)) (hp_agent q) = Some d' \<or> signalled (finishPoll d p s) d'"
    by (auto simp: finishPoll_def removeWaiter_spec [OF tableInvD(1) [OF inv]] signalled_def)
next
  fix d' assume "signalled (finishPoll d p s) d' \<or> sy_polls (finishPoll d p s) d' \<noteq> None"
  then have "signalled s d' \<or> sy_polls s d' \<noteq> None"
    using p by (auto simp: finishPoll_def signalled_def split: if_splits)
  then show "d' < sy_next (finishPoll d p s)" using tableInvD(5) [OF inv] by (simp add: finishPoll_def)
qed

lemma tableInv_hold:
  assumes inv: "tableInv capacity s"
    and w: "jmGet (sy_waiters s) a = None" "int (length (sy_waiters s)) < capacity"
  shows "tableInv capacity (s\<lparr>sy_waiters := jmSet a (sy_next s) (sy_waiters s), sy_next := sy_next s + 1,
    sy_polls := (sy_polls s)(sy_next s \<mapsto> \<lparr>hp_agent = a, hp_order = n, hp_phase = Registered\<rparr>)\<rparr>)"
    (is "tableInv capacity ?s")
proof (rule tableInvI)
  show "jmWf (sy_waiters ?s)" by (simp add: jmWf_jmSet tableInvD(1) [OF inv])
  show "int (length (sy_waiters ?s)) \<le> max 0 capacity" using w by (simp add: length_jmSet)
next
  fix b d assume "jmGet (sy_waiters ?s) b = Some d"
  then consider "b = a" "d = sy_next s" | "b \<noteq> a" "jmGet (sy_waiters s) b = Some d"
    by (auto simp: jmGet_jmSet split: if_splits)
  then show "\<exists>p. sy_polls ?s d = Some p \<and> hp_agent p = b \<and> hp_phase p \<noteq> Finished"
  proof cases
    case 2
    from tableInvD(3) [OF inv 2(2)] tableInvD(5) [OF inv, of d] show ?thesis by auto
  qed simp
next
  fix d p assume p: "sy_polls ?s d = Some p" "hp_phase p \<noteq> Finished"
  show "jmGet (sy_waiters ?s) (hp_agent p) = Some d \<or> signalled ?s d"
  proof (cases "d = sy_next s")
    case True
    with p show ?thesis by (auto simp: jmGet_jmSet)
  next
    case False
    with p have "sy_polls s d = Some p" by simp
    from tableInvD(4) [OF inv this p(2)] w show ?thesis by (auto simp: jmGet_jmSet signalled_def)
  qed
next
  fix d assume "signalled ?s d \<or> sy_polls ?s d \<noteq> None"
  then have "d = sy_next s \<or> signalled s d \<or> sy_polls s d \<noteq> None" by (auto simp: signalled_def split: if_splits)
  then show "d < sy_next ?s" using tableInvD(5) [OF inv, of d] by auto
qed

lemma tableInv_step: "step input capacity s s' \<Longrightarrow> tableInv capacity s \<Longrightarrow> tableInv capacity s'"
proof (induction rule: step.induct)
  case (accept s c answer feed')
  then show ?case by (simp add: tableInv_def signalled_def)
next
  case (notify recipients s found waiters')
  have wf: "jmWf (sy_waiters s)" using notify.prems by (simp add: tableInv_def)
  note spec = detachWaiters_spec [OF wf notify.hyps(2)]
  have "int (length waiters') \<le> max 0 capacity" using spec(4) notify.prems by (auto simp: tableInv_def)
  moreover have "d \<in> set found \<Longrightarrow> sy_polls s d \<noteq> None" for d
    using spec(1) notify.prems by (fastforce simp: tableInv_def)
  ultimately show ?case
    using notify.prems spec by (fastforce simp: tableInv_def signalled_def)
next
  case (complete d s)
  then show ?case by (auto simp: tableInv_def signalled_def)
next
  case (hold s a waiters' n)
  then have w: "jmGet (sy_waiters s) a = None" "int (length (sy_waiters s)) < capacity"
    "waiters' = jmSet a (sy_next s) (sy_waiters s)"
    by (auto simp: registerWaiter_def split: if_splits)
  then show ?case using tableInv_hold [OF hold.prems, of a n] by simp
next
  case (refuse s a waiters')
  then have "waiters' = sy_waiters s" by (auto simp: registerWaiter_def split: if_splits)
  then show ?case using refuse.prems by (auto simp: tableInv_def signalled_def less_SucI)
next
  case (ready s d p)
  then show ?case by (simp add: tableInv_finishPoll)
next
  case (wait s d p)
  then show ?case by (fastforce simp: tableInv_def signalled_def)
next
  case (wake s d p)
  then show ?case by (simp add: tableInv_finishPoll)
next
  case (elapse s d p)
  then show ?case by (simp add: tableInv_finishPoll)
qed

lemma feedInv_step: "step input capacity s s' \<Longrightarrow> feedInv (sy_feed s) \<Longrightarrow> feedInv (sy_feed s')"
proof (induction rule: step.induct)
  case (accept s c answer feed')
  then show ?case using feedInv_modifyFeed [of "sy_feed s" c input] by simp
qed (simp_all add: finishPoll_def)

lemma not_ready: "\<not> addressedDataIsReady feed a n \<Longrightarrow> \<not> addressedAfter feed a n"
  by (auto simp: addressedDataIsReady_def addressedAfter_def entriesAfter_def feedSnapshot_def Let_def list_ex_iff)

lemma accept_addresses:
  assumes "feedInv feed" "modifyFeed feed c input = (answer, feed')" "addressedAfter feed' a n"
  shows "addressedAfter feed a n \<or> (\<exists>r recipients. answer = FeedResult r (Some recipients) \<and> a \<in> set recipients)"
  using assms(1)
proof (cases rule: modifyFeed_cases [of feed c input])
  case unchanged
  with assms show ?thesis by simp
next
  case (appended k)
  with assms show ?thesis by (auto simp: addressedAfter_def entryOf_def dest!: in_set_dropD)
qed

lemma wakeInv_finishPoll: "wakeInv s \<Longrightarrow> wakeInv (finishPoll d p s)"
  by (auto simp: wakeInv_def finishPoll_def signalled_def)

lemma wakeInv_step:
  "step input capacity s s' \<Longrightarrow> feedInv (sy_feed s) \<Longrightarrow> tableInv capacity s \<Longrightarrow> wakeInv s \<Longrightarrow> wakeInv s'"
proof (induction rule: step.induct)
  case (accept s c answer feed')
  then show ?case
    using accept_addresses [OF accept.prems(1) accept.hyps]
    by (fastforce simp: wakeInv_def signalled_def split: feed_accept_result.splits option.splits)
next
  case (notify recipients s found waiters')
  have wf: "jmWf (sy_waiters s)" using notify.prems by (simp add: tableInv_def)
  have found: "set found = {d. \<exists>a\<in>set recipients. jmGet (sy_waiters s) a = Some d}"
    by (rule detachWaiters_spec [OF wf notify.hyps(2)])
  show ?case
    unfolding wakeInv_def
  proof (intro allI impI)
    fix d p
    assume p: "sy_polls (s\<lparr>sy_pending := remove1 recipients (sy_pending s), sy_waiters := waiters',
        sy_completing := sy_completing s \<union> set found\<rparr>) d = Some p" "hp_phase p = Awaiting"
      and addr: "addressedAfter (sy_feed (s\<lparr>sy_pending := remove1 recipients (sy_pending s), sy_waiters := waiters',
        sy_completing := sy_completing s \<union> set found\<rparr>)) (hp_agent p) (hp_order p)"
    then have "signalled s d \<or> (\<exists>r\<in>set (sy_pending s). hp_agent p \<in> set r)"
      using notify.prems by (auto simp: wakeInv_def)
    moreover have "signalled s d \<or> jmGet (sy_waiters s) (hp_agent p) = Some d"
      using p notify.prems by (fastforce simp: tableInv_def)
    ultimately show "signalled (s\<lparr>sy_pending := remove1 recipients (sy_pending s), sy_waiters := waiters',
        sy_completing := sy_completing s \<union> set found\<rparr>) d \<or>
      (\<exists>r\<in>set (sy_pending (s\<lparr>sy_pending := remove1 recipients (sy_pending s), sy_waiters := waiters',
        sy_completing := sy_completing s \<union> set found\<rparr>)). hp_agent p \<in> set r)"
      using found by (cases "hp_agent p \<in> set recipients") (auto simp: signalled_def, metis in_set_remove1)
  qed
next
  case (complete d s)
  then show ?case by (auto simp: wakeInv_def signalled_def)
next
  case (hold s a waiters' n)
  then show ?case by (auto simp: wakeInv_def signalled_def)
next
  case (refuse s a waiters')
  then show ?case by (auto simp: wakeInv_def signalled_def)
next
  case (wait s d p)
  then show ?case using not_ready by (fastforce simp: wakeInv_def signalled_def)
qed (simp_all add: wakeInv_finishPoll)

lemma reachable_inv:
  "reachable input capacity s \<Longrightarrow> feedInv (sy_feed s) \<and> tableInv capacity s \<and> wakeInv s"
proof (induction rule: reachable.induct)
  case start
  show ?case
    by (auto simp: initialSystem_def makeRouterFeed_def feedInv_initial maximumPrivateOrder_def tableInv_def
        wakeInv_def signalled_def jmWf_def jmGet_def)
next
  case (continue s s')
  then show ?case using feedInv_step tableInv_step wakeInv_step by blast
qed

section \<open>Properties\<close>

text \<open>
  C9: No wake-up is lost. In every reachable interleaving, a poll that is waiting while the
  feed holds a message addressed to its caller after its order has been signalled already,
  or is still registered under its caller and some send that accepted such a message has its
  notification for that caller still to perform.
\<close>

theorem no_lost_wakeup:
  assumes "reachable input capacity s" and "sy_polls s d = Some p" and "hp_phase p = Awaiting"
    and "addressedAfter (sy_feed s) (hp_agent p) (hp_order p)"
  shows "signalled s d \<or>
    jmGet (sy_waiters s) (hp_agent p) = Some d \<and> (\<exists>recipients\<in>set (sy_pending s). hp_agent p \<in> set recipients)"
proof -
  have inv: "tableInv capacity s" "wakeInv s" using reachable_inv [OF assms(1)] by auto
  have "jmGet (sy_waiters s) (hp_agent p) = Some d \<or> signalled s d"
    using tableInvD(4) [OF inv(1) assms(2)] assms(3) by simp
  then show ?thesis using inv(2) assms(2-4) by (auto simp: wakeInv_def)
qed

text \<open>
  Waiting is bounded. In every reachable interleaving at most \<open>capacity\<close> waiters are
  registered, at most one of them for any agent, and every registered waiter belongs
  to a poll that has not ended: no ended poll leaves its slot behind.
\<close>

theorem waiters_bounded:
  assumes "reachable input capacity s" and "0 \<le> capacity"
  shows "int (activeCount (sy_waiters s)) \<le> capacity \<and> distinct (map fst (sy_waiters s)) \<and>
    (\<forall>a d. jmGet (sy_waiters s) a = Some d \<longrightarrow>
      (\<exists>p. sy_polls s d = Some p \<and> hp_agent p = a \<and> hp_phase p \<noteq> Finished))"
proof -
  have inv: "tableInv capacity s" using reachable_inv [OF assms(1)] by auto
  show ?thesis
    using tableInvD(1,2) [OF inv] tableInvD(3) [OF inv] assms(2) by (auto simp: activeCount_def jmWf_def)
qed

text \<open>
  A waiting poll with a message to deliver can always be woken without any new request:
  the notifications, completions and wake-ups already under way lead to its end.
\<close>

theorem wakeup_reachable:
  assumes "reachable input capacity s" and "sy_polls s d = Some p" and "hp_phase p = Awaiting"
    and "addressedAfter (sy_feed s) (hp_agent p) (hp_order p)"
  shows "\<exists>s'. (step input capacity)\<^sup>*\<^sup>* s s' \<and> sy_feed s' = sy_feed s \<and>
    sy_polls s' = (sy_polls s)(d \<mapsto> p\<lparr>hp_phase := Finished\<rparr>)"
proof -
  have inv: "tableInv capacity s" "wakeInv s" using reachable_inv [OF assms(1)] by auto
  have woken: "\<exists>t. (step input capacity)\<^sup>*\<^sup>* s t \<and> sy_feed t = sy_feed s \<and> sy_polls t = sy_polls s \<and> signalled t d"
  proof (cases "signalled s d")
    case False
    then obtain recipients where r: "recipients \<in> set (sy_pending s)" "hp_agent p \<in> set recipients"
      "jmGet (sy_waiters s) (hp_agent p) = Some d"
      using inv(2) tableInvD(4) [OF inv(1) assms(2)] assms(2-4) by (auto simp: wakeInv_def)
    obtain found waiters' where det: "detachWaiters (sy_waiters s) recipients = (found, waiters')"
      by (cases "detachWaiters (sy_waiters s) recipients")
    have "d \<in> set found" using detachWaiters_spec(1) [OF tableInvD(1) [OF inv(1)] det] r by auto
    then show ?thesis
      using step.notify [OF r(1) det, of input capacity]
      by (intro exI [of _ "s\<lparr>sy_pending := remove1 recipients (sy_pending s), sy_waiters := waiters',
          sy_completing := sy_completing s \<union> set found\<rparr>"]) (auto simp: signalled_def)
  qed auto
  then obtain t where t: "(step input capacity)\<^sup>*\<^sup>* s t" "sy_feed t = sy_feed s" "sy_polls t = sy_polls s" "signalled t d"
    by blast
  have "\<exists>u. (step input capacity)\<^sup>*\<^sup>* s u \<and> sy_feed u = sy_feed s \<and> sy_polls u = sy_polls s \<and> d \<in> sy_resolved u"
  proof (cases "d \<in> sy_resolved t")
    case False
    then have "d \<in> sy_completing t" using t(4) by (simp add: signalled_def)
    from step.complete [OF this, of input capacity] t show ?thesis
      by (intro exI [of _ "t\<lparr>sy_completing := sy_completing t - {d}, sy_resolved := insert d (sy_resolved t)\<rparr>"])
        (auto intro: rtranclp.rtrancl_into_rtrancl)
  qed (use t in blast)
  then obtain u where u: "(step input capacity)\<^sup>*\<^sup>* s u" "sy_feed u = sy_feed s" "sy_polls u = sy_polls s" "d \<in> sy_resolved u"
    by blast
  have "step input capacity u (finishPoll d p u)" using u assms(2,3) by (intro step.wake) auto
  then show ?thesis
    using u by (intro exI [of _ "finishPoll d p u"]) (auto simp: finishPoll_def intro: rtranclp.rtrancl_into_rtrancl)
qed

section \<open>A worked interleaving\<close>

text \<open>A poll of \<open>bob\<close> is held at order 0 and waits; then a message to \<open>bob\<close> is accepted.\<close>

definition heldSystem :: "string system" where
  "heldSystem = initialSystem\<lparr>sy_waiters := [(''bob'', 0)], sy_next := 1,
     sy_polls := [0 \<mapsto> \<lparr>hp_agent = ''bob'', hp_order = 0, hp_phase = Registered\<rparr>]\<rparr>"

definition waitingSystem :: "string system" where
  "waitingSystem = heldSystem\<lparr>sy_polls := (sy_polls heldSystem)(0 \<mapsto> \<lparr>hp_agent = ''bob'', hp_order = 0, hp_phase = Awaiting\<rparr>)\<rparr>"

definition acceptedSystem :: "string system" where
  "acceptedSystem = waitingSystem\<lparr>
     sy_feed := snd (modifyFeed makeRouterFeed (sampleCandidate ''m1'' ''a'') sampleInput), sy_pending := [[''bob'']]\<rparr>"

lemma reachable_held: "reachable sampleInput 4 heldSystem"
proof -
  have "registerWaiter (sy_waiters (initialSystem :: string system)) 4 ''bob'' (sy_next (initialSystem :: string system)) = (True, [(''bob'', 0)])"
    by (simp add: registerWaiter_def initialSystem_def jmGet_def)
  from step.hold [OF this, of sampleInput 0] reachable.start [of sampleInput 4]
  show ?thesis by (auto simp: heldSystem_def initialSystem_def dest: reachable.continue)
qed

lemma reachable_accepted: "reachable sampleInput 4 acceptedSystem"
proof -
  have "step sampleInput 4 heldSystem waitingSystem"
    using step.wait [of heldSystem 0 "\<lparr>hp_agent = ''bob'', hp_order = 0, hp_phase = Registered\<rparr>" sampleInput 4]
    by (simp add: heldSystem_def waitingSystem_def initialSystem_def makeRouterFeed_def makeInitialState_def
        addressedDataIsReady_def entriesAfter_def feedSnapshot_def)
  then have w: "reachable sampleInput 4 waitingSystem" using reachable_held by (rule reachable.continue [rotated])
  have feed: "sy_feed waitingSystem = makeRouterFeed" "sy_pending waitingSystem = []"
    by (simp_all add: waitingSystem_def heldSystem_def initialSystem_def)
  have "fst (modifyFeed makeRouterFeed (sampleCandidate ''m1'' ''a'') sampleInput) = FeedResult (Accepted ''rti_x'' ''smd_a'') (Some [''bob''])"
    by code_simp
  then have "modifyFeed (sy_feed waitingSystem) (sampleCandidate ''m1'' ''a'') sampleInput =
      (FeedResult (Accepted ''rti_x'' ''smd_a'') (Some [''bob'']),
       snd (modifyFeed makeRouterFeed (sampleCandidate ''m1'' ''a'') sampleInput))"
    by (simp add: feed prod_eq_iff)
  from step.accept [OF this, of 4] w show ?thesis
    by (auto simp: acceptedSystem_def feed intro: reachable.continue)
qed

lemma accepted_addresses: "addressedAfter (sy_feed acceptedSystem) ''bob'' 0"
proof -
  have "fs_entries (snd (modifyFeed makeRouterFeed (sampleCandidate ''m1'' ''a'') sampleInput)) =
      [entryOf (sampleCandidate ''m1'' ''a'') 1]" by code_simp
  then show ?thesis by (simp add: addressedAfter_def acceptedSystem_def entryOf_def sampleCandidate_def)
qed

lemma accepted_poll:
  "sy_polls acceptedSystem 0 = Some \<lparr>hp_agent = ''bob'', hp_order = 0, hp_phase = Awaiting\<rparr>"
  by (simp add: acceptedSystem_def waitingSystem_def)

theorem no_lost_wakeup_witness:
  "signalled acceptedSystem 0 \<or>
    jmGet (sy_waiters acceptedSystem) ''bob'' = Some 0 \<and> (\<exists>recipients\<in>set (sy_pending acceptedSystem). ''bob'' \<in> set recipients)"
  using no_lost_wakeup [OF reachable_accepted accepted_poll] accepted_addresses by simp

theorem waiters_bounded_witness:
  "int (activeCount (sy_waiters acceptedSystem)) \<le> 4 \<and> distinct (map fst (sy_waiters acceptedSystem))"
  using waiters_bounded [OF reachable_accepted] by simp

theorem wakeup_reachable_witness:
  "\<exists>s'. (step sampleInput 4)\<^sup>*\<^sup>* acceptedSystem s' \<and>
    sy_polls s' = (sy_polls acceptedSystem)(0 \<mapsto> \<lparr>hp_agent = ''bob'', hp_order = 0, hp_phase = Finished\<rparr>)"
  using wakeup_reachable [OF reachable_accepted accepted_poll] accepted_addresses by auto

end
