(* ===== verification/Router_Send.thy ===== *)
theory Router_Send
  imports Router_Poll
begin

text \<open>
  Accepting messages, \<^verbatim>\<open>packages/router/src/router/send.ts\<close>: the precedence of the answers to an
  authenticated send, and the acceptance into the feed with the notification of the waiting
  recipients. The state is the feed and the waiter table; the result also lists the
  deferreds completed. SHA-256 is a parameter.
\<close>

section \<open>Data\<close>

datatype send_failure = SendOverloaded | SendInternalServerError

record raw_send_request =
  rq_expectedRouterInstanceId :: router_instance_id
  rq_mode :: send_mode
  rq_signedMessage :: json

record verified_agent_request =
  vr_callerAgentId :: agent_id
  vr_agentCard :: agent_card

record 'k send_dependencies =
  sd_identity :: identity_environment
  sd_jose :: "'k jose_verifier"
  sd_sha256 :: "byte list \<Rightarrow> byte list option"
  sd_feed :: router_feed_input

record router_state =
  rs_feed :: "signed_message feed_state"
  rs_waiters :: waiters

type_synonym send_outcome = "(send_failure + router_send_result) \<times> router_state \<times> deferred list"

section \<open>Operations\<close>

definition encodeMessage :: "'k send_dependencies \<Rightarrow> signed_message \<Rightarrow> send_failure + string" where
  "encodeMessage input message =
     ofOption SendInternalServerError (ie_canonicalize (sd_identity input) (encodeView message))"

definition digestMessage :: "'k send_dependencies \<Rightarrow> string \<Rightarrow> send_failure + signed_message_digest" where
  "digestMessage input encodedMessageJcs =
     bindE (ofOption SendInternalServerError (sd_sha256 input (utf8Bytes encodedMessageJcs))) (\<lambda>digest.
     let value = ''smd_'' @ b64_encode (ie_base64url (sd_identity input)) digest in
     if isSignedMessageDigest (ie_base64url (sd_identity input)) value then Inr value else Inl SendInternalServerError)"

definition encodedLengthIsValid :: "'k send_dependencies \<Rightarrow> signed_message \<Rightarrow> string \<Rightarrow> bool" where
  "encodedLengthIsValid input message encodedMessageJcs \<longleftrightarrow>
     sm_encodedByteLength message = length (utf8Bytes encodedMessageJcs) \<and>
     (case MAXIMUM_ENCODED_BYTES (ie_base64url (sd_identity input)) (ie_canonicalize (sd_identity input)) of
        None \<Rightarrow> False | Some maximum \<Rightarrow> sm_encodedByteLength message \<le> maximum)"

definition candidateOf :: "send_mode \<Rightarrow> signed_message \<Rightarrow> string \<Rightarrow> signed_message_digest \<Rightarrow> signed_message feed_candidate" where
  "candidateOf mode message encodedMessageJcs signedMessageDigest =
     \<lparr>fc_mode = mode, fc_signedMessage = message, fc_encodedMessageJcs = encodedMessageJcs,
      fc_encodedByteLength = int (sm_encodedByteLength message),
      fc_recipients = jsSet (sm_recipientAgentIds message),
      fc_senderAgentId = sm_senderAgentId message, fc_messageId = sm_messageId message,
      fc_signedMessageDigest = signedMessageDigest\<rparr>"

definition retainMessage :: "'k send_dependencies \<Rightarrow> send_mode \<Rightarrow> signed_message \<Rightarrow> router_state \<Rightarrow> send_outcome" where
  "retainMessage input mode message st =
     (case encodeMessage input message of
        Inl e \<Rightarrow> (Inl e, st, [])
      | Inr encodedMessageJcs \<Rightarrow>
          if \<not> encodedLengthIsValid input message encodedMessageJcs then (Inr MessageInvalid, st, [])
          else case digestMessage input encodedMessageJcs of
            Inl e \<Rightarrow> (Inl e, st, [])
          | Inr signedMessageDigest \<Rightarrow>
              (case modifyFeed (rs_feed st) (candidateOf mode message encodedMessageJcs signedMessageDigest) (sd_feed input) of
                 (FeedOverloaded, feed) \<Rightarrow> (Inl SendOverloaded, st\<lparr>rs_feed := feed\<rparr>, [])
               | (FeedResult result None, feed) \<Rightarrow> (Inr result, st\<lparr>rs_feed := feed\<rparr>, [])
               | (FeedResult result (Some recipients), feed) \<Rightarrow>
                   (case detachWaiters (rs_waiters st) recipients of
                      (detached, waiters) \<Rightarrow> (Inr result, \<lparr>rs_feed = feed, rs_waiters = waiters\<rparr>, detached))))"

definition handleDecodedMessage ::
  "'k send_dependencies \<Rightarrow> raw_send_request \<Rightarrow> verified_agent_request \<Rightarrow> signed_message \<Rightarrow> router_state \<Rightarrow> send_outcome" where
  "handleDecodedMessage input request verified message st =
     (if sm_senderAgentId message \<noteq> vr_callerAgentId verified then (Inr MessageInvalid, st, [])
      else if \<not> verifySignedMessage (sd_jose input) message (vr_agentCard verified) then (Inr MessageInvalid, st, [])
      else retainMessage input (rq_mode request) message st)"

definition handleCurrentInstance ::
  "'k send_dependencies \<Rightarrow> raw_send_request \<Rightarrow> verified_agent_request \<Rightarrow> router_state \<Rightarrow> send_outcome" where
  "handleCurrentInstance input request verified st =
     (case decodeLive (sd_identity input) (rq_signedMessage request) of
        None \<Rightarrow> (Inr MessageInvalid, st, [])
      | Some message \<Rightarrow> handleDecodedMessage input request verified message st)"

definition handleSend ::
  "'k send_dependencies \<Rightarrow> raw_send_request \<Rightarrow> verified_agent_request \<Rightarrow> router_state \<Rightarrow> send_outcome" where
  "handleSend input request verified st =
     (if rq_expectedRouterInstanceId request \<noteq> rf_routerInstanceId (sd_feed input)
      then (Inr (RouterRestarted (rf_routerInstanceId (sd_feed input))), st, [])
      else handleCurrentInstance input request verified st)"

section \<open>Properties\<close>

text \<open>The length check can never refuse a message this package decoded.\<close>

lemma encodedLengthIsValid_decoded:
  assumes "decodeLive (sd_identity input) v = Some m" "encodeMessage input m = Inr jcs'"
  shows "encodedLengthIsValid input m jcs'"
proof -
  have "decodeRepresentation (sd_identity input) (sm_representation m) = Some m"
    by (rule decodeLive_facts [OF assms(1)])
  from decodeRepresentation_facts(2) [OF this] obtain encoded maximum where
    "encodeCanonicalJson (ie_canonicalize (sd_identity input)) (generalJwsJson (sm_representation m)) = Some encoded"
    "MAXIMUM_ENCODED_BYTES (ie_base64url (sd_identity input)) (ie_canonicalize (sd_identity input)) = Some maximum"
    "sm_encodedByteLength m = length encoded" "sm_encodedByteLength m \<le> maximum"
    by blast
  then show ?thesis
    using assms(2)
    by (auto simp: encodedLengthIsValid_def encodeMessage_def encodeView_def encodeCanonicalJson_def resultE_iffs
        split: if_splits)
qed

text \<open>The ways a send is answered.\<close>

lemma handleSend_cases:
  assumes "handleSend input request verified st = (res, st', detached)"
  obtains (restarted) "rq_expectedRouterInstanceId request \<noteq> rf_routerInstanceId (sd_feed input)"
      "res = Inr (RouterRestarted (rf_routerInstanceId (sd_feed input)))" "st' = st" "detached = []"
  | (undecoded) "rq_expectedRouterInstanceId request = rf_routerInstanceId (sd_feed input)"
      "decodeLive (sd_identity input) (rq_signedMessage request) = None"
      "res = Inr MessageInvalid" "st' = st" "detached = []"
  | (unauthentic) m where "rq_expectedRouterInstanceId request = rf_routerInstanceId (sd_feed input)"
      "decodeLive (sd_identity input) (rq_signedMessage request) = Some m"
      "sm_senderAgentId m \<noteq> vr_callerAgentId verified \<or> \<not> verifySignedMessage (sd_jose input) m (vr_agentCard verified)"
      "res = Inr MessageInvalid" "st' = st" "detached = []"
  | (failed) "res = Inl SendInternalServerError" "st' = st" "detached = []"
  | (decided) m text' digest answer where
      "rq_expectedRouterInstanceId request = rf_routerInstanceId (sd_feed input)"
      "decodeLive (sd_identity input) (rq_signedMessage request) = Some m"
      "sm_senderAgentId m = vr_callerAgentId verified"
      "verifySignedMessage (sd_jose input) m (vr_agentCard verified)"
      "encodeMessage input m = Inr text'" "digestMessage input text' = Inr digest"
      "modifyFeed (rs_feed st) (candidateOf (rq_mode request) m text' digest) (sd_feed input) = (answer, rs_feed st')"
      "case answer of FeedOverloaded \<Rightarrow> res = Inl SendOverloaded \<and> rs_waiters st' = rs_waiters st \<and> detached = []
       | FeedResult r None \<Rightarrow> res = Inr r \<and> rs_waiters st' = rs_waiters st \<and> detached = []
       | FeedResult r (Some recipients) \<Rightarrow>
           res = Inr r \<and> detachWaiters (rs_waiters st) recipients = (detached, rs_waiters st')"
proof (cases "rq_expectedRouterInstanceId request = rf_routerInstanceId (sd_feed input)")
  case False
  with assms restarted show ?thesis by (auto simp: handleSend_def)
next
  case current: True
  show ?thesis
  proof (cases "decodeLive (sd_identity input) (rq_signedMessage request)")
    case None
    with assms current undecoded show ?thesis by (auto simp: handleSend_def handleCurrentInstance_def)
  next
    case m: (Some m)
    then have decoded: "handleDecodedMessage input request verified m st = (res, st', detached)"
      using assms current by (simp add: handleSend_def handleCurrentInstance_def)
    show ?thesis
    proof (cases "sm_senderAgentId m = vr_callerAgentId verified \<and>
        verifySignedMessage (sd_jose input) m (vr_agentCard verified)")
      case False
      with decoded m current unauthentic [of m] show ?thesis
        by (auto simp: handleDecodedMessage_def split: if_splits)
    next
      case True
      then have retained: "retainMessage input (rq_mode request) m st = (res, st', detached)"
        using decoded by (simp add: handleDecodedMessage_def)
      show ?thesis
      proof (cases "encodeMessage input m")
        case (Inl e)
        with retained failed show ?thesis by (cases e) (auto simp: retainMessage_def encodeMessage_def ofOption_def split: option.splits)
      next
        case text': (Inr text')
        note valid = encodedLengthIsValid_decoded [OF m text']
        show ?thesis
        proof (cases "digestMessage input text'")
          case (Inl e)
          have "e = SendInternalServerError"
            using Inl by (auto simp: digestMessage_def ofOption_def bindE_def Let_def split: option.splits if_splits)
          with retained text' valid Inl failed show ?thesis by (simp add: retainMessage_def)
        next
          case (Inr digest)
          obtain answer feed' where
            feed': "modifyFeed (rs_feed st) (candidateOf (rq_mode request) m text' digest) (sd_feed input) = (answer, feed')"
            by (cases "modifyFeed (rs_feed st) (candidateOf (rq_mode request) m text' digest) (sd_feed input)")
          have final: "rs_feed st' = feed' \<and>
            (case answer of FeedOverloaded \<Rightarrow> res = Inl SendOverloaded \<and> rs_waiters st' = rs_waiters st \<and> detached = []
             | FeedResult r None \<Rightarrow> res = Inr r \<and> rs_waiters st' = rs_waiters st \<and> detached = []
             | FeedResult r (Some recipients) \<Rightarrow>
                 res = Inr r \<and> detachWaiters (rs_waiters st) recipients = (detached, rs_waiters st'))"
            using retained text' valid Inr feed'
            by (auto simp: retainMessage_def split: feed_accept_result.splits option.splits prod.splits)
          then show ?thesis using decided [OF current m _ _ text' Inr] feed' True by simp
        qed
      qed
    qed
  qed
qed

text \<open>
  C3: What the Router stores and acknowledges is authentic: whenever a send adds an entry to
  the feed, the entry's message was decoded from this request, its sender is the
  authenticated caller, its signature verified against the caller's card, its recipients
  are its distinct addressees, and its retained bytes are its canonical encoding.
\<close>

theorem send_stores_authentic:
  assumes "feedInv (rs_feed st)" and "handleSend input request verified st = (res, st', detached)"
    and "e \<in> set (fs_entries (rs_feed st'))" and "e \<notin> set (fs_entries (rs_feed st))"
  shows "decodeLive (sd_identity input) (rq_signedMessage request) = Some (fe_signedMessage e) \<and>
    fe_senderAgentId e = vr_callerAgentId verified \<and>
    verifySignedMessage (sd_jose input) (fe_signedMessage e) (vr_agentCard verified) \<and>
    fe_messageId e = sm_messageId (fe_signedMessage e) \<and>
    fe_recipients e = sm_recipientAgentIds (fe_signedMessage e) \<and> distinct (fe_recipients e) \<and>
    ie_canonicalize (sd_identity input) (encodeView (fe_signedMessage e)) = Some (fe_encodedMessageJcs e)"
  using assms(2)
proof (cases rule: handleSend_cases)
  case (decided m text' digest answer)
  let ?c = "candidateOf (rq_mode request) m text' digest"
  have e: "e = entryOf ?c (fs_tailOrder (rs_feed st) + 1)"
    using assms(1)
  proof (cases rule: modifyFeed_cases [of "rs_feed st" ?c "sd_feed input"])
    case unchanged
    with assms(3,4) decided(7) show ?thesis by simp
  next
    case (appended k)
    then have "e \<in> set (drop k (fs_entries (rs_feed st) @ [entryOf ?c (fs_tailOrder (rs_feed st) + 1)]))"
      using assms(3) decided(7) by simp
    with assms(4) show ?thesis by (auto dest!: in_set_dropD)
  qed
  have "isRecipientAgentIds (ie_base64url (sd_identity input)) (sm_recipientAgentIds m)"
    using decodeRepresentation_facts(3) [OF decodeLive_facts(1) [OF decided(2)]] by simp
  then have "distinct (sm_recipientAgentIds m)"
    by (auto simp: isRecipientAgentIds_def recipientsAreCanonical_def dest: agentOrder.ascending_distinct)
  then show ?thesis
    using decided by (simp add: e entryOf_def candidateOf_def jsSet_distinct encodeMessage_def resultE_iffs)
qed (use assms(3,4) in simp_all)

lemma modifyFeed_answers:
  "modifyFeed s c i = (FeedResult r x, s') \<Longrightarrow> r \<noteq> MessageInvalid \<and> r \<noteq> RouterRestarted q"
  by (auto simp: modifyFeed_def retryResult_def acceptedResult_def appendCandidate_def Let_def
      split: if_splits option.splits prod.splits)

lemma modifyFeed_refused:
  assumes "feedInv s" "modifyFeed s c i = (FeedResult r x, s')" "\<And>q d. r \<noteq> Accepted q d"
  shows "s' = s \<and> x = None"
  using assms(1) by (cases rule: modifyFeed_cases [of s c i]; cases x) (use assms(2,3) in auto)

text \<open>
  C13: Send precedence. A request for another Router process is answered \<^verbatim>\<open>router_restarted\<close>
  before its message is looked at; then \<^verbatim>\<open>message_invalid\<close> exactly when the message does not
  decode as a live message, is not from the caller, or does not verify; then the feed
  decides. Whenever the answer is not an acceptance, the feed is
  unchanged and no waiter is woken.
\<close>

theorem send_precedence:
  assumes "feedInv (rs_feed st)" and "handleSend input request verified st = (Inr res, st', detached)"
  shows "(res = RouterRestarted (rf_routerInstanceId (sd_feed input)) \<longleftrightarrow>
      rq_expectedRouterInstanceId request \<noteq> rf_routerInstanceId (sd_feed input)) \<and>
    (res = MessageInvalid \<longleftrightarrow>
      rq_expectedRouterInstanceId request = rf_routerInstanceId (sd_feed input) \<and>
      (case decodeLive (sd_identity input) (rq_signedMessage request) of
         None \<Rightarrow> True
       | Some m \<Rightarrow> sm_senderAgentId m \<noteq> vr_callerAgentId verified \<or>
                   \<not> verifySignedMessage (sd_jose input) m (vr_agentCard verified))) \<and>
    ((\<forall>r d. res \<noteq> Accepted r d) \<longrightarrow> rs_feed st' = rs_feed st \<and> rs_waiters st' = rs_waiters st \<and> detached = [])"
  using assms(2)
proof (cases rule: handleSend_cases)
  case (decided m text' digest answer)
  then obtain x where x: "answer = FeedResult res x"
    by (cases answer) (auto split: option.splits)
  note answers = modifyFeed_answers [OF decided(7) [unfolded x]]
  have "(\<forall>r d. res \<noteq> Accepted r d) \<longrightarrow> rs_feed st' = rs_feed st \<and> x = None"
    using modifyFeed_refused [OF assms(1) decided(7) [unfolded x]] by blast
  then show ?thesis using decided x answers by auto
qed auto

section \<open>A worked instance\<close>

text \<open>
  A concrete environment: a codec that writes each byte as one character, a parser and a
  canonicalizer that know two texts, a verifier that accepts every signature.
\<close>

definition sampleCodec :: base64url where
  "sampleCodec = \<lparr>b64_encode = (\<lambda>bs. map (\<lambda>b. char_of (unat b)) bs), b64_decode = (\<lambda>s. Some (utf8Bytes s))\<rparr>"

definition sampleAgent :: agent_id where
  "sampleAgent = ''agt_AAAAAAAAAAAAAAAAAAAAA@''"

definition samplePayloadJson :: json where
  "samplePayloadJson =
     signedMessagePayloadJson WIRE_VERSION sampleAgent (''acd_'' @ replicate 42 (CHR ''A'') @ ''@'')
       [sampleAgent] (''msg_'' @ replicate 21 (CHR ''A'') @ ''@'') ''''"

definition sampleEnvironment :: identity_environment where
  "sampleEnvironment =
     \<lparr>ie_base64url = sampleCodec,
      ie_parseJson = (\<lambda>t. if t = ''p'' then Some samplePayloadJson else Some (protectedHeaderJson ''kid'')),
      ie_canonicalize = (\<lambda>v. Some (if v = samplePayloadJson then ''p''
                                    else if v = protectedHeaderJson ''kid'' then ''h'' else ''x''))\<rparr>"

definition sampleSend :: "unit send_dependencies" where
  "sampleSend =
     \<lparr>sd_identity = sampleEnvironment,
      sd_jose = \<lparr>jv_thumbprintUri = (\<lambda>k. Some ''kid''), jv_importKey = (\<lambda>k. Some ()), jv_generalVerify = (\<lambda>r k. True)\<rparr>,
      sd_sha256 = (\<lambda>bs. Some (replicate 32 65)), sd_feed = sampleInput\<rparr>"

definition sampleRequest :: raw_send_request where
  "sampleRequest =
     \<lparr>rq_expectedRouterInstanceId = ''rti_x'', rq_mode = Initial,
      rq_signedMessage = generalJwsJson \<lparr>gj_payload = ''p'', gj_protected = ''h'', gj_signature = replicate 64 (CHR 0x00)\<rparr>\<rparr>"

definition sampleRep :: general_jws where
  "sampleRep = \<lparr>gj_payload = ''p'', gj_protected = ''h'', gj_signature = replicate 64 (CHR 0x00)\<rparr>"

definition sampleVerified :: verified_agent_request where
  "sampleVerified =
     \<lparr>vr_callerAgentId = sampleAgent,
      vr_agentCard = \<lparr>ac_agentId = sampleAgent, ac_publicKey = ''k'', ac_digest = ''acd_'' @ replicate 42 (CHR ''A'') @ ''@'',
        ac_principalId = [], ac_agentName = ''alice'', ac_issuedAt = [], ac_wireVersion = WIRE_VERSION,
        ac_representation = sampleRep, ac_protectedHeader = \<lparr>ph_alg = [], ph_kid = [], ph_typ = []\<rparr>\<rparr>\<rparr>"

definition sampleState :: router_state where
  "sampleState = \<lparr>rs_feed = makeInitialState 0, rs_waiters = [(sampleAgent, 7)]\<rparr>"

definition sampleMessage :: signed_message where
  "sampleMessage =
     \<lparr>sm_senderAgentId = sampleAgent, sm_agentCardDigest = ''acd_'' @ replicate 42 (CHR ''A'') @ ''@'',
      sm_recipientAgentIds = [sampleAgent], sm_messageId = ''msg_'' @ replicate 21 (CHR ''A'') @ ''@'', sm_body = [],
      sm_wireVersion = WIRE_VERSION, sm_representation = sampleRep,
      sm_protectedHeader = \<lparr>ph_alg = ''Ed25519'', ph_kid = ''kid'', ph_typ = SIGNED_MESSAGE_TYPE\<rparr>,
      sm_encodedByteLength = 1\<rparr>"

lemma sampleCodec_ascii: "asciiText (b64_encode sampleCodec (replicate n 0))"
  by (induction n) (auto simp: sampleCodec_def)

lemma sampleCodec_utf8Bytes: "b64_encode sampleCodec (utf8Bytes t) = t"
  by (induction t) (auto simp: sampleCodec_def utf8Bytes_def unat_of_nat)

lemma sample_canonical_length: "\<exists>t. ie_canonicalize sampleEnvironment v = Some t \<and> length t = 1 \<and> asciiText t"
  by (auto simp: sampleEnvironment_def)

lemma sample_maximum: "MAXIMUM_ENCODED_BYTES sampleCodec (ie_canonicalize sampleEnvironment) = Some 1"
proof -
  have a: "asciiText WIRE_VERSION" "asciiText SIGNED_MESSAGE_TYPE" "asciiText ''payload''" by (simp_all add: WIRE_VERSION_def SIGNED_MESSAGE_TYPE_def)
  note w = hasWellFormedUnicode_ascii
  have enc: "visitJsonValue v 0 \<Longrightarrow> \<exists>t. encodeCanonicalJson (ie_canonicalize sampleEnvironment) v = Some t \<and> length t = 1 \<and> asciiText (b64_encode sampleCodec t)" for v
    using sample_canonical_length [of v] by (auto simp: encodeCanonicalJson_def sampleCodec_utf8Bytes length_utf8Bytes)
  have p: "visitJsonValue (signedMessagePayloadJson WIRE_VERSION (''agt_'' @ b64_encode sampleCodec (replicate 16 0)) (''acd_'' @ b64_encode sampleCodec (replicate 32 0))
          (replicate MAXIMUM_RECIPIENTS (''agt_'' @ b64_encode sampleCodec (replicate 16 0))) (''msg_'' @ b64_encode sampleCodec (replicate 16 0)) (b64_encode sampleCodec (replicate MAXIMUM_BODY_BYTES 0))) 0"
    unfolding signedMessagePayloadJson_def
    by (auto simp: MAXIMUM_CONTAINER_DEPTH_def list_all_iff intro!: w simp: a sampleCodec_ascii)
  have h: "visitJsonValue (protectedHeaderJson (''urn:ietf:params:oauth:jwk-thumbprint:sha-256:'' @ b64_encode sampleCodec (replicate 32 0))) 0"
    unfolding protectedHeaderJson_def
    by (auto simp: MAXIMUM_CONTAINER_DEPTH_def list_all_iff intro!: w simp: a sampleCodec_ascii)
  obtain pb hb where pb: "encodeCanonicalJson (ie_canonicalize sampleEnvironment) (signedMessagePayloadJson WIRE_VERSION (''agt_'' @ b64_encode sampleCodec (replicate 16 0)) (''acd_'' @ b64_encode sampleCodec (replicate 32 0))
          (replicate MAXIMUM_RECIPIENTS (''agt_'' @ b64_encode sampleCodec (replicate 16 0))) (''msg_'' @ b64_encode sampleCodec (replicate 16 0)) (b64_encode sampleCodec (replicate MAXIMUM_BODY_BYTES 0))) = Some pb" "asciiText (b64_encode sampleCodec pb)"
    "encodeCanonicalJson (ie_canonicalize sampleEnvironment) (protectedHeaderJson (''urn:ietf:params:oauth:jwk-thumbprint:sha-256:'' @ b64_encode sampleCodec (replicate 32 0))) = Some hb" "asciiText (b64_encode sampleCodec hb)"
    using enc [OF p] enc [OF h] by blast
  have g: "visitJsonValue (generalJwsJson \<lparr>gj_payload = b64_encode sampleCodec pb, gj_protected = b64_encode sampleCodec hb,
           gj_signature = b64_encode sampleCodec (replicate 64 0)\<rparr>) 0"
    unfolding generalJwsJson_def
    by (auto simp: MAXIMUM_CONTAINER_DEPTH_def list_all_iff intro!: w simp: pb sampleCodec_ascii)
  from enc [OF g] pb show ?thesis by (auto simp: MAXIMUM_ENCODED_BYTES_def Let_def)
qed

lemma sample_identifiers:
  "isAgentId sampleCodec sampleAgent" "isMessageId sampleCodec (''msg_'' @ replicate 21 (CHR ''A'') @ ''@'')"
  "isAgentCardDigest sampleCodec (''acd_'' @ replicate 42 (CHR ''A'') @ ''@'')"
proof -
  have f: "CHR ''@'' \<in> set (finalCharacters sampleCodec 2)" "CHR ''@'' \<in> set (finalCharacters sampleCodec 4)"
    by code_simp+
  show "isAgentId sampleCodec sampleAgent" "isMessageId sampleCodec (''msg_'' @ replicate 21 (CHR ''A'') @ ''@'')"
    "isAgentCardDigest sampleCodec (''acd_'' @ replicate 42 (CHR ''A'') @ ''@'')"
    using f by (simp_all add: isAgentId_def isMessageId_def isAgentCardDigest_def canonicalIdentifier_def
        sampleAgent_def startsWith_def inCharRange_def list_all_iff Let_def)
qed

lemma samplePayload_decodes:
  "decodePayload sampleCodec samplePayloadJson =
     Some \<lparr>sp_sharnessVersion = WIRE_VERSION, sp_senderAgentId = sampleAgent,
       sp_agentCardDigest = ''acd_'' @ replicate 42 (CHR ''A'') @ ''@'', sp_recipientAgentIds = [sampleAgent],
       sp_messageId = ''msg_'' @ replicate 21 (CHR ''A'') @ ''@'', sp_body = ''''\<rparr>"
proof -
  have "closedObject [''kind'', ''sharnessVersion'', ''senderAgentId'', ''agentCardDigest'',
      ''recipientAgentIds'', ''messageId'', ''body''] samplePayloadJson =
    Some [JStr ''signedMessage'', JStr WIRE_VERSION, JStr sampleAgent, JStr (''acd_'' @ replicate 42 (CHR ''A'') @ ''@''),
      JArr [JStr sampleAgent], JStr (''msg_'' @ replicate 21 (CHR ''A'') @ ''@''), JStr '''']"
    by (simp add: samplePayloadJson_def signedMessagePayloadJson_def closedObject_def)
  then show ?thesis
    using sample_identifiers
    by (simp add: decodePayload_def asArray_def HISTORY_WIRE_VERSIONS_def LIVE_WIRE_VERSIONS_def
        isRecipientAgentIds_def MAXIMUM_RECIPIENTS_def recipientsAreCanonical_def isOpaqueBody_def
        decodeCanonicalBase64Url_def sampleCodec_def utf8Bytes_def)
qed

lemma sample_decodes: "decodeLive sampleEnvironment (rq_signedMessage sampleRequest) = Some sampleMessage"
proof -
  have jws: "decodeGeneralJws sampleCodec (rq_signedMessage sampleRequest) = Some sampleRep"
    "parseCanonicalJson (ie_parseJson sampleEnvironment) (ie_canonicalize sampleEnvironment) (utf8Bytes ''p'') = Some samplePayloadJson"
    "parseCanonicalJson (ie_parseJson sampleEnvironment) (ie_canonicalize sampleEnvironment) (utf8Bytes ''h'') = Some (protectedHeaderJson ''kid'')"
    "decodeProtectedHeader (protectedHeaderJson ''kid'') = Some (sm_protectedHeader sampleMessage)"
    "encodeCanonicalJson (ie_canonicalize sampleEnvironment) (generalJwsJson sampleRep) = Some [120]"
    by code_simp+
  have dec: "decodeCanonicalBase64Url sampleCodec ''p'' = Some (utf8Bytes ''p'')"
    "decodeCanonicalBase64Url sampleCodec ''h'' = Some (utf8Bytes ''h'')"
    "decodeCanonicalBase64Url sampleCodec '''' = Some []"
    by code_simp+
  have env: "ie_base64url sampleEnvironment = sampleCodec" by (simp add: sampleEnvironment_def)
  have rep: "gj_payload sampleRep = ''p''" "gj_protected sampleRep = ''h''" by (simp_all add: sampleRep_def)
  show ?thesis
    by (simp add: decodeLive_def decodeSignedMessage_def decodeRepresentation_def env jws dec rep sample_maximum
        samplePayload_decodes LIVE_WIRE_VERSIONS_def sampleMessage_def Let_def)
qed

lemma sample_send_accepts:
  "handleSend sampleSend sampleRequest sampleVerified sampleState =
     (Inr (Accepted ''rti_x'' (''smd_'' @ replicate 32 (CHR ''A''))),
      \<lparr>rs_feed = snd (modifyFeed (makeInitialState 0) (candidateOf Initial sampleMessage ''x'' (''smd_'' @ replicate 32 (CHR ''A''))) sampleInput),
       rs_waiters = []\<rparr>, [7])"
proof -
  have enc: "encodeMessage sampleSend sampleMessage = Inr ''x''" by code_simp
  have dig: "digestMessage sampleSend ''x'' = Inr (''smd_'' @ replicate 32 (CHR ''A''))" by code_simp
  have ver: "verifySignedMessage (sd_jose sampleSend) sampleMessage (vr_agentCard sampleVerified)" by code_simp
  have det: "detachWaiters (rs_waiters sampleState) [sampleAgent] = ([7], [])" by code_simp
  have len: "encodedLengthIsValid sampleSend sampleMessage ''x''"
    using encodedLengthIsValid_decoded [OF _ enc, of "rq_signedMessage sampleRequest"] sample_decodes by (simp add: sampleSend_def)
  have feed: "fst (modifyFeed (makeInitialState 0) (candidateOf Initial sampleMessage ''x'' (''smd_'' @ replicate 32 (CHR ''A''))) sampleInput) =
      FeedResult (Accepted ''rti_x'' (''smd_'' @ replicate 32 (CHR ''A''))) (Some [sampleAgent])"
    by code_simp
  have caller: "sm_senderAgentId sampleMessage = vr_callerAgentId sampleVerified"
    by (simp add: sampleMessage_def sampleVerified_def)
  have sel: "sd_identity sampleSend = sampleEnvironment" "sd_feed sampleSend = sampleInput"
    "rf_routerInstanceId sampleInput = ''rti_x''" "rq_expectedRouterInstanceId sampleRequest = ''rti_x''"
    "rq_mode sampleRequest = Initial" "rs_feed sampleState = makeInitialState 0"
    by (simp_all add: sampleSend_def sampleInput_def sampleRequest_def sampleState_def)
  obtain s where s: "modifyFeed (makeInitialState 0) (candidateOf Initial sampleMessage ''x'' (''smd_'' @ replicate 32 (CHR ''A''))) sampleInput =
      (FeedResult (Accepted ''rti_x'' (''smd_'' @ replicate 32 (CHR ''A''))) (Some [sampleAgent]), s)"
    using feed by (metis prod.collapse)
  then show ?thesis
    by (simp add: handleSend_def handleCurrentInstance_def handleDecodedMessage_def retainMessage_def
        sel sample_decodes enc dig ver det len caller)
qed

theorem send_stores_authentic_witness:
  "decodeLive (sd_identity sampleSend) (rq_signedMessage sampleRequest) = Some sampleMessage \<and>
   verifySignedMessage (sd_jose sampleSend) sampleMessage (vr_agentCard sampleVerified)"
proof -
  let ?c = "candidateOf Initial sampleMessage ''x'' (''smd_'' @ replicate 32 (CHR ''A''))"
  let ?e = "entryOf ?c 1"
  have "fs_entries (snd (modifyFeed (makeInitialState 0) ?c sampleInput)) = [?e]"
    by code_simp
  then have new: "?e \<in> set (fs_entries (rs_feed \<lparr>rs_feed = snd (modifyFeed (makeInitialState 0) ?c sampleInput), rs_waiters = []\<rparr>))"
    by simp
  have inv: "feedInv (rs_feed sampleState)"
    by (simp add: sampleState_def feedInv_initial maximumPrivateOrder_def)
  have old: "?e \<notin> set (fs_entries (rs_feed sampleState))"
    by (simp add: sampleState_def makeInitialState_def)
  from send_stores_authentic [OF inv sample_send_accepts new old]
  show ?thesis by (simp add: entryOf_def candidateOf_def)
qed

theorem send_precedence_witness:
  "case decodeLive (sd_identity sampleSend) (rq_signedMessage sampleRequest) of
     None \<Rightarrow> False | Some m \<Rightarrow> sm_senderAgentId m = vr_callerAgentId sampleVerified"
proof -
  have "feedInv (rs_feed sampleState)"
    by (simp add: sampleState_def feedInv_initial maximumPrivateOrder_def)
  moreover have "rq_expectedRouterInstanceId sampleRequest = rf_routerInstanceId (sd_feed sampleSend)"
    by (simp add: sampleSend_def sampleInput_def sampleRequest_def)
  ultimately show ?thesis
    using send_precedence [OF _ sample_send_accepts] by (auto split: option.splits)
qed
end
