(* ===== verification/Agent_Card.thy ===== *)
theory Agent_Card
  imports Signed_Message
begin

text \<open>
  Agent cards, \<^verbatim>\<open>packages/identity/src/agent-card.ts\<close>: the decoding of a registry-signed card from
  its single-signature JWS, its digest over the retained canonical bytes, and its verification
  against the pinned Registry signer. The card record holds the view and the state that the
  code keeps in a \<^verbatim>\<open>WeakMap\<close>; a public key is the coordinate \<^verbatim>\<open>x\<close> of its exact JWK.
\<close>

definition AGENT_CARD_TYPE :: string where
  "AGENT_CARD_TYPE = ''application/vnd.sharness.agent-card+jws''"

definition isLeapYear :: "nat \<Rightarrow> bool" where
  "isLeapYear y \<longleftrightarrow> y mod 4 = 0 \<and> (y mod 100 \<noteq> 0 \<or> y mod 400 = 0)"

definition daysInMonth :: "nat \<Rightarrow> nat \<Rightarrow> nat" where
  "daysInMonth y m =
     (if m = 2 then if isLeapYear y then 29 else 28
      else if m \<in> {4, 6, 9, 11} then 30 else 31)"

definition decimal :: "string \<Rightarrow> nat" where
  "decimal s = foldl (\<lambda>n c. 10 * n + (of_char c - 48)) 0 s"

definition digits :: "string \<Rightarrow> bool" where
  "digits s = list_all (\<lambda>c. (48::nat) \<le> of_char c \<and> of_char c \<le> (57::nat)) s"

text \<open>
  \<^verbatim>\<open>agentCardIssuedAtSchema\<close>: the pattern of a whole second in UTC, and the round trip through
  \<^verbatim>\<open>Date\<close>, which fails exactly when the day does not exist in its month.
\<close>

definition isIssuedAt :: "string \<Rightarrow> bool" where
  "isIssuedAt s \<longleftrightarrow>
     length s = 20 \<and>
     (let year = take 4 s; month = take 2 (drop 5 s); day = take 2 (drop 8 s);
          hour = take 2 (drop 11 s); minute = take 2 (drop 14 s); second = take 2 (drop 17 s)
      in s ! 4 = CHR ''-'' \<and> s ! 7 = CHR ''-'' \<and> s ! 10 = CHR ''T'' \<and> s ! 13 = CHR '':'' \<and> s ! 16 = CHR '':'' \<and>
         s ! 19 = CHR ''Z'' \<and> list_all digits [year, month, day, hour, minute, second] \<and>
         1 \<le> decimal month \<and> decimal month \<le> 12 \<and> 1 \<le> decimal day \<and> decimal day \<le> 31 \<and>
         decimal hour \<le> 23 \<and> decimal minute \<le> 59 \<and> decimal second \<le> 59 \<and>
         decimal day \<le> daysInMonth (decimal year) (decimal month))"

definition isPrincipalId :: "base64url \<Rightarrow> string \<Rightarrow> bool" where
  "isPrincipalId b64 = canonicalIdentifier b64 ''prn_'' 16"

definition decodePublicKey :: "base64url \<Rightarrow> json \<Rightarrow> string option" where
  "decodePublicKey b64 value =
     Option.bind (Option.bind (closedObject [''crv'', ''kty'', ''x''] value) asStrings) (\<lambda>ss.
       if ss ! 0 = ''Ed25519'' \<and> ss ! 1 = ''OKP'' \<and> decodeAcceptedPublicKey b64 (ss ! 2) \<noteq> None
       then Some (ss ! 2) else None)"

record agent_card_payload =
  ap_sharnessVersion :: string
  ap_agentId :: agent_id
  ap_principalId :: string
  ap_agentName :: string
  ap_publicKey :: string
  ap_issuedAt :: string

definition decodeCardPayload :: "base64url \<Rightarrow> json \<Rightarrow> agent_card_payload option" where
  "decodeCardPayload b64 value =
     Option.bind (closedObject [''kind'', ''sharnessVersion'', ''agentId'', ''principalId'', ''agentName'',
                                ''publicKey'', ''issuedAt''] value) (\<lambda>ms.
     Option.bind (asString (ms ! 0)) (\<lambda>kind.
     Option.bind (asString (ms ! 1)) (\<lambda>version.
     Option.bind (asString (ms ! 2)) (\<lambda>agentId.
     Option.bind (asString (ms ! 3)) (\<lambda>principalId.
     Option.bind (asString (ms ! 4)) (\<lambda>agentName.
     Option.bind (decodePublicKey b64 (ms ! 5)) (\<lambda>publicKey.
     Option.bind (asString (ms ! 6)) (\<lambda>issuedAt.
       if kind = ''agentCard'' \<and> version \<in> set HISTORY_WIRE_VERSIONS \<and> isAgentId b64 agentId \<and>
          isPrincipalId b64 principalId \<and> isAgentName agentName \<and> isIssuedAt issuedAt
       then Some \<lparr>ap_sharnessVersion = version, ap_agentId = agentId, ap_principalId = principalId,
                  ap_agentName = agentName, ap_publicKey = publicKey, ap_issuedAt = issuedAt\<rparr>
       else None))))))))"

definition decodeCardHeader :: "json \<Rightarrow> protected_header option" where
  "decodeCardHeader value =
     Option.bind (Option.bind (closedObject [''alg'', ''kid'', ''typ''] value) asStrings) (\<lambda>ss.
       if ss ! 0 = ''Ed25519'' \<and> ss ! 2 = AGENT_CARD_TYPE
       then Some \<lparr>ph_alg = ss ! 0, ph_kid = ss ! 1, ph_typ = ss ! 2\<rparr> else None)"

definition decodeCardRepresentation ::
  "identity_environment \<Rightarrow> (byte list \<Rightarrow> byte list) \<Rightarrow> general_jws \<Rightarrow> agent_card option" where
  "decodeCardRepresentation env sha256 rep =
     (let b64 = ie_base64url env in
      Option.bind (b64_decode b64 (gj_payload rep)) (\<lambda>payloadBytes.
      Option.bind (b64_decode b64 (gj_protected rep)) (\<lambda>headerBytes.
      Option.bind (Option.bind (decodeCanonicalJson env payloadBytes) (decodeCardPayload b64)) (\<lambda>payload.
      Option.bind (Option.bind (decodeCanonicalJson env headerBytes) decodeCardHeader) (\<lambda>header.
      Option.bind (encodeCanonicalJson (ie_canonicalize env) (generalJwsJson rep)) (\<lambda>retainedBytes.
      let digest = ''acd_'' @ b64_encode b64 (sha256 retainedBytes) in
      if \<not> isAgentCardDigest b64 digest then None
      else Some \<lparr>ac_agentId = ap_agentId payload, ac_publicKey = ap_publicKey payload, ac_digest = digest,
                 ac_principalId = ap_principalId payload, ac_agentName = ap_agentName payload,
                 ac_issuedAt = ap_issuedAt payload, ac_wireVersion = ap_sharnessVersion payload,
                 ac_representation = rep, ac_protectedHeader = header\<rparr>))))))"

definition decodeAgentCard ::
  "identity_environment \<Rightarrow> (byte list \<Rightarrow> byte list) \<Rightarrow> json \<Rightarrow> agent_card option" where
  "decodeAgentCard env sha256 value =
     Option.bind (decodeGeneralJws (ie_base64url env) value) (decodeCardRepresentation env sha256)"

definition verifyAgentCard :: "'k jose_verifier \<Rightarrow> agent_card \<Rightarrow> string \<Rightarrow> bool" where
  "verifyAgentCard jose agentCard registrySignerPublicKey =
     (case jv_thumbprintUri jose registrySignerPublicKey of
        None \<Rightarrow> False
      | Some expectedKid \<Rightarrow>
          let header = ac_protectedHeader agentCard in
          if ph_alg header \<noteq> ''Ed25519'' \<or> ph_typ header \<noteq> AGENT_CARD_TYPE \<or> ph_kid header \<noteq> expectedKid then False
          else case jv_importKey jose registrySignerPublicKey of
            None \<Rightarrow> False
          | Some key \<Rightarrow> jv_generalVerify jose (ac_representation agentCard) key)"

lemma decodeAgentCard_facts:
  assumes "decodeAgentCard env sha256 v = Some c"
  shows "isAgentId (ie_base64url env) (ac_agentId c)" and "isAgentName (ac_agentName c)"
    and "decodeAcceptedPublicKey (ie_base64url env) (ac_publicKey c) \<noteq> None"
  using assms
  by (auto simp: decodeAgentCard_def decodeCardRepresentation_def decodeCardPayload_def decodePublicKey_def
      bind_eq_Some_conv Let_def split: if_splits)

end
