(* ===== verification/Records_Values.thy ===== *)
theory Records_Values
  imports Agent_Card
begin

text \<open>
  The conversation values of the Client, \<^verbatim>\<open>packages/client/src/communication/records/schemas.ts\<close>
  and \<^verbatim>\<open>values.ts\<close>, their wire encodings, and the hashes of \<^verbatim>\<open>encoding/codec.ts\<close> over the
  canonical bytes of \<^verbatim>\<open>encoding/canonical-json.ts\<close>. Every closed value carries the wire version;
  the history window holds one version, so it is a constant of the encodings. Agent cards and
  evidence messages are kept in their encoded form, as the schemas keep them.
\<close>

section \<open>Values\<close>

type_synonym conversation_id = string
type_synonym membership_hash = string
type_synonym anchor_hash = string
type_synonym action_hash = string
type_synonym record_hash = string
type_synonym post_intent_hash = string

definition maximumMembers :: nat where
  "maximumMembers = 32"

definition maximumContentBytes :: nat where
  "maximumContentBytes = 32768"

record membership_descriptor =
  md_conversationId :: conversation_id
  md_members :: "json list"

record post_intent =
  pi_conversationId :: conversation_id
  pi_membershipHash :: membership_hash
  pi_authorAgentId :: agent_id
  pi_postId :: string
  pi_content :: json

record genesis_anchor_body =
  ga_conversationId :: conversation_id
  ga_membershipHash :: membership_hash
  ga_routerInstanceId :: router_instance_id

record reanchor_body =
  rb_conversationId :: conversation_id
  rb_membershipHash :: membership_hash
  rb_previousAnchorHash :: anchor_hash
  rb_selectedRecordHash :: record_hash
  rb_routerInstanceId :: router_instance_id

record genesis_action =
  gc_conversationId :: conversation_id
  gc_membership :: membership_descriptor
  gc_anchor :: genesis_anchor_body
  gc_postIntent :: post_intent
  gc_postIntentHash :: post_intent_hash

record post_action =
  pc_conversationId :: conversation_id
  pc_membershipHash :: membership_hash
  pc_anchorHash :: anchor_hash
  pc_previousRecordHash :: record_hash
  pc_postIntent :: post_intent
  pc_postIntentHash :: post_intent_hash

datatype action_core = GenesisAction genesis_action | PostAction post_action

datatype record_core =
    GenesisRecordCore membership_descriptor anchor_hash genesis_action action_hash
  | PostRecordCore membership_hash anchor_hash post_action action_hash

record catch_up_request =
  cr_conversationId :: conversation_id
  cr_membershipHash :: membership_hash
  cr_requesterAgentId :: agent_id
  cr_knownRecordHash :: "record_hash option"
  cr_knownAnchorHash :: "anchor_hash option"

datatype item_kind = CertifiedRecordItem | CompletedReanchorItem | IncompleteItem

datatype evidence_statement =
    ActionSignature agent_id action_hash
  | DurabilityVote agent_id conversation_id membership_hash record_hash
  | ReanchorVote agent_id anchor_hash reanchor_body
  | CatchUpAttestation agent_id catch_up_request item_kind "string option" bool

record action_certificate =
  acert_actionHash :: action_hash
  acert_signatures :: "json list"

record durability_certificate =
  dcert_recordHash :: record_hash
  dcert_votes :: "json list"

record reanchor_certificate =
  rcert_anchorHash :: anchor_hash
  rcert_votes :: "json list"

record completed_reanchor =
  crea_anchorHash :: anchor_hash
  crea_reanchor :: reanchor_body
  crea_certificate :: reanchor_certificate

datatype router_anchor = GenesisAnchor genesis_anchor_body | Reanchored completed_reanchor

record action_certified_record =
  acr_recordHash :: record_hash
  acr_recordCore :: record_core
  acr_routerAnchor :: router_anchor
  acr_actionCertificate :: action_certificate

record certified_record =
  crec_actionCertifiedRecord :: action_certified_record
  crec_durabilityCertificate :: durability_certificate

datatype catch_up_item = CatchUpRecord certified_record | CatchUpReanchor completed_reanchor

record catch_up_page =
  cpg_request :: catch_up_request
  cpg_item :: catch_up_item
  cpg_hasMore :: bool
  cpg_attestation :: json

record catch_up_incomplete =
  cin_request :: catch_up_request
  cin_attestation :: json

section \<open>Selectors the code reads off the unions\<close>

fun ac_conversationId :: "action_core \<Rightarrow> conversation_id" where
  "ac_conversationId (GenesisAction g) = gc_conversationId g"
| "ac_conversationId (PostAction p) = pc_conversationId p"

fun ac_postIntent :: "action_core \<Rightarrow> post_intent" where
  "ac_postIntent (GenesisAction g) = gc_postIntent g"
| "ac_postIntent (PostAction p) = pc_postIntent p"

fun ac_postIntentHash :: "action_core \<Rightarrow> post_intent_hash" where
  "ac_postIntentHash (GenesisAction g) = gc_postIntentHash g"
| "ac_postIntentHash (PostAction p) = pc_postIntentHash p"

fun rc_action :: "record_core \<Rightarrow> action_core" where
  "rc_action (GenesisRecordCore _ _ g _) = GenesisAction g"
| "rc_action (PostRecordCore _ _ p _) = PostAction p"

fun rc_actionHash :: "record_core \<Rightarrow> action_hash" where
  "rc_actionHash (GenesisRecordCore _ _ _ h) = h"
| "rc_actionHash (PostRecordCore _ _ _ h) = h"

fun rc_anchorHash :: "record_core \<Rightarrow> anchor_hash" where
  "rc_anchorHash (GenesisRecordCore _ h _ _) = h"
| "rc_anchorHash (PostRecordCore _ h _ _) = h"

fun es_signerAgentId :: "evidence_statement \<Rightarrow> agent_id" where
  "es_signerAgentId (ActionSignature signer _) = signer"
| "es_signerAgentId (DurabilityVote signer _ _ _) = signer"
| "es_signerAgentId (ReanchorVote signer _ _) = signer"
| "es_signerAgentId (CatchUpAttestation signer _ _ _ _) = signer"

section \<open>Wire encodings\<close>

definition versioned :: "string \<Rightarrow> (string \<times> json) list \<Rightarrow> json" where
  "versioned kind members = JObj ([(''sharnessVersion'', JStr WIRE_VERSION), (''kind'', JStr kind)] @ members)"

definition membershipDescriptorJson :: "membership_descriptor \<Rightarrow> json" where
  "membershipDescriptorJson m = versioned ''membership_descriptor''
     [(''conversationId'', JStr (md_conversationId m)), (''members'', JArr (md_members m))]"

definition postIntentJson :: "post_intent \<Rightarrow> json" where
  "postIntentJson i = versioned ''post_intent''
     [(''conversationId'', JStr (pi_conversationId i)), (''membershipHash'', JStr (pi_membershipHash i)),
      (''authorAgentId'', JStr (pi_authorAgentId i)), (''postId'', JStr (pi_postId i)), (''content'', pi_content i)]"

definition genesisAnchorJson :: "genesis_anchor_body \<Rightarrow> json" where
  "genesisAnchorJson a = versioned ''genesis_anchor_body''
     [(''conversationId'', JStr (ga_conversationId a)), (''membershipHash'', JStr (ga_membershipHash a)),
      (''routerInstanceId'', JStr (ga_routerInstanceId a))]"

definition reanchorJson :: "reanchor_body \<Rightarrow> json" where
  "reanchorJson r = versioned ''reanchor_body''
     [(''conversationId'', JStr (rb_conversationId r)), (''membershipHash'', JStr (rb_membershipHash r)),
      (''previousAnchorHash'', JStr (rb_previousAnchorHash r)), (''selectedRecordHash'', JStr (rb_selectedRecordHash r)),
      (''routerInstanceId'', JStr (rb_routerInstanceId r))]"

fun actionCoreJson :: "action_core \<Rightarrow> json" where
  "actionCoreJson (GenesisAction g) = versioned ''GENESIS''
     [(''conversationId'', JStr (gc_conversationId g)), (''membership'', membershipDescriptorJson (gc_membership g)),
      (''anchor'', genesisAnchorJson (gc_anchor g)), (''previousRecordHash'', JNull),
      (''postIntent'', postIntentJson (gc_postIntent g)), (''postIntentHash'', JStr (gc_postIntentHash g))]"
| "actionCoreJson (PostAction p) = versioned ''POST''
     [(''conversationId'', JStr (pc_conversationId p)), (''membershipHash'', JStr (pc_membershipHash p)),
      (''anchorHash'', JStr (pc_anchorHash p)), (''previousRecordHash'', JStr (pc_previousRecordHash p)),
      (''postIntent'', postIntentJson (pc_postIntent p)), (''postIntentHash'', JStr (pc_postIntentHash p))]"

fun recordCoreJson :: "record_core \<Rightarrow> json" where
  "recordCoreJson (GenesisRecordCore m anchor g h) = versioned ''record_core''
     [(''membership'', membershipDescriptorJson m), (''anchorHash'', JStr anchor),
      (''action'', actionCoreJson (GenesisAction g)), (''actionHash'', JStr h)]"
| "recordCoreJson (PostRecordCore m anchor p h) = versioned ''record_core''
     [(''membershipHash'', JStr m), (''anchorHash'', JStr anchor),
      (''action'', actionCoreJson (PostAction p)), (''actionHash'', JStr h)]"

definition nullOr :: "string option \<Rightarrow> json" where
  "nullOr v = (case v of None \<Rightarrow> JNull | Some s \<Rightarrow> JStr s)"

definition catchUpRequestJson :: "catch_up_request \<Rightarrow> json" where
  "catchUpRequestJson r = versioned ''catch_up_request''
     [(''conversationId'', JStr (cr_conversationId r)), (''membershipHash'', JStr (cr_membershipHash r)),
      (''requesterAgentId'', JStr (cr_requesterAgentId r)), (''knownRecordHash'', nullOr (cr_knownRecordHash r)),
      (''knownAnchorHash'', nullOr (cr_knownAnchorHash r))]"

fun itemKindText :: "item_kind \<Rightarrow> string" where
  "itemKindText CertifiedRecordItem = ''certified_record''"
| "itemKindText CompletedReanchorItem = ''completed_reanchor''"
| "itemKindText IncompleteItem = ''incomplete''"

fun evidenceStatementJson :: "evidence_statement \<Rightarrow> json" where
  "evidenceStatementJson (ActionSignature signer h) = versioned ''action_signature''
     [(''signerAgentId'', JStr signer), (''actionHash'', JStr h)]"
| "evidenceStatementJson (DurabilityVote signer c m h) = versioned ''durability_vote''
     [(''signerAgentId'', JStr signer), (''conversationId'', JStr c), (''membershipHash'', JStr m), (''recordHash'', JStr h)]"
| "evidenceStatementJson (ReanchorVote signer h r) = versioned ''reanchor_vote''
     [(''signerAgentId'', JStr signer), (''anchorHash'', JStr h), (''reanchor'', reanchorJson r)]"
| "evidenceStatementJson (CatchUpAttestation signer r kind h hasMore) = versioned ''catch_up_attestation''
     [(''signerAgentId'', JStr signer), (''request'', catchUpRequestJson r), (''itemKind'', JStr (itemKindText kind)),
      (''itemHash'', nullOr h), (''hasMore'', JBool hasMore)]"

section \<open>Canonical bytes and hashes\<close>

datatype client_error = ClientRepresentationError

record client_environment =
  ce_identity :: identity_environment
  ce_sha256 :: "byte list \<Rightarrow> byte list"

definition encodeCanonical :: "client_environment \<Rightarrow> json \<Rightarrow> client_error + byte list" where
  "encodeCanonical env value =
     ofOption ClientRepresentationError (map_option utf8Bytes (ie_canonicalize (ce_identity env) value))"

definition equalCanonical :: "client_environment \<Rightarrow> json \<Rightarrow> json \<Rightarrow> client_error + bool" where
  "equalCanonical env left right =
     bindE (encodeCanonical env left) (\<lambda>l. bindE (encodeCanonical env right) (\<lambda>r. Inr (l = r)))"

definition CLIENT_DOMAIN :: string where
  "CLIENT_DOMAIN = ''org.social-harness/client/v2/''"

definition domainHash :: "client_environment \<Rightarrow> string \<Rightarrow> string \<Rightarrow> json \<Rightarrow> client_error + string" where
  "domainHash env artifact pre value =
     bindE (encodeCanonical env value) (\<lambda>bytes.
     let digest = ce_sha256 env (utf8Bytes (CLIENT_DOMAIN @ artifact @ [CHR 0x00]) @ bytes);
         text = pre @ b64_encode (ie_base64url (ce_identity env)) digest
     in if isCanonicalIdentifier (ie_base64url (ce_identity env)) pre text then Inr text
        else Inl ClientRepresentationError)"

definition sortedDistinct :: "client_environment \<Rightarrow> agent_id list \<Rightarrow> bool" where
  "sortedDistinct env = isStrictlyAscending (compareAgentIds (ie_base64url (ce_identity env)))"

definition deriveConversationId :: "client_environment \<Rightarrow> agent_id list \<Rightarrow> client_error + conversation_id" where
  "deriveConversationId env memberAgentIds =
     (if \<not> sortedDistinct env memberAgentIds then Inl ClientRepresentationError
      else domainHash env ''conversation'' ''cnv_''
        (JObj [(''kind'', JStr ''conversation_identity''), (''memberAgentIds'', JArr (map JStr memberAgentIds))]))"

definition hashMembershipDescriptor :: "client_environment \<Rightarrow> membership_descriptor \<Rightarrow> client_error + membership_hash" where
  "hashMembershipDescriptor env m = domainHash env ''membership'' ''mbr_'' (membershipDescriptorJson m)"

definition hashPostIntent :: "client_environment \<Rightarrow> post_intent \<Rightarrow> client_error + post_intent_hash" where
  "hashPostIntent env i = domainHash env ''post-intent'' ''pit_'' (postIntentJson i)"

definition hashGenesisAnchor :: "client_environment \<Rightarrow> genesis_anchor_body \<Rightarrow> client_error + anchor_hash" where
  "hashGenesisAnchor env a = domainHash env ''anchor'' ''anc_'' (genesisAnchorJson a)"

definition hashReanchor :: "client_environment \<Rightarrow> reanchor_body \<Rightarrow> client_error + anchor_hash" where
  "hashReanchor env r = domainHash env ''anchor'' ''anc_'' (reanchorJson r)"

definition hashAction :: "client_environment \<Rightarrow> action_core \<Rightarrow> client_error + action_hash" where
  "hashAction env a = domainHash env ''action'' ''ach_'' (actionCoreJson a)"

definition hashRecord :: "client_environment \<Rightarrow> record_core \<Rightarrow> client_error + record_hash" where
  "hashRecord env r = domainHash env ''record'' ''rch_'' (recordCoreJson r)"

definition decodeAgentIdBytes :: "client_environment \<Rightarrow> agent_id \<Rightarrow> client_error + byte list" where
  "decodeAgentIdBytes env agentId =
     (case decodeCanonicalBase64Url (ie_base64url (ce_identity env)) (drop 4 agentId) of
        None \<Rightarrow> Inl ClientRepresentationError
      | Some bytes \<Rightarrow> if length bytes = 16 then Inr bytes else Inl ClientRepresentationError)"

definition deriveEvidenceMessageId :: "client_environment \<Rightarrow> evidence_statement \<Rightarrow> client_error + message_id" where
  "deriveEvidenceMessageId env statement =
     bindE (decodeAgentIdBytes env (es_signerAgentId statement)) (\<lambda>signerBytes.
     bindE (encodeCanonical env (evidenceStatementJson statement)) (\<lambda>statementBytes.
     let digest = take 16 (ce_sha256 env
           (utf8Bytes (CLIENT_DOMAIN @ ''evidence-message-id'' @ [CHR 0x00]) @ signerBytes @ statementBytes));
         text = ''msg_'' @ b64_encode (ie_base64url (ce_identity env)) digest
     in if isMessageId (ie_base64url (ce_identity env)) text then Inr text else Inl ClientRepresentationError))"

section \<open>Decoding evidence statements\<close>

definition isVersioned :: "string \<Rightarrow> json \<Rightarrow> json \<Rightarrow> bool" where
  "isVersioned kind version k \<longleftrightarrow>
     (case version of JStr v \<Rightarrow> v \<in> set HISTORY_WIRE_VERSIONS | _ \<Rightarrow> False) \<and> k = JStr kind"

definition asBool :: "json \<Rightarrow> bool option" where
  "asBool v = (case v of JBool b \<Rightarrow> Some b | _ \<Rightarrow> None)"

definition asNullOr :: "(string \<Rightarrow> bool) \<Rightarrow> json \<Rightarrow> string option option" where
  "asNullOr ok v = (case v of JNull \<Rightarrow> Some None | JStr s \<Rightarrow> if ok s then Some (Some s) else None | _ \<Rightarrow> None)"

definition asIdentifier :: "client_environment \<Rightarrow> string \<Rightarrow> json \<Rightarrow> string option" where
  "asIdentifier env pre v =
     Option.bind (asString v) (\<lambda>s.
       if isCanonicalIdentifier (ie_base64url (ce_identity env)) pre s then Some s else None)"

definition asAgentId :: "client_environment \<Rightarrow> json \<Rightarrow> agent_id option" where
  "asAgentId env v =
     Option.bind (asString v) (\<lambda>s. if isAgentId (ie_base64url (ce_identity env)) s then Some s else None)"

definition decodeActionSignature :: "client_environment \<Rightarrow> json \<Rightarrow> evidence_statement option" where
  "decodeActionSignature env v =
     Option.bind (closedObject [''sharnessVersion'', ''kind'', ''signerAgentId'', ''actionHash''] v) (\<lambda>ms.
     if \<not> isVersioned ''action_signature'' (ms ! 0) (ms ! 1) then None
     else Option.bind (asAgentId env (ms ! 2)) (\<lambda>signer.
          Option.bind (asIdentifier env ''ach_'' (ms ! 3)) (\<lambda>h. Some (ActionSignature signer h))))"

definition decodeDurabilityVote :: "client_environment \<Rightarrow> json \<Rightarrow> evidence_statement option" where
  "decodeDurabilityVote env v =
     Option.bind (closedObject [''sharnessVersion'', ''kind'', ''signerAgentId'', ''conversationId'',
                                ''membershipHash'', ''recordHash''] v) (\<lambda>ms.
     if \<not> isVersioned ''durability_vote'' (ms ! 0) (ms ! 1) then None
     else Option.bind (asAgentId env (ms ! 2)) (\<lambda>signer.
          Option.bind (asIdentifier env ''cnv_'' (ms ! 3)) (\<lambda>c.
          Option.bind (asIdentifier env ''mbr_'' (ms ! 4)) (\<lambda>m.
          Option.bind (asIdentifier env ''rch_'' (ms ! 5)) (\<lambda>h. Some (DurabilityVote signer c m h))))))"

text \<open>The Router instance schema is the Router contract's: a prefix and sixteen bytes in their one spelling.\<close>

definition asRouterInstanceId :: "client_environment \<Rightarrow> json \<Rightarrow> router_instance_id option" where
  "asRouterInstanceId env v =
     Option.bind (asString v) (\<lambda>s.
       if startsWith s ''rti_'' \<and>
          map_option length (decodeCanonicalBase64Url (ie_base64url (ce_identity env)) (drop 4 s)) = Some 16
       then Some s else None)"

definition decodeReanchorBody :: "client_environment \<Rightarrow> json \<Rightarrow> reanchor_body option" where
  "decodeReanchorBody env v =
     Option.bind (closedObject [''sharnessVersion'', ''kind'', ''conversationId'', ''membershipHash'',
                                ''previousAnchorHash'', ''selectedRecordHash'', ''routerInstanceId''] v) (\<lambda>ms.
     if \<not> isVersioned ''reanchor_body'' (ms ! 0) (ms ! 1) then None
     else Option.bind (asIdentifier env ''cnv_'' (ms ! 2)) (\<lambda>c.
          Option.bind (asIdentifier env ''mbr_'' (ms ! 3)) (\<lambda>m.
          Option.bind (asIdentifier env ''anc_'' (ms ! 4)) (\<lambda>p.
          Option.bind (asIdentifier env ''rch_'' (ms ! 5)) (\<lambda>r.
          Option.bind (asRouterInstanceId env (ms ! 6)) (\<lambda>i.
          Some \<lparr>rb_conversationId = c, rb_membershipHash = m, rb_previousAnchorHash = p,
                rb_selectedRecordHash = r, rb_routerInstanceId = i\<rparr>))))))"

definition decodeReanchorVote :: "client_environment \<Rightarrow> json \<Rightarrow> evidence_statement option" where
  "decodeReanchorVote env v =
     Option.bind (closedObject [''sharnessVersion'', ''kind'', ''signerAgentId'', ''anchorHash'', ''reanchor''] v) (\<lambda>ms.
     if \<not> isVersioned ''reanchor_vote'' (ms ! 0) (ms ! 1) then None
     else Option.bind (asAgentId env (ms ! 2)) (\<lambda>signer.
          Option.bind (asIdentifier env ''anc_'' (ms ! 3)) (\<lambda>h.
          Option.bind (decodeReanchorBody env (ms ! 4)) (\<lambda>r. Some (ReanchorVote signer h r)))))"

definition decodeCatchUpRequest :: "client_environment \<Rightarrow> json \<Rightarrow> catch_up_request option" where
  "decodeCatchUpRequest env v =
     Option.bind (closedObject [''sharnessVersion'', ''kind'', ''conversationId'', ''membershipHash'',
                                ''requesterAgentId'', ''knownRecordHash'', ''knownAnchorHash''] v) (\<lambda>ms.
     if \<not> isVersioned ''catch_up_request'' (ms ! 0) (ms ! 1) then None
     else Option.bind (asIdentifier env ''cnv_'' (ms ! 2)) (\<lambda>c.
          Option.bind (asIdentifier env ''mbr_'' (ms ! 3)) (\<lambda>m.
          Option.bind (asAgentId env (ms ! 4)) (\<lambda>a.
          Option.bind (asNullOr (isCanonicalIdentifier (ie_base64url (ce_identity env)) ''rch_'') (ms ! 5)) (\<lambda>r.
          Option.bind (asNullOr (isCanonicalIdentifier (ie_base64url (ce_identity env)) ''anc_'') (ms ! 6)) (\<lambda>n.
          if (r = None) = (n = None)
          then Some \<lparr>cr_conversationId = c, cr_membershipHash = m, cr_requesterAgentId = a,
                     cr_knownRecordHash = r, cr_knownAnchorHash = n\<rparr>
          else None))))))"

definition asItemKind :: "json \<Rightarrow> item_kind option" where
  "asItemKind v = List.find (\<lambda>k. v = JStr (itemKindText k)) [CertifiedRecordItem, CompletedReanchorItem, IncompleteItem]"

definition decodeCatchUpAttestation :: "client_environment \<Rightarrow> json \<Rightarrow> evidence_statement option" where
  "decodeCatchUpAttestation env v =
     Option.bind (closedObject [''sharnessVersion'', ''kind'', ''signerAgentId'', ''request'', ''itemKind'',
                                ''itemHash'', ''hasMore''] v) (\<lambda>ms.
     if \<not> isVersioned ''catch_up_attestation'' (ms ! 0) (ms ! 1) then None
     else Option.bind (asAgentId env (ms ! 2)) (\<lambda>signer.
          Option.bind (decodeCatchUpRequest env (ms ! 3)) (\<lambda>r.
          Option.bind (asItemKind (ms ! 4)) (\<lambda>k.
          Option.bind (asNullOr (\<lambda>s. isCanonicalIdentifier (ie_base64url (ce_identity env)) ''rch_'' s \<or>
                                      isCanonicalIdentifier (ie_base64url (ce_identity env)) ''anc_'' s) (ms ! 5)) (\<lambda>h.
          Option.bind (asBool (ms ! 6)) (\<lambda>hasMore. Some (CatchUpAttestation signer r k h hasMore)))))))"

text \<open>The union is tried member by member.\<close>

definition decodeEvidenceStatement :: "client_environment \<Rightarrow> json \<Rightarrow> evidence_statement option" where
  "decodeEvidenceStatement env v =
     (case decodeActionSignature env v of
        Some s \<Rightarrow> Some s
      | None \<Rightarrow> (case decodeDurabilityVote env v of
          Some s \<Rightarrow> Some s
        | None \<Rightarrow> (case decodeReanchorVote env v of
            Some s \<Rightarrow> Some s
          | None \<Rightarrow> decodeCatchUpAttestation env v)))"

definition decodeCanonicalEvidence :: "client_environment \<Rightarrow> byte list \<Rightarrow> client_error + evidence_statement" where
  "decodeCanonicalEvidence env bytes =
     bindE (ofOption ClientRepresentationError
       (Option.bind (Option.bind (decodeText bytes) (ie_parseJson (ce_identity env))) (decodeEvidenceStatement env)))
       (\<lambda>statement.
     bindE (encodeCanonical env (evidenceStatementJson statement)) (\<lambda>canonical.
     if bytes = canonical then Inr statement else Inl ClientRepresentationError))"

end
