(* ===== verification/Records_Verification.thy ===== *)
theory Records_Verification
  imports Records_Values
begin

text \<open>
  Verification of conversation records, \<^verbatim>\<open>packages/client/src/communication/records/verification.ts\<close>:
  memberships, self-addressed evidence, quorum certificates, action-certified and certified
  records, completed re-anchors and catch-up pages. \<^verbatim>\<open>Effect.forEach\<close> runs in order; every
  check that fails gives the one representation error. The Registry signer's key and the
  signature operations are part of the verification environment.
\<close>

section \<open>Membership\<close>

record 'k verification_environment =
  ve_client :: client_environment
  ve_jose :: "'k jose_verifier"

abbreviation ve_identity :: "'k verification_environment \<Rightarrow> identity_environment" where
  "ve_identity env \<equiv> ce_identity (ve_client env)"

abbreviation failure :: "client_error + 'a" where
  "failure \<equiv> Inl ClientRepresentationError"

record verified_membership =
  vm_descriptor :: membership_descriptor
  vm_hash :: membership_hash
  vm_members :: "agent_card list"

definition verifyMember :: "'k verification_environment \<Rightarrow> string \<Rightarrow> json \<Rightarrow> client_error + agent_card" where
  "verifyMember env registrySignerPublicKey representation =
     (case decodeAgentCard (ve_identity env) (ce_sha256 (ve_client env)) representation of
        None \<Rightarrow> failure
      | Some agentCard \<Rightarrow>
          if verifyAgentCard (ve_jose env) agentCard registrySignerPublicKey then Inr agentCard else failure)"

definition verifyMembershipDescriptor ::
  "'k verification_environment \<Rightarrow> membership_descriptor \<Rightarrow> string \<Rightarrow> client_error + verified_membership" where
  "verifyMembershipDescriptor env descriptor registrySignerPublicKey =
     bindE (forEachE (verifyMember env registrySignerPublicKey) (md_members descriptor)) (\<lambda>verified.
     let agentIds = map ac_agentId verified;
         agentNames = jsSet (map ac_agentName verified)
     in if length verified < 2 \<or> \<not> sortedDistinct (ve_client env) agentIds \<or> length agentNames \<noteq> length verified
        then failure
        else
          bindE (deriveConversationId (ve_client env) agentIds) (\<lambda>conversationId.
          if conversationId \<noteq> md_conversationId descriptor then failure
          else
            bindE (hashMembershipDescriptor (ve_client env) descriptor) (\<lambda>h.
            Inr \<lparr>vm_descriptor = descriptor, vm_hash = h, vm_members = verified\<rparr>)))"

definition memberCard :: "verified_membership \<Rightarrow> agent_id \<Rightarrow> agent_card option" where
  "memberCard membership agentId = List.find (\<lambda>c. ac_agentId c = agentId) (vm_members membership)"

section \<open>Evidence\<close>

definition verifyOuterMessage ::
  "'k verification_environment \<Rightarrow> signed_message \<Rightarrow> verified_membership \<Rightarrow> client_error + signed_message" where
  "verifyOuterMessage env message membership =
     (case memberCard membership (sm_senderAgentId message) of
        None \<Rightarrow> failure
      | Some agentCard \<Rightarrow>
          if sm_recipientAgentIds message \<noteq> map ac_agentId (vm_members membership) then failure
          else if verifySignedMessage (ve_jose env) message agentCard then Inr message else failure)"

record verified_evidence =
  ev_message :: signed_message
  ev_statement :: evidence_statement

definition verifyStableEvidence ::
  "'k verification_environment \<Rightarrow> json \<Rightarrow> verified_membership \<Rightarrow> evidence_statement option \<Rightarrow>
   client_error + verified_evidence" where
  "verifyStableEvidence env representation membership supplied =
     bindE (ofOption ClientRepresentationError (decodeSignedMessage (ve_identity env) representation)) (\<lambda>message.
     case memberCard membership (sm_senderAgentId message) of
       None \<Rightarrow> failure
     | Some agentCard \<Rightarrow>
         if sm_recipientAgentIds message \<noteq> [sm_senderAgentId message] then failure
         else if \<not> verifySignedMessage (ve_jose env) message agentCard then failure
         else
           bindE (case supplied of Some statement \<Rightarrow> Inr statement
                  | None \<Rightarrow> decodeCanonicalEvidence (ve_client env) (sm_body message)) (\<lambda>statement.
           bindE (encodeCanonical (ve_client env) (evidenceStatementJson statement)) (\<lambda>encoded.
           if encoded \<noteq> sm_body message then failure
           else
             bindE (deriveEvidenceMessageId (ve_client env) statement) (\<lambda>expectedMessageId.
             if es_signerAgentId statement \<noteq> sm_senderAgentId message \<or> expectedMessageId \<noteq> sm_messageId message
             then failure
             else Inr \<lparr>ev_message = message, ev_statement = statement\<rparr>))))"

definition verifyDeliveredEvidence ::
  "'k verification_environment \<Rightarrow> signed_message \<Rightarrow> signed_message \<Rightarrow> verified_membership \<Rightarrow>
   evidence_statement option \<Rightarrow> client_error + verified_evidence" where
  "verifyDeliveredEvidence env outer evidence membership supplied =
     bindE (verifyOuterMessage env outer membership) (\<lambda>_.
     verifyStableEvidence env (encodeView evidence) membership supplied)"

datatype evidence_kind = ActionSignatureKind | DurabilityVoteKind | ReanchorVoteKind | CatchUpAttestationKind

fun evidenceKind :: "evidence_statement \<Rightarrow> evidence_kind" where
  "evidenceKind (ActionSignature _ _) = ActionSignatureKind"
| "evidenceKind (DurabilityVote _ _ _ _) = DurabilityVoteKind"
| "evidenceKind (ReanchorVote _ _ _) = ReanchorVoteKind"
| "evidenceKind (CatchUpAttestation _ _ _ _ _) = CatchUpAttestationKind"

definition verifyEvidenceSet ::
  "'k verification_environment \<Rightarrow> json list \<Rightarrow> evidence_kind \<Rightarrow> verified_membership \<Rightarrow> nat \<Rightarrow>
   (evidence_statement \<Rightarrow> client_error + bool) \<Rightarrow> client_error + verified_evidence list" where
  "verifyEvidenceSet env representations expectedKind membership requiredCount statementMatches =
     (if length representations > length (vm_members membership) then failure
      else if length representations < requiredCount then failure
      else
        bindE (forEachE (\<lambda>r. verifyStableEvidence env r membership None) representations) (\<lambda>verified.
        if \<not> sortedDistinct (ve_client env) (map (\<lambda>e. es_signerAgentId (ev_statement e)) verified) then failure
        else
          bindE (forEachE (\<lambda>e. if evidenceKind (ev_statement e) = expectedKind
                               then statementMatches (ev_statement e) else Inr False) verified) (\<lambda>matches.
          if list_ex (\<lambda>m. \<not> m) matches then failure else Inr verified)))"

definition quorumThreshold :: "nat \<Rightarrow> nat" where
  "quorumThreshold memberCount = (if memberCount < 4 then memberCount else memberCount - (memberCount - 1) div 3)"

section \<open>Actions\<close>

definition actionReferencesMembership :: "action_core \<Rightarrow> verified_membership \<Rightarrow> bool" where
  "actionReferencesMembership action membership =
     (let intent = ac_postIntent action in
      if ac_conversationId action \<noteq> md_conversationId (vm_descriptor membership) \<or>
         pi_conversationId intent \<noteq> md_conversationId (vm_descriptor membership) then False
      else if pi_membershipHash intent \<noteq> vm_hash membership \<or>
              memberCard membership (pi_authorAgentId intent) = None then False
      else True)"

definition verifyActionCore ::
  "'k verification_environment \<Rightarrow> action_core \<Rightarrow> verified_membership \<Rightarrow> client_error + action_hash \<times> anchor_hash" where
  "verifyActionCore env action membership =
     (if \<not> actionReferencesMembership action membership then failure
      else
        bindE (hashPostIntent (ve_client env) (ac_postIntent action)) (\<lambda>intentHash.
        if intentHash \<noteq> ac_postIntentHash action then failure
        else case action of
          GenesisAction g \<Rightarrow>
            bindE (equalCanonical (ve_client env) (membershipDescriptorJson (gc_membership g))
                     (membershipDescriptorJson (vm_descriptor membership))) (\<lambda>same.
            if \<not> same \<or> ga_conversationId (gc_anchor g) \<noteq> gc_conversationId g \<or>
               ga_membershipHash (gc_anchor g) \<noteq> vm_hash membership then failure
            else
              bindE (hashAction (ve_client env) action) (\<lambda>actionHash.
              bindE (hashGenesisAnchor (ve_client env) (gc_anchor g)) (\<lambda>anchorHash.
              Inr (actionHash, anchorHash))))
        | PostAction p \<Rightarrow>
            if pc_membershipHash p \<noteq> vm_hash membership then failure
            else bindE (hashAction (ve_client env) action) (\<lambda>actionHash. Inr (actionHash, pc_anchorHash p))))"

definition verifyActionProposal ::
  "'k verification_environment \<Rightarrow> action_core \<Rightarrow> verified_membership \<Rightarrow> agent_id \<Rightarrow> client_error + action_hash \<times> anchor_hash" where
  "verifyActionProposal env action membership outerSenderAgentId =
     bindE (verifyActionCore env action membership) (\<lambda>verifiedAction.
     if outerSenderAgentId \<noteq> pi_authorAgentId (ac_postIntent action) then failure else Inr verifiedAction)"

definition isGenesis :: "action_core \<Rightarrow> bool" where
  "isGenesis action = (case action of GenesisAction _ \<Rightarrow> True | PostAction _ \<Rightarrow> False)"

definition actionSignatureMatches :: "action_hash \<Rightarrow> evidence_statement \<Rightarrow> client_error + bool" where
  "actionSignatureMatches h statement =
     Inr (case statement of ActionSignature _ h' \<Rightarrow> h' = h | _ \<Rightarrow> False)"

definition verifyActionCertificateEvidence ::
  "'k verification_environment \<Rightarrow> action_hash \<Rightarrow> action_certificate \<Rightarrow> action_core \<Rightarrow> verified_membership \<Rightarrow>
   client_error + action_hash" where
  "verifyActionCertificateEvidence env actionHash certificate action membership =
     (if acert_actionHash certificate \<noteq> actionHash then failure
      else
        let n = length (vm_members membership);
            requiredCount = (if isGenesis action then n else quorumThreshold n)
        in bindE (verifyEvidenceSet env (acert_signatures certificate) ActionSignatureKind membership requiredCount
                    (actionSignatureMatches actionHash)) (\<lambda>evidence.
           if \<not> list_ex (\<lambda>e. es_signerAgentId (ev_statement e) = pi_authorAgentId (ac_postIntent action)) evidence
           then failure else Inr actionHash))"

section \<open>Re-anchors and records\<close>

definition reanchorVoteMatches ::
  "'k verification_environment \<Rightarrow> reanchor_body \<Rightarrow> anchor_hash \<Rightarrow> evidence_statement \<Rightarrow> client_error + bool" where
  "reanchorVoteMatches env reanchor expectedAnchorHash statement =
     (case statement of
        ReanchorVote _ h r \<Rightarrow>
          bindE (equalCanonical (ve_client env) (reanchorJson r) (reanchorJson reanchor)) (\<lambda>same.
          Inr (same \<and> h = expectedAnchorHash))
      | _ \<Rightarrow> Inr False)"

definition verifyCompletedReanchor ::
  "'k verification_environment \<Rightarrow> completed_reanchor \<Rightarrow> verified_membership \<Rightarrow> client_error + anchor_hash" where
  "verifyCompletedReanchor env completed membership =
     bindE (hashReanchor (ve_client env) (crea_reanchor completed)) (\<lambda>expectedAnchorHash.
     if expectedAnchorHash \<noteq> crea_anchorHash completed \<or>
        rcert_anchorHash (crea_certificate completed) \<noteq> expectedAnchorHash \<or>
        rb_membershipHash (crea_reanchor completed) \<noteq> vm_hash membership \<or>
        rb_conversationId (crea_reanchor completed) \<noteq> md_conversationId (vm_descriptor membership)
     then failure
     else
       bindE (verifyEvidenceSet env (rcert_votes (crea_certificate completed)) ReanchorVoteKind membership
                (quorumThreshold (length (vm_members membership)))
                (reanchorVoteMatches env (crea_reanchor completed) expectedAnchorHash)) (\<lambda>_.
       Inr expectedAnchorHash))"

definition verifyRecordMembership ::
  "'k verification_environment \<Rightarrow> record_core \<Rightarrow> verified_membership \<Rightarrow> client_error + unit" where
  "verifyRecordMembership env recordCore membership =
     (case recordCore of
        GenesisRecordCore m _ _ _ \<Rightarrow>
          bindE (equalCanonical (ve_client env) (membershipDescriptorJson m)
                   (membershipDescriptorJson (vm_descriptor membership))) (\<lambda>same.
          guardE same ClientRepresentationError)
      | PostRecordCore h _ _ _ \<Rightarrow> guardE (h = vm_hash membership) ClientRepresentationError)"

definition verifyRecordCore ::
  "'k verification_environment \<Rightarrow> record_core \<Rightarrow> verified_membership \<Rightarrow> client_error + record_hash" where
  "verifyRecordCore env recordCore membership =
     bindE (verifyRecordMembership env recordCore membership) (\<lambda>_.
     bindE (verifyActionCore env (rc_action recordCore) membership) (\<lambda>(actionHash, anchorHash).
     if rc_actionHash recordCore \<noteq> actionHash \<or> rc_anchorHash recordCore \<noteq> anchorHash then failure
     else hashRecord (ve_client env) recordCore))"

definition verifyRecordRouterAnchor ::
  "'k verification_environment \<Rightarrow> action_certified_record \<Rightarrow> verified_membership \<Rightarrow> client_error + unit" where
  "verifyRecordRouterAnchor env rec membership =
     bindE (case acr_routerAnchor rec of
              GenesisAnchor a \<Rightarrow> hashGenesisAnchor (ve_client env) a
            | Reanchored completed \<Rightarrow> verifyCompletedReanchor env completed membership) (\<lambda>anchorHash.
     if anchorHash \<noteq> rc_anchorHash (acr_recordCore rec) then failure
     else case acr_routerAnchor rec of
       Reanchored _ \<Rightarrow> Inr ()
     | GenesisAnchor a \<Rightarrow>
         if ga_conversationId a \<noteq> md_conversationId (vm_descriptor membership) \<or>
            ga_membershipHash a \<noteq> vm_hash membership
         then failure else Inr ())"

definition verifyGenesisRouterAnchor ::
  "'k verification_environment \<Rightarrow> action_certified_record \<Rightarrow> client_error + unit" where
  "verifyGenesisRouterAnchor env rec =
     (case rc_action (acr_recordCore rec) of
        PostAction _ \<Rightarrow> Inr ()
      | GenesisAction g \<Rightarrow>
          (case acr_routerAnchor rec of
             Reanchored _ \<Rightarrow> failure
           | GenesisAnchor a \<Rightarrow>
               bindE (equalCanonical (ve_client env) (genesisAnchorJson a) (genesisAnchorJson (gc_anchor g))) (\<lambda>same.
               guardE same ClientRepresentationError)))"

definition verifyActionCertifiedRecord ::
  "'k verification_environment \<Rightarrow> action_certified_record \<Rightarrow> verified_membership \<Rightarrow> client_error + record_hash" where
  "verifyActionCertifiedRecord env rec membership =
     bindE (verifyRecordCore env (acr_recordCore rec) membership) (\<lambda>recordHash.
     if acr_recordHash rec \<noteq> recordHash then failure
     else
       bindE (verifyActionCertificateEvidence env (rc_actionHash (acr_recordCore rec)) (acr_actionCertificate rec)
                (rc_action (acr_recordCore rec)) membership) (\<lambda>_.
       bindE (verifyRecordRouterAnchor env rec membership) (\<lambda>_.
       bindE (verifyGenesisRouterAnchor env rec) (\<lambda>_. Inr recordHash))))"

definition durabilityVoteMatches :: "verified_membership \<Rightarrow> record_hash \<Rightarrow> evidence_statement \<Rightarrow> client_error + bool" where
  "durabilityVoteMatches membership recordHash statement =
     Inr (case statement of
            DurabilityVote _ c m h \<Rightarrow>
              c = md_conversationId (vm_descriptor membership) \<and> m = vm_hash membership \<and> h = recordHash
          | _ \<Rightarrow> False)"

definition verifyCertifiedRecord ::
  "'k verification_environment \<Rightarrow> certified_record \<Rightarrow> verified_membership \<Rightarrow> client_error + verified_evidence list" where
  "verifyCertifiedRecord env rec membership =
     bindE (verifyActionCertifiedRecord env (crec_actionCertifiedRecord rec) membership) (\<lambda>recordHash.
     let certificate = crec_durabilityCertificate rec in
     if dcert_recordHash certificate \<noteq> recordHash then failure
     else verifyEvidenceSet env (dcert_votes certificate) DurabilityVoteKind membership
            (quorumThreshold (length (vm_members membership))) (durabilityVoteMatches membership recordHash))"

section \<open>Catch-up\<close>

definition verifyCatchUpRequest :: "catch_up_request \<Rightarrow> verified_membership \<Rightarrow> client_error + unit" where
  "verifyCatchUpRequest request membership =
     guardE (cr_conversationId request = md_conversationId (vm_descriptor membership) \<and>
             cr_membershipHash request = vm_hash membership \<and>
             memberCard membership (cr_requesterAgentId request) \<noteq> None) ClientRepresentationError"

definition catchUpAttestationMatches ::
  "'k verification_environment \<Rightarrow> evidence_statement \<Rightarrow> catch_up_request \<Rightarrow> item_kind \<Rightarrow> string option \<Rightarrow> bool \<Rightarrow>
   client_error + bool" where
  "catchUpAttestationMatches env statement request itemKind itemHash hasMore =
     (case statement of
        CatchUpAttestation _ r k h m \<Rightarrow>
          bindE (equalCanonical (ve_client env) (catchUpRequestJson r) (catchUpRequestJson request)) (\<lambda>sameRequest.
          Inr (sameRequest \<and> k = itemKind \<and> h = itemHash \<and> m = hasMore))
      | _ \<Rightarrow> Inr False)"

definition verifyCatchUpAttestation ::
  "'k verification_environment \<Rightarrow> json \<Rightarrow> verified_membership \<Rightarrow> agent_id \<Rightarrow> catch_up_request \<Rightarrow> item_kind \<Rightarrow>
   string option \<Rightarrow> bool \<Rightarrow> client_error + unit" where
  "verifyCatchUpAttestation env representation membership responseSenderAgentId request itemKind itemHash hasMore =
     bindE (verifyStableEvidence env representation membership None) (\<lambda>evidence.
     if evidenceKind (ev_statement evidence) \<noteq> CatchUpAttestationKind \<or>
        es_signerAgentId (ev_statement evidence) \<noteq> responseSenderAgentId then failure
     else
       bindE (catchUpAttestationMatches env (ev_statement evidence) request itemKind itemHash hasMore) (\<lambda>matches.
       guardE matches ClientRepresentationError))"

definition certifiedItemExtendsPosition :: "catch_up_request \<Rightarrow> certified_record \<Rightarrow> bool" where
  "certifiedItemExtendsPosition request rec =
     (let acr = crec_actionCertifiedRecord rec;
          action = rc_action (acr_recordCore acr)
      in case cr_knownRecordHash request of
           None \<Rightarrow> isGenesis action \<and> (case acr_routerAnchor acr of GenesisAnchor _ \<Rightarrow> True | Reanchored _ \<Rightarrow> False)
         | Some known \<Rightarrow>
             (case action of
                GenesisAction _ \<Rightarrow> False
              | PostAction p \<Rightarrow> pc_previousRecordHash p = known \<and> Some (pc_anchorHash p) = cr_knownAnchorHash request))"

definition verifyCertifiedCatchUpItem ::
  "'k verification_environment \<Rightarrow> catch_up_page \<Rightarrow> certified_record \<Rightarrow> verified_membership \<Rightarrow>
   client_error + item_kind \<times> string" where
  "verifyCertifiedCatchUpItem env page item membership =
     (if \<not> certifiedItemExtendsPosition (cpg_request page) item then failure
      else
        bindE (verifyCertifiedRecord env item membership) (\<lambda>_.
        Inr (CertifiedRecordItem, acr_recordHash (crec_actionCertifiedRecord item))))"

definition verifyReanchorCatchUpItem ::
  "'k verification_environment \<Rightarrow> catch_up_page \<Rightarrow> completed_reanchor \<Rightarrow> verified_membership \<Rightarrow>
   client_error + item_kind \<times> string" where
  "verifyReanchorCatchUpItem env page item membership =
     (if cr_knownRecordHash (cpg_request page) = None \<or>
         Some (rb_selectedRecordHash (crea_reanchor item)) \<noteq> cr_knownRecordHash (cpg_request page) \<or>
         Some (rb_previousAnchorHash (crea_reanchor item)) \<noteq> cr_knownAnchorHash (cpg_request page)
      then failure
      else bindE (verifyCompletedReanchor env item membership) (\<lambda>_. Inr (CompletedReanchorItem, crea_anchorHash item)))"

definition verifyCatchUpItem ::
  "'k verification_environment \<Rightarrow> catch_up_page \<Rightarrow> verified_membership \<Rightarrow> client_error + item_kind \<times> string" where
  "verifyCatchUpItem env page membership =
     (case cpg_item page of
        CatchUpRecord item \<Rightarrow> verifyCertifiedCatchUpItem env page item membership
      | CatchUpReanchor item \<Rightarrow> verifyReanchorCatchUpItem env page item membership)"

definition verifyCatchUpPage ::
  "'k verification_environment \<Rightarrow> catch_up_page \<Rightarrow> verified_membership \<Rightarrow> agent_id \<Rightarrow> client_error + unit" where
  "verifyCatchUpPage env page membership responseSenderAgentId =
     bindE (verifyCatchUpRequest (cpg_request page) membership) (\<lambda>_.
     bindE (verifyCatchUpItem env page membership) (\<lambda>(itemKind, itemHash).
     verifyCatchUpAttestation env (cpg_attestation page) membership responseSenderAgentId (cpg_request page)
       itemKind (Some itemHash) (cpg_hasMore page)))"

definition verifyCatchUpIncomplete ::
  "'k verification_environment \<Rightarrow> catch_up_incomplete \<Rightarrow> verified_membership \<Rightarrow> agent_id \<Rightarrow> client_error + unit" where
  "verifyCatchUpIncomplete env incomplete membership responseSenderAgentId =
     bindE (verifyCatchUpRequest (cin_request incomplete) membership) (\<lambda>_.
     verifyCatchUpAttestation env (cin_attestation incomplete) membership responseSenderAgentId
       (cin_request incomplete) IncompleteItem None False)"

end
