(* ===== verification/Records_Quorum.thy ===== *)
theory Records_Quorum
  imports Records_Verification
begin

text \<open>
  What the certificates of \<^verbatim>\<open>records/verification.ts\<close> establish: the interface of a quorum rule,
  its interpretation on \<^verbatim>\<open>quorumThreshold\<close>, the signers a verified evidence set stands for, and
  the theorems that two certificates always share accountable members.
\<close>

section \<open>The interface of a quorum rule\<close>

text \<open>
  A threshold for each number of members, with the number of faulty members it tolerates:
  two quorums overlap in more than the tolerated members, and the remaining members
  still form a quorum.
\<close>

locale quorum_system =
  fixes threshold :: "nat \<Rightarrow> nat"
    and tolerated :: "nat \<Rightarrow> nat"
  assumes overlap: "0 < n \<Longrightarrow> n + tolerated n < 2 * threshold n"
    and available: "0 < n \<Longrightarrow> threshold n + tolerated n \<le> n"
begin

lemma threshold_le: "0 < n \<Longrightarrow> threshold n \<le> n"
  using available [of n] by simp

lemma threshold_pos: "0 < n \<Longrightarrow> 0 < threshold n"
  using overlap [of n] by simp

lemma quorums_overlap:
  assumes "finite M" "M \<noteq> {}" "A \<subseteq> M" "B \<subseteq> M"
    and "threshold (card M) \<le> card A" "threshold (card M) \<le> card B"
  shows "tolerated (card M) < card (A \<inter> B)"
proof -
  have fin: "finite A" "finite B" using assms finite_subset by blast+
  have "card A + card B = card (A \<union> B) + card (A \<inter> B)" by (rule card_Un_Int [OF fin])
  moreover have "card (A \<union> B) \<le> card M" using assms by (intro card_mono) auto
  moreover have "card M + tolerated (card M) < 2 * threshold (card M)"
    using assms(1,2) by (intro overlap) (simp add: card_gt_0_iff)
  ultimately show ?thesis using assms(5,6) by linarith
qed

text \<open>Whichever tolerated members are faulty, two quorums share a member that is not.\<close>

lemma quorums_share_correct:
  assumes "finite M" "M \<noteq> {}" "A \<subseteq> M" "B \<subseteq> M"
    and "threshold (card M) \<le> card A" "threshold (card M) \<le> card B"
    and "finite F" "card F \<le> tolerated (card M)"
  shows "\<exists>a. a \<in> A \<and> a \<in> B \<and> a \<notin> F"
proof (rule ccontr)
  assume "\<not> ?thesis"
  then have "A \<inter> B \<subseteq> F" by blast
  then have "card (A \<inter> B) \<le> card F" using assms(7) by (intro card_mono)
  with quorums_overlap [OF assms(1-6)] assms(8) show False by simp
qed

text \<open>The members that are not faulty reach the threshold on their own.\<close>

lemma correct_reach_threshold:
  assumes "finite M" "M \<noteq> {}" "F \<subseteq> M" "card F \<le> tolerated (card M)"
  shows "threshold (card M) \<le> card (M - F)"
proof -
  have "card (M - F) = card M - card F" using assms by (intro card_Diff_subset) (auto intro: finite_subset)
  then show ?thesis using available [of "card M"] assms by (simp add: card_gt_0_iff)
qed

end

definition toleratedFaults :: "nat \<Rightarrow> nat" where
  "toleratedFaults memberCount = (memberCount - 1) div 3"

lemma quorumThreshold_eq: "quorumThreshold n = n - toleratedFaults n"
  by (cases "n < 4") (auto simp: quorumThreshold_def toleratedFaults_def)

interpretation quorum: quorum_system quorumThreshold toleratedFaults
proof unfold_locales
  fix n :: nat
  assume "0 < n"
  then have "3 * toleratedFaults n < n" by (simp add: toleratedFaults_def)
  then show "n + toleratedFaults n < 2 * quorumThreshold n" "quorumThreshold n + toleratedFaults n \<le> n"
    by (simp_all add: quorumThreshold_eq)
qed

section \<open>The signers of an evidence set\<close>

definition memberIds :: "verified_membership \<Rightarrow> agent_id set" where
  "memberIds membership = ac_agentId ` set (vm_members membership)"

definition wellFormedMembership :: "verified_membership \<Rightarrow> bool" where
  "wellFormedMembership membership \<longleftrightarrow>
     vm_members membership \<noteq> [] \<and> distinct (map ac_agentId (vm_members membership))"

lemma finite_memberIds [simp]: "finite (memberIds membership)"
  by (simp add: memberIds_def)

lemma card_memberIds:
  "wellFormedMembership membership \<Longrightarrow> card (memberIds membership) = length (vm_members membership)"
  by (simp add: memberIds_def wellFormedMembership_def distinct_card card_image distinct_map)

text \<open>
  \<open>signedBy env membership signer statement\<close>: among the representations there is a message
  that decodes, whose body is the canonical encoding of the statement, and whose signature
  verifies under the member's own card.
\<close>

definition signedBy ::
  "'k verification_environment \<Rightarrow> verified_membership \<Rightarrow> json list \<Rightarrow> agent_id \<Rightarrow> evidence_statement \<Rightarrow> bool" where
  "signedBy env membership representations signer statement \<longleftrightarrow>
     es_signerAgentId statement = signer \<and>
     list_ex (\<lambda>r. case decodeSignedMessage (ve_identity env) r of
        None \<Rightarrow> False
      | Some message \<Rightarrow>
          sm_senderAgentId message = signer \<and>
          encodeCanonical (ve_client env) (evidenceStatementJson statement) = Inr (sm_body message) \<and>
          (case memberCard membership signer of
             None \<Rightarrow> False | Some c \<Rightarrow> verifySignedMessage (ve_jose env) message c)) representations"

lemma memberCard_Some:
  "memberCard membership a = Some c \<Longrightarrow> c \<in> set (vm_members membership) \<and> ac_agentId c = a"
  unfolding memberCard_def by (drule find_Some_mem) simp

lemma memberCard_iff: "memberCard membership a = None \<longleftrightarrow> a \<notin> memberIds membership"
  by (auto simp: memberCard_def find_None_iff memberIds_def)

text \<open>Every acceptance of one piece of evidence, with each check it passed.\<close>

lemma verifyStableEvidence_accepts:
  assumes "verifyStableEvidence env r membership supplied = Inr e"
  obtains message agentCard where
    "decodeSignedMessage (ve_identity env) r = Some message"
    "memberCard membership (sm_senderAgentId message) = Some agentCard"
    "sm_recipientAgentIds message = [sm_senderAgentId message]"
    "verifySignedMessage (ve_jose env) message agentCard"
    "encodeCanonical (ve_client env) (evidenceStatementJson (ev_statement e)) = Inr (sm_body message)"
    "deriveEvidenceMessageId (ve_client env) (ev_statement e) = Inr (sm_messageId message)"
    "es_signerAgentId (ev_statement e) = sm_senderAgentId message"
    "ev_message e = message"
    "supplied = None \<Longrightarrow> decodeCanonicalEvidence (ve_client env) (sm_body message) = Inr (ev_statement e)"
  using assms that unfolding verifyStableEvidence_def
  by (auto simp: bindE_Inr_iff ofOption_Inr_iff split: option.splits if_splits)

lemma verifyStableEvidence_signedBy:
  assumes "verifyStableEvidence env r membership supplied = Inr e" "r \<in> set representations"
  shows "signedBy env membership representations (es_signerAgentId (ev_statement e)) (ev_statement e)"
    and "es_signerAgentId (ev_statement e) \<in> memberIds membership"
proof -
  from assms(1) obtain message agentCard where
    m: "decodeSignedMessage (ve_identity env) r = Some message"
    "memberCard membership (sm_senderAgentId message) = Some agentCard"
    "verifySignedMessage (ve_jose env) message agentCard"
    "encodeCanonical (ve_client env) (evidenceStatementJson (ev_statement e)) = Inr (sm_body message)"
    "es_signerAgentId (ev_statement e) = sm_senderAgentId message"
    by (rule verifyStableEvidence_accepts)
  with assms(2) show "signedBy env membership representations (es_signerAgentId (ev_statement e)) (ev_statement e)"
    by (auto simp: signedBy_def list_ex_iff intro!: bexI [of _ r])
  show "es_signerAgentId (ev_statement e) \<in> memberIds membership"
    using m(2,5) memberCard_iff by (metis option.distinct(1))
qed

text \<open>An accepted evidence set: its signers are distinct members, enough of them, and each signed.\<close>

lemma verifyEvidenceSet_accepts:
  assumes "verifyEvidenceSet env representations kind membership required statementMatches = Inr verified"
  shows "distinct (map (\<lambda>e. es_signerAgentId (ev_statement e)) verified)"
    and "required \<le> length verified" and "length verified \<le> length (vm_members membership)"
    and "e \<in> set verified \<Longrightarrow> evidenceKind (ev_statement e) = kind \<and> statementMatches (ev_statement e) = Inr True \<and>
      es_signerAgentId (ev_statement e) \<in> memberIds membership \<and>
      signedBy env membership representations (es_signerAgentId (ev_statement e)) (ev_statement e)"
proof -
  from assms obtain matches where
    each: "forEachE (\<lambda>r. verifyStableEvidence env r membership None) representations = Inr verified"
    and asc: "sortedDistinct (ve_client env) (map (\<lambda>e. es_signerAgentId (ev_statement e)) verified)"
    and ms: "forEachE (\<lambda>e. if evidenceKind (ev_statement e) = kind then statementMatches (ev_statement e) else Inr False)
      verified = Inr matches" "\<not> list_ex (\<lambda>m. \<not> m) matches"
    and lens: "length representations \<le> length (vm_members membership)" "required \<le> length representations"
    unfolding verifyEvidenceSet_def by (auto simp: bindE_Inr_iff split: if_splits)
  show "distinct (map (\<lambda>e. es_signerAgentId (ev_statement e)) verified)"
    using asc unfolding sortedDistinct_def by (rule agentOrder.ascending_distinct)
  show "required \<le> length verified" "length verified \<le> length (vm_members membership)"
    using lens forEachE_length [OF each] by simp_all
  assume e: "e \<in> set verified"
  from each e obtain r where "r \<in> set representations" "verifyStableEvidence env r membership None = Inr e"
    using forEachE_source [OF each e] by blast
  then have s: "signedBy env membership representations (es_signerAgentId (ev_statement e)) (ev_statement e)"
    "es_signerAgentId (ev_statement e) \<in> memberIds membership"
    by (simp_all add: verifyStableEvidence_signedBy)
  obtain b where "b \<in> set matches"
    "(if evidenceKind (ev_statement e) = kind then statementMatches (ev_statement e) else Inr False) = Inr b"
    using forEachE_result [OF ms(1) e] by blast
  with ms(2) s show "evidenceKind (ev_statement e) = kind \<and> statementMatches (ev_statement e) = Inr True \<and>
      es_signerAgentId (ev_statement e) \<in> memberIds membership \<and>
      signedBy env membership representations (es_signerAgentId (ev_statement e)) (ev_statement e)"
    by (auto simp: list_ex_iff split: if_splits)
qed

definition signersOf :: "verified_evidence list \<Rightarrow> agent_id set" where
  "signersOf verified = (\<lambda>e. es_signerAgentId (ev_statement e)) ` set verified"

lemma signersOf_quorum:
  assumes "verifyEvidenceSet env representations kind membership required statementMatches = Inr verified"
  shows "signersOf verified \<subseteq> memberIds membership" and "required \<le> card (signersOf verified)"
proof -
  show "signersOf verified \<subseteq> memberIds membership"
    using verifyEvidenceSet_accepts(4) [OF assms] by (auto simp: signersOf_def)
  have "card (signersOf verified) = length verified"
    using verifyEvidenceSet_accepts(1) [OF assms] by (simp add: signersOf_def card_image distinct_map distinct_card)
  then show "required \<le> card (signersOf verified)"
    using verifyEvidenceSet_accepts(2) [OF assms] by simp
qed

text \<open>Two evidence sets at the quorum threshold share more members than may be faulty.\<close>

lemma evidence_sets_overlap:
  assumes wf: "wellFormedMembership membership"
    and "verifyEvidenceSet env rs kind membership (quorumThreshold (length (vm_members membership))) P = Inr v"
    and "verifyEvidenceSet env rs' kind' membership (quorumThreshold (length (vm_members membership))) P' = Inr v'"
  shows "toleratedFaults (length (vm_members membership)) < card (signersOf v \<inter> signersOf v')"
proof -
  have n: "card (memberIds membership) = length (vm_members membership)" by (rule card_memberIds [OF wf])
  have "memberIds membership \<noteq> {}" using wf by (simp add: memberIds_def wellFormedMembership_def)
  from quorum.quorums_overlap [OF finite_memberIds this signersOf_quorum(1) [OF assms(2)] signersOf_quorum(1) [OF assms(3)]]
  show ?thesis using signersOf_quorum(2) [OF assms(2)] signersOf_quorum(2) [OF assms(3)] by (simp add: n)
qed

end
