(* ===== verification/Records_Sample.thy ===== *)
theory Records_Sample
  imports Records_Quorum
begin

text \<open>
  A concrete conversation on which the witnesses of the record properties run: two members,
  the base64url codec of RFC 4648, and canonical texts of one character read off a table.
\<close>

definition memberA :: agent_id where "memberA = ''agt_AAAAAAAAAAAAAAAAAAAAAA''"
definition memberB :: agent_id where "memberB = ''agt_BAAAAAAAAAAAAAAAAAAAAA''"

definition hashText :: "string \<Rightarrow> string" where
  "hashText pre = pre @ b64_encode rfc4648 (replicate 32 0)"

definition otherHashText :: "string \<Rightarrow> string" where
  "otherHashText pre = pre @ b64_encode rfc4648 (4 # replicate 31 0)"

definition zeroMessageId :: message_id where "zeroMessageId = ''msg_AAAAAAAAAAAAAAAAAAAAAA''"

definition sampleRequest :: catch_up_request where
  "sampleRequest = \<lparr>cr_conversationId = hashText ''cnv_'', cr_membershipHash = hashText ''mbr_'', cr_requesterAgentId = memberA,
     cr_knownRecordHash = Some (hashText ''rch_''), cr_knownAnchorHash = Some (hashText ''anc_'')\<rparr>"

definition statementTable :: "(evidence_statement \<times> char) list" where
  "statementTable =
     [(ActionSignature memberA (hashText ''ach_''), CHR ''a''), (ActionSignature memberB (hashText ''ach_''), CHR ''b''),
      (ActionSignature memberA (otherHashText ''ach_''), CHR ''c''), (ActionSignature memberB (otherHashText ''ach_''), CHR ''d''),
      (DurabilityVote memberA (hashText ''cnv_'') (hashText ''mbr_'') (hashText ''rch_''), CHR ''e''),
      (DurabilityVote memberB (hashText ''cnv_'') (hashText ''mbr_'') (hashText ''rch_''), CHR ''f''),
      (CatchUpAttestation memberB sampleRequest CertifiedRecordItem (Some (hashText ''rch_'')) True, CHR ''g'')]"

definition payloadOf :: "agent_id \<Rightarrow> char \<Rightarrow> json" where
  "payloadOf signer c = signedMessagePayloadJson WIRE_VERSION signer (hashText ''acd_'') [signer] zeroMessageId
     (b64_encode rfc4648 (utf8Bytes [c]))"

text \<open>The payload that carries the statement with the text \<open>c\<close> has the text after \<open>c\<close>'s upper case.\<close>

definition payloadChar :: "char \<Rightarrow> char" where
  "payloadChar c = char_of (of_char c - 32 :: nat)"

definition sampleKey :: string where
  "sampleKey = b64_encode rfc4648 (9 # replicate 31 0)"

definition cardPayloadOf :: "agent_id \<Rightarrow> string \<Rightarrow> json" where
  "cardPayloadOf agent name = JObj
     [(''kind'', JStr ''agentCard''), (''sharnessVersion'', JStr WIRE_VERSION), (''agentId'', JStr agent),
      (''principalId'', JStr ''prn_AAAAAAAAAAAAAAAAAAAAAA''), (''agentName'', JStr name),
      (''publicKey'', JObj [(''crv'', JStr ''Ed25519''), (''kty'', JStr ''OKP''), (''x'', JStr sampleKey)]),
      (''issuedAt'', JStr ''2026-01-01T00:00:00Z'')]"

definition cardHeader :: json where
  "cardHeader = JObj [(''alg'', JStr ''Ed25519''), (''kid'', JStr ''kid''), (''typ'', JStr AGENT_CARD_TYPE)]"

definition jsonTable :: "(json \<times> string) list" where
  "jsonTable = (protectedHeaderJson ''kid'', ''h'') #
     map (\<lambda>(s, c). (evidenceStatementJson s, [c])) statementTable @
     map (\<lambda>(s, c). (payloadOf (es_signerAgentId s) c, [payloadChar c])) statementTable @
     [(cardHeader, ''3''), (cardPayloadOf memberA ''alice'', ''1''), (cardPayloadOf memberB ''bob'', ''2'')]"

definition sampleIdentity :: identity_environment where
  "sampleIdentity =
     \<lparr>ie_base64url = rfc4648,
      ie_parseJson = (\<lambda>t. map_of (map (\<lambda>(v, u). (u, v)) jsonTable) t),
      ie_canonicalize = (\<lambda>v. Some (case map_of jsonTable v of None \<Rightarrow> ''x'' | Some t \<Rightarrow> t))\<rparr>"

definition sampleClient :: client_environment where
  "sampleClient = \<lparr>ce_identity = sampleIdentity, ce_sha256 = (\<lambda>_. replicate 32 0)\<rparr>"

definition sampleVerification :: "unit verification_environment" where
  "sampleVerification = \<lparr>ve_client = sampleClient,
     ve_jose = \<lparr>jv_thumbprintUri = (\<lambda>_. Some ''kid''), jv_importKey = (\<lambda>_. Some ()), jv_generalVerify = (\<lambda>_ _. True)\<rparr>\<rparr>"

definition representationOf :: "char \<Rightarrow> general_jws" where
  "representationOf c =
     \<lparr>gj_payload = b64_encode rfc4648 (utf8Bytes [payloadChar c]), gj_protected = b64_encode rfc4648 (utf8Bytes ''h''),
      gj_signature = b64_encode rfc4648 (replicate 64 0)\<rparr>"

definition evidenceOf :: "char \<Rightarrow> json" where
  "evidenceOf c = generalJwsJson (representationOf c)"

definition cardOf :: "agent_id \<Rightarrow> agent_card" where
  "cardOf agent = \<lparr>ac_agentId = agent, ac_publicKey = ''k'', ac_digest = hashText ''acd_'', ac_principalId = ''p'',
     ac_agentName = ''name'', ac_issuedAt = ''t'', ac_wireVersion = WIRE_VERSION,
     ac_representation = representationOf (CHR ''a''), ac_protectedHeader = \<lparr>ph_alg = [], ph_kid = [], ph_typ = []\<rparr>\<rparr>"

definition sampleMembership :: verified_membership where
  "sampleMembership = \<lparr>vm_descriptor = \<lparr>md_conversationId = hashText ''cnv_'', md_members = []\<rparr>,
     vm_hash = hashText ''mbr_'', vm_members = [cardOf memberA, cardOf memberB]\<rparr>"

lemma sample_ids:
  "isAgentId rfc4648 memberA" "isAgentId rfc4648 memberB" "isMessageId rfc4648 zeroMessageId"
proof -
  have f: "CHR ''A'' \<in> set (finalCharacters rfc4648 2)"
    unfolding finalCharacters_def by (auto simp: rfc4648_def rfcEncode_zero intro!: bexI [of _ 0])
  show "isAgentId rfc4648 memberA" "isAgentId rfc4648 memberB" "isMessageId rfc4648 zeroMessageId"
    using f by (simp_all add: isAgentId_def isMessageId_def canonicalIdentifier_def memberA_def memberB_def
        zeroMessageId_def startsWith_def inCharRange_def Let_def)
qed

lemma zero_encodings:
  "b64_encode rfc4648 (replicate 16 0) = ''AAAAAAAAAAAAAAAAAAAAAA''"
  "b64_encode rfc4648 (replicate 32 0) = replicate 43 (CHR ''A'')"
  "b64_encode rfc4648 (4 # replicate 31 0) = CHR ''B'' # replicate 42 (CHR ''A'')"
  by code_simp+

section \<open>The evidence of the sample\<close>

lemmas lawful = rfc4648_laws encoded_ascii [OF rfc4648_laws] decodeCanonicalBase64Url_encoded [OF rfc4648_laws]

lemma maximum_one:
  assumes laws: "base64urlLaws b64" and short: "\<And>v. \<exists>t. canonicalize v = Some t \<and> length t = 1"
  shows "MAXIMUM_ENCODED_BYTES b64 canonicalize = Some 1"
proof -
  have enc: "visitJsonValue v 0 \<Longrightarrow> \<exists>t. encodeCanonicalJson canonicalize v = Some t \<and> length t = 1" for v
    using short [of v] by (auto simp: encodeCanonicalJson_def length_utf8Bytes)
  note ascii = encoded_ascii [OF laws]
  have w: "hasWellFormedUnicode (s @ b64_encode b64 bs)" if "asciiText s" for s bs
    using that ascii by (intro hasWellFormedUnicode_ascii) simp
  have v: "hasWellFormedUnicode (b64_encode b64 bs)" for bs
    using ascii by (intro hasWellFormedUnicode_ascii)
  have c: "hasWellFormedUnicode WIRE_VERSION" "hasWellFormedUnicode SIGNED_MESSAGE_TYPE"
    by (intro hasWellFormedUnicode_ascii; simp add: WIRE_VERSION_def SIGNED_MESSAGE_TYPE_def)+
  have u: "asciiText s \<Longrightarrow> hasWellFormedUnicode s" for s by (rule hasWellFormedUnicode_ascii)
  have "visitJsonValue (signedMessagePayloadJson WIRE_VERSION (''agt_'' @ b64_encode b64 a) (''acd_'' @ b64_encode b64 d)
          (replicate n (''agt_'' @ b64_encode b64 a)) (''msg_'' @ b64_encode b64 a) (b64_encode b64 e)) 0" for a d e n
    unfolding signedMessagePayloadJson_def
    by (auto simp: MAXIMUM_CONTAINER_DEPTH_def list_all_iff c v ascii intro!: w u)
  moreover have "visitJsonValue (protectedHeaderJson (''urn:ietf:params:oauth:jwk-thumbprint:sha-256:'' @ b64_encode b64 d)) 0" for d
    unfolding protectedHeaderJson_def
    by (auto simp: MAXIMUM_CONTAINER_DEPTH_def list_all_iff c ascii intro!: w u)
  moreover have "visitJsonValue (generalJwsJson \<lparr>gj_payload = b64_encode b64 p, gj_protected = b64_encode b64 q,
           gj_signature = b64_encode b64 r\<rparr>) 0" for p q r
    unfolding generalJwsJson_def
    by (auto simp: MAXIMUM_CONTAINER_DEPTH_def v intro!: u)
  ultimately show ?thesis
    unfolding MAXIMUM_ENCODED_BYTES_def Let_def by (smt (verit) enc bind.bind_lunit option.map(2))
qed

lemma table_short: "t \<in> snd ` set jsonTable \<Longrightarrow> length t = 1"
  by (auto simp: jsonTable_def statementTable_def)

lemma sample_short: "\<exists>t. ie_canonicalize sampleIdentity v = Some t \<and> length t = 1"
proof (cases "map_of jsonTable v")
  case None
  then show ?thesis by (simp add: sampleIdentity_def)
next
  case (Some t)
  then have "t \<in> snd ` set jsonTable" by (force dest: map_of_SomeD)
  then show ?thesis using Some table_short by (simp add: sampleIdentity_def)
qed

lemma records_maximum: "MAXIMUM_ENCODED_BYTES rfc4648 (ie_canonicalize sampleIdentity) = Some 1"
  using maximum_one [OF rfc4648_laws sample_short] .


text \<open>Every statement of the table is the body of evidence that the sample accepts.\<close>

lemma distinct_signers: "memberA \<noteq> memberB"
  by (simp add: memberA_def memberB_def)

lemma sample_texts:
  "ie_canonicalize sampleIdentity (protectedHeaderJson ''kid'') = Some ''h''"
  "ie_parseJson sampleIdentity ''h'' = Some (protectedHeaderJson ''kid'')"
  by (simp_all add: sampleIdentity_def jsonTable_def)

lemma encoded_inject: "b64_encode rfc4648 bs = b64_encode rfc4648 cs \<longleftrightarrow> bs = cs"
  by (metis lawful(3) option.inject)

lemma byte_of_char_inject: "(of_nat (of_char c) :: byte) = of_nat (of_char d) \<longleftrightarrow> c = d"
proof -
  have "char_of (unat (of_nat (of_char e) :: byte)) = e" for e :: char by (simp add: unat_of_nat)
  then show ?thesis by metis
qed

lemma payloadOf_inject: "payloadOf a c = payloadOf b d \<longleftrightarrow> a = b \<and> c = d"
  by (auto simp: payloadOf_def signedMessagePayloadJson_def encoded_inject utf8Bytes_def byte_of_char_inject)

lemma distinct_hashes: "hashText pre \<noteq> otherHashText pre"
  by (auto simp: hashText_def otherHashText_def encoded_inject dest: arg_cong [of _ _ hd])

lemma payloadChars:
  "payloadChar (CHR ''a'') = CHR ''A''" "payloadChar (CHR ''b'') = CHR ''B''" "payloadChar (CHR ''c'') = CHR ''C''"
  "payloadChar (CHR ''d'') = CHR ''D''" "payloadChar (CHR ''e'') = CHR ''E''" "payloadChar (CHR ''f'') = CHR ''F''"
  "payloadChar (CHR ''g'') = CHR ''G''"
  by code_simp+

lemma payloadOf_other: "payloadOf a c \<noteq> evidenceStatementJson s" "payloadOf a c \<noteq> protectedHeaderJson k"
  "evidenceStatementJson s \<noteq> protectedHeaderJson k"
  by (cases s; simp add: payloadOf_def signedMessagePayloadJson_def versioned_def protectedHeaderJson_def)+

lemma evidenceStatementJson_inject:
  "evidenceStatementJson (ActionSignature a h) = evidenceStatementJson (ActionSignature b k) \<longleftrightarrow> a = b \<and> h = k"
  "evidenceStatementJson (DurabilityVote a c m r) = evidenceStatementJson (DurabilityVote b d n s) \<longleftrightarrow>
     a = b \<and> c = d \<and> m = n \<and> r = s"
  "evidenceStatementJson (ActionSignature a h) \<noteq> evidenceStatementJson (DurabilityVote b c m r)"
  "evidenceStatementJson (DurabilityVote b c m r) \<noteq> evidenceStatementJson (ActionSignature a h)"
  "evidenceStatementJson (ActionSignature a h) \<noteq> evidenceStatementJson (CatchUpAttestation b q g i j)"
  "evidenceStatementJson (DurabilityVote b c m n) \<noteq> evidenceStatementJson (CatchUpAttestation a q g i j)"
  "evidenceStatementJson (CatchUpAttestation b q g i j) \<noteq> evidenceStatementJson (ActionSignature a h)"
  "evidenceStatementJson (CatchUpAttestation a q g i j) \<noteq> evidenceStatementJson (DurabilityVote b c m n)"
  by (simp_all add: versioned_def)

lemma cards_distinct:
  "cardPayloadOf a n \<noteq> payloadOf b c" "cardPayloadOf a n \<noteq> evidenceStatementJson s"
  "cardPayloadOf a n \<noteq> protectedHeaderJson k" "cardPayloadOf a n \<noteq> cardHeader"
  "cardHeader \<noteq> payloadOf b c" "cardHeader \<noteq> evidenceStatementJson s" "cardHeader \<noteq> protectedHeaderJson k"
  "cardPayloadOf a n = cardPayloadOf b m \<longleftrightarrow> a = b \<and> n = m"
  by (cases s; simp add: cardPayloadOf_def payloadOf_def signedMessagePayloadJson_def versioned_def protectedHeaderJson_def
      cardHeader_def AGENT_CARD_TYPE_def SIGNED_MESSAGE_TYPE_def)+

lemmas table_distinct = payloadOf_inject payloadOf_other payloadOf_other [symmetric] evidenceStatementJson_inject
  distinct_signers distinct_signers [symmetric] distinct_hashes distinct_hashes [symmetric]

lemma statement_texts:
  "(s, c) \<in> set statementTable \<Longrightarrow>
   ie_canonicalize sampleIdentity (evidenceStatementJson s) = Some [c] \<and> ie_parseJson sampleIdentity [c] = Some (evidenceStatementJson s)"
  by (simp add: statementTable_def, elim disjE conjE;
      simp add: sampleIdentity_def jsonTable_def statementTable_def table_distinct payloadChars del: evidenceStatementJson.simps)

lemma payload_texts:
  "(s, c) \<in> set statementTable \<Longrightarrow>
   ie_canonicalize sampleIdentity (payloadOf (es_signerAgentId s) c) = Some [payloadChar c] \<and>
   ie_parseJson sampleIdentity [payloadChar c] = Some (payloadOf (es_signerAgentId s) c)"
  by (simp add: statementTable_def, elim disjE conjE;
      simp add: sampleIdentity_def jsonTable_def statementTable_def table_distinct payloadChars del: evidenceStatementJson.simps)


lemma sample_decodes_text: "asciiText t \<Longrightarrow> decodeText (utf8Bytes t) = Some t" if "length t = 1"
  using that utf8Decode_ascii [of t] by (cases t) (auto simp: decodeText_def utf8Bytes_def)

lemma statement_char: "(s, c) \<in> set statementTable \<Longrightarrow> asciiText [c] \<and> asciiText [payloadChar c]"
  by (simp add: statementTable_def, elim disjE conjE; simp add: payloadChars)

lemma statement_signer: "(s, c) \<in> set statementTable \<Longrightarrow> es_signerAgentId s = memberA \<or> es_signerAgentId s = memberB"
  by (auto simp: statementTable_def)

lemma ids_ascii: "asciiText memberA" "asciiText memberB" "asciiText zeroMessageId" "asciiText pre \<Longrightarrow> asciiText (hashText pre)"
  by (simp_all add: memberA_def memberB_def zeroMessageId_def hashText_def lawful)

lemma sample_digest: "isAgentCardDigest rfc4648 (hashText ''acd_'')"
proof -
  have "CHR ''A'' \<in> set (finalCharacters rfc4648 4)"
    unfolding finalCharacters_def by (auto simp: rfc4648_def rfcEncode_zero intro!: bexI [of _ 0])
  then show ?thesis
    by (simp add: isAgentCardDigest_def canonicalIdentifier_def hashText_def zero_encodings startsWith_def inCharRange_def
        Let_def list_all_iff)
qed

lemma visit_payload:
  assumes "asciiText signer"
  shows "visitJsonValue (payloadOf signer c) 0"
proof -
  have "hasWellFormedUnicode WIRE_VERSION" by (intro hasWellFormedUnicode_ascii) (simp add: WIRE_VERSION_def)
  then show ?thesis unfolding payloadOf_def signedMessagePayloadJson_def using assms
    by (auto simp: MAXIMUM_CONTAINER_DEPTH_def ids_ascii lawful intro!: hasWellFormedUnicode_ascii)
qed

lemma visit_header: "visitJsonValue (protectedHeaderJson ''kid'') 0"
  unfolding protectedHeaderJson_def
  by (auto simp: MAXIMUM_CONTAINER_DEPTH_def SIGNED_MESSAGE_TYPE_def intro!: hasWellFormedUnicode_ascii)

lemma visit_representation: "visitJsonValue (evidenceOf c) 0"
  unfolding evidenceOf_def generalJwsJson_def representationOf_def
  by (auto simp: MAXIMUM_CONTAINER_DEPTH_def lawful intro!: hasWellFormedUnicode_ascii)

lemma payload_decodes:
  assumes "isAgentId rfc4648 signer"
  shows "decodePayload rfc4648 (payloadOf signer c) =
    Some \<lparr>sp_sharnessVersion = WIRE_VERSION, sp_senderAgentId = signer, sp_agentCardDigest = hashText ''acd_'',
      sp_recipientAgentIds = [signer], sp_messageId = zeroMessageId, sp_body = b64_encode rfc4648 (utf8Bytes [c])\<rparr>"
proof -
  have "closedObject [''kind'', ''sharnessVersion'', ''senderAgentId'', ''agentCardDigest'',
      ''recipientAgentIds'', ''messageId'', ''body''] (payloadOf signer c) =
    Some [JStr ''signedMessage'', JStr WIRE_VERSION, JStr signer, JStr (hashText ''acd_''),
      JArr [JStr signer], JStr zeroMessageId, JStr (b64_encode rfc4648 (utf8Bytes [c]))]"
    by (simp add: payloadOf_def signedMessagePayloadJson_def closedObject_def)
  then show ?thesis
    using assms sample_ids sample_digest
    by (simp add: decodePayload_def asArray_def HISTORY_WIRE_VERSIONS_def LIVE_WIRE_VERSIONS_def
        isRecipientAgentIds_def MAXIMUM_RECIPIENTS_def recipientsAreCanonical_def isOpaqueBody_def
        lawful MAXIMUM_BODY_BYTES_def utf8Bytes_def)
qed

definition messageOf :: "agent_id \<Rightarrow> char \<Rightarrow> signed_message" where
  "messageOf signer c =
     \<lparr>sm_senderAgentId = signer, sm_agentCardDigest = hashText ''acd_'', sm_recipientAgentIds = [signer],
      sm_messageId = zeroMessageId, sm_body = utf8Bytes [c], sm_wireVersion = WIRE_VERSION,
      sm_representation = representationOf c,
      sm_protectedHeader = \<lparr>ph_alg = ''Ed25519'', ph_kid = ''kid'', ph_typ = SIGNED_MESSAGE_TYPE\<rparr>, sm_encodedByteLength = 1\<rparr>"

lemma sample_selectors [simp]:
  "ie_base64url sampleIdentity = rfc4648" "ce_identity sampleClient = sampleIdentity"
  "ce_sha256 sampleClient bs = replicate 32 0" "ve_client sampleVerification = sampleClient"
  by (simp_all add: sampleIdentity_def sampleClient_def sampleVerification_def)

lemma representation_decodes: "decodeGeneralJws rfc4648 (evidenceOf c) = Some (representationOf c)"
proof -
  have "hasCanonicalEd25519SignatureEncoding (replicate 64 0)" by code_simp
  then have "isGeneralJws rfc4648 (representationOf c)"
    by (simp add: isGeneralJws_def representationOf_def lawful)
  then show ?thesis
    by (simp add: decodeGeneralJws_def evidenceOf_def generalJwsJson_def closedObject_def Let_def)
       (simp add: representationOf_def)
qed

lemma parse_text:
  assumes "ie_canonicalize sampleIdentity v = Some t" "ie_parseJson sampleIdentity t = Some v"
    and "visitJsonValue v 0" "asciiText t" "length t = 1"
  shows "decodeCanonicalJson sampleIdentity (utf8Bytes t) = Some v"
  using assms by (simp add: parseCanonicalJson_def sample_decodes_text)

lemma message_decodes:
  assumes t: "(s, c) \<in> set statementTable"
  shows "decodeSignedMessage sampleIdentity (evidenceOf c) = Some (messageOf (es_signerAgentId s) c)"
proof -
  let ?a = "es_signerAgentId s"
  have id: "isAgentId rfc4648 ?a" "asciiText ?a"
    using statement_signer [OF t] sample_ids(1,2) ids_ascii(1,2) by metis+
  have payload: "decodeCanonicalJson sampleIdentity (utf8Bytes [payloadChar c]) = Some (payloadOf ?a c)"
    using parse_text [OF conjunct1 [OF payload_texts [OF t]] conjunct2 [OF payload_texts [OF t]] visit_payload [OF id(2)]
        conjunct2 [OF statement_char [OF t]]] by (simp only: length_Cons list.size)
  have header: "decodeCanonicalJson sampleIdentity (utf8Bytes ''h'') = Some (protectedHeaderJson ''kid'')"
    using parse_text [OF sample_texts visit_header] by simp
  have hd: "decodeProtectedHeader (protectedHeaderJson ''kid'') =
      Some \<lparr>ph_alg = ''Ed25519'', ph_kid = ''kid'', ph_typ = SIGNED_MESSAGE_TYPE\<rparr>"
    by (simp add: decodeProtectedHeader_def protectedHeaderJson_def closedObject_def)
  obtain e where e: "encodeCanonicalJson (ie_canonicalize sampleIdentity) (evidenceOf c) = Some e" "length e = 1"
    using sample_short [of "evidenceOf c"] visit_representation [of c] by (auto simp: encodeCanonicalJson_def length_utf8Bytes)
  have gj: "decodeCanonicalBase64Url rfc4648 (gj_payload (representationOf c)) = Some (utf8Bytes [payloadChar c])"
    "decodeCanonicalBase64Url rfc4648 (gj_protected (representationOf c)) = Some (utf8Bytes ''h'')"
    by (simp_all add: representationOf_def lawful del: utf8Bytes_def)
  have "decodeRepresentation sampleIdentity (representationOf c) = Some (messageOf ?a c)"
    using e by (simp add: decodeRepresentation_def Let_def gj payload header hd payload_decodes [OF id(1)] lawful
        records_maximum evidenceOf_def messageOf_def)
  then show ?thesis by (simp add: decodeSignedMessage_def representation_decodes)
qed

lemma evidence_ids:
  "isCanonicalIdentifier rfc4648 pre (hashText pre)" "isCanonicalIdentifier rfc4648 pre (otherHashText pre)"
  by (simp_all add: isCanonicalIdentifier_def hashText_def otherHashText_def startsWith_def lawful HASH_BYTE_LENGTH_def)

lemma closedObject_excess: "n \<in> set (map fst ms) \<Longrightarrow> n \<notin> set names \<Longrightarrow> closedObject names (JObj ms) = None"
  by (auto simp: closedObject_def)

lemma action_signature_decodes:
  assumes "isAgentId rfc4648 a" "isCanonicalIdentifier rfc4648 ''ach_'' h"
  shows "decodeEvidenceStatement sampleClient (evidenceStatementJson (ActionSignature a h)) = Some (ActionSignature a h)"
proof -
  have "closedObject [''sharnessVersion'', ''kind'', ''signerAgentId'', ''actionHash''] (evidenceStatementJson (ActionSignature a h)) =
      Some [JStr WIRE_VERSION, JStr ''action_signature'', JStr a, JStr h]"
    by (simp add: closedObject_def versioned_def)
  with assms show ?thesis
    by (simp add: decodeEvidenceStatement_def decodeActionSignature_def isVersioned_def HISTORY_WIRE_VERSIONS_def
        LIVE_WIRE_VERSIONS_def asAgentId_def asIdentifier_def del: evidenceStatementJson.simps)
qed

lemma durability_vote_decodes:
  assumes "isAgentId rfc4648 a" "isCanonicalIdentifier rfc4648 ''cnv_'' c" "isCanonicalIdentifier rfc4648 ''mbr_'' m"
    "isCanonicalIdentifier rfc4648 ''rch_'' h"
  shows "decodeEvidenceStatement sampleClient (evidenceStatementJson (DurabilityVote a c m h)) = Some (DurabilityVote a c m h)"
proof -
  have "closedObject [''sharnessVersion'', ''kind'', ''signerAgentId'', ''conversationId'', ''membershipHash'', ''recordHash'']
        (evidenceStatementJson (DurabilityVote a c m h)) =
      Some [JStr WIRE_VERSION, JStr ''durability_vote'', JStr a, JStr c, JStr m, JStr h]"
    by (simp add: closedObject_def versioned_def)
  moreover have "closedObject [''sharnessVersion'', ''kind'', ''signerAgentId'', ''actionHash'']
      (evidenceStatementJson (DurabilityVote a c m h)) = None"
    unfolding evidenceStatementJson.simps versioned_def
    by (rule closedObject_excess [where n = "''conversationId''"]) simp_all
  ultimately show ?thesis using assms
    by (simp add: decodeEvidenceStatement_def decodeActionSignature_def decodeDurabilityVote_def isVersioned_def
        HISTORY_WIRE_VERSIONS_def LIVE_WIRE_VERSIONS_def asAgentId_def asIdentifier_def del: evidenceStatementJson.simps)
qed

lemma attestation_decodes:
  "decodeEvidenceStatement sampleClient (evidenceStatementJson (CatchUpAttestation memberB sampleRequest CertifiedRecordItem
     (Some (hashText ''rch_'')) True)) =
   Some (CatchUpAttestation memberB sampleRequest CertifiedRecordItem (Some (hashText ''rch_'')) True)"
proof -
  let ?s = "evidenceStatementJson (CatchUpAttestation memberB sampleRequest CertifiedRecordItem (Some (hashText ''rch_'')) True)"
  have "closedObject [''sharnessVersion'', ''kind'', ''signerAgentId'', ''request'', ''itemKind'', ''itemHash'', ''hasMore''] ?s =
      Some [JStr WIRE_VERSION, JStr ''catch_up_attestation'', JStr memberB, catchUpRequestJson sampleRequest,
        JStr ''certified_record'', JStr (hashText ''rch_''), JBool True]"
    by (simp add: closedObject_def versioned_def nullOr_def)
  moreover have "closedObject [''sharnessVersion'', ''kind'', ''conversationId'', ''membershipHash'',
      ''requesterAgentId'', ''knownRecordHash'', ''knownAnchorHash''] (catchUpRequestJson sampleRequest) =
      Some [JStr WIRE_VERSION, JStr ''catch_up_request'', JStr (hashText ''cnv_''), JStr (hashText ''mbr_''), JStr memberA,
        JStr (hashText ''rch_''), JStr (hashText ''anc_'')]"
    by (simp add: closedObject_def versioned_def nullOr_def catchUpRequestJson_def sampleRequest_def)
  then have "decodeCatchUpRequest sampleClient (catchUpRequestJson sampleRequest) = Some sampleRequest"
    using sample_ids evidence_ids
    by (simp add: decodeCatchUpRequest_def isVersioned_def HISTORY_WIRE_VERSIONS_def LIVE_WIRE_VERSIONS_def asAgentId_def
        asIdentifier_def asNullOr_def) (simp add: sampleRequest_def)
  moreover have "closedObject [''sharnessVersion'', ''kind'', ''signerAgentId'', ''actionHash''] ?s = None"
    "closedObject [''sharnessVersion'', ''kind'', ''signerAgentId'', ''conversationId'', ''membershipHash'', ''recordHash''] ?s = None"
    "closedObject [''sharnessVersion'', ''kind'', ''signerAgentId'', ''anchorHash'', ''reanchor''] ?s = None"
    unfolding evidenceStatementJson.simps versioned_def
    by (rule closedObject_excess [where n = "''itemKind''"]; simp)+
  ultimately show ?thesis using sample_ids evidence_ids
    by (simp add: decodeEvidenceStatement_def decodeActionSignature_def decodeDurabilityVote_def decodeReanchorVote_def
        decodeCatchUpAttestation_def isVersioned_def HISTORY_WIRE_VERSIONS_def LIVE_WIRE_VERSIONS_def asAgentId_def
        asItemKind_def asNullOr_def asBool_def del: evidenceStatementJson.simps)
qed

lemma statement_decodes:
  assumes t: "(s, c) \<in> set statementTable"
  shows "decodeEvidenceStatement sampleClient (evidenceStatementJson s) = Some s"
  using t
  by (simp add: statementTable_def, elim disjE conjE;
      simp only: action_signature_decodes durability_vote_decodes attestation_decodes sample_ids evidence_ids)

lemma encode_statement:
  "(s, c) \<in> set statementTable \<Longrightarrow> encodeCanonical sampleClient (evidenceStatementJson s) = Inr (utf8Bytes [c])"
  using statement_texts by (simp add: encodeCanonical_def)

lemma statement_canonical:
  "(s, c) \<in> set statementTable \<Longrightarrow> decodeCanonicalEvidence sampleClient (utf8Bytes [c]) = Inr s"
  using statement_texts [of s c] statement_char [of s c] sample_decodes_text [of "[c]"] statement_decodes [of s c]
  by (simp add: decodeCanonicalEvidence_def encode_statement)

lemma signer_bytes: "(s, c) \<in> set statementTable \<Longrightarrow> \<exists>bs. decodeAgentIdBytes sampleClient (es_signerAgentId s) = Inr bs"
proof -
  have "decodeAgentIdBytes sampleClient (''agt_'' @ b64_encode rfc4648 (replicate 16 0)) = Inr (replicate 16 0)"
    "decodeAgentIdBytes sampleClient (''agt_'' @ b64_encode rfc4648 (4 # replicate 15 0)) = Inr (4 # replicate 15 0)"
    by (simp_all add: decodeAgentIdBytes_def lawful)
  moreover have "memberA = ''agt_'' @ b64_encode rfc4648 (replicate 16 0)"
    "memberB = ''agt_'' @ b64_encode rfc4648 (4 # replicate 15 0)"
    unfolding memberA_def memberB_def by code_simp+
  ultimately show "(s, c) \<in> set statementTable \<Longrightarrow> ?thesis" using statement_signer [of s c] by metis
qed

lemma statement_messageId: "(s, c) \<in> set statementTable \<Longrightarrow> deriveEvidenceMessageId sampleClient s = Inr zeroMessageId"
  using signer_bytes [of s c] sample_ids(3) encode_statement [of s c]
  by (auto simp: deriveEvidenceMessageId_def Let_def zero_encodings zeroMessageId_def)

lemma sample_evidence:
  assumes t: "(s, c) \<in> set statementTable"
  shows "verifyStableEvidence sampleVerification (evidenceOf c) sampleMembership None =
    Inr \<lparr>ev_message = messageOf (es_signerAgentId s) c, ev_statement = s\<rparr>"
proof -
  have m: "memberCard sampleMembership (es_signerAgentId s) = Some (cardOf (es_signerAgentId s))"
    using statement_signer [OF t] distinct_signers
    by (auto simp: memberCard_def sampleMembership_def cardOf_def)
  have v: "verifySignedMessage (ve_jose sampleVerification) (messageOf a c) (cardOf a)" for a
    by (simp add: verifySignedMessage_def sampleVerification_def cardOf_def messageOf_def verifySignature_def)
  have f: "sm_senderAgentId (messageOf a c) = a" "sm_recipientAgentIds (messageOf a c) = [a]"
    "sm_body (messageOf a c) = utf8Bytes [c]" "sm_messageId (messageOf a c) = zeroMessageId" for a
    by (simp_all add: messageOf_def)
  show ?thesis
    by (simp add: verifyStableEvidence_def message_decodes [OF t] m v f statement_canonical [OF t] encode_statement [OF t]
        statement_messageId [OF t])
qed

section \<open>Certificates and records of the sample\<close>

lemma sample_set:
  assumes "(s, c) \<in> set statementTable" "(t, d) \<in> set statementTable"
    and "es_signerAgentId s = memberA" "es_signerAgentId t = memberB"
    and "evidenceKind s = kind" "evidenceKind t = kind" "P s = Inr True" "P t = Inr True" "required \<le> 2"
  shows "verifyEvidenceSet sampleVerification [evidenceOf c, evidenceOf d] kind sampleMembership required P =
    Inr [\<lparr>ev_message = messageOf memberA c, ev_statement = s\<rparr>, \<lparr>ev_message = messageOf memberB d, ev_statement = t\<rparr>]"
proof -
  have "compareAgentIds rfc4648 memberA memberB < 0" by code_simp
  moreover have "length (vm_members sampleMembership) = 2" by (simp add: sampleMembership_def)
  ultimately show ?thesis using assms sample_evidence [OF assms(1)] sample_evidence [OF assms(2)]
    by (simp add: verifyEvidenceSet_def sortedDistinct_def)
qed

lemma sampleMembership_wf: "wellFormedMembership sampleMembership"
  using distinct_signers by (simp add: wellFormedMembership_def sampleMembership_def cardOf_def)

lemma sampleMembership_length: "length (vm_members sampleMembership) = 2"
  by (simp add: sampleMembership_def)

definition certificateOf :: "action_hash \<Rightarrow> char \<Rightarrow> char \<Rightarrow> action_certificate" where
  "certificateOf h c d = \<lparr>acert_actionHash = h, acert_signatures = [evidenceOf c, evidenceOf d]\<rparr>"

definition sampleIntent :: "json \<Rightarrow> post_intent" where
  "sampleIntent content = \<lparr>pi_conversationId = hashText ''cnv_'', pi_membershipHash = hashText ''mbr_'',
     pi_authorAgentId = memberA, pi_postId = ''pst'', pi_content = content\<rparr>"

definition sampleAnchor :: genesis_anchor_body where
  "sampleAnchor = \<lparr>ga_conversationId = hashText ''cnv_'', ga_membershipHash = hashText ''mbr_'', ga_routerInstanceId = ''rti''\<rparr>"

definition sampleGenesis :: genesis_action where
  "sampleGenesis = \<lparr>gc_conversationId = hashText ''cnv_'', gc_membership = vm_descriptor sampleMembership, gc_anchor = sampleAnchor,
     gc_postIntent = sampleIntent JNull, gc_postIntentHash = hashText ''pit_''\<rparr>"

definition samplePost :: "json \<Rightarrow> post_action" where
  "samplePost content = \<lparr>pc_conversationId = hashText ''cnv_'', pc_membershipHash = hashText ''mbr_'',
     pc_anchorHash = hashText ''anc_'', pc_previousRecordHash = hashText ''rch_'', pc_postIntent = sampleIntent content,
     pc_postIntentHash = hashText ''pit_''\<rparr>"

definition sampleRecord :: "json \<Rightarrow> certified_record" where
  "sampleRecord content =
     \<lparr>crec_actionCertifiedRecord =
        \<lparr>acr_recordHash = hashText ''rch_'',
         acr_recordCore = PostRecordCore (hashText ''mbr_'') (hashText ''anc_'') (samplePost content) (hashText ''ach_''),
         acr_routerAnchor = GenesisAnchor sampleAnchor,
         acr_actionCertificate = certificateOf (hashText ''ach_'') (CHR ''a'') (CHR ''b'')\<rparr>,
      crec_durabilityCertificate = \<lparr>dcert_recordHash = hashText ''rch_'', dcert_votes = [evidenceOf (CHR ''e''), evidenceOf (CHR ''f'')]\<rparr>\<rparr>"

lemma sample_action_evidence:
  "required \<le> 2 \<Longrightarrow> verifyEvidenceSet sampleVerification [evidenceOf (CHR ''a''), evidenceOf (CHR ''b'')] ActionSignatureKind
     sampleMembership required (actionSignatureMatches (hashText ''ach_'')) =
   Inr [\<lparr>ev_message = messageOf memberA (CHR ''a''), ev_statement = ActionSignature memberA (hashText ''ach_'')\<rparr>,
        \<lparr>ev_message = messageOf memberB (CHR ''b''), ev_statement = ActionSignature memberB (hashText ''ach_'')\<rparr>]"
  "required \<le> 2 \<Longrightarrow> verifyEvidenceSet sampleVerification [evidenceOf (CHR ''c''), evidenceOf (CHR ''d'')] ActionSignatureKind
     sampleMembership required (actionSignatureMatches (otherHashText ''ach_'')) =
   Inr [\<lparr>ev_message = messageOf memberA (CHR ''c''), ev_statement = ActionSignature memberA (otherHashText ''ach_'')\<rparr>,
        \<lparr>ev_message = messageOf memberB (CHR ''d''), ev_statement = ActionSignature memberB (otherHashText ''ach_'')\<rparr>]"
  by (rule sample_set; simp add: statementTable_def actionSignatureMatches_def)+

lemma sample_durability_evidence:
  "verifyEvidenceSet sampleVerification [evidenceOf (CHR ''e''), evidenceOf (CHR ''f'')] DurabilityVoteKind
     sampleMembership 2 (durabilityVoteMatches sampleMembership (hashText ''rch_'')) =
   Inr [\<lparr>ev_message = messageOf memberA (CHR ''e''),
         ev_statement = DurabilityVote memberA (hashText ''cnv_'') (hashText ''mbr_'') (hashText ''rch_'')\<rparr>,
        \<lparr>ev_message = messageOf memberB (CHR ''f''),
         ev_statement = DurabilityVote memberB (hashText ''cnv_'') (hashText ''mbr_'') (hashText ''rch_'')\<rparr>]"
  by (rule sample_set; simp add: statementTable_def durabilityVoteMatches_def sampleMembership_def)

lemma sample_certificates:
  assumes "pi_authorAgentId (ac_postIntent action) = memberA"
  shows "verifyActionCertificateEvidence sampleVerification (hashText ''ach_'')
      (certificateOf (hashText ''ach_'') (CHR ''a'') (CHR ''b'')) action sampleMembership = Inr (hashText ''ach_'')"
    and "verifyActionCertificateEvidence sampleVerification (otherHashText ''ach_'')
      (certificateOf (otherHashText ''ach_'') (CHR ''c'') (CHR ''d'')) action sampleMembership = Inr (otherHashText ''ach_'')"
  using assms by (simp_all add: verifyActionCertificateEvidence_def certificateOf_def sampleMembership_length
      quorumThreshold_def sample_action_evidence)

lemma sample_encodes: "\<exists>bs. encodeCanonical sampleClient v = Inr bs"
  using sample_short [of v] by (auto simp: encodeCanonical_def)

lemma sample_domainHash: "domainHash sampleClient artifact pre v = Inr (hashText pre)"
  using sample_encodes [of v] evidence_ids(1) [of pre] by (auto simp: domainHash_def hashText_def Let_def)

lemma sample_hashes:
  "hashPostIntent sampleClient i = Inr (hashText ''pit_'')" "hashGenesisAnchor sampleClient a = Inr (hashText ''anc_'')"
  "hashReanchor sampleClient r = Inr (hashText ''anc_'')" "hashAction sampleClient x = Inr (hashText ''ach_'')"
  "hashRecord sampleClient c = Inr (hashText ''rch_'')" "hashMembershipDescriptor sampleClient m = Inr (hashText ''mbr_'')"
  by (simp_all add: hashPostIntent_def hashGenesisAnchor_def hashReanchor_def hashAction_def hashRecord_def
      hashMembershipDescriptor_def sample_domainHash)

lemma sample_record_accepted:
  "verifyCertifiedRecord sampleVerification (sampleRecord content) sampleMembership =
   Inr [\<lparr>ev_message = messageOf memberA (CHR ''e''),
         ev_statement = DurabilityVote memberA (hashText ''cnv_'') (hashText ''mbr_'') (hashText ''rch_'')\<rparr>,
        \<lparr>ev_message = messageOf memberB (CHR ''f''),
         ev_statement = DurabilityVote memberB (hashText ''cnv_'') (hashText ''mbr_'') (hashText ''rch_'')\<rparr>]"
proof -
  have m: "memberCard sampleMembership memberA = Some (cardOf memberA)"
    by (simp add: memberCard_def sampleMembership_def cardOf_def)
  have d: "vm_descriptor sampleMembership = \<lparr>md_conversationId = hashText ''cnv_'', md_members = []\<rparr>"
    "vm_hash sampleMembership = hashText ''mbr_''"
    by (simp_all add: sampleMembership_def)
  have p: "verifyActionCore sampleVerification (PostAction (samplePost content)) sampleMembership =
      Inr (hashText ''ach_'', hashText ''anc_'')"
    by (simp add: verifyActionCore_def actionReferencesMembership_def samplePost_def sampleIntent_def m d sample_hashes Let_def)
  have c: "verifyRecordCore sampleVerification (PostRecordCore (hashText ''mbr_'') (hashText ''anc_'') (samplePost content) (hashText ''ach_''))
      sampleMembership = Inr (hashText ''rch_'')"
    by (simp add: verifyRecordCore_def verifyRecordMembership_def p d sample_hashes)
  have s: "verifyActionCertificateEvidence sampleVerification (hashText ''ach_'')
      (certificateOf (hashText ''ach_'') (CHR ''a'') (CHR ''b'')) (PostAction (samplePost content)) sampleMembership = Inr (hashText ''ach_'')"
    by (rule sample_certificates) (simp add: samplePost_def sampleIntent_def)
  show ?thesis
    using sample_durability_evidence
    by (simp add: verifyCertifiedRecord_def verifyActionCertifiedRecord_def sampleRecord_def c s verifyRecordRouterAnchor_def
        verifyGenesisRouterAnchor_def sample_hashes sampleAnchor_def d sampleMembership_length quorumThreshold_def Let_def)
qed

section \<open>The membership descriptor of the sample\<close>

definition cardRepresentationOf :: "string \<Rightarrow> general_jws" where
  "cardRepresentationOf t =
     \<lparr>gj_payload = b64_encode rfc4648 (utf8Bytes t), gj_protected = b64_encode rfc4648 (utf8Bytes ''3''),
      gj_signature = b64_encode rfc4648 (replicate 64 0)\<rparr>"

definition swappedJwsJson :: "general_jws \<Rightarrow> json" where
  "swappedJwsJson rep =
     JObj [(''signatures'', JArr [JObj [(''protected'', JStr (gj_protected rep)), (''signature'', JStr (gj_signature rep))]]),
           (''payload'', JStr (gj_payload rep))]"

definition descriptorOf :: "(general_jws \<Rightarrow> json) \<Rightarrow> membership_descriptor" where
  "descriptorOf jwsJson = \<lparr>md_conversationId = hashText ''cnv_'',
     md_members = [jwsJson (cardRepresentationOf ''1''), jwsJson (cardRepresentationOf ''2'')]\<rparr>"

lemma swappedJwsJson_decodes: "decodeGeneralJws b64 (swappedJwsJson rep) = decodeGeneralJws b64 (generalJwsJson rep)"
  by (simp add: decodeGeneralJws_def swappedJwsJson_def generalJwsJson_def closedObject_def insert_commute)

definition decodedCard :: "agent_id \<Rightarrow> string \<Rightarrow> string \<Rightarrow> agent_card" where
  "decodedCard agent name t =
     \<lparr>ac_agentId = agent, ac_publicKey = sampleKey, ac_digest = hashText ''acd_'', ac_principalId = ''prn_AAAAAAAAAAAAAAAAAAAAAA'',
      ac_agentName = name, ac_issuedAt = ''2026-01-01T00:00:00Z'', ac_wireVersion = WIRE_VERSION,
      ac_representation = cardRepresentationOf t,
      ac_protectedHeader = \<lparr>ph_alg = ''Ed25519'', ph_kid = ''kid'', ph_typ = AGENT_CARD_TYPE\<rparr>\<rparr>"

lemma sampleKey_accepted: "decodeAcceptedPublicKey rfc4648 sampleKey \<noteq> None"
proof -
  have "hasAcceptedPublicKeyEncoding (9 # replicate 31 0)" by code_simp
  then show ?thesis by (simp add: decodeAcceptedPublicKey_def sampleKey_def lawful)
qed

lemma card_payload_decodes:
  assumes "isAgentId rfc4648 agent" "isAgentName name"
  shows "decodeCardPayload rfc4648 (cardPayloadOf agent name) =
    Some \<lparr>ap_sharnessVersion = WIRE_VERSION, ap_agentId = agent, ap_principalId = ''prn_AAAAAAAAAAAAAAAAAAAAAA'',
      ap_agentName = name, ap_publicKey = sampleKey, ap_issuedAt = ''2026-01-01T00:00:00Z''\<rparr>"
proof -
  have c: "closedObject [''kind'', ''sharnessVersion'', ''agentId'', ''principalId'', ''agentName'',
        ''publicKey'', ''issuedAt''] (cardPayloadOf agent name) =
      Some [JStr ''agentCard'', JStr WIRE_VERSION, JStr agent, JStr ''prn_AAAAAAAAAAAAAAAAAAAAAA'', JStr name,
        JObj [(''crv'', JStr ''Ed25519''), (''kty'', JStr ''OKP''), (''x'', JStr sampleKey)], JStr ''2026-01-01T00:00:00Z'']"
    by (simp add: closedObject_def cardPayloadOf_def)
  have k: "decodePublicKey rfc4648 (JObj [(''crv'', JStr ''Ed25519''), (''kty'', JStr ''OKP''), (''x'', JStr sampleKey)]) = Some sampleKey"
    using sampleKey_accepted by (simp add: decodePublicKey_def closedObject_def)
  have "CHR ''A'' \<in> set (finalCharacters rfc4648 2)"
    unfolding finalCharacters_def by (auto simp: rfc4648_def rfcEncode_zero intro!: bexI [of _ 0])
  then have p: "isPrincipalId rfc4648 ''prn_AAAAAAAAAAAAAAAAAAAAAA''"
    by (simp add: isPrincipalId_def canonicalIdentifier_def startsWith_def inCharRange_def Let_def)
  have i: "isIssuedAt ''2026-01-01T00:00:00Z''" by code_simp
  show ?thesis using assms
    by (simp add: decodeCardPayload_def c k p i HISTORY_WIRE_VERSIONS_def LIVE_WIRE_VERSIONS_def)
qed

lemma card_decodes:
  assumes t: "(agent, name, t) \<in> {(memberA, ''alice'', ''1''), (memberB, ''bob'', ''2'')}"
  shows "decodeAgentCard sampleIdentity (ce_sha256 sampleClient) (generalJwsJson (cardRepresentationOf t)) = Some (decodedCard agent name t)"
proof -
  have id: "isAgentId rfc4648 agent" "asciiText agent" "isAgentName name" "asciiText name" "asciiText t" "length t = 1"
    using t sample_ids(1,2) ids_ascii(1,2) by (auto simp: isAgentName_def inCharRange_def)
  have texts: "ie_canonicalize sampleIdentity (cardPayloadOf agent name) = Some t" "ie_parseJson sampleIdentity t = Some (cardPayloadOf agent name)"
    "ie_canonicalize sampleIdentity cardHeader = Some ''3''" "ie_parseJson sampleIdentity ''3'' = Some cardHeader"
    using t by (auto simp: sampleIdentity_def jsonTable_def statementTable_def cards_distinct payloadChars distinct_signers
        distinct_signers [symmetric] simp del: evidenceStatementJson.simps)
  have w: "hasWellFormedUnicode WIRE_VERSION" "hasWellFormedUnicode AGENT_CARD_TYPE"
    by (intro hasWellFormedUnicode_ascii; simp add: WIRE_VERSION_def AGENT_CARD_TYPE_def)+
  have v: "visitJsonValue (cardPayloadOf agent name) 0"
    unfolding cardPayloadOf_def using id
    by (auto simp: MAXIMUM_CONTAINER_DEPTH_def sampleKey_def lawful w intro!: hasWellFormedUnicode_ascii)
  have v': "visitJsonValue cardHeader 0"
    unfolding cardHeader_def by (auto simp: MAXIMUM_CONTAINER_DEPTH_def w intro!: hasWellFormedUnicode_ascii)
  have v'': "visitJsonValue (generalJwsJson (cardRepresentationOf t)) 0"
    unfolding generalJwsJson_def cardRepresentationOf_def
    by (auto simp: MAXIMUM_CONTAINER_DEPTH_def lawful intro!: hasWellFormedUnicode_ascii)
  have payload: "decodeCanonicalJson sampleIdentity (utf8Bytes t) = Some (cardPayloadOf agent name)"
    using parse_text [OF texts(1,2) v id(5,6)] .
  have header: "decodeCanonicalJson sampleIdentity (utf8Bytes ''3'') = Some cardHeader"
    using parse_text [OF texts(3,4) v'] by simp
  have h: "decodeCardHeader cardHeader = Some \<lparr>ph_alg = ''Ed25519'', ph_kid = ''kid'', ph_typ = AGENT_CARD_TYPE\<rparr>"
    by (simp add: decodeCardHeader_def cardHeader_def closedObject_def)
  have "hasCanonicalEd25519SignatureEncoding (replicate 64 0)" by code_simp
  then have "isGeneralJws rfc4648 (cardRepresentationOf t)"
    by (simp add: isGeneralJws_def cardRepresentationOf_def lawful)
  then have jws: "decodeGeneralJws rfc4648 (generalJwsJson (cardRepresentationOf t)) = Some (cardRepresentationOf t)"
    by (cases "cardRepresentationOf t") (simp add: decodeGeneralJws_def generalJwsJson_def closedObject_def Let_def)
  have dec: "b64_decode rfc4648 (b64_encode rfc4648 bs) = Some bs" for bs
    using rfc4648_laws by (simp add: base64urlLaws_def)
  have gj: "b64_decode rfc4648 (gj_payload (cardRepresentationOf t)) = Some (utf8Bytes t)"
    "b64_decode rfc4648 (gj_protected (cardRepresentationOf t)) = Some (utf8Bytes ''3'')"
    by (simp_all add: cardRepresentationOf_def dec)
  obtain e where e: "encodeCanonicalJson (ie_canonicalize sampleIdentity) (generalJwsJson (cardRepresentationOf t)) = Some e"
    using sample_short v'' by (fastforce simp: encodeCanonicalJson_def)
  show ?thesis
    using sample_digest
    by (simp add: decodeAgentCard_def jws decodeCardRepresentation_def gj payload header h card_payload_decodes [OF id(1,3)] e
        Let_def decodedCard_def flip: hashText_def) (simp add: hashText_def)
qed

lemma sample_membership_accepted:
  assumes j: "\<And>rep. decodeGeneralJws rfc4648 (jwsJson rep) = decodeGeneralJws rfc4648 (generalJwsJson rep)"
  shows "verifyMembershipDescriptor sampleVerification (descriptorOf jwsJson) ''k'' =
   Inr \<lparr>vm_descriptor = descriptorOf jwsJson, vm_hash = hashText ''mbr_'',
        vm_members = [decodedCard memberA ''alice'' ''1'', decodedCard memberB ''bob'' ''2'']\<rparr>"
proof -
  have v: "verifyAgentCard (ve_jose sampleVerification) (decodedCard a n t) ''k''" for a n t
    by (simp add: verifyAgentCard_def sampleVerification_def decodedCard_def)
  have m: "verifyMember sampleVerification ''k'' (jwsJson (cardRepresentationOf t)) = Inr (decodedCard a n t)"
    if "(a, n, t) \<in> {(memberA, ''alice'', ''1''), (memberB, ''bob'', ''2'')}" for a n t
    using card_decodes [OF that] v by (simp add: verifyMember_def decodeAgentCard_def j)
  have "compareAgentIds rfc4648 memberA memberB < 0" by code_simp
  then have s: "sortedDistinct sampleClient [memberA, memberB]" by (simp add: sortedDistinct_def)
  then have c: "deriveConversationId sampleClient [memberA, memberB] = Inr (hashText ''cnv_'')"
    by (simp add: deriveConversationId_def sample_domainHash)
  have f: "ac_agentId (decodedCard a n t) = a" "ac_agentName (decodedCard a n t) = n" for a n t
    by (simp_all add: decodedCard_def)
  have "length (jsSet [''alice'', ''bob'']) = 2" by (simp add: jsSet_def)
  then show ?thesis
    using m [of memberA "''alice''" "''1''"] m [of memberB "''bob''" "''2''"]
    by (simp add: verifyMembershipDescriptor_def f s c sample_hashes Let_def) (simp add: descriptorOf_def f s c sample_hashes)
qed

lemma sample_attestation:
  "verifyStableEvidence sampleVerification (evidenceOf (CHR ''g'')) sampleMembership None =
   Inr \<lparr>ev_message = messageOf memberB (CHR ''g''),
        ev_statement = CatchUpAttestation memberB sampleRequest CertifiedRecordItem (Some (hashText ''rch_'')) True\<rparr>"
  using sample_evidence [of "CatchUpAttestation memberB sampleRequest CertifiedRecordItem (Some (hashText ''rch_'')) True" "CHR ''g''"]
  by (simp add: statementTable_def)

definition samplePage :: catch_up_page where
  "samplePage = \<lparr>cpg_request = sampleRequest, cpg_item = CatchUpRecord (sampleRecord JNull), cpg_hasMore = True,
     cpg_attestation = evidenceOf (CHR ''g'')\<rparr>"

lemma sample_page_accepted: "verifyCatchUpPage sampleVerification samplePage sampleMembership memberB = Inr ()"
proof -
  have m: "memberCard sampleMembership memberA = Some (cardOf memberA)"
    by (simp add: memberCard_def sampleMembership_def cardOf_def)
  have d: "md_conversationId (vm_descriptor sampleMembership) = hashText ''cnv_''" "vm_hash sampleMembership = hashText ''mbr_''"
    by (simp_all add: sampleMembership_def)
  obtain bs where "encodeCanonical sampleClient (catchUpRequestJson sampleRequest) = Inr bs" using sample_encodes by blast
  then have e: "equalCanonical sampleClient (catchUpRequestJson sampleRequest) (catchUpRequestJson sampleRequest) = Inr True"
    by (simp add: equalCanonical_def)
  have r: "verifyCatchUpRequest sampleRequest sampleMembership = Inr ()"
    by (simp add: verifyCatchUpRequest_def sampleRequest_def d m)
  have p: "certifiedItemExtendsPosition sampleRequest (sampleRecord JNull)"
    by (simp add: certifiedItemExtendsPosition_def sampleRequest_def sampleRecord_def samplePost_def Let_def)
  have i: "verifyCatchUpItem sampleVerification samplePage sampleMembership = Inr (CertifiedRecordItem, hashText ''rch_'')"
    using sample_record_accepted [of JNull]
    by (simp add: verifyCatchUpItem_def samplePage_def verifyCertifiedCatchUpItem_def p) (simp add: sampleRecord_def)
  show ?thesis
    using r i sample_attestation e
    by (simp add: verifyCatchUpPage_def samplePage_def verifyCatchUpAttestation_def catchUpAttestationMatches_def)
qed

end
