(* ===== verification/Records_Certificates.thy ===== *)
theory Records_Certificates
  imports Records_Sample
begin

text \<open>
  The properties of the conversation records: what an accepted membership, evidence set,
  certificate, certified record and catch-up page each establish, and what two accepted
  certificates of one membership have in common.
\<close>

section \<open>What the verifiers accept\<close>

text \<open>The signatures of an action certificate that is accepted.\<close>

lemma signersOf_list_ex: "list_ex (\<lambda>e. es_signerAgentId (ev_statement e) = a) verified \<longleftrightarrow> a \<in> signersOf verified"
  by (auto simp: signersOf_def list_ex_iff)

lemma action_certificate_accepts:
  assumes "verifyActionCertificateEvidence env h certificate action membership = Inr h'"
  obtains verified where
    "verifyEvidenceSet env (acert_signatures certificate) ActionSignatureKind membership
       (if isGenesis action then length (vm_members membership) else quorumThreshold (length (vm_members membership)))
       (actionSignatureMatches h) = Inr verified"
    "pi_authorAgentId (ac_postIntent action) \<in> signersOf verified" "h' = h" "acert_actionHash certificate = h"
proof -
  from assms have h: "acert_actionHash certificate = h"
    by (simp add: verifyActionCertificateEvidence_def split: if_splits)
  from assms obtain verified where v: "verifyEvidenceSet env (acert_signatures certificate) ActionSignatureKind membership
       (if isGenesis action then length (vm_members membership) else quorumThreshold (length (vm_members membership)))
       (actionSignatureMatches h) = Inr verified"
    and e: "(if \<not> list_ex (\<lambda>e. es_signerAgentId (ev_statement e) = pi_authorAgentId (ac_postIntent action)) verified
       then failure else Inr h) = Inr h'"
    unfolding verifyActionCertificateEvidence_def h Let_def
    by (simp only: simp_thms if_False bindE_Inr_iff) (elim exE conjE, rule that)
  from e have "pi_authorAgentId (ac_postIntent action) \<in> signersOf verified" "h' = h"
    by (simp_all add: signersOf_list_ex split: if_splits)
  with v h show thesis by (intro that)
qed

lemma action_signer_signed:
  assumes "verifyEvidenceSet env rs ActionSignatureKind membership required (actionSignatureMatches h) = Inr verified"
    and "a \<in> signersOf verified"
  shows "signedBy env membership rs a (ActionSignature a h)"
proof -
  from assms(2) obtain e where e: "e \<in> set verified" "a = es_signerAgentId (ev_statement e)"
    by (auto simp: signersOf_def)
  from verifyEvidenceSet_accepts(4) [OF assms(1) e(1)] e(2) show ?thesis
    by (cases "ev_statement e") (auto simp: actionSignatureMatches_def)
qed

lemma durability_signer_signed:
  assumes "verifyEvidenceSet env rs DurabilityVoteKind membership required (durabilityVoteMatches membership h) = Inr verified"
    and "a \<in> signersOf verified"
  shows "signedBy env membership rs a
    (DurabilityVote a (md_conversationId (vm_descriptor membership)) (vm_hash membership) h)"
proof -
  from assms(2) obtain e where e: "e \<in> set verified" "a = es_signerAgentId (ev_statement e)"
    by (auto simp: signersOf_def)
  from verifyEvidenceSet_accepts(4) [OF assms(1) e(1)] e(2) show ?thesis
    by (cases "ev_statement e") (auto simp: durabilityVoteMatches_def)
qed

lemma certified_record_accepts:
  assumes "verifyCertifiedRecord env rec membership = Inr votes"
  obtains recordHash where
    "verifyActionCertifiedRecord env (crec_actionCertifiedRecord rec) membership = Inr recordHash"
    "dcert_recordHash (crec_durabilityCertificate rec) = recordHash"
    "verifyEvidenceSet env (dcert_votes (crec_durabilityCertificate rec)) DurabilityVoteKind membership
       (quorumThreshold (length (vm_members membership))) (durabilityVoteMatches membership recordHash) = Inr votes"
  using assms that unfolding verifyCertifiedRecord_def
  by (auto simp: bindE_Inr_iff Let_def split: if_splits)

lemma action_certified_record_accepts:
  assumes "verifyActionCertifiedRecord env rec membership = Inr recordHash"
  shows "hashRecord (ve_client env) (acr_recordCore rec) = Inr recordHash" "acr_recordHash rec = recordHash"
    and "hashAction (ve_client env) (rc_action (acr_recordCore rec)) = Inr (rc_actionHash (acr_recordCore rec))"
    and "hashPostIntent (ve_client env) (ac_postIntent (rc_action (acr_recordCore rec))) =
      Inr (ac_postIntentHash (rc_action (acr_recordCore rec)))"
    and "actionReferencesMembership (rc_action (acr_recordCore rec)) membership"
    and "verifyActionCertificateEvidence env (rc_actionHash (acr_recordCore rec)) (acr_actionCertificate rec)
      (rc_action (acr_recordCore rec)) membership = Inr (rc_actionHash (acr_recordCore rec))"
    and "(case acr_routerAnchor rec of GenesisAnchor a \<Rightarrow> hashGenesisAnchor (ve_client env) a
       | Reanchored completed \<Rightarrow> verifyCompletedReanchor env completed membership) = Inr (rc_anchorHash (acr_recordCore rec))"
proof -
  from assms obtain u v w where
    core: "verifyRecordCore env (acr_recordCore rec) membership = Inr recordHash"
    and h: "acr_recordHash rec = recordHash"
    and cert: "verifyActionCertificateEvidence env (rc_actionHash (acr_recordCore rec)) (acr_actionCertificate rec)
      (rc_action (acr_recordCore rec)) membership = Inr u"
    and anchor: "verifyRecordRouterAnchor env rec membership = Inr v"
    unfolding verifyActionCertifiedRecord_def by (auto simp: bindE_Inr_iff split: if_splits)
  show "acr_recordHash rec = recordHash" by (rule h)
  show "verifyActionCertificateEvidence env (rc_actionHash (acr_recordCore rec)) (acr_actionCertificate rec)
      (rc_action (acr_recordCore rec)) membership = Inr (rc_actionHash (acr_recordCore rec))"
    using cert by (auto elim: action_certificate_accepts)
  show "(case acr_routerAnchor rec of GenesisAnchor a \<Rightarrow> hashGenesisAnchor (ve_client env) a
       | Reanchored completed \<Rightarrow> verifyCompletedReanchor env completed membership) = Inr (rc_anchorHash (acr_recordCore rec))"
    using anchor by (auto simp: verifyRecordRouterAnchor_def bindE_Inr_iff split: if_splits)
  from core obtain ah nh where
    act: "verifyActionCore env (rc_action (acr_recordCore rec)) membership = Inr (ah, nh)"
    and eq: "rc_actionHash (acr_recordCore rec) = ah" "rc_anchorHash (acr_recordCore rec) = nh"
    and "hashRecord (ve_client env) (acr_recordCore rec) = Inr recordHash"
    by (auto simp: verifyRecordCore_def bindE_Inr_iff split: if_splits)
  then show "hashRecord (ve_client env) (acr_recordCore rec) = Inr recordHash" by simp
  from act show "actionReferencesMembership (rc_action (acr_recordCore rec)) membership"
    by (simp add: verifyActionCore_def split: if_splits)
  from act show "hashPostIntent (ve_client env) (ac_postIntent (rc_action (acr_recordCore rec))) =
      Inr (ac_postIntentHash (rc_action (acr_recordCore rec)))"
    by (auto simp: verifyActionCore_def bindE_Inr_iff split: if_splits)
  from act show "hashAction (ve_client env) (rc_action (acr_recordCore rec)) = Inr (rc_actionHash (acr_recordCore rec))"
    unfolding verifyActionCore_def eq(1)
    by (auto simp: bindE_Inr_iff split: if_splits action_core.splits)
qed

text \<open>What an accepted membership descriptor and an accepted catch-up page passed.\<close>

lemma membership_accepts:
  assumes "verifyMembershipDescriptor env descriptor key = Inr membership"
  shows "forEachE (verifyMember env key) (md_members descriptor) = Inr (vm_members membership)"
    and "2 \<le> length (vm_members membership)"
    and "sortedDistinct (ve_client env) (map ac_agentId (vm_members membership))"
    and "distinct (map ac_agentName (vm_members membership))"
    and "deriveConversationId (ve_client env) (map ac_agentId (vm_members membership)) = Inr (md_conversationId descriptor)"
    and "hashMembershipDescriptor (ve_client env) descriptor = Inr (vm_hash membership)"
    and "vm_descriptor membership = descriptor"
proof -
  from assms obtain verified conversationId where
    v: "forEachE (verifyMember env key) (md_members descriptor) = Inr verified"
    and g: "\<not> length verified < 2" "sortedDistinct (ve_client env) (map ac_agentId verified)"
      "length (jsSet (map ac_agentName verified)) = length verified"
    and c: "deriveConversationId (ve_client env) (map ac_agentId verified) = Inr conversationId"
      "conversationId = md_conversationId descriptor"
    and h: "hashMembershipDescriptor (ve_client env) descriptor = Inr (vm_hash membership)"
    and m: "vm_descriptor membership = descriptor" "vm_members membership = verified"
    by (auto simp: verifyMembershipDescriptor_def bindE_Inr_iff Let_def split: if_splits)
  have "distinct (map ac_agentName verified)"
    using g(3) length_jsSet_eq_iff [of "map ac_agentName verified"] by simp
  with v g c h m show "forEachE (verifyMember env key) (md_members descriptor) = Inr (vm_members membership)"
    "2 \<le> length (vm_members membership)"
    "sortedDistinct (ve_client env) (map ac_agentId (vm_members membership))"
    "distinct (map ac_agentName (vm_members membership))"
    "deriveConversationId (ve_client env) (map ac_agentId (vm_members membership)) = Inr (md_conversationId descriptor)"
    "hashMembershipDescriptor (ve_client env) descriptor = Inr (vm_hash membership)"
    "vm_descriptor membership = descriptor"
    by simp_all
qed

lemma attestation_accepts:
  assumes "verifyCatchUpAttestation env r membership responder request kind h hasMore = Inr ()"
  shows "\<exists>request'. signedBy env membership [r] responder (CatchUpAttestation responder request' kind h hasMore) \<and>
    equalCanonical (ve_client env) (catchUpRequestJson request') (catchUpRequestJson request) = Inr True"
proof -
  from assms obtain e where e: "verifyStableEvidence env r membership None = Inr e"
    "es_signerAgentId (ev_statement e) = responder"
    "catchUpAttestationMatches env (ev_statement e) request kind h hasMore = Inr True"
    by (auto simp: verifyCatchUpAttestation_def bindE_Inr_iff guardE_Inr_iff split: if_splits)
  then show ?thesis
    using verifyStableEvidence_signedBy(1) [OF e(1), of "[r]"]
    by (cases "ev_statement e") (auto simp: catchUpAttestationMatches_def bindE_Inr_iff)
qed

lemma catch_up_request_accepts:
  "verifyCatchUpRequest request membership = Inr () \<Longrightarrow>
   cr_conversationId request = md_conversationId (vm_descriptor membership) \<and> cr_requesterAgentId request \<in> memberIds membership"
  using memberCard_iff by (auto simp: verifyCatchUpRequest_def guardE_Inr_iff)

lemma catch_up_item_accepts:
  assumes "verifyCatchUpItem env page membership = Inr (kind, itemHash)"
  shows "case cpg_item page of
      CatchUpRecord rec \<Rightarrow>
        kind = CertifiedRecordItem \<and> itemHash = acr_recordHash (crec_actionCertifiedRecord rec) \<and>
        (\<exists>votes. verifyCertifiedRecord env rec membership = Inr votes) \<and>
        (case (rc_action (acr_recordCore (crec_actionCertifiedRecord rec)), cr_knownRecordHash (cpg_request page)) of
           (GenesisAction _, known) \<Rightarrow> known = None
         | (PostAction p, known) \<Rightarrow>
             known = Some (pc_previousRecordHash p) \<and> cr_knownAnchorHash (cpg_request page) = Some (pc_anchorHash p))
    | CatchUpReanchor completed \<Rightarrow>
        kind = CompletedReanchorItem \<and> itemHash = crea_anchorHash completed \<and>
        verifyCompletedReanchor env completed membership = Inr itemHash \<and>
        cr_knownRecordHash (cpg_request page) = Some (rb_selectedRecordHash (crea_reanchor completed)) \<and>
        cr_knownAnchorHash (cpg_request page) = Some (rb_previousAnchorHash (crea_reanchor completed))"
proof (cases "cpg_item page")
  case (CatchUpRecord rec)
  with assms have ext: "certifiedItemExtendsPosition (cpg_request page) rec"
    and "kind = CertifiedRecordItem" "itemHash = acr_recordHash (crec_actionCertifiedRecord rec)"
    and "\<exists>votes. verifyCertifiedRecord env rec membership = Inr votes"
    by (auto simp: verifyCatchUpItem_def verifyCertifiedCatchUpItem_def bindE_Inr_iff split: if_splits)
  with CatchUpRecord show ?thesis
    by (cases "rc_action (acr_recordCore (crec_actionCertifiedRecord rec))"; cases "cr_knownRecordHash (cpg_request page)")
      (auto simp: certifiedItemExtendsPosition_def isGenesis_def Let_def)
next
  case (CatchUpReanchor completed)
  with assms have g: "Some (rb_selectedRecordHash (crea_reanchor completed)) = cr_knownRecordHash (cpg_request page)"
    "Some (rb_previousAnchorHash (crea_reanchor completed)) = cr_knownAnchorHash (cpg_request page)"
    and k: "kind = CompletedReanchorItem" "itemHash = crea_anchorHash completed"
    and v: "\<exists>h. verifyCompletedReanchor env completed membership = Inr h"
    by (auto simp: verifyCatchUpItem_def verifyReanchorCatchUpItem_def bindE_Inr_iff split: if_splits)
  from v have "verifyCompletedReanchor env completed membership = Inr (crea_anchorHash completed)"
    by (auto simp: verifyCompletedReanchor_def bindE_Inr_iff split: if_splits)
  with CatchUpReanchor g k show ?thesis by simp
qed

section \<open>Properties\<close>

text \<open>
  An evidence set that is accepted has at least the required number of pieces and no more
  than there are members, all by different signers; and each piece is of the expected kind,
  matches, names a member, and is the canonical body of a message whose signature verifies
  under that member's card.
\<close>

theorem evidence_set_sound:
  assumes "verifyEvidenceSet env representations kind membership required statementMatches = Inr verified"
  shows "distinct (map (\<lambda>e. es_signerAgentId (ev_statement e)) verified) \<and>
    required \<le> length verified \<and> length verified \<le> length (vm_members membership) \<and>
    list_all (\<lambda>e. evidenceKind (ev_statement e) = kind \<and> statementMatches (ev_statement e) = Inr True \<and>
      es_signerAgentId (ev_statement e) \<in> memberIds membership \<and>
      signedBy env membership representations (es_signerAgentId (ev_statement e)) (ev_statement e)) verified"
  unfolding list_all_iff using verifyEvidenceSet_accepts [OF assms] by blast

text \<open>
  C7: Two action certificates that one membership's verification accepts, for whatever two
  actions, were both signed by more members than the quorum rule tolerates as faulty. So two
  conflicting certified actions expose that many equivocating members.
\<close>

theorem action_certificates_accountable:
  assumes wf: "wellFormedMembership membership"
    and first: "verifyActionCertificateEvidence env h certificate action membership = Inr h"
    and second: "verifyActionCertificateEvidence env k certificate' action' membership = Inr k"
  shows "toleratedFaults (length (vm_members membership)) <
    card {a \<in> memberIds membership. signedBy env membership (acert_signatures certificate) a (ActionSignature a h) \<and>
      signedBy env membership (acert_signatures certificate') a (ActionSignature a k)}"
proof -
  let ?n = "length (vm_members membership)"
  have n: "card (memberIds membership) = ?n" by (rule card_memberIds [OF wf])
  have ne: "memberIds membership \<noteq> {}" using wf by (simp add: memberIds_def wellFormedMembership_def)
  have le: "quorumThreshold ?n \<le> (if isGenesis a then ?n else quorumThreshold ?n)" for a
    by (simp add: quorumThreshold_def)
  obtain v v' where v: "verifyEvidenceSet env (acert_signatures certificate) ActionSignatureKind membership
      (if isGenesis action then ?n else quorumThreshold ?n) (actionSignatureMatches h) = Inr v"
    and v': "verifyEvidenceSet env (acert_signatures certificate') ActionSignatureKind membership
      (if isGenesis action' then ?n else quorumThreshold ?n) (actionSignatureMatches k) = Inr v'"
    using action_certificate_accepts [OF first] action_certificate_accepts [OF second] by metis
  have "toleratedFaults ?n < card (signersOf v \<inter> signersOf v')"
    using quorum.quorums_overlap [OF finite_memberIds ne signersOf_quorum(1) [OF v] signersOf_quorum(1) [OF v']]
      signersOf_quorum(2) [OF v] signersOf_quorum(2) [OF v'] le [of action] le [of action'] by (simp add: n)
  also have "\<dots> \<le> card {a \<in> memberIds membership. signedBy env membership (acert_signatures certificate) a (ActionSignature a h) \<and>
      signedBy env membership (acert_signatures certificate') a (ActionSignature a k)}"
    using signersOf_quorum(1) [OF v] action_signer_signed [OF v] action_signer_signed [OF v']
    by (intro card_mono) auto
  finally show ?thesis .
qed

text \<open>
  C8: Whichever members are faulty, as long as they are no more than the quorum rule
  tolerates, two durable records of one membership carry the vote of a member that is not:
  a record that every correct member refuses to vote for beside another never becomes durable.
\<close>

theorem durable_records_share_correct_voter:
  assumes wf: "wellFormedMembership membership"
    and first: "verifyCertifiedRecord env rec membership = Inr votes"
    and second: "verifyCertifiedRecord env rec' membership = Inr votes'"
    and faulty: "finite F" "card F \<le> toleratedFaults (length (vm_members membership))"
  shows "\<exists>a. a \<in> memberIds membership - F \<and>
    signedBy env membership (dcert_votes (crec_durabilityCertificate rec)) a
      (DurabilityVote a (md_conversationId (vm_descriptor membership)) (vm_hash membership)
        (acr_recordHash (crec_actionCertifiedRecord rec))) \<and>
    signedBy env membership (dcert_votes (crec_durabilityCertificate rec')) a
      (DurabilityVote a (md_conversationId (vm_descriptor membership)) (vm_hash membership)
        (acr_recordHash (crec_actionCertifiedRecord rec')))"
proof -
  have n: "card (memberIds membership) = length (vm_members membership)" by (rule card_memberIds [OF wf])
  have ne: "memberIds membership \<noteq> {}" using wf by (simp add: memberIds_def wellFormedMembership_def)
  from first obtain h where
    h: "acr_recordHash (crec_actionCertifiedRecord rec) = h"
    "verifyEvidenceSet env (dcert_votes (crec_durabilityCertificate rec)) DurabilityVoteKind membership
       (quorumThreshold (length (vm_members membership))) (durabilityVoteMatches membership h) = Inr votes"
    by (metis certified_record_accepts action_certified_record_accepts(2))
  from second obtain k where
    k: "acr_recordHash (crec_actionCertifiedRecord rec') = k"
    "verifyEvidenceSet env (dcert_votes (crec_durabilityCertificate rec')) DurabilityVoteKind membership
       (quorumThreshold (length (vm_members membership))) (durabilityVoteMatches membership k) = Inr votes'"
    by (metis certified_record_accepts action_certified_record_accepts(2))
  from quorum.quorums_share_correct [OF finite_memberIds ne signersOf_quorum(1) [OF h(2)] signersOf_quorum(1) [OF k(2)]]
    signersOf_quorum(2) [OF h(2)] signersOf_quorum(2) [OF k(2)] faulty
  obtain a where "a \<in> signersOf votes" "a \<in> signersOf votes'" "a \<notin> F" by (auto simp: n)
  then show ?thesis
    using signersOf_quorum(1) [OF h(2)] durability_signer_signed [OF h(2)] durability_signer_signed [OF k(2)] h(1) k(1)
    by (intro exI [of _ a]) auto
qed

text \<open>
  A conversation starts only with the signature of every member: an accepted certificate
  of a genesis action holds a verified signature of each member over that action.
\<close>

theorem genesis_needs_every_member:
  assumes wf: "wellFormedMembership membership"
    and "verifyActionCertificateEvidence env h certificate (GenesisAction g) membership = Inr k"
  shows "list_all (\<lambda>c. signedBy env membership (acert_signatures certificate) (ac_agentId c)
    (ActionSignature (ac_agentId c) h)) (vm_members membership)"
proof -
  from assms(2) obtain v where v: "verifyEvidenceSet env (acert_signatures certificate) ActionSignatureKind membership
      (length (vm_members membership)) (actionSignatureMatches h) = Inr v"
    by (elim action_certificate_accepts) (simp add: isGenesis_def)
  have "signersOf v = memberIds membership"
    using card_subset_eq [OF finite_memberIds signersOf_quorum(1) [OF v]] signersOf_quorum(2) [OF v]
      card_mono [OF finite_memberIds signersOf_quorum(1) [OF v]] card_memberIds [OF wf] by simp
  then show ?thesis
    using action_signer_signed [OF v] by (auto simp: list_all_iff memberIds_def)
qed

text \<open>
  A certified record that is accepted is bound together: its hash is the hash of its
  core, the action hash in the core is the hash of the action, the intent hash in the action
  is the hash of the intent, the anchor is the one the core names, action and intent are of
  this conversation, and the author is a member whose own signature is in the certificate.
\<close>

theorem certified_record_bound:
  assumes "verifyCertifiedRecord env rec membership = Inr votes"
  shows "let acr = crec_actionCertifiedRecord rec; core = acr_recordCore acr; action = rc_action core;
      author = pi_authorAgentId (ac_postIntent action) in
    hashRecord (ve_client env) core = Inr (acr_recordHash acr) \<and>
    dcert_recordHash (crec_durabilityCertificate rec) = acr_recordHash acr \<and>
    hashAction (ve_client env) action = Inr (rc_actionHash core) \<and>
    hashPostIntent (ve_client env) (ac_postIntent action) = Inr (ac_postIntentHash action) \<and>
    (case acr_routerAnchor acr of
       GenesisAnchor a \<Rightarrow> hashGenesisAnchor (ve_client env) a = Inr (rc_anchorHash core)
     | Reanchored completed \<Rightarrow> crea_anchorHash completed = rc_anchorHash core) \<and>
    ac_conversationId action = md_conversationId (vm_descriptor membership) \<and>
    pi_conversationId (ac_postIntent action) = md_conversationId (vm_descriptor membership) \<and>
    author \<in> memberIds membership \<and>
    signedBy env membership (acert_signatures (acr_actionCertificate acr)) author
      (ActionSignature author (rc_actionHash core))"
proof -
  from assms obtain h where
    acr: "verifyActionCertifiedRecord env (crec_actionCertifiedRecord rec) membership = Inr h"
    and d: "dcert_recordHash (crec_durabilityCertificate rec) = h"
    by (rule certified_record_accepts)
  note facts = action_certified_record_accepts [OF acr]
  let ?action = "rc_action (acr_recordCore (crec_actionCertifiedRecord rec))"
  let ?author = "pi_authorAgentId (ac_postIntent ?action)"
  from facts(6) obtain v where
    "verifyEvidenceSet env (acert_signatures (acr_actionCertificate (crec_actionCertifiedRecord rec))) ActionSignatureKind
       membership (if isGenesis ?action then length (vm_members membership) else quorumThreshold (length (vm_members membership)))
       (actionSignatureMatches (rc_actionHash (acr_recordCore (crec_actionCertifiedRecord rec)))) = Inr v"
    "?author \<in> signersOf v"
    by (rule action_certificate_accepts)
  then have "signedBy env membership (acert_signatures (acr_actionCertificate (crec_actionCertifiedRecord rec))) ?author
      (ActionSignature ?author (rc_actionHash (acr_recordCore (crec_actionCertifiedRecord rec))))"
    by (rule action_signer_signed)
  moreover have "case acr_routerAnchor (crec_actionCertifiedRecord rec) of
       GenesisAnchor a \<Rightarrow> hashGenesisAnchor (ve_client env) a = Inr (rc_anchorHash (acr_recordCore (crec_actionCertifiedRecord rec)))
     | Reanchored completed \<Rightarrow> crea_anchorHash completed = rc_anchorHash (acr_recordCore (crec_actionCertifiedRecord rec))"
    using facts(7) by (auto simp: verifyCompletedReanchor_def bindE_Inr_iff split: router_anchor.splits if_splits)
  moreover have "ac_conversationId ?action = md_conversationId (vm_descriptor membership) \<and>
      pi_conversationId (ac_postIntent ?action) = md_conversationId (vm_descriptor membership) \<and> ?author \<in> memberIds membership"
    using facts(5) memberCard_iff by (fastforce simp: actionReferencesMembership_def Let_def split: if_splits)
  ultimately show ?thesis using facts(1-4) d by (simp add: Let_def)
qed

text \<open>
  C14: A membership descriptor that is accepted lists at least two members, in the lexicographic order of the bytes
  their identifiers encode and so without a repeated one, and without a repeated name; each is a card that
  decodes and is signed by the pinned Registry; and the conversation identifier is the one derived from
  exactly those members.
\<close>

theorem membership_descriptor_sound:
  assumes "verifyMembershipDescriptor env descriptor registrySignerPublicKey = Inr membership"
  shows "vm_descriptor membership = descriptor \<and> 2 \<le> length (vm_members membership) \<and>
    (\<exists>ids. map (\<lambda>c. decodeCanonicalBase64Url (ie_base64url (ce_identity (ve_client env))) (drop 4 (ac_agentId c))) (vm_members membership) =
        map Some ids \<and> sorted_wrt (<) (map (map uint) ids)) \<and>
    distinct (map ac_agentId (vm_members membership)) \<and> distinct (map ac_agentName (vm_members membership)) \<and>
    list_all2 (\<lambda>representation agentCard.
      decodeAgentCard (ve_identity env) (ce_sha256 (ve_client env)) representation = Some agentCard \<and>
      verifyAgentCard (ve_jose env) agentCard registrySignerPublicKey) (md_members descriptor) (vm_members membership) \<and>
    deriveConversationId (ve_client env) (map ac_agentId (vm_members membership)) = Inr (md_conversationId descriptor) \<and>
    hashMembershipDescriptor (ve_client env) descriptor = Inr (vm_hash membership)"
proof -
  note facts = membership_accepts [OF assms]
  have "list_all2 (\<lambda>representation agentCard.
      decodeAgentCard (ve_identity env) (ce_sha256 (ve_client env)) representation = Some agentCard \<and>
      verifyAgentCard (ve_jose env) agentCard registrySignerPublicKey) (md_members descriptor) (vm_members membership)"
    using facts(1) unfolding forEachE_Inr_iff
    by (rule list_all2_mono) (auto simp: verifyMember_def split: option.splits if_splits)
  moreover have "distinct (map ac_agentId (vm_members membership))"
    using facts(3) agentOrder.ascending_distinct by (simp add: sortedDistinct_def)
  moreover have "\<exists>ids. map (\<lambda>a. decodeCanonicalBase64Url (ie_base64url (ce_identity (ve_client env))) (drop 4 a))
      (map ac_agentId (vm_members membership)) = map Some ids \<and> sorted_wrt (<) (map (map uint) ids)"
    using facts(2,3) by (intro ascending_agentIds_bytes) (simp_all add: sortedDistinct_def)
  ultimately show ?thesis using facts by (simp add: o_def)
qed

text \<open>
  One set of agents has one conversation: two accepted descriptors, in whatever
  encodings and with whatever cards, whose members are the same agents name the same
  conversation, and list the members in the same order.
\<close>

theorem conversation_id_determined:
  assumes "verifyMembershipDescriptor env descriptor key = Inr membership"
    and "verifyMembershipDescriptor env descriptor' key' = Inr membership'"
    and "memberIds membership = memberIds membership'"
  shows "md_conversationId descriptor = md_conversationId descriptor' \<and>
    map ac_agentId (vm_members membership) = map ac_agentId (vm_members membership')"
proof -
  note facts = membership_accepts [OF assms(1)] membership_accepts [OF assms(2)]
  have "map ac_agentId (vm_members membership) = map ac_agentId (vm_members membership')"
    using facts(3,10) assms(3) unfolding sortedDistinct_def memberIds_def set_map [symmetric]
    by (rule agentOrder.ascending_unique)
  then show ?thesis using facts(5,12) by simp
qed

text \<open>
  A catch-up page that is accepted answers this conversation's request, and its item
  continues exactly the position the requester named: a record that is fully certified and
  follows the known record under the known anchor (or is the genesis when nothing is known),
  or a completed re-anchor of the known record. The responder signed, for this very request,
  the item's hash and whether more follows.
\<close>

theorem catch_up_page_continues:
  assumes "verifyCatchUpPage env page membership responder = Inr ()"
  shows "cr_conversationId (cpg_request page) = md_conversationId (vm_descriptor membership) \<and>
    cr_requesterAgentId (cpg_request page) \<in> memberIds membership \<and>
    (\<exists>request kind itemHash.
      signedBy env membership [cpg_attestation page] responder
        (CatchUpAttestation responder request kind (Some itemHash) (cpg_hasMore page)) \<and>
      equalCanonical (ve_client env) (catchUpRequestJson request) (catchUpRequestJson (cpg_request page)) = Inr True \<and>
      (case cpg_item page of
         CatchUpRecord rec \<Rightarrow>
           kind = CertifiedRecordItem \<and> itemHash = acr_recordHash (crec_actionCertifiedRecord rec) \<and>
           (\<exists>votes. verifyCertifiedRecord env rec membership = Inr votes) \<and>
           (case (rc_action (acr_recordCore (crec_actionCertifiedRecord rec)), cr_knownRecordHash (cpg_request page)) of
              (GenesisAction _, known) \<Rightarrow> known = None
            | (PostAction p, known) \<Rightarrow>
                known = Some (pc_previousRecordHash p) \<and> cr_knownAnchorHash (cpg_request page) = Some (pc_anchorHash p))
       | CatchUpReanchor completed \<Rightarrow>
           kind = CompletedReanchorItem \<and> itemHash = crea_anchorHash completed \<and>
           verifyCompletedReanchor env completed membership = Inr itemHash \<and>
           cr_knownRecordHash (cpg_request page) = Some (rb_selectedRecordHash (crea_reanchor completed)) \<and>
           cr_knownAnchorHash (cpg_request page) = Some (rb_previousAnchorHash (crea_reanchor completed))))"
proof -
  from assms obtain kind itemHash where
    req: "verifyCatchUpRequest (cpg_request page) membership = Inr ()"
    and item: "verifyCatchUpItem env page membership = Inr (kind, itemHash)"
    and att: "verifyCatchUpAttestation env (cpg_attestation page) membership responder (cpg_request page)
       kind (Some itemHash) (cpg_hasMore page) = Inr ()"
    by (auto simp: verifyCatchUpPage_def bindE_Inr_iff)
  from attestation_accepts [OF att] obtain request where
    s: "signedBy env membership [cpg_attestation page] responder
        (CatchUpAttestation responder request kind (Some itemHash) (cpg_hasMore page))"
    "equalCanonical (ve_client env) (catchUpRequestJson request) (catchUpRequestJson (cpg_request page)) = Inr True"
    by blast
  show ?thesis
    using s catch_up_item_accepts [OF item] catch_up_request_accepts [OF req]
    by (intro conjI exI [of _ request] exI [of _ kind] exI [of _ itemHash]) simp_all
qed

section \<open>Witnesses\<close>

theorem evidence_set_sound_witness:
  "signedBy sampleVerification sampleMembership [evidenceOf (CHR ''a''), evidenceOf (CHR ''b'')] memberB
     (ActionSignature memberB (hashText ''ach_''))"
proof -
  have "(2::nat) \<le> 2" by simp
  from evidence_set_sound [OF sample_action_evidence(1) [OF this]] show ?thesis by simp
qed

theorem action_certificates_accountable_witness:
  "0 < card {a \<in> memberIds sampleMembership.
     signedBy sampleVerification sampleMembership [evidenceOf (CHR ''a''), evidenceOf (CHR ''b'')] a
       (ActionSignature a (hashText ''ach_'')) \<and>
     signedBy sampleVerification sampleMembership [evidenceOf (CHR ''c''), evidenceOf (CHR ''d'')] a
       (ActionSignature a (otherHashText ''ach_''))} \<and> hashText ''ach_'' \<noteq> otherHashText ''ach_''"
proof -
  have a: "pi_authorAgentId (ac_postIntent (PostAction (samplePost c))) = memberA" for c
    by (simp add: samplePost_def sampleIntent_def)
  from action_certificates_accountable [OF sampleMembership_wf sample_certificates(1) [OF a [of JNull]]
      sample_certificates(2) [OF a [of "JBool True"]]]
  show ?thesis using distinct_hashes by (simp add: certificateOf_def)
qed

theorem durable_records_share_correct_voter_witness:
  "\<exists>a. signedBy sampleVerification sampleMembership (dcert_votes (crec_durabilityCertificate (sampleRecord JNull))) a
     (DurabilityVote a (hashText ''cnv_'') (hashText ''mbr_'') (hashText ''rch_''))"
proof -
  have "finite ({} :: agent_id set)" "card ({} :: agent_id set) \<le> toleratedFaults (length (vm_members sampleMembership))" by simp_all
  from durable_records_share_correct_voter [OF sampleMembership_wf sample_record_accepted [of JNull]
      sample_record_accepted [of "JBool True"] this]
  show ?thesis by (auto simp: sampleMembership_def sampleRecord_def)
qed

theorem genesis_needs_every_member_witness:
  "list_all (\<lambda>c. signedBy sampleVerification sampleMembership [evidenceOf (CHR ''a''), evidenceOf (CHR ''b'')] (ac_agentId c)
     (ActionSignature (ac_agentId c) (hashText ''ach_''))) [cardOf memberA, cardOf memberB]"
proof -
  have "pi_authorAgentId (ac_postIntent (GenesisAction sampleGenesis)) = memberA"
    by (simp add: sampleGenesis_def sampleIntent_def)
  from genesis_needs_every_member [OF sampleMembership_wf sample_certificates(1) [OF this]]
  show ?thesis by (simp add: certificateOf_def sampleMembership_def)
qed

theorem certified_record_bound_witness:
  "signedBy sampleVerification sampleMembership [evidenceOf (CHR ''a''), evidenceOf (CHR ''b'')] memberA
     (ActionSignature memberA (hashText ''ach_''))"
  using certified_record_bound [OF sample_record_accepted [of JNull]]
  by (simp add: sampleRecord_def samplePost_def sampleIntent_def certificateOf_def Let_def)


theorem membership_descriptor_sound_witness:
  "distinct [''alice'', ''bob''] \<and> deriveConversationId sampleClient [memberA, memberB] = Inr (hashText ''cnv_'')"
  using membership_descriptor_sound [OF sample_membership_accepted [of generalJwsJson, OF refl]]
  by (simp add: descriptorOf_def decodedCard_def)

theorem conversation_id_determined_witness:
  "md_conversationId (descriptorOf generalJwsJson) = md_conversationId (descriptorOf swappedJwsJson) \<and>
   generalJwsJson (cardRepresentationOf ''1'') \<noteq> swappedJwsJson (cardRepresentationOf ''1'')"
  using conversation_id_determined [OF sample_membership_accepted [of generalJwsJson, OF refl]
      sample_membership_accepted [of swappedJwsJson, OF swappedJwsJson_decodes]]
  by (simp add: memberIds_def generalJwsJson_def swappedJwsJson_def)

theorem catch_up_page_continues_witness:
  "\<exists>votes. verifyCertifiedRecord sampleVerification (sampleRecord JNull) sampleMembership = Inr votes"
  using catch_up_page_continues [OF sample_page_accepted] by (auto simp: samplePage_def)

end
