(* ===== verification/Firewall_Values.thy ===== *)
theory Firewall_Values
  imports Prelude Complex_Main
begin

text \<open>
  The values of the Client's message firewall, \<^verbatim>\<open>packages/client/src/firewall/evaluator/values.ts\<close>:
  messages and the evidence they are judged against, rules, findings and expectations, the
  middleware contract, and the composed check. A class declared by a closed schema is the
  record of its fields, with what the schema demands of the fields as a predicate; the
  private trace of a middleware and its provenance, which nothing interprets, are left out.
\<close>

section \<open>Messages and evidence\<close>

text \<open>\<^verbatim>\<open>String.prototype.trim\<close> on UTF-8 text: the white space and line terminators of ECMAScript.\<close>

definition jsWhitespace :: "string list" where
  "jsWhitespace =
     [[CHR 0x09], [CHR 0x0A], [CHR 0x0B], [CHR 0x0C], [CHR 0x0D], [CHR 0x20], [CHR 0xC2, CHR 0xA0],
      [CHR 0xE1, CHR 0x9A, CHR 0x80], [CHR 0xE2, CHR 0x80, CHR 0x80], [CHR 0xE2, CHR 0x80, CHR 0x81],
      [CHR 0xE2, CHR 0x80, CHR 0x82], [CHR 0xE2, CHR 0x80, CHR 0x83], [CHR 0xE2, CHR 0x80, CHR 0x84],
      [CHR 0xE2, CHR 0x80, CHR 0x85], [CHR 0xE2, CHR 0x80, CHR 0x86], [CHR 0xE2, CHR 0x80, CHR 0x87],
      [CHR 0xE2, CHR 0x80, CHR 0x88], [CHR 0xE2, CHR 0x80, CHR 0x89], [CHR 0xE2, CHR 0x80, CHR 0x8A],
      [CHR 0xE2, CHR 0x80, CHR 0xA8], [CHR 0xE2, CHR 0x80, CHR 0xA9], [CHR 0xE2, CHR 0x80, CHR 0xAF],
      [CHR 0xE2, CHR 0x81, CHR 0x9F], [CHR 0xE3, CHR 0x80, CHR 0x80], [CHR 0xEF, CHR 0xBB, CHR 0xBF]]"

definition isTrimmed :: "string \<Rightarrow> bool" where
  "isTrimmed s \<longleftrightarrow>
     \<not> list_ex (\<lambda>w. take (length w) s = w \<or> (length w \<le> length s \<and> drop (length s - length w) s = w)) jsWhitespace"

text \<open>\<^verbatim>\<open>Schema.NonEmptyTrimmedString\<close>.\<close>

definition isFirewallIdentifier :: "string \<Rightarrow> bool" where
  "isFirewallIdentifier s \<longleftrightarrow> s \<noteq> [] \<and> isTrimmed s"

datatype visibility = Runtime | Assessor
datatype admission = Admitted | Withheld
datatype next_action = Revise | Wait | Stop | SeekApproval
datatype collecting_op = Gather | AllGather

datatype message_operation =
    OpRequest collecting_op string int
  | OpAnswer collecting_op string
  | OpResult collecting_op string
  | OpFailure string

record message =
  ms_id :: string
  ms_sender :: string
  ms_recipients :: "string list"
  ms_text :: string
  ms_operation :: "message_operation option"

record history_entry =
  he_message :: message
  he_visibility :: visibility
  he_admission :: admission

record fact =
  fa_id :: string
  fa_source :: string
  fa_text :: string
  fa_visibility :: visibility

datatype authorization = Absent | Verified string message

record message_context =
  mc_agentId :: string
  mc_principal :: string
  mc_participants :: "(string \<times> string) list"
  mc_history :: "history_entry list"
  mc_earlierHistoryOmitted :: "bool option"
  mc_now :: "int option"
  mc_facts :: "fact list"
  mc_gaps :: "string list"
  mc_authorization :: authorization

datatype direction = Incoming | Outgoing

record message_event =
  ev_direction :: direction
  ev_message :: message

fun operationFits :: "message_operation \<Rightarrow> bool" where
  "operationFits (OpRequest _ i deadlineAt) \<longleftrightarrow> isFirewallIdentifier i \<and> 0 < deadlineAt"
| "operationFits (OpAnswer _ i) \<longleftrightarrow> isFirewallIdentifier i"
| "operationFits (OpResult _ i) \<longleftrightarrow> isFirewallIdentifier i"
| "operationFits (OpFailure i) \<longleftrightarrow> isFirewallIdentifier i"

definition messageFits :: "message \<Rightarrow> bool" where
  "messageFits m \<longleftrightarrow>
     isFirewallIdentifier (ms_id m) \<and> isFirewallIdentifier (ms_sender m) \<and>
     ms_recipients m \<noteq> [] \<and> list_all isFirewallIdentifier (ms_recipients m) \<and>
     (case ms_operation m of None \<Rightarrow> True | Some opn \<Rightarrow> operationFits opn)"

definition contextFits :: "message_context \<Rightarrow> bool" where
  "contextFits c \<longleftrightarrow>
     isFirewallIdentifier (mc_agentId c) \<and> isFirewallIdentifier (mc_principal c) \<and>
     list_all (\<lambda>(a, p). isFirewallIdentifier a \<and> isFirewallIdentifier p) (mc_participants c) \<and>
     list_all (\<lambda>e. messageFits (he_message e)) (mc_history c) \<and>
     (case mc_now c of None \<Rightarrow> True | Some t \<Rightarrow> 0 \<le> t) \<and>
     list_all (\<lambda>f. isFirewallIdentifier (fa_id f) \<and> isFirewallIdentifier (fa_source f) \<and> fa_text f \<noteq> []) (mc_facts c) \<and>
     list_all (\<lambda>g. g \<noteq> []) (mc_gaps c) \<and>
     (case mc_authorization c of Absent \<Rightarrow> True
      | Verified owner candidate \<Rightarrow> isFirewallIdentifier owner \<and> messageFits candidate)"

section \<open>Rules, findings and expectations\<close>

datatype rule_kind = Safety | Autonomy | Norm

record rule_feedback =
  fb_text :: string
  fb_nextAction :: next_action

record rule_description =
  rd_id :: string
  rd_kind :: rule_kind
  rd_source :: "string option"
  rd_guidance :: "string option"
  rd_feedback :: "rule_feedback option"

definition ruleFits :: "rule_description \<Rightarrow> bool" where
  "ruleFits r \<longleftrightarrow>
     isFirewallIdentifier (rd_id r) \<and>
     (case rd_source r of None \<Rightarrow> True | Some s \<Rightarrow> isFirewallIdentifier s) \<and>
     rd_guidance r \<noteq> Some [] \<and> (case rd_feedback r of None \<Rightarrow> True | Some f \<Rightarrow> fb_text f \<noteq> [])"

type_synonym probability = rat

datatype hold_reason = UnresolvedEvidence | CheckUnavailable

text \<open>
  A finding's outcome, with the fields its union member carries. \<open>PassUncertain\<close> is the
  member with the provider's choice and probability.
\<close>

datatype finding_outcome =
    PassUncertain string probability
  | Pass
  | NotApplicable
  | Block
  | NeedsRevision
  | ApprovalRequired
  | Hold hold_reason

record policy_finding =
  pf_ruleId :: string
  pf_outcome :: finding_outcome

datatype expectation = Required | Permitted | ExpectWait | ExpectNone

record norm_expectation =
  ne_ruleId :: string
  ne_expectation :: expectation
  ne_subjects :: "string list"

record middleware_result =
  mr_findings :: "policy_finding list"
  mr_expectations :: "norm_expectation list"

text \<open>What the schema of a result demands of its strings and probabilities.\<close>

definition findingFits :: "policy_finding \<Rightarrow> bool" where
  "findingFits f \<longleftrightarrow> isFirewallIdentifier (pf_ruleId f) \<and>
     (case pf_outcome f of PassUncertain choice p \<Rightarrow> isFirewallIdentifier choice \<and> 0 \<le> p \<and> p \<le> 1 | _ \<Rightarrow> True)"

definition resultFits :: "middleware_result \<Rightarrow> bool" where
  "resultFits r \<longleftrightarrow> list_all findingFits (mr_findings r) \<and>
     list_all (\<lambda>n. isFirewallIdentifier (ne_ruleId n) \<and> list_all isFirewallIdentifier (ne_subjects n)) (mr_expectations r)"

section \<open>Middleware and checks\<close>

datatype middleware_failure = Unavailable | Timeout | InvalidResult | Budget | Defect

datatype check_status = Completed | CheckFailed

record middleware_observation =
  mo_middlewareId :: string
  mo_revision :: string
  mo_status :: check_status
  mo_findings :: "policy_finding list"
  mo_expectations :: "norm_expectation list"

record middleware_check = middleware_observation +
  mk_elapsedMilliseconds :: int
  mk_failure :: "middleware_failure option"

record middleware_input =
  mi_event :: message_event
  mi_context :: message_context
  mi_previous :: "middleware_observation list"

text \<open>
  How an invocation of \<^verbatim>\<open>check\<close> ends, interruption apart, which ends the whole attempt: it
  returns a value (\<open>None\<close> when the value has none of the fields a result has), fails with a
  reason, dies with a defect, or the timer of its bound fires first. The registered code is a
  parameter, with the milliseconds the clock advances meanwhile.
\<close>

datatype check_reply = Returns "middleware_result option" | Fails middleware_failure | Dies | Overruns

record middleware =
  mw_id :: string
  mw_revision :: string
  mw_rules :: "rule_description list"
  mw_check :: "middleware_input \<Rightarrow> check_reply \<times> int"

record firewall_settings =
  fs_timeoutMilliseconds :: int
  fs_middlewareTimeoutMilliseconds :: int
  fs_maximumInputBytes :: int
  fs_maximumResultBytes :: int

datatype check_input_error = SettingsError | RegistrationError | MessageError | ContextError

datatype firewall_judgment = JAllow | JBlock | JHold | JRevise

datatype reason = Eligible | ApprovalNeeded | NormViolation | EvidenceUnresolved | CheckNotAvailable | Prohibited

datatype guidance =
    ExpectedGuidance string string expectation "string list" string
  | UncertainGuidance string string string probability string

record firewall_check =
  fc_judgment :: firewall_judgment
  fc_reason :: reason
  fc_feedback :: "rule_feedback list"
  fc_guidance :: "guidance list"
  fc_checks :: "middleware_check list"

text \<open>Reasons in the order of their precedence, from the one that admits to the strongest refusal.\<close>

fun severity :: "reason \<Rightarrow> nat" where
  "severity Eligible = 0"
| "severity ApprovalNeeded = 1"
| "severity NormViolation = 2"
| "severity EvidenceUnresolved = 3"
| "severity CheckNotAvailable = 4"
| "severity Prohibited = 5"

lemma severity_inject: "severity r = severity s \<longleftrightarrow> r = s"
  by (cases r; cases s) simp_all

instantiation reason :: linorder
begin

definition less_eq_reason :: "reason \<Rightarrow> reason \<Rightarrow> bool" where
  "less_eq_reason r s \<longleftrightarrow> severity r \<le> severity s"

definition less_reason :: "reason \<Rightarrow> reason \<Rightarrow> bool" where
  "less_reason r s \<longleftrightarrow> severity r < severity s"

instance
  by standard (auto simp: less_eq_reason_def less_reason_def severity_inject)

end

end
