(* ===== verification/Firewall_Decision.thy ===== *)
theory Firewall_Decision
  imports Firewall_Values
begin

text \<open>
  The composition of a firewall decision, \<^verbatim>\<open>firewall/evaluator/decision.ts\<close>: the reason all
  checks together select, the feedback and guidance projected for it, and the rules that
  decided it.
\<close>

section \<open>Tables\<close>

fun judgmentOf :: "reason \<Rightarrow> firewall_judgment" where
  "judgmentOf Eligible = JAllow"
| "judgmentOf Prohibited = JBlock"
| "judgmentOf EvidenceUnresolved = JHold"
| "judgmentOf CheckNotAvailable = JHold"
| "judgmentOf NormViolation = JRevise"
| "judgmentOf ApprovalNeeded = JHold"

fun defaultFeedback :: "reason \<Rightarrow> rule_feedback list" where
  "defaultFeedback Eligible = []"
| "defaultFeedback Prohibited =
     [\<lparr>fb_text = ''This message is prohibited by the owner'' @ [CHR 0x27] @ ''s policy.'', fb_nextAction = Stop\<rparr>]"
| "defaultFeedback EvidenceUnresolved =
     [\<lparr>fb_text = ''Required policy evidence is missing or uncertain. The message is held for owner review.'', fb_nextAction = Wait\<rparr>]"
| "defaultFeedback CheckNotAvailable =
     [\<lparr>fb_text = ''A required policy check is unavailable. The message is held for owner review.'', fb_nextAction = Wait\<rparr>]"
| "defaultFeedback NormViolation =
     [\<lparr>fb_text = ''Revise the message to satisfy the owner'' @ [CHR 0x27] @
         ''s communication norms before making a new send attempt.'', fb_nextAction = Revise\<rparr>]"
| "defaultFeedback ApprovalNeeded =
     [\<lparr>fb_text = ''Owner approval is required for this exact message. The message has not been admitted.'',
       fb_nextAction = SeekApproval\<rparr>]"

section \<open>Selecting the reason\<close>

definition allFindings :: "'a middleware_observation_scheme list \<Rightarrow> policy_finding list" where
  "allFindings checks = concat (map mo_findings checks)"

definition isHold :: "finding_outcome \<Rightarrow> bool" where
  "isHold outc = (case outc of Hold _ \<Rightarrow> True | _ \<Rightarrow> False)"

definition unavailableCheck :: "'a middleware_observation_scheme list \<Rightarrow> policy_finding list \<Rightarrow> bool" where
  "unavailableCheck checks findings \<longleftrightarrow>
     list_ex (\<lambda>c. mo_status c = CheckFailed) checks \<or>
     list_ex (\<lambda>f. pf_outcome f = Hold CheckUnavailable) findings"

record placed_norm =
  pn_middlewareId :: string
  pn_norm :: norm_expectation

definition placedNorms :: "'a middleware_observation_scheme list \<Rightarrow> placed_norm list" where
  "placedNorms checks =
     concat (map (\<lambda>c. map (\<lambda>n. \<lparr>pn_middlewareId = mo_middlewareId c, pn_norm = n\<rparr>) (mo_expectations c)) checks)"

definition opposing :: "norm_expectation \<Rightarrow> norm_expectation \<Rightarrow> bool" where
  "opposing l r \<longleftrightarrow> Required \<in> {ne_expectation l, ne_expectation r} \<and> ExpectWait \<in> {ne_expectation l, ne_expectation r}"

definition overlapping :: "norm_expectation \<Rightarrow> norm_expectation \<Rightarrow> bool" where
  "overlapping l r \<longleftrightarrow> ne_subjects l = [] \<or> ne_subjects r = [] \<or> list_ex (\<lambda>s. s \<in> set (ne_subjects r)) (ne_subjects l)"

definition conflictingExpectations :: "'a middleware_observation_scheme list \<Rightarrow> (string \<times> string) list" where
  "conflictingExpectations checks =
     (let expectations = placedNorms checks in
      map (\<lambda>p. (pn_middlewareId p, ne_ruleId (pn_norm p)))
        (filter (\<lambda>p. list_ex (\<lambda>q. opposing (pn_norm p) (pn_norm q) \<and> overlapping (pn_norm p) (pn_norm q)) expectations)
          expectations))"

definition unresolvedCheck ::
  "message_context \<Rightarrow> 'a middleware_observation_scheme list \<Rightarrow> policy_finding list \<Rightarrow> bool" where
  "unresolvedCheck ctx checks findings \<longleftrightarrow>
     length (mc_gaps ctx) \<noteq> 0 \<or> list_ex (\<lambda>f. isHold (pf_outcome f)) findings \<or> length (conflictingExpectations checks) \<noteq> 0"

definition hasApproval :: "message_event \<Rightarrow> message_context \<Rightarrow> bool" where
  "hasApproval event ctx =
     (case mc_authorization ctx of
        Absent \<Rightarrow> False
      | Verified owner candidate \<Rightarrow>
          if owner \<noteq> mc_principal ctx then False
          else
            let m = ev_message event;
                sameRecipients = length (ms_recipients candidate) = length (ms_recipients m) \<and>
                  list_all (\<lambda>(r, r'). r = r') (zip (ms_recipients candidate) (ms_recipients m))
            in sameRecipients \<and> ms_id candidate = ms_id m \<and> ms_text candidate = ms_text m \<and>
               ms_sender candidate = ms_sender m)"

definition selectReason :: "message_event \<Rightarrow> message_context \<Rightarrow> 'a middleware_observation_scheme list \<Rightarrow> reason" where
  "selectReason event ctx checks =
     (let findings = allFindings checks in
      if list_ex (\<lambda>f. pf_outcome f = Block) findings then Prohibited
      else if unavailableCheck checks findings then CheckNotAvailable
      else if unresolvedCheck ctx checks findings then EvidenceUnresolved
      else if list_ex (\<lambda>f. pf_outcome f = NeedsRevision) findings then NormViolation
      else if list_ex (\<lambda>f. pf_outcome f = ApprovalRequired) findings \<and> \<not> hasApproval event ctx then ApprovalNeeded
      else Eligible)"

section \<open>Projections\<close>

definition matchesReason :: "policy_finding \<Rightarrow> reason \<Rightarrow> bool" where
  "matchesReason finding r =
     (if r = Eligible then False
      else case pf_outcome finding of
        Hold UnresolvedEvidence \<Rightarrow> r = EvidenceUnresolved
      | Hold CheckUnavailable \<Rightarrow> r = CheckNotAvailable
      | PassUncertain _ _ \<Rightarrow> r = Eligible
      | Pass \<Rightarrow> r = Eligible
      | NotApplicable \<Rightarrow> r = Eligible
      | Block \<Rightarrow> r = Prohibited
      | NeedsRevision \<Rightarrow> r = NormViolation
      | ApprovalRequired \<Rightarrow> r = ApprovalNeeded)"

definition validNextAction :: "reason \<Rightarrow> next_action \<Rightarrow> bool" where
  "validNextAction r action =
     (if r = NormViolation then action = Revise \<or> action = Wait \<or> action = Stop
      else (case defaultFeedback r of [] \<Rightarrow> False | f # _ \<Rightarrow> action = fb_nextAction f))"

text \<open>A registration: the id of a middleware and the rules it declares.\<close>

type_synonym registration = "string \<times> rule_description list"

definition registrationOf :: "middleware \<Rightarrow> registration" where
  "registrationOf m = (mw_id m, mw_rules m)"

definition projectFeedback :: "registration list \<Rightarrow> 'a middleware_observation_scheme list \<Rightarrow> reason \<Rightarrow> rule_feedback list" where
  "projectFeedback middleware checks r =
     (let feedback = concat (map (\<lambda>(entryId, rules).
            let selected = (case List.find (\<lambda>c. mo_middlewareId c = entryId) checks of
                  None \<Rightarrow> []
                | Some c \<Rightarrow> map pf_ruleId (filter (\<lambda>f. matchesReason f r) (mo_findings c)))
            in concat (map (\<lambda>rule. case rd_feedback rule of
                   Some fb \<Rightarrow> if rd_id rule \<in> set selected \<and> validNextAction r (fb_nextAction fb) then [fb] else []
                 | None \<Rightarrow> []) rules)) middleware)
      in if length feedback = 0 then defaultFeedback r else feedback)"

definition projectGuidance :: "registration list \<Rightarrow> 'a middleware_observation_scheme list \<Rightarrow> guidance list" where
  "projectGuidance middleware checks = concat (map (\<lambda>c.
     let entry = List.find (\<lambda>(entryId, _). entryId = mo_middlewareId c) middleware;
         instructionFor = (\<lambda>ruleId. Option.bind entry (\<lambda>(_, rules).
           Option.bind (List.find (\<lambda>rule. rd_id rule = ruleId) rules) rd_guidance));
         expected = concat (map (\<lambda>n. case instructionFor (ne_ruleId n) of
             None \<Rightarrow> []
           | Some instruction \<Rightarrow>
               [ExpectedGuidance (mo_middlewareId c) (ne_ruleId n) (ne_expectation n) (ne_subjects n) instruction])
           (mo_expectations c));
         uncertain = concat (map (\<lambda>f. case pf_outcome f of
             PassUncertain choice p \<Rightarrow>
               (case instructionFor (pf_ruleId f) of
                  None \<Rightarrow> []
                | Some instruction \<Rightarrow> [UncertainGuidance (mo_middlewareId c) (pf_ruleId f) choice p instruction])
           | _ \<Rightarrow> []) (mo_findings c))
     in expected @ uncertain) checks)"

definition composeDecision ::
  "message_event \<Rightarrow> message_context \<Rightarrow> middleware list \<Rightarrow> middleware_check list \<Rightarrow> firewall_check" where
  "composeDecision event ctx mws checks =
     (let r = selectReason event ctx checks; registrations = map registrationOf mws in
      \<lparr>fc_judgment = judgmentOf r, fc_reason = r, fc_feedback = projectFeedback registrations checks r,
       fc_guidance = (if r = Eligible then projectGuidance registrations checks else []), fc_checks = checks\<rparr>)"

section \<open>Deciding rules\<close>

datatype deciding_finding = Settled | Uncertain | NotObtained

record deciding_rule =
  dr_middlewareId :: string
  dr_ruleId :: string
  dr_finding :: deciding_finding
  dr_advice :: "string option"

definition decidingFinding :: "policy_finding \<Rightarrow> reason \<Rightarrow> deciding_finding option" where
  "decidingFinding finding r =
     (if r = Eligible then (case pf_outcome finding of PassUncertain _ _ \<Rightarrow> Some Uncertain | _ \<Rightarrow> None)
      else if \<not> matchesReason finding r then None
      else if r = CheckNotAvailable then Some NotObtained
      else Some (if isHold (pf_outcome finding) then Uncertain else Settled))"

definition checkDeciders :: "reason \<Rightarrow> registration list \<Rightarrow> 'a middleware_observation_scheme \<Rightarrow> deciding_rule list" where
  "checkDeciders r middleware check =
     (if r = CheckNotAvailable \<and> mo_status check = CheckFailed then
        let registered = (case List.find (\<lambda>(entryId, _). entryId = mo_middlewareId check) middleware of
              None \<Rightarrow> [] | Some (_, rules) \<Rightarrow> rules)
        in map (\<lambda>rule. \<lparr>dr_middlewareId = mo_middlewareId check, dr_ruleId = rd_id rule,
                        dr_finding = NotObtained, dr_advice = None\<rparr>) registered
      else
        concat (map (\<lambda>f. case decidingFinding f r of
            None \<Rightarrow> []
          | Some kind \<Rightarrow> [\<lparr>dr_middlewareId = mo_middlewareId check, dr_ruleId = pf_ruleId f,
                            dr_finding = kind, dr_advice = None\<rparr>]) (mo_findings check)))"

definition registeredAdvice :: "reason \<Rightarrow> rule_description option \<Rightarrow> string option" where
  "registeredAdvice r rule =
     (if r = Eligible then Option.bind rule rd_guidance
      else (case Option.bind rule rd_feedback of
              Some fb \<Rightarrow> if validNextAction r (fb_nextAction fb) then Some (fb_text fb) else None
            | None \<Rightarrow> None))"

definition withAdvice :: "reason \<Rightarrow> registration list \<Rightarrow> deciding_rule \<Rightarrow> deciding_rule" where
  "withAdvice r middleware rule =
     (case registeredAdvice r
        (Option.bind (List.find (\<lambda>(entryId, _). entryId = dr_middlewareId rule) middleware) (\<lambda>(_, rules).
           List.find (\<lambda>d. rd_id d = dr_ruleId rule) rules)) of
        None \<Rightarrow> rule
      | Some advice \<Rightarrow> rule\<lparr>dr_advice := Some advice\<rparr>)"

text \<open>The loop over the selected rules keeps the first rule of every key in a \<^verbatim>\<open>Map\<close>.\<close>

fun keepFirst :: "reason \<Rightarrow> registration list \<Rightarrow> (string \<times> string, deciding_rule) jsmap \<Rightarrow> deciding_rule list \<Rightarrow>
    (string \<times> string, deciding_rule) jsmap" where
  "keepFirst r middleware unique [] = unique"
| "keepFirst r middleware unique (rule # rules) =
     (let key = (dr_middlewareId rule, dr_ruleId rule) in
      keepFirst r middleware
        (if jmGet unique key = None then jmSet key (withAdvice r middleware rule) unique else unique) rules)"

definition decidingRules :: "reason \<Rightarrow> registration list \<Rightarrow> 'a middleware_observation_scheme list \<Rightarrow> deciding_rule list" where
  "decidingRules r middleware checks =
     (let selected = concat (map (checkDeciders r middleware) checks);
          conflicting = (if r = EvidenceUnresolved
            then map (\<lambda>(m, i). \<lparr>dr_middlewareId = m, dr_ruleId = i, dr_finding = Settled, dr_advice = None\<rparr>)
                   (conflictingExpectations checks)
            else [])
      in map snd (keepFirst r middleware [] (selected @ conflicting)))"

end
