(* ===== verification/Firewall_Chain.thy ===== *)
theory Firewall_Chain
  imports Firewall_Decision
begin

text \<open>
  The sequential chain of middleware, \<^verbatim>\<open>firewall/evaluator/chain.ts\<close>, and the firewall made of
  one chain per direction, \<^verbatim>\<open>evaluator/index.ts\<close>. The clock is threaded through the loop in
  milliseconds and advances while registered code runs; the byte lengths of the JSON texts of
  an input and of a result, whose number formatting the model does not have, are parameters.
  Copying and freezing decoded values leaves a value as it is.
\<close>

record firewall_sizes =
  fz_inputBytes :: "middleware_input \<Rightarrow> int"
  fz_resultBytes :: "middleware_result \<Rightarrow> int"

section \<open>Registration\<close>

definition captureEntry :: "middleware \<Rightarrow> check_input_error + middleware" where
  "captureEntry entry =
     (if \<not> (isFirewallIdentifier (mw_id entry) \<and> isFirewallIdentifier (mw_revision entry) \<and>
            mw_rules entry \<noteq> [] \<and> list_all ruleFits (mw_rules entry))
      then Inl RegistrationError
      else if length (jsSet (map rd_id (mw_rules entry))) \<noteq> length (mw_rules entry) then Inl RegistrationError
      else Inr entry)"

section \<open>Input\<close>

definition captureInput :: "message_event \<Rightarrow> message_context \<Rightarrow> check_input_error + message_event \<times> message_context" where
  "captureInput event ctx =
     (if \<not> messageFits (ev_message event) then Inl MessageError
      else if \<not> contextFits ctx then Inl ContextError
      else
        let m = ev_message event;
            references = [ms_id m] @ map (\<lambda>e. ms_id (he_message e)) (mc_history ctx) @ map fa_id (mc_facts ctx);
            attribution = (case ev_direction event of
                Outgoing \<Rightarrow> ms_sender m = mc_agentId ctx
              | Incoming \<Rightarrow> mc_agentId ctx \<in> set (ms_recipients m))
        in if \<not> attribution \<or> length (jsSet (ms_recipients m)) \<noteq> length (ms_recipients m) then Inl MessageError
           else if length (jsSet references) \<noteq> length references \<or>
                   length (jsSet (map fst (mc_participants ctx))) \<noteq> length (mc_participants ctx)
           then Inl ContextError
           else Inr (event, ctx))"

section \<open>Results\<close>

definition validFinding :: "policy_finding \<Rightarrow> message_event \<Rightarrow> rule_description option \<Rightarrow> bool" where
  "validFinding finding event rule =
     (case rule of
        None \<Rightarrow> False
      | Some r \<Rightarrow>
          (case pf_outcome finding of
             PassUncertain _ _ \<Rightarrow> rd_kind r = Norm
           | NeedsRevision \<Rightarrow> ev_direction event = Outgoing \<and> rd_kind r = Norm
           | ApprovalRequired \<Rightarrow> rd_kind r = Autonomy
           | _ \<Rightarrow> True))"

text \<open>\<^verbatim>\<open>new Map(rules.map(...)).get(id)\<close>: the last rule with the id.\<close>

definition ruleById :: "rule_description list \<Rightarrow> string \<Rightarrow> rule_description option" where
  "ruleById rules i = List.find (\<lambda>r. rd_id r = i) (rev rules)"

definition runtimeSubjects :: "middleware_input \<Rightarrow> string list" where
  "runtimeSubjects input =
     map (\<lambda>e. ms_id (he_message e))
       (filter (\<lambda>e. he_admission e = Admitted \<and> he_visibility e = Runtime) (mc_history (mi_context input))) @
     (case ev_direction (mi_event input) of Incoming \<Rightarrow> [ms_id (ev_message (mi_event input))] | Outgoing \<Rightarrow> [])"

definition validResult :: "middleware_result \<Rightarrow> middleware \<Rightarrow> middleware_input \<Rightarrow> bool" where
  "validResult res mw input \<longleftrightarrow>
     list_all (\<lambda>rule. rd_id rule \<in> set (map pf_ruleId (mr_findings res))) (mw_rules mw) \<and>
     list_all (\<lambda>f. validFinding f (mi_event input) (ruleById (mw_rules mw) (pf_ruleId f))) (mr_findings res) \<and>
     length (jsSet (map ne_ruleId (mr_expectations res))) = length (mr_expectations res) \<and>
     list_all (\<lambda>n.
       map_option rd_kind (ruleById (mw_rules mw) (ne_ruleId n)) = Some Norm \<and>
       length (jsSet (ne_subjects n)) = length (ne_subjects n) \<and>
       list_all (\<lambda>s. s \<in> set (runtimeSubjects input)) (ne_subjects n)) (mr_expectations res)"

section \<open>Running one entry\<close>

text \<open>The value of an invocation, and the milliseconds it takes.\<close>

definition invokeMiddleware ::
  "firewall_sizes \<Rightarrow> middleware \<Rightarrow> middleware_input \<Rightarrow> firewall_settings \<Rightarrow>
   (middleware_failure + middleware_result) \<times> int" where
  "invokeMiddleware sizes mw input settings =
     (if fz_inputBytes sizes input > fs_maximumInputBytes settings then (Inl Budget, 0)
      else
        let (reply, elapsed) = mw_check mw input in
        ((case reply of
            Fails failure \<Rightarrow> Inl failure
          | Dies \<Rightarrow> Inl Defect
          | Overruns \<Rightarrow> Inl Timeout
          | Returns None \<Rightarrow> Inl InvalidResult
          | Returns (Some res) \<Rightarrow>
              if \<not> resultFits res then Inl InvalidResult
              else if fz_resultBytes sizes res > fs_maximumResultBytes settings then Inl Budget
              else if \<not> validResult res mw input then Inl InvalidResult
              else Inr res), elapsed))"

definition unavailableEntry :: "middleware \<Rightarrow> middleware_failure \<Rightarrow> int \<Rightarrow> middleware_check" where
  "unavailableEntry mw failure elapsed =
     \<lparr>mo_middlewareId = mw_id mw, mo_revision = mw_revision mw, mo_status = CheckFailed, mo_findings = [],
      mo_expectations = [], mk_elapsedMilliseconds = elapsed, mk_failure = Some failure\<rparr>"

definition runMiddleware ::
  "firewall_sizes \<Rightarrow> middleware \<Rightarrow> middleware_input \<Rightarrow> firewall_settings \<Rightarrow> int \<Rightarrow> int \<Rightarrow> middleware_check \<times> int" where
  "runMiddleware sizes mw input settings deadline started =
     (let remaining = deadline - started in
      if remaining \<le> 0 then (unavailableEntry mw Timeout 0, started)
      else
        let timeout = min remaining (fs_middlewareTimeoutMilliseconds settings);
            (returned, elapsed) = invokeMiddleware sizes mw input settings
        in ((case returned of
               Inl failure \<Rightarrow> unavailableEntry mw failure elapsed
             | Inr res \<Rightarrow>
                 if elapsed > timeout then unavailableEntry mw Timeout elapsed
                 else \<lparr>mo_middlewareId = mw_id mw, mo_revision = mw_revision mw, mo_status = Completed,
                        mo_findings = mr_findings res, mo_expectations = mr_expectations res,
                        mk_elapsedMilliseconds = elapsed, mk_failure = None\<rparr>), started + elapsed))"

section \<open>The chain\<close>

definition observed :: "middleware_check \<Rightarrow> middleware_observation" where
  "observed c = \<lparr>mo_middlewareId = mo_middlewareId c, mo_revision = mo_revision c, mo_status = mo_status c,
     mo_findings = mo_findings c, mo_expectations = mo_expectations c\<rparr>"

fun checkLoop ::
  "firewall_sizes \<Rightarrow> message_event \<Rightarrow> message_context \<Rightarrow> firewall_settings \<Rightarrow> int \<Rightarrow>
   middleware_check list \<Rightarrow> middleware list \<Rightarrow> int \<Rightarrow> middleware_check list" where
  "checkLoop sizes event ctx settings deadline checks [] now = checks"
| "checkLoop sizes event ctx settings deadline checks (entry # entries) now =
     (let (check, now') = runMiddleware sizes entry
            \<lparr>mi_event = event, mi_context = ctx, mi_previous = map observed checks\<rparr> settings deadline now
      in checkLoop sizes event ctx settings deadline (checks @ [check]) entries now')"

definition checkMessage ::
  "firewall_sizes \<Rightarrow> message_event \<Rightarrow> message_context \<Rightarrow> middleware list \<Rightarrow> firewall_settings \<Rightarrow> int \<Rightarrow>
   check_input_error + firewall_check" where
  "checkMessage sizes event ctx mws settings now =
     bindE (captureInput event ctx) (\<lambda>(capturedEvent, capturedContext).
     let deadline = now + fs_timeoutMilliseconds settings in
     Inr (composeDecision capturedEvent capturedContext mws
            (checkLoop sizes capturedEvent capturedContext settings deadline [] mws now)))"

type_synonym chain = "message_event \<Rightarrow> message_context \<Rightarrow> int \<Rightarrow> check_input_error + firewall_check"

definition makeChain :: "firewall_sizes \<Rightarrow> middleware list \<Rightarrow> firewall_settings \<Rightarrow> check_input_error + chain" where
  "makeChain sizes entries settings =
     (if length (jsSet (map mw_id entries)) \<noteq> length entries then Inl RegistrationError
      else bindE (forEachE captureEntry entries) (\<lambda>mws.
        Inr (\<lambda>event ctx now. checkMessage sizes event ctx mws settings now)))"

section \<open>The firewall\<close>

definition settingsFit :: "firewall_settings \<Rightarrow> bool" where
  "settingsFit s \<longleftrightarrow> 0 < fs_timeoutMilliseconds s \<and> 0 < fs_middlewareTimeoutMilliseconds s \<and>
     0 < fs_maximumInputBytes s \<and> 0 < fs_maximumResultBytes s"

record firewall =
  checkIncoming :: "message \<Rightarrow> message_context \<Rightarrow> int \<Rightarrow> check_input_error + firewall_check"
  checkOutgoing :: "message \<Rightarrow> message_context \<Rightarrow> int \<Rightarrow> check_input_error + firewall_check"

definition makeFirewall ::
  "firewall_sizes \<Rightarrow> middleware list \<Rightarrow> middleware list \<Rightarrow> firewall_settings \<Rightarrow> check_input_error + firewall" where
  "makeFirewall sizes incoming outgoing settings =
     (if \<not> settingsFit settings then Inl SettingsError
      else
        bindE (makeChain sizes incoming settings) (\<lambda>inChain.
        bindE (makeChain sizes outgoing settings) (\<lambda>outChain.
        Inr \<lparr>checkIncoming = (\<lambda>m ctx now.
               bindE (inChain \<lparr>ev_direction = Incoming, ev_message = m\<rparr> ctx now) (\<lambda>result.
               if fc_judgment result = JRevise then Inl MessageError else Inr result)),
             checkOutgoing = (\<lambda>m ctx now. outChain \<lparr>ev_direction = Outgoing, ev_message = m\<rparr> ctx now)\<rparr>)))"

end
