(* ===== verification/Firewall_English.thy ===== *)
theory Firewall_English
  imports Firewall_Questions
begin

text \<open>
  English policies, \<^verbatim>\<open>firewall/evaluator/english.ts\<close>: the stages of an assessment, the routing
  of the answers, and the findings they become. The decision provider is a parameter, with the
  milliseconds its call takes. A JavaScript number is a rational, and \<open>fl\<close> rounds the result
  of an operation to the nearest double, so every operation of the source is written out
  with its rounding. Private traces and provenance, which nothing interprets, are left out.
\<close>

section \<open>Responses\<close>

datatype provider_failure =
  ConfigurationFailure | TransportFailure | HttpFailure | ProviderTimeout | InvalidResponse | BudgetFailure | ProviderDefect

record accounting =
  ac_provider :: string
  ac_model :: string
  ac_usage :: "(string \<times> int) list"

record provider_error =
  pe_reason :: provider_failure
  pe_status :: "int option"
  pe_response :: "string option"
  pe_accounting :: "accounting option"

definition providerError :: "provider_failure \<Rightarrow> provider_error" where
  "providerError failure = \<lparr>pe_reason = failure, pe_status = None, pe_response = None, pe_accounting = None\<rparr>"

record provider_answer =
  an_choice :: string
  an_probabilities :: "(string, rat) jsmap"
  an_confidence :: "rat option"

record decision_response =
  dr_provider :: string
  dr_model :: string
  dr_answers :: "(string, provider_answer) jsmap"
  dr_usage :: "(string \<times> int) list"
  dr_raw :: string

text \<open>What the schema of a response demands, with the keys of a record distinct.\<close>

definition isProbability :: "rat \<Rightarrow> bool" where
  "isProbability p \<longleftrightarrow> 0 \<le> p \<and> p \<le> 1"

definition answerFits :: "provider_answer \<Rightarrow> bool" where
  "answerFits a \<longleftrightarrow> isFirewallIdentifier (an_choice a) \<and> jmWf (an_probabilities a) \<and>
     list_all (\<lambda>(k, p). isFirewallIdentifier k \<and> isProbability p) (an_probabilities a) \<and>
     (case an_confidence a of None \<Rightarrow> True | Some p \<Rightarrow> isProbability p)"

definition responseFits :: "decision_response \<Rightarrow> bool" where
  "responseFits r \<longleftrightarrow> isFirewallIdentifier (dr_provider r) \<and> isFirewallIdentifier (dr_model r) \<and>
     jmWf (dr_answers r) \<and> list_all (\<lambda>(k, a). isFirewallIdentifier k \<and> answerFits a) (dr_answers r) \<and>
     list_all (\<lambda>(k, n). isFirewallIdentifier k \<and> 0 \<le> n) (dr_usage r)"

text \<open>
  How a call of the provider ends, interruption apart: with a value (\<open>None\<close> when it has none
  of the fields of a response), with an error, with a defect, or by the timer of its bound.
\<close>

datatype provider_reply = Responds "decision_response option" | Refuses provider_error | ProviderDies | ProviderOverruns

type_synonym decision_provider = "decision_request \<Rightarrow> provider_reply \<times> int"

record english_settings =
  en_minimumProbability :: rat
  en_maximumRequestBytes :: int
  en_timeoutMilliseconds :: int

section \<open>Answers\<close>

text \<open>\<^verbatim>\<open>Number.EPSILON\<close> and \<^verbatim>\<open>Math.round\<close>.\<close>

definition numberEpsilon :: rat where
  "numberEpsilon = 1 / 2 ^ 52"

definition mathRound :: "rat \<Rightarrow> rat" where
  "mathRound x = of_int \<lfloor>x + 1 / 2\<rfloor>"

text \<open>The allowances for the choice and for the sum.\<close>

definition roundingTolerance :: "(rat \<Rightarrow> rat) \<Rightarrow> rat list \<Rightarrow> rat \<times> rat" where
  "roundingTolerance fl probabilities =
     (let floatingPoint = fl (numberEpsilon * of_nat (length probabilities));
          rounded = list_all (\<lambda>value. \<bar>fl (fl (value * 100) - mathRound (fl (value * 100)))\<bar> < fl (1 / 10 ^ 8)) probabilities
      in if \<not> rounded then (0, fl (fl (1 / 1000) + floatingPoint))
         else
           let rounding = fl (min (fl (of_nat (length probabilities) * fl (5 / 1000))) (fl (2 / 100)) + floatingPoint)
           in (rounding, rounding))"

definition validAnswer :: "(rat \<Rightarrow> rat) \<Rightarrow> question \<Rightarrow> provider_answer \<Rightarrow> bool" where
  "validAnswer fl question answer =
     (let choices = map fst (qu_criteria question);
          probabilities = map snd (an_probabilities answer)
      in case jmGet (an_probabilities answer) (an_choice answer) of
           None \<Rightarrow> False
         | Some selected \<Rightarrow>
             if an_choice answer \<notin> set choices \<or> length choices \<noteq> length probabilities then False
             else
               let (choiceTolerance, sumTolerance) = roundingTolerance fl probabilities in
               list_all (\<lambda>choice. jmGet (an_probabilities answer) choice \<noteq> None) choices \<and>
               list_all (\<lambda>value. fl (value - selected) \<le> choiceTolerance) probabilities \<and>
               \<bar>fl (foldl (\<lambda>sum value. fl (sum + value)) 0 probabilities - 1)\<bar> \<le> sumTolerance)"

definition validAnswers :: "(rat \<Rightarrow> rat) \<Rightarrow> decision_request \<Rightarrow> decision_response \<Rightarrow> bool" where
  "validAnswers fl request response =
     (let questions = dq_questions request in
      if length questions \<noteq> length (dr_answers response) then False
      else list_all (\<lambda>(i, question). case jmGet (dr_answers response) i of
             None \<Rightarrow> False | Some answer \<Rightarrow> validAnswer fl question answer) questions)"

definition unsettled :: "provider_answer \<Rightarrow> rat \<Rightarrow> bool" where
  "unsettled answer minimumProbability =
     (let selected = (case jmGet (an_probabilities answer) (an_choice answer) of None \<Rightarrow> 0 | Some p \<Rightarrow> p) in
      an_choice answer = ''unresolved'' \<or> selected < minimumProbability \<or>
      list_ex (\<lambda>value. value > selected) (map snd (an_probabilities answer)))"

section \<open>Stages\<close>

text \<open>The response a call leads to, and the milliseconds it takes.\<close>

definition decideWithinBudget ::
  "(rat \<Rightarrow> rat) \<Rightarrow> decision_request \<Rightarrow> decision_provider \<Rightarrow> (provider_error + decision_response) \<times> int" where
  "decideWithinBudget fl request provider =
     (let (reply, elapsed) = provider request in
      ((case reply of
          Refuses error \<Rightarrow> Inl error
        | ProviderDies \<Rightarrow> Inl (providerError ProviderDefect)
        | ProviderOverruns \<Rightarrow> Inl (providerError ProviderTimeout)
        | Responds None \<Rightarrow> Inl (providerError InvalidResponse)
        | Responds (Some response) \<Rightarrow>
            if \<not> responseFits response then Inl (providerError InvalidResponse)
            else if \<not> validAnswers fl request response
            then Inl \<lparr>pe_reason = InvalidResponse, pe_status = None, pe_response = Some (dr_raw response),
                      pe_accounting = Some \<lparr>ac_provider = dr_provider response, ac_model = dr_model response,
                        ac_usage = dr_usage response\<rparr>\<rparr>
            else Inr response), elapsed))"

datatype stage_status =
    Answered decision_request decision_response "string list"
  | Failed "decision_request option" provider_error
  | EmptyStage
  | DependencyUnavailable

record stage_trace =
  st_stage :: policy_stage
  st_status :: stage_status
  st_elapsedMilliseconds :: int

definition runStage ::
  "(rat \<Rightarrow> rat) \<Rightarrow> policy_stage \<Rightarrow> decision_request option \<Rightarrow> decision_provider \<Rightarrow> english_settings \<Rightarrow> stage_trace" where
  "runStage fl stage preparation provider settings =
     (case preparation of
        None \<Rightarrow> \<lparr>st_stage = stage, st_status = Failed None (providerError BudgetFailure), st_elapsedMilliseconds = 0\<rparr>
      | Some request \<Rightarrow>
          if length (dq_questions request) = 0
          then \<lparr>st_stage = dq_stage request, st_status = EmptyStage, st_elapsedMilliseconds = 0\<rparr>
          else
            let (result, elapsed) = decideWithinBudget fl request provider in
            case result of
              Inl failure \<Rightarrow>
                \<lparr>st_stage = dq_stage request, st_status = Failed (Some request) failure, st_elapsedMilliseconds = elapsed\<rparr>
            | Inr response \<Rightarrow>
                \<lparr>st_stage = dq_stage request,
                 st_status = Answered request response
                   (concat (map (\<lambda>(i, answer). if unsettled answer (en_minimumProbability settings) then [i] else [])
                      (dr_answers response))),
                 st_elapsedMilliseconds = elapsed\<rparr>)"

definition expectationOf :: "string option \<Rightarrow> expectation option" where
  "expectationOf choice =
     (if choice = Some ''required'' then Some Required
      else if choice = Some ''permitted'' then Some Permitted
      else if choice = Some ''wait'' then Some ExpectWait
      else if choice = Some ''none'' then Some ExpectNone
      else None)"

definition normSubjects ::
  "decision_response \<Rightarrow> string list \<Rightarrow> (string, question) jsmap \<Rightarrow> (string, string list) jsmap" where
  "normSubjects response uncertain questions =
     fold (\<lambda>(i, question) subjects.
       case qu_subject question of
         Some subject \<Rightarrow>
           if qu_purpose question = SubjectReference \<and> i \<notin> set uncertain \<and>
              map_option an_choice (jmGet (dr_answers response) i) = Some ''relevant''
           then jmSet (qu_ruleId question)
                  ((case jmGet subjects (qu_ruleId question) of None \<Rightarrow> [] | Some references \<Rightarrow> references) @ [subject])
                  subjects
           else subjects
       | None \<Rightarrow> subjects) questions []"

definition readNorms :: "stage_trace \<Rightarrow> norm_expectation list" where
  "readNorms trace =
     (case st_status trace of
        Answered request response uncertain \<Rightarrow>
          let subjects = normSubjects response uncertain (dq_questions request) in
          concat (map (\<lambda>(i, question).
            case expectationOf (map_option an_choice (jmGet (dr_answers response) i)) of
              None \<Rightarrow> []
            | Some expected \<Rightarrow>
                if qu_purpose question \<noteq> Assessment \<or> i \<in> set uncertain then []
                else [\<lparr>ne_ruleId = qu_ruleId question, ne_expectation = expected,
                       ne_subjects = (case jmGet subjects (qu_ruleId question) of None \<Rightarrow> [] | Some references \<Rightarrow> references)\<rparr>])
            (dq_questions request))
      | _ \<Rightarrow> [])"

definition evaluateConformance ::
  "(rat \<Rightarrow> rat) \<Rightarrow> state_text \<Rightarrow> english_check \<Rightarrow> stage_trace \<Rightarrow> decision_provider \<Rightarrow> english_settings \<Rightarrow> stage_trace" where
  "evaluateConformance fl stateText snapshot expectations provider settings =
     (case st_status expectations of
        Failed _ _ \<Rightarrow> \<lparr>st_stage = Conformance, st_status = DependencyUnavailable, st_elapsedMilliseconds = 0\<rparr>
      | DependencyUnavailable \<Rightarrow>
          \<lparr>st_stage = Conformance, st_status = DependencyUnavailable, st_elapsedMilliseconds = 0\<rparr>
      | _ \<Rightarrow>
          runStage fl Conformance
            (makeEnglishRequest stateText Conformance snapshot (en_maximumRequestBytes settings) (readNorms expectations))
            provider settings)"

section \<open>Findings\<close>

definition stageIncludes :: "english_rule \<Rightarrow> policy_stage \<Rightarrow> bool" where
  "stageIncludes rule stage \<longleftrightarrow>
     stage = Applicability \<or> stage = SafetyStage \<and> rd_kind rule = Safety \<or>
     stage = AutonomyStage \<and> rd_kind rule = Autonomy \<or>
     rd_kind rule = Norm \<and> (stage = Expectations \<or> stage = Conformance)"

definition answerOutcome :: "string option \<Rightarrow> finding_outcome" where
  "answerOutcome choice =
     (if choice = None then Pass
      else if choice = Some ''prohibited'' then Block
      else if choice = Some ''violation'' then NeedsRevision
      else if choice = Some ''approval-required'' then ApprovalRequired
      else Pass)"

definition questionFinding :: "question \<Rightarrow> bool \<Rightarrow> bool \<Rightarrow> provider_answer option \<Rightarrow> policy_finding" where
  "questionFinding question isNorm uncertain answer =
     (let ruleId = qu_ruleId question in
      if \<not> uncertain then \<lparr>pf_ruleId = ruleId, pf_outcome = answerOutcome (map_option an_choice answer)\<rparr>
      else if \<not> isNorm then \<lparr>pf_ruleId = ruleId, pf_outcome = Hold UnresolvedEvidence\<rparr>
      else case answer of
          None \<Rightarrow> \<lparr>pf_ruleId = ruleId, pf_outcome = Pass\<rparr>
        | Some a \<Rightarrow>
            if qu_purpose question = SubjectReference then \<lparr>pf_ruleId = ruleId, pf_outcome = Pass\<rparr>
            else \<lparr>pf_ruleId = ruleId,
                  pf_outcome = PassUncertain (an_choice a)
                    (case jmGet (an_probabilities a) (an_choice a) of None \<Rightarrow> 0 | Some p \<Rightarrow> p)\<rparr>)"

definition stageFindings :: "stage_trace \<Rightarrow> english_rule list \<Rightarrow> policy_finding list" where
  "stageFindings trace rules =
     (case st_status trace of
        EmptyStage \<Rightarrow> []
      | Failed _ _ \<Rightarrow>
          map (\<lambda>rule. \<lparr>pf_ruleId = rd_id rule, pf_outcome = Hold CheckUnavailable\<rparr>)
            (filter (\<lambda>rule. stageIncludes rule (st_stage trace)) rules)
      | DependencyUnavailable \<Rightarrow>
          map (\<lambda>rule. \<lparr>pf_ruleId = rd_id rule, pf_outcome = Hold UnresolvedEvidence\<rparr>)
            (filter (\<lambda>rule. stageIncludes rule (st_stage trace)) rules)
      | Answered request response uncertain \<Rightarrow>
          let norms = map rd_id (filter (\<lambda>rule. rd_kind rule = Norm) rules) in
          map (\<lambda>(i, question). questionFinding question (qu_ruleId question \<in> set norms) (i \<in> set uncertain)
                 (jmGet (dr_answers response) i)) (dq_questions request))"

section \<open>The check\<close>

definition firstStages :: "policy_stage list" where
  "firstStages = [Applicability, SafetyStage, AutonomyStage, Expectations]"

definition checkTrace ::
  "(rat \<Rightarrow> rat) \<Rightarrow> state_text \<Rightarrow> english_check \<Rightarrow> decision_provider \<Rightarrow> english_settings \<Rightarrow> stage_trace list" where
  "checkTrace fl stateText check provider settings =
     map (\<lambda>stage. runStage fl stage
       (makeEnglishRequest stateText stage check (en_maximumRequestBytes settings) []) provider settings) firstStages"

definition checkEnglish ::
  "(rat \<Rightarrow> rat) \<Rightarrow> state_text \<Rightarrow> middleware_input \<Rightarrow> english_rule list \<Rightarrow> string \<Rightarrow> decision_provider \<Rightarrow>
   english_settings \<Rightarrow> middleware_result \<times> int" where
  "checkEnglish fl stateText input rules revision provider settings =
     (let check = \<lparr>ek_event = mi_event input, ek_context = mi_context input, ek_revision = revision, ek_rules = rules\<rparr>;
          trace = checkTrace fl stateText check provider settings;
          expectations = List.find (\<lambda>entry. st_stage entry = Expectations) trace;
          norms = (case expectations of None \<Rightarrow> [] | Some entry \<Rightarrow> readNorms entry);
          trace' = (case expectations of
              None \<Rightarrow> trace
            | Some entry \<Rightarrow>
                if ev_direction (ek_event check) = Outgoing
                then trace @ [evaluateConformance fl stateText check entry provider settings] else trace)
      in (\<lparr>mr_findings = concat (map (\<lambda>stage. stageFindings stage rules) trace'), mr_expectations = norms\<rparr>,
          sum_list (map st_elapsedMilliseconds trace')))"

section \<open>Registration\<close>

definition englishSettingsFit :: "english_settings \<Rightarrow> bool" where
  "englishSettingsFit s \<longleftrightarrow> 1 / 2 \<le> en_minimumProbability s \<and> en_minimumProbability s \<le> 1 \<and>
     0 < en_maximumRequestBytes s \<and> 0 < en_timeoutMilliseconds s"

definition englishRuleFits :: "english_rule \<Rightarrow> bool" where
  "englishRuleFits r \<longleftrightarrow> ruleFits (rule_description.truncate r) \<and> er_text r \<noteq> []"

text \<open>The digest of the question edition, the rules and the settings is a parameter.\<close>

type_synonym english_revision = "english_rule list \<Rightarrow> english_settings \<Rightarrow> string"

definition makeEnglishPolicy ::
  "(rat \<Rightarrow> rat) \<Rightarrow> state_text \<Rightarrow> english_revision \<Rightarrow> string \<Rightarrow> english_rule list \<Rightarrow> decision_provider \<Rightarrow> english_settings \<Rightarrow>
   check_input_error + middleware" where
  "makeEnglishPolicy fl stateText englishRevision i rules provider settings =
     (if \<not> englishSettingsFit settings then Inl SettingsError
      else if \<not> (isFirewallIdentifier i \<and> rules \<noteq> [] \<and> list_all englishRuleFits rules) then Inl RegistrationError
      else if length (jsSet (map rd_id rules)) \<noteq> length rules then Inl RegistrationError
      else
        let descriptions = map rule_description.truncate rules;
            revision = englishRevision rules settings
        in Inr \<lparr>mw_id = i, mw_revision = revision, mw_rules = descriptions,
                mw_check = (\<lambda>input.
                  let (result, elapsed) = checkEnglish fl stateText input rules revision provider settings
                  in (Returns (Some result), elapsed))\<rparr>)"

end
