(* ===== verification/Firewall_Rules.thy ===== *)
theory Firewall_Rules
  imports Firewall_English
begin

text \<open>
  The built-in code rules that decide from structured evidence: the collective norms of
  \<^verbatim>\<open>firewall/rules/collective-norms.ts\<close> and the allowed senders and empty acknowledgements of
  \<^verbatim>\<open>firewall/rules/builtin.ts\<close>. The words of a text, which a Unicode property finds, and the
  case-insensitive patterns are parameters, as are the digests that name a revision. The
  credential and plain-language rules, which are patterns over prose, are not modelled.
\<close>

section \<open>English norms\<close>

definition COLLECTIVE_NORMS_ID :: string where
  "COLLECTIVE_NORMS_ID = ''org.social-harness/collective-norms''"

definition ONE_GATHER_RULE :: english_rule where
  "ONE_GATHER_RULE =
     \<lparr>rd_id = ''one-gather'', rd_kind = Norm, rd_source = None,
      rd_guidance = Some ''Ask several members the same question with one gather or all_gather to all of them, not with a plain message or separate direct messages; the group-messaging skill shows how.'',
      rd_feedback = Some \<lparr>fb_text = ''Ask everyone this question at once instead of collecting replies by hand: start one gather or all_gather if you are the facilitator, or ask the facilitator to. The group-messaging skill shows the format.'', fb_nextAction = Revise\<rparr>,
      er_text = ''When an agent needs the same answer from several members, it asks all of them at once with one gather or all_gather, not with a plain message asking each of them to reply or with separate messages asking members one at a time. A plain message that asks several members to each reply with an answer to the same question violates this norm, and so does a message asking a member a question this conversation shows the agent already asked another member separately. Judge only from this conversation: without such evidence the message conforms. A reply, an answer to a request, or a question only that member can answer conforms.''\<rparr>"

definition ANNOUNCE_ONCE_RULE :: english_rule where
  "ANNOUNCE_ONCE_RULE =
     \<lparr>rd_id = ''announce-once'', rd_kind = Norm, rd_source = None,
      rd_guidance = Some ''An outcome is announced to the group once; do not announce or confirm it again.'',
      rd_feedback = Some \<lparr>fb_text = ''This outcome was already announced in this conversation. Do not announce or confirm it again; send only new information.'', fb_nextAction = Stop\<rparr>,
      er_text = ''An outcome, such as a decision, a booking or a collective result, is announced to the group once. An agent does not announce again an outcome that it or another member already announced in this conversation, and does not post a message whose only content restates or confirms an announced outcome.''\<rparr>"

definition RESULT_SETTLES_RULE :: english_rule where
  "RESULT_SETTLES_RULE =
     \<lparr>rd_id = ''result-settles'', rd_kind = Norm, rd_source = None,
      rd_guidance = Some ''A collective result settles the question it asked; act on the result rather than asking again.'',
      rd_feedback = Some \<lparr>fb_text = ''A collective result already answered this question. Act on that result instead of asking again.'', fb_nextAction = Revise\<rparr>,
      er_text = ''A collective result settles the question its gather or all_gather asked. After a result in this conversation answered a question, an agent does not ask that question again, by message or by a new gather or all_gather, unless the result held no usable answer or the question has changed.''\<rparr>"

definition OUTGOING_ENGLISH_RULES :: "english_rule list" where
  "OUTGOING_ENGLISH_RULES = [ONE_GATHER_RULE, ANNOUNCE_ONCE_RULE, RESULT_SETTLES_RULE]"

definition ACKNOWLEDGEMENT_RULE :: english_rule where
  "ACKNOWLEDGEMENT_RULE =
     \<lparr>rd_id = ''acknowledgement'', rd_kind = Norm, rd_source = None,
      rd_guidance = Some ''No response is needed to an acknowledgement that answers nothing you asked and asks for nothing.'',
      rd_feedback = None,
      er_text = ''An acknowledgement that answers nothing you asked and asks for nothing needs no response. For such an incoming acknowledgement, select the response expectation none. An answer to an outstanding question or a new request is not an empty acknowledgement.''\<rparr>"

definition INCOMING_ENGLISH_RULES :: "english_rule list" where
  "INCOMING_ENGLISH_RULES = ACKNOWLEDGEMENT_RULE # OUTGOING_ENGLISH_RULES"

definition ACKNOWLEDGEMENT_WORDS :: "string list" where
  "ACKNOWLEDGEMENT_WORDS =
     [''ack'', ''acknowledged'', ''appreciate'', ''appreciated'', ''cheers'', ''got'', ''noted'', ''received'', ''roger'', ''thank'',
      ''thanks'', ''thx'', ''ty'', ''understood'']"

definition ACKNOWLEDGEMENT_FILLER :: "string list" where
  "ACKNOWLEDGEMENT_FILLER =
     [''a'', ''again'', ''all'', ''and'', ''both'', ''confirmation'', ''confirming'', ''everybody'', ''everyone'', ''folks'',
      ''for'', ''heads'', ''hey'', ''hi'', ''info'', ''it'', ''just'', ''know'', ''letting'', ''lot'',
      ''much'', ''organizing'', ''really'', ''so'', ''team'', ''that'', ''the'', ''this'', ''up'', ''update'',
      ''updates'', ''us'', ''very'', ''you'']"

section \<open>Code norms\<close>

definition revisionOutcome :: "bool \<Rightarrow> finding_outcome" where
  "revisionOutcome violating = (if violating then NeedsRevision else Pass)"

fun closedRequest :: "message_operation option \<Rightarrow> string list" where
  "closedRequest (Some (OpResult _ i)) = [i]"
| "closedRequest (Some (OpFailure i)) = [i]"
| "closedRequest (Some (OpAnswer opr i)) = (if opr = Gather then [i] else [])"
| "closedRequest (Some (OpRequest _ _ _)) = []"
| "closedRequest None = []"

fun isOpenRequest :: "message_operation option \<Rightarrow> string list \<Rightarrow> int option \<Rightarrow> bool" where
  "isOpenRequest (Some (OpRequest _ i deadlineAt)) closedIds now \<longleftrightarrow>
     i \<notin> set closedIds \<and> (case now of None \<Rightarrow> True | Some t \<Rightarrow> deadlineAt > t)"
| "isOpenRequest _ closedIds now \<longleftrightarrow> False"

definition hasOpenRequest :: "message_context \<Rightarrow> bool" where
  "hasOpenRequest ctx =
     (let closedIds = concat (map (\<lambda>entry. closedRequest (ms_operation (he_message entry))) (mc_history ctx)) in
      list_ex (\<lambda>entry. ms_sender (he_message entry) = mc_agentId ctx \<and>
        isOpenRequest (ms_operation (he_message entry)) closedIds (mc_now ctx)) (mc_history ctx))"

text \<open>The lower-case words of a text, addresses and mentions removed.\<close>

type_synonym words_of = "string \<Rightarrow> string list"

fun occursIn :: "string \<Rightarrow> string \<Rightarrow> bool" where
  "occursIn w [] \<longleftrightarrow> w = []"
| "occursIn w (c # s) \<longleftrightarrow> take (length w) (c # s) = w \<or> occursIn w s"

definition isAcknowledgementOnly :: "words_of \<Rightarrow> string \<Rightarrow> bool" where
  "isAcknowledgementOnly wordsOf s =
     (if list_ex (\<lambda>c. c = CHR ''?'' \<or> 48 \<le> (of_char c :: nat) \<and> (of_char c :: nat) \<le> 57) s \<or>
         occursIn ''http://'' s \<or> occursIn ''https://'' s
      then False
      else
        let found = wordsOf s in
        length found > 0 \<and>
        list_all (\<lambda>w. w \<in> set ACKNOWLEDGEMENT_WORDS \<or> w \<in> set ACKNOWLEDGEMENT_FILLER) found \<and>
        list_ex (\<lambda>w. w \<in> set ACKNOWLEDGEMENT_WORDS) found)"

record code_rule =
  cr_description :: rule_description
  cr_statement :: string
  cr_assess :: "message \<Rightarrow> message_context \<Rightarrow> bool \<Rightarrow> finding_outcome"

definition CODE_RULES :: "words_of \<Rightarrow> code_rule list" where
  "CODE_RULES wordsOf =
     [\<lparr>cr_description =
          \<lparr>rd_id = ''facilitator-starts-collectives'', rd_kind = Norm, rd_source = None, rd_guidance = None,
           rd_feedback = Some \<lparr>fb_text = (''Only the run'' @ [CHR 0x27] @ ''s facilitator starts a gather or all_gather that asks several members. Send your question or proposal to the facilitator instead, or ask one member what only that member can answer.''), fb_nextAction = Revise\<rparr>\<rparr>,
        cr_statement = (''Only an agent configured as the run'' @ [CHR 0x27] @ ''s facilitator starts a gather or all_gather that asks two or more members.''),
        cr_assess = (\<lambda>m ctx facilitator.
          case ms_operation m of
            Some (OpRequest _ _ _) \<Rightarrow> if length (ms_recipients m) > 1 then revisionOutcome (\<not> facilitator) else NotApplicable
          | _ \<Rightarrow> NotApplicable)\<rparr>,
      \<lparr>cr_description =
          \<lparr>rd_id = ''one-open-request'', rd_kind = Norm, rd_source = None, rd_guidance = None,
           rd_feedback = Some \<lparr>fb_text = ''Your earlier request in this conversation is still open. Wait for its result or its deadline before asking again; a member can answer only one open request in a conversation.'', fb_nextAction = Wait\<rparr>\<rparr>,
        cr_statement = ''An agent does not open a request in a conversation where an earlier request of its own is still open: no result or failure has arrived for it, its deadline has not passed, and, for a gather, its member has not answered it.'',
        cr_assess = (\<lambda>m ctx facilitator.
          case ms_operation m of
            Some (OpRequest _ _ _) \<Rightarrow> revisionOutcome (hasOpenRequest ctx)
          | _ \<Rightarrow> NotApplicable)\<rparr>,
      \<lparr>cr_description =
          \<lparr>rd_id = ''no-acknowledgement-posts'', rd_kind = Norm, rd_source = None, rd_guidance = None,
           rd_feedback = Some \<lparr>fb_text = ''Do not post a message that only thanks or acknowledges to several members. Send nothing, or send only a question or new information.'', fb_nextAction = Stop\<rparr>\<rparr>,
        cr_statement = ''An agent does not post to two or more members a plain message that only thanks or acknowledges and carries no question, number, link or other information.'',
        cr_assess = (\<lambda>m ctx facilitator.
          if ms_operation m = None \<and> length (ms_recipients m) > 1
          then revisionOutcome (isAcknowledgementOnly wordsOf (ms_text m)) else NotApplicable)\<rparr>]"

definition codeFindings :: "words_of \<Rightarrow> middleware_input \<Rightarrow> bool \<Rightarrow> policy_finding list" where
  "codeFindings wordsOf input facilitator =
     map (\<lambda>rule. \<lparr>pf_ruleId = rd_id (cr_description rule),
                  pf_outcome = cr_assess rule (ev_message (mi_event input)) (mi_context input) facilitator\<rparr>)
       (CODE_RULES wordsOf)"

definition normsCheckOutgoing ::
  "words_of \<Rightarrow> middleware_input \<Rightarrow> middleware \<Rightarrow> bool \<Rightarrow> check_reply \<times> int" where
  "normsCheckOutgoing wordsOf input english facilitator =
     (let coded = codeFindings wordsOf input facilitator in
      if list_ex (\<lambda>f. pf_outcome f = NeedsRevision) coded
      then (Returns (Some \<lparr>mr_findings = coded @
              map (\<lambda>rule. \<lparr>pf_ruleId = rd_id rule, pf_outcome = NotApplicable\<rparr>) (mw_rules english),
              mr_expectations = []\<rparr>), 0)
      else
        let (reply, elapsed) = mw_check english input in
        (case reply of
           Returns (Some result) \<Rightarrow>
             Returns (Some \<lparr>mr_findings = coded @ mr_findings result, mr_expectations = mr_expectations result\<rparr>)
         | _ \<Rightarrow> reply, elapsed))"

text \<open>The digest of the edition, both English revisions and the history window is a parameter.\<close>

type_synonym norms_revision = "string \<Rightarrow> string \<Rightarrow> int option \<Rightarrow> string"

record collective_norms =
  cn_incoming :: middleware
  cn_outgoing :: "bool \<Rightarrow> middleware"

definition collectiveNorms ::
  "(rat \<Rightarrow> rat) \<Rightarrow> state_text \<Rightarrow> english_revision \<Rightarrow> norms_revision \<Rightarrow> words_of \<Rightarrow> decision_provider \<Rightarrow> english_settings \<Rightarrow>
   int option \<Rightarrow> check_input_error + collective_norms" where
  "collectiveNorms fl stateText englishRevision normsRevision wordsOf provider settings historyRecords =
     bindE (makeEnglishPolicy fl stateText englishRevision COLLECTIVE_NORMS_ID INCOMING_ENGLISH_RULES provider settings) (\<lambda>incoming.
     bindE (makeEnglishPolicy fl stateText englishRevision COLLECTIVE_NORMS_ID OUTGOING_ENGLISH_RULES provider settings) (\<lambda>outgoing.
     let revision = normsRevision (mw_revision incoming) (mw_revision outgoing) historyRecords in
     Inr \<lparr>cn_incoming = \<lparr>mw_id = COLLECTIVE_NORMS_ID, mw_revision = revision, mw_rules = mw_rules incoming,
            mw_check = (\<lambda>input. mw_check incoming input)\<rparr>,
          cn_outgoing = (\<lambda>facilitator. \<lparr>mw_id = COLLECTIVE_NORMS_ID, mw_revision = revision,
            mw_rules = map cr_description (CODE_RULES wordsOf) @ mw_rules outgoing,
            mw_check = (\<lambda>input. normsCheckOutgoing wordsOf input outgoing facilitator)\<rparr>)\<rparr>))"

section \<open>Allowed senders\<close>

definition ALLOWED_SENDERS_ID :: string where
  "ALLOWED_SENDERS_ID = ''org.social-harness/allowed-senders''"

definition allowedOutcome :: "bool \<Rightarrow> finding_outcome" where
  "allowedOutcome allowed = (if allowed then Pass else Block)"

definition allowedSendersPolicy :: "(string set \<Rightarrow> string) \<Rightarrow> string list \<Rightarrow> middleware" where
  "allowedSendersPolicy sendersRevision agentIds =
     \<lparr>mw_id = ALLOWED_SENDERS_ID, mw_revision = sendersRevision (set (jsSet agentIds)),
      mw_rules = [\<lparr>rd_id = ''allowed-sender'', rd_kind = Safety, rd_source = None, rd_guidance = None, rd_feedback = None\<rparr>],
      mw_check = (\<lambda>input.
        (Returns (Some \<lparr>mr_findings =
           [\<lparr>pf_ruleId = ''allowed-sender'',
             pf_outcome = (if ev_direction (mi_event input) = Incoming
               then allowedOutcome (ms_sender (ev_message (mi_event input)) \<in> set (jsSet agentIds)) else NotApplicable)\<rparr>],
           mr_expectations = []\<rparr>), 0))\<rparr>"

section \<open>Empty acknowledgements\<close>

definition isShownPeerMessage :: "history_entry \<Rightarrow> string \<Rightarrow> string \<Rightarrow> bool" where
  "isShownPeerMessage entry sender agentId \<longleftrightarrow>
     he_admission entry = Admitted \<and> he_visibility entry = Runtime \<and>
     ms_sender (he_message entry) = sender \<and> agentId \<in> set (ms_recipients (he_message entry))"

text \<open>The patterns for an exact acknowledgement and for prose that asks for a reply.\<close>

record acknowledgement_patterns =
  ap_isEmptyAcknowledgement :: "string \<Rightarrow> bool"
  ap_asksForReply :: "string \<Rightarrow> bool"

definition mayAnswerRequest :: "acknowledgement_patterns \<Rightarrow> message_context \<Rightarrow> string \<Rightarrow> bool" where
  "mayAnswerRequest patterns ctx sender =
     (let peerMessages = map fst (filter (\<lambda>(index, entry). isShownPeerMessage entry sender (mc_agentId ctx))
            (enumerate 0 (mc_history ctx)));
          lastPeerMessage = (if peerMessages = [] then -1 else int (last peerMessages))
      in length (mc_gaps ctx) > 0 \<or>
         list_ex (\<lambda>entry. ms_sender (he_message entry) = mc_agentId ctx \<and>
             sender \<in> set (ms_recipients (he_message entry)) \<and>
             (ms_operation (he_message entry) \<noteq> None \<or> ap_asksForReply patterns (ms_text (he_message entry))))
           (drop (nat (lastPeerMessage + 1)) (mc_history ctx)))"

definition acknowledgementsPolicy :: "acknowledgement_patterns \<Rightarrow> string \<Rightarrow> middleware" where
  "acknowledgementsPolicy patterns revision =
     \<lparr>mw_id = ''org.social-harness/acknowledgements'', mw_revision = revision,
      mw_rules = [\<lparr>rd_id = ''acknowledgement'', rd_kind = Norm, rd_source = None,
        rd_guidance = Some ''No response is needed to this empty acknowledgement.'', rd_feedback = None\<rparr>],
      mw_check = (\<lambda>input.
        let m = ev_message (mi_event input);
            empty = (ev_direction (mi_event input) = Incoming \<and> ms_operation m = None \<and>
              ap_isEmptyAcknowledgement patterns (ms_text m) \<and> \<not> mayAnswerRequest patterns (mi_context input) (ms_sender m))
        in (Returns (Some
              \<lparr>mr_findings = [\<lparr>pf_ruleId = ''acknowledgement'', pf_outcome = (if empty then Pass else NotApplicable)\<rparr>],
               mr_expectations =
                 (if empty then [\<lparr>ne_ruleId = ''acknowledgement'', ne_expectation = ExpectNone, ne_subjects = [ms_id m]\<rparr>]
                  else [])\<rparr>), 0))\<rparr>"

end
