(* ===== verification/Firewall_Policy.thy ===== *)
theory Firewall_Policy
  imports Firewall_Rules
begin

text \<open>
  The installation of a firewall, \<^verbatim>\<open>firewall/admission/firewall.ts\<close>, the owner's editable rules
  and the decision feed, \<^verbatim>\<open>firewall/policy/editable.ts\<close>, and the filters of a policy document,
  \<^verbatim>\<open>firewall/policy/policy.ts\<close>. The gate of one permit makes an update one step from the state
  and the store before it to those after it; whether the store's transaction commits is an
  argument of the step. The canonical bytes of retained values are a parameter.
\<close>

section \<open>Installation\<close>

datatype firewall_mode = Guidance | Enforcement

record firewall_configuration =
  cf_mode :: firewall_mode
  cf_facts :: "fact list"
  cf_codeDigest :: string
  cf_maximumHistoryRecords :: int
  cf_maximumConcurrentChecks :: int

record english_options =
  eo_fixedRules :: "english_rule list"
  eo_initialRules :: "english_rule list"
  eo_provider :: decision_provider
  eo_settings :: english_settings

record firewall_options =
  fo_mode :: firewall_mode
  fo_incoming :: "middleware list"
  fo_outgoing :: "middleware list"
  fo_settings :: firewall_settings
  fo_facts :: "fact list"
  fo_codeDigest :: string
  fo_maximumHistoryRecords :: "int option"
  fo_maximumConcurrentChecks :: "int option"
  fo_english :: "english_options option"

text \<open>What is retained of a registration: everything but its code.\<close>

type_synonym registration_metadata = "string \<times> string \<times> rule_description list"

record installed_firewall =
  in_configuration :: firewall_configuration
  in_settings :: firewall_settings
  in_incoming :: "registration_metadata list"
  in_outgoing :: "registration_metadata list"
  in_configurationDigest :: string
  in_firewall :: firewall

text \<open>
  The environment of the modules: the sizes of the chain, the arithmetic and the texts of
  English policies, and the digest of the bytes of an installation (\<open>None\<close> when it has no
  canonical bytes).
\<close>

record policy_environment =
  pv_sizes :: firewall_sizes
  pv_fl :: "rat \<Rightarrow> rat"
  pv_stateText :: state_text
  pv_englishRevision :: english_revision
  pv_installationDigest ::
    "firewall_configuration \<times> firewall_settings \<times> registration_metadata list \<times> registration_metadata list \<Rightarrow> string option"

definition isLowerHex64 :: "string \<Rightarrow> bool" where
  "isLowerHex64 s \<longleftrightarrow> length s = 64 \<and>
     list_all (\<lambda>c. (48 \<le> (of_char c :: nat) \<and> (of_char c :: nat) \<le> 57) \<or> (97 \<le> (of_char c :: nat) \<and> (of_char c :: nat) \<le> 102)) s"

definition captureConfiguration :: "firewall_options \<Rightarrow> check_input_error + firewall_configuration" where
  "captureConfiguration options =
     (let configuration = \<lparr>cf_mode = fo_mode options, cf_facts = fo_facts options, cf_codeDigest = fo_codeDigest options,
            cf_maximumHistoryRecords = (case fo_maximumHistoryRecords options of None \<Rightarrow> 256 | Some n \<Rightarrow> n),
            cf_maximumConcurrentChecks = (case fo_maximumConcurrentChecks options of None \<Rightarrow> 4 | Some n \<Rightarrow> n)\<rparr>
      in if list_all (\<lambda>f. isFirewallIdentifier (fa_id f) \<and> isFirewallIdentifier (fa_source f) \<and> fa_text f \<noteq> [])
              (cf_facts configuration) \<and>
            isLowerHex64 (cf_codeDigest configuration) \<and>
            1 \<le> cf_maximumHistoryRecords configuration \<and> cf_maximumHistoryRecords configuration \<le> 1024 \<and>
            1 \<le> cf_maximumConcurrentChecks configuration \<and> cf_maximumConcurrentChecks configuration \<le> 32
         then Inr configuration else Inl SettingsError)"

definition registrationMetadata :: "middleware \<Rightarrow> registration_metadata" where
  "registrationMetadata entry = (mw_id entry, mw_revision entry, mw_rules entry)"

definition captureRegistration :: "middleware \<Rightarrow> check_input_error + middleware" where
  "captureRegistration entry =
     (if isFirewallIdentifier (mw_id entry) \<and> isFirewallIdentifier (mw_revision entry) \<and> list_all ruleFits (mw_rules entry)
      then Inr entry else Inl RegistrationError)"

definition installFirewall :: "policy_environment \<Rightarrow> firewall_options \<Rightarrow> check_input_error + installed_firewall" where
  "installFirewall env options =
     bindE (captureConfiguration options) (\<lambda>configuration.
     bindE (forEachE captureRegistration (fo_incoming options)) (\<lambda>incoming.
     bindE (forEachE captureRegistration (fo_outgoing options)) (\<lambda>outgoing.
     if \<not> settingsFit (fo_settings options) then Inl RegistrationError
     else
       bindE (makeFirewall (pv_sizes env) incoming outgoing (fo_settings options)) (\<lambda>firewall.
       let incomingMetadata = map registrationMetadata incoming;
           outgoingMetadata = map registrationMetadata outgoing
       in case pv_installationDigest env (configuration, fo_settings options, incomingMetadata, outgoingMetadata) of
            None \<Rightarrow> Inl RegistrationError
          | Some digest \<Rightarrow>
              Inr \<lparr>in_configuration = configuration, in_settings = fo_settings options,
                   in_incoming = incomingMetadata, in_outgoing = outgoingMetadata,
                   in_configurationDigest = digest, in_firewall = firewall\<rparr>))))"

section \<open>Captured options\<close>

datatype policy_error = NotConfigured | InvalidRule | FixedRule | BuildFailed | PersistenceFailed

definition englishId :: string where
  "englishId = ''org.social-harness/english''"

text \<open>The closed schema of an editable rule: a norm has guidance, and no rule names a source.\<close>

definition editableRuleFits :: "english_rule \<Rightarrow> bool" where
  "editableRuleFits r \<longleftrightarrow> englishRuleFits r \<and> rd_source r = None \<and> (rd_kind r = Norm \<longrightarrow> rd_guidance r \<noteq> None)"

definition editableRulesFit :: "english_rule list \<Rightarrow> bool" where
  "editableRulesFit rules \<longleftrightarrow> length rules \<le> 256 \<and> list_all editableRuleFits rules"

record captured_options =
  co_base :: installed_firewall
  co_fixed :: firewall_options
  co_english :: "english_options option"

definition captureEnglish :: "english_options option \<Rightarrow> policy_error + english_options option" where
  "captureEnglish english =
     (case english of
        None \<Rightarrow> Inr None
      | Some options \<Rightarrow>
          if list_all englishRuleFits (eo_fixedRules options) \<and> editableRulesFit (eo_initialRules options) \<and>
             englishSettingsFit (eo_settings options)
          then Inr (Some options) else Inl BuildFailed)"

definition asBuild :: "check_input_error + 'a \<Rightarrow> policy_error + 'a" where
  "asBuild m = (case m of Inl _ \<Rightarrow> Inl BuildFailed | Inr a \<Rightarrow> Inr a)"

definition captureOptions :: "policy_environment \<Rightarrow> firewall_options \<Rightarrow> policy_error + captured_options" where
  "captureOptions env options =
     bindE (asBuild (forEachE captureRegistration (fo_incoming options))) (\<lambda>incoming.
     bindE (asBuild (forEachE captureRegistration (fo_outgoing options))) (\<lambda>outgoing.
     bindE (asBuild (installFirewall env (options\<lparr>fo_incoming := incoming, fo_outgoing := outgoing\<rparr>))) (\<lambda>base.
     bindE (captureEnglish (fo_english options)) (\<lambda>english.
     Inr \<lparr>co_base = base,
          co_fixed = \<lparr>fo_mode = cf_mode (in_configuration base), fo_incoming = incoming, fo_outgoing = outgoing,
            fo_settings = in_settings base, fo_facts = cf_facts (in_configuration base),
            fo_codeDigest = cf_codeDigest (in_configuration base),
            fo_maximumHistoryRecords = Some (cf_maximumHistoryRecords (in_configuration base)),
            fo_maximumConcurrentChecks = Some (cf_maximumConcurrentChecks (in_configuration base)), fo_english = None\<rparr>,
          co_english = english\<rparr>))))"

definition buildPolicy :: "policy_environment \<Rightarrow> captured_options \<Rightarrow> english_rule list \<Rightarrow> policy_error + installed_firewall" where
  "buildPolicy env options rules =
     (let documents = (case co_english options of None \<Rightarrow> [] | Some e \<Rightarrow> eo_fixedRules e) @ rules in
      if length documents = 0 then Inr (co_base options)
      else case co_english options of
          None \<Rightarrow> Inl NotConfigured
        | Some e \<Rightarrow>
            bindE (asBuild (makeEnglishPolicy (pv_fl env) (pv_stateText env) (pv_englishRevision env) englishId documents
                      (eo_provider e) (eo_settings e))) (\<lambda>english.
            asBuild (installFirewall env ((co_fixed options)
              \<lparr>fo_incoming := fo_incoming (co_fixed options) @ [english],
               fo_outgoing := fo_outgoing (co_fixed options) @ [english]\<rparr>))))"

section \<open>Fixed rules\<close>

datatype fixed_rule = FromCode string rule_description | FromEnglish english_rule

fun fixedRuleId :: "fixed_rule \<Rightarrow> string" where
  "fixedRuleId (FromCode _ r) = rd_id r"
| "fixedRuleId (FromEnglish r) = rd_id r"

fun firstDeclared :: "(string, fixed_rule) jsmap \<Rightarrow> fixed_rule list \<Rightarrow> (string, fixed_rule) jsmap" where
  "firstDeclared first [] = first"
| "firstDeclared first (rule # declared) =
     firstDeclared (if jmGet first (fixedRuleId rule) = None then jmSet (fixedRuleId rule) rule first else first) declared"

text \<open>The description of a rule leaves its source out.\<close>

definition fixedRules :: "captured_options \<Rightarrow> fixed_rule list" where
  "fixedRules options =
     (let declared =
        concat (map (\<lambda>mw. map (\<lambda>rule. FromCode (mw_id mw) (rule\<lparr>rd_source := None\<rparr>)) (mw_rules mw))
          (fo_incoming (co_fixed options) @ fo_outgoing (co_fixed options))) @
        map (\<lambda>rule. FromEnglish (rule\<lparr>rd_source := None\<rparr>))
          (case co_english options of None \<Rightarrow> [] | Some e \<Rightarrow> eo_fixedRules e)
      in map snd (firstDeclared [] declared))"

section \<open>Edits\<close>

definition validateIds :: "english_rule list \<Rightarrow> string list \<Rightarrow> policy_error + unit" where
  "validateIds rules fixedRuleIds =
     (if list_ex (\<lambda>rule. rd_id rule \<in> set fixedRuleIds) rules then Inl FixedRule
      else if length (jsSet (map rd_id rules)) = length rules then Inr () else Inl InvalidRule)"

record policy_update =
  pu_add :: "english_rule list option"
  pu_remove :: "string list option"

definition policyUpdateFits :: "policy_update \<Rightarrow> bool" where
  "policyUpdateFits u \<longleftrightarrow>
     (case pu_add u of None \<Rightarrow> True | Some rules \<Rightarrow> editableRulesFit rules) \<and>
     (case pu_remove u of None \<Rightarrow> True | Some ids \<Rightarrow> length ids \<le> 256 \<and> list_all isFirewallIdentifier ids)"

definition listOf :: "'a list option \<Rightarrow> 'a list" where
  "listOf m = (case m of None \<Rightarrow> [] | Some xs \<Rightarrow> xs)"

definition editedRules :: "english_rule list \<Rightarrow> string list \<Rightarrow> policy_update \<Rightarrow> policy_error + english_rule list" where
  "editedRules rules fixedRuleIds request =
     (let remove = listOf (pu_remove request) in
      if list_ex (\<lambda>i. i \<in> set fixedRuleIds) remove then Inl FixedRule
      else if list_ex (\<lambda>i. \<not> list_ex (\<lambda>rule. rd_id rule = i) rules) remove then Inl InvalidRule
      else
        let nxt = filter (\<lambda>rule. rd_id rule \<notin> set remove) rules @ listOf (pu_add request) in
        if \<not> editableRulesFit nxt then Inl InvalidRule
        else bindE (validateIds nxt fixedRuleIds) (\<lambda>_. Inr nxt))"

section \<open>The store\<close>

record activation =
  av_time :: int
  av_activeRevision :: string
  av_addedRuleIds :: "string list"
  av_removedRuleIds :: "string list"

record policy_store =
  sp_document :: "string option"
  sp_activations :: "activation list"

text \<open>The canonical bytes of a rule list, and the JSON value bytes decode to.\<close>

record policy_codec =
  pc_encode :: "english_rule list \<Rightarrow> string option"
  pc_decode :: "string \<Rightarrow> english_rule list option"

text \<open>One transaction: the document and its activation, or neither.\<close>

definition persistRules ::
  "policy_codec \<Rightarrow> bool \<Rightarrow> policy_store \<Rightarrow> english_rule list \<Rightarrow> activation option \<Rightarrow> (policy_error + unit) \<times> policy_store" where
  "persistRules codec commits store rules activation =
     (case pc_encode codec rules of
        None \<Rightarrow> (Inl PersistenceFailed, store)
      | Some bytes \<Rightarrow>
          if \<not> commits then (Inl PersistenceFailed, store)
          else (Inr (), store\<lparr>sp_document := Some bytes,
                  sp_activations := sp_activations store @ (case activation of None \<Rightarrow> [] | Some a \<Rightarrow> [a])\<rparr>))"

section \<open>The editable firewall\<close>

record editable_state =
  es_rules :: "english_rule list"
  es_fixedRuleIds :: "string list"
  es_active :: installed_firewall

definition installEditableFirewall ::
  "policy_environment \<Rightarrow> policy_codec \<Rightarrow> bool \<Rightarrow> firewall_options \<Rightarrow> policy_store \<Rightarrow> (policy_error + editable_state) \<times> policy_store" where
  "installEditableFirewall env codec commits options store =
     (case captureOptions env options of
        Inl e \<Rightarrow> (Inl e, store)
      | Inr captured \<Rightarrow>
          let fixedRuleIds = map fixedRuleId (fixedRules captured);
              rules = (case sp_document store of
                  None \<Rightarrow> Inr (case co_english captured of None \<Rightarrow> [] | Some e \<Rightarrow> eo_initialRules e)
                | Some bytes \<Rightarrow>
                    (case pc_decode codec bytes of
                       None \<Rightarrow> Inl PersistenceFailed
                     | Some rules \<Rightarrow> if editableRulesFit rules then Inr rules else Inl PersistenceFailed));
              ready = bindE rules (\<lambda>rules.
                bindE (validateIds rules fixedRuleIds) (\<lambda>_.
                bindE (buildPolicy env captured rules) (\<lambda>active.
                Inr \<lparr>es_rules = rules, es_fixedRuleIds = fixedRuleIds, es_active = active\<rparr>)))
          in case ready of
               Inl e \<Rightarrow> (Inl e, store)
             | Inr state \<Rightarrow>
                 if sp_document store = None
                 then (case persistRules codec commits store (es_rules state) None of
                         (Inl e, store') \<Rightarrow> (Inl e, store')
                       | (Inr _, store') \<Rightarrow> (Inr state, store'))
                 else (Inr state, store))"

definition updatePolicy ::
  "policy_environment \<Rightarrow> policy_codec \<Rightarrow> bool \<Rightarrow> captured_options \<Rightarrow> int \<Rightarrow> policy_update \<Rightarrow> editable_state \<times> policy_store \<Rightarrow>
   (policy_error + string) \<times> editable_state \<times> policy_store" where
  "updatePolicy env codec commits captured now request st =
     (let (state, store) = st;
          prepared =
            (if \<not> policyUpdateFits request then Inl InvalidRule
             else bindE (editedRules (es_rules state) (es_fixedRuleIds state) request) (\<lambda>nxt.
                  bindE (buildPolicy env captured nxt) (\<lambda>replacement. Inr (nxt, replacement))))
      in case prepared of
           Inl e \<Rightarrow> (Inl e, state, store)
         | Inr (nxt, replacement) \<Rightarrow>
             (case persistRules codec commits store nxt
                (Some \<lparr>av_time = now, av_activeRevision = in_configurationDigest replacement,
                       av_addedRuleIds = map rd_id (listOf (pu_add request)),
                       av_removedRuleIds = listOf (pu_remove request)\<rparr>) of
                (Inl e, store') \<Rightarrow> (Inl e, state, store')
              | (Inr _, store') \<Rightarrow>
                  (Inr (in_configurationDigest replacement),
                   state\<lparr>es_active := replacement, es_rules := nxt\<rparr>, store')))"

section \<open>The decision feed\<close>

datatype decision_cause = CauseJudgment | CauseUncertain | CauseUnavailable | CauseCode | CauseEndpoint | CauseDefault

definition emptyCause :: "reason \<Rightarrow> firewall_judgment \<Rightarrow> 'a middleware_observation_scheme list \<Rightarrow> decision_cause" where
  "emptyCause r j checks =
     (if r = CheckNotAvailable \<and> list_ex (\<lambda>c. mo_status c = CheckFailed) checks then CauseUnavailable
      else if j = JAllow then CauseDefault else CauseEndpoint)"

definition decisionCause ::
  "reason \<Rightarrow> firewall_judgment \<Rightarrow> 'a middleware_observation_scheme list \<Rightarrow> deciding_rule list \<Rightarrow> string set \<Rightarrow> decision_cause" where
  "decisionCause r j checks deciding english =
     (let first = (case List.find (\<lambda>rule. dr_middlewareId rule \<in> english) deciding of
            Some rule \<Rightarrow> Some rule
          | None \<Rightarrow> (case deciding of [] \<Rightarrow> None | rule # _ \<Rightarrow> Some rule))
      in case first of
           None \<Rightarrow> emptyCause r j checks
         | Some rule \<Rightarrow>
             if dr_finding rule = NotObtained then CauseUnavailable
             else if dr_middlewareId rule \<notin> english then CauseCode
             else if dr_finding rule = Uncertain then CauseUncertain else CauseJudgment)"

datatype rule_origin = CodeOrigin | FixedOrigin | EditableOrigin

text \<open>The fixed ids an installation recorded for its English registration, if it did.\<close>

definition ruleOrigin :: "string list option \<Rightarrow> deciding_rule \<Rightarrow> rule_origin" where
  "ruleOrigin recorded rule =
     (if dr_middlewareId rule \<noteq> englishId then CodeOrigin
      else if dr_ruleId rule \<in> set (listOf recorded) then FixedOrigin else EditableOrigin)"

definition decisionPeers :: "message \<Rightarrow> direction \<Rightarrow> string option list" where
  "decisionPeers m dir =
     (if dir = Outgoing then map Some (ms_recipients m)
      else case ms_operation m of
          Some (OpResult _ _) \<Rightarrow> [None]
        | Some (OpFailure _) \<Rightarrow> [None]
        | _ \<Rightarrow> [Some (ms_sender m)])"

section \<open>Policy documents\<close>

datatype incoming_use = UseAcknowledgements | UseAllowedSenders "string list" | UseIncomingNorms
datatype outgoing_use = UseCredentials | UsePlainLanguage "string list" "string list" "string list" | UseOutgoingNorms bool
datatype provider_choice = Jev string | NoService

record message_policy =
  mp_mode :: firewall_mode
  mp_incoming :: "incoming_use list"
  mp_outgoing :: "outgoing_use list"
  mp_english :: "(english_rule list \<times> english_rule list) option"
  mp_decisionProvider :: "provider_choice option"

definition installsCollectiveNorms :: "message_policy \<Rightarrow> bool" where
  "installsCollectiveNorms p \<longleftrightarrow>
     list_ex (\<lambda>u. u = UseIncomingNorms) (mp_incoming p) \<or>
     list_ex (\<lambda>u. case u of UseOutgoingNorms _ \<Rightarrow> True | _ \<Rightarrow> False) (mp_outgoing p)"

definition needsDecisionProvider :: "message_policy \<Rightarrow> bool" where
  "needsDecisionProvider p \<longleftrightarrow> mp_english p \<noteq> None \<or> installsCollectiveNorms p"

definition uniqueEnglishRuleIds :: "message_policy \<Rightarrow> bool" where
  "uniqueEnglishRuleIds p \<longleftrightarrow>
     (let ids = map rd_id (case mp_english p of None \<Rightarrow> [] | Some (fixed, initial) \<Rightarrow> fixed @ initial) in
      length (jsSet ids) = length ids)"

definition messagePolicyFilters :: "message_policy \<Rightarrow> bool" where
  "messagePolicyFilters p \<longleftrightarrow>
     (mp_decisionProvider p \<noteq> None \<or> \<not> needsDecisionProvider p) \<and>
     (mp_decisionProvider p \<noteq> Some NoService \<or> \<not> installsCollectiveNorms p) \<and>
     uniqueEnglishRuleIds p"

end
