(* ===== verification/Firewall_Guarantees.thy ===== *)
theory Firewall_Guarantees
  imports Firewall_Chain "HOL-Library.Multiset"
begin

text \<open>
  What the firewall guarantees: a message is admitted only when every installed entry completed
  and nothing restricts it; refusals accumulate whatever the order of the entries; and the
  advice projected for a decision is the advice its reason permits.
\<close>

section \<open>The interface of a cautious composition\<close>

text \<open>
  A verdict over observations that only grows as observations are added, and does not depend
  on their order. Whoever composes observations this way can add checks anywhere in a chain
  without ever weakening a refusal.
\<close>

locale cautious_composition =
  fixes verdict :: "'c list \<Rightarrow> 'r::linorder"
  assumes grows: "verdict xs \<le> verdict (x # xs)"
    and unordered: "mset xs = mset ys \<Longrightarrow> verdict xs = verdict ys"
begin

lemma grows_append: "verdict xs \<le> verdict (ys @ xs)"
  by (induction ys) (auto intro: order_trans grows)

lemma grows_appended: "verdict xs \<le> verdict (xs @ ys)"
  using grows_append [of xs ys] unordered [of "ys @ xs" "xs @ ys"] by simp

lemma grows_mset: "mset xs \<subseteq># mset ys \<Longrightarrow> verdict xs \<le> verdict ys"
proof -
  assume "mset xs \<subseteq># mset ys"
  then obtain zs where "mset ys = mset (zs @ xs)"
    by (metis add.commute ex_mset mset_append mset_subset_eq_exists_conv)
  then show "verdict xs \<le> verdict ys" using grows_append [of xs zs] unordered by metis
qed

end

section \<open>The reason of a set of observations\<close>

text \<open>The five conditions, in their precedence.\<close>

definition pickReason :: "bool \<Rightarrow> bool \<Rightarrow> bool \<Rightarrow> bool \<Rightarrow> bool \<Rightarrow> reason" where
  "pickReason blocked unavail unresolved revised asked =
     (if blocked then Prohibited else if unavail then CheckNotAvailable else if unresolved then EvidenceUnresolved
      else if revised then NormViolation else if asked then ApprovalNeeded else Eligible)"

lemma pickReason_mono:
  "(a \<longrightarrow> a') \<Longrightarrow> (b \<longrightarrow> b') \<Longrightarrow> (c \<longrightarrow> c') \<Longrightarrow> (d \<longrightarrow> d') \<Longrightarrow> (e \<longrightarrow> e') \<Longrightarrow>
   pickReason a b c d e \<le> pickReason a' b' c' d' e'"
  by (simp add: pickReason_def less_eq_reason_def)

definition raised :: "finding_outcome \<Rightarrow> 'a middleware_observation_scheme list \<Rightarrow> bool" where
  "raised outc checks \<longleftrightarrow> (\<exists>c\<in>set checks. \<exists>f\<in>set (mo_findings c). pf_outcome f = outc)"

definition conflicting :: "'a middleware_observation_scheme list \<Rightarrow> bool" where
  "conflicting checks \<longleftrightarrow> (\<exists>c\<in>set checks. \<exists>d\<in>set checks. \<exists>n\<in>set (mo_expectations c). \<exists>k\<in>set (mo_expectations d).
     opposing n k \<and> overlapping n k)"

lemma placedNorms_set:
  "set (placedNorms checks) =
   (\<Union>c\<in>set checks. (\<lambda>n. \<lparr>pn_middlewareId = mo_middlewareId c, pn_norm = n\<rparr>) ` set (mo_expectations c))"
  by (auto simp: placedNorms_def)

lemma conflictingExpectations_iff: "length (conflictingExpectations checks) \<noteq> 0 \<longleftrightarrow> conflicting checks"
proof -
  have "length (conflictingExpectations checks) \<noteq> 0 \<longleftrightarrow>
    (\<exists>p\<in>set (placedNorms checks). \<exists>q\<in>set (placedNorms checks). opposing (pn_norm p) (pn_norm q) \<and> overlapping (pn_norm p) (pn_norm q))"
    by (auto simp: conflictingExpectations_def Let_def filter_empty_conv list_ex_iff)
  also have "\<dots> \<longleftrightarrow> conflicting checks" by (auto simp: conflicting_def placedNorms_set)
  finally show ?thesis .
qed

lemma raised_iff: "list_ex (\<lambda>f. pf_outcome f = outc) (allFindings checks) \<longleftrightarrow> raised outc checks"
  by (auto simp: raised_def allFindings_def list_ex_iff)

lemma hold_iff: "list_ex (\<lambda>f. isHold (pf_outcome f)) (allFindings checks) \<longleftrightarrow>
    raised (Hold UnresolvedEvidence) checks \<or> raised (Hold CheckUnavailable) checks"
proof -
  have "isHold outc \<longleftrightarrow> outc = Hold UnresolvedEvidence \<or> outc = Hold CheckUnavailable" for outc
    by (cases outc) (auto simp: isHold_def intro: hold_reason.exhaust)
  then show ?thesis by (auto simp: raised_def allFindings_def list_ex_iff)
qed

lemma failed_iff: "list_ex (\<lambda>c. mo_status c = CheckFailed) checks \<longleftrightarrow> (\<exists>c\<in>set checks. mo_status c = CheckFailed)"
  by (auto simp: list_ex_iff)

lemma selectReason_pick:
  "selectReason event ctx checks =
     pickReason (raised Block checks)
       ((\<exists>c\<in>set checks. mo_status c = CheckFailed) \<or> raised (Hold CheckUnavailable) checks)
       (mc_gaps ctx \<noteq> [] \<or> (raised (Hold UnresolvedEvidence) checks \<or> raised (Hold CheckUnavailable) checks) \<or> conflicting checks)
       (raised NeedsRevision checks)
       (raised ApprovalRequired checks \<and> \<not> hasApproval event ctx)"
  unfolding selectReason_def Let_def unavailableCheck_def unresolvedCheck_def raised_iff hold_iff
    conflictingExpectations_iff [unfolded length_0_conv] pickReason_def failed_iff length_0_conv by (rule refl)

lemma selectReason_set:
  "set xs = set ys \<Longrightarrow> selectReason event ctx xs = selectReason event ctx ys"
  by (simp add: selectReason_pick raised_def conflicting_def)

interpretation composition: cautious_composition "selectReason event ctx" for event ctx
proof unfold_locales
  show "selectReason event ctx xs \<le> selectReason event ctx (x # xs)" for x :: "'a middleware_observation_scheme" and xs
    unfolding selectReason_pick by (rule pickReason_mono) (auto simp: raised_def conflicting_def)
  show "selectReason event ctx xs = selectReason event ctx ys" if "mset xs = mset ys"
    for xs ys :: "'a middleware_observation_scheme list"
    using that by (intro selectReason_set) (metis set_mset_mset)
qed

lemma list_all2_mem_right: "list_all2 P xs ys \<Longrightarrow> y \<in> set ys \<Longrightarrow> \<exists>x\<in>set xs. P x y"
  by (induction rule: list_all2_induct) auto

section \<open>The chain\<close>

lemma runMiddleware_id: "mo_middlewareId (fst (runMiddleware sizes mw input settings deadline now)) = mw_id mw"
  by (auto simp: runMiddleware_def unavailableEntry_def Let_def split: prod.splits sum.splits)

text \<open>A completed check holds a result that was validated against its own entry.\<close>

lemma runMiddleware_completed:
  assumes "mo_status (fst (runMiddleware sizes mw input settings deadline now)) = Completed"
  shows "\<exists>res. resultFits res \<and> validResult res mw input \<and>
    mo_findings (fst (runMiddleware sizes mw input settings deadline now)) = mr_findings res \<and>
    mo_expectations (fst (runMiddleware sizes mw input settings deadline now)) = mr_expectations res"
    and "mk_elapsedMilliseconds (fst (runMiddleware sizes mw input settings deadline now)) \<le> fs_middlewareTimeoutMilliseconds settings"
    and "now < deadline" "snd (runMiddleware sizes mw input settings deadline now) \<le> deadline"
  using assms
  by (auto simp: runMiddleware_def unavailableEntry_def invokeMiddleware_def Let_def
      split: prod.splits sum.splits if_splits check_reply.splits option.splits)

text \<open>
  What a completed check is worth: the registered code was given an input within the bound and returned, in its time, a
  result within the bound that says something about every rule and nothing a rule does not permit.
\<close>

definition permitted :: "rule_description \<Rightarrow> policy_finding \<Rightarrow> bool" where
  "permitted rule f \<longleftrightarrow> rd_id rule = pf_ruleId f \<and>
     (case pf_outcome f of
        PassUncertain choice p \<Rightarrow> rd_kind rule = Norm \<and> isFirewallIdentifier choice \<and> 0 \<le> p \<and> p \<le> 1
      | NeedsRevision \<Rightarrow> rd_kind rule = Norm
      | ApprovalRequired \<Rightarrow> rd_kind rule = Autonomy
      | _ \<Rightarrow> True)"

definition grounded :: "message_context \<Rightarrow> rule_description list \<Rightarrow> norm_expectation \<Rightarrow> bool" where
  "grounded ctx rules n \<longleftrightarrow>
     list_ex (\<lambda>rule. rd_id rule = ne_ruleId n \<and> rd_kind rule = Norm) rules \<and> distinct (ne_subjects n) \<and>
     list_all (\<lambda>s. list_ex (\<lambda>entry. ms_id (he_message entry) = s \<and> he_admission entry = Admitted \<and> he_visibility entry = Runtime)
       (mc_history ctx)) (ne_subjects n)"

definition returnedInBounds ::
  "firewall_sizes \<Rightarrow> firewall_settings \<Rightarrow> middleware_input \<Rightarrow> middleware \<Rightarrow> middleware_check \<Rightarrow> bool" where
  "returnedInBounds sizes settings input mw c \<longleftrightarrow>
     (case mw_check mw input of
        (Returns (Some res), elapsed) \<Rightarrow>
          fz_inputBytes sizes input \<le> fs_maximumInputBytes settings \<and> fz_resultBytes sizes res \<le> fs_maximumResultBytes settings \<and>
          elapsed \<le> fs_middlewareTimeoutMilliseconds settings \<and>
          c = \<lparr>mo_middlewareId = mw_id mw, mo_revision = mw_revision mw, mo_status = Completed, mo_findings = mr_findings res,
            mo_expectations = mr_expectations res, mk_elapsedMilliseconds = elapsed, mk_failure = None\<rparr>
      | _ \<Rightarrow> False)"

definition answersRules :: "message_context \<Rightarrow> middleware \<Rightarrow> middleware_check \<Rightarrow> bool" where
  "answersRules ctx mw c \<longleftrightarrow>
     list_all (\<lambda>rule. list_ex (\<lambda>f. pf_ruleId f = rd_id rule) (mo_findings c)) (mw_rules mw) \<and>
     list_all (\<lambda>f. list_ex (\<lambda>rule. permitted rule f) (mw_rules mw)) (mo_findings c) \<and>
     distinct (map ne_ruleId (mo_expectations c)) \<and> list_all (grounded ctx (mw_rules mw)) (mo_expectations c)"

lemma ruleById_Some: "ruleById rules i = Some rule \<Longrightarrow> rule \<in> set rules \<and> rd_id rule = i"
  by (auto simp: ruleById_def dest!: find_Some_mem)

lemma runMiddleware_worth:
  assumes "mo_status (fst (runMiddleware sizes mw input settings deadline now)) = Completed" "ev_direction (mi_event input) = Outgoing"
  shows "returnedInBounds sizes settings input mw (fst (runMiddleware sizes mw input settings deadline now))"
    and "answersRules (mi_context input) mw (fst (runMiddleware sizes mw input settings deadline now))"
    and "snd (runMiddleware sizes mw input settings deadline now) =
      now + mk_elapsedMilliseconds (fst (runMiddleware sizes mw input settings deadline now))"
    and "snd (runMiddleware sizes mw input settings deadline now) \<le> deadline"
proof -
  have time: "0 < deadline - now" using assms(1) by (rule contrapos_pp) (simp add: runMiddleware_def unavailableEntry_def)
  obtain returned elapsed where inv: "invokeMiddleware sizes mw input settings = (returned, elapsed)" by fastforce
  have "\<exists>res. returned = Inr res \<and> elapsed \<le> min (deadline - now) (fs_middlewareTimeoutMilliseconds settings)"
    using assms(1) time by (auto simp: runMiddleware_def inv unavailableEntry_def Let_def split: sum.splits if_splits)
  then obtain res where res: "returned = Inr res" "elapsed \<le> min (deadline - now) (fs_middlewareTimeoutMilliseconds settings)" by blast
  have run: "runMiddleware sizes mw input settings deadline now =
      (\<lparr>mo_middlewareId = mw_id mw, mo_revision = mw_revision mw, mo_status = Completed, mo_findings = mr_findings res,
        mo_expectations = mr_expectations res, mk_elapsedMilliseconds = elapsed, mk_failure = None\<rparr>, now + elapsed)"
    using time res by (simp add: runMiddleware_def inv Let_def) linarith
  have facts: "fz_inputBytes sizes input \<le> fs_maximumInputBytes settings" "mw_check mw input = (Returns (Some res), elapsed)"
    "resultFits res" "fz_resultBytes sizes res \<le> fs_maximumResultBytes settings" "validResult res mw input"
    using inv res(1) by (auto simp: invokeMiddleware_def Let_def split: if_splits prod.splits check_reply.splits option.splits)
  show "returnedInBounds sizes settings input mw (fst (runMiddleware sizes mw input settings deadline now))"
    using facts res(2) by (simp add: returnedInBounds_def run)
  show "snd (runMiddleware sizes mw input settings deadline now) =
      now + mk_elapsedMilliseconds (fst (runMiddleware sizes mw input settings deadline now))"
    "snd (runMiddleware sizes mw input settings deadline now) \<le> deadline"
    using res(2) by (simp_all add: run)
  have covered: "list_all (\<lambda>rule. list_ex (\<lambda>f. pf_ruleId f = rd_id rule) (mr_findings res)) (mw_rules mw)"
    using facts(5) by (force simp: validResult_def list_all_iff list_ex_iff)
  have "list_ex (\<lambda>rule. permitted rule f) (mw_rules mw)" if f: "f \<in> set (mr_findings res)" for f
  proof -
    have valid: "validFinding f (mi_event input) (ruleById (mw_rules mw) (pf_ruleId f))" and fits: "findingFits f"
      using facts(3,5) f by (auto simp: validResult_def resultFits_def list_all_iff)
    then obtain rule where rule: "ruleById (mw_rules mw) (pf_ruleId f) = Some rule" by (auto simp: validFinding_def split: option.splits)
    then have "permitted rule f"
      using valid fits ruleById_Some [OF rule] by (auto simp: validFinding_def permitted_def findingFits_def split: finding_outcome.splits)
    then show ?thesis using ruleById_Some [OF rule] by (auto simp: list_ex_iff)
  qed
  moreover have "grounded (mi_context input) (mw_rules mw) n" if n: "n \<in> set (mr_expectations res)" for n
  proof -
    have "map_option rd_kind (ruleById (mw_rules mw) (ne_ruleId n)) = Some Norm" "distinct (ne_subjects n)"
      "\<forall>s\<in>set (ne_subjects n). s \<in> set (runtimeSubjects input)"
      using facts(5) n by (auto simp: validResult_def list_all_iff)
    then show ?thesis
      using assms(2) by (auto simp: grounded_def list_ex_iff list_all_iff runtimeSubjects_def dest!: ruleById_Some)
  qed
  moreover have "distinct (map ne_ruleId (mr_expectations res))"
    using facts(5) unfolding validResult_def length_jsSet_eq_iff [symmetric] by simp
  ultimately show "answersRules (mi_context input) mw (fst (runMiddleware sizes mw input settings deadline now))"
    using covered by (simp add: answersRules_def run list_all_iff)
qed

lemma runMiddleware_failed:
  "mo_status (fst (runMiddleware sizes mw input settings deadline now)) = CheckFailed \<Longrightarrow>
   mo_findings (fst (runMiddleware sizes mw input settings deadline now)) = []"
  by (auto simp: runMiddleware_def unavailableEntry_def Let_def split: prod.splits sum.splits if_splits)

text \<open>The loop runs every entry once, in order.\<close>

lemma checkLoop_append:
  "\<exists>new. checkLoop sizes event ctx settings deadline checks mws now = checks @ new \<and>
     list_all2 (\<lambda>mw c. \<exists>previous now'. c = fst (runMiddleware sizes mw
       \<lparr>mi_event = event, mi_context = ctx, mi_previous = previous\<rparr> settings deadline now')) mws new"
proof (induction mws arbitrary: checks now)
  case Nil
  then show ?case by simp
next
  case (Cons mw mws)
  obtain c now' where r: "runMiddleware sizes mw \<lparr>mi_event = event, mi_context = ctx, mi_previous = map observed checks\<rparr>
      settings deadline now = (c, now')" by fastforce
  from Cons.IH [of "checks @ [c]" now'] obtain new where
    "checkLoop sizes event ctx settings deadline (checks @ [c]) mws now' = checks @ (c # new)"
    "list_all2 (\<lambda>mw c. \<exists>previous now'. c = fst (runMiddleware sizes mw
       \<lparr>mi_event = event, mi_context = ctx, mi_previous = previous\<rparr> settings deadline now')) mws new" by auto
  with r show ?case by (intro exI [of _ "c # new"]) (auto intro!: exI [of _ "map observed checks"] exI [of _ now])
qed

text \<open>When every check completed, each is worth what its entry returned, and together they kept the deadline.\<close>

lemma checkLoop_worth:
  assumes "ev_direction event = Outgoing" "now \<le> deadline"
  shows "\<exists>new. checkLoop sizes event ctx settings deadline checks mws now = checks @ new \<and> length new = length mws \<and>
    (list_all (\<lambda>c. mo_status c = Completed) new \<longrightarrow>
      (\<forall>i<length mws. returnedInBounds sizes settings
          \<lparr>mi_event = event, mi_context = ctx, mi_previous = map observed (checks @ take i new)\<rparr> (mws ! i) (new ! i) \<and>
        answersRules ctx (mws ! i) (new ! i)) \<and>
      now + sum_list (map mk_elapsedMilliseconds new) \<le> deadline)"
  using assms(2)
proof (induction mws arbitrary: checks now)
  case Nil
  then show ?case by simp
next
  case (Cons mw mws)
  let ?in = "\<lparr>mi_event = event, mi_context = ctx, mi_previous = map observed checks\<rparr>"
  obtain c now' where r: "runMiddleware sizes mw ?in settings deadline now = (c, now')" by fastforce
  show ?case
  proof (cases "mo_status c = Completed")
    case True
    then have finished: "mo_status (fst (runMiddleware sizes mw ?in settings deadline now)) = Completed" using r by simp
    note worth = runMiddleware_worth [OF finished, simplified r]
    have worth': "returnedInBounds sizes settings ?in mw c" "answersRules ctx mw c" "now' = now + mk_elapsedMilliseconds c" "now' \<le> deadline"
      using worth assms(1) by simp_all
    from Cons.IH [OF worth'(4), of "checks @ [c]"] obtain new where new:
      "checkLoop sizes event ctx settings deadline (checks @ [c]) mws now' = (checks @ [c]) @ new" "length new = length mws"
      "list_all (\<lambda>c. mo_status c = Completed) new \<longrightarrow>
        (\<forall>i<length mws. returnedInBounds sizes settings
          \<lparr>mi_event = event, mi_context = ctx, mi_previous = map observed ((checks @ [c]) @ take i new)\<rparr> (mws ! i) (new ! i) \<and>
        answersRules ctx (mws ! i) (new ! i)) \<and> now' + sum_list (map mk_elapsedMilliseconds new) \<le> deadline" by blast
    then show ?thesis
      using r worth' by (intro exI [of _ "c # new"]) (auto simp: nth_Cons take_Cons less_Suc_eq_0_disj split: nat.splits)
  next
    case False
    obtain new where "checkLoop sizes event ctx settings deadline (checks @ [c]) mws now' = (checks @ [c]) @ new"
      "list_all2 (\<lambda>mw c. \<exists>previous now'. c = fst (runMiddleware sizes mw
         \<lparr>mi_event = event, mi_context = ctx, mi_previous = previous\<rparr> settings deadline now')) mws new"
      using checkLoop_append [of sizes event ctx settings deadline "checks @ [c]" mws now'] by blast
    then show ?thesis using r False by (intro exI [of _ "c # new"]) (auto dest: list_all2_lengthD)
  qed
qed

lemma checkLoop_prefix:
  "\<exists>checks' now'. checkLoop sizes event ctx settings deadline checks (mws @ extra) now =
     checkLoop sizes event ctx settings deadline (checkLoop sizes event ctx settings deadline checks mws now) extra now'"
  by (induction mws arbitrary: checks now) (auto split: prod.splits)

lemma checkMessage_accepts:
  assumes "checkMessage sizes event ctx mws settings now = Inr result"
  obtains checks where "captureInput event ctx = Inr (event, ctx)"
    "checks = checkLoop sizes event ctx settings (now + fs_timeoutMilliseconds settings) [] mws now"
    "result = composeDecision event ctx mws checks"
  using assms unfolding checkMessage_def
  by (auto simp: bindE_Inr_iff captureInput_def Let_def split: if_splits)

lemma composeDecision_simps [simp]:
  "fc_reason (composeDecision event ctx mws checks) = selectReason event ctx checks"
  "fc_judgment (composeDecision event ctx mws checks) = judgmentOf (selectReason event ctx checks)"
  "fc_checks (composeDecision event ctx mws checks) = checks"
  "fc_feedback (composeDecision event ctx mws checks) =
     projectFeedback (map registrationOf mws) checks (selectReason event ctx checks)"
  by (simp_all add: composeDecision_def Let_def)

lemma judgmentOf_allow: "judgmentOf r = JAllow \<longleftrightarrow> r = Eligible"
  by (cases r) simp_all

lemma judgmentOf_revise: "judgmentOf r = JRevise \<longleftrightarrow> r = NormViolation"
  by (cases r) simp_all

lemma pickReason_eligible: "pickReason a b c d e = Eligible \<longleftrightarrow> \<not> a \<and> \<not> b \<and> \<not> c \<and> \<not> d \<and> \<not> e"
  by (simp add: pickReason_def)


text \<open>The owner the message belongs to approved a message of this identifier, sender, recipients and text.\<close>

definition approvedBy :: "message_event \<Rightarrow> message_context \<Rightarrow> bool" where
  "approvedBy event ctx \<longleftrightarrow>
     (case mc_authorization ctx of
        Absent \<Rightarrow> False
      | Verified owner candidate \<Rightarrow> owner = mc_principal ctx \<and> ms_id candidate = ms_id (ev_message event) \<and>
          ms_sender candidate = ms_sender (ev_message event) \<and> ms_recipients candidate = ms_recipients (ev_message event) \<and>
          ms_text candidate = ms_text (ev_message event))"

lemma equal_zip: "length xs = length ys \<and> list_all (\<lambda>(x, y). x = y) (zip xs ys) \<longleftrightarrow> xs = ys"
  by (auto simp: list_eq_iff_zip_eq list_all_iff)

lemma hasApproval_approvedBy: "hasApproval event ctx = approvedBy event ctx"
  unfolding hasApproval_def approvedBy_def Let_def equal_zip by (auto split: authorization.splits)

text \<open>What a completed check says about each of its findings.\<close>

definition unrestricted :: "message_event \<Rightarrow> message_context \<Rightarrow> policy_finding \<Rightarrow> bool" where
  "unrestricted event ctx f \<longleftrightarrow>
     (case pf_outcome f of PassUncertain _ _ \<Rightarrow> True | Pass \<Rightarrow> True | NotApplicable \<Rightarrow> True
      | ApprovalRequired \<Rightarrow> approvedBy event ctx | _ \<Rightarrow> False)"

lemma unrestricted_raised:
  "(\<forall>c\<in>set checks. \<forall>f\<in>set (mo_findings c). unrestricted event ctx f) \<longleftrightarrow>
   \<not> raised Block checks \<and> \<not> raised (Hold UnresolvedEvidence) checks \<and> \<not> raised (Hold CheckUnavailable) checks \<and>
   \<not> raised NeedsRevision checks \<and> (raised ApprovalRequired checks \<longrightarrow> hasApproval event ctx)"
proof -
  have "unrestricted event ctx f \<longleftrightarrow> pf_outcome f \<noteq> Block \<and> pf_outcome f \<noteq> Hold UnresolvedEvidence \<and>
      pf_outcome f \<noteq> Hold CheckUnavailable \<and> pf_outcome f \<noteq> NeedsRevision \<and>
      (pf_outcome f = ApprovalRequired \<longrightarrow> hasApproval event ctx)" for f
    unfolding unrestricted_def hasApproval_approvedBy by (cases "pf_outcome f") (auto intro: hold_reason.exhaust)
  then show ?thesis unfolding raised_def by blast
qed

lemma status_failed: "mo_status c = CheckFailed \<longleftrightarrow> mo_status c \<noteq> Completed"
  by (cases "mo_status c") simp_all

lemma selectReason_eligible:
  assumes "selectReason event ctx checks = Eligible"
  shows "mc_gaps ctx = []" and "c \<in> set checks \<Longrightarrow> mo_status c = Completed"
    and "c \<in> set checks \<Longrightarrow> f \<in> set (mo_findings c) \<Longrightarrow> unrestricted event ctx f"
proof -
  note parts = assms [unfolded selectReason_pick pickReason_eligible]
  from parts show "mc_gaps ctx = []" by (elim conjE) simp
  have "\<not> (\<exists>c\<in>set checks. mo_status c = CheckFailed)" using parts by (elim conjE) simp
  then show "c \<in> set checks \<Longrightarrow> mo_status c = Completed" by (auto simp: status_failed)
  have "\<forall>c\<in>set checks. \<forall>f\<in>set (mo_findings c). unrestricted event ctx f"
    unfolding unrestricted_raised using parts by (elim conjE) simp
  then show "c \<in> set checks \<Longrightarrow> f \<in> set (mo_findings c) \<Longrightarrow> unrestricted event ctx f" by simp
qed

lemma captured_chain:
  assumes "makeChain sizes entries settings = Inr chain"
  shows "chain = (\<lambda>event ctx now. checkMessage sizes event ctx entries settings now)"
proof -
  have "forEachE captureEntry entries = Inr ys \<Longrightarrow> ys = entries" for ys
    by (induction entries arbitrary: ys) (auto simp: resultE_iffs captureEntry_def split: if_splits)
  with assms show ?thesis by (auto simp: makeChain_def bindE_Inr_iff split: if_splits)
qed

lemma incoming_unrevised:
  assumes "ev_direction event = Incoming"
  shows "\<not> raised NeedsRevision (checkLoop sizes event ctx settings deadline [] mws now)"
proof
  assume "raised NeedsRevision (checkLoop sizes event ctx settings deadline [] mws now)"
  then obtain c f where c: "c \<in> set (checkLoop sizes event ctx settings deadline [] mws now)"
    and f: "f \<in> set (mo_findings c)" "pf_outcome f = NeedsRevision" by (auto simp: raised_def)
  let ?P = "\<lambda>mw c. \<exists>previous now'. c = fst (runMiddleware sizes mw
       \<lparr>mi_event = event, mi_context = ctx, mi_previous = previous\<rparr> settings deadline now')"
  have "list_all2 ?P mws (checkLoop sizes event ctx settings deadline [] mws now)"
    using checkLoop_append [of sizes event ctx settings deadline "[]" mws now] by auto
  from list_all2_mem_right [OF this c] obtain mw previous now' where r: "c = fst (runMiddleware sizes mw
       \<lparr>mi_event = event, mi_context = ctx, mi_previous = previous\<rparr> settings deadline now')" by auto
  show False
  proof (cases "mo_status c")
    case Completed
    with r runMiddleware_completed(1) obtain res where "validResult res mw
       \<lparr>mi_event = event, mi_context = ctx, mi_previous = previous\<rparr>" "mo_findings c = mr_findings res" by metis
    with f assms show False
      by (fastforce simp: validResult_def list_all_iff validFinding_def split: option.splits)
  next
    case CheckFailed
    with r runMiddleware_failed f show False by fastforce
  qed
qed

section \<open>Deciding rules\<close>

lemma keepFirst_keys:
  "fst ` set (keepFirst r mws unique rules) =
     fst ` set unique \<union> (\<lambda>rule. (dr_middlewareId rule, dr_ruleId rule)) ` set rules"
proof (induction rules arbitrary: unique)
  case (Cons rule rules)
  then show ?case by (auto simp: Let_def jmSet_keys jmGet_def map_of_eq_None_iff dest: map_of_SomeD)
qed simp

lemma withAdvice_key [simp]:
  "dr_middlewareId (withAdvice r mws rule) = dr_middlewareId rule" "dr_ruleId (withAdvice r mws rule) = dr_ruleId rule"
  by (simp_all add: withAdvice_def split: option.splits)

definition keyed :: "(string \<times> string, deciding_rule) jsmap \<Rightarrow> bool" where
  "keyed m \<longleftrightarrow> list_all (\<lambda>(k, rule). k = (dr_middlewareId rule, dr_ruleId rule)) m"

lemma keyed_jmSet:
  "keyed m \<Longrightarrow> keyed (jmSet (dr_middlewareId rule, dr_ruleId rule) rule m)"
  by (induction "(dr_middlewareId rule, dr_ruleId rule)" rule m rule: jmSet.induct) (auto simp: keyed_def)

lemma keepFirst_keyed: "keyed m \<Longrightarrow> jmWf m \<Longrightarrow> keyed (keepFirst r mws m rules) \<and> jmWf (keepFirst r mws m rules)"
proof (induction rules arbitrary: m)
  case (Cons rule rules)
  then show ?case
    using keyed_jmSet [of m "withAdvice r mws rule"] by (auto simp: Let_def jmWf_jmSet)
qed simp

definition ruleKey :: "deciding_rule \<Rightarrow> string \<times> string" where
  "ruleKey rule = (dr_middlewareId rule, dr_ruleId rule)"

text \<open>The rules before duplicates are dropped.\<close>

definition candidateRules :: "reason \<Rightarrow> registration list \<Rightarrow> 'a middleware_observation_scheme list \<Rightarrow> (string \<times> string) list" where
  "candidateRules r mws checks = map ruleKey (concat (map (checkDeciders r mws) checks)) @
     (if r = EvidenceUnresolved then conflictingExpectations checks else [])"

lemma decidingRules_keys:
  "distinct (map ruleKey (decidingRules r mws checks))"
  "ruleKey ` set (decidingRules r mws checks) = set (candidateRules r mws checks)"
proof -
  let ?all = "concat (map (checkDeciders r mws) checks) @ (if r = EvidenceUnresolved
    then map (\<lambda>(m, i). \<lparr>dr_middlewareId = m, dr_ruleId = i, dr_finding = Settled, dr_advice = None\<rparr>)
           (conflictingExpectations checks) else [])"
  let ?u = "keepFirst r mws [] ?all"
  have d: "decidingRules r mws checks = map snd ?u" by (simp add: decidingRules_def)
  have k: "keyed ?u" "jmWf ?u" using keepFirst_keyed [of "[]" r mws ?all] by (auto simp: keyed_def jmWf_def)
  have fst: "map ruleKey (decidingRules r mws checks) = map fst ?u"
    unfolding d using k(1) by (auto simp: keyed_def list_all_iff ruleKey_def)
  then show "distinct (map ruleKey (decidingRules r mws checks))" using k(2) by (simp add: jmWf_def)
  have same: "map ruleKey ?all = candidateRules r mws checks"
    by (simp add: candidateRules_def comp_def ruleKey_def [abs_def] case_prod_unfold)
  have "ruleKey ` set (decidingRules r mws checks) = fst ` set ?u"
    using fst by (metis set_map)
  also have "\<dots> = ruleKey ` set ?all" by (simp add: keepFirst_keys ruleKey_def [abs_def])
  also have "\<dots> = set (candidateRules r mws checks)"
    unfolding set_map [symmetric] same ..
  finally show "ruleKey ` set (decidingRules r mws checks) = set (candidateRules r mws checks)" .
qed

text \<open>Every refusal that is not owed to missing context evidence has a rule to blame.\<close>

lemma checkDeciders_finding:
  assumes "f \<in> set (mo_findings c)" and "decidingFinding f r = Some kind"
    and "\<not> (r = CheckNotAvailable \<and> mo_status c = CheckFailed)"
  shows "checkDeciders r mws c \<noteq> []"
  using assms by (auto simp: checkDeciders_def split: option.splits)

lemma refusal_blamed:
  assumes "selectReason event ctx checks = r" and "r \<noteq> Eligible" and "mc_gaps ctx = [] \<or> r \<noteq> EvidenceUnresolved"
    and failed: "\<And>c. c \<in> set checks \<Longrightarrow> mo_status c = CheckFailed \<Longrightarrow> checkDeciders CheckNotAvailable mws c \<noteq> []"
  shows "candidateRules r mws checks \<noteq> []"
proof -
  have blamed: "candidateRules r mws checks \<noteq> []" if "raised outc checks" "\<And>f. pf_outcome f = outc \<Longrightarrow> matchesReason f r" for outc
  proof -
    from that(1) obtain c f where c: "c \<in> set checks" and f: "f \<in> set (mo_findings c)" "pf_outcome f = outc"
      by (auto simp: raised_def)
    have "decidingFinding f r \<noteq> None" using that(2) [OF f(2)] assms(2) by (simp add: decidingFinding_def)
    then have "checkDeciders r mws c \<noteq> []"
      using checkDeciders_finding [OF f(1)] failed [OF c] by (cases "r = CheckNotAvailable \<and> mo_status c = CheckFailed") auto
    then show ?thesis using c by (auto simp: candidateRules_def)
  qed
  have pick: "r = pickReason (raised Block checks)
       ((\<exists>c\<in>set checks. mo_status c = CheckFailed) \<or> raised (Hold CheckUnavailable) checks)
       (mc_gaps ctx \<noteq> [] \<or> (raised (Hold UnresolvedEvidence) checks \<or> raised (Hold CheckUnavailable) checks) \<or> conflicting checks)
       (raised NeedsRevision checks)
       (raised ApprovalRequired checks \<and> \<not> hasApproval event ctx)"
    using assms(1) unfolding selectReason_pick by simp
  show ?thesis
  proof (cases r)
    case Prohibited
    with pick have "raised Block checks" by (simp add: pickReason_def split: if_splits)
    then show ?thesis by (rule blamed) (simp add: matchesReason_def Prohibited)
  next
    case CheckNotAvailable
    with pick consider c where "c \<in> set checks" "mo_status c = CheckFailed" | "raised (Hold CheckUnavailable) checks"
      by (auto simp: pickReason_def split: if_splits)
    then show ?thesis
    proof cases
      case (1 c)
      then show ?thesis using failed [OF 1] by (auto simp: candidateRules_def CheckNotAvailable)
    next
      case 2
      then show ?thesis by (rule blamed) (simp add: matchesReason_def CheckNotAvailable)
    qed
  next
    case EvidenceUnresolved
    with pick assms(3) consider "raised (Hold UnresolvedEvidence) checks" | "conflicting checks"
      by (auto simp: pickReason_def split: if_splits)
    then show ?thesis
    proof cases
      case 1
      then show ?thesis by (rule blamed) (simp add: matchesReason_def EvidenceUnresolved)
    next
      case 2
      then have "conflictingExpectations checks \<noteq> []" using conflictingExpectations_iff by force
      then show ?thesis by (simp add: candidateRules_def EvidenceUnresolved)
    qed
  next
    case NormViolation
    with pick have "raised NeedsRevision checks" by (simp add: pickReason_def split: if_splits)
    then show ?thesis by (rule blamed) (simp add: matchesReason_def NormViolation)
  next
    case ApprovalNeeded
    with pick have "raised ApprovalRequired checks" by (simp add: pickReason_def split: if_splits)
    then show ?thesis by (rule blamed) (simp add: matchesReason_def ApprovalNeeded)
  qed (use assms(2) in simp)
qed

lemma find_registration:
  assumes "distinct (map mw_id mws)" and "mw \<in> set mws"
  shows "List.find (\<lambda>(entryId, _). entryId = mw_id mw) (map registrationOf mws) = Some (registrationOf mw)"
  using assms by (induction mws) (auto simp: registrationOf_def)

lemma makeChain_accepts:
  assumes "makeChain sizes entries settings = Inr chain"
  shows "distinct (map mw_id entries)" and "list_all (\<lambda>mw. captureEntry mw = Inr mw) entries"
proof -
  show "distinct (map mw_id entries)"
    using assms unfolding makeChain_def length_map [of mw_id, symmetric] length_jsSet_eq_iff by (simp split: if_splits)
  have same: "captureEntry mw = Inr mw' \<Longrightarrow> captureEntry mw = Inr mw" for mw mw'
    by (auto simp: captureEntry_def split: if_splits)
  from assms obtain ys where "forEachE captureEntry entries = Inr ys" by (auto simp: makeChain_def bindE_Inr_iff split: if_splits)
  then show "list_all (\<lambda>mw. captureEntry mw = Inr mw) entries"
    by (auto simp: list_all_iff dest!: forEachE_result intro: same)
qed

lemma captureEntry_rules: "captureEntry mw = Inr mw' \<Longrightarrow> mw_rules mw \<noteq> [] \<and> distinct (map rd_id (mw_rules mw))"
  unfolding captureEntry_def length_map [of rd_id, symmetric] length_jsSet_eq_iff by (simp split: if_splits)

text \<open>A check speaks of registered rules only.\<close>

lemma ruleById_registered: "ruleById rules i = Some r \<Longrightarrow> i \<in> set (map rd_id rules)"
  by (auto simp: ruleById_def dest!: find_Some_mem)

lemma runMiddleware_registered:
  assumes "c = fst (runMiddleware sizes mw input settings deadline now)"
  shows "f \<in> set (mo_findings c) \<Longrightarrow> pf_ruleId f \<in> set (map rd_id (mw_rules mw))"
    and "n \<in> set (mo_expectations c) \<Longrightarrow> ne_ruleId n \<in> set (map rd_id (mw_rules mw))"
proof -
  have "validResult \<lparr>mr_findings = mo_findings c, mr_expectations = mo_expectations c\<rparr> mw input \<or>
    mo_findings c = [] \<and> mo_expectations c = []"
  proof (cases "mo_status c")
    case Completed
    with assms runMiddleware_completed(1) obtain res where "validResult res mw input"
      "mo_findings c = mr_findings res" "mo_expectations c = mr_expectations res" by metis
    then show ?thesis by (cases res) simp
  next
    case CheckFailed
    then show ?thesis
      unfolding assms by (auto simp: runMiddleware_def unavailableEntry_def Let_def split: prod.splits sum.splits if_splits)
  qed
  moreover have "validFinding f (mi_event input) (ruleById rules i) \<Longrightarrow> i \<in> set (map rd_id rules)" for rules i
    by (cases "ruleById rules i") (auto simp: validFinding_def dest: ruleById_registered simp del: set_map)
  moreover have "map_option rd_kind (ruleById rules i) = Some Norm \<Longrightarrow> i \<in> set (map rd_id rules)" for rules i
    by (auto dest: ruleById_registered simp del: set_map)
  ultimately show "f \<in> set (mo_findings c) \<Longrightarrow> pf_ruleId f \<in> set (map rd_id (mw_rules mw))"
    and "n \<in> set (mo_expectations c) \<Longrightarrow> ne_ruleId n \<in> set (map rd_id (mw_rules mw))"
    unfolding validResult_def list_all_iff by force+
qed

definition registeredKey :: "middleware list \<Rightarrow> string \<times> string \<Rightarrow> bool" where
  "registeredKey mws k \<longleftrightarrow> list_ex (\<lambda>mw. fst k = mw_id mw \<and> snd k \<in> set (map rd_id (mw_rules mw))) mws"

lemma candidateRules_registered:
  assumes ids: "distinct (map mw_id mws)"
    and ran: "list_all2 (\<lambda>mw c. \<exists>input now. c = fst (runMiddleware sizes mw input settings deadline now)) mws checks"
    and "k \<in> set (candidateRules r (map registrationOf mws) checks)"
  shows "registeredKey mws k"
proof -
  have reg: "registeredKey mws (mo_middlewareId c, i)"
    if c: "c \<in> set checks" and i: "\<And>mw. mw \<in> set mws \<Longrightarrow> mw_id mw = mo_middlewareId c \<Longrightarrow>
      \<exists>input now. c = fst (runMiddleware sizes mw input settings deadline now) \<Longrightarrow> i \<in> set (map rd_id (mw_rules mw))" for c i
  proof -
    from list_all2_mem_right [OF ran c] obtain mw input now' where mw: "mw \<in> set mws"
      "c = fst (runMiddleware sizes mw input settings deadline now')" by auto
    then have "mw_id mw = mo_middlewareId c" by (simp add: runMiddleware_id)
    moreover from this have "i \<in> set (map rd_id (mw_rules mw))" using i [OF mw(1)] mw(2) by blast
    ultimately show ?thesis using mw(1) unfolding registeredKey_def list_ex_iff by (auto intro!: bexI [of _ mw])
  qed
  from assms(3) consider (rule) c d where "c \<in> set checks" "d \<in> set (checkDeciders r (map registrationOf mws) c)" "k = ruleKey d"
    | (conflict) "k \<in> set (conflictingExpectations checks)" by (auto simp: candidateRules_def split: if_splits)
  then show ?thesis
  proof cases
    case rule
    have "dr_middlewareId d = mo_middlewareId c"
      using rule(2) by (auto simp: checkDeciders_def Let_def split: if_splits option.splits)
    moreover have "dr_ruleId d \<in> set (map rd_id (mw_rules mw))"
      if mw: "mw \<in> set mws" "mw_id mw = mo_middlewareId c"
        "\<exists>input now. c = fst (runMiddleware sizes mw input settings deadline now)" for mw
    proof (cases "r = CheckNotAvailable \<and> mo_status c = CheckFailed")
      case True
      then show ?thesis
        using rule(2) find_registration [OF ids mw(1)]
        by (auto simp: checkDeciders_def registrationOf_def mw(2))
    next
      case False
      with rule(2) obtain f where "f \<in> set (mo_findings c)" "dr_ruleId d = pf_ruleId f"
        by (auto simp: checkDeciders_def split: option.splits if_splits)
      then show ?thesis using mw(3) runMiddleware_registered(1) by metis
    qed
    ultimately show ?thesis using reg [OF rule(1)] rule(3) by (simp add: ruleKey_def)
  next
    case conflict
    then obtain c n where "c \<in> set checks" and n: "n \<in> set (mo_expectations c)" and k: "k = (mo_middlewareId c, ne_ruleId n)"
      by (auto simp: conflictingExpectations_def Let_def placedNorms_set)
    from reg [OF this(1)] show ?thesis unfolding k using n runMiddleware_registered(2) by metis
  qed
qed

lemma chain_attributes:
  assumes "makeChain sizes entries settings = Inr chain"
    and "chain event ctx now = Inr result" and "fc_judgment result \<noteq> JAllow"
    and "mc_gaps ctx = [] \<or> fc_reason result \<noteq> EvidenceUnresolved"
  shows "decidingRules (fc_reason result) (map registrationOf entries) (fc_checks result) \<noteq> [] \<and>
    distinct (map ruleKey (decidingRules (fc_reason result) (map registrationOf entries) (fc_checks result))) \<and>
    list_all (registeredKey entries)
      (map ruleKey (decidingRules (fc_reason result) (map registrationOf entries) (fc_checks result)))"
proof -
  let ?d = "now + fs_timeoutMilliseconds settings" and ?regs = "map registrationOf entries"
  from captured_chain [OF assms(1)] assms(2)
  have "checkMessage sizes event ctx entries settings now = Inr result" by simp
  then obtain checks where checks: "checks = checkLoop sizes event ctx settings ?d [] entries now"
    and result: "result = composeDecision event ctx entries checks" by (rule checkMessage_accepts)
  note ids = makeChain_accepts(1) [OF assms(1)]
  have ran: "list_all2 (\<lambda>mw c. \<exists>input now. c = fst (runMiddleware sizes mw input settings ?d now)) entries checks"
    using checkLoop_append [of sizes event ctx settings ?d "[]" entries now] checks
    by (auto elim!: list_all2_mono)
  have "checkDeciders CheckNotAvailable ?regs c \<noteq> []" if c: "c \<in> set checks" and failed: "mo_status c = CheckFailed" for c
  proof -
    from list_all2_mem_right [OF ran c] obtain mw where mw: "mw \<in> set entries" "mo_middlewareId c = mw_id mw"
      by (auto simp: runMiddleware_id)
    then have "mw_rules mw \<noteq> []"
      using makeChain_accepts(2) [OF assms(1)] captureEntry_rules by (auto simp: list_all_iff)
    then show ?thesis
      using failed find_registration [OF ids mw(1)] by (simp add: checkDeciders_def mw(2) registrationOf_def)
  qed
  then have "candidateRules (fc_reason result) ?regs checks \<noteq> []"
    using refusal_blamed [of event ctx checks "fc_reason result" ?regs] assms(3,4) by (auto simp: result judgmentOf_allow)
  then show ?thesis
    using decidingRules_keys [of "fc_reason result" ?regs checks] candidateRules_registered [OF ids ran]
    by (auto simp: result list_all_iff)
qed

section \<open>A sample firewall\<close>

definition sampleRule :: rule_description where
  "sampleRule = \<lparr>rd_id = ''r'', rd_kind = Norm, rd_source = None, rd_guidance = None,
     rd_feedback = Some \<lparr>fb_text = ''wait'', fb_nextAction = Wait\<rparr>\<rparr>"

text \<open>An entry that reports one outcome for its only rule, after five milliseconds.\<close>

definition sampleEntry :: "string \<Rightarrow> finding_outcome \<Rightarrow> middleware" where
  "sampleEntry i outc = \<lparr>mw_id = i, mw_revision = ''1'', mw_rules = [sampleRule],
     mw_check = (\<lambda>input. (Returns (Some \<lparr>mr_findings = [\<lparr>pf_ruleId = ''r'', pf_outcome = outc\<rparr>], mr_expectations = []\<rparr>), 5))\<rparr>"

definition sampleDraft :: message where
  "sampleDraft = \<lparr>ms_id = ''m'', ms_sender = ''a'', ms_recipients = [''b''], ms_text = ''hi'', ms_operation = None\<rparr>"

definition sampleContext :: "string \<Rightarrow> message_context" where
  "sampleContext agent = \<lparr>mc_agentId = agent, mc_principal = ''p'', mc_participants = [], mc_history = [],
     mc_earlierHistoryOmitted = None, mc_now = None, mc_facts = [], mc_gaps = [], mc_authorization = Absent\<rparr>"

definition sampleSettings :: firewall_settings where
  "sampleSettings = \<lparr>fs_timeoutMilliseconds = 100, fs_middlewareTimeoutMilliseconds = 50,
     fs_maximumInputBytes = 1000, fs_maximumResultBytes = 1000\<rparr>"

definition sampleSizes :: firewall_sizes where
  "sampleSizes = \<lparr>fz_inputBytes = (\<lambda>_. 10), fz_resultBytes = (\<lambda>_. 10)\<rparr>"

lemma firewall_identifiers:
  "isFirewallIdentifier ''r''" "isFirewallIdentifier ''1''" "isFirewallIdentifier ''m''" "isFirewallIdentifier ''a''"
  "isFirewallIdentifier ''b''" "isFirewallIdentifier ''p''" "isFirewallIdentifier ''e''" "isFirewallIdentifier ''f''"
  by code_simp+

lemmas sample_defs = sampleEntry_def sampleRule_def sampleDraft_def sampleContext_def sampleSettings_def sampleSizes_def

lemma sample_captured: "isFirewallIdentifier i \<Longrightarrow> captureEntry (sampleEntry i outc) = Inr (sampleEntry i outc)"
  by (simp add: captureEntry_def sample_defs ruleFits_def firewall_identifiers jsSet_def)

lemma sample_chain:
  "isFirewallIdentifier i \<Longrightarrow> makeChain sizes [sampleEntry i outc] settings =
     Inr (\<lambda>event ctx now. checkMessage sizes event ctx [sampleEntry i outc] settings now)"
  by (simp add: makeChain_def sample_captured jsSet_def)

lemma sample_firewall:
  "\<exists>fw. makeFirewall sampleSizes [sampleEntry ''e'' outc] [sampleEntry ''e'' outc] sampleSettings = Inr fw \<and>
     (\<forall>m ctx now. checkOutgoing fw m ctx now =
        checkMessage sampleSizes \<lparr>ev_direction = Outgoing, ev_message = m\<rparr> ctx [sampleEntry ''e'' outc] sampleSettings now)"
  by (simp add: makeFirewall_def sample_chain firewall_identifiers settingsFit_def sampleSettings_def)

lemma sample_input:
  "captureInput \<lparr>ev_direction = Outgoing, ev_message = sampleDraft\<rparr> (sampleContext ''a'') =
     Inr (\<lparr>ev_direction = Outgoing, ev_message = sampleDraft\<rparr>, sampleContext ''a'')"
  by (simp add: captureInput_def messageFits_def contextFits_def sample_defs firewall_identifiers jsSet_def)

lemma sample_run:
  assumes "validFinding \<lparr>pf_ruleId = ''r'', pf_outcome = outc\<rparr> (mi_event input) (Some sampleRule)"
    and "findingFits \<lparr>pf_ruleId = ''r'', pf_outcome = outc\<rparr>" and "now + 5 \<le> deadline"
  shows "runMiddleware sampleSizes (sampleEntry i outc) input sampleSettings deadline now =
    (\<lparr>mo_middlewareId = i, mo_revision = ''1'', mo_status = Completed,
      mo_findings = [\<lparr>pf_ruleId = ''r'', pf_outcome = outc\<rparr>], mo_expectations = [],
      mk_elapsedMilliseconds = 5, mk_failure = None\<rparr>, now + 5)"
  using assms by (simp add: runMiddleware_def invokeMiddleware_def sampleEntry_def sampleSizes_def sampleSettings_def
      resultFits_def validResult_def ruleById_def jsSet_def) (simp add: sampleRule_def)

lemma sample_decision:
  assumes "outc = Pass \<or> outc = Block"
  shows "checkMessage sampleSizes \<lparr>ev_direction = Outgoing, ev_message = sampleDraft\<rparr> (sampleContext ''a'')
    [sampleEntry i outc] sampleSettings 0 =
    Inr (composeDecision \<lparr>ev_direction = Outgoing, ev_message = sampleDraft\<rparr> (sampleContext ''a'') [sampleEntry i outc]
      [\<lparr>mo_middlewareId = i, mo_revision = ''1'', mo_status = Completed,
        mo_findings = [\<lparr>pf_ruleId = ''r'', pf_outcome = outc\<rparr>], mo_expectations = [],
        mk_elapsedMilliseconds = 5, mk_failure = None\<rparr>])"
proof -
  have "findingFits \<lparr>pf_ruleId = ''r'', pf_outcome = outc\<rparr>"
    using assms by (auto simp: findingFits_def firewall_identifiers)
  moreover have "validFinding \<lparr>pf_ruleId = ''r'', pf_outcome = outc\<rparr> event (Some sampleRule)" for event
    using assms by (auto simp: validFinding_def)
  ultimately show ?thesis
    by (simp add: checkMessage_def sample_input sample_run) (simp add: sample_run sampleSettings_def [THEN arg_cong [of _ _ fs_timeoutMilliseconds]])
qed

lemma sample_reason:
  "selectReason event (sampleContext agent) [\<lparr>mo_middlewareId = i, mo_revision = ''1'', mo_status = Completed,
        mo_findings = [\<lparr>pf_ruleId = ''r'', pf_outcome = Pass\<rparr>], mo_expectations = [],
        mk_elapsedMilliseconds = 5, mk_failure = None\<rparr>] = Eligible"
  "selectReason event (sampleContext agent) [\<lparr>mo_middlewareId = i, mo_revision = ''1'', mo_status = Completed,
        mo_findings = [\<lparr>pf_ruleId = ''r'', pf_outcome = Block\<rparr>], mo_expectations = [],
        mk_elapsedMilliseconds = 5, mk_failure = None\<rparr>] = Prohibited"
  by (simp_all add: selectReason_def Let_def allFindings_def unavailableCheck_def unresolvedCheck_def isHold_def
      sampleContext_def conflictingExpectations_def placedNorms_def)

section \<open>Properties\<close>

text \<open>
  C17: The firewall fails closed. Whenever a send is admitted there is no missing evidence, and every middleware installed
  for sends ran on it in order, with the checks before it as its input, an input within the byte budget. The code itself
  returned a result within the byte budget and its own time, and the whole chain kept its time: nothing that failed,
  died, overran or exceeded a budget is behind an admission. Each result has a finding for every
  registered rule and none a rule of its kind does not permit, and expectations of distinct norms about distinct
  messages of the shown history; and every finding lets the message pass, or asks for an approval its owner
  gave to a message of this identifier, sender, recipients and text.
\<close>

theorem firewall_fails_closed:
  assumes "makeFirewall sizes incoming outgoing settings = Inr fw"
    and "checkOutgoing fw m ctx now = Inr result" and "fc_judgment result = JAllow"
  shows "mc_gaps ctx = [] \<and> length (fc_checks result) = length outgoing \<and>
    list_all (\<lambda>i. returnedInBounds sizes settings \<lparr>mi_event = \<lparr>ev_direction = Outgoing, ev_message = m\<rparr>, mi_context = ctx,
        mi_previous = map observed (take i (fc_checks result))\<rparr> (outgoing ! i) (fc_checks result ! i) \<and>
      answersRules ctx (outgoing ! i) (fc_checks result ! i) \<and>
      list_all (unrestricted \<lparr>ev_direction = Outgoing, ev_message = m\<rparr> ctx) (mo_findings (fc_checks result ! i))) [0..<length outgoing] \<and>
    sum_list (map mk_elapsedMilliseconds (fc_checks result)) \<le> fs_timeoutMilliseconds settings"
proof -
  let ?e = "\<lparr>ev_direction = Outgoing, ev_message = m\<rparr>"
  let ?d = "now + fs_timeoutMilliseconds settings"
  from assms(1) obtain inChain outChain where "makeChain sizes outgoing settings = Inr outChain" "settingsFit settings"
    and "checkOutgoing fw = (\<lambda>m ctx now. outChain \<lparr>ev_direction = Outgoing, ev_message = m\<rparr> ctx now)"
    by (auto simp: makeFirewall_def bindE_Inr_iff split: if_splits)
  with assms(2) have "checkMessage sizes ?e ctx outgoing settings now = Inr result" "now \<le> ?d"
    using captured_chain by (metis, simp add: settingsFit_def)
  then obtain checks where checks: "checks = checkLoop sizes ?e ctx settings ?d [] outgoing now"
    and result: "result = composeDecision ?e ctx outgoing checks"
    by (elim checkMessage_accepts) blast
  have "selectReason ?e ctx checks = Eligible" using assms(3) by (simp add: result judgmentOf_allow)
  then have elig: "mc_gaps ctx = []" "list_all (\<lambda>c. mo_status c = Completed) checks"
    "\<And>c f. c \<in> set checks \<Longrightarrow> f \<in> set (mo_findings c) \<Longrightarrow> unrestricted ?e ctx f"
    by (auto simp: list_all_iff dest: selectReason_eligible)
  have worth: "length checks = length outgoing \<and>
      (\<forall>i<length outgoing. returnedInBounds sizes settings
          \<lparr>mi_event = ?e, mi_context = ctx, mi_previous = map observed (take i checks)\<rparr> (outgoing ! i) (checks ! i) \<and>
        answersRules ctx (outgoing ! i) (checks ! i)) \<and> now + sum_list (map mk_elapsedMilliseconds checks) \<le> ?d"
    using checkLoop_worth [of ?e now ?d sizes ctx settings "[]" outgoing] \<open>now \<le> ?d\<close> elig(2) by (auto simp: checks [symmetric])
  have "list_all (unrestricted ?e ctx) (mo_findings (checks ! i))" if "i < length outgoing" for i
    using that worth elig(3) [of "checks ! i"] by (simp add: list_all_iff)
  then show ?thesis using elig(1) worth by (simp add: result list_all_iff)
qed

theorem firewall_fails_closed_witness:
  "\<exists>fw result. makeFirewall sampleSizes [sampleEntry ''e'' Pass] [sampleEntry ''e'' Pass] sampleSettings = Inr fw \<and>
     checkOutgoing fw sampleDraft (sampleContext ''a'') 0 = Inr result \<and> fc_judgment result = JAllow \<and>
     answersRules (sampleContext ''a'') (sampleEntry ''e'' Pass) (fc_checks result ! 0) \<and>
     sum_list (map mk_elapsedMilliseconds (fc_checks result)) \<le> 100"
proof -
  obtain fw where fw: "makeFirewall sampleSizes [sampleEntry ''e'' Pass] [sampleEntry ''e'' Pass] sampleSettings = Inr fw"
    and out: "checkOutgoing fw sampleDraft (sampleContext ''a'') 0 = checkMessage sampleSizes
      \<lparr>ev_direction = Outgoing, ev_message = sampleDraft\<rparr> (sampleContext ''a'') [sampleEntry ''e'' Pass] sampleSettings 0"
    using sample_firewall [of Pass] by blast
  obtain result where r: "checkOutgoing fw sampleDraft (sampleContext ''a'') 0 = Inr result" "fc_judgment result = JAllow"
    using sample_decision [of Pass "''e''"] by (simp add: out sample_reason)
  from firewall_fails_closed [OF fw r] fw r show ?thesis by (auto simp: sampleSettings_def)
qed

text \<open>
  C18: Refusals accumulate. Installing further middleware behind a chain never weakens its
  decision on any message, in the order of reasons from admission over approval, repair,
  missing evidence and an unavailable check to prohibition.
\<close>

theorem refusals_accumulate:
  assumes "checkMessage sizes event ctx mws settings now = Inr result"
    and "checkMessage sizes event ctx (mws @ extra) settings now = Inr result'"
  shows "fc_reason result \<le> fc_reason result'"
proof -
  let ?d = "now + fs_timeoutMilliseconds settings"
  from assms(1) obtain checks where c: "checks = checkLoop sizes event ctx settings ?d [] mws now"
    "result = composeDecision event ctx mws checks" by (rule checkMessage_accepts)
  from assms(2) obtain checks' where c': "checks' = checkLoop sizes event ctx settings ?d [] (mws @ extra) now"
    "result' = composeDecision event ctx (mws @ extra) checks'" by (rule checkMessage_accepts)
  obtain now' where "checks' = checkLoop sizes event ctx settings ?d checks extra now'"
    using checkLoop_prefix [of sizes event ctx settings ?d "[]" mws extra now] c(1) c'(1) by auto
  then obtain new where "checks' = checks @ new"
    using checkLoop_append [of sizes event ctx settings ?d checks extra now'] by auto
  then show ?thesis using composition.grows_appended [of event ctx checks new] c(2) c'(2) by simp
qed

theorem refusals_accumulate_witness:
  "\<exists>result result'. checkMessage sampleSizes \<lparr>ev_direction = Outgoing, ev_message = sampleDraft\<rparr> (sampleContext ''a'')
       [sampleEntry ''e'' Block] sampleSettings 0 = Inr result \<and>
     checkMessage sampleSizes \<lparr>ev_direction = Outgoing, ev_message = sampleDraft\<rparr> (sampleContext ''a'')
       [sampleEntry ''e'' Block, sampleEntry ''f'' Pass] sampleSettings 0 = Inr result' \<and>
     fc_reason result = Prohibited \<and> Prohibited \<le> fc_reason result'"
proof -
  let ?e = "\<lparr>ev_direction = Outgoing, ev_message = sampleDraft\<rparr>"
  obtain result where r: "checkMessage sampleSizes ?e (sampleContext ''a'') [sampleEntry ''e'' Block] sampleSettings 0 = Inr result"
    "fc_reason result = Prohibited" using sample_decision [of Block "''e''"] by (simp add: sample_reason)
  obtain result' where r': "checkMessage sampleSizes ?e (sampleContext ''a'')
      ([sampleEntry ''e'' Block] @ [sampleEntry ''f'' Pass]) sampleSettings 0 = Inr result'"
    by (simp add: checkMessage_def sample_input Let_def)
  from refusals_accumulate [OF r(1) r'] r r' show ?thesis by auto
qed

text \<open>
  No check of a received message asks for a revision: a validated result has no such
  finding for an incoming message, so the failure that \<^verbatim>\<open>checkIncoming\<close> keeps for it is never
  taken, and the chain's own answer is what the caller receives.
\<close>

theorem incoming_never_revised:
  assumes "makeFirewall sizes incoming outgoing settings = Inr fw"
  shows "checkIncoming fw m ctx now =
    checkMessage sizes \<lparr>ev_direction = Incoming, ev_message = m\<rparr> ctx incoming settings now"
proof -
  let ?e = "\<lparr>ev_direction = Incoming, ev_message = m\<rparr>"
  from assms obtain inChain where "makeChain sizes incoming settings = Inr inChain"
    and f: "checkIncoming fw = (\<lambda>m ctx now.
               bindE (inChain \<lparr>ev_direction = Incoming, ev_message = m\<rparr> ctx now) (\<lambda>result.
               if fc_judgment result = JRevise then Inl MessageError else Inr result))"
    by (auto simp: makeFirewall_def bindE_Inr_iff split: if_splits)
  then have "inChain ?e ctx now = checkMessage sizes ?e ctx incoming settings now"
    using captured_chain by metis
  moreover have "fc_judgment result \<noteq> JRevise" if "checkMessage sizes ?e ctx incoming settings now = Inr result" for result
    using that incoming_unrevised by (elim checkMessage_accepts) (auto simp: judgmentOf_revise selectReason_pick pickReason_def split: if_splits)
  ultimately show ?thesis
    by (cases "checkMessage sizes ?e ctx incoming settings now") (simp_all add: f)
qed

theorem incoming_never_revised_witness:
  "\<exists>fw. makeFirewall sampleSizes [sampleEntry ''e'' Pass] [sampleEntry ''e'' Pass] sampleSettings = Inr fw \<and>
     checkIncoming fw sampleDraft (sampleContext ''b'') 0 = checkMessage sampleSizes
       \<lparr>ev_direction = Incoming, ev_message = sampleDraft\<rparr> (sampleContext ''b'') [sampleEntry ''e'' Pass] sampleSettings 0"
  using sample_firewall [of Pass] incoming_never_revised by blast

text \<open>
  The advice fits the decision. Every refusal carries feedback and no admission does; no
  template invites anything but the next actions its reason permits, so none asks to approve a
  prohibition or to skip a needed repair; and only admissions carry guidance.
\<close>

theorem advice_fits_decision:
  "(fc_feedback (composeDecision event ctx mws checks) = [] \<longleftrightarrow>
     fc_judgment (composeDecision event ctx mws checks) = JAllow) \<and>
   list_all (\<lambda>fb. validNextAction (fc_reason (composeDecision event ctx mws checks)) (fb_nextAction fb))
     (fc_feedback (composeDecision event ctx mws checks)) \<and>
   (fc_guidance (composeDecision event ctx mws checks) = [] \<or>
    fc_judgment (composeDecision event ctx mws checks) = JAllow)"
proof -
  let ?r = "selectReason event ctx checks"
  have "projectFeedback regs checks r = [] \<longleftrightarrow> r = Eligible" for regs r
    by (cases r) (auto simp: projectFeedback_def Let_def matchesReason_def split: option.splits)
  moreover have "list_all (\<lambda>fb. validNextAction r (fb_nextAction fb)) (defaultFeedback r)" for r
    by (cases r) (simp_all add: validNextAction_def)
  then have "list_all (\<lambda>fb. validNextAction r (fb_nextAction fb)) (projectFeedback regs checks r)" for regs r
    by (auto simp: projectFeedback_def Let_def list_all_iff split: option.splits if_splits)
  moreover have "fc_guidance (composeDecision event ctx mws checks) = [] \<or> ?r = Eligible"
    by (simp add: composeDecision_def Let_def)
  ultimately show ?thesis by (simp add: judgmentOf_allow)
qed

text \<open>
  Every refusal is attributed. When a chain refuses a message and no context evidence is
  missing, the deciding rules are not empty, name each rule once, and name only rules that the
  entry they blame has registered.
\<close>

theorem refusals_are_attributed:
  assumes "makeChain sizes entries settings = Inr chain"
    and "chain event ctx now = Inr result" and "fc_judgment result \<noteq> JAllow" and "mc_gaps ctx = []"
  shows "decidingRules (fc_reason result) (map registrationOf entries) (fc_checks result) \<noteq> [] \<and>
    distinct (map ruleKey (decidingRules (fc_reason result) (map registrationOf entries) (fc_checks result))) \<and>
    list_all (registeredKey entries)
      (map ruleKey (decidingRules (fc_reason result) (map registrationOf entries) (fc_checks result)))"
  using chain_attributes [OF assms(1-3)] assms(4) by simp

theorem refusals_are_attributed_witness:
  "\<exists>chain result. makeChain sampleSizes [sampleEntry ''e'' Block] sampleSettings = Inr chain \<and>
     chain \<lparr>ev_direction = Outgoing, ev_message = sampleDraft\<rparr> (sampleContext ''a'') 0 = Inr result \<and>
     fc_judgment result = JBlock \<and>
     decidingRules (fc_reason result) (map registrationOf [sampleEntry ''e'' Block]) (fc_checks result) \<noteq> []"
proof -
  let ?chain = "\<lambda>event ctx now. checkMessage sampleSizes event ctx [sampleEntry ''e'' Block] sampleSettings now"
  let ?e = "\<lparr>ev_direction = Outgoing, ev_message = sampleDraft\<rparr>"
  have chain: "makeChain sampleSizes [sampleEntry ''e'' Block] sampleSettings = Inr ?chain"
    by (rule sample_chain) (rule firewall_identifiers)
  obtain result where r: "?chain ?e (sampleContext ''a'') 0 = Inr result" and j: "fc_judgment result = JBlock"
    using sample_decision [of Block "''e''"] by (simp add: sample_reason)
  have "mc_gaps (sampleContext ''a'') = []" by (simp add: sampleContext_def)
  with refusals_are_attributed [OF chain r] chain r j show ?thesis by auto
qed

end
