(* ===== verification/Firewall_English_Facts.thy ===== *)
theory Firewall_English_Facts
  imports Firewall_English Firewall_Guarantees
begin

text \<open>
  What English policies guarantee: their results always pass the validation every middleware
  result faces, what they hold on, what a draft can influence, and the size of their requests.
\<close>

section \<open>Questions\<close>

lemma allQuestions_mem:
  assumes "(k, q) \<in> set (allQuestions stage check rules)"
  obtains rule where "rule \<in> set rules" "qu_ruleId q = rd_id rule"
    "q = primaryQuestion stage (rd_id rule) \<or>
     stage = Expectations \<and> qu_purpose q = SubjectReference \<and> qu_criteria q = subjectCriteria"
proof -
  from assms obtain i rule where m: "(i, rule) \<in> set (enumerate 0 rules)"
    and q: "(k, q) \<in> set (ruleQuestions stage check (rd_id rule) i)"
    by (auto simp: allQuestions_def)
  from m have "rule \<in> set rules" by (auto simp: in_set_enumerate_eq)
  moreover from q have "qu_ruleId q = rd_id rule"
    "q = primaryQuestion stage (rd_id rule) \<or>
     stage = Expectations \<and> qu_purpose q = SubjectReference \<and> qu_criteria q = subjectCriteria"
    by (auto simp: ruleQuestions_def primaryQuestion_def subjectQuestions_def split: if_splits)
  ultimately show ?thesis by (rule that)
qed

lemma allQuestions_covers:
  assumes "rule \<in> set rules"
  shows "\<exists>k. (k, primaryQuestion stage (rd_id rule)) \<in> set (allQuestions stage check rules)"
proof -
  from assms obtain i where "i < length rules" "rules ! i = rule" by (auto simp: in_set_conv_nth)
  then have "(i, rule) \<in> set (enumerate 0 rules)" by (auto simp: in_set_enumerate_eq)
  then show ?thesis by (auto simp: allQuestions_def ruleQuestions_def)
qed

section \<open>Stages\<close>

text \<open>A stage ends failed, empty because it asks nothing, or with valid answers to all its questions.\<close>

definition answeredWell ::
  "(rat \<Rightarrow> rat) \<Rightarrow> policy_stage \<Rightarrow> english_check \<Rightarrow> decision_request \<Rightarrow> decision_response \<Rightarrow> bool" where
  "answeredWell fl stage check request response \<longleftrightarrow>
     dq_questions request = allQuestions stage check (stageRules stage (ek_rules check)) \<and>
     responseFits response \<and> validAnswers fl request response"

definition uncertainAnswers :: "english_settings \<Rightarrow> decision_response \<Rightarrow> string list" where
  "uncertainAnswers settings response =
     concat (map (\<lambda>(i, answer). if unsettled answer (en_minimumProbability settings) then [i] else []) (dr_answers response))"

lemma uncertainAnswers_iff:
  "responseFits response \<Longrightarrow> jmGet (dr_answers response) i = Some answer \<Longrightarrow>
   i \<in> set (uncertainAnswers settings response) \<longleftrightarrow> unsettled answer (en_minimumProbability settings)"
  by (auto simp: uncertainAnswers_def responseFits_def jmWf_def jmGet_def dest!: map_of_SomeD split: if_splits)
    (metis eq_key_imp_eq_value)

lemma allQuestions_empty: "allQuestions stage check rules = [] \<Longrightarrow> rules = []"
  using allQuestions_covers [of "hd rules" rules stage check] by (cases rules) auto

lemma runStage_ends:
  assumes t: "t = runStage fl stage (makeEnglishRequest stateText stage check maximumBytes norms) provider settings"
  shows "st_stage t = stage \<and>
    (case st_status t of
       Failed _ _ \<Rightarrow> True
     | EmptyStage \<Rightarrow> stageRules stage (ek_rules check) = []
     | DependencyUnavailable \<Rightarrow> False
     | Answered request response uncertain \<Rightarrow>
         answeredWell fl stage check request response \<and> uncertain = uncertainAnswers settings response)"
proof (cases "makeEnglishRequest stateText stage check maximumBytes norms")
  case None
  then show ?thesis by (simp add: t runStage_def)
next
  case (Some request)
  note r = makeEnglishRequest_Some [OF Some]
  show ?thesis
  proof (cases "length (dq_questions request) = 0")
    case True
    then have "stageRules stage (ek_rules check) = []" using allQuestions_empty r(3) by auto
    then show ?thesis using True by (simp add: t runStage_def Some r(1))
  next
    case False
    obtain res elapsed where d: "decideWithinBudget fl request provider = (res, elapsed)" by fastforce
    show ?thesis
    proof (cases res)
      case (Inl failure)
      then show ?thesis using False by (simp add: t runStage_def Some d r(1))
    next
      case (Inr response)
      then have "answeredWell fl stage check request response"
        using d r(3) by (auto simp: decideWithinBudget_def answeredWell_def split: prod.splits provider_reply.splits option.splits if_splits)
      then show ?thesis using False by (simp add: t runStage_def Some d Inr r(1) uncertainAnswers_def)
    qed
  qed
qed

lemma runStage_cases:
  assumes "t = runStage fl stage (makeEnglishRequest stateText stage check maximumBytes norms) provider settings"
  obtains (failed) request failure where "st_status t = Failed request failure"
  | (empty) "st_status t = EmptyStage" "stageRules stage (ek_rules check) = []"
  | (answered) request response where "st_status t = Answered request response (uncertainAnswers settings response)"
      "answeredWell fl stage check request response"
  using runStage_ends [OF assms] by (cases "st_status t") auto

lemma validAnswers_mem:
  assumes "validAnswers fl request response" and "(k, q) \<in> set (dq_questions request)"
  obtains answer where "jmGet (dr_answers response) k = Some answer" "validAnswer fl q answer"
    "an_choice answer \<in> set (map fst (qu_criteria q))"
proof -
  from assms obtain answer where "jmGet (dr_answers response) k = Some answer" "validAnswer fl q answer"
    by (auto simp: validAnswers_def Let_def list_all_iff split: if_splits option.splits)
  moreover from this(2) have "an_choice answer \<in> set (map fst (qu_criteria q))"
    by (auto simp: validAnswer_def Let_def split: option.splits if_splits)
  ultimately show ?thesis by (rule that)
qed

section \<open>Valid results\<close>

text \<open>What the kind of a rule and the direction of a message permit as an outcome.\<close>

definition outcomeFits :: "direction \<Rightarrow> rule_kind \<Rightarrow> finding_outcome \<Rightarrow> bool" where
  "outcomeFits dir kind outc = (case outc of
     PassUncertain choice p \<Rightarrow> kind = Norm \<and> isFirewallIdentifier choice \<and> isProbability p
   | NeedsRevision \<Rightarrow> dir = Outgoing \<and> kind = Norm
   | ApprovalRequired \<Rightarrow> kind = Autonomy
   | _ \<Rightarrow> True)"

lemma stageRules_kind: "rule \<in> set (stageRules stage rules) \<Longrightarrow> stage \<noteq> Applicability \<Longrightarrow> rd_kind rule = stageKind stage"
  by (simp add: stageRules_def)

lemma responseFits_answer:
  assumes "responseFits response" and "jmGet (dr_answers response) k = Some answer"
    and "jmGet (an_probabilities answer) (an_choice answer) = Some p"
  shows "isFirewallIdentifier (an_choice answer) \<and> isProbability p"
proof -
  have "(k, answer) \<in> set (dr_answers response)" using assms(2) by (simp add: jmGet_def map_of_SomeD)
  then have a: "answerFits answer" using assms(1) by (auto simp: responseFits_def list_all_iff)
  have "(an_choice answer, p) \<in> set (an_probabilities answer)" using assms(3) by (simp add: jmGet_def map_of_SomeD)
  then show ?thesis using a by (auto simp: answerFits_def list_all_iff)
qed

lemma answered_outcome:
  assumes well: "answeredWell fl stage check request response"
    and q: "(k, q) \<in> set (dq_questions request)"
    and dir: "stage = Conformance \<longrightarrow> dir = Outgoing" and ids: "distinct (map rd_id (ek_rules check))"
    and f_def: "f = questionFinding q (qu_ruleId q \<in> set (map rd_id (filter (\<lambda>rule. rd_kind rule = Norm) (ek_rules check))))
    uncertain (jmGet (dr_answers response) k)"
  shows "\<exists>rule\<in>set (ek_rules check). pf_ruleId f = rd_id rule \<and> outcomeFits dir (rd_kind rule) (pf_outcome f)"
proof -
  let ?rules = "ek_rules check"
  have fits: "responseFits response" and valid: "validAnswers fl request response"
    and questions: "dq_questions request = allQuestions stage check (stageRules stage ?rules)"
    using well by (auto simp: answeredWell_def)
  from q questions obtain rule where rule: "rule \<in> set (stageRules stage ?rules)" "qu_ruleId q = rd_id rule"
    and shape: "q = primaryQuestion stage (rd_id rule) \<or>
      stage = Expectations \<and> qu_purpose q = SubjectReference \<and> qu_criteria q = subjectCriteria"
    by (metis allQuestions_mem)
  have mem: "rule \<in> set ?rules" using rule(1) by (simp add: stageRules_def)
  have norm: "rd_id rule \<in> set (map rd_id (filter (\<lambda>rule. rd_kind rule = Norm) ?rules)) \<longleftrightarrow> rd_kind rule = Norm"
    using mem ids by (auto simp: distinct_map inj_on_def)
  obtain answer where answer: "jmGet (dr_answers response) k = Some answer" "validAnswer fl q answer"
    and choice: "an_choice answer \<in> set (map fst (qu_criteria q))"
    using validAnswers_mem [OF valid q] by metis
  from answer(2) obtain p where p: "jmGet (an_probabilities answer) (an_choice answer) = Some p"
    by (auto simp: validAnswer_def Let_def split: option.splits)
  note a = responseFits_answer [OF fits answer(1) p]
  have "outcomeFits dir (rd_kind rule) (answerOutcome (Some (an_choice answer)))"
    using shape choice stageRules_kind [OF rule(1)] dir
    by (cases stage) (auto simp: primaryQuestion_def subjectCriteria_def answerOutcome_def outcomeFits_def)
  then show ?thesis
    using mem rule(2) a norm unfolding f_def
    by (intro bexI [of _ rule]) (auto simp: questionFinding_def Let_def answer p outcomeFits_def)
qed

text \<open>Every finding of a stage names a rule of the policy with an outcome its kind permits.\<close>

lemma stageFindings_fit:
  assumes t_def: "t = runStage fl stage (makeEnglishRequest stateText stage check maximumBytes norms) provider settings"
    and f: "f \<in> set (stageFindings t (ek_rules check))" and dir: "stage = Conformance \<longrightarrow> dir = Outgoing"
    and ids: "distinct (map rd_id (ek_rules check))"
  shows "\<exists>rule\<in>set (ek_rules check). pf_ruleId f = rd_id rule \<and> outcomeFits dir (rd_kind rule) (pf_outcome f)"
  using t_def
proof (cases rule: runStage_cases)
  case failed
  then show ?thesis using f by (auto simp: stageFindings_def outcomeFits_def)
next
  case empty
  then show ?thesis using f by (simp add: stageFindings_def)
next
  case (answered request response)
  from f obtain k q where "(k, q) \<in> set (dq_questions request)"
    and fq: "f = questionFinding q (qu_ruleId q \<in> set (map rd_id (filter (\<lambda>rule. rd_kind rule = Norm) (ek_rules check))))
       (k \<in> set (uncertainAnswers settings response)) (jmGet (dr_answers response) k)"
    by (auto simp: stageFindings_def answered(1) Let_def)
  from answered_outcome [OF answered(2) this(1) dir ids fq] show ?thesis .
qed

text \<open>The first stage has a finding for every rule.\<close>

lemma applicability_covers:
  assumes "rule \<in> set (ek_rules check)"
  shows "rd_id rule \<in> pf_ruleId ` set (stageFindings
    (runStage fl Applicability (makeEnglishRequest stateText Applicability check maximumBytes norms) provider settings) (ek_rules check))"
proof -
  let ?t = "runStage fl Applicability (makeEnglishRequest stateText Applicability check maximumBytes norms) provider settings"
  have all: "stageRules Applicability rules = rules" for rules by (simp add: stageRules_def)
  have stage: "st_stage ?t = Applicability" using runStage_ends [OF refl] by blast
  from refl [of ?t] show ?thesis
  proof (cases rule: runStage_cases)
    case failed
    then show ?thesis using assms stage by (auto simp: stageFindings_def stageIncludes_def image_iff)
  next
    case empty
    then show ?thesis using assms by (simp add: all)
  next
    case (answered request response)
    obtain k where k: "(k, primaryQuestion Applicability (rd_id rule)) \<in> set (dq_questions request)"
      using allQuestions_covers [OF assms] answered(2) by (metis all answeredWell_def)
    have "pf_ruleId (questionFinding (primaryQuestion Applicability (rd_id rule)) n u a) = rd_id rule" for n u a
      by (simp add: questionFinding_def primaryQuestion_def Let_def split: option.splits)
    then show ?thesis
      unfolding stageFindings_def answered(1) by (auto simp: Let_def image_iff intro!: bexI [OF _ k])
  qed
qed

section \<open>Expectations\<close>

lemma concat_singletons: "concat (map (\<lambda>x. if P x then [g x] else []) xs) = map g (filter P xs)"
  by (induction xs) auto

lemma distinct_map_filter_weaker:
  "distinct (map g (filter Q xs)) \<Longrightarrow> (\<And>x. x \<in> set xs \<Longrightarrow> P x \<Longrightarrow> Q x) \<Longrightarrow> distinct (map g (filter P xs))"
  by (induction xs) (auto split: if_splits)

definition assessed :: "string \<times> question \<Rightarrow> bool" where
  "assessed e \<longleftrightarrow> qu_purpose (snd e) = Assessment"

definition refersFor :: "string \<Rightarrow> string \<times> question \<Rightarrow> bool" where
  "refersFor r e \<longleftrightarrow> qu_ruleId (snd e) = r \<and> qu_subject (snd e) \<noteq> None"

lemma ruleQuestions_assessed: "filter assessed (ruleQuestions stage check r n) = [(''q'' @ natText n, primaryQuestion stage r)]"
  by (auto simp: ruleQuestions_def assessed_def subjectQuestions_def primaryQuestion_def filter_empty_conv)

lemma allQuestions_assessed:
  "map (\<lambda>e. qu_ruleId (snd e)) (filter assessed (allQuestions stage check rules)) = map rd_id rules"
proof -
  have "map (\<lambda>e. qu_ruleId (snd e)) (filter assessed (concat (map (\<lambda>(index, rule). ruleQuestions stage check (rd_id rule) index)
    (enumerate n rules)))) = map rd_id rules" for n
    by (induction rules arbitrary: n) (auto simp: ruleQuestions_assessed primaryQuestion_def)
  then show ?thesis by (simp add: allQuestions_def)
qed

lemma ruleQuestions_refers:
  "map (\<lambda>e. the (qu_subject (snd e))) (filter (refersFor r) (ruleQuestions Expectations check r' n)) =
     (if r' = r then questionReferences check else [])"
proof -
  have f: "filter (refersFor r) (subjectQuestions check r' n) = (if r' = r then subjectQuestions check r' n else [])"
    by (auto simp: subjectQuestions_def refersFor_def filter_empty_conv filter_id_conv)
  have "map (\<lambda>e. the (qu_subject (snd e))) (subjectQuestions check r' n) = map snd (enumerate 0 (questionReferences check))"
    by (simp add: subjectQuestions_def case_prod_unfold comp_def)
  then show ?thesis by (auto simp: ruleQuestions_def f refersFor_def primaryQuestion_def)
qed

lemma allQuestions_refers:
  assumes "distinct (map rd_id rules)"
  shows "map (\<lambda>e. the (qu_subject (snd e))) (filter (refersFor r) (allQuestions Expectations check rules)) =
     (if r \<in> set (map rd_id rules) then questionReferences check else [])"
proof -
  have "distinct (map rd_id rules) \<Longrightarrow> map (\<lambda>e. the (qu_subject (snd e))) (filter (refersFor r) (concat (map
    (\<lambda>(index, rule). ruleQuestions Expectations check (rd_id rule) index) (enumerate n rules)))) =
     (if r \<in> set (map rd_id rules) then questionReferences check else [])" for n
  proof (induction rules arbitrary: n)
    case (Cons rule rules)
    then show ?case using Cons.IH [of "Suc n"] by (auto simp: ruleQuestions_refers)
  qed simp
  then show ?thesis using assms by (simp add: allQuestions_def)
qed

text \<open>The references a norm collects: the settled, relevant ones of its own questions, in order.\<close>

definition settledReference :: "decision_response \<Rightarrow> string list \<Rightarrow> string \<times> question \<Rightarrow> bool" where
  "settledReference response uncertain e \<longleftrightarrow> qu_purpose (snd e) = SubjectReference \<and> fst e \<notin> set uncertain \<and>
     map_option an_choice (jmGet (dr_answers response) (fst e)) = Some ''relevant''"

definition orEmpty :: "'a list option \<Rightarrow> 'a list" where
  "orEmpty m = (case m of None \<Rightarrow> [] | Some xs \<Rightarrow> xs)"

lemma normSubjects_get:
  "orEmpty (jmGet (normSubjects response uncertain questions) r) =
     map (\<lambda>e. the (qu_subject (snd e))) (filter (\<lambda>e. refersFor r e \<and> settledReference response uncertain e) questions)"
proof -
  let ?f = "\<lambda>(i, question) subjects.
       case qu_subject question of
         Some subject \<Rightarrow>
           if qu_purpose question = SubjectReference \<and> i \<notin> set uncertain \<and>
              map_option an_choice (jmGet (dr_answers response) i) = Some ''relevant''
           then jmSet (qu_ruleId question) (orEmpty (jmGet subjects (qu_ruleId question)) @ [subject]) subjects
           else subjects
       | None \<Rightarrow> subjects"
  have "orEmpty (jmGet (fold ?f questions m) r) = orEmpty (jmGet m r) @
      map (\<lambda>e. the (qu_subject (snd e))) (filter (\<lambda>e. refersFor r e \<and> settledReference response uncertain e) questions)" for m
  proof (induction questions arbitrary: m)
    case (Cons e questions)
    have "orEmpty (jmGet (?f e m) r) = orEmpty (jmGet m r) @
        (if refersFor r e \<and> settledReference response uncertain e then [the (qu_subject (snd e))] else [])"
      by (cases e) (auto simp: refersFor_def settledReference_def orEmpty_def jmGet_jmSet split: option.splits)
    then show ?case using Cons.IH [of "?f e m"] by auto
  qed simp
  moreover have "orEmpty (jmGet ([] :: (string, string list) jsmap) r) = []" by (simp add: orEmpty_def jmGet_def)
  ultimately show ?thesis
    unfolding normSubjects_def orEmpty_def [symmetric] by simp
qed

lemma normSubjects_references:
  assumes "distinct (map rd_id rules)" and "distinct (questionReferences check)"
    and s: "subjects = orEmpty (jmGet (normSubjects response uncertain (allQuestions Expectations check rules)) r)"
  shows "distinct subjects" and "set subjects \<subseteq> set (questionReferences check)"
proof -
  note all = allQuestions_refers [OF assms(1), of r check]
  have d: "distinct (map (\<lambda>e. the (qu_subject (snd e))) (filter (refersFor r) (allQuestions Expectations check rules)))"
    unfolding all using assms(2) by simp
  show "distinct subjects" unfolding s normSubjects_get by (rule distinct_map_filter_weaker [OF d]) simp
  have "set subjects \<subseteq> set (map (\<lambda>e. the (qu_subject (snd e))) (filter (refersFor r) (allQuestions Expectations check rules)))"
    unfolding s normSubjects_get by auto
  then show "set subjects \<subseteq> set (questionReferences check)" unfolding all by (auto split: if_splits)
qed

lemma readNorms_answered:
  assumes "st_status t = Answered request response uncertain"
  shows "readNorms t = map (\<lambda>e. \<lparr>ne_ruleId = qu_ruleId (snd e),
       ne_expectation = the (expectationOf (map_option an_choice (jmGet (dr_answers response) (fst e)))),
       ne_subjects = orEmpty (jmGet (normSubjects response uncertain (dq_questions request)) (qu_ruleId (snd e)))\<rparr>)
     (filter (\<lambda>e. assessed e \<and> fst e \<notin> set uncertain \<and>
        expectationOf (map_option an_choice (jmGet (dr_answers response) (fst e))) \<noteq> None) (dq_questions request))"
  unfolding readNorms_def assms concat_singletons [symmetric]
  by (auto simp: Let_def assessed_def orEmpty_def intro!: arg_cong [of _ _ concat] split: option.splits)

lemma readNorms_unanswered:
  "(\<And>request response uncertain. st_status t \<noteq> Answered request response uncertain) \<Longrightarrow> readNorms t = []"
  by (simp add: readNorms_def split: stage_status.splits)

text \<open>Expectations name norms of the policy, once each, and messages the runtime has seen.\<close>

lemma readNorms_fit:
  assumes t: "t = runStage fl Expectations (makeEnglishRequest stateText Expectations check maximumBytes norms) provider settings"
    and ids: "distinct (map rd_id (ek_rules check))" and refs: "distinct (questionReferences check)"
  shows "distinct (map ne_ruleId (readNorms t)) \<and>
    (\<forall>n\<in>set (readNorms t). (\<exists>rule\<in>set (ek_rules check). ne_ruleId n = rd_id rule \<and> rd_kind rule = Norm) \<and>
       distinct (ne_subjects n) \<and> set (ne_subjects n) \<subseteq> set (questionReferences check))"
  using t
proof (cases rule: runStage_cases)
  case (answered request response)
  let ?rules = "stageRules Expectations (ek_rules check)"
  have ids': "distinct (map rd_id ?rules)" using ids by (simp add: stageRules_def distinct_map_filter)
  have qs: "dq_questions request = allQuestions Expectations check ?rules" using answered(2) by (simp add: answeredWell_def)
  note norms = readNorms_answered [OF answered(1), unfolded qs]
  have "distinct (map (\<lambda>e. qu_ruleId (snd e)) (filter assessed (allQuestions Expectations check ?rules)))"
    unfolding allQuestions_assessed by (rule ids')
  then have "distinct (map ne_ruleId (readNorms t))"
    unfolding norms map_map comp_def norm_expectation.simps by (rule distinct_map_filter_weaker) simp
  moreover have "(\<exists>rule\<in>set (ek_rules check). ne_ruleId n = rd_id rule \<and> rd_kind rule = Norm) \<and>
       distinct (ne_subjects n) \<and> set (ne_subjects n) \<subseteq> set (questionReferences check)" if "n \<in> set (readNorms t)" for n
  proof -
    from that obtain e where e: "e \<in> set (allQuestions Expectations check ?rules)" "ne_ruleId n = qu_ruleId (snd e)"
      "ne_subjects n = orEmpty (jmGet (normSubjects response (uncertainAnswers settings response)
         (allQuestions Expectations check ?rules)) (qu_ruleId (snd e)))" unfolding norms by auto
    from e(1) obtain rule where "rule \<in> set ?rules" "qu_ruleId (snd e) = rd_id rule"
      by (metis allQuestions_mem prod.collapse)
    then have "\<exists>rule\<in>set (ek_rules check). ne_ruleId n = rd_id rule \<and> rd_kind rule = Norm"
      using e(2) by (auto simp: stageRules_def)
    then show ?thesis using normSubjects_references [OF ids' refs e(3)] by blast
  qed
  ultimately show ?thesis by blast
qed (simp_all add: readNorms_def)

section \<open>Whole checks\<close>

lemma find_expectations:
  "List.find (\<lambda>entry. st_stage entry = Expectations) (checkTrace fl stateText check provider settings) =
     Some (runStage fl Expectations
       (makeEnglishRequest stateText Expectations check (en_maximumRequestBytes settings) []) provider settings)"
proof -
  have "st_stage (runStage fl stage (makeEnglishRequest stateText stage check b n) provider settings) = stage" for stage b n
    using runStage_ends [OF refl] by blast
  then show ?thesis by (simp add: checkTrace_def firstStages_def)
qed

text \<open>The stages of a check, and what its findings and expectations come from.\<close>

definition expectationsTrace ::
  "(rat \<Rightarrow> rat) \<Rightarrow> state_text \<Rightarrow> english_check \<Rightarrow> decision_provider \<Rightarrow> english_settings \<Rightarrow> stage_trace" where
  "expectationsTrace fl stateText check provider settings =
     runStage fl Expectations
       (makeEnglishRequest stateText Expectations check (en_maximumRequestBytes settings) []) provider settings"

lemma checkEnglish_result:
  assumes "check = \<lparr>ek_event = mi_event input, ek_context = mi_context input, ek_revision = revision, ek_rules = rules\<rparr>"
    and "res = fst (checkEnglish fl stateText input rules revision provider settings)"
  shows "mr_expectations res = readNorms (expectationsTrace fl stateText check provider settings)"
    and "set (mr_findings res) =
      (\<Union>stage\<in>set firstStages. set (stageFindings (runStage fl stage (makeEnglishRequest stateText stage check
         (en_maximumRequestBytes settings) []) provider settings) rules)) \<union>
      (if ev_direction (mi_event input) = Outgoing
       then set (stageFindings (evaluateConformance fl stateText check
              (expectationsTrace fl stateText check provider settings) provider settings) rules)
       else {})"
  unfolding assms checkEnglish_def Let_def find_expectations
  by (auto simp: expectationsTrace_def checkTrace_def)

lemma evaluateConformance_cases:
  assumes "t = evaluateConformance fl stateText check expectations provider settings"
  obtains (unavailable) "st_status t = DependencyUnavailable" "st_stage t = Conformance"
      "(\<exists>request failure. st_status expectations = Failed request failure) \<or> st_status expectations = DependencyUnavailable"
  | (run) "t = runStage fl Conformance (makeEnglishRequest stateText Conformance check (en_maximumRequestBytes settings)
       (readNorms expectations)) provider settings"
  using assms by (cases "st_status expectations") (simp_all add: evaluateConformance_def)

lemma conformance_fit:
  assumes t: "t = evaluateConformance fl stateText check expectations provider settings"
    and f: "f \<in> set (stageFindings t (ek_rules check))" and ids: "distinct (map rd_id (ek_rules check))"
  shows "\<exists>rule\<in>set (ek_rules check). pf_ruleId f = rd_id rule \<and> outcomeFits Outgoing (rd_kind rule) (pf_outcome f)"
  using t
proof (cases rule: evaluateConformance_cases)
  case unavailable
  then show ?thesis using f by (auto simp: stageFindings_def outcomeFits_def)
next
  case run
  then show ?thesis using stageFindings_fit [OF run f _ ids] by simp
qed

lemma checkEnglish_findings:
  assumes check: "check = \<lparr>ek_event = mi_event input, ek_context = mi_context input, ek_revision = revision, ek_rules = rules\<rparr>"
    and res: "res = fst (checkEnglish fl stateText input rules revision provider settings)"
    and ids: "distinct (map rd_id rules)" and f: "f \<in> set (mr_findings res)"
  shows "\<exists>rule\<in>set rules. pf_ruleId f = rd_id rule \<and> outcomeFits (ev_direction (mi_event input)) (rd_kind rule) (pf_outcome f)"
proof -
  have rules: "ek_rules check = rules" by (simp add: check)
  from f checkEnglish_result(2) [OF check res]
  consider stage where "stage \<in> set firstStages" "f \<in> set (stageFindings (runStage fl stage (makeEnglishRequest stateText
        stage check (en_maximumRequestBytes settings) []) provider settings) rules)"
    | "ev_direction (mi_event input) = Outgoing" "f \<in> set (stageFindings (evaluateConformance fl stateText check
        (expectationsTrace fl stateText check provider settings) provider settings) rules)"
    by (auto split: if_splits)
  then show ?thesis
  proof cases
    case (1 stage)
    then have "stage \<noteq> Conformance" by (auto simp: firstStages_def)
    then show ?thesis using stageFindings_fit [OF refl, of f, where check = check] 1(2) ids unfolding rules by blast
  next
    case 2
    then show ?thesis using conformance_fit [OF refl, of f, where check = check] ids unfolding rules by metis
  qed
qed

lemma truncate_simps [simp]:
  "rd_id (rule_description.truncate r) = rd_id r" "rd_kind (rule_description.truncate r) = rd_kind r"
  by (simp_all add: rule_description.truncate_def)

lemma ruleById_truncated:
  fixes rules :: "english_rule list"
  assumes "distinct (map rd_id rules)" and "rule \<in> set rules"
  shows "ruleById (map rule_description.truncate rules) (rd_id rule) = Some (rule_description.truncate rule)"
proof -
  have "List.find (\<lambda>r. rd_id r = rd_id rule) (map rule_description.truncate rules) = Some (rule_description.truncate rule)"
    if "distinct (map rd_id rules)" "rule \<in> set rules" for rules :: "english_rule list"
    using that by (induction rules) auto
  moreover have "distinct (map rd_id (rev rules))" using assms(1) by (simp add: rev_map [symmetric])
  ultimately show ?thesis using assms(2) by (simp add: ruleById_def rev_map)
qed

lemma questionReferences_runtime:
  "questionReferences \<lparr>ek_event = mi_event input, ek_context = mi_context input, ek_revision = revision, ek_rules = rules\<rparr> =
     runtimeSubjects input"
  by (auto simp: questionReferences_def runtimeSubjects_def conj_commute split: direction.splits)

lemma captureInput_accepts:
  assumes "captureInput event ctx = Inr captured"
  shows "captured = (event, ctx)" and "messageFits (ev_message event)" and "contextFits ctx"
    and "distinct (ms_id (ev_message event) # map (\<lambda>e. ms_id (he_message e)) (mc_history ctx) @ map fa_id (mc_facts ctx))"
proof -
  let ?refs = "ms_id (ev_message event) # map (\<lambda>e. ms_id (he_message e)) (mc_history ctx) @ map fa_id (mc_facts ctx)"
  from assms show "captured = (event, ctx)" "messageFits (ev_message event)" "contextFits ctx"
    by (auto simp: captureInput_def Let_def split: if_splits)
  from assms have "length (jsSet ?refs) = length ?refs"
    by (auto simp: captureInput_def Let_def simp del: length_jsSet_eq_iff split: if_splits)
  then show "distinct ?refs" unfolding length_jsSet_eq_iff .
qed

lemma runtimeSubjects_captured:
  assumes "captureInput (mi_event input) (mi_context input) = Inr captured"
  shows "distinct (runtimeSubjects input)" and "list_all isFirewallIdentifier (runtimeSubjects input)"
proof -
  note c = captureInput_accepts [OF assms]
  show "distinct (runtimeSubjects input)"
    using c(4) by (auto simp: runtimeSubjects_def distinct_map_filter split: direction.splits)
  have "list_all isFirewallIdentifier (map (\<lambda>e. ms_id (he_message e)) (mc_history (mi_context input)))"
    using c(3) by (auto simp: contextFits_def messageFits_def list_all_iff)
  moreover have "isFirewallIdentifier (ms_id (ev_message (mi_event input)))" using c(2) by (simp add: messageFits_def)
  ultimately show "list_all isFirewallIdentifier (runtimeSubjects input)"
    by (auto simp: runtimeSubjects_def list_all_iff split: direction.splits)
qed

lemma makeEnglishPolicy_accepts:
  assumes "makeEnglishPolicy fl stateText englishRevision i rules provider settings = Inr mw"
  shows "distinct (map rd_id rules)" and "rules \<noteq> []" and "list_all (\<lambda>r. isFirewallIdentifier (rd_id r)) rules"
    and "mw_rules mw = map rule_description.truncate rules"
    and "mw_check mw input = (Returns (Some (fst (checkEnglish fl stateText input rules (englishRevision rules settings) provider settings))),
      snd (checkEnglish fl stateText input rules (englishRevision rules settings) provider settings))"
proof -
  have "length (jsSet (map rd_id rules)) = length (map rd_id rules)" and r: "rules \<noteq> []" "list_all englishRuleFits rules"
    and mw: "mw_rules mw = map rule_description.truncate rules"
      "mw_check mw = (\<lambda>input. let (result, elapsed) = checkEnglish fl stateText input rules (englishRevision rules settings) provider settings
        in (Returns (Some result), elapsed))"
    using assms by (auto simp: makeEnglishPolicy_def Let_def simp del: length_jsSet_eq_iff split: if_splits)
  then show "distinct (map rd_id rules)" unfolding length_jsSet_eq_iff by simp
  show "rules \<noteq> []" "mw_rules mw = map rule_description.truncate rules" by (fact r(1), fact mw(1))
  show "list_all (\<lambda>r. isFirewallIdentifier (rd_id r)) rules"
    using r(2) by (auto simp: list_all_iff englishRuleFits_def ruleFits_def)
  show "mw_check mw input = (Returns (Some (fst (checkEnglish fl stateText input rules (englishRevision rules settings) provider settings))),
      snd (checkEnglish fl stateText input rules (englishRevision rules settings) provider settings))"
    by (simp add: mw(2) case_prod_unfold Let_def)
qed

text \<open>The result of an English check always passes validation.\<close>

lemma checkEnglish_valid:
  assumes check: "check = \<lparr>ek_event = mi_event input, ek_context = mi_context input, ek_revision = revision, ek_rules = rules\<rparr>"
    and res: "res = fst (checkEnglish fl stateText input rules revision provider settings)"
    and ids: "distinct (map rd_id rules)" and fits: "list_all (\<lambda>r. isFirewallIdentifier (rd_id r)) rules"
    and captured: "captureInput (mi_event input) (mi_context input) = Inr captured"
    and mw: "mw_rules mw = map rule_description.truncate rules"
  shows "resultFits res \<and> validResult res mw input"
proof -
  have rules: "ek_rules check = rules" and refs: "questionReferences check = runtimeSubjects input"
    by (simp_all add: check questionReferences_runtime)
  note subjects = runtimeSubjects_captured [OF captured]
  have norms: "distinct (map ne_ruleId (mr_expectations res)) \<and>
    (\<forall>n\<in>set (mr_expectations res). (\<exists>rule\<in>set rules. ne_ruleId n = rd_id rule \<and> rd_kind rule = Norm) \<and>
       distinct (ne_subjects n) \<and> set (ne_subjects n) \<subseteq> set (runtimeSubjects input))"
    using readNorms_fit [of "expectationsTrace fl stateText check provider settings", OF expectationsTrace_def] ids subjects(1)
    unfolding checkEnglish_result(1) [OF check res] rules refs by blast
  have "length (jsSet (map ne_ruleId (mr_expectations res))) = length (mr_expectations res)"
    using norms length_jsSet_eq_iff [of "map ne_ruleId (mr_expectations res)"] by simp
  moreover have "list_all (\<lambda>rule. rd_id rule \<in> set (map pf_ruleId (mr_findings res))) (mw_rules mw)"
  proof -
    have "rd_id rule \<in> pf_ruleId ` set (mr_findings res)" if "rule \<in> set rules" for rule
      using applicability_covers [of rule check fl stateText "en_maximumRequestBytes settings" "[]" provider settings] that
      unfolding rules checkEnglish_result(2) [OF check res] by (auto simp: firstStages_def)
    then show ?thesis by (auto simp: mw list_all_iff)
  qed
  moreover have "findingFits f \<and> validFinding f (mi_event input) (ruleById (mw_rules mw) (pf_ruleId f))"
    if f: "f \<in> set (mr_findings res)" for f
  proof -
    from checkEnglish_findings [OF check res ids f] obtain rule where rule: "rule \<in> set rules" "pf_ruleId f = rd_id rule"
      and o: "outcomeFits (ev_direction (mi_event input)) (rd_kind rule) (pf_outcome f)" by blast
    show ?thesis
      using o fits rule ruleById_truncated [OF ids rule(1)]
      by (cases "pf_outcome f") (auto simp: outcomeFits_def findingFits_def validFinding_def mw isProbability_def list_all_iff)
  qed
  moreover have "map_option rd_kind (ruleById (mw_rules mw) (ne_ruleId n)) = Some Norm \<and> isFirewallIdentifier (ne_ruleId n) \<and>
      length (jsSet (ne_subjects n)) = length (ne_subjects n) \<and> list_all (\<lambda>s. s \<in> set (runtimeSubjects input)) (ne_subjects n) \<and>
      list_all isFirewallIdentifier (ne_subjects n)" if n: "n \<in> set (mr_expectations res)" for n
  proof -
    from norms n obtain rule where rule: "rule \<in> set rules" "ne_ruleId n = rd_id rule" "rd_kind rule = Norm"
      and s: "distinct (ne_subjects n)" "set (ne_subjects n) \<subseteq> set (runtimeSubjects input)" by blast
    show ?thesis
      using fits rule s subjects(2) ruleById_truncated [OF ids rule(1)] by (auto simp: mw list_all_iff)
  qed
  ultimately show ?thesis unfolding resultFits_def validResult_def list_all_iff by blast
qed

section \<open>Drafts\<close>

text \<open>Without a draft in sight, two checks that agree on the evidence ask the same about expectations.\<close>

lemma expectations_request_draft:
  assumes "ev_direction (ek_event check) = Outgoing" "ev_direction (ek_event check') = Outgoing"
    and "ms_recipients (ev_message (ek_event check)) = ms_recipients (ev_message (ek_event check'))"
    and "ek_context check' = (ek_context check)\<lparr>mc_authorization := a\<rparr>"
    and "ek_revision check' = ek_revision check" and "ek_rules check' = ek_rules check"
  shows "makeEnglishRequest stateText Expectations check' b norms = makeEnglishRequest stateText Expectations check b norms"
proof -
  have "policyState Expectations check' norms = policyState Expectations check norms"
    using assms by (simp add: policyState_def)
  moreover have "questionReferences check' = questionReferences check"
    using assms by (simp add: questionReferences_def)
  then have "allQuestions Expectations check' rules = allQuestions Expectations check rules" for rules
    by (simp add: allQuestions_def ruleQuestions_def subjectQuestions_def)
  ultimately show ?thesis
    using assms(6) by (simp add: makeEnglishRequest_def collectQuestions_def Let_def)
qed

section \<open>Bytes\<close>

lemma entryBytes_length:
  "entryBytes (k, q) = int (length (jsonString k) + length (stringify (questionJson q))) + 3"
  unfolding entryBytes_def fst_conv snd_conv length_stringify_obj by simp

lemma length_stringify_three:
  "length (stringify (JObj [(a, x), (b, y), (c, z)])) = 7 + length (jsonString a) + length (stringify x) +
     length (jsonString b) + length (stringify y) + length (jsonString c) + length (stringify z)"
  unfolding length_stringify_obj by (simp del: stringify.simps)

lemma length_questions:
  "length (stringify (requestJson \<lparr>dq_stage = stage, dq_state = state, dq_questions = qs\<rparr>)) + 2 =
     length (stringify (requestJson \<lparr>dq_stage = stage, dq_state = state, dq_questions = []\<rparr>)) +
     length (stringify (JObj (map (\<lambda>(k, q). (k, questionJson q)) qs)))"
proof -
  have "length (stringify (JObj [])) = 2" by simp
  then show ?thesis
    unfolding requestJson_def length_stringify_three decision_request.simps list.map by (simp del: stringify.simps)
qed

lemma requestBytes:
  assumes "qs \<noteq> []"
  shows "int (length (stringify (requestJson \<lparr>dq_stage = stage, dq_state = state, dq_questions = qs\<rparr>))) =
    int (length (stringify (requestJson \<lparr>dq_stage = stage, dq_state = state, dq_questions = []\<rparr>))) +
    sum_list (map (\<lambda>e. entryBytes e - 2 + 1) qs) - 1"
proof -
  have e: "sum_list (map (\<lambda>e. entryBytes e - 2 + 1) qs) = sum_list (map (\<lambda>(k, q). int (length (jsonString k) + 1 +
      length (stringify (questionJson q)))) qs) + int (length qs)" for qs
    by (induction qs) (auto simp: entryBytes_length)
  have s: "int (sum_list (map (\<lambda>(k, q). length (jsonString k) + 1 + length (stringify (questionJson q))) qs)) =
      sum_list (map (\<lambda>(k, q). int (length (jsonString k) + 1 + length (stringify (questionJson q)))) qs)" for qs
    by (induction qs) auto
  have o: "int (length (stringify (JObj (map (\<lambda>(k, q). (k, questionJson q)) qs)))) =
      2 + (sum_list (map (\<lambda>e. entryBytes e - 2 + 1) qs) - 1)"
    unfolding length_stringify_obj e s [symmetric] using assms by (cases qs) (simp_all add: comp_def case_prod_unfold)
  show ?thesis using o length_questions [of stage state qs] by linarith
qed

section \<open>Holds\<close>

lemma answerOutcome_no_hold: "answerOutcome choice \<noteq> Hold h"
  by (simp add: answerOutcome_def)

lemma runStage_holds_no_norm:
  assumes t: "t = runStage fl stage (makeEnglishRequest stateText stage check maximumBytes norms) provider settings"
    and f: "f \<in> set (stageFindings t rules)" "pf_outcome f = Hold UnresolvedEvidence"
  shows "pf_ruleId f \<notin> set (map rd_id (filter (\<lambda>rule. rd_kind rule = Norm) rules))"
  using t
proof (cases rule: runStage_cases)
  case failed
  then show ?thesis using f by (auto simp: stageFindings_def)
next
  case empty
  then show ?thesis using f by (simp add: stageFindings_def)
next
  case (answered request response)
  from f(1) obtain k q where fq: "f = questionFinding q (qu_ruleId q \<in> set (map rd_id (filter (\<lambda>rule. rd_kind rule = Norm) rules)))
       (k \<in> set (uncertainAnswers settings response)) (jmGet (dr_answers response) k)"
    by (auto simp: stageFindings_def answered(1) Let_def)
  have "pf_ruleId f = qu_ruleId q" unfolding fq by (simp add: questionFinding_def Let_def split: option.splits)
  then show ?thesis
    using f(2) unfolding fq
    by (auto simp: questionFinding_def Let_def answerOutcome_no_hold split: option.splits if_splits)
qed

lemma checkEnglish_norm_held:
  assumes check: "check = \<lparr>ek_event = mi_event input, ek_context = mi_context input, ek_revision = revision, ek_rules = rules\<rparr>"
    and res: "res = fst (checkEnglish fl stateText input rules revision provider settings)"
    and f: "f \<in> set (mr_findings res)" "pf_outcome f = Hold UnresolvedEvidence"
    and norm: "rule \<in> set rules" "pf_ruleId f = rd_id rule" "rd_kind rule = Norm"
  shows "\<lparr>pf_ruleId = pf_ruleId f, pf_outcome = Hold CheckUnavailable\<rparr> \<in> set (mr_findings res)"
proof -
  let ?e = "expectationsTrace fl stateText check provider settings"
  let ?c = "evaluateConformance fl stateText check ?e provider settings"
  have isnorm: "pf_ruleId f \<in> set (map rd_id (filter (\<lambda>rule. rd_kind rule = Norm) rules))" using norm by auto
  then have no_run: "f \<notin> set (stageFindings (runStage fl stage (makeEnglishRequest stateText stage check b n) provider settings) rules)"
    for stage b n using runStage_holds_no_norm [OF refl _ f(2)] by blast
  with f(1) have c: "f \<in> set (stageFindings ?c rules)"
    unfolding checkEnglish_result(2) [OF check res] by (auto split: if_splits)
  have "?c = ?c" ..
  then show ?thesis
  proof (cases rule: evaluateConformance_cases)
    case unavailable
    have "st_status ?e \<noteq> DependencyUnavailable" "st_stage ?e = Expectations"
      using runStage_ends [OF expectationsTrace_def [of fl stateText check provider settings]] by auto
    with unavailable(3) have "\<lparr>pf_ruleId = pf_ruleId f, pf_outcome = Hold CheckUnavailable\<rparr> \<in> set (stageFindings ?e rules)"
      using norm by (auto simp: stageFindings_def stageIncludes_def image_iff)
    then show ?thesis
      unfolding checkEnglish_result(2) [OF check res] expectationsTrace_def by (simp add: firstStages_def)
  next
    case run
    then show ?thesis using c no_run by metis
  qed
qed

section \<open>A sample policy\<close>

definition sampleEnglishRule :: english_rule where
  "sampleEnglishRule = \<lparr>rd_id = ''r'', rd_kind = Norm, rd_source = None, rd_guidance = None, rd_feedback = None,
     er_text = ''be brief''\<rparr>"

definition sampleEnglishSettings :: "int \<Rightarrow> english_settings" where
  "sampleEnglishSettings b = \<lparr>en_minimumProbability = 1 / 2, en_maximumRequestBytes = b, en_timeoutMilliseconds = 100\<rparr>"

text \<open>A provider that is certain of the first choice of every question.\<close>

definition sampleProvider :: decision_provider where
  "sampleProvider request = (Responds (Some \<lparr>dr_provider = ''p'', dr_model = ''m'',
     dr_answers = map (\<lambda>(k, q). (k, \<lparr>an_choice = fst (hd (qu_criteria q)),
       an_probabilities = map (\<lambda>(c, _). (c, if c = fst (hd (qu_criteria q)) then 1 else 0)) (qu_criteria q),
       an_confidence = None\<rparr>)) (dq_questions request), dr_usage = [], dr_raw = []\<rparr>), 5)"

definition sampleEnglish :: "int \<Rightarrow> middleware" where
  "sampleEnglish b = \<lparr>mw_id = ''e'', mw_revision = ''1'', mw_rules = [rule_description.truncate sampleEnglishRule],
     mw_check = (\<lambda>input. let (result, elapsed) = checkEnglish id (\<lambda>_. ''s'') input [sampleEnglishRule] ''1'' sampleProvider
       (sampleEnglishSettings b) in (Returns (Some result), elapsed))\<rparr>"

lemma sample_english:
  "0 < b \<Longrightarrow> makeEnglishPolicy id (\<lambda>_. ''s'') (\<lambda>_ _. ''1'') ''e'' [sampleEnglishRule] sampleProvider (sampleEnglishSettings b) =
     Inr (sampleEnglish b)"
  by (simp add: makeEnglishPolicy_def englishSettingsFit_def sampleEnglishSettings_def englishRuleFits_def ruleFits_def
      sampleEnglishRule_def rule_description.truncate_def firewall_identifiers jsSet_def sampleEnglish_def Let_def)

text \<open>With a budget of one byte no question is asked, and every stage that has a rule fails.\<close>

lemma sample_no_budget:
  assumes "ek_rules check = [sampleEnglishRule]"
  shows "makeEnglishRequest (\<lambda>_. ''s'') stage check 1 norms = (if stage = Applicability \<or> stageKind stage = Norm then None
    else Some \<lparr>dq_stage = stage, dq_state = ''s'', dq_questions = []\<rparr>)"
proof -
  have "stageRules stage [sampleEnglishRule] = (if stage = Applicability \<or> stageKind stage = Norm then [sampleEnglishRule] else [])"
    by (auto simp: stageRules_def sampleEnglishRule_def)
  moreover have "7 \<le> length (stringify (requestJson \<lparr>dq_stage = stage, dq_state = ''s'', dq_questions = []\<rparr>))"
    unfolding requestJson_def length_stringify_three by simp
  ultimately show ?thesis
    by (auto simp: makeEnglishRequest_def assms collectQuestions_def Let_def allQuestions_def freezeQuestions_def)
qed

section \<open>Properties\<close>

text \<open>
  C19: An English policy never returns an invalid result. Whatever the provider answers, fails
  with or exceeds, and for every message whose input the chain captured, an invocation either
  exceeds a byte budget or yields a result that passes the validation of the chain: every rule
  has a finding, every outcome is one its rule's kind and the direction permit, every
  expectation names a norm once and only messages the runtime has seen.
\<close>

theorem english_results_validate:
  assumes "makeEnglishPolicy fl stateText englishRevision i rules provider settings = Inr mw"
    and "captureInput event ctx = Inr captured"
  shows "fst (invokeMiddleware sizes mw \<lparr>mi_event = event, mi_context = ctx, mi_previous = previous\<rparr> bounds) \<in>
    {Inl Budget, Inr (fst (checkEnglish fl stateText \<lparr>mi_event = event, mi_context = ctx, mi_previous = previous\<rparr> rules
       (englishRevision rules settings) provider settings))}"
proof -
  note a = makeEnglishPolicy_accepts [OF assms(1)]
  have "captureInput (mi_event \<lparr>mi_event = event, mi_context = ctx, mi_previous = previous\<rparr>)
    (mi_context \<lparr>mi_event = event, mi_context = ctx, mi_previous = previous\<rparr>) = Inr captured" using assms(2) by simp
  from checkEnglish_valid [OF refl refl a(1,3) this a(4)] show ?thesis by (simp add: invokeMiddleware_def a(5))
qed

theorem english_results_validate_witness:
  "\<exists>captured. makeEnglishPolicy id (\<lambda>_. ''s'') (\<lambda>_ _. ''1'') ''e'' [sampleEnglishRule] sampleProvider (sampleEnglishSettings 10000) =
       Inr (sampleEnglish 10000) \<and>
     captureInput \<lparr>ev_direction = Outgoing, ev_message = sampleDraft\<rparr> (sampleContext ''a'') = Inr captured \<and>
     fst (invokeMiddleware sampleSizes (sampleEnglish 10000) \<lparr>mi_event = \<lparr>ev_direction = Outgoing, ev_message = sampleDraft\<rparr>,
       mi_context = sampleContext ''a'', mi_previous = []\<rparr> sampleSettings) \<noteq> Inl InvalidResult"
  using english_results_validate [OF sample_english [of 10000] sample_input, of sampleSizes "[]" sampleSettings]
    sample_english [of 10000] sample_input by auto

text \<open>
  C20: A draft cannot grant itself permission to speak. The expectations an English policy
  settles for a message about to be sent do not depend on the draft beyond its recipients, nor
  on a claimed approval, nor on what earlier entries of the chain reported.
\<close>

theorem expectations_ignore_draft:
  "mr_expectations (fst (checkEnglish fl stateText
       \<lparr>mi_event = \<lparr>ev_direction = Outgoing, ev_message = m\<lparr>ms_id := i, ms_sender := sender, ms_text := words, ms_operation := opn\<rparr>\<rparr>,
        mi_context = ctx\<lparr>mc_authorization := claim\<rparr>, mi_previous = previous'\<rparr> rules revision provider settings)) =
   mr_expectations (fst (checkEnglish fl stateText
       \<lparr>mi_event = \<lparr>ev_direction = Outgoing, ev_message = m\<rparr>, mi_context = ctx, mi_previous = previous\<rparr>
       rules revision provider settings))"
proof -
  let ?in' = "\<lparr>mi_event = \<lparr>ev_direction = Outgoing, ev_message = m\<lparr>ms_id := i, ms_sender := sender, ms_text := words, ms_operation := opn\<rparr>\<rparr>,
        mi_context = ctx\<lparr>mc_authorization := claim\<rparr>, mi_previous = previous'\<rparr>"
  let ?in = "\<lparr>mi_event = \<lparr>ev_direction = Outgoing, ev_message = m\<rparr>, mi_context = ctx, mi_previous = previous\<rparr>"
  let ?c' = "\<lparr>ek_event = mi_event ?in', ek_context = mi_context ?in', ek_revision = revision, ek_rules = rules\<rparr>"
  let ?c = "\<lparr>ek_event = mi_event ?in, ek_context = mi_context ?in, ek_revision = revision, ek_rules = rules\<rparr>"
  have "expectationsTrace fl stateText ?c' provider settings = expectationsTrace fl stateText ?c provider settings"
    unfolding expectationsTrace_def
    by (subst expectations_request_draft [of ?c ?c' claim]) simp_all
  then show ?thesis
    using checkEnglish_result(1) [OF refl refl, of fl stateText ?in' rules revision provider settings]
      checkEnglish_result(1) [OF refl refl, of fl stateText ?in rules revision provider settings] by metis
qed

text \<open>
  A request that asks anything fits its budget: the JSON text the provider receives, with
  all of its questions, is at most the configured number of bytes, and no question of a stage
  is dropped to make it fit.
\<close>

theorem english_request_within_budget:
  assumes "makeEnglishRequest stateText stage check maximumBytes norms = Some request"
    and "dq_questions request \<noteq> []"
  shows "int (length (stringify (requestJson request))) \<le> maximumBytes \<and>
    dq_questions request = allQuestions stage check (stageRules stage (ek_rules check))"
proof -
  let ?state = "stateText (policyState stage check norms)" and ?rules = "stageRules stage (ek_rules check)"
  let ?qs = "allQuestions stage check ?rules"
  note r = makeEnglishRequest_Some [OF assms(1)]
  have request: "request = \<lparr>dq_stage = stage, dq_state = ?state, dq_questions = ?qs\<rparr>" using r by (cases request) simp
  have qs: "?qs \<noteq> []" using assms(2) r(3) by simp
  obtain entries where "collectLoop [] (maximumBytes -
      int (length (stringify (requestJson \<lparr>dq_stage = stage, dq_state = ?state, dq_questions = []\<rparr>)))) ?qs = Some entries"
    using assms(1) by (auto simp: makeEnglishRequest_def collectQuestions_def Let_def split: option.splits if_splits)
  from collectLoop_bytes [OF this qs] requestBytes [OF qs, of stage ?state] r(3) show ?thesis
    unfolding request by simp
qed

theorem english_request_within_budget_witness:
  "\<exists>maximumBytes request check. makeEnglishRequest (\<lambda>_. ''s'') Conformance check maximumBytes [] = Some request \<and>
     dq_questions request \<noteq> [] \<and> int (length (stringify (requestJson request))) \<le> maximumBytes"
proof -
  let ?check = "\<lparr>ek_event = \<lparr>ev_direction = Outgoing, ev_message = sampleDraft\<rparr>, ek_context = sampleContext ''a'',
    ek_revision = ''1'', ek_rules = [sampleEnglishRule]\<rparr>"
  let ?q = "(''q'' @ natText 0, primaryQuestion Conformance ''r'')"
  let ?b = "int (length (stringify (requestJson \<lparr>dq_stage = Conformance, dq_state = ''s'', dq_questions = []\<rparr>))) + entryBytes ?q"
  have rules: "stageRules Conformance [sampleEnglishRule] = [sampleEnglishRule]"
    by (simp add: stageRules_def sampleEnglishRule_def)
  have qs: "allQuestions Conformance ?check [sampleEnglishRule] = [?q]"
    by (simp add: allQuestions_def ruleQuestions_def sampleEnglishRule_def)
  have "0 \<le> entryBytes ?q" by (simp add: entryBytes_def)
  then have "\<exists>request. makeEnglishRequest (\<lambda>_. ''s'') Conformance ?check ?b [] = Some request"
    unfolding makeEnglishRequest_def collectQuestions_def Let_def english_check.simps rules qs
    by (simp del: stringify.simps)
  then obtain request where r: "makeEnglishRequest (\<lambda>_. ''s'') Conformance ?check ?b [] = Some request" by blast
  have "dq_questions request \<noteq> []" using makeEnglishRequest_Some(3) [OF r] unfolding english_check.simps rules qs by simp
  with r english_request_within_budget [OF r this] show ?thesis by blast
qed

text \<open>
  Uncertainty about a norm never holds a message by itself. An English policy holds a norm
  for missing evidence only in a check that also reports an unavailable check, so the norms
  the provider left unsettled advise the agent and do not stop it.
\<close>

theorem uncertain_norms_never_hold:
  assumes "makeEnglishPolicy fl stateText englishRevision i rules provider settings = Inr mw"
    and "mw_check mw input = (Returns (Some res), elapsed)" and "f \<in> set (mr_findings res)"
    and "pf_outcome f = Hold UnresolvedEvidence"
    and "map_option rd_kind (ruleById (mw_rules mw) (pf_ruleId f)) = Some Norm"
  shows "list_ex (\<lambda>f'. pf_ruleId f' = pf_ruleId f \<and> pf_outcome f' = Hold CheckUnavailable) (mr_findings res)"
proof -
  note a = makeEnglishPolicy_accepts [OF assms(1)]
  have res: "res = fst (checkEnglish fl stateText input rules (englishRevision rules settings) provider settings)"
    using assms(2) a(5) by simp
  from checkEnglish_findings [OF refl res a(1) assms(3)] obtain rule where rule: "rule \<in> set rules" "pf_ruleId f = rd_id rule"
    by blast
  moreover have "rd_kind rule = Norm" using assms(5) ruleById_truncated [OF a(1) rule(1)] by (simp add: a(4) rule(2))
  ultimately have "\<lparr>pf_ruleId = pf_ruleId f, pf_outcome = Hold CheckUnavailable\<rparr> \<in> set (mr_findings res)"
    using checkEnglish_norm_held [OF refl res assms(3,4) rule] by simp
  then show ?thesis unfolding list_ex_iff by (rule rev_bexI) simp
qed

theorem uncertain_norms_never_hold_witness:
  "\<exists>input res elapsed f. mw_check (sampleEnglish 1) input = (Returns (Some res), elapsed) \<and> f \<in> set (mr_findings res) \<and>
     pf_outcome f = Hold UnresolvedEvidence \<and>
     list_ex (\<lambda>f'. pf_ruleId f' = pf_ruleId f \<and> pf_outcome f' = Hold CheckUnavailable) (mr_findings res)"
proof -
  let ?in = "\<lparr>mi_event = \<lparr>ev_direction = Outgoing, ev_message = sampleDraft\<rparr>, mi_context = sampleContext ''a'', mi_previous = []\<rparr>"
  let ?res = "fst (checkEnglish id (\<lambda>_. ''s'') ?in [sampleEnglishRule] ''1'' sampleProvider (sampleEnglishSettings 1))"
  let ?f = "\<lparr>pf_ruleId = ''r'', pf_outcome = Hold UnresolvedEvidence\<rparr>"
  have policy: "makeEnglishPolicy id (\<lambda>_. ''s'') (\<lambda>_ _. ''1'') ''e'' [sampleEnglishRule] sampleProvider (sampleEnglishSettings 1) =
      Inr (sampleEnglish 1)" by (rule sample_english) simp
  note run = makeEnglishPolicy_accepts(5) [OF policy, of ?in]
  have held: "?f \<in> set (mr_findings ?res)"
    unfolding checkEnglish_result(2) [OF refl refl]
    by (simp add: expectationsTrace_def evaluateConformance_def sampleEnglishSettings_def sample_no_budget runStage_def stageFindings_def
        stageIncludes_def sampleEnglishRule_def)
  have kind: "map_option rd_kind (ruleById (mw_rules (sampleEnglish 1)) (pf_ruleId ?f)) = Some Norm"
    by (simp add: sampleEnglish_def ruleById_def sampleEnglishRule_def rule_description.truncate_def)
  have "pf_outcome ?f = Hold UnresolvedEvidence" by simp
  note conclusion = uncertain_norms_never_hold [OF policy run held this kind]
  show ?thesis by (intro exI conjI) (rule run, rule held, simp, rule conclusion)
qed

end
