(* ===== verification/Firewall_Rules_Facts.thy ===== *)
theory Firewall_Rules_Facts
  imports Firewall_Rules Firewall_English_Facts
begin

text \<open>
  What the built-in rules enforce inside any firewall that installs them, whatever else it
  installs and whatever the decision provider does.
\<close>

section \<open>An entry that refuses\<close>

lemma runMiddleware_returned:
  assumes "mo_status (fst (runMiddleware sizes mw input settings deadline now)) = Completed"
  shows "\<exists>res e. mw_check mw input = (Returns (Some res), e) \<and>
    mo_findings (fst (runMiddleware sizes mw input settings deadline now)) = mr_findings res"
  using assms
  by (auto simp: runMiddleware_def unavailableEntry_def invokeMiddleware_def Let_def
      split: prod.splits sum.splits if_splits check_reply.splits option.splits)

text \<open>An entry whose every answer restricts an event keeps every chain it is part of from admitting it.\<close>

definition restricts :: "middleware \<Rightarrow> message_event \<Rightarrow> message_context \<Rightarrow> bool" where
  "restricts mw event ctx \<longleftrightarrow> (\<forall>previous res e.
     mw_check mw \<lparr>mi_event = event, mi_context = ctx, mi_previous = previous\<rparr> = (Returns (Some res), e) \<longrightarrow>
     (\<exists>f\<in>set (mr_findings res). \<not> unrestricted event ctx f))"

lemma chain_refuses:
  assumes "checkMessage sizes event ctx entries settings now = Inr result"
    and "mw \<in> set entries" and "restricts mw event ctx"
  shows "fc_judgment result \<noteq> JAllow"
proof
  assume allow: "fc_judgment result = JAllow"
  let ?d = "now + fs_timeoutMilliseconds settings"
  from assms(1) obtain checks where checks: "checks = checkLoop sizes event ctx settings ?d [] entries now"
    and result: "result = composeDecision event ctx entries checks" by (rule checkMessage_accepts)
  have eligible: "selectReason event ctx checks = Eligible" using allow by (simp add: result judgmentOf_allow)
  have "list_all2 (\<lambda>mw c. \<exists>previous now'. c = fst (runMiddleware sizes mw
       \<lparr>mi_event = event, mi_context = ctx, mi_previous = previous\<rparr> settings ?d now')) entries checks"
    using checkLoop_append [of sizes event ctx settings ?d "[]" entries now] checks by auto
  then have "\<exists>c\<in>set checks. \<exists>previous now'. c = fst (runMiddleware sizes mw
       \<lparr>mi_event = event, mi_context = ctx, mi_previous = previous\<rparr> settings ?d now')"
    using assms(2) by (induction rule: list_all2_induct) auto
  then obtain c previous now' where c: "c \<in> set checks" and run: "c = fst (runMiddleware sizes mw
       \<lparr>mi_event = event, mi_context = ctx, mi_previous = previous\<rparr> settings ?d now')" by blast
  from selectReason_eligible(2) [OF eligible c] obtain res e where
    "mw_check mw \<lparr>mi_event = event, mi_context = ctx, mi_previous = previous\<rparr> = (Returns (Some res), e)"
    "mo_findings c = mr_findings res" using runMiddleware_returned unfolding run by blast
  with assms(3) obtain f where "f \<in> set (mo_findings c)" "\<not> unrestricted event ctx f"
    unfolding restricts_def by metis
  with selectReason_eligible(3) [OF eligible c] show False by blast
qed

lemma makeFirewall_checks:
  assumes "makeFirewall sizes incoming outgoing settings = Inr fw"
  shows "checkOutgoing fw m ctx now = Inr result \<Longrightarrow>
      checkMessage sizes \<lparr>ev_direction = Outgoing, ev_message = m\<rparr> ctx outgoing settings now = Inr result"
    and "checkIncoming fw m ctx now = Inr result \<Longrightarrow>
      checkMessage sizes \<lparr>ev_direction = Incoming, ev_message = m\<rparr> ctx incoming settings now = Inr result"
proof -
  from assms obtain inChain outChain where c: "makeChain sizes incoming settings = Inr inChain"
      "makeChain sizes outgoing settings = Inr outChain"
    and f: "checkOutgoing fw = (\<lambda>m ctx now. outChain \<lparr>ev_direction = Outgoing, ev_message = m\<rparr> ctx now)"
      "checkIncoming fw = (\<lambda>m ctx now. bindE (inChain \<lparr>ev_direction = Incoming, ev_message = m\<rparr> ctx now) (\<lambda>result.
         if fc_judgment result = JRevise then Inl MessageError else Inr result))"
    by (auto simp: makeFirewall_def bindE_Inr_iff split: if_splits)
  note chains = c [THEN captured_chain]
  show "checkOutgoing fw m ctx now = Inr result \<Longrightarrow>
      checkMessage sizes \<lparr>ev_direction = Outgoing, ev_message = m\<rparr> ctx outgoing settings now = Inr result"
    by (simp add: f chains)
  show "checkIncoming fw m ctx now = Inr result \<Longrightarrow>
      checkMessage sizes \<lparr>ev_direction = Incoming, ev_message = m\<rparr> ctx incoming settings now = Inr result"
    by (auto simp: f chains bindE_Inr_iff split: if_splits)
qed

section \<open>Allowed senders\<close>

lemma allowedSenders_restricts:
  "ms_sender m \<notin> set agentIds \<Longrightarrow>
   restricts (allowedSendersPolicy sendersRevision agentIds) \<lparr>ev_direction = Incoming, ev_message = m\<rparr> ctx"
  by (auto simp: restricts_def allowedSendersPolicy_def allowedOutcome_def unrestricted_def)

section \<open>Collective norms\<close>

lemma collectiveNorms_accepts:
  assumes "collectiveNorms fl stateText englishRevision normsRevision wordsOf provider settings records = Inr norms"
  obtains english where
    "makeEnglishPolicy fl stateText englishRevision COLLECTIVE_NORMS_ID OUTGOING_ENGLISH_RULES provider settings = Inr english"
    "mw_rules (cn_outgoing norms facilitator) = map cr_description (CODE_RULES wordsOf) @ mw_rules english"
    "mw_check (cn_outgoing norms facilitator) = (\<lambda>input. normsCheckOutgoing wordsOf input english facilitator)"
  using assms by (auto simp: collectiveNorms_def bindE_Inr_iff Let_def)

lemma codeFindings_second:
  assumes "ms_operation (ev_message (mi_event input)) = Some (OpRequest opr i deadlineAt)" and "hasOpenRequest (mi_context input)"
  shows "\<lparr>pf_ruleId = ''one-open-request'', pf_outcome = NeedsRevision\<rparr> \<in> set (codeFindings wordsOf input facilitator)"
  using assms by (simp add: codeFindings_def CODE_RULES_def revisionOutcome_def)

lemma codeFindings_facilitator:
  assumes "ms_operation (ev_message (mi_event input)) = Some (OpRequest opr i deadlineAt)"
    and "\<not> facilitator" and "1 < length (ms_recipients (ev_message (mi_event input)))"
  shows "\<lparr>pf_ruleId = ''facilitator-starts-collectives'', pf_outcome = NeedsRevision\<rparr>
    \<in> set (codeFindings wordsOf input facilitator)"
  using assms by (simp add: codeFindings_def CODE_RULES_def revisionOutcome_def)

lemma normsCheckOutgoing_refusal:
  assumes "f \<in> set (codeFindings wordsOf input facilitator)" and "pf_outcome f = NeedsRevision"
    and "normsCheckOutgoing wordsOf input english facilitator = (Returns (Some res), e)"
  shows "f \<in> set (mr_findings res)"
  using assms by (auto simp: normsCheckOutgoing_def Let_def list_ex_iff split: if_splits)

text \<open>
  A request of the conversation is open while no message of the shown history settles it - a result, a failure, or the
  answer of a gather - and its deadline lies ahead of the context's clock, when it has one.
\<close>

definition settles :: "string \<Rightarrow> history_entry \<Rightarrow> bool" where
  "settles i entry \<longleftrightarrow> (case ms_operation (he_message entry) of
     Some (OpResult _ j) \<Rightarrow> j = i | Some (OpFailure j) \<Rightarrow> j = i | Some (OpAnswer Gather j) \<Rightarrow> j = i | _ \<Rightarrow> False)"

definition unsettledRequest :: "message_context \<Rightarrow> history_entry \<Rightarrow> bool" where
  "unsettledRequest ctx entry \<longleftrightarrow> ms_sender (he_message entry) = mc_agentId ctx \<and>
     (case ms_operation (he_message entry) of
        Some (OpRequest _ i due) \<Rightarrow> \<not> list_ex (settles i) (mc_history ctx) \<and>
          (case mc_now ctx of None \<Rightarrow> True | Some t \<Rightarrow> t < due)
      | _ \<Rightarrow> False)"

lemma closedRequest_settles: "i \<in> set (closedRequest (ms_operation (he_message entry))) \<longleftrightarrow> settles i entry"
  by (cases "ms_operation (he_message entry)" rule: closedRequest.cases) (auto simp: settles_def split: collecting_op.splits)

lemma hasOpenRequest_unsettled: "hasOpenRequest ctx \<longleftrightarrow> list_ex (unsettledRequest ctx) (mc_history ctx)"
proof -
  let ?closed = "concat (map (\<lambda>entry. closedRequest (ms_operation (he_message entry))) (mc_history ctx))"
  have settled: "i \<in> set ?closed \<longleftrightarrow> list_ex (settles i) (mc_history ctx)" for i
    by (simp add: closedRequest_settles list_ex_iff)
  have "ms_sender (he_message entry) = mc_agentId ctx \<and> isOpenRequest (ms_operation (he_message entry)) ?closed (mc_now ctx) \<longleftrightarrow>
      unsettledRequest ctx entry" for entry
    by (auto simp: unsettledRequest_def settled [symmetric] simp del: set_concat split: option.splits message_operation.splits)
  then show ?thesis by (simp only: hasOpenRequest_def Let_def)
qed

lemma collectiveNorms_restrict:
  assumes "collectiveNorms fl stateText englishRevision normsRevision wordsOf provider settings records = Inr norms"
    and opn: "ms_operation m = Some (OpRequest opr i deadlineAt)"
    and bad: "hasOpenRequest ctx \<or> \<not> facilitator \<and> 1 < length (ms_recipients m)"
  shows "restricts (cn_outgoing norms facilitator) \<lparr>ev_direction = Outgoing, ev_message = m\<rparr> ctx"
proof -
  from assms(1) obtain english where check:
    "mw_check (cn_outgoing norms facilitator) = (\<lambda>input. normsCheckOutgoing wordsOf input english facilitator)"
    by (rule collectiveNorms_accepts)
  let ?in = "\<lambda>p. \<lparr>mi_event = \<lparr>ev_direction = Outgoing, ev_message = m\<rparr>, mi_context = ctx, mi_previous = p\<rparr>"
  have "\<exists>f\<in>set (codeFindings wordsOf (?in p) facilitator). pf_outcome f = NeedsRevision" for p
  proof (cases "hasOpenRequest ctx")
    case True
    then show ?thesis by (intro bexI [OF _ codeFindings_second [of "?in p"]]) (simp_all add: opn)
  next
    case False
    then show ?thesis using bad by (intro bexI [OF _ codeFindings_facilitator [of "?in p"]]) (simp_all add: opn)
  qed
  moreover have "\<not> unrestricted event ctx f" if "pf_outcome f = NeedsRevision" for event f
    using that by (simp add: unrestricted_def)
  ultimately show ?thesis
    unfolding restricts_def check using normsCheckOutgoing_refusal by metis
qed

text \<open>The outcomes of code norms fit their rules, and their names are their own.\<close>

lemma codeFindings_fit:
  assumes "f \<in> set (codeFindings wordsOf input facilitator)" and "ev_direction (mi_event input) = Outgoing"
  shows "\<exists>rule\<in>set (CODE_RULES wordsOf). pf_ruleId f = rd_id (cr_description rule) \<and> rd_kind (cr_description rule) = Norm \<and>
    pf_outcome f \<in> {Pass, NotApplicable, NeedsRevision}"
proof -
  from assms(1) obtain rule where r: "rule \<in> set (CODE_RULES wordsOf)" "pf_ruleId f = rd_id (cr_description rule)"
    "pf_outcome f = cr_assess rule (ev_message (mi_event input)) (mi_context input) facilitator"
    by (auto simp: codeFindings_def)
  then have "rd_kind (cr_description rule) = Norm" "pf_outcome f \<in> {Pass, NotApplicable, NeedsRevision}"
    by (auto simp: CODE_RULES_def revisionOutcome_def split: option.splits message_operation.splits if_splits)
  with r show ?thesis by blast
qed

lemma norms_rule_ids:
  "map (\<lambda>r. rd_id (cr_description r)) (CODE_RULES wordsOf) =
     [''facilitator-starts-collectives'', ''one-open-request'', ''no-acknowledgement-posts'']"
  "map rd_id OUTGOING_ENGLISH_RULES = [''one-gather'', ''announce-once'', ''result-settles'']"
  by (simp_all add: CODE_RULES_def OUTGOING_ENGLISH_RULES_def ONE_GATHER_RULE_def ANNOUNCE_ONCE_RULE_def RESULT_SETTLES_RULE_def)

lemma codeFindings_ids: "map pf_ruleId (codeFindings wordsOf input facilitator) = map (\<lambda>r. rd_id (cr_description r)) (CODE_RULES wordsOf)"
  by (simp add: codeFindings_def)

lemma ruleById_append:
  "ruleById (xs @ ys) i = (case ruleById ys i of Some r \<Rightarrow> Some r | None \<Rightarrow> ruleById xs i)"
proof -
  have "List.find P (us @ vs) = (case List.find P us of Some r \<Rightarrow> Some r | None \<Rightarrow> List.find P vs)"
    for P and us vs :: "rule_description list" by (induction us) auto
  then show ?thesis unfolding ruleById_def rev_append by blast
qed

lemma ruleById_absent: "i \<notin> set (map rd_id rules) \<Longrightarrow> ruleById rules i = None"
  by (auto simp: ruleById_def find_None_iff)

lemma ruleById_distinct: "distinct (map rd_id rules) \<Longrightarrow> r \<in> set rules \<Longrightarrow> ruleById rules (rd_id r) = Some r"
proof -
  have "distinct (map rd_id rs) \<Longrightarrow> r \<in> set rs \<Longrightarrow> List.find (\<lambda>x. rd_id x = rd_id r) rs = Some r" for rs
    by (induction rs) auto
  moreover have "distinct (map rd_id (rev rules)) = distinct (map rd_id rules)" by (simp add: rev_map [symmetric])
  ultimately show "distinct (map rd_id rules) \<Longrightarrow> r \<in> set rules \<Longrightarrow> ruleById rules (rd_id r) = Some r"
    by (simp add: ruleById_def)
qed

lemma norms_lookup:
  assumes "mw_rules english = map rule_description.truncate OUTGOING_ENGLISH_RULES"
  shows "ruleById (map cr_description (CODE_RULES wordsOf) @ mw_rules english) i =
    (case ruleById (mw_rules english) i of Some r \<Rightarrow> Some r | None \<Rightarrow> ruleById (map cr_description (CODE_RULES wordsOf)) i)"
    and "rule \<in> set (CODE_RULES wordsOf) \<Longrightarrow>
      ruleById (map cr_description (CODE_RULES wordsOf) @ mw_rules english) (rd_id (cr_description rule)) = Some (cr_description rule)"
proof -
  show "ruleById (map cr_description (CODE_RULES wordsOf) @ mw_rules english) i =
    (case ruleById (mw_rules english) i of Some r \<Rightarrow> Some r | None \<Rightarrow> ruleById (map cr_description (CODE_RULES wordsOf)) i)" for i
    by (rule ruleById_append)
  assume r: "rule \<in> set (CODE_RULES wordsOf)"
  have codes: "map rd_id (map cr_description (CODE_RULES wordsOf)) = [''facilitator-starts-collectives'', ''one-open-request'', ''no-acknowledgement-posts'']"
    using norms_rule_ids(1) by (simp add: comp_def)
  have "map rd_id (mw_rules english) = [''one-gather'', ''announce-once'', ''result-settles'']"
    using norms_rule_ids(2) by (simp add: assms comp_def)
  moreover have "rd_id (cr_description rule) \<in> set [''facilitator-starts-collectives'', ''one-open-request'', ''no-acknowledgement-posts'']"
    using r unfolding codes [symmetric] by auto
  ultimately have "ruleById (mw_rules english) (rd_id (cr_description rule)) = None"
    by (intro ruleById_absent) auto
  moreover have "ruleById (map cr_description (CODE_RULES wordsOf)) (rd_id (cr_description rule)) = Some (cr_description rule)"
    using r codes by (intro ruleById_distinct) (simp_all only: set_map image_eqI, simp)
  ultimately show "ruleById (map cr_description (CODE_RULES wordsOf) @ mw_rules english) (rd_id (cr_description rule)) =
      Some (cr_description rule)" by (simp add: ruleById_append)
qed

lemma codeFindings_valid:
  assumes english: "mw_rules english = map rule_description.truncate OUTGOING_ENGLISH_RULES"
    and f: "f \<in> set (codeFindings wordsOf input facilitator)" and dir: "ev_direction (mi_event input) = Outgoing"
  shows "findingFits f \<and> validFinding f (mi_event input)
    (ruleById (map cr_description (CODE_RULES wordsOf) @ mw_rules english) (pf_ruleId f))"
proof -
  from codeFindings_fit [OF f dir] obtain rule where rule: "rule \<in> set (CODE_RULES wordsOf)"
    "pf_ruleId f = rd_id (cr_description rule)" "rd_kind (cr_description rule) = Norm"
    "pf_outcome f \<in> {Pass, NotApplicable, NeedsRevision}" by blast
  have "pf_ruleId f \<in> set (map (\<lambda>r. rd_id (cr_description r)) (CODE_RULES wordsOf))" using rule by auto
  moreover have "isFirewallIdentifier ''facilitator-starts-collectives''" "isFirewallIdentifier ''one-open-request''"
    "isFirewallIdentifier ''no-acknowledgement-posts''" by code_simp+
  ultimately have "isFirewallIdentifier (pf_ruleId f)" unfolding norms_rule_ids by auto
  then show ?thesis
    using rule norms_lookup(2) [OF english rule(1)] dir by (auto simp: findingFits_def validFinding_def)
qed

lemma validFinding_widened:
  assumes "validFinding f event (ruleById (mw_rules english) i)"
  shows "validFinding f event (ruleById (map cr_description (CODE_RULES wordsOf) @ mw_rules english) i)"
  using assms by (cases "ruleById (mw_rules english) i") (simp_all add: ruleById_append validFinding_def)

text \<open>A result the bundle gives for a send, from the result of its English part.\<close>

lemma norms_result_valid:
  assumes english: "mw_rules english = map rule_description.truncate OUTGOING_ENGLISH_RULES"
    and dir: "ev_direction (mi_event input) = Outgoing"
    and part: "resultFits res" "validResult res english input"
    and rules: "mw_rules mw = map cr_description (CODE_RULES wordsOf) @ mw_rules english"
  shows "resultFits (res\<lparr>mr_findings := codeFindings wordsOf input facilitator @ mr_findings res\<rparr>) \<and>
    validResult (res\<lparr>mr_findings := codeFindings wordsOf input facilitator @ mr_findings res\<rparr>) mw input"
proof -
  have codes: "findingFits f \<and> validFinding f (mi_event input) (ruleById (mw_rules mw) (pf_ruleId f))"
    if "f \<in> set (codeFindings wordsOf input facilitator)" for f
    unfolding rules using codeFindings_valid [OF english that dir] .
  have rest: "validFinding f (mi_event input) (ruleById (mw_rules mw) (pf_ruleId f))" if "f \<in> set (mr_findings res)" for f
    using that part(2) validFinding_widened unfolding rules validResult_def list_all_iff by blast
  have kinds: "map_option rd_kind (ruleById (mw_rules mw) i) = Some Norm"
    if "map_option rd_kind (ruleById (mw_rules english) i) = Some Norm" for i
    using that by (cases "ruleById (mw_rules english) i") (simp_all add: rules ruleById_append)
  have ids: "set (map pf_ruleId (codeFindings wordsOf input facilitator)) = (\<lambda>r. rd_id (cr_description r)) ` set (CODE_RULES wordsOf)"
    unfolding codeFindings_ids by simp
  have "rd_id rule \<in> set (map pf_ruleId (codeFindings wordsOf input facilitator @ mr_findings res))" if "rule \<in> set (mw_rules mw)" for rule
    using that part(2) ids unfolding rules validResult_def list_all_iff by auto
  then have "validResult (res\<lparr>mr_findings := codeFindings wordsOf input facilitator @ mr_findings res\<rparr>) mw input"
    using part(2) codes rest kinds unfolding validResult_def list_all_iff by (auto simp: ball_Un)
  moreover have "resultFits (res\<lparr>mr_findings := codeFindings wordsOf input facilitator @ mr_findings res\<rparr>)"
    using part(1) codes unfolding resultFits_def list_all_iff by (auto simp: ball_Un)
  ultimately show ?thesis by blast
qed

lemma not_applicable_valid:
  fixes rules :: "english_rule list"
  assumes "mw_rules english = map rule_description.truncate rules" and "distinct (map rd_id rules)"
    and "list_all (\<lambda>r. isFirewallIdentifier (rd_id r)) rules"
  shows "resultFits \<lparr>mr_findings = map (\<lambda>rule. \<lparr>pf_ruleId = rd_id rule, pf_outcome = NotApplicable\<rparr>) (mw_rules english), mr_expectations = []\<rparr> \<and>
    validResult \<lparr>mr_findings = map (\<lambda>rule. \<lparr>pf_ruleId = rd_id rule, pf_outcome = NotApplicable\<rparr>) (mw_rules english), mr_expectations = []\<rparr>
      english input"
  using assms ruleById_truncated [OF assms(2)]
  by (auto simp: resultFits_def findingFits_def validResult_def validFinding_def list_all_iff jsSet_def)

lemma collectiveNorms_valid:
  assumes "collectiveNorms fl stateText englishRevision normsRevision wordsOf provider settings records = Inr norms"
    and captured: "captureInput (mi_event input) (mi_context input) = Inr captured"
    and dir: "ev_direction (mi_event input) = Outgoing"
  shows "\<exists>res e. mw_check (cn_outgoing norms facilitator) input = (Returns (Some res), e) \<and>
    resultFits res \<and> validResult res (cn_outgoing norms facilitator) input"
proof -
  let ?mw = "cn_outgoing norms facilitator"
  from assms(1) obtain english where policy:
      "makeEnglishPolicy fl stateText englishRevision COLLECTIVE_NORMS_ID OUTGOING_ENGLISH_RULES provider settings = Inr english"
    and rules: "mw_rules ?mw = map cr_description (CODE_RULES wordsOf) @ mw_rules english"
    and check: "mw_check ?mw = (\<lambda>input. normsCheckOutgoing wordsOf input english facilitator)"
    by (rule collectiveNorms_accepts)
  note a = makeEnglishPolicy_accepts [OF policy]
  let ?codes = "codeFindings wordsOf input facilitator"
  show ?thesis
  proof (cases "list_ex (\<lambda>f. pf_outcome f = NeedsRevision) ?codes")
    case True
    note part = not_applicable_valid [OF a(4,1,3), of input]
    from True norms_result_valid [OF a(4) dir conjunct1 [OF part] conjunct2 [OF part] rules]
    show ?thesis unfolding check normsCheckOutgoing_def Let_def by simp
  next
    case False
    let ?res = "fst (checkEnglish fl stateText input OUTGOING_ENGLISH_RULES (englishRevision OUTGOING_ENGLISH_RULES settings) provider settings)"
    note part = checkEnglish_valid [OF refl refl a(1,3) captured a(4),
        where fl = fl and stateText = stateText and provider = provider and settings = settings
        and revision = "englishRevision OUTGOING_ENGLISH_RULES settings"]
    from False norms_result_valid [OF a(4) dir conjunct1 [OF part] conjunct2 [OF part] rules]
    show ?thesis unfolding check normsCheckOutgoing_def Let_def a(5)
      by (cases ?res) auto
  qed
qed

section \<open>Sample installations\<close>

lemma norms_identifiers:
  "isFirewallIdentifier COLLECTIVE_NORMS_ID" "isFirewallIdentifier ALLOWED_SENDERS_ID" "isFirewallIdentifier ''allowed-sender''"
  "isFirewallIdentifier ''facilitator-starts-collectives''" "isFirewallIdentifier ''one-open-request''"
  "isFirewallIdentifier ''no-acknowledgement-posts''" "isFirewallIdentifier ''one-gather''"
  "isFirewallIdentifier ''announce-once''" "isFirewallIdentifier ''result-settles''" "isFirewallIdentifier ''acknowledgement''"
  by code_simp+

definition sampleSenders :: middleware where
  "sampleSenders = allowedSendersPolicy (\<lambda>_. ''1'') [''p'']"

lemma sample_senders: "captureEntry sampleSenders = Inr sampleSenders"
  by (simp add: captureEntry_def sampleSenders_def allowedSendersPolicy_def norms_identifiers firewall_identifiers ruleFits_def jsSet_def)

lemma norms_policy:
  assumes "rules = OUTGOING_ENGLISH_RULES \<or> rules = INCOMING_ENGLISH_RULES"
  shows "\<exists>mw. makeEnglishPolicy id (\<lambda>_. ''s'') (\<lambda>_ _. ''1'') COLLECTIVE_NORMS_ID rules sampleProvider (sampleEnglishSettings 1) = Inr mw \<and>
    mw_rules mw = map rule_description.truncate rules"
proof -
  have "rules \<noteq> []" "list_all englishRuleFits rules" "length (jsSet (map rd_id rules)) = length rules"
    using assms by (auto simp: OUTGOING_ENGLISH_RULES_def INCOMING_ENGLISH_RULES_def ONE_GATHER_RULE_def ANNOUNCE_ONCE_RULE_def
        RESULT_SETTLES_RULE_def ACKNOWLEDGEMENT_RULE_def englishRuleFits_def ruleFits_def rule_description.truncate_def
        norms_identifiers jsSet_def)
  then show ?thesis
    by (simp add: makeEnglishPolicy_def englishSettingsFit_def sampleEnglishSettings_def norms_identifiers Let_def)
qed

lemma sample_norms:
  "\<exists>norms. collectiveNorms id (\<lambda>_. ''s'') (\<lambda>_ _. ''1'') (\<lambda>_ _ _. ''1'') (\<lambda>_. []) sampleProvider (sampleEnglishSettings 1) None = Inr norms \<and>
     captureEntry (cn_outgoing norms facilitator) = Inr (cn_outgoing norms facilitator)"
proof -
  obtain incoming outgoing where p:
    "makeEnglishPolicy id (\<lambda>_. ''s'') (\<lambda>_ _. ''1'') COLLECTIVE_NORMS_ID INCOMING_ENGLISH_RULES sampleProvider (sampleEnglishSettings 1) = Inr incoming"
    "makeEnglishPolicy id (\<lambda>_. ''s'') (\<lambda>_ _. ''1'') COLLECTIVE_NORMS_ID OUTGOING_ENGLISH_RULES sampleProvider (sampleEnglishSettings 1) = Inr outgoing"
    and rules: "mw_rules outgoing = map rule_description.truncate OUTGOING_ENGLISH_RULES"
    using norms_policy by metis
  let ?rules = "map cr_description (CODE_RULES (\<lambda>_. [])) @ map rule_description.truncate OUTGOING_ENGLISH_RULES"
  have "?rules \<noteq> []" "list_all ruleFits ?rules" "length (jsSet (map rd_id ?rules)) = length ?rules"
    by (simp_all add: CODE_RULES_def OUTGOING_ENGLISH_RULES_def ONE_GATHER_RULE_def ANNOUNCE_ONCE_RULE_def RESULT_SETTLES_RULE_def
        ruleFits_def rule_description.truncate_def norms_identifiers jsSet_def)
  then show ?thesis
    by (simp add: collectiveNorms_def p Let_def captureEntry_def norms_identifiers firewall_identifiers rules)
qed

text \<open>A facilitator whose request of the shown history is open, and whose other request the history settles.\<close>

definition sampleAsked :: "string \<Rightarrow> string \<Rightarrow> history_entry" where
  "sampleAsked m i = \<lparr>he_message = \<lparr>ms_id = m, ms_sender = ''a'', ms_recipients = [''b''], ms_text = ''hi'',
     ms_operation = Some (OpRequest Gather i 10)\<rparr>, he_visibility = Runtime, he_admission = Admitted\<rparr>"

definition sampleAnswered :: history_entry where
  "sampleAnswered = \<lparr>he_message = \<lparr>ms_id = ''p'', ms_sender = ''b'', ms_recipients = [''a''], ms_text = ''hi'',
     ms_operation = Some (OpAnswer Gather ''e'')\<rparr>, he_visibility = Runtime, he_admission = Admitted\<rparr>"

definition sampleOpenContext :: message_context where
  "sampleOpenContext = (sampleContext ''a'')\<lparr>mc_history := [sampleAsked ''e'' ''e'', sampleAnswered, sampleAsked ''f'' ''f''], mc_now := Some 5\<rparr>"

lemma sample_open: "map (unsettledRequest sampleOpenContext) (mc_history sampleOpenContext) = [False, False, True]"
  by (simp add: sampleOpenContext_def sampleContext_def sampleAsked_def sampleAnswered_def unsettledRequest_def settles_def)

definition sampleRequestDraft :: message where
  "sampleRequestDraft = \<lparr>ms_id = ''m'', ms_sender = ''a'', ms_recipients = [''b'', ''p''], ms_text = ''hi'',
     ms_operation = Some (OpRequest Gather ''r'' 10)\<rparr>"

lemma sample_request_input:
  "captureInput \<lparr>ev_direction = Outgoing, ev_message = sampleRequestDraft\<rparr> (sampleContext ''a'') =
     Inr (\<lparr>ev_direction = Outgoing, ev_message = sampleRequestDraft\<rparr>, sampleContext ''a'')"
  by (simp add: captureInput_def messageFits_def contextFits_def sampleRequestDraft_def sampleContext_def firewall_identifiers jsSet_def)

lemma sample_open_input:
  "captureInput \<lparr>ev_direction = Outgoing, ev_message = sampleRequestDraft\<rparr> sampleOpenContext =
     Inr (\<lparr>ev_direction = Outgoing, ev_message = sampleRequestDraft\<rparr>, sampleOpenContext)"
  by (simp add: captureInput_def messageFits_def contextFits_def sampleRequestDraft_def sampleContext_def sampleOpenContext_def
      sampleAsked_def sampleAnswered_def firewall_identifiers jsSet_def)

lemma sample_incoming_input:
  "captureInput \<lparr>ev_direction = Incoming, ev_message = sampleDraft\<rparr> (sampleContext ''b'') =
     Inr (\<lparr>ev_direction = Incoming, ev_message = sampleDraft\<rparr>, sampleContext ''b'')"
  by (simp add: captureInput_def messageFits_def contextFits_def sample_defs firewall_identifiers jsSet_def)

text \<open>A firewall of one entry in each direction.\<close>

lemma single_entry_firewall:
  assumes "captureEntry incoming = Inr incoming" and "captureEntry outgoing = Inr outgoing"
  shows "\<exists>fw. makeFirewall sizes [incoming] [outgoing] sampleSettings = Inr fw \<and>
    (\<forall>m ctx now. checkOutgoing fw m ctx now =
       checkMessage sizes \<lparr>ev_direction = Outgoing, ev_message = m\<rparr> ctx [outgoing] sampleSettings now) \<and>
    (\<forall>m ctx now. checkIncoming fw m ctx now =
       bindE (checkMessage sizes \<lparr>ev_direction = Incoming, ev_message = m\<rparr> ctx [incoming] sampleSettings now) (\<lambda>result.
         if fc_judgment result = JRevise then Inl MessageError else Inr result))"
  using assms by (simp add: makeFirewall_def makeChain_def settingsFit_def sampleSettings_def jsSet_def)

section \<open>Properties\<close>

text \<open>
  C21: Only allowed senders are heard. In every firewall that installs the allowed-senders
  entry for received messages, wherever in the chain and with whatever other entries and
  bounds, no message of another sender is admitted.
\<close>

theorem unlisted_senders_refused:
  assumes "makeFirewall sizes incoming outgoing settings = Inr fw"
    and "allowedSendersPolicy sendersRevision agentIds \<in> set incoming" and "ms_sender m \<notin> set agentIds"
    and "checkIncoming fw m ctx now = Inr result"
  shows "fc_judgment result \<noteq> JAllow"
  using chain_refuses [OF makeFirewall_checks(2) [OF assms(1,4)] assms(2) allowedSenders_restricts [OF assms(3)]] .

theorem unlisted_senders_refused_witness:
  "\<exists>fw result. makeFirewall sampleSizes [sampleSenders] [sampleSenders] sampleSettings = Inr fw \<and>
     ms_sender sampleDraft \<notin> set [''p''] \<and>
     checkIncoming fw sampleDraft (sampleContext ''b'') 0 = Inr result \<and> fc_judgment result \<noteq> JAllow"
proof -
  obtain fw where fw: "makeFirewall sampleSizes [sampleSenders] [sampleSenders] sampleSettings = Inr fw"
    and inc: "\<And>m ctx now. checkIncoming fw m ctx now =
       bindE (checkMessage sampleSizes \<lparr>ev_direction = Incoming, ev_message = m\<rparr> ctx [sampleSenders] sampleSettings now) (\<lambda>result.
         if fc_judgment result = JRevise then Inl MessageError else Inr result)"
    using single_entry_firewall [OF sample_senders sample_senders] by blast
  have sender': "ms_sender sampleDraft = ''a''" by (simp add: sampleDraft_def)
  then have sender: "ms_sender sampleDraft \<notin> set [''p'']" by simp
  let ?result = "composeDecision \<lparr>ev_direction = Incoming, ev_message = sampleDraft\<rparr> (sampleContext ''b'') [sampleSenders]
    [\<lparr>mo_middlewareId = ALLOWED_SENDERS_ID, mo_revision = ''1'', mo_status = Completed,
      mo_findings = [\<lparr>pf_ruleId = ''allowed-sender'', pf_outcome = Block\<rparr>], mo_expectations = [],
      mk_elapsedMilliseconds = 0, mk_failure = None\<rparr>]"
  have c: "checkMessage sampleSizes \<lparr>ev_direction = Incoming, ev_message = sampleDraft\<rparr> (sampleContext ''b'') [sampleSenders]
      sampleSettings 0 = Inr ?result"
    by (simp add: checkMessage_def sample_incoming_input runMiddleware_def invokeMiddleware_def sampleSenders_def allowedSendersPolicy_def
        sampleSizes_def sampleSettings_def resultFits_def validResult_def findingFits_def validFinding_def ruleById_def
        norms_identifiers allowedOutcome_def sender' jsSet_def Let_def)
  have "fc_judgment ?result \<noteq> JRevise"
    by (simp add: selectReason_def allFindings_def)
  then have r: "checkIncoming fw sampleDraft (sampleContext ''b'') 0 = Inr ?result" by (simp add: inc c)
  have "sampleSenders = allowedSendersPolicy (\<lambda>_. ''1'') [''p'']" by (rule sampleSenders_def)
  then have "allowedSendersPolicy (\<lambda>_. ''1'') [''p''] \<in> set [sampleSenders]" by simp
  from unlisted_senders_refused [OF fw this sender r] fw sender r show ?thesis by blast
qed

text \<open>
  C22: The collective norms bind without the decision provider. In every firewall that installs the collective norms for
  sends, an agent that has a request of its own in the shown history which no message of that history settles (no result,
  no failure, no answer to a gather) and whose deadline is not past by the context's clock cannot open another; and an
  agent that is not the facilitator cannot ask several members at once, whatever the provider answers or fails with.
\<close>

theorem collective_norms_bind:
  assumes "makeFirewall sizes incoming outgoing settings = Inr fw"
    and "collectiveNorms fl stateText englishRevision normsRevision wordsOf provider bounds records = Inr norms"
    and "cn_outgoing norms facilitator \<in> set outgoing"
    and "ms_operation m = Some (OpRequest opr i deadlineAt)"
    and "list_ex (unsettledRequest ctx) (mc_history ctx) \<or> \<not> facilitator \<and> 1 < length (ms_recipients m)"
    and "checkOutgoing fw m ctx now = Inr result"
  shows "fc_judgment result \<noteq> JAllow"
  using chain_refuses [OF makeFirewall_checks(1) [OF assms(1,6)] assms(3)
      collectiveNorms_restrict [OF assms(2,4) assms(5) [folded hasOpenRequest_unsettled]]] .

theorem collective_norms_bind_witness:
  "\<exists>fw (norms :: collective_norms) result. makeFirewall sampleSizes [sampleSenders] [cn_outgoing norms True] sampleSettings = Inr fw \<and>
     list_ex (unsettledRequest sampleOpenContext) (mc_history sampleOpenContext) \<and>
     checkOutgoing fw sampleRequestDraft sampleOpenContext 0 = Inr result \<and> fc_judgment result \<noteq> JAllow"
proof -
  obtain norms where norms: "collectiveNorms id (\<lambda>_. ''s'') (\<lambda>_ _. ''1'') (\<lambda>_ _ _. ''1'') (\<lambda>_. []) sampleProvider
      (sampleEnglishSettings 1) None = Inr norms"
    and entry: "captureEntry (cn_outgoing norms True) = Inr (cn_outgoing norms True)" using sample_norms by blast
  obtain fw where fw: "makeFirewall sampleSizes [sampleSenders] [cn_outgoing norms True] sampleSettings = Inr fw"
    and out: "\<And>m ctx now. checkOutgoing fw m ctx now =
       checkMessage sampleSizes \<lparr>ev_direction = Outgoing, ev_message = m\<rparr> ctx [cn_outgoing norms True] sampleSettings now"
    using single_entry_firewall [OF sample_senders entry] by blast
  obtain result where r: "checkOutgoing fw sampleRequestDraft sampleOpenContext 0 = Inr result"
    by (simp add: out checkMessage_def sample_open_input Let_def)
  have unsettled: "list_ex (unsettledRequest sampleOpenContext) (mc_history sampleOpenContext)"
    using arg_cong [OF sample_open, of "list_ex id"] by (simp add: list_ex_iff)
  have "ms_operation sampleRequestDraft = Some (OpRequest Gather ''r'' 10)"
    and "cn_outgoing norms True \<in> set [cn_outgoing norms True]" by (simp_all add: sampleRequestDraft_def)
  from collective_norms_bind [OF fw norms this(2,1) disjI1 [OF unsettled] r] fw r unsettled show ?thesis by blast
qed

text \<open>
  The collective norms never fail their own validation: for every send whose input the
  chain captured, the registration's answer names its code rules and its English rules with
  outcomes they permit, so an invocation ends with it or with an exceeded byte budget.
\<close>

theorem collective_norms_validate:
  assumes "collectiveNorms fl stateText englishRevision normsRevision wordsOf provider bounds records = Inr norms"
    and "captureInput \<lparr>ev_direction = Outgoing, ev_message = m\<rparr> ctx = Inr captured"
  shows "\<exists>res. mr_findings res \<noteq> [] \<and>
    fst (invokeMiddleware sizes (cn_outgoing norms facilitator)
      \<lparr>mi_event = \<lparr>ev_direction = Outgoing, ev_message = m\<rparr>, mi_context = ctx, mi_previous = previous\<rparr> settings) \<in> {Inl Budget, Inr res}"
proof -
  let ?in = "\<lparr>mi_event = \<lparr>ev_direction = Outgoing, ev_message = m\<rparr>, mi_context = ctx, mi_previous = previous\<rparr>"
  have "captureInput (mi_event ?in) (mi_context ?in) = Inr captured" using assms(2) by simp
  from collectiveNorms_valid [OF assms(1) this, of facilitator] obtain res e where
    r: "mw_check (cn_outgoing norms facilitator) ?in = (Returns (Some res), e)"
      "resultFits res" "validResult res (cn_outgoing norms facilitator) ?in" by auto
  obtain english :: middleware where "mw_rules (cn_outgoing norms facilitator) = map cr_description (CODE_RULES wordsOf) @ mw_rules english"
    using assms(1) by (rule collectiveNorms_accepts [where facilitator = facilitator]) blast
  then have "mw_rules (cn_outgoing norms facilitator) \<noteq> []" by (simp add: CODE_RULES_def)
  moreover have "list_all (\<lambda>rule. rd_id rule \<in> set (map pf_ruleId (mr_findings res))) (mw_rules (cn_outgoing norms facilitator))"
    using r(3) by (simp add: validResult_def)
  ultimately have "mr_findings res \<noteq> []" by (cases "mw_rules (cn_outgoing norms facilitator)") auto
  with r show ?thesis by (intro exI [of _ res]) (simp add: invokeMiddleware_def)
qed

theorem collective_norms_validate_witness:
  "\<exists>norms res. collectiveNorms id (\<lambda>_. ''s'') (\<lambda>_ _. ''1'') (\<lambda>_ _ _. ''1'') (\<lambda>_. []) sampleProvider
      (sampleEnglishSettings 1) None = Inr norms \<and>
     fst (invokeMiddleware sampleSizes (cn_outgoing norms True) \<lparr>mi_event = \<lparr>ev_direction = Outgoing, ev_message = sampleRequestDraft\<rparr>,
       mi_context = sampleContext ''a'', mi_previous = []\<rparr> sampleSettings) \<in> {Inl Budget, Inr res}"
proof -
  obtain norms where norms: "collectiveNorms id (\<lambda>_. ''s'') (\<lambda>_ _. ''1'') (\<lambda>_ _ _. ''1'') (\<lambda>_. []) sampleProvider
      (sampleEnglishSettings 1) None = Inr norms" using sample_norms by blast
  from collective_norms_validate [OF norms sample_request_input, of sampleSizes True "[]" sampleSettings] norms
  show ?thesis by blast
qed

end
