(* ===== verification/Firewall_Policy_Facts.thy ===== *)
theory Firewall_Policy_Facts
  imports Firewall_Policy Firewall_Rules_Facts
begin

text \<open>
  What the editable policy guarantees over any sequence of owner edits, commits and failures:
  the active installation is always the one a restart would build from the store, and edits
  never reach what composition fixed.
\<close>

section \<open>Runs of edits\<close>

text \<open>An edit with whether its transaction commits and when it is made.\<close>

type_synonym edit = "bool \<times> int \<times> policy_update"

definition editStep ::
  "policy_environment \<Rightarrow> policy_codec \<Rightarrow> captured_options \<Rightarrow> edit \<Rightarrow> editable_state \<times> policy_store \<Rightarrow> editable_state \<times> policy_store" where
  "editStep env codec captured e st = (case e of (commits, now, request) \<Rightarrow> snd (updatePolicy env codec commits captured now request st))"

definition policyRun ::
  "policy_environment \<Rightarrow> policy_codec \<Rightarrow> captured_options \<Rightarrow> edit list \<Rightarrow> editable_state \<times> policy_store \<Rightarrow> editable_state \<times> policy_store" where
  "policyRun env codec captured edits st = fold (editStep env codec captured) edits st"

text \<open>The documented behaviour of the canonical encoding: decoding returns what was encoded.\<close>

definition codecLaws :: "policy_codec \<Rightarrow> bool" where
  "codecLaws codec \<longleftrightarrow> (\<forall>rules bytes. pc_encode codec rules = Some bytes \<longrightarrow> pc_decode codec bytes = Some rules)"

text \<open>The store holds the active document, and the active installation is the one built from it.\<close>

definition settledPolicy ::
  "policy_environment \<Rightarrow> policy_codec \<Rightarrow> captured_options \<Rightarrow> editable_state \<times> policy_store \<Rightarrow> bool" where
  "settledPolicy env codec captured st \<longleftrightarrow>
     (let (state, store) = st in
      es_fixedRuleIds state = map fixedRuleId (fixedRules captured) \<and>
      (\<exists>bytes. sp_document store = Some bytes \<and> pc_decode codec bytes = Some (es_rules state)) \<and>
      editableRulesFit (es_rules state) \<and>
      validateIds (es_rules state) (es_fixedRuleIds state) = Inr () \<and>
      buildPolicy env captured (es_rules state) = Inr (es_active state))"

lemma persistRules_Inr:
  assumes "persistRules codec commits store rules activation = (Inr u, store')"
  obtains bytes where "pc_encode codec rules = Some bytes" "sp_document store' = Some bytes"
  using assms by (auto simp: persistRules_def split: option.splits if_splits)

lemma persistRules_Inl: "persistRules codec commits store rules activation = (Inl e, store') \<Longrightarrow> store' = store"
  by (auto simp: persistRules_def split: option.splits if_splits)

lemma editedRules_Inr:
  assumes "editedRules rules fixed request = Inr nxt"
  shows "editableRulesFit nxt" and "validateIds nxt fixed = Inr ()"
  using assms by (auto simp: editedRules_def Let_def bindE_Inr_iff split: if_splits)

text \<open>An edit either changes nothing or moves the document, the store and the installation together.\<close>

lemma updatePolicy_cases:
  assumes "updatePolicy env codec commits captured now request (state, store) = (res, state', store')"
  obtains (failed) e where "res = Inl e" "state' = state" "store' = store"
  | (applied) nxt active u where "res = Inr (in_configurationDigest active)"
      "editedRules (es_rules state) (es_fixedRuleIds state) request = Inr nxt"
      "buildPolicy env captured nxt = Inr active"
      "state' = state\<lparr>es_active := active, es_rules := nxt\<rparr>"
      "persistRules codec commits store nxt
         (Some \<lparr>av_time = now, av_activeRevision = in_configurationDigest active,
                av_addedRuleIds = map rd_id (listOf (pu_add request)),
                av_removedRuleIds = listOf (pu_remove request)\<rparr>) = (Inr u, store')"
proof (cases "policyUpdateFits request")
  case False
  then show ?thesis using assms failed [of InvalidRule] by (auto simp: updatePolicy_def)
next
  case fits: True
  show ?thesis
  proof (cases "editedRules (es_rules state) (es_fixedRuleIds state) request")
    case (Inl e)
    then show ?thesis using assms failed [of e] fits by (auto simp: updatePolicy_def)
  next
    case (Inr nxt)
    show ?thesis
    proof (cases "buildPolicy env captured nxt")
      case (Inl e)
      then show ?thesis using assms failed [of e] fits \<open>editedRules _ _ _ = Inr nxt\<close> by (auto simp: updatePolicy_def)
    next
      case built: (Inr active)
      obtain r store'' where p: "persistRules codec commits store nxt
         (Some \<lparr>av_time = now, av_activeRevision = in_configurationDigest active,
                av_addedRuleIds = map rd_id (listOf (pu_add request)),
                av_removedRuleIds = listOf (pu_remove request)\<rparr>) = (r, store'')" by fastforce
      show ?thesis
      proof (cases r)
        case (Inl e)
        then show ?thesis
          using assms failed [of e] fits \<open>editedRules _ _ _ = Inr nxt\<close> built p persistRules_Inl [of codec commits store nxt _ e store'']
          by (auto simp: updatePolicy_def)
      next
        case (Inr u)
        then show ?thesis
          using assms fits \<open>editedRules _ _ _ = Inr nxt\<close> built p
          by (intro applied [of active nxt u]) (auto simp: updatePolicy_def)
      qed
    qed
  qed
qed

lemma settledPolicy_edit:
  assumes "codecLaws codec" and "settledPolicy env codec captured st"
  shows "settledPolicy env codec captured (editStep env codec captured e st)"
proof -
  obtain commits now request where e: "e = (commits, now, request)" by (cases e)
  obtain state store where st: "st = (state, store)" by (cases st)
  obtain res state' store' where u: "updatePolicy env codec commits captured now request (state, store) = (res, state', store')"
    by (metis surj_pair)
  then have step: "editStep env codec captured e st = (state', store')" by (simp add: editStep_def e st)
  from u show ?thesis
  proof (cases rule: updatePolicy_cases)
    case failed
    then show ?thesis using assms(2) unfolding step by (simp add: st)
  next
    case (applied nxt active u)
    from applied(5) obtain bytes where b: "pc_encode codec nxt = Some bytes" "sp_document store' = Some bytes"
      by (rule persistRules_Inr)
    have "pc_decode codec bytes = Some nxt" using assms(1) b(1) by (simp add: codecLaws_def)
    then show ?thesis
      using assms(2) applied(3) b(2) editedRules_Inr [OF applied(2)]
      unfolding step by (simp add: st settledPolicy_def applied(4))
  qed
qed

lemma settledPolicy_run:
  assumes "codecLaws codec" and "settledPolicy env codec captured st"
  shows "settledPolicy env codec captured (policyRun env codec captured edits st)"
  using assms(2) unfolding policyRun_def
  by (induction edits arbitrary: st) (simp_all add: settledPolicy_edit [OF assms(1)])

section \<open>Installing\<close>

lemma captureOptions_initial:
  assumes "captureOptions env options = Inr captured"
  shows "editableRulesFit (case co_english captured of None \<Rightarrow> [] | Some e \<Rightarrow> eo_initialRules e)"
  using assms
  by (auto simp: captureOptions_def bindE_Inr_iff captureEnglish_def editableRulesFit_def split: option.splits if_splits)

lemma installed_settled:
  assumes laws: "codecLaws codec"
    and "installEditableFirewall env codec commits options store = (Inr state, store')"
    and c: "captureOptions env options = Inr captured"
  shows "settledPolicy env codec captured (state, store')"
proof (cases "sp_document store")
  case None
  let ?rules = "case co_english captured of None \<Rightarrow> [] | Some e \<Rightarrow> eo_initialRules e"
  from assms(2) None obtain active u where v: "validateIds ?rules (map fixedRuleId (fixedRules captured)) = Inr ()"
    "buildPolicy env captured ?rules = Inr active"
    and s: "state = \<lparr>es_rules = ?rules, es_fixedRuleIds = map fixedRuleId (fixedRules captured), es_active = active\<rparr>"
    and p: "persistRules codec commits store ?rules None = (Inr u, store')"
    by (auto simp: installEditableFirewall_def c Let_def bindE_Inr_iff split: sum.splits prod.splits)
  from p obtain bytes where b: "pc_encode codec ?rules = Some bytes" "sp_document store' = Some bytes" by (rule persistRules_Inr)
  have "pc_decode codec bytes = Some ?rules" using laws b(1) by (simp add: codecLaws_def)
  then show ?thesis using v b(2) captureOptions_initial [OF c] by (simp add: settledPolicy_def s)
next
  case (Some bytes)
  with assms(2) show ?thesis
    by (auto simp: installEditableFirewall_def c Let_def settledPolicy_def bindE_Inr_iff split: sum.splits option.splits if_splits)
qed

lemma settled_restart:
  assumes "settledPolicy env codec captured (state, store)" and c: "captureOptions env options = Inr captured"
  shows "installEditableFirewall env codec commits options store = (Inr state, store)"
  using assms(1) by (auto simp: settledPolicy_def installEditableFirewall_def c)

section \<open>What composition fixed\<close>

lemma installFirewall_metadata:
  assumes "installFirewall env options = Inr installed"
  shows "in_incoming installed = map registrationMetadata (fo_incoming options)"
    and "in_outgoing installed = map registrationMetadata (fo_outgoing options)"
proof -
  have same: "forEachE captureRegistration ms = Inr ms' \<Longrightarrow> ms' = ms" for ms ms'
    by (induction ms arbitrary: ms') (auto simp: resultE_iffs captureRegistration_def split: if_splits)
  from assms show "in_incoming installed = map registrationMetadata (fo_incoming options)"
    and "in_outgoing installed = map registrationMetadata (fo_outgoing options)"
    by (auto simp: installFirewall_def bindE_Inr_iff Let_def dest!: same split: if_splits option.splits)
qed

lemma asBuild_Inr: "asBuild m = Inr a \<longleftrightarrow> m = Inr a"
  by (cases m) (simp_all add: asBuild_def)

lemma captureOptions_fixed:
  assumes "captureOptions env options = Inr captured"
  shows "fo_incoming (co_fixed captured) = fo_incoming options" and "fo_outgoing (co_fixed captured) = fo_outgoing options"
    and "in_incoming (co_base captured) = map registrationMetadata (fo_incoming options)"
    and "in_outgoing (co_base captured) = map registrationMetadata (fo_outgoing options)"
    and "co_english captured = fo_english options"
proof -
  have same: "forEachE captureRegistration ms = Inr ms' \<Longrightarrow> ms' = ms" for ms ms'
    by (induction ms arbitrary: ms') (auto simp: resultE_iffs captureRegistration_def split: if_splits)
  from assms obtain incoming outgoing base english where o: "forEachE captureRegistration (fo_incoming options) = Inr incoming"
      "forEachE captureRegistration (fo_outgoing options) = Inr outgoing"
    and b: "installFirewall env (options\<lparr>fo_incoming := incoming, fo_outgoing := outgoing\<rparr>) = Inr base"
    and e: "captureEnglish (fo_english options) = Inr english"
    and c: "fo_incoming (co_fixed captured) = incoming" "fo_outgoing (co_fixed captured) = outgoing"
      "co_base captured = base" "co_english captured = english"
    by (auto simp: captureOptions_def bindE_Inr_iff asBuild_Inr)
  note o' = o [THEN same]
  show "fo_incoming (co_fixed captured) = fo_incoming options" "fo_outgoing (co_fixed captured) = fo_outgoing options"
    by (simp_all add: c o')
  show "in_incoming (co_base captured) = map registrationMetadata (fo_incoming options)"
    "in_outgoing (co_base captured) = map registrationMetadata (fo_outgoing options)"
    using installFirewall_metadata [OF b] by (simp_all add: c o')
  show "co_english captured = fo_english options"
    using e by (auto simp: captureEnglish_def c split: option.splits if_splits)
qed

text \<open>The registrations an installation built from a rule list holds.\<close>

lemma buildPolicy_metadata:
  assumes "buildPolicy env captured rules = Inr active" and c: "captureOptions env options = Inr captured"
  shows "set (map registrationMetadata (fo_incoming options)) \<subseteq> set (in_incoming active)"
    and "set (map registrationMetadata (fo_outgoing options)) \<subseteq> set (in_outgoing active)"
    and "fo_english options = Some e \<Longrightarrow> r \<in> set (eo_fixedRules e) \<union> set rules \<Longrightarrow>
      \<exists>revision rules'. rule_description.truncate r \<in> set rules' \<and>
        (englishId, revision, rules') \<in> set (in_incoming active) \<and> (englishId, revision, rules') \<in> set (in_outgoing active)"
proof -
  note f = captureOptions_fixed [OF c]
  let ?documents = "(case co_english captured of None \<Rightarrow> [] | Some e \<Rightarrow> eo_fixedRules e) @ rules"
  consider (base) "?documents = []" "active = co_base captured"
    | (english) e english where "co_english captured = Some e"
        "makeEnglishPolicy (pv_fl env) (pv_stateText env) (pv_englishRevision env) englishId (eo_fixedRules e @ rules)
           (eo_provider e) (eo_settings e) = Inr english"
        "installFirewall env ((co_fixed captured)\<lparr>fo_incoming := fo_incoming (co_fixed captured) @ [english],
           fo_outgoing := fo_outgoing (co_fixed captured) @ [english]\<rparr>) = Inr active"
    using assms(1) by (auto simp: buildPolicy_def Let_def bindE_Inr_iff asBuild_Inr split: if_splits option.splits)
  note cases = this
  show "set (map registrationMetadata (fo_incoming options)) \<subseteq> set (in_incoming active)"
    using cases installFirewall_metadata(1) f by cases auto
  show "set (map registrationMetadata (fo_outgoing options)) \<subseteq> set (in_outgoing active)"
    using cases installFirewall_metadata(2) f by cases auto
  show "\<exists>revision rules'. rule_description.truncate r \<in> set rules' \<and>
        (englishId, revision, rules') \<in> set (in_incoming active) \<and> (englishId, revision, rules') \<in> set (in_outgoing active)"
    if e: "fo_english options = Some e" and r: "r \<in> set (eo_fixedRules e) \<union> set rules"
    using cases
  proof cases
    case base
    then show ?thesis using r e f(5) by auto
  next
    case (english e' english)
    then have e': "e' = e" using e f(5) by simp
    have "mw_rules english = map rule_description.truncate (eo_fixedRules e @ rules)"
      using makeEnglishPolicy_accepts(4) [OF english(2)] by (simp add: e')
    moreover have "mw_id english = englishId" using english(2) by (auto simp: makeEnglishPolicy_def Let_def split: if_splits)
    ultimately show ?thesis
      using installFirewall_metadata [OF english(3)] r
      by (intro exI [of _ "mw_revision english"] exI [of _ "mw_rules english"]) (auto simp: registrationMetadata_def)
  qed
qed

lemma validateIds_iff: "validateIds rules fixed = Inr () \<longleftrightarrow>
  list_all (\<lambda>r. rd_id r \<notin> set fixed) rules \<and> distinct (map rd_id rules)"
proof -
  have "length (jsSet (map rd_id rules)) = length rules \<longleftrightarrow> distinct (map rd_id rules)"
    using length_jsSet_eq_iff [of "map rd_id rules"] by simp
  then show ?thesis by (auto simp: validateIds_def list_ex_iff list_all_iff)
qed

section \<open>The cause of a decision\<close>

lemma decisionCause_endpoint:
  assumes "decisionCause r j checks deciding english = CauseEndpoint"
  shows "deciding = [] \<and> j \<noteq> JAllow"
  using assms by (auto simp: decisionCause_def emptyCause_def Let_def split: option.splits list.splits if_splits)

section \<open>A sample installation\<close>

definition sampleOwnerRule :: english_rule where
  "sampleOwnerRule = \<lparr>rd_id = ''n'', rd_kind = Norm, rd_source = None, rd_guidance = Some ''be brief'', rd_feedback = None,
     er_text = ''Messages are brief.''\<rparr>"

definition sampleFixedRule :: english_rule where
  "sampleFixedRule = \<lparr>rd_id = ''f'', rd_kind = Safety, rd_source = None, rd_guidance = None, rd_feedback = None,
     er_text = ''Keep secrets.''\<rparr>"

definition sampleOptions :: firewall_options where
  "sampleOptions = \<lparr>fo_mode = Enforcement, fo_incoming = [sampleSenders], fo_outgoing = [sampleEntry ''e'' Pass],
     fo_settings = sampleSettings, fo_facts = [], fo_codeDigest = replicate 64 (CHR ''a''),
     fo_maximumHistoryRecords = None, fo_maximumConcurrentChecks = None,
     fo_english = Some \<lparr>eo_fixedRules = [sampleFixedRule], eo_initialRules = [sampleOwnerRule], eo_provider = sampleProvider,
       eo_settings = sampleEnglishSettings 10000\<rparr>\<rparr>"

definition samplePolicyEnvironment :: policy_environment where
  "samplePolicyEnvironment = \<lparr>pv_sizes = sampleSizes, pv_fl = id, pv_stateText = (\<lambda>_. ''s''), pv_englishRevision = (\<lambda>_ _. ''1''),
     pv_installationDigest = (\<lambda>_. Some ''d'')\<rparr>"

definition samplePolicyCodec :: policy_codec where
  "samplePolicyCodec = \<lparr>pc_encode = (\<lambda>rules. if rules = [] then Some ''0'' else if rules = [sampleOwnerRule] then Some ''1'' else None),
     pc_decode = (\<lambda>bytes. if bytes = ''0'' then Some [] else if bytes = ''1'' then Some [sampleOwnerRule] else None)\<rparr>"

lemma samplePolicyCodec_laws: "codecLaws samplePolicyCodec"
  by (auto simp: codecLaws_def samplePolicyCodec_def)

lemma englishId_identifier: "isFirewallIdentifier englishId" "isFirewallIdentifier ''n''"
  by code_simp+

lemma sample_hex: "isLowerHex64 (replicate 64 (CHR ''a''))"
  by (simp add: isLowerHex64_def list_all_iff)

lemmas sample_installation = installFirewall_def captureConfiguration_def captureRegistration_def sampleSettings_def
  settingsFit_def makeFirewall_def makeChain_def samplePolicyEnvironment_def sampleSenders_def allowedSendersPolicy_def
  sampleEntry_def sampleRule_def norms_identifiers firewall_identifiers englishId_identifier sample_hex ruleFits_def captureEntry_def jsSet_def Let_def

lemmas sample_english_rules = sampleOwnerRule_def sampleFixedRule_def englishRuleFits_def rule_description.truncate_def
  editableRulesFit_def editableRuleFits_def englishSettingsFit_def sampleEnglishSettings_def

lemma sample_options_captured:
  "\<exists>captured. captureOptions samplePolicyEnvironment sampleOptions = Inr captured \<and>
     co_fixed captured = sampleOptions\<lparr>fo_maximumHistoryRecords := Some 256, fo_maximumConcurrentChecks := Some 4, fo_english := None\<rparr> \<and>
     co_english captured = fo_english sampleOptions"
  by (simp add: captureOptions_def asBuild_def sampleOptions_def sample_installation captureEnglish_def sample_english_rules)

lemma sample_build:
  assumes "co_fixed captured = sampleOptions\<lparr>fo_maximumHistoryRecords := Some 256, fo_maximumConcurrentChecks := Some 4, fo_english := None\<rparr>"
    and "co_english captured = fo_english sampleOptions" and "rules = [] \<or> rules = [sampleOwnerRule]"
  shows "\<exists>active. buildPolicy samplePolicyEnvironment captured rules = Inr active"
proof -
  let ?documents = "sampleFixedRule # rules"
  have "list_all englishRuleFits ?documents" "length (jsSet (map rd_id ?documents)) = length ?documents"
    using assms(3) by (elim disjE; simp add: sample_english_rules ruleFits_def firewall_identifiers englishId_identifier jsSet_def)+
  then obtain english where e: "makeEnglishPolicy id (\<lambda>_. ''s'') (\<lambda>_ _. ''1'') englishId ?documents sampleProvider
      (sampleEnglishSettings 10000) = Inr english"
    and m: "mw_id english = englishId" "mw_revision english = ''1''" "mw_rules english = map rule_description.truncate ?documents"
    by (simp add: makeEnglishPolicy_def englishSettingsFit_def sampleEnglishSettings_def englishId_identifier Let_def)
  have ids: "englishId \<noteq> ''e''" "englishId \<noteq> ALLOWED_SENDERS_ID" by (simp_all add: englishId_def ALLOWED_SENDERS_ID_def)
  have fits: "list_all ruleFits (mw_rules english)" "distinct (map rd_id (mw_rules english))" "mw_rules english \<noteq> []"
    using assms(3) by (elim disjE; simp add: m(3) sample_english_rules ruleFits_def firewall_identifiers englishId_identifier)+
  have entry: "captureEntry english = Inr english"
  proof -
    have "length (jsSet (map rd_id (mw_rules english))) = length (mw_rules english)"
      using fits(2) length_jsSet_eq_iff [of "map rd_id (mw_rules english)"] by simp
    then show ?thesis using fits(1,3) by (simp add: captureEntry_def m(1,2) englishId_identifier firewall_identifiers)
  qed
  have "captureRegistration english = Inr english"
    using fits(1) by (simp add: captureRegistration_def m(1,2) englishId_identifier firewall_identifiers)
  then show ?thesis
    using entry ids ids [symmetric] e
    by (simp add: buildPolicy_def assms(1,2) sampleOptions_def samplePolicyEnvironment_def asBuild_def)
      (simp add: sample_installation m(1))
qed

lemma sample_fixed_ids:
  assumes "co_fixed captured = sampleOptions\<lparr>fo_maximumHistoryRecords := Some 256, fo_maximumConcurrentChecks := Some 4, fo_english := None\<rparr>"
    and "co_english captured = fo_english sampleOptions"
  shows "map fixedRuleId (fixedRules captured) = [''allowed-sender'', ''r'', ''f'']"
  by (simp add: fixedRules_def assms sampleOptions_def sampleSenders_def allowedSendersPolicy_def sampleEntry_def sampleRule_def
      sampleFixedRule_def jmGet_def)

text \<open>An installation with its initial rule, and the owner removing that rule.\<close>

definition sampleEdit :: edit where
  "sampleEdit = (True, 7, \<lparr>pu_add = None, pu_remove = Some [''n'']\<rparr>)"

lemma sample_edits:
  "\<exists>captured state store state' store'. captureOptions samplePolicyEnvironment sampleOptions = Inr captured \<and>
     installEditableFirewall samplePolicyEnvironment samplePolicyCodec True sampleOptions \<lparr>sp_document = None, sp_activations = []\<rparr> =
       (Inr state, store) \<and>
     policyRun samplePolicyEnvironment samplePolicyCodec captured [sampleEdit] (state, store) = (state', store') \<and> es_rules state' = []"
proof -
  obtain captured where c: "captureOptions samplePolicyEnvironment sampleOptions = Inr captured"
    and f: "co_fixed captured = sampleOptions\<lparr>fo_maximumHistoryRecords := Some 256, fo_maximumConcurrentChecks := Some 4, fo_english := None\<rparr>"
      "co_english captured = fo_english sampleOptions" using sample_options_captured by blast
  note ids = sample_fixed_ids [OF f]
  obtain active where a: "buildPolicy samplePolicyEnvironment captured [sampleOwnerRule] = Inr active"
    using sample_build [OF f] by blast
  obtain active' where a': "buildPolicy samplePolicyEnvironment captured [] = Inr active'" using sample_build [OF f] by blast
  let ?s = "\<lparr>es_rules = [sampleOwnerRule], es_fixedRuleIds = [''allowed-sender'', ''r'', ''f''], es_active = active\<rparr>"
  let ?t = "\<lparr>sp_document = Some ''1'', sp_activations = []\<rparr>"
  have "installEditableFirewall samplePolicyEnvironment samplePolicyCodec True sampleOptions \<lparr>sp_document = None, sp_activations = []\<rparr> =
      (Inr ?s, ?t)"
  proof -
    have v: "validateIds [sampleOwnerRule] [''allowed-sender'', ''r'', ''f''] = Inr ()"
      by (simp add: validateIds_iff sampleOwnerRule_def)
    have i: "(case co_english captured of None \<Rightarrow> [] | Some e \<Rightarrow> eo_initialRules e) = [sampleOwnerRule]"
      by (simp add: f(2) sampleOptions_def)
    have p: "persistRules samplePolicyCodec True \<lparr>sp_document = None, sp_activations = []\<rparr> [sampleOwnerRule] None = (Inr (), ?t)"
      by (simp add: persistRules_def samplePolicyCodec_def)
    show ?thesis by (simp add: installEditableFirewall_def c ids i v a p Let_def)
  qed
  moreover have "\<exists>state' store'. editStep samplePolicyEnvironment samplePolicyCodec captured sampleEdit (?s, ?t) = (state', store') \<and> es_rules state' = []"
    using a' by (simp add: editStep_def sampleEdit_def updatePolicy_def policyUpdateFits_def englishId_identifier editedRules_def listOf_def
        sampleOwnerRule_def editableRulesFit_def validateIds_def jsSet_def persistRules_def samplePolicyCodec_def)
  ultimately show ?thesis using c by (simp add: policyRun_def)
qed

section \<open>Properties\<close>

text \<open>
  C23: The editable policy implements one durable document. After an installation and any
  sequence of owner edits, whichever of them are refused, fail to build or fail to commit, the
  state in memory is exactly the state a restart reads back from the store: the same rules,
  the same fixed identifiers and the same active installation. So no crash between a commit
  and the swap of the active firewall can leave the two apart.
\<close>

theorem policy_survives_restart:
  assumes "codecLaws codec"
    and "installEditableFirewall env codec commits options store = (Inr state, store')"
    and "captureOptions env options = Inr captured"
    and "policyRun env codec captured edits (state, store') = (state'', store'')"
  shows "installEditableFirewall env codec commits' options store'' = (Inr state'', store'')"
proof (rule settled_restart [OF _ assms(3)])
  show "settledPolicy env codec captured (state'', store'')"
    using settledPolicy_run [OF assms(1) installed_settled [OF assms(1-3)], of edits] assms(4) by simp
qed

theorem policy_survives_restart_witness:
  "\<exists>state store. installEditableFirewall samplePolicyEnvironment samplePolicyCodec False sampleOptions store = (Inr state, store) \<and>
     es_rules state = []"
proof -
  obtain captured state store state' store' where r: "captureOptions samplePolicyEnvironment sampleOptions = Inr captured"
    "installEditableFirewall samplePolicyEnvironment samplePolicyCodec True sampleOptions \<lparr>sp_document = None, sp_activations = []\<rparr> =
       (Inr state, store)"
    "policyRun samplePolicyEnvironment samplePolicyCodec captured [sampleEdit] (state, store) = (state', store')" "es_rules state' = []"
    using sample_edits by blast
  from policy_survives_restart [OF samplePolicyCodec_laws r(2,1,3), of False] r(4) show ?thesis by blast
qed

text \<open>
  C24: Owner edits never reach what composition fixed. Where the composition has an English
  policy, then after any sequence of edits, the active
  installation still holds every code registration of both directions and, in both
  directions, every fixed English rule; the editable rules have distinct identifiers, and none
  of them takes the identifier of a fixed rule.
\<close>

theorem edits_keep_fixed_policy:
  assumes "codecLaws codec"
    and "installEditableFirewall env codec commits options store = (Inr state, store')"
    and "captureOptions env options = Inr captured" and "fo_english options = Some e"
    and "policyRun env codec captured edits (state, store') = (state'', store'')"
  shows "set (map registrationMetadata (fo_incoming options)) \<subseteq> set (in_incoming (es_active state'')) \<and>
    set (map registrationMetadata (fo_outgoing options)) \<subseteq> set (in_outgoing (es_active state'')) \<and>
    list_all (\<lambda>r. \<exists>revision rules. rule_description.truncate r \<in> set rules \<and>
      (englishId, revision, rules) \<in> set (in_incoming (es_active state'')) \<and>
      (englishId, revision, rules) \<in> set (in_outgoing (es_active state''))) (eo_fixedRules e @ es_rules state'') \<and>
    distinct (map rd_id (es_rules state'')) \<and>
    list_all (\<lambda>r. rd_id r \<notin> set (map fixedRuleId (fixedRules captured))) (es_rules state'')"
proof -
  have "settledPolicy env codec captured (state'', store'')"
    using settledPolicy_run [OF assms(1) installed_settled [OF assms(1-3)], of edits] assms(5) by simp
  then have v: "validateIds (es_rules state'') (map fixedRuleId (fixedRules captured)) = Inr ()"
    and b: "buildPolicy env captured (es_rules state'') = Inr (es_active state'')" by (auto simp: settledPolicy_def)
  note m = buildPolicy_metadata [OF b assms(3)]
  have "list_all (\<lambda>r. \<exists>revision rules. rule_description.truncate r \<in> set rules \<and>
      (englishId, revision, rules) \<in> set (in_incoming (es_active state'')) \<and>
      (englishId, revision, rules) \<in> set (in_outgoing (es_active state''))) (eo_fixedRules e @ es_rules state'')"
    unfolding list_all_iff set_append using m(3) [OF assms(4)] by blast
  with m(1,2) v show ?thesis unfolding validateIds_iff by blast
qed

theorem edits_keep_fixed_policy_witness:
  "\<exists>state :: editable_state. set (map registrationMetadata [sampleSenders]) \<subseteq> set (in_incoming (es_active state)) \<and> es_rules state = []"
proof -
  obtain captured state store state' store' where r: "captureOptions samplePolicyEnvironment sampleOptions = Inr captured"
    "installEditableFirewall samplePolicyEnvironment samplePolicyCodec True sampleOptions \<lparr>sp_document = None, sp_activations = []\<rparr> =
       (Inr state, store)"
    "policyRun samplePolicyEnvironment samplePolicyCodec captured [sampleEdit] (state, store) = (state', store')" "es_rules state' = []"
    using sample_edits by blast
  have o: "fo_english sampleOptions = Some \<lparr>eo_fixedRules = [sampleFixedRule], eo_initialRules = [sampleOwnerRule],
      eo_provider = sampleProvider, eo_settings = sampleEnglishSettings 10000\<rparr>" "fo_incoming sampleOptions = [sampleSenders]"
    by (simp_all add: sampleOptions_def)
  from edits_keep_fixed_policy [OF samplePolicyCodec_laws r(2,1) o(1) r(3)] r(4) show ?thesis unfolding o(2) by blast
qed

text \<open>
  The feed of decisions reports a hold as the endpoint's own only when context evidence was
  missing: for a message a chain refused, the cause is \<^verbatim>\<open>endpoint\<close> only if the reason is
  unresolved evidence and the context has gaps, whatever registrations are English.
\<close>

theorem endpoint_cause_means_gap:
  assumes "makeChain sizes entries settings = Inr chain" and "chain event ctx now = Inr result"
    and "decisionCause (fc_reason result) (fc_judgment result) (fc_checks result)
      (decidingRules (fc_reason result) (map registrationOf entries) (fc_checks result)) english = CauseEndpoint"
  shows "fc_reason result = EvidenceUnresolved \<and> mc_gaps ctx \<noteq> []"
  using decisionCause_endpoint [OF assms(3)] chain_attributes [OF assms(1,2)] by blast

theorem endpoint_cause_means_gap_witness:
  "\<exists>chain result. makeChain sampleSizes [sampleEntry ''e'' Pass] sampleSettings = Inr chain \<and>
     chain \<lparr>ev_direction = Outgoing, ev_message = sampleDraft\<rparr> ((sampleContext ''a'')\<lparr>mc_gaps := [''lost'']\<rparr>) 0 = Inr result \<and>
     decisionCause (fc_reason result) (fc_judgment result) (fc_checks result)
       (decidingRules (fc_reason result) (map registrationOf [sampleEntry ''e'' Pass]) (fc_checks result)) {} = CauseEndpoint \<and>
     fc_reason result = EvidenceUnresolved"
proof -
  let ?e = "\<lparr>ev_direction = Outgoing, ev_message = sampleDraft\<rparr>" and ?ctx = "(sampleContext ''a'')\<lparr>mc_gaps := [''lost'']\<rparr>"
  let ?chain = "\<lambda>event ctx now. checkMessage sampleSizes event ctx [sampleEntry ''e'' Pass] sampleSettings now"
  let ?c = "\<lparr>mo_middlewareId = ''e'', mo_revision = ''1'', mo_status = Completed,
        mo_findings = [\<lparr>pf_ruleId = ''r'', pf_outcome = Pass\<rparr>], mo_expectations = [],
        mk_elapsedMilliseconds = 5, mk_failure = None\<rparr> :: middleware_check"
  have chain: "makeChain sampleSizes [sampleEntry ''e'' Pass] sampleSettings = Inr ?chain"
    by (rule sample_chain) (rule firewall_identifiers)
  have "captureInput ?e ?ctx = Inr (?e, ?ctx)"
    by (simp add: captureInput_def messageFits_def contextFits_def sample_defs firewall_identifiers jsSet_def)
  moreover have "runMiddleware sampleSizes (sampleEntry ''e'' Pass) input sampleSettings 100 0 = (?c, 5)" for input
    using sample_run [of Pass input 0 100 "''e''"] by (simp add: validFinding_def findingFits_def firewall_identifiers)
  ultimately have run: "?chain ?e ?ctx 0 = Inr (composeDecision ?e ?ctx [sampleEntry ''e'' Pass] [?c])"
    by (simp add: checkMessage_def Let_def) (simp add: sampleSettings_def)
  have cause: "decisionCause EvidenceUnresolved JHold [?c] (decidingRules EvidenceUnresolved (map registrationOf [sampleEntry ''e'' Pass]) [?c]) {} =
      CauseEndpoint"
    by (simp add: decidingRules_def checkDeciders_def decidingFinding_def matchesReason_def conflictingExpectations_def placedNorms_def
        decisionCause_def emptyCause_def)
  have reason: "selectReason ?e ?ctx [?c] = EvidenceUnresolved"
    by (simp add: selectReason_def Let_def allFindings_def unavailableCheck_def unresolvedCheck_def)
  let ?r = "composeDecision ?e ?ctx [sampleEntry ''e'' Pass] [?c]"
  have "decisionCause (fc_reason ?r) (fc_judgment ?r) (fc_checks ?r)
       (decidingRules (fc_reason ?r) (map registrationOf [sampleEntry ''e'' Pass]) (fc_checks ?r)) {} = CauseEndpoint"
    using cause by (simp only: composeDecision_simps reason judgmentOf.simps)
  from endpoint_cause_means_gap [OF chain run this] this chain run show ?thesis by blast
qed

end
