(* ===== verification/Http_Signature.thy ===== *)
theory Http_Signature
  imports Router_Contract Complex_Main
begin

text \<open>
  HTTP message signatures, \<^verbatim>\<open>packages/identity/src/http-signature.ts\<close>: the exact profile a request must
  carry, the times it is honoured, and the order of the checks of a bootstrap registration.  The
  structured-field parser and serializer, the URL constructor and the verification of \<^verbatim>\<open>httpbis\<close> are
  parameters; a bare item of a structured field is a number, a string, a byte sequence or another kind,
  and an integer is a number that \<^verbatim>\<open>Number.isSafeInteger\<close> accepts.
\<close>

section \<open>Requests and structured fields\<close>

record http_request =
  hq_method :: string
  hq_url :: string
  hq_headers :: "(string, string) jsmap"

definition header :: "http_request \<Rightarrow> string \<Rightarrow> string option" where
  "header request name = jmGet (hq_headers request) name"

datatype bare_item = NumberItem rat | StringItem string | BytesItem "byte list" | OtherItem

type_synonym item_parameters = "(string, bare_item) jsmap"

datatype dictionary_member =
    Item bare_item item_parameters
  | InnerList "(bare_item \<times> item_parameters) list" item_parameters

type_synonym dictionary = "(string, dictionary_member) jsmap"

record ('u, 'k) signature_library =
  sl_base64url :: base64url
  sl_sha256 :: "byte list \<Rightarrow> byte list"
  sl_parseDictionary :: "string \<Rightarrow> dictionary option"
  sl_serializeDictionary :: "dictionary \<Rightarrow> string option"
  sl_url :: "string \<Rightarrow> string \<Rightarrow> 'u option"
  sl_verifyMessage :: "string list \<Rightarrow> http_request \<Rightarrow> 'u \<Rightarrow> string \<Rightarrow> 'k \<Rightarrow> bool option"
  sl_thumbprintUri :: "string \<Rightarrow> string option"
  sl_importKey :: "string \<Rightarrow> 'k option"

section \<open>The profile\<close>

definition SIGNATURE_LABEL :: string where "SIGNATURE_LABEL = ''sharness''"
definition SIGNATURE_INTERVAL_SECONDS :: int where "SIGNATURE_INTERVAL_SECONDS = 300"
definition FUTURE_SKEW_SECONDS :: int where "FUTURE_SKEW_SECONDS = 5"
definition SIGNATURE_BYTES :: nat where "SIGNATURE_BYTES = 64"

definition NORMAL_FIELDS :: "string list" where
  "NORMAL_FIELDS = [''@method'', ''@authority'', ''@path'', ''@query'', ''content-digest'', ''content-type'', ''sharness-version'']"

definition REGISTRATION_FIELDS :: "string list" where
  "REGISTRATION_FIELDS = NORMAL_FIELDS @ [''authorization'']"

definition PARAMETERS :: "string list" where
  "PARAMETERS = [''created'', ''expires'', ''keyid'', ''nonce'', ''alg'', ''tag'']"

datatype signature_profile = NormalProfile | RegistrationProfile

definition profileFields :: "signature_profile \<Rightarrow> string list" where
  "profileFields profile = (case profile of NormalProfile \<Rightarrow> NORMAL_FIELDS | RegistrationProfile \<Rightarrow> REGISTRATION_FIELDS)"

definition profileTag :: "signature_profile \<Rightarrow> string" where
  "profileTag profile =
     (case profile of NormalProfile \<Rightarrow> ''sharness-request-v1'' | RegistrationProfile \<Rightarrow> ''sharness-registration-v1'')"

text \<open>Node's \<^verbatim>\<open>digest("base64")\<close>: the standard alphabet, padded to a multiple of four characters.\<close>

definition base64Text :: "base64url \<Rightarrow> byte list \<Rightarrow> string" where
  "base64Text b64 bytes =
     (let text = map (\<lambda>c. if c = CHR ''-'' then CHR ''+'' else if c = CHR ''_'' then CHR ''/'' else c) (b64_encode b64 bytes)
      in text @ replicate ((4 - length text mod 4) mod 4) (CHR ''=''))"

definition contentDigest :: "('u, 'k) signature_library \<Rightarrow> byte list \<Rightarrow> string" where
  "contentDigest lib bodyBytes =
     ''sha-256=:'' @ base64Text (sl_base64url lib) (sl_sha256 lib bodyBytes) @ '':''"

section \<open>Reading a signature\<close>

record parsed_signature =
  ps_fields :: "string list"
  ps_parameters :: item_parameters
  ps_signature :: "byte list"

record verified_http_signature =
  vs_nonce :: string
  vs_expires :: int
  vs_verifiedAt :: int

text \<open>The loop over the covered fields: plain strings without parameters.\<close>

fun coveredNames :: "(bare_item \<times> item_parameters) list \<Rightarrow> string list option" where
  "coveredNames [] = Some []"
| "coveredNames (entry # entries) =
     (case entry of
        (StringItem name, []) \<Rightarrow> map_option (\<lambda>names. name # names) (coveredNames entries)
      | _ \<Rightarrow> None)"

definition readCoveredFields :: "dictionary_member option \<Rightarrow> (string list \<times> item_parameters) option" where
  "readCoveredFields value =
     (case value of
        Some (InnerList fieldItems parameters) \<Rightarrow> map_option (\<lambda>names. (names, parameters)) (coveredNames fieldItems)
      | _ \<Rightarrow> None)"

definition readSignatureBytes :: "dictionary_member option \<Rightarrow> byte list option" where
  "readSignatureBytes value =
     (case value of
        Some (Item (BytesItem signature) []) \<Rightarrow>
          if length signature = SIGNATURE_BYTES \<and> hasCanonicalEd25519SignatureEncoding signature then Some signature else None
      | _ \<Rightarrow> None)"

definition isExactSignatureDictionary :: "('u, 'k) signature_library \<Rightarrow> string \<Rightarrow> dictionary \<Rightarrow> bool option" where
  "isExactSignatureDictionary lib text dictionary =
     map_option (\<lambda>serialized. serialized = text \<and> length dictionary = 1 \<and> jmGet dictionary SIGNATURE_LABEL \<noteq> None)
       (sl_serializeDictionary lib dictionary)"

definition parseExactSignature :: "('u, 'k) signature_library \<Rightarrow> string \<Rightarrow> string \<Rightarrow> parsed_signature option" where
  "parseExactSignature lib signatureInputHeader signatureHeader =
     Option.bind (sl_parseDictionary lib signatureInputHeader) (\<lambda>inputDictionary.
     Option.bind (sl_parseDictionary lib signatureHeader) (\<lambda>signatureDictionary.
     if isExactSignatureDictionary lib signatureInputHeader inputDictionary \<noteq> Some True then None
     else if isExactSignatureDictionary lib signatureHeader signatureDictionary \<noteq> Some True then None
     else Option.bind (readCoveredFields (jmGet inputDictionary SIGNATURE_LABEL)) (\<lambda>(names, parameters).
          map_option (\<lambda>signature. \<lparr>ps_fields = names, ps_parameters = parameters, ps_signature = signature\<rparr>)
            (readSignatureBytes (jmGet signatureDictionary SIGNATURE_LABEL)))))"

definition hasExactSequence :: "string list \<Rightarrow> string list \<Rightarrow> bool" where
  "hasExactSequence actual expected \<longleftrightarrow>
     length actual = length expected \<and> list_all (\<lambda>(a, e). a = e) (zip actual expected)"

section \<open>Parameters\<close>

definition readInteger :: "item_parameters \<Rightarrow> string \<Rightarrow> int option" where
  "readInteger parameters name =
     (case jmGet parameters name of
        Some (NumberItem q) \<Rightarrow> if q = of_int (floor q) \<and> isSafeInteger (floor q) then Some (floor q) else None
      | _ \<Rightarrow> None)"

record signature_parameter_values =
  sv_created :: int
  sv_expires :: int
  sv_keyid :: string
  sv_nonce :: string
  sv_tag :: string

definition readString :: "item_parameters \<Rightarrow> string \<Rightarrow> string option" where
  "readString parameters name = (case jmGet parameters name of Some (StringItem s) \<Rightarrow> Some s | _ \<Rightarrow> None)"

definition readParameterValues :: "item_parameters \<Rightarrow> signature_parameter_values option" where
  "readParameterValues parameters =
     (case (readInteger parameters ''created'', readInteger parameters ''expires'', readString parameters ''keyid'',
            readString parameters ''nonce'', readString parameters ''tag'') of
        (Some created, Some expires, Some keyid, Some nonce, Some tag) \<Rightarrow>
          if jmGet parameters ''alg'' \<noteq> Some (StringItem ''ed25519'') then None
          else Some \<lparr>sv_created = created, sv_expires = expires, sv_keyid = keyid, sv_nonce = nonce, sv_tag = tag\<rparr>
      | _ \<Rightarrow> None)"

definition hasExpectedIdentityParameters ::
  "base64url \<Rightarrow> signature_parameter_values \<Rightarrow> signature_profile \<Rightarrow> string \<Rightarrow> bool" where
  "hasExpectedIdentityParameters b64 vals profile expectedKeyId \<longleftrightarrow>
     sv_tag vals = profileTag profile \<and>
     (sv_keyid vals = expectedKeyId \<and> hasCanonicalBase64UrlLength b64 (sv_nonce vals) 16)"

definition hasAcceptableTimes :: "signature_parameter_values \<Rightarrow> int \<Rightarrow> bool" where
  "hasAcceptableTimes vals nowSeconds \<longleftrightarrow>
     sv_created vals \<le> sv_expires vals \<and>
     sv_expires vals - sv_created vals \<le> SIGNATURE_INTERVAL_SECONDS \<and>
     sv_created vals \<le> nowSeconds + FUTURE_SKEW_SECONDS \<and>
     sv_expires vals \<ge> nowSeconds"

definition exactParameters ::
  "base64url \<Rightarrow> parsed_signature \<Rightarrow> signature_profile \<Rightarrow> string \<Rightarrow> int \<Rightarrow> verified_http_signature option" where
  "exactParameters b64 parsed profile expectedKeyId nowSeconds =
     (if \<not> hasExactSequence (map fst (ps_parameters parsed)) PARAMETERS then None
      else case readParameterValues (ps_parameters parsed) of
        None \<Rightarrow> None
      | Some vals \<Rightarrow>
          if \<not> hasExpectedIdentityParameters b64 vals profile expectedKeyId \<or> \<not> hasAcceptableTimes vals nowSeconds then None
          else Some \<lparr>vs_nonce = sv_nonce vals, vs_expires = sv_expires vals, vs_verifiedAt = nowSeconds\<rparr>)"

section \<open>The envelope and its verification\<close>

definition serverRequestUrl :: "('u, 'k) signature_library \<Rightarrow> http_request \<Rightarrow> 'u option" where
  "serverRequestUrl lib request =
     (let authority = (case header request ''host'' of None \<Rightarrow> [] | Some h \<Rightarrow> h) in
      if authority = [] then None else sl_url lib (hq_url request) (''http://'' @ authority))"

definition readSignatureEnvelope ::
  "('u, 'k) signature_library \<Rightarrow> http_request \<Rightarrow> byte list \<Rightarrow> (string \<times> string \<times> 'u) option" where
  "readSignatureEnvelope lib request bodyBytes =
     (case (header request ''signature-input'', header request ''signature'', serverRequestUrl lib request) of
        (Some signatureInput, Some signature, Some url) \<Rightarrow>
          if header request ''content-digest'' \<noteq> Some (contentDigest lib bodyBytes) then None
          else Some (signatureInput, signature, url)
      | _ \<Rightarrow> None)"

definition acceptSignatureParameters ::
  "('u, 'k) signature_library \<Rightarrow> parsed_signature \<Rightarrow> signature_profile \<Rightarrow> string \<Rightarrow> int \<Rightarrow>
     router_http_error + string \<times> verified_http_signature" where
  "acceptSignatureParameters lib parsed profile publicKey nowMillis =
     (case sl_thumbprintUri lib publicKey of
        None \<Rightarrow> Inl AuthenticationFailedError
      | Some keyid \<Rightarrow>
          (case exactParameters (sl_base64url lib) parsed profile keyid (nowMillis div 1000) of
             None \<Rightarrow> Inl AuthenticationFailedError
           | Some signature \<Rightarrow> Inr (keyid, signature)))"

definition verifyHttpRequestSignature ::
  "('u, 'k) signature_library \<Rightarrow> http_request \<Rightarrow> byte list \<Rightarrow> string \<Rightarrow> signature_profile \<Rightarrow> int \<Rightarrow>
     router_http_error + verified_http_signature" where
  "verifyHttpRequestSignature lib request bodyBytes publicKey profile nowMillis =
     (case readSignatureEnvelope lib request bodyBytes of
        None \<Rightarrow> Inl AuthenticationFailedError
      | Some (signatureInput, signature, url) \<Rightarrow>
          (case parseExactSignature lib signatureInput signature of
             None \<Rightarrow> Inl AuthenticationFailedError
           | Some parsed \<Rightarrow>
               if \<not> hasExactSequence (ps_fields parsed) (profileFields profile) then Inl AuthenticationFailedError
               else bindE (acceptSignatureParameters lib parsed profile publicKey nowMillis) (\<lambda>(keyid, accepted).
                    case sl_importKey lib publicKey of
                      None \<Rightarrow> Inl AuthenticationFailedError
                    | Some key \<Rightarrow>
                        if sl_verifyMessage lib (profileFields profile) request url keyid key \<noteq> Some True
                        then Inl AuthenticationFailedError else Inr accepted)))"

section \<open>Bootstrap requests\<close>

text \<open>
  \<^verbatim>\<open>verifyBootstrapRequest\<close>: the Registry's admission of the key runs before the signature check and its
  claim of the nonce after it; the live wire version is checked last.
\<close>

definition verifyBootstrapRequest ::
  "identity_environment \<Rightarrow> ('u, 'k) signature_library \<Rightarrow> http_request \<Rightarrow> byte list \<Rightarrow> int \<Rightarrow>
     (json \<Rightarrow> router_http_error + string) \<Rightarrow>
     (verified_http_signature \<Rightarrow> 's \<Rightarrow> (router_http_error + unit) \<times> 's) \<Rightarrow>
     's \<Rightarrow> (router_http_error + json \<times> verified_http_signature) \<times> 's" where
  "verifyBootstrapRequest env lib request bodyBytes nowMillis admitPublicKey claimNonce st =
     (case decodeCanonicalJson env bodyBytes of
        None \<Rightarrow> (Inl MalformedRequestError, st)
      | Some parsedBody \<Rightarrow>
          (case bindE (admitPublicKey parsedBody) (\<lambda>publicKey.
                  verifyHttpRequestSignature lib request bodyBytes publicKey RegistrationProfile nowMillis) of
             Inl e \<Rightarrow> (Inl e, st)
           | Inr signature \<Rightarrow>
               (case claimNonce signature st of
                  (Inl e, st') \<Rightarrow> (Inl e, st')
                | (Inr _, st') \<Rightarrow>
                    (case header request ''sharness-version'' of
                       None \<Rightarrow> (Inl (VersionMismatchError LIVE_WIRE_VERSIONS), st')
                     | Some version \<Rightarrow>
                         if version \<notin> set LIVE_WIRE_VERSIONS then (Inl (VersionMismatchError LIVE_WIRE_VERSIONS), st')
                         else (Inr (parsedBody, signature), st')))))"

section \<open>What a verified signature says\<close>

lemma hasExactSequence_iff: "hasExactSequence xs ys \<longleftrightarrow> xs = ys"
  unfolding hasExactSequence_def
  by (induction xs ys rule: list_induct2') auto

lemma exactParameters_Some:
  assumes "exactParameters b64 parsed profile keyid nowSeconds = Some s"
  obtains vals where "readParameterValues (ps_parameters parsed) = Some vals" and "vs_nonce s = sv_nonce vals"
    and "vs_expires s = sv_expires vals" and "vs_verifiedAt s = nowSeconds" and "nowSeconds \<le> vs_expires s"
    and "vs_expires s \<le> nowSeconds + SIGNATURE_INTERVAL_SECONDS + FUTURE_SKEW_SECONDS"
    and "sv_keyid vals = keyid" and "sv_tag vals = profileTag profile" and "map fst (ps_parameters parsed) = PARAMETERS"
proof -
  obtain vals where "readParameterValues (ps_parameters parsed) = Some vals"
    "hasExpectedIdentityParameters b64 vals profile keyid" "hasAcceptableTimes vals nowSeconds"
    "s = \<lparr>vs_nonce = sv_nonce vals, vs_expires = sv_expires vals, vs_verifiedAt = nowSeconds\<rparr>"
    "map fst (ps_parameters parsed) = PARAMETERS"
    using assms by (auto simp: exactParameters_def hasExactSequence_iff split: if_splits option.splits)
  then show ?thesis using that [of vals] by (auto simp: hasAcceptableTimes_def hasExpectedIdentityParameters_def)
qed

text \<open>
  The request a signature vouches for, at a second of the verifier's clock: the request names its own body's digest; its
  Signature-Input lists exactly the fields and parameters of its profile, the parameters with this nonce and expiry, a
  creation and an expiry that admit the second, and the thumbprint of the key; and the library verified it for the URL
  that the request's own target and host form, under that key.
\<close>

definition coveredFields :: "signature_profile \<Rightarrow> string list" where
  "coveredFields profile = [''@method'', ''@authority'', ''@path'', ''@query'', ''content-digest'', ''content-type'', ''sharness-version''] @
     (case profile of NormalProfile \<Rightarrow> [] | RegistrationProfile \<Rightarrow> [''authorization''])"

definition signatureMember :: "('u, 'k) signature_library \<Rightarrow> string \<Rightarrow> dictionary_member option" where
  "signatureMember lib field = Option.bind (sl_parseDictionary lib field) (\<lambda>d. jmGet d ''sharness'')"

definition signedRequest ::
  "('u, 'k) signature_library \<Rightarrow> signature_profile \<Rightarrow> http_request \<Rightarrow> byte list \<Rightarrow> string \<Rightarrow> int \<Rightarrow> string \<Rightarrow> int \<Rightarrow> bool" where
  "signedRequest lib profile request bodyBytes publicKey second nonce expires \<longleftrightarrow>
     header request ''content-digest'' = Some (contentDigest lib bodyBytes) \<and>
     (\<exists>signatureInput signature host url keyid key created octets.
        header request ''signature-input'' = Some signatureInput \<and> header request ''signature'' = Some signature \<and>
        header request ''host'' = Some host \<and> host \<noteq> [] \<and> sl_url lib (hq_url request) (''http://'' @ host) = Some url \<and>
        sl_thumbprintUri lib publicKey = Some keyid \<and> sl_importKey lib publicKey = Some key \<and>
        sl_verifyMessage lib (coveredFields profile) request url keyid key = Some True \<and>
        signatureMember lib signatureInput = Some (InnerList (map (\<lambda>name. (StringItem name, [])) (coveredFields profile))
          [(''created'', NumberItem (of_int created)), (''expires'', NumberItem (of_int expires)), (''keyid'', StringItem keyid),
           (''nonce'', StringItem nonce), (''alg'', StringItem ''ed25519''), (''tag'', StringItem (profileTag profile))]) \<and>
        signatureMember lib signature = Some (Item (BytesItem octets) []) \<and> length octets = 64 \<and>
        created \<le> expires \<and> expires \<le> created + 300 \<and> created \<le> second + 5 \<and> second \<le> expires)"

lemma coveredFields_profile: "profileFields profile = coveredFields profile"
  by (cases profile) (simp_all add: profileFields_def coveredFields_def NORMAL_FIELDS_def REGISTRATION_FIELDS_def)

lemma coveredNames_Some: "coveredNames entries = Some names \<Longrightarrow> entries = map (\<lambda>name. (StringItem name, [])) names"
  by (induction entries arbitrary: names) (auto split: prod.splits bare_item.splits list.splits)

lemma parseExactSignature_Some:
  assumes "parseExactSignature lib i g = Some parsed"
  shows "signatureMember lib i = Some (InnerList (map (\<lambda>name. (StringItem name, [])) (ps_fields parsed)) (ps_parameters parsed))"
    and "signatureMember lib g = Some (Item (BytesItem (ps_signature parsed)) [])" and "length (ps_signature parsed) = 64"
proof -
  obtain di dg names parameters octets where d: "sl_parseDictionary lib i = Some di" "sl_parseDictionary lib g = Some dg"
    "readCoveredFields (jmGet di SIGNATURE_LABEL) = Some (names, parameters)" "readSignatureBytes (jmGet dg SIGNATURE_LABEL) = Some octets"
    "parsed = \<lparr>ps_fields = names, ps_parameters = parameters, ps_signature = octets\<rparr>"
    using assms by (auto simp: parseExactSignature_def bind_eq_Some_conv split: if_splits)
  have "jmGet di SIGNATURE_LABEL = Some (InnerList (map (\<lambda>name. (StringItem name, [])) names) parameters)"
    using d(3) by (auto simp: readCoveredFields_def dest!: coveredNames_Some split: option.splits dictionary_member.splits)
  then show "signatureMember lib i = Some (InnerList (map (\<lambda>name. (StringItem name, [])) (ps_fields parsed)) (ps_parameters parsed))"
    by (simp add: signatureMember_def d(1,5) SIGNATURE_LABEL_def)
  have "jmGet dg SIGNATURE_LABEL = Some (Item (BytesItem octets) []) \<and> length octets = 64"
    using d(4) by (auto simp: readSignatureBytes_def SIGNATURE_BYTES_def
        split: option.splits dictionary_member.splits bare_item.splits list.splits if_splits)
  then show "signatureMember lib g = Some (Item (BytesItem (ps_signature parsed)) [])" "length (ps_signature parsed) = 64"
    by (simp_all add: signatureMember_def d(2,5) SIGNATURE_LABEL_def)
qed

lemma readParameterValues_list:
  assumes "readParameterValues ps = Some vals" and "map fst ps = PARAMETERS"
  shows "ps = [(''created'', NumberItem (of_int (sv_created vals))), (''expires'', NumberItem (of_int (sv_expires vals))),
    (''keyid'', StringItem (sv_keyid vals)), (''nonce'', StringItem (sv_nonce vals)), (''alg'', StringItem ''ed25519''),
    (''tag'', StringItem (sv_tag vals))]"
proof -
  obtain c e k n a t where ps: "ps = [(''created'', c), (''expires'', e), (''keyid'', k), (''nonce'', n), (''alg'', a), (''tag'', t)]"
    using assms(2) by (auto simp: PARAMETERS_def map_eq_Cons_conv)
  have "readInteger ps ''created'' = Some (sv_created vals)" "readInteger ps ''expires'' = Some (sv_expires vals)"
    "readString ps ''keyid'' = Some (sv_keyid vals)" "readString ps ''nonce'' = Some (sv_nonce vals)"
    "readString ps ''tag'' = Some (sv_tag vals)" "jmGet ps ''alg'' = Some (StringItem ''ed25519'')"
    using assms(1) by (auto simp: readParameterValues_def split: option.splits if_splits)
  then show ?thesis
    by (auto simp: ps readInteger_def readString_def jmGet_def split: bare_item.splits if_splits)
qed

lemma verifyHttpRequestSignature_Inr:
  assumes "verifyHttpRequestSignature lib request bodyBytes publicKey profile nowMillis = Inr s"
  obtains signatureInput signature url parsed keyid key where
    "header request ''signature-input'' = Some signatureInput" and "header request ''signature'' = Some signature"
    and "header request ''content-digest'' = Some (contentDigest lib bodyBytes)"
    and "parseExactSignature lib signatureInput signature = Some parsed" and "ps_fields parsed = profileFields profile"
    and "sl_thumbprintUri lib publicKey = Some keyid"
    and "exactParameters (sl_base64url lib) parsed profile keyid (nowMillis div 1000) = Some s"
    and "sl_importKey lib publicKey = Some key"
    and "sl_verifyMessage lib (profileFields profile) request url keyid key = Some True"
proof -
  obtain signatureInput signature url where e: "readSignatureEnvelope lib request bodyBytes = Some (signatureInput, signature, url)"
    using assms by (auto simp: verifyHttpRequestSignature_def split: option.splits)
  then have h: "header request ''signature-input'' = Some signatureInput" "header request ''signature'' = Some signature"
    "header request ''content-digest'' = Some (contentDigest lib bodyBytes)"
    by (auto simp: readSignatureEnvelope_def split: option.splits if_splits)
  obtain parsed where p: "parseExactSignature lib signatureInput signature = Some parsed" "ps_fields parsed = profileFields profile"
    using assms e by (auto simp: verifyHttpRequestSignature_def hasExactSequence_iff split: option.splits if_splits)
  obtain keyid where a: "acceptSignatureParameters lib parsed profile publicKey nowMillis = Inr (keyid, s)"
    and rest: "(case sl_importKey lib publicKey of None \<Rightarrow> Inl AuthenticationFailedError
       | Some key \<Rightarrow> if sl_verifyMessage lib (profileFields profile) request url keyid key \<noteq> Some True
           then Inl AuthenticationFailedError else Inr s) = (Inr s :: router_http_error + verified_http_signature)"
    using assms e p by (auto simp: verifyHttpRequestSignature_def hasExactSequence_iff resultE_iffs split: option.splits if_splits)
  have "sl_thumbprintUri lib publicKey = Some keyid"
    "exactParameters (sl_base64url lib) parsed profile keyid (nowMillis div 1000) = Some s"
    using a by (auto simp: acceptSignatureParameters_def split: option.splits)
  moreover obtain key where "sl_importKey lib publicKey = Some key"
    "sl_verifyMessage lib (profileFields profile) request url keyid key = Some True"
    using rest by (auto split: option.splits if_splits)
  ultimately show ?thesis using that h p by blast
qed

lemma verified_signed:
  assumes "verifyHttpRequestSignature lib request bodyBytes publicKey profile nowMillis = Inr s"
  shows "signedRequest lib profile request bodyBytes publicKey (nowMillis div 1000) (vs_nonce s) (vs_expires s)"
    and "vs_verifiedAt s = nowMillis div 1000"
proof -
  obtain signatureInput signature url where e: "readSignatureEnvelope lib request bodyBytes = Some (signatureInput, signature, url)"
    using assms by (auto simp: verifyHttpRequestSignature_def split: option.splits)
  then have h: "header request ''signature-input'' = Some signatureInput" "header request ''signature'' = Some signature"
    "header request ''content-digest'' = Some (contentDigest lib bodyBytes)" "serverRequestUrl lib request = Some url"
    by (auto simp: readSignatureEnvelope_def split: option.splits if_splits)
  obtain host where host: "header request ''host'' = Some host" "host \<noteq> []" "sl_url lib (hq_url request) (''http://'' @ host) = Some url"
    using h(4) by (auto simp: serverRequestUrl_def Let_def split: option.splits if_splits)
  obtain parsed keyid key where v: "parseExactSignature lib signatureInput signature = Some parsed" "ps_fields parsed = coveredFields profile"
    "acceptSignatureParameters lib parsed profile publicKey nowMillis = Inr (keyid, s)" "sl_importKey lib publicKey = Some key"
    "sl_verifyMessage lib (coveredFields profile) request url keyid key = Some True"
    using assms e by (auto simp: verifyHttpRequestSignature_def hasExactSequence_iff coveredFields_profile resultE_iffs
        split: option.splits if_splits)
  have a: "sl_thumbprintUri lib publicKey = Some keyid"
    "exactParameters (sl_base64url lib) parsed profile keyid (nowMillis div 1000) = Some s"
    using v(3) by (auto simp: acceptSignatureParameters_def split: option.splits)
  obtain vals where x: "readParameterValues (ps_parameters parsed) = Some vals" "map fst (ps_parameters parsed) = PARAMETERS"
    "hasExpectedIdentityParameters (sl_base64url lib) vals profile keyid" "hasAcceptableTimes vals (nowMillis div 1000)"
    "s = \<lparr>vs_nonce = sv_nonce vals, vs_expires = sv_expires vals, vs_verifiedAt = nowMillis div 1000\<rparr>"
    using a(2) by (auto simp: exactParameters_def hasExactSequence_iff split: if_splits option.splits)
  then show "vs_verifiedAt s = nowMillis div 1000" by simp
  have values': "sv_keyid vals = keyid" "sv_tag vals = profileTag profile" using x(3) by (simp_all add: hasExpectedIdentityParameters_def)
  have times: "sv_created vals \<le> sv_expires vals" "sv_expires vals \<le> sv_created vals + 300" "sv_created vals \<le> nowMillis div 1000 + 5"
    "nowMillis div 1000 \<le> sv_expires vals"
    using x(4) by (simp_all add: hasAcceptableTimes_def SIGNATURE_INTERVAL_SECONDS_def FUTURE_SKEW_SECONDS_def)
  note members = parseExactSignature_Some [OF v(1), unfolded v(2) readParameterValues_list [OF x(1,2)] values']
  show "signedRequest lib profile request bodyBytes publicKey (nowMillis div 1000) (vs_nonce s) (vs_expires s)"
    unfolding signedRequest_def
    by (intro conjI exI) (use h host v a x(5) members times in simp_all)
qed

text \<open>The replay material is a function of the two signature headers; only the second of verification is new.\<close>

lemma verified_replay_material:
  assumes "verifyHttpRequestSignature lib request bodyBytes publicKey profile now = Inr s"
    and "verifyHttpRequestSignature lib request' bodyBytes' publicKey' profile' now' = Inr s'"
    and "header request ''signature-input'' = header request' ''signature-input''"
  shows "vs_nonce s = vs_nonce s'" and "vs_expires s = vs_expires s'"
proof -
  obtain i g parsed keyid where 1: "header request ''signature-input'' = Some i" "parseExactSignature lib i g = Some parsed"
    "exactParameters (sl_base64url lib) parsed profile keyid (now div 1000) = Some s"
    by (rule verifyHttpRequestSignature_Inr [OF assms(1)]) blast
  obtain i' g' parsed' keyid' where 2: "header request' ''signature-input'' = Some i'" "parseExactSignature lib i' g' = Some parsed'"
    "exactParameters (sl_base64url lib) parsed' profile' keyid' (now' div 1000) = Some s'"
    by (rule verifyHttpRequestSignature_Inr [OF assms(2)]) blast
  have i: "i' = i" using 1(1) 2(1) assms(3) by simp
  have "ps_parameters parsed = ps_parameters parsed'"
    using 1(2) 2(2) unfolding i by (auto simp: parseExactSignature_def bind_eq_Some_conv split: if_splits)
  then show "vs_nonce s = vs_nonce s'" "vs_expires s = vs_expires s'"
    using exactParameters_Some [OF 1(3)] exactParameters_Some [OF 2(3)] by (metis option.inject)+
qed

end
