(* ===== verification/Http_Sample.thy ===== *)
theory Http_Sample
  imports Http_Signature
begin

text \<open>
  A concrete signed request for each profile, for the witnesses: the structured fields are read off the two
  texts \<^verbatim>\<open>i\<close> and \<^verbatim>\<open>s\<close>, and the library accepts the signature.
\<close>

definition sampleParameters :: "signature_profile \<Rightarrow> item_parameters" where
  "sampleParameters profile = [(''created'', NumberItem 0), (''expires'', NumberItem 300), (''keyid'', StringItem ''kid''),
     (''nonce'', StringItem ''AAAAAAAAAAAAAAAAAAAAAA''), (''alg'', StringItem ''ed25519''), (''tag'', StringItem (profileTag profile))]"

definition sampleLibrary :: "signature_profile \<Rightarrow> (unit, unit) signature_library" where
  "sampleLibrary profile = \<lparr>sl_base64url = rfc4648, sl_sha256 = (\<lambda>_. replicate 32 0),
     sl_parseDictionary = (\<lambda>t. Some [(''sharness'', if t = ''i''
        then InnerList (map (\<lambda>f. (StringItem f, [])) (profileFields profile)) (sampleParameters profile)
        else Item (BytesItem (replicate 64 0)) [])]),
     sl_serializeDictionary = (\<lambda>d. case d of [(_, InnerList _ _)] \<Rightarrow> Some ''i'' | _ \<Rightarrow> Some ''s''),
     sl_url = (\<lambda>_ _. Some ()), sl_verifyMessage = (\<lambda>_ _ _ _ _. Some True),
     sl_thumbprintUri = (\<lambda>_. Some ''kid''), sl_importKey = (\<lambda>_. Some ())\<rparr>"

definition sampleHttpRequest :: "signature_profile \<Rightarrow> http_request" where
  "sampleHttpRequest profile = \<lparr>hq_method = ''POST'', hq_url = ''/v1'',
     hq_headers = [(''host'', ''service''), (''signature-input'', ''i''), (''signature'', ''s''),
       (''content-digest'', contentDigest (sampleLibrary profile) (utf8Bytes ''b'')), (''authorization'', ''Sharness-Admission secret-1''),
       (''sharness-version'', WIRE_VERSION)]\<rparr>"

lemma sampleHttpRequest_headers:
  "header (sampleHttpRequest profile) ''host'' = Some ''service''" "header (sampleHttpRequest profile) ''signature-input'' = Some ''i''"
  "header (sampleHttpRequest profile) ''signature'' = Some ''s''"
  "header (sampleHttpRequest profile) ''content-digest'' = Some (contentDigest (sampleLibrary profile) (utf8Bytes ''b''))"
  "header (sampleHttpRequest profile) ''authorization'' = Some ''Sharness-Admission secret-1''"
  "header (sampleHttpRequest profile) ''sharness-version'' = Some WIRE_VERSION"
  by (simp_all add: header_def sampleHttpRequest_def jmGet_def)

abbreviation sampleReplayMaterial :: verified_http_signature where
  "sampleReplayMaterial \<equiv> \<lparr>vs_nonce = ''AAAAAAAAAAAAAAAAAAAAAA'', vs_expires = 300, vs_verifiedAt = 1\<rparr>"

lemma sample_nonce: "hasCanonicalBase64UrlLength rfc4648 ''AAAAAAAAAAAAAAAAAAAAAA'' 16"
  by code_simp

lemma sample_agentId: "isAgentId rfc4648 ''agt_AAAAAAAAAAAAAAAAAAAAAA''"
proof -
  have "CHR ''A'' \<in> set (finalCharacters rfc4648 2)"
    unfolding finalCharacters_def by (auto simp: rfc4648_def rfcEncode_zero intro!: bexI [of _ 0])
  then show ?thesis by (simp add: isAgentId_def canonicalIdentifier_def startsWith_def inCharRange_def Let_def)
qed

lemma sample_verifies:
  "verifyHttpRequestSignature (sampleLibrary profile) (sampleHttpRequest profile) (utf8Bytes ''b'') k profile 1000 = Inr sampleReplayMaterial"
proof -
  let ?lib = "sampleLibrary profile"
  let ?parsed = "\<lparr>ps_fields = profileFields profile, ps_parameters = sampleParameters profile, ps_signature = replicate 64 0\<rparr>"
  have sig: "hasCanonicalEd25519SignatureEncoding (replicate 64 0)" by code_simp
  have covered: "coveredNames (map (\<lambda>f. (StringItem f, [])) fs) = Some fs" for fs by (induction fs) simp_all
  have p: "readParameterValues (sampleParameters profile) = Some \<lparr>sv_created = 0, sv_expires = 300, sv_keyid = ''kid'',
      sv_nonce = ''AAAAAAAAAAAAAAAAAAAAAA'', sv_tag = profileTag profile\<rparr>"
    by (simp add: readParameterValues_def readInteger_def readString_def sampleParameters_def jmGet_def isSafeInteger_def)
  have u: "sl_url ?lib t base = Some ()" for t base by (simp add: sampleLibrary_def)
  have e: "readSignatureEnvelope ?lib (sampleHttpRequest profile) (utf8Bytes ''b'') = Some (''i'', ''s'', ())"
    using u by (simp add: readSignatureEnvelope_def serverRequestUrl_def Let_def sampleHttpRequest_headers)
  have x: "parseExactSignature ?lib ''i'' ''s'' = Some ?parsed"
    by (simp add: parseExactSignature_def sampleLibrary_def isExactSignatureDictionary_def SIGNATURE_LABEL_def jmGet_def
        readCoveredFields_def covered readSignatureBytes_def SIGNATURE_BYTES_def sig)
  have "map fst (sampleParameters profile) = PARAMETERS" by (simp add: sampleParameters_def PARAMETERS_def)
  then have "exactParameters rfc4648 ?parsed profile ''kid'' 1 = Some sampleReplayMaterial"
    by (simp add: exactParameters_def hasExactSequence_iff p hasExpectedIdentityParameters_def sample_nonce
        hasAcceptableTimes_def SIGNATURE_INTERVAL_SECONDS_def FUTURE_SKEW_SECONDS_def)
  moreover have l: "sl_thumbprintUri ?lib k = Some ''kid''" "sl_base64url ?lib = rfc4648" "sl_importKey ?lib k = Some ()"
    "sl_verifyMessage ?lib fs r w i j = Some True" for fs r w i j
    by (simp_all add: sampleLibrary_def)
  ultimately show ?thesis
    by (simp add: verifyHttpRequestSignature_def e x hasExactSequence_iff acceptSignatureParameters_def)
qed

end
