(* ===== verification/Nonce_Store.thy ===== *)
theory Nonce_Store
  imports Prelude
begin

text \<open>
  Replay defence.  The Registry keeps the nonces of bootstrap requests in a table, the Router keeps those
  of agent requests in memory; both promise the same: a nonce that was claimed is refused until the
  signature it came with expires.  The promise is the locale \<open>nonce_store\<close>.
\<close>

record nonce_claim =
  nc_nonce :: string
  nc_expires :: int
  nc_now :: int
  nc_capacity :: nat

datatype claim_result = Claimed | Replayed | Full

locale nonce_store =
  fixes claim :: "nonce_claim \<Rightarrow> 's \<Rightarrow> claim_result \<times> 's"
    and live :: "'s \<Rightarrow> string \<Rightarrow> int \<Rightarrow> bool"
    and retained :: "'s \<Rightarrow> nat"
  assumes claimed_live: "claim c s = (Claimed, s') \<Longrightarrow> live s' (nc_nonce c) (nc_expires c)"
    and live_kept: "live s n e \<Longrightarrow> nc_now c \<le> e \<Longrightarrow> live (snd (claim c s)) n e"
    and live_replayed: "live s n e \<Longrightarrow> nc_now c \<le> e \<Longrightarrow> nc_nonce c = n \<Longrightarrow> fst (claim c s) = Replayed"
    and claimed_bounded: "claim c s = (Claimed, s') \<Longrightarrow> retained s' \<le> nc_capacity c"
    and refused_shrinks: "fst (claim c s) \<noteq> Claimed \<Longrightarrow> retained (snd (claim c s)) \<le> retained s"
begin

definition claims :: "nonce_claim list \<Rightarrow> 's \<Rightarrow> 's" where
  "claims cs s = fold (\<lambda>c s. snd (claim c s)) cs s"

lemma claims_simps: "claims [] s = s" "claims (c # cs) s = claims cs (snd (claim c s))"
  by (simp_all add: claims_def)

lemma live_claims: "live s n e \<Longrightarrow> list_all (\<lambda>c. nc_now c \<le> e) cs \<Longrightarrow> live (claims cs s) n e"
  by (induction cs arbitrary: s) (simp_all add: claims_simps live_kept)

text \<open>No nonce is claimed twice before its expiry, whatever is claimed in between.\<close>

lemma claimed_once:
  assumes "claim c s = (Claimed, s')" and "list_all (\<lambda>c'. nc_now c' \<le> nc_expires c) cs"
    and "nc_nonce d = nc_nonce c" and "nc_now d \<le> nc_expires c"
  shows "fst (claim d (claims cs s')) = Replayed"
  using live_replayed [OF live_claims [OF claimed_live [OF assms(1)] assms(2)] assms(4,3)] .

lemma claims_bounded:
  "retained s \<le> k \<Longrightarrow> list_all (\<lambda>c. nc_capacity c \<le> k) cs \<Longrightarrow> retained (claims cs s) \<le> k"
proof (induction cs arbitrary: s)
  case (Cons c cs)
  have "retained (snd (claim c s)) \<le> k"
    using Cons.prems claimed_bounded [of c s "snd (claim c s)"] refused_shrinks [of c s]
    by (cases "claim c s") force
  then show ?case using Cons by (simp add: claims_simps)
qed (simp add: claims_simps)

end

end
