(* ===== verification/Registry_Storage.thy ===== *)
theory Registry_Storage
  imports Agent_Card Nonce_Store
begin

text \<open>
  The Registry's durable state, \<^verbatim>\<open>packages/registry/src/storage.ts\<close> and \<^verbatim>\<open>issuance.ts\<close>, over the tables
  of \<^verbatim>\<open>migrations/0001_registry.ts\<close> and the codecs of \<^verbatim>\<open>packages/identity/src/registry/contract.ts\<close>.

  A table is the list of its rows in the order of insertion; a statement is the relational operation
  it writes, and an insertion that breaks a declared key or uniqueness constraint fails.  An
  operation runs in one transaction, which takes the state and returns the state it commits; a failure
  rolls back.  The operation deadline and a lost connection only replace the answer by \<open>Unavailable\<close>:
  the steps of \<^verbatim>\<open>Registry_Facts\<close> let every operation take effect or not, whatever it answered.
  Randomness and the clock are arguments; \<^verbatim>\<open>jose\<close>'s \<^verbatim>\<open>GeneralSign\<close> with the Registry's private key is a
  parameter, and so is the migration runner of \<^verbatim>\<open>@effect/sql\<close>.
\<close>

section \<open>Tables\<close>

record agent_row =
  ar_agent_id :: agent_id
  ar_agent_id_bytes :: "byte list"
  ar_principal_id :: string
  ar_agent_name :: string
  ar_public_key_thumbprint :: string
  ar_agent_card_bytes :: "byte list"

record operation_row =
  or_public_key_thumbprint :: string
  or_operation_id :: string
  or_request_bytes :: "byte list"
  or_result_bytes :: "byte list"

record nonce_row =
  nr_nonce :: string
  nr_expires_at :: int

record registry_db =
  rd_metadata :: "string option"
  rd_agents :: "agent_row list"
  rd_operations :: "operation_row list"
  rd_nonces :: "nonce_row list"
  rd_ledger :: "nat list"
  rd_relations :: "string list"

text \<open>The errors inside an operation, and those a caller sees.\<close>

datatype storage_failure = SqlFailure | InternalFailure

datatype storage_error = StorageUnavailableError | StorageInternalError

datatype initialization_reason = PreReset | NewerSchema | SignerMismatch | StorageUnavailable

type_synonym 'a transaction = "registry_db \<Rightarrow> storage_failure + 'a \<times> registry_db"

text \<open>A transaction commits what it returns or leaves the state as it was.\<close>

definition withTransaction :: "'a transaction \<Rightarrow> registry_db \<Rightarrow> (storage_failure + 'a) \<times> registry_db" where
  "withTransaction t db = (case t db of Inl e \<Rightarrow> (Inl e, db) | Inr (a, db') \<Rightarrow> (Inr a, db'))"

definition withStorageDeadline :: "storage_failure + 'a \<Rightarrow> storage_error + 'a" where
  "withStorageDeadline r =
     (case r of Inl SqlFailure \<Rightarrow> Inl StorageUnavailableError | Inl InternalFailure \<Rightarrow> Inl StorageInternalError | Inr a \<Rightarrow> Inr a)"

definition internalFailure :: "'a option \<Rightarrow> storage_failure + 'a" where
  "internalFailure = ofOption InternalFailure"

section \<open>Requests, results and their codecs\<close>

record register_request =
  rr_operationId :: string
  rr_principalId :: string
  rr_agentName :: string
  rr_publicKey :: string

datatype lookup_request = ByAgentId agent_id | ByAgentName string

record list_request =
  lr_afterAgentId :: "agent_id option"

datatype register_result = Registered agent_card | NameTaken | KeyAlreadyRegistered | IdempotencyConflict

datatype lookup_result = Found agent_card | NotFound

record list_result =
  lp_agentCards :: "agent_card list"
  lp_hasMore :: bool

record 'k registry_environment =
  re_identity :: identity_environment
  re_sha256 :: "byte list \<Rightarrow> byte list"
  re_jose :: "'k jose_verifier"
  re_generalSign :: "byte list \<Rightarrow> json \<Rightarrow> json option"
  re_authorityPublicKey :: string

record storage_input =
  si_registrySignerPublicKey :: string
  si_listPageSize :: nat

definition encodeCardView :: "agent_card \<Rightarrow> json" where
  "encodeCardView agentCard = generalJwsJson (ac_representation agentCard)"

definition encodeRegistryAgentCard :: "identity_environment \<Rightarrow> agent_card \<Rightarrow> byte list option" where
  "encodeRegistryAgentCard env agentCard = encodeCanonicalJson (ie_canonicalize env) (encodeCardView agentCard)"

definition decodeRegistryAgentCard ::
  "identity_environment \<Rightarrow> (byte list \<Rightarrow> byte list) \<Rightarrow> byte list \<Rightarrow> agent_card option" where
  "decodeRegistryAgentCard env sha256 bytes =
     Option.bind (decodeCanonicalJson env bytes) (decodeAgentCard env sha256)"

definition registerResponseJson :: "register_result \<Rightarrow> json" where
  "registerResponseJson result =
     (case result of
        Registered agentCard \<Rightarrow> JObj [(''agentCard'', encodeCardView agentCard), (''kind'', JStr ''registered'')]
      | NameTaken \<Rightarrow> JObj [(''kind'', JStr ''name_taken'')]
      | KeyAlreadyRegistered \<Rightarrow> JObj [(''kind'', JStr ''key_already_registered'')]
      | IdempotencyConflict \<Rightarrow> JObj [(''kind'', JStr ''idempotency_conflict'')])"

definition decodeRegisterResponse ::
  "identity_environment \<Rightarrow> (byte list \<Rightarrow> byte list) \<Rightarrow> json \<Rightarrow> register_result option" where
  "decodeRegisterResponse env sha256 value =
     (case closedObject [''kind'', ''agentCard''] value of
        Some ms \<Rightarrow>
          if ms ! 0 = JStr ''registered'' then map_option Registered (decodeAgentCard env sha256 (ms ! 1)) else None
      | None \<Rightarrow>
          (case closedObject [''kind''] value of
             Some [JStr kind] \<Rightarrow>
               if kind = ''name_taken'' then Some NameTaken
               else if kind = ''key_already_registered'' then Some KeyAlreadyRegistered
               else if kind = ''idempotency_conflict'' then Some IdempotencyConflict
               else None
           | _ \<Rightarrow> None))"

definition decodeStoredCard ::
  "'k registry_environment \<Rightarrow> byte list \<Rightarrow> string \<Rightarrow> storage_failure + agent_card" where
  "decodeStoredCard env bytes registrySignerPublicKey =
     internalFailure
       (Option.bind (decodeRegistryAgentCard (re_identity env) (re_sha256 env) bytes) (\<lambda>agentCard.
          if verifyAgentCard (re_jose env) agentCard registrySignerPublicKey then Some agentCard else None))"

definition encodeResult :: "'k registry_environment \<Rightarrow> register_result \<Rightarrow> storage_failure + byte list" where
  "encodeResult env result =
     internalFailure (encodeCanonicalJson (ie_canonicalize (re_identity env)) (registerResponseJson result))"

definition decodeResult ::
  "'k registry_environment \<Rightarrow> byte list \<Rightarrow> string \<Rightarrow> storage_failure + register_result" where
  "decodeResult env bytes registrySignerPublicKey =
     internalFailure
       (Option.bind (decodeCanonicalJson (re_identity env) bytes) (\<lambda>value.
        Option.bind (decodeRegisterResponse (re_identity env) (re_sha256 env) value) (\<lambda>result.
          case result of
            Registered agentCard \<Rightarrow>
              if verifyAgentCard (re_jose env) agentCard registrySignerPublicKey then Some (Registered agentCard) else None
          | _ \<Rightarrow> Some result)))"

definition sameBytes :: "byte list \<Rightarrow> byte list \<Rightarrow> bool" where
  "sameBytes left right \<longleftrightarrow>
     list_all (\<lambda>i. i < length right \<and> left ! i = right ! i) [0..<length left] \<and>
     list_all (\<lambda>i. i < length left \<and> right ! i = left ! i) [0..<length right]"

section \<open>Issuance\<close>

text \<open>
  \<^verbatim>\<open>new Date(milliseconds).toISOString()\<close> for a whole second: the proleptic Gregorian date of a day
  counted from 1970-01-01, by the eras of 400 years that begin on 1 March.
\<close>

definition civilOfDays :: "int \<Rightarrow> int \<times> int \<times> int" where
  "civilOfDays days =
     (let z = days + 719468; era = z div 146097; doe = z mod 146097;
          yoe = (doe - doe div 1460 + doe div 36524 - doe div 146096) div 365;
          doy = doe - (365 * yoe + yoe div 4 - yoe div 100);
          mp = (5 * doy + 2) div 153;
          month = (if mp < 10 then mp + 3 else mp - 9);
          year = yoe + era * 400 + (if month \<le> 2 then 1 else 0)
      in (year, month, doy - (153 * mp + 2) div 5 + 1))"

fun padded :: "nat \<Rightarrow> nat \<Rightarrow> string" where
  "padded 0 n = []"
| "padded (Suc w) n = padded w (n div 10) @ [digitChar (n mod 10)]"

definition yearText :: "int \<Rightarrow> string" where
  "yearText year =
     (if 0 \<le> year \<and> year \<le> 9999 then padded 4 (nat year)
      else (if year < 0 then ''-'' else ''+'') @ padded 6 (nat \<bar>year\<bar>))"

definition wholeSecondText :: "int \<Rightarrow> string" where
  "wholeSecondText seconds =
     (let (year, month, day) = civilOfDays (seconds div 86400); s = nat (seconds mod 86400)
      in yearText year @ ''-'' @ padded 2 (nat month) @ ''-'' @ padded 2 (nat day) @ ''T'' @
         padded 2 (s div 3600) @ '':'' @ padded 2 (s div 60 mod 60) @ '':'' @ padded 2 (s mod 60) @ ''Z'')"

definition issueTime :: "int \<Rightarrow> storage_failure + string" where
  "issueTime milliseconds =
     (let text = wholeSecondText (milliseconds div 1000) in
      internalFailure (if isIssuedAt text then Some text else None))"

definition cardClaimsJson :: "string \<Rightarrow> agent_id \<Rightarrow> string \<Rightarrow> string \<Rightarrow> string \<Rightarrow> string \<Rightarrow> json" where
  "cardClaimsJson version agentId principalId agentName publicKey issuedAt =
     JObj [(''kind'', JStr ''agentCard''), (''sharnessVersion'', JStr version), (''agentId'', JStr agentId),
           (''principalId'', JStr principalId), (''agentName'', JStr agentName),
           (''publicKey'', JObj [(''crv'', JStr ''Ed25519''), (''kty'', JStr ''OKP''), (''x'', JStr publicKey)]),
           (''issuedAt'', JStr issuedAt)]"

definition cardHeaderJson :: "string \<Rightarrow> json" where
  "cardHeaderJson kid = JObj [(''alg'', JStr ''Ed25519''), (''kid'', JStr kid), (''typ'', JStr AGENT_CARD_TYPE)]"

definition signCardPayload :: "'k registry_environment \<Rightarrow> json \<Rightarrow> agent_card option" where
  "signCardPayload env payload =
     Option.bind (encodeCanonicalJson (ie_canonicalize (re_identity env)) payload) (\<lambda>bytes.
     Option.bind (jv_thumbprintUri (re_jose env) (re_authorityPublicKey env)) (\<lambda>kid.
     Option.bind (re_generalSign env bytes (cardHeaderJson kid)) (\<lambda>representation.
       decodeAgentCard (re_identity env) (re_sha256 env) representation)))"

definition issueAgentCard ::
  "'k registry_environment \<Rightarrow> agent_id \<Rightarrow> register_request \<Rightarrow> string \<Rightarrow> agent_card option" where
  "issueAgentCard env agentId request issuedAt =
     Option.bind (signCardPayload env
       (cardClaimsJson WIRE_VERSION agentId (rr_principalId request) (rr_agentName request)
          (rr_publicKey request) issuedAt)) (\<lambda>agentCard.
       if verifyAgentCard (re_jose env) agentCard (re_authorityPublicKey env) then Some agentCard else None)"

section \<open>Statements\<close>

definition AGENT_ID_MINT_ATTEMPTS :: nat where
  "AGENT_ID_MINT_ATTEMPTS = 8"

definition mintAgentId :: "base64url \<Rightarrow> byte list \<Rightarrow> storage_failure + agent_id" where
  "mintAgentId b64 random =
     (let candidate = ''agt_'' @ b64_encode b64 random in
      internalFailure (if isAgentId b64 candidate then Some candidate else None))"

definition retainedCount :: "'r list \<Rightarrow> nat" where
  "retainedCount rows = length rows"

function mintUnusedFrom ::
  "base64url \<Rightarrow> (nat \<Rightarrow> byte list) \<Rightarrow> registry_db \<Rightarrow> nat \<Rightarrow> storage_failure + agent_id" where
  "mintUnusedFrom b64 randomBytes db attempt =
     (if attempt < AGENT_ID_MINT_ATTEMPTS
      then bindE (mintAgentId b64 (randomBytes attempt)) (\<lambda>candidate.
             if retainedCount (filter (\<lambda>r. ar_agent_id r = candidate) (rd_agents db)) = 0 then Inr candidate
             else mintUnusedFrom b64 randomBytes db (attempt + 1))
      else Inl InternalFailure)"
  by pat_completeness auto
termination
  by (relation "measure (\<lambda>(_, _, _, attempt). AGENT_ID_MINT_ATTEMPTS - attempt)") auto

declare mintUnusedFrom.simps [simp del]

definition mintUnusedAgentId ::
  "base64url \<Rightarrow> (nat \<Rightarrow> byte list) \<Rightarrow> registry_db \<Rightarrow> storage_failure + agent_id" where
  "mintUnusedAgentId b64 randomBytes db = mintUnusedFrom b64 randomBytes db 0"

definition registryAgentIdBytes :: "base64url \<Rightarrow> agent_id \<Rightarrow> storage_failure + byte list" where
  "registryAgentIdBytes b64 agentId = internalFailure (b64_decode b64 (drop 4 agentId))"

definition insertAgentRow :: "agent_row \<Rightarrow> unit transaction" where
  "insertAgentRow row db =
     (if list_ex (\<lambda>r. ar_agent_id r = ar_agent_id row \<or> ar_agent_id_bytes r = ar_agent_id_bytes row \<or>
            ar_agent_name r = ar_agent_name row \<or> ar_public_key_thumbprint r = ar_public_key_thumbprint row)
          (rd_agents db)
      then Inl SqlFailure else Inr ((), db\<lparr>rd_agents := rd_agents db @ [row]\<rparr>))"

definition keyIsRegistered :: "registry_db \<Rightarrow> string \<Rightarrow> bool" where
  "keyIsRegistered db thumbprint \<longleftrightarrow>
     retainedCount (filter (\<lambda>r. ar_public_key_thumbprint r = thumbprint) (rd_agents db)) > 0"

definition nameIsRegistered :: "registry_db \<Rightarrow> string \<Rightarrow> bool" where
  "nameIsRegistered db agentName \<longleftrightarrow>
     retainedCount (filter (\<lambda>r. ar_agent_name r = agentName) (rd_agents db)) > 0"

definition findStoredOperation :: "registry_db \<Rightarrow> string \<Rightarrow> string \<Rightarrow> operation_row option" where
  "findStoredOperation db keyThumbprint operationId =
     (case filter (\<lambda>r. or_public_key_thumbprint r = keyThumbprint \<and> or_operation_id r = operationId) (rd_operations db) of
        [] \<Rightarrow> None | r # _ \<Rightarrow> Some r)"

definition recordOperation :: "operation_row \<Rightarrow> unit transaction" where
  "recordOperation row db =
     (if list_ex (\<lambda>r. or_public_key_thumbprint r = or_public_key_thumbprint row \<and>
            or_operation_id r = or_operation_id row) (rd_operations db)
      then Inl SqlFailure else Inr ((), db\<lparr>rd_operations := rd_operations db @ [row]\<rparr>))"

section \<open>Registration\<close>

record register_call =
  rc_request :: register_request
  rc_requestBytes :: "byte list"
  rc_randomBytes :: "nat \<Rightarrow> byte list"
  rc_currentTimeMillis :: int

definition insertNewAgent ::
  "'k registry_environment \<Rightarrow> register_call \<Rightarrow> string \<Rightarrow> register_result transaction" where
  "insertNewAgent env call keyThumbprint db =
     (let b64 = ie_base64url (re_identity env); request = rc_request call in
      bindE (mintUnusedAgentId b64 (rc_randomBytes call) db) (\<lambda>agentId.
      bindE (issueTime (rc_currentTimeMillis call)) (\<lambda>issuedAt.
      bindE (internalFailure (issueAgentCard env agentId request issuedAt)) (\<lambda>agentCard.
      bindE (internalFailure (encodeRegistryAgentCard (re_identity env) agentCard)) (\<lambda>agentCardBytes.
      bindE (registryAgentIdBytes b64 agentId) (\<lambda>agentIdBytes.
      bindE (insertAgentRow \<lparr>ar_agent_id = agentId, ar_agent_id_bytes = agentIdBytes,
               ar_principal_id = rr_principalId request, ar_agent_name = rr_agentName request,
               ar_public_key_thumbprint = keyThumbprint, ar_agent_card_bytes = agentCardBytes\<rparr> db) (\<lambda>(_, db').
        Inr (Registered agentCard, db'))))))))"

definition decideRegistration ::
  "'k registry_environment \<Rightarrow> register_call \<Rightarrow> string \<Rightarrow> register_result transaction" where
  "decideRegistration env call keyThumbprint db =
     (if keyIsRegistered db keyThumbprint then Inr (KeyAlreadyRegistered, db)
      else if nameIsRegistered db (rr_agentName (rc_request call)) then Inr (NameTaken, db)
      else insertNewAgent env call keyThumbprint db)"

definition registerTransaction ::
  "'k registry_environment \<Rightarrow> storage_input \<Rightarrow> register_call \<Rightarrow> string \<Rightarrow> register_result transaction" where
  "registerTransaction env input call keyThumbprint db =
     (case findStoredOperation db keyThumbprint (rr_operationId (rc_request call)) of
        Some previous \<Rightarrow>
          if sameBytes (or_request_bytes previous) (rc_requestBytes call)
          then mapE (\<lambda>result. (result, db)) (decodeResult env (or_result_bytes previous) (si_registrySignerPublicKey input))
          else Inr (IdempotencyConflict, db)
      | None \<Rightarrow>
          bindE (decideRegistration env call keyThumbprint db) (\<lambda>(result, db1).
          bindE (encodeResult env result) (\<lambda>resultBytes.
          bindE (recordOperation \<lparr>or_public_key_thumbprint = keyThumbprint,
                   or_operation_id = rr_operationId (rc_request call), or_request_bytes = rc_requestBytes call,
                   or_result_bytes = resultBytes\<rparr> db1) (\<lambda>(_, db2).
            Inr (result, db2)))))"

definition registryRegister ::
  "'k registry_environment \<Rightarrow> storage_input \<Rightarrow> register_call \<Rightarrow> registry_db \<Rightarrow>
     (storage_error + register_result) \<times> registry_db" where
  "registryRegister env input call db =
     (case internalFailure (jv_thumbprintUri (re_jose env) (rr_publicKey (rc_request call))) of
        Inl e \<Rightarrow> (withStorageDeadline (Inl e), db)
      | Inr thumbprint \<Rightarrow>
          (let (answer, db') = withTransaction (registerTransaction env input call thumbprint) db
           in (withStorageDeadline answer, db')))"

text \<open>The handler of the private RPC, which derives the bytes of the request that idempotency compares.\<close>

definition registerRequestJson :: "register_request \<Rightarrow> json" where
  "registerRequestJson request =
     JObj [(''operationId'', JStr (rr_operationId request)), (''principalId'', JStr (rr_principalId request)),
           (''agentName'', JStr (rr_agentName request)),
           (''publicKey'', JObj [(''crv'', JStr ''Ed25519''), (''kty'', JStr ''OKP''), (''x'', JStr (rr_publicKey request))])]"

definition canonicalRegisterRequest :: "'k registry_environment \<Rightarrow> register_request \<Rightarrow> storage_error + byte list" where
  "canonicalRegisterRequest env request =
     ofOption StorageInternalError (encodeCanonicalJson (ie_canonicalize (re_identity env)) (registerRequestJson request))"

definition registerHandler ::
  "'k registry_environment \<Rightarrow> storage_input \<Rightarrow> register_request \<Rightarrow> (nat \<Rightarrow> byte list) \<Rightarrow> int \<Rightarrow> registry_db \<Rightarrow>
     (storage_error + register_result) \<times> registry_db" where
  "registerHandler env input request randomBytes now db =
     (case canonicalRegisterRequest env request of
        Inl e \<Rightarrow> (Inl e, db)
      | Inr requestBytes \<Rightarrow>
          registryRegister env input \<lparr>rc_request = request, rc_requestBytes = requestBytes,
            rc_randomBytes = randomBytes, rc_currentTimeMillis = now\<rparr> db)"

section \<open>Replay nonces\<close>

definition claimNonceTransaction :: "nonce_claim \<Rightarrow> claim_result transaction" where
  "claimNonceTransaction claim db =
     (let db1 = db\<lparr>rd_nonces := filter (\<lambda>r. \<not> nr_expires_at r < nc_now claim) (rd_nonces db)\<rparr> in
      if retainedCount (filter (\<lambda>r. nr_nonce r = nc_nonce claim) (rd_nonces db1)) \<noteq> 0 then Inr (Replayed, db1)
      else if retainedCount (rd_nonces db1) \<ge> nc_capacity claim then Inr (Full, db1)
      else Inr (Claimed, db1\<lparr>rd_nonces := rd_nonces db1 @ [\<lparr>nr_nonce = nc_nonce claim, nr_expires_at = nc_expires claim\<rparr>]\<rparr>))"

definition claimRegistrationNonce ::
  "nonce_claim \<Rightarrow> registry_db \<Rightarrow> (storage_error + claim_result) \<times> registry_db" where
  "claimRegistrationNonce claim db =
     (let (answer, db') = withTransaction (claimNonceTransaction claim) db in (withStorageDeadline answer, db'))"

section \<open>Reads\<close>

definition findCardRows :: "registry_db \<Rightarrow> lookup_request \<Rightarrow> byte list list" where
  "findCardRows db request =
     map ar_agent_card_bytes
       (filter (\<lambda>r. case request of ByAgentId agentId \<Rightarrow> ar_agent_id r = agentId | ByAgentName name \<Rightarrow> ar_agent_name r = name)
         (rd_agents db))"

definition registryLookup ::
  "'k registry_environment \<Rightarrow> storage_input \<Rightarrow> lookup_request \<Rightarrow> registry_db \<Rightarrow> storage_error + lookup_result" where
  "registryLookup env input request db =
     withStorageDeadline
       (case findCardRows db request of
          [] \<Rightarrow> Inr NotFound
        | cardRow # others \<Rightarrow>
            if others \<noteq> [] then Inl InternalFailure
            else mapE Found (decodeStoredCard env cardRow (si_registrySignerPublicKey input)))"

definition readListRows :: "storage_input \<Rightarrow> byte list option \<Rightarrow> registry_db \<Rightarrow> byte list list" where
  "readListRows input afterBytes db =
     (let maximumRows = si_listPageSize input + 1;
          selected = (case afterBytes of
             None \<Rightarrow> rd_agents db
           | Some bytes \<Rightarrow> filter (\<lambda>r. ar_agent_id_bytes r > bytes) (rd_agents db))
      in map ar_agent_card_bytes (take maximumRows (sort_key ar_agent_id_bytes selected)))"

definition registryList ::
  "'k registry_environment \<Rightarrow> storage_input \<Rightarrow> list_request \<Rightarrow> registry_db \<Rightarrow> storage_error + list_result" where
  "registryList env input request db =
     withStorageDeadline
       (bindE (case lr_afterAgentId request of
                 None \<Rightarrow> Inr None
               | Some agentId \<Rightarrow> mapE Some (registryAgentIdBytes (ie_base64url (re_identity env)) agentId)) (\<lambda>afterBytes.
        let cardRows = readListRows input afterBytes db;
            hasMore = length cardRows > si_listPageSize input
        in mapE (\<lambda>agentCards. \<lparr>lp_agentCards = agentCards, lp_hasMore = hasMore\<rparr>)
             (forEachE (\<lambda>row. decodeStoredCard env row (si_registrySignerPublicKey input))
               (take (si_listPageSize input) cardRows))))"

section \<open>Initialization\<close>

definition PRE_RESET_LEDGERS :: "string list" where
  "PRE_RESET_LEDGERS = [''moltzap_registry_migrations'', ''sharness_registry_migrations'']"

definition LEDGER_TABLE :: string where
  "LEDGER_TABLE = ''sharness_registry_ledger''"

definition knownMigrations :: "nat list" where
  "knownMigrations = [1]"

definition ensureMigrationTable :: "registry_db \<Rightarrow> registry_db" where
  "ensureMigrationTable db =
     (if LEDGER_TABLE \<in> set (rd_relations db) then db
      else db\<lparr>rd_relations := rd_relations db @ [LEDGER_TABLE], rd_ledger := []\<rparr>)"

definition checkLedger :: "registry_db \<Rightarrow> initialization_reason + unit" where
  "checkLedger db = guardE (\<not> list_ex (\<lambda>m. m \<notin> set knownMigrations) (rd_ledger db)) NewerSchema"

definition bindStorageMetadata :: "string \<Rightarrow> registry_db \<Rightarrow> initialization_reason + registry_db" where
  "bindStorageMetadata signerThumbprint db =
     (let db' = (case rd_metadata db of None \<Rightarrow> db\<lparr>rd_metadata := Some signerThumbprint\<rparr> | Some _ \<Rightarrow> db) in
      if rd_metadata db' \<noteq> Some signerThumbprint then Inl SignerMismatch else Inr db')"

definition initializeRegistryStorage ::
  "'k registry_environment \<Rightarrow> (registry_db \<Rightarrow> registry_db option) \<Rightarrow> string \<Rightarrow> registry_db \<Rightarrow>
     (initialization_reason + unit) \<times> registry_db" where
  "initializeRegistryStorage env migrate registrySignerPublicKey db =
     (if list_ex (\<lambda>ledger. ledger \<in> set (rd_relations db)) PRE_RESET_LEDGERS then (Inl PreReset, db)
      else
        let db1 = ensureMigrationTable db in
        case bindE (checkLedger db1) (\<lambda>_. ofOption StorageUnavailable (migrate db1)) of
          Inl e \<Rightarrow> (Inl e, db1)
        | Inr db2 \<Rightarrow>
            (case jv_thumbprintUri (re_jose env) registrySignerPublicKey of
               None \<Rightarrow> (Inl StorageUnavailable, db2)
             | Some signerThumbprint \<Rightarrow>
                 (case bindStorageMetadata signerThumbprint db2 of
                    Inl e \<Rightarrow> (Inl e, db2)
                  | Inr db3 \<Rightarrow> (Inr (), db3))))"

end
