(* ===== verification/Canonical_Text.thy ===== *)
theory Canonical_Text
  imports Agent_Card
begin

text \<open>
  What the code relies on of \<^verbatim>\<open>JSON.parse\<close> and \<^verbatim>\<open>canonicalize\<close> together: a canonical text parses to
  the value it was made from, with the members of its objects in canonical order.  From this law the
  storage formats round-trip: what was encoded canonically is decoded to the same value.
\<close>

section \<open>Values up to the order of their members\<close>

fun sortMembers :: "json \<Rightarrow> json" where
  "sortMembers (JArr vs) = JArr (map sortMembers vs)"
| "sortMembers (JObj ms) = JObj (sort_key fst (map (\<lambda>(k, v). (k, sortMembers v)) ms))"
| "sortMembers v = v"

fun distinctKeys :: "json \<Rightarrow> bool" where
  "distinctKeys (JArr vs) = list_all distinctKeys vs"
| "distinctKeys (JObj ms) = (distinct (map fst ms) \<and> list_all (\<lambda>(k, v). distinctKeys v) ms)"
| "distinctKeys v = True"

lemma visitJsonValue_sortMembers [simp]: "visitJsonValue (sortMembers v) d = visitJsonValue v d"
proof (induction v arbitrary: d rule: sortMembers.induct)
  case (1 vs)
  then show ?case by (auto simp: list_all_iff)
next
  case (2 ms)
  then show ?case by (fastforce simp: list_all_iff Let_def)
qed simp_all

definition canonicalLaws :: "identity_environment \<Rightarrow> bool" where
  "canonicalLaws env \<longleftrightarrow>
     (\<forall>v t. visitJsonValue v 0 \<longrightarrow> distinctKeys v \<longrightarrow> ie_canonicalize env v = Some t \<longrightarrow>
        decodeText (utf8Bytes t) = Some t \<and> ie_parseJson env t = Some (sortMembers v) \<and>
        ie_canonicalize env (sortMembers v) = Some t)"

text \<open>Encoding followed by decoding sorts the members and changes nothing else.\<close>

lemma canonical_roundtrip:
  assumes "canonicalLaws env" and "distinctKeys v" and "encodeCanonicalJson (ie_canonicalize env) v = Some bytes"
  shows "decodeCanonicalJson env bytes = Some (sortMembers v)"
proof -
  obtain t where v: "visitJsonValue v 0" and t: "ie_canonicalize env v = Some t" and bytes: "bytes = utf8Bytes t"
    using assms(3) by (auto simp: encodeCanonicalJson_def split: if_splits)
  have "decodeText (utf8Bytes t) = Some t \<and> ie_parseJson env t = Some (sortMembers v) \<and>
      ie_canonicalize env (sortMembers v) = Some t"
    using assms(1,2) v t unfolding canonicalLaws_def by blast
  then show ?thesis using v by (simp add: parseCanonicalJson_def bytes)
qed

lemma canonical_injective:
  assumes "canonicalLaws env" and "distinctKeys v" and "distinctKeys w"
    and "encodeCanonicalJson (ie_canonicalize env) v = Some bytes"
    and "encodeCanonicalJson (ie_canonicalize env) w = Some bytes"
  shows "sortMembers v = sortMembers w"
  using canonical_roundtrip [OF assms(1,2,4)] canonical_roundtrip [OF assms(1,3,5)] by simp

section \<open>Closed objects and the order of members\<close>

lemma map_of_sorted_members:
  assumes "distinct (map fst ms)"
  shows "map_of (sort_key fst (map (\<lambda>(k, v). (k, f v)) ms)) k = map_option f (map_of ms k)"
proof -
  let ?ms = "map (\<lambda>(k, v). (k, f v)) ms"
  have keys: "map fst ?ms = map fst ms" by (simp add: o_def case_prod_unfold)
  have d: "distinct (map fst (sort_key fst ?ms))"
    using assms by (metis keys mset_map mset_sort mset_eq_imp_distinct_iff)
  have d0: "distinct (map fst ?ms)" unfolding keys by (rule assms)
  have "set (sort_key fst ?ms) = set ?ms" by simp
  then have "map_of (sort_key fst ?ms) = map_of ?ms"
    using map_of_inject_set [OF d d0] by blast
  then show ?thesis by (simp add: map_of_map)
qed

lemma closedObject_sortMembers:
  assumes "closedObject names (JObj ms) = Some vs"
  shows "closedObject names (sortMembers (JObj ms)) = Some (map sortMembers vs)"
proof -
  have d: "distinct (map fst ms)" and n: "set (map fst ms) = set names" and vs: "vs = map (\<lambda>n. the (map_of ms n)) names"
    using assms by (auto simp: closedObject_def split: if_splits)
  let ?ms = "map (\<lambda>(k, v). (k, sortMembers v)) ms"
  have keys: "map fst ?ms = map fst ms" by (simp add: o_def case_prod_unfold)
  have "mset (map fst (sort_key fst ?ms)) = mset (map fst ms)" by (metis keys mset_map mset_sort)
  then have d': "distinct (map fst (sort_key fst ?ms))" and n': "set (map fst (sort_key fst ?ms)) = set names"
    using d n by (metis mset_eq_imp_distinct_iff, metis mset_eq_setD)
  have "the (map_of (sort_key fst ?ms) k) = sortMembers (the (map_of ms k))" if "k \<in> set names" for k
  proof -
    have "k \<in> fst ` set ms" using that n by simp
    then obtain v where "map_of ms k = Some v" using d by (force simp: map_of_eq_Some_iff)
    then show ?thesis using map_of_sorted_members [OF d, of sortMembers k] by simp
  qed
  then show ?thesis using d' n' by (auto simp: closedObject_def vs)
qed

section \<open>Retained signatures\<close>

lemma distinctKeys_generalJws: "distinctKeys (generalJwsJson rep)"
  by (simp add: generalJwsJson_def)

lemma decodeGeneralJws_generalJws:
  "decodeGeneralJws b64 (generalJwsJson rep) = (if isGeneralJws b64 rep then Some rep else None)"
  by (cases rep) (simp add: decodeGeneralJws_def generalJwsJson_def closedObject_def Let_def)

lemma sortMembers_generalJws [simp]: "sortMembers (generalJwsJson rep) = generalJwsJson rep"
  by (simp add: generalJwsJson_def)

end
