(* ===== verification/Registry_Sample.thy ===== *)
theory Registry_Sample
  imports Registry_Storage Canonical_Text
begin

text \<open>
  A concrete Registry on which the witnesses of its properties run: the base64url codec of RFC 4648 and
  canonical texts of one character, read off a table of the values that occur.
\<close>

definition registryKey :: string where
  "registryKey = ''CQAAAAAAAAAAAAAAAAAAAAAAAAAAAAAAAAAAAAAAAAA''"

definition registryRequest :: register_request where
  "registryRequest = \<lparr>rr_operationId = ''opn_AAAAAAAAAAAAAAAAAAAAAA'', rr_principalId = ''prn_AAAAAAAAAAAAAAAAAAAAAA'',
     rr_agentName = ''alice'', rr_publicKey = registryKey\<rparr>"

definition registryNow :: int where "registryNow = 1767225600000"

definition registryJws :: general_jws where
  "registryJws = \<lparr>gj_payload = rfcEncode (utf8Bytes ''c''), gj_protected = rfcEncode (utf8Bytes ''h''),
     gj_signature = rfcEncode (replicate 64 0)\<rparr>"

definition registryTable :: "(json \<times> string) list" where
  "registryTable =
     [(JObj [(''agentId'', JStr ''agt_AAAAAAAAAAAAAAAAAAAAAA''), (''agentName'', JStr ''alice''),
        (''issuedAt'', JStr ''2026-01-01T00:00:00Z''), (''kind'', JStr ''agentCard''),
        (''principalId'', JStr ''prn_AAAAAAAAAAAAAAAAAAAAAA''),
        (''publicKey'', JObj [(''crv'', JStr ''Ed25519''), (''kty'', JStr ''OKP''), (''x'', JStr registryKey)]),
        (''sharnessVersion'', JStr WIRE_VERSION)], ''c''),
      (cardHeaderJson ''kid'', ''h''),
      (generalJwsJson registryJws, ''j''),
      (JObj [(''agentCard'', generalJwsJson registryJws), (''kind'', JStr ''registered'')], ''r''),
      (JObj [(''agentName'', JStr ''alice''), (''operationId'', JStr ''opn_AAAAAAAAAAAAAAAAAAAAAA''),
        (''principalId'', JStr ''prn_AAAAAAAAAAAAAAAAAAAAAA''),
        (''publicKey'', JObj [(''crv'', JStr ''Ed25519''), (''kty'', JStr ''OKP''), (''x'', JStr registryKey)])], ''q'')]"

definition registryIdentity :: identity_environment where
  "registryIdentity = \<lparr>ie_base64url = rfc4648,
     ie_parseJson = (\<lambda>t. map_of (map (\<lambda>(v, u). (u, v)) registryTable) t),
     ie_canonicalize = (\<lambda>v. map_of registryTable (sortMembers v))\<rparr>"

definition sampleRegistry :: "unit registry_environment" where
  "sampleRegistry = \<lparr>re_identity = registryIdentity, re_sha256 = (\<lambda>_. replicate 32 0),
     re_jose = \<lparr>jv_thumbprintUri = (\<lambda>_. Some ''kid''), jv_importKey = (\<lambda>_. Some ()), jv_generalVerify = (\<lambda>_ _. True)\<rparr>,
     re_generalSign = (\<lambda>bytes header. Some (generalJwsJson \<lparr>gj_payload = rfcEncode bytes,
        gj_protected = rfcEncode (utf8Bytes ''h''), gj_signature = rfcEncode (replicate 64 0)\<rparr>)),
     re_authorityPublicKey = ''k''\<rparr>"

definition sampleStorage :: storage_input where
  "sampleStorage = \<lparr>si_registrySignerPublicKey = ''k'', si_listPageSize = 2\<rparr>"

lemma registryTable_sorted: "list_all (\<lambda>(v, t). sortMembers v = v \<and> decodeText (utf8Bytes t) = Some t) registryTable"
  by code_simp

lemma registryTable_texts: "distinct (map snd registryTable)"
  by (simp add: registryTable_def)

lemma registry_canonicalLaws: "canonicalLaws registryIdentity"
proof -
  have "decodeText (utf8Bytes t) = Some t \<and> ie_parseJson registryIdentity t = Some (sortMembers v) \<and>
      ie_canonicalize registryIdentity (sortMembers v) = Some t"
    if "ie_canonicalize registryIdentity v = Some t" for v t
  proof -
    have m: "map_of registryTable (sortMembers v) = Some t" using that by (simp add: registryIdentity_def)
    then have mem: "(sortMembers v, t) \<in> set registryTable" by (rule map_of_SomeD)
    have d: "distinct (map fst (map (\<lambda>(v, u). (u, v)) registryTable))"
      using registryTable_texts by (simp add: o_def case_prod_unfold)
    have "map_of (map (\<lambda>(v, u). (u, v)) registryTable) t = Some (sortMembers v)"
      by (rule map_of_is_SomeI [OF d]) (use mem in \<open>force simp: image_iff\<close>)
    moreover have "sortMembers (sortMembers v) = sortMembers v" "decodeText (utf8Bytes t) = Some t"
      using registryTable_sorted mem unfolding list_all_iff by fastforce+
    ultimately show ?thesis using m by (simp add: registryIdentity_def)
  qed
  then show ?thesis unfolding canonicalLaws_def by blast
qed

lemma registry_final: "CHR ''A'' \<in> set (finalCharacters rfc4648 2)"
  unfolding finalCharacters_def by (auto simp: rfc4648_def rfcEncode_zero intro!: bexI [of _ 0])

lemma registry_ids: "isAgentId rfc4648 ''agt_AAAAAAAAAAAAAAAAAAAAAA''" "isPrincipalId rfc4648 ''prn_AAAAAAAAAAAAAAAAAAAAAA''"
  using registry_final
  by (simp_all add: isAgentId_def isPrincipalId_def canonicalIdentifier_def startsWith_def inCharRange_def Let_def)

lemma registry_zero: "rfcEncode (replicate 16 0) = ''AAAAAAAAAAAAAAAAAAAAAA''"
  by code_simp

lemma registry_codec: "ie_base64url registryIdentity = rfc4648" "b64_encode rfc4648 = rfcEncode" "b64_decode rfc4648 = rfcDecode"
  by (simp_all add: registryIdentity_def rfc4648_def)

lemma registry_decode: "rfcDecode (rfcEncode bs) = Some bs"
  using rfc4648_laws by (simp add: base64urlLaws_def registry_codec)

lemma registry_mint:
  "rd_agents db = [] \<Longrightarrow> mintUnusedAgentId rfc4648 (\<lambda>_. replicate 16 0) db = Inr ''agt_AAAAAAAAAAAAAAAAAAAAAA''"
  using registry_ids(1)
  by (simp add: mintUnusedAgentId_def mintUnusedFrom.simps AGENT_ID_MINT_ATTEMPTS_def mintAgentId_def registry_codec registry_zero
      internalFailure_def retainedCount_def)

lemma registry_issueTime: "issueTime registryNow = Inr ''2026-01-01T00:00:00Z''"
  by code_simp

lemma registry_texts:
  assumes "(v, t) \<in> set registryTable"
  shows "ie_canonicalize registryIdentity v = Some t"
proof -
  have "sortMembers v = v" using registryTable_sorted assms unfolding list_all_iff by fastforce
  moreover have "distinct (map fst registryTable)" by (simp add: registryTable_def cardHeaderJson_def generalJwsJson_def)
  ultimately show ?thesis using assms by (simp add: registryIdentity_def)
qed

lemma registry_ascii: "asciiText (rfcEncode bs)" "asciiText registryKey" "asciiText WIRE_VERSION" "asciiText AGENT_CARD_TYPE"
  using encoded_ascii [OF rfc4648_laws] by (simp_all add: registry_codec registryKey_def WIRE_VERSION_def AGENT_CARD_TYPE_def)

lemma registry_visits: "list_all (\<lambda>(v, t). visitJsonValue v 0) registryTable"
  unfolding registryTable_def cardHeaderJson_def generalJwsJson_def registryJws_def
  by (auto simp: MAXIMUM_CONTAINER_DEPTH_def intro!: hasWellFormedUnicode_ascii registry_ascii)

lemma registry_encodes:
  assumes "(sortMembers v, t) \<in> set registryTable"
  shows "encodeCanonicalJson (ie_canonicalize registryIdentity) v = Some (utf8Bytes t)"
proof -
  have "visitJsonValue v 0" using registry_visits assms unfolding list_all_iff by fastforce
  moreover have "ie_canonicalize registryIdentity v = Some t"
    using registry_texts [OF assms] registryTable_sorted assms unfolding list_all_iff by (fastforce simp: registryIdentity_def)
  ultimately show ?thesis by (simp add: encodeCanonicalJson_def)
qed

lemma registry_sorted:
  "sortMembers (cardClaimsJson WIRE_VERSION ''agt_AAAAAAAAAAAAAAAAAAAAAA'' (rr_principalId registryRequest) (rr_agentName registryRequest)
     (rr_publicKey registryRequest) ''2026-01-01T00:00:00Z'') = fst (registryTable ! 0)"
  "sortMembers (registerRequestJson registryRequest) = fst (registryTable ! 4)"
  by code_simp+

definition registryCard :: agent_card where
  "registryCard = \<lparr>ac_agentId = ''agt_AAAAAAAAAAAAAAAAAAAAAA'', ac_publicKey = registryKey,
     ac_digest = ''acd_'' @ rfcEncode (replicate 32 0), ac_principalId = ''prn_AAAAAAAAAAAAAAAAAAAAAA'', ac_agentName = ''alice'',
     ac_issuedAt = ''2026-01-01T00:00:00Z'', ac_wireVersion = WIRE_VERSION, ac_representation = registryJws,
     ac_protectedHeader = \<lparr>ph_alg = ''Ed25519'', ph_kid = ''kid'', ph_typ = AGENT_CARD_TYPE\<rparr>\<rparr>"

lemma registry_digest: "isAgentCardDigest rfc4648 (''acd_'' @ rfcEncode (replicate 32 0))"
proof -
  have "rfcEncode (replicate 32 0) = replicate 43 (CHR ''A'')" by code_simp
  moreover have "CHR ''A'' \<in> set (finalCharacters rfc4648 4)"
    unfolding finalCharacters_def by (auto simp: rfc4648_def rfcEncode_zero intro!: bexI [of _ 0])
  ultimately show ?thesis
    by (simp add: isAgentCardDigest_def canonicalIdentifier_def startsWith_def inCharRange_def Let_def list_all_iff)
qed

lemma registry_key: "decodePublicKey rfc4648 (JObj [(''crv'', JStr ''Ed25519''), (''kty'', JStr ''OKP''), (''x'', JStr registryKey)]) = Some registryKey"
proof -
  have "decodeAcceptedPublicKey rfc4648 registryKey \<noteq> None" by code_simp
  then show ?thesis by (simp add: decodePublicKey_def closedObject_def)
qed

lemma registry_payload:
  "decodeCardPayload rfc4648 (fst (registryTable ! 0)) = Some \<lparr>ap_sharnessVersion = WIRE_VERSION,
     ap_agentId = ''agt_AAAAAAAAAAAAAAAAAAAAAA'', ap_principalId = ''prn_AAAAAAAAAAAAAAAAAAAAAA'', ap_agentName = ''alice'',
     ap_publicKey = registryKey, ap_issuedAt = ''2026-01-01T00:00:00Z''\<rparr>"
proof -
  have i: "isIssuedAt ''2026-01-01T00:00:00Z''" by code_simp
  have n: "isAgentName ''alice''" by code_simp
  show ?thesis
    by (simp add: decodeCardPayload_def registryTable_def closedObject_def registry_key registry_ids i n
        HISTORY_WIRE_VERSIONS_def LIVE_WIRE_VERSIONS_def insert_commute)
qed

lemma registry_header:
  "decodeCardHeader (cardHeaderJson ''kid'') = Some \<lparr>ph_alg = ''Ed25519'', ph_kid = ''kid'', ph_typ = AGENT_CARD_TYPE\<rparr>"
  by (simp add: decodeCardHeader_def cardHeaderJson_def closedObject_def)

lemma registry_parses:
  assumes "(v, t) \<in> set registryTable"
  shows "decodeCanonicalJson registryIdentity (utf8Bytes t) = Some v"
proof -
  have v: "sortMembers v = v" using registryTable_sorted assms unfolding list_all_iff by fastforce
  have "list_all (\<lambda>(v, t). distinctKeys v) registryTable"
    by (simp add: registryTable_def cardHeaderJson_def generalJwsJson_def)
  then have "distinctKeys v" using assms unfolding list_all_iff by fastforce
  then show ?thesis
    using canonical_roundtrip [OF registry_canonicalLaws _ registry_encodes [of v t]] assms v by simp
qed

lemma registry_table_members:
  "(fst (registryTable ! 0), ''c'') \<in> set registryTable" "(cardHeaderJson ''kid'', ''h'') \<in> set registryTable"
  "(generalJwsJson registryJws, ''j'') \<in> set registryTable" "(fst (registryTable ! 4), ''q'') \<in> set registryTable"
  "(JObj [(''agentCard'', generalJwsJson registryJws), (''kind'', JStr ''registered'')], ''r'') \<in> set registryTable"
  by (simp_all add: registryTable_def)

lemma registry_card_decodes:
  "decodeAgentCard registryIdentity (\<lambda>_. replicate 32 0) (generalJwsJson registryJws) = Some registryCard"
proof -
  have "hasCanonicalEd25519SignatureEncoding (replicate 64 0)" by code_simp
  then have jws: "isGeneralJws rfc4648 registryJws"
    using decodeCanonicalBase64Url_encoded [OF rfc4648_laws, unfolded registry_codec]
    by (simp add: isGeneralJws_def registryJws_def)
  have p: "rfcDecode (gj_payload registryJws) = Some (utf8Bytes ''c'')" "rfcDecode (gj_protected registryJws) = Some (utf8Bytes ''h'')"
    by (simp_all add: registryJws_def registry_decode)
  have e: "encodeCanonicalJson (ie_canonicalize registryIdentity) (generalJwsJson registryJws) = Some (utf8Bytes ''j'')"
    by (rule registry_encodes) (simp add: registry_table_members)
  show ?thesis
    unfolding decodeAgentCard_def decodeGeneralJws_generalJws registry_codec(1)
    using jws registry_digest
    by (simp add: decodeCardRepresentation_def registry_codec p registry_parses [OF registry_table_members(1)]
        registry_parses [OF registry_table_members(2)] registry_payload registry_header e registryCard_def Let_def)
qed

lemma registry_issues:
  "issueAgentCard sampleRegistry ''agt_AAAAAAAAAAAAAAAAAAAAAA'' registryRequest ''2026-01-01T00:00:00Z'' = Some registryCard"
proof -
  have "encodeCanonicalJson (ie_canonicalize registryIdentity)
      (cardClaimsJson WIRE_VERSION ''agt_AAAAAAAAAAAAAAAAAAAAAA'' (rr_principalId registryRequest) (rr_agentName registryRequest)
        (rr_publicKey registryRequest) ''2026-01-01T00:00:00Z'') = Some (utf8Bytes ''c'')"
    by (rule registry_encodes) (simp add: registry_sorted registry_table_members)
  then have "signCardPayload sampleRegistry (cardClaimsJson WIRE_VERSION ''agt_AAAAAAAAAAAAAAAAAAAAAA''
      (rr_principalId registryRequest) (rr_agentName registryRequest) (rr_publicKey registryRequest) ''2026-01-01T00:00:00Z'') = Some registryCard"
    using registry_card_decodes by (simp add: signCardPayload_def sampleRegistry_def flip: registryJws_def)
  moreover have "verifyAgentCard (re_jose sampleRegistry) registryCard (re_authorityPublicKey sampleRegistry)"
    by (simp add: verifyAgentCard_def sampleRegistry_def registryCard_def)
  ultimately show ?thesis by (simp add: issueAgentCard_def)
qed

definition registryDb :: registry_db where
  "registryDb = \<lparr>rd_metadata = None,
     rd_agents = [\<lparr>ar_agent_id = ''agt_AAAAAAAAAAAAAAAAAAAAAA'', ar_agent_id_bytes = replicate 16 0,
       ar_principal_id = ''prn_AAAAAAAAAAAAAAAAAAAAAA'', ar_agent_name = ''alice'', ar_public_key_thumbprint = ''kid'',
       ar_agent_card_bytes = utf8Bytes ''j''\<rparr>],
     rd_operations = [\<lparr>or_public_key_thumbprint = ''kid'', or_operation_id = ''opn_AAAAAAAAAAAAAAAAAAAAAA'',
       or_request_bytes = utf8Bytes ''q'', or_result_bytes = utf8Bytes ''r''\<rparr>],
     rd_nonces = [], rd_ledger = [], rd_relations = []\<rparr>"

lemma sample_registers:
  "registerHandler sampleRegistry sampleStorage registryRequest (\<lambda>_. replicate 16 0) registryNow
     \<lparr>rd_metadata = None, rd_agents = [], rd_operations = [], rd_nonces = [], rd_ledger = [], rd_relations = []\<rparr> =
   (Inr (Registered registryCard), registryDb)"
proof -
  have id: "re_identity sampleRegistry = registryIdentity" by (simp add: sampleRegistry_def)
  have q: "canonicalRegisterRequest sampleRegistry registryRequest = Inr (utf8Bytes ''q'')"
    using registry_encodes [of "registerRequestJson registryRequest" "''q''"] registry_table_members(4)
    by (simp add: canonicalRegisterRequest_def id registry_sorted)
  have j: "encodeRegistryAgentCard registryIdentity registryCard = Some (utf8Bytes ''j'')"
    using registry_encodes [of "generalJwsJson registryJws" "''j''"] registry_table_members(3)
    by (simp add: encodeRegistryAgentCard_def encodeCardView_def registryCard_def)
  have "sortMembers (registerResponseJson (Registered registryCard)) =
      JObj [(''agentCard'', generalJwsJson registryJws), (''kind'', JStr ''registered'')]"
    by (simp add: registerResponseJson_def encodeCardView_def registryCard_def)
  then have r: "encodeResult sampleRegistry (Registered registryCard) = Inr (utf8Bytes ''r'')"
    using registry_encodes [of "registerResponseJson (Registered registryCard)" "''r''"] registry_table_members(5)
    by (simp add: encodeResult_def id internalFailure_def)
  have z: "rfcDecode ''AAAAAAAAAAAAAAAAAAAAAA'' = Some (replicate 16 0)" using registry_decode [of "replicate 16 0"] by (simp add: registry_zero)
  have t: "jv_thumbprintUri (re_jose sampleRegistry) k = Some ''kid''" for k by (simp add: sampleRegistry_def)
  show ?thesis
    by (simp add: registerHandler_def q registryRegister_def t internalFailure_def withTransaction_def registerTransaction_def
        findStoredOperation_def decideRegistration_def keyIsRegistered_def nameIsRegistered_def retainedCount_def insertNewAgent_def
        id registry_codec registry_mint registry_issueTime registry_issues j r registryAgentIdBytes_def z insertAgentRow_def
        recordOperation_def withStorageDeadline_def registryDb_def Let_def)
      (simp add: registryRequest_def)
qed

end
