(* ===== verification/Registry_Facts.thy ===== *)
theory Registry_Facts
  imports Registry_Sample
begin

text \<open>
  What the Registry guarantees of its durable state: identities stay unique and every stored card is a
  verified card of its row, a retried registration is answered as it was the first time, a registered
  card is found again by identity and by name, a replay nonce is claimed once, and the pages of a
  listing cover every agent once in the order of the identities.
\<close>

section \<open>Runs\<close>

datatype registry_event =
    RegisterEvent register_request "nat \<Rightarrow> byte list" int
  | ClaimEvent nonce_claim

definition registryStep :: "'k registry_environment \<Rightarrow> storage_input \<Rightarrow> registry_event \<Rightarrow> registry_db \<Rightarrow> registry_db" where
  "registryStep env input event db =
     (case event of
        RegisterEvent request randomBytes now \<Rightarrow> snd (registerHandler env input request randomBytes now db)
      | ClaimEvent claim \<Rightarrow> snd (claimRegistrationNonce claim db))"

definition registryRun ::
  "'k registry_environment \<Rightarrow> storage_input \<Rightarrow> registry_event list \<Rightarrow> registry_db \<Rightarrow> registry_db" where
  "registryRun env input events db = fold (registryStep env input) events db"

definition emptyDb :: registry_db where
  "emptyDb = \<lparr>rd_metadata = None, rd_agents = [], rd_operations = [], rd_nonces = [], rd_ledger = [], rd_relations = []\<rparr>"

section \<open>Parameters\<close>

text \<open>The documented output of \<^verbatim>\<open>GeneralSign\<close>: the payload of the representation spells the signed bytes.\<close>

definition signerLaws :: "'k registry_environment \<Rightarrow> bool" where
  "signerLaws env \<longleftrightarrow>
     (\<forall>bytes header v. re_generalSign env bytes header = Some v \<longrightarrow>
        (\<exists>p s. v = generalJwsJson \<lparr>gj_payload = b64_encode (ie_base64url (re_identity env)) bytes,
                                   gj_protected = p, gj_signature = s\<rparr>))"

definition registryLaws :: "'k registry_environment \<Rightarrow> storage_input \<Rightarrow> bool" where
  "registryLaws env input \<longleftrightarrow>
     base64urlLaws (ie_base64url (re_identity env)) \<and> canonicalLaws (re_identity env) \<and> signerLaws env \<and>
     si_registrySignerPublicKey input = re_authorityPublicKey env"

lemma registryLawsD:
  assumes "registryLaws env input"
  shows "base64urlLaws (ie_base64url (re_identity env))" and "canonicalLaws (re_identity env)" and "signerLaws env"
    and "si_registrySignerPublicKey input = re_authorityPublicKey env"
  using assms by (simp_all add: registryLaws_def)

section \<open>Issued cards\<close>

text \<open>A card the Registry can store and read back: decoded from what it retains, and signed by the Registry.\<close>

definition cardIssued :: "'k registry_environment \<Rightarrow> agent_card \<Rightarrow> bool" where
  "cardIssued env c \<longleftrightarrow>
     isGeneralJws (ie_base64url (re_identity env)) (ac_representation c) \<and>
     decodeCardRepresentation (re_identity env) (re_sha256 env) (ac_representation c) = Some c \<and>
     verifyAgentCard (re_jose env) c (re_authorityPublicKey env)"

definition cardMatches :: "agent_card \<Rightarrow> register_request \<Rightarrow> bool" where
  "cardMatches c request \<longleftrightarrow>
     ac_agentName c = rr_agentName request \<and> ac_principalId c = rr_principalId request \<and>
     ac_publicKey c = rr_publicKey request"

lemma decodeCardRepresentation_representation:
  "decodeCardRepresentation env sha256 rep = Some c \<Longrightarrow> ac_representation c = rep"
  by (auto simp: decodeCardRepresentation_def Let_def bind_eq_Some_conv split: if_splits)

lemma decodeAgentCard_generalJws:
  "decodeAgentCard env sha256 (generalJwsJson rep) = Some c \<longleftrightarrow>
     isGeneralJws (ie_base64url env) rep \<and> decodeCardRepresentation env sha256 rep = Some c"
  by (simp add: decodeAgentCard_def decodeGeneralJws_generalJws)

lemma closedObject_claims:
  "closedObject [''kind'', ''sharnessVersion'', ''agentId'', ''principalId'', ''agentName'', ''publicKey'', ''issuedAt'']
     (cardClaimsJson version agentId principalId agentName publicKey issuedAt) =
   Some [JStr ''agentCard'', JStr version, JStr agentId, JStr principalId, JStr agentName,
     JObj [(''crv'', JStr ''Ed25519''), (''kty'', JStr ''OKP''), (''x'', JStr publicKey)], JStr issuedAt]"
  by (simp add: closedObject_def cardClaimsJson_def insert_commute)

lemma decodeCardPayload_claims:
  assumes "decodeCardPayload b64 (sortMembers (cardClaimsJson version agentId principalId agentName publicKey issuedAt)) = Some payload"
  shows "ap_agentId payload = agentId" and "ap_principalId payload = principalId"
    and "ap_agentName payload = agentName" and "ap_publicKey payload = publicKey"
proof -
  let ?names = "[''kind'', ''sharnessVersion'', ''agentId'', ''principalId'', ''agentName'', ''publicKey'', ''issuedAt'']"
  let ?claims = "cardClaimsJson version agentId principalId agentName publicKey issuedAt"
  have c: "closedObject ?names (sortMembers ?claims) = Some [JStr ''agentCard'', JStr version, JStr agentId, JStr principalId,
      JStr agentName, JObj [(''crv'', JStr ''Ed25519''), (''kty'', JStr ''OKP''), (''x'', JStr publicKey)], JStr issuedAt]"
    using closedObject_sortMembers [OF closedObject_claims [unfolded cardClaimsJson_def], of version agentId principalId agentName publicKey issuedAt]
    by (simp add: cardClaimsJson_def)
  have k: "closedObject [''crv'', ''kty'', ''x''] (JObj [(''crv'', JStr ''Ed25519''), (''kty'', JStr ''OKP''), (''x'', JStr publicKey)])
      = Some [JStr ''Ed25519'', JStr ''OKP'', JStr publicKey]"
    by (simp add: closedObject_def)
  show "ap_agentId payload = agentId" and "ap_principalId payload = principalId"
    and "ap_agentName payload = agentName" and "ap_publicKey payload = publicKey"
    using assms by (auto simp: decodeCardPayload_def decodePublicKey_def c k split: if_splits)
qed

lemma issueAgentCard_issued:
  assumes laws: "registryLaws env input" and issued: "issueAgentCard env agentId request issuedAt = Some c"
  shows "cardIssued env c" and "cardMatches c request" and "ac_agentId c = agentId"
proof -
  let ?id = "re_identity env"
  let ?claims = "cardClaimsJson WIRE_VERSION agentId (rr_principalId request) (rr_agentName request) (rr_publicKey request) issuedAt"
  obtain bytes kid v where bytes: "encodeCanonicalJson (ie_canonicalize ?id) ?claims = Some bytes"
    and sign: "re_generalSign env bytes (cardHeaderJson kid) = Some v"
    and dec: "decodeAgentCard ?id (re_sha256 env) v = Some c"
    and ver: "verifyAgentCard (re_jose env) c (re_authorityPublicKey env)"
    using issued by (auto simp: issueAgentCard_def signCardPayload_def bind_eq_Some_conv split: if_splits)
  obtain p s where v: "v = generalJwsJson \<lparr>gj_payload = b64_encode (ie_base64url ?id) bytes, gj_protected = p, gj_signature = s\<rparr>"
    using registryLawsD(3) [OF laws] sign unfolding signerLaws_def by blast
  define rep where "rep = \<lparr>gj_payload = b64_encode (ie_base64url ?id) bytes, gj_protected = p, gj_signature = s\<rparr>"
  have jws: "isGeneralJws (ie_base64url ?id) rep" and card: "decodeCardRepresentation ?id (re_sha256 env) rep = Some c"
    using dec unfolding v rep_def [symmetric] decodeAgentCard_generalJws by auto
  show "cardIssued env c"
    using jws card ver decodeCardRepresentation_representation [OF card] by (simp add: cardIssued_def)
  have "b64_decode (ie_base64url ?id) (gj_payload rep) = Some bytes"
    using registryLawsD(1) [OF laws] by (simp add: rep_def base64urlLaws_def)
  moreover have "decodeCanonicalJson ?id bytes = Some (sortMembers ?claims)"
    by (rule canonical_roundtrip [OF registryLawsD(2) [OF laws] _ bytes]) (simp add: cardClaimsJson_def)
  ultimately obtain payload where "decodeCardPayload (ie_base64url ?id) (sortMembers ?claims) = Some payload"
    and "ac_agentId c = ap_agentId payload" "ac_agentName c = ap_agentName payload"
    and "ac_principalId c = ap_principalId payload" "ac_publicKey c = ap_publicKey payload"
    using card by (auto simp: decodeCardRepresentation_def Let_def bind_eq_Some_conv split: if_splits)
  then show "cardMatches c request" "ac_agentId c = agentId"
    using decodeCardPayload_claims by (simp_all add: cardMatches_def)
qed

lemma decodeStoredCard_issued:
  assumes laws: "registryLaws env input" and issued: "cardIssued env c"
    and bytes: "encodeRegistryAgentCard (re_identity env) c = Some bytes"
  shows "decodeStoredCard env bytes (si_registrySignerPublicKey input) = Inr c"
proof -
  have "decodeCanonicalJson (re_identity env) bytes = Some (sortMembers (encodeCardView c))"
    using bytes registryLawsD(2) [OF laws]
    by (intro canonical_roundtrip) (simp_all add: encodeRegistryAgentCard_def encodeCardView_def distinctKeys_generalJws)
  then show ?thesis
    using issued registryLawsD(4) [OF laws]
    by (simp add: decodeStoredCard_def decodeRegistryAgentCard_def encodeCardView_def decodeAgentCard_def
        decodeGeneralJws_generalJws cardIssued_def internalFailure_def)
qed

lemma decodeRegisterResponse_kind:
  "decodeRegisterResponse env sha256 (JObj [(''kind'', JStr k)]) =
     (if k = ''name_taken'' then Some NameTaken else if k = ''key_already_registered'' then Some KeyAlreadyRegistered
      else if k = ''idempotency_conflict'' then Some IdempotencyConflict else None)"
  by (simp add: decodeRegisterResponse_def closedObject_def)

lemma decodeRegisterResponse_card:
  "decodeRegisterResponse env sha256 (JObj [(''agentCard'', v), (''kind'', JStr ''registered'')]) =
     map_option Registered (decodeAgentCard env sha256 v)"
  by (simp add: decodeRegisterResponse_def closedObject_def insert_commute)

lemma decodeResult_encoded:
  assumes laws: "registryLaws env input" and enc: "encodeResult env result = Inr bytes"
    and issued: "\<And>c. result = Registered c \<Longrightarrow> cardIssued env c"
  shows "decodeResult env bytes (si_registrySignerPublicKey input) = Inr result"
proof -
  let ?id = "re_identity env"
  have "encodeCanonicalJson (ie_canonicalize ?id) (registerResponseJson result) = Some bytes"
    using enc by (simp add: encodeResult_def internalFailure_def resultE_iffs)
  moreover have "distinctKeys (registerResponseJson result)"
    by (cases result) (simp_all add: registerResponseJson_def encodeCardView_def distinctKeys_generalJws)
  ultimately have parse: "decodeCanonicalJson ?id bytes = Some (sortMembers (registerResponseJson result))"
    using registryLawsD(2) [OF laws] by (intro canonical_roundtrip)
  have sorted: "sortMembers (registerResponseJson result) = registerResponseJson result"
    by (cases result) (simp_all add: registerResponseJson_def encodeCardView_def)
  have dec: "decodeRegisterResponse ?id (re_sha256 env) (registerResponseJson result) = Some result"
  proof (cases result)
    case (Registered c)
    then have "decodeAgentCard ?id (re_sha256 env) (encodeCardView c) = Some c"
      using issued by (simp add: encodeCardView_def decodeAgentCard_generalJws cardIssued_def)
    then show ?thesis by (simp add: registerResponseJson_def Registered decodeRegisterResponse_card)
  qed (simp_all add: registerResponseJson_def decodeRegisterResponse_kind)
  show ?thesis
    using issued registryLawsD(4) [OF laws]
    by (auto simp: decodeResult_def parse sorted dec internalFailure_def cardIssued_def split: register_result.split)
qed

section \<open>Transactions by cases\<close>

lemma sameBytes_iff: "sameBytes left right \<longleftrightarrow> left = right"
proof
  assume "sameBytes left right"
  note both = this [unfolded sameBytes_def list_all_iff]
  note l = both [THEN conjunct1] and r = both [THEN conjunct2]
  have eq: "i < length right \<and> left ! i = right ! i" if "i < length left" for i
    by (rule bspec [OF l]) (simp add: that)
  have le: "i < length left \<and> right ! i = left ! i" if "i < length right" for i
    by (rule bspec [OF r]) (simp add: that)
  have "length left = length right"
    using eq [THEN conjunct1, of "length right"] le [THEN conjunct1, of "length left"] by linarith
  then show "left = right" using eq [THEN conjunct2] by (rule nth_equalityI)
qed (simp add: sameBytes_def list_all_iff)

text \<open>A minted identity is new to the table, valid, and drawn in one of the first eight attempts.\<close>

lemma mintUnusedFrom_Inr:
  "mintUnusedFrom b64 randomBytes db attempt = Inr agentId \<Longrightarrow>
     isAgentId b64 agentId \<and> agentId \<notin> ar_agent_id ` set (rd_agents db) \<and>
     (\<exists>i<AGENT_ID_MINT_ATTEMPTS. agentId = ''agt_'' @ b64_encode b64 (randomBytes i))"
proof (induction b64 randomBytes db attempt rule: mintUnusedFrom.induct)
  case (1 b64 randomBytes db attempt)
  show ?case
  proof (cases "attempt < AGENT_ID_MINT_ATTEMPTS")
    case True
    from 1(2) True obtain candidate where c: "mintAgentId b64 (randomBytes attempt) = Inr candidate"
      by (subst (asm) mintUnusedFrom.simps) (auto simp: resultE_iffs)
    have candidate: "isAgentId b64 candidate" "candidate = ''agt_'' @ b64_encode b64 (randomBytes attempt)"
      using c by (auto simp: mintAgentId_def internalFailure_def Let_def resultE_iffs split: if_splits)
    show ?thesis
    proof (cases "retainedCount (filter (\<lambda>r. ar_agent_id r = candidate) (rd_agents db)) = 0")
      case unused: True
      then have "agentId = candidate" using 1(2) True c by (subst (asm) mintUnusedFrom.simps) simp
      then show ?thesis using unused candidate True by (auto simp: retainedCount_def filter_empty_conv)
    next
      case False
      then show ?thesis using 1(1) [OF True] 1(2) True c by (subst (asm) mintUnusedFrom.simps) simp
    qed
  next
    case False
    then show ?thesis using 1(2) by (subst (asm) mintUnusedFrom.simps) simp
  qed
qed

definition freshAgent ::
  "'k registry_environment \<Rightarrow> register_call \<Rightarrow> string \<Rightarrow> registry_db \<Rightarrow> agent_row \<Rightarrow> agent_card \<Rightarrow> bool" where
  "freshAgent env call keyThumbprint db r c \<longleftrightarrow>
     \<not> keyIsRegistered db keyThumbprint \<and> \<not> nameIsRegistered db (rr_agentName (rc_request call)) \<and>
     isAgentId (ie_base64url (re_identity env)) (ar_agent_id r) \<and> ar_agent_id r \<notin> ar_agent_id ` set (rd_agents db) \<and>
     ar_agent_id_bytes r \<notin> ar_agent_id_bytes ` set (rd_agents db) \<and>
     (\<exists>issuedAt. issueAgentCard env (ar_agent_id r) (rc_request call) issuedAt = Some c) \<and>
     encodeRegistryAgentCard (re_identity env) c = Some (ar_agent_card_bytes r) \<and>
     b64_decode (ie_base64url (re_identity env)) (drop 4 (ar_agent_id r)) = Some (ar_agent_id_bytes r) \<and>
     ar_principal_id r = rr_principalId (rc_request call) \<and> ar_agent_name r = rr_agentName (rc_request call) \<and>
     ar_public_key_thumbprint r = keyThumbprint"

lemma insertNewAgent_fresh:
  assumes "insertNewAgent env call k db = Inr (res, db')"
    and "\<not> keyIsRegistered db k" and "\<not> nameIsRegistered db (rr_agentName (rc_request call))"
  obtains r c where "res = Registered c" and "db' = db\<lparr>rd_agents := rd_agents db @ [r]\<rparr>" and "freshAgent env call k db r c"
proof -
  let ?id = "re_identity env"
  obtain agentId issuedAt c bytes idBytes where
    mint: "mintUnusedAgentId (ie_base64url ?id) (rc_randomBytes call) db = Inr agentId"
    and card: "issueAgentCard env agentId (rc_request call) issuedAt = Some c"
    and enc: "encodeRegistryAgentCard ?id c = Some bytes"
    and dec: "b64_decode (ie_base64url ?id) (drop 4 agentId) = Some idBytes"
    and ins: "insertAgentRow \<lparr>ar_agent_id = agentId, ar_agent_id_bytes = idBytes,
        ar_principal_id = rr_principalId (rc_request call), ar_agent_name = rr_agentName (rc_request call),
        ar_public_key_thumbprint = k, ar_agent_card_bytes = bytes\<rparr> db = Inr ((), db')"
    and res: "res = Registered c"
    using assms(1) by (auto simp: insertNewAgent_def Let_def resultE_iffs internalFailure_def registryAgentIdBytes_def)
  let ?r = "\<lparr>ar_agent_id = agentId, ar_agent_id_bytes = idBytes,
        ar_principal_id = rr_principalId (rc_request call), ar_agent_name = rr_agentName (rc_request call),
        ar_public_key_thumbprint = k, ar_agent_card_bytes = bytes\<rparr>"
  have db': "db' = db\<lparr>rd_agents := rd_agents db @ [?r]\<rparr>" and new: "idBytes \<notin> ar_agent_id_bytes ` set (rd_agents db)"
    using ins by (auto simp: insertAgentRow_def list_ex_iff split: if_splits)
  have "freshAgent env call k db ?r c"
    using mintUnusedFrom_Inr [OF mint [unfolded mintUnusedAgentId_def]] card enc dec new assms(2,3)
    by (auto simp: freshAgent_def)
  then show ?thesis using that res db' by blast
qed

abbreviation operationRow :: "string \<Rightarrow> register_call \<Rightarrow> byte list \<Rightarrow> operation_row" where
  "operationRow k call bytes \<equiv> \<lparr>or_public_key_thumbprint = k, or_operation_id = rr_operationId (rc_request call),
     or_request_bytes = rc_requestBytes call, or_result_bytes = bytes\<rparr>"

lemma registerTransaction_cases:
  assumes "registerTransaction env input call k db = Inr (res, db')"
  obtains
    (Repeated) previous where "findStoredOperation db k (rr_operationId (rc_request call)) = Some previous"
      and "or_request_bytes previous = rc_requestBytes call" and "db' = db"
      and "decodeResult env (or_result_bytes previous) (si_registrySignerPublicKey input) = Inr res"
  | (Conflict) previous where "findStoredOperation db k (rr_operationId (rc_request call)) = Some previous"
      and "or_request_bytes previous \<noteq> rc_requestBytes call" and "db' = db" and "res = IdempotencyConflict"
  | (Refused) bytes where "findStoredOperation db k (rr_operationId (rc_request call)) = None"
      and "res = KeyAlreadyRegistered \<and> keyIsRegistered db k \<or>
           res = NameTaken \<and> \<not> keyIsRegistered db k \<and> nameIsRegistered db (rr_agentName (rc_request call))"
      and "encodeResult env res = Inr bytes" and "db' = db\<lparr>rd_operations := rd_operations db @ [operationRow k call bytes]\<rparr>"
  | (Fresh) bytes r c where "findStoredOperation db k (rr_operationId (rc_request call)) = None"
      and "res = Registered c" and "freshAgent env call k db r c" and "encodeResult env res = Inr bytes"
      and "db' = db\<lparr>rd_agents := rd_agents db @ [r], rd_operations := rd_operations db @ [operationRow k call bytes]\<rparr>"
proof (cases "findStoredOperation db k (rr_operationId (rc_request call))")
  case (Some previous)
  show ?thesis
  proof (cases "or_request_bytes previous = rc_requestBytes call")
    case True
    then have "decodeResult env (or_result_bytes previous) (si_registrySignerPublicKey input) = Inr res \<and> db' = db"
      using assms Some by (auto simp: registerTransaction_def sameBytes_iff mapE_Inr_iff)
    then show ?thesis using Repeated [OF Some True] by blast
  next
    case False
    then have "res = IdempotencyConflict \<and> db' = db"
      using assms Some by (simp add: registerTransaction_def sameBytes_iff)
    then show ?thesis using Conflict [OF Some False] by blast
  qed
next
  case None
  then obtain db1 bytes where decide: "decideRegistration env call k db = Inr (res, db1)"
    and enc: "encodeResult env res = Inr bytes" and rec: "recordOperation (operationRow k call bytes) db1 = Inr ((), db')"
    using assms by (auto simp: registerTransaction_def resultE_iffs)
  have db': "db' = db1\<lparr>rd_operations := rd_operations db1 @ [operationRow k call bytes]\<rparr>"
    using rec by (auto simp: recordOperation_def split: if_splits)
  show ?thesis
  proof (cases "keyIsRegistered db k \<or> nameIsRegistered db (rr_agentName (rc_request call))")
    case True
    then have "(res = KeyAlreadyRegistered \<and> keyIsRegistered db k \<or>
           res = NameTaken \<and> \<not> keyIsRegistered db k \<and> nameIsRegistered db (rr_agentName (rc_request call))) \<and> db1 = db"
      using decide by (simp add: decideRegistration_def split: if_splits)
    then show ?thesis using Refused [OF None _ enc] db' by blast
  next
    case False
    then obtain r c where "res = Registered c" "db1 = db\<lparr>rd_agents := rd_agents db @ [r]\<rparr>" "freshAgent env call k db r c"
      using decide insertNewAgent_fresh [of env call k db res db1] unfolding decideRegistration_def by metis
    then show ?thesis using Fresh [OF None _ _ enc] db' by simp
  qed
qed

section \<open>The invariant\<close>

definition rowOk :: "'k registry_environment \<Rightarrow> agent_row \<Rightarrow> bool" where
  "rowOk env r \<longleftrightarrow>
     isAgentId (ie_base64url (re_identity env)) (ar_agent_id r) \<and>
     b64_decode (ie_base64url (re_identity env)) (drop 4 (ar_agent_id r)) = Some (ar_agent_id_bytes r) \<and>
     (\<exists>c. cardIssued env c \<and> encodeRegistryAgentCard (re_identity env) c = Some (ar_agent_card_bytes r) \<and>
        ac_agentId c = ar_agent_id r \<and> ac_agentName c = ar_agent_name r \<and> ac_principalId c = ar_principal_id r \<and>
        jv_thumbprintUri (re_jose env) (ac_publicKey c) = Some (ar_public_key_thumbprint r))"

definition operationOk :: "'k registry_environment \<Rightarrow> agent_row list \<Rightarrow> operation_row \<Rightarrow> bool" where
  "operationOk env agents entry \<longleftrightarrow>
     (\<exists>result request. encodeResult env result = Inr (or_result_bytes entry) \<and>
        canonicalRegisterRequest env request = Inr (or_request_bytes entry) \<and>
        (\<forall>c. result = Registered c \<longrightarrow> cardIssued env c \<and> cardMatches c request \<and>
           (\<exists>r\<in>set agents. ar_agent_id r = ac_agentId c \<and> ar_agent_name r = ac_agentName c \<and>
              encodeRegistryAgentCard (re_identity env) c = Some (ar_agent_card_bytes r))))"

definition registryInv :: "'k registry_environment \<Rightarrow> registry_db \<Rightarrow> bool" where
  "registryInv env db \<longleftrightarrow>
     distinct (map ar_agent_id (rd_agents db)) \<and> distinct (map ar_agent_id_bytes (rd_agents db)) \<and>
     distinct (map ar_agent_name (rd_agents db)) \<and> distinct (map ar_public_key_thumbprint (rd_agents db)) \<and>
     distinct (map (\<lambda>e. (or_public_key_thumbprint e, or_operation_id e)) (rd_operations db)) \<and>
     distinct (map nr_nonce (rd_nonces db)) \<and>
     list_all (rowOk env) (rd_agents db) \<and> list_all (operationOk env (rd_agents db)) (rd_operations db)"

lemma operationOk_mono: "operationOk env agents e \<Longrightarrow> set agents \<subseteq> set agents' \<Longrightarrow> operationOk env agents' e"
  unfolding operationOk_def by blast

lemma findStoredOperation_None:
  "findStoredOperation db k i = None \<longleftrightarrow> (k, i) \<notin> (\<lambda>e. (or_public_key_thumbprint e, or_operation_id e)) ` set (rd_operations db)"
proof -
  have "findStoredOperation db k i = None \<longleftrightarrow>
      filter (\<lambda>r. or_public_key_thumbprint r = k \<and> or_operation_id r = i) (rd_operations db) = []"
    by (simp add: findStoredOperation_def split: list.split)
  then show ?thesis by (auto simp: filter_empty_conv)
qed

lemma findStoredOperation_Some:
  assumes "findStoredOperation db k i = Some e"
  shows "e \<in> set (rd_operations db)" and "or_public_key_thumbprint e = k" and "or_operation_id e = i"
proof -
  obtain rest where "filter (\<lambda>r. or_public_key_thumbprint r = k \<and> or_operation_id r = i) (rd_operations db) = e # rest"
    using assms by (auto simp: findStoredOperation_def split: list.splits)
  then have "e \<in> set (filter (\<lambda>r. or_public_key_thumbprint r = k \<and> or_operation_id r = i) (rd_operations db))" by simp
  then show "e \<in> set (rd_operations db)" "or_public_key_thumbprint e = k" "or_operation_id e = i" by simp_all
qed

lemma freshAgent_rowOk:
  assumes laws: "registryLaws env input" and fresh: "freshAgent env call k db r c"
    and thumb: "jv_thumbprintUri (re_jose env) (rr_publicKey (rc_request call)) = Some k"
  shows "rowOk env r" and "cardIssued env c" and "cardMatches c (rc_request call)" and "ac_agentId c = ar_agent_id r"
proof -
  obtain issuedAt where i: "issueAgentCard env (ar_agent_id r) (rc_request call) issuedAt = Some c"
    using fresh by (auto simp: freshAgent_def)
  note facts = issueAgentCard_issued [OF laws i]
  show "cardIssued env c" "cardMatches c (rc_request call)" "ac_agentId c = ar_agent_id r" by (fact facts)+
  then show "rowOk env r"
    using fresh thumb by (auto simp: rowOk_def freshAgent_def cardMatches_def)
qed

lemma freshAgent_new:
  "freshAgent env call k db r c \<Longrightarrow>
     ar_agent_id r \<notin> ar_agent_id ` set (rd_agents db) \<and> ar_agent_id_bytes r \<notin> ar_agent_id_bytes ` set (rd_agents db) \<and>
     ar_agent_name r \<notin> ar_agent_name ` set (rd_agents db) \<and>
     ar_public_key_thumbprint r \<notin> ar_public_key_thumbprint ` set (rd_agents db)"
  by (auto simp: freshAgent_def keyIsRegistered_def nameIsRegistered_def retainedCount_def filter_empty_conv)

lemma registerTransaction_inv:
  assumes laws: "registryLaws env input" and inv: "registryInv env db"
    and thumb: "jv_thumbprintUri (re_jose env) (rr_publicKey (rc_request call)) = Some k"
    and bytes: "canonicalRegisterRequest env (rc_request call) = Inr (rc_requestBytes call)"
    and run: "registerTransaction env input call k db = Inr (res, db')"
  shows "registryInv env db'"
  using run
proof (cases rule: registerTransaction_cases)
  case (Refused b)
  then have "operationOk env (rd_agents db) (operationRow k call b)"
    using bytes by (auto simp: operationOk_def)
  then show ?thesis using inv Refused(1,4) by (auto simp: registryInv_def findStoredOperation_None)
next
  case (Fresh b r c)
  note row = freshAgent_rowOk [OF laws Fresh(3) thumb]
  have "ar_agent_name r = ac_agentName c" "encodeRegistryAgentCard (re_identity env) c = Some (ar_agent_card_bytes r)"
    using Fresh(3) row(3) by (auto simp: freshAgent_def cardMatches_def)
  then have "operationOk env (rd_agents db @ [r]) (operationRow k call b)"
    unfolding operationOk_def using bytes Fresh(2,4) row
    by (intro exI [of _ res] exI [of _ "rc_request call"]) simp
  moreover have "list_all (operationOk env (rd_agents db @ [r])) (rd_operations db)"
    using inv operationOk_mono [of env "rd_agents db" _ "rd_agents db @ [r]"] by (auto simp: registryInv_def list_all_iff)
  ultimately show ?thesis
    using inv Fresh(1,5) freshAgent_new [OF Fresh(3)] row(1) by (simp add: registryInv_def findStoredOperation_None)
qed (use inv in simp_all)

lemma registerHandler_run:
  assumes "registerHandler env input request randomBytes now db = (answer, db')"
  obtains (Failed) "db' = db" and "\<exists>e. answer = Inl e"
  | (Done) bytes k res where "canonicalRegisterRequest env request = Inr bytes"
      and "jv_thumbprintUri (re_jose env) (rr_publicKey request) = Some k" and "answer = Inr res"
      and "registerTransaction env input \<lparr>rc_request = request, rc_requestBytes = bytes, rc_randomBytes = randomBytes,
             rc_currentTimeMillis = now\<rparr> k db = Inr (res, db')"
proof (cases "canonicalRegisterRequest env request")
  case (Inl e)
  then have "db' = db" "answer = Inl e" using assms by (simp_all add: registerHandler_def)
  then show ?thesis using Failed by blast
next
  case (Inr bytes)
  let ?call = "\<lparr>rc_request = request, rc_requestBytes = bytes, rc_randomBytes = randomBytes, rc_currentTimeMillis = now\<rparr>"
  note req = Inr
  show ?thesis
  proof (cases "jv_thumbprintUri (re_jose env) (rr_publicKey request)")
    case None
    then have "db' = db" "answer = Inl StorageInternalError"
      using assms req by (simp_all add: registerHandler_def registryRegister_def internalFailure_def withStorageDeadline_def)
    then show ?thesis using Failed by blast
  next
    case (Some k)
    have run: "(withStorageDeadline (fst (withTransaction (registerTransaction env input ?call k) db)),
        snd (withTransaction (registerTransaction env input ?call k) db)) = (answer, db')"
      using assms req Some by (simp add: registerHandler_def registryRegister_def internalFailure_def case_prod_unfold Let_def)
    show ?thesis
    proof (cases "registerTransaction env input ?call k db")
      case (Inl e)
      then have "db' = db" "\<exists>e. answer = Inl e"
        using run by (cases e; auto simp: withTransaction_def withStorageDeadline_def)+
      then show ?thesis using Failed by blast
    next
      case (Inr p)
      obtain res db1 where p: "p = (res, db1)" by (cases p)
      have "answer = Inr res" "db' = db1"
        using run Inr p by (auto simp: withTransaction_def withStorageDeadline_def)
      then show ?thesis using Done [OF req Some] Inr p by simp
    qed
  qed
qed

lemma claimRegistrationNonce_Inr: "\<exists>r. claimRegistrationNonce claim db = (Inr r, snd (claimRegistrationNonce claim db))"
  by (auto simp: claimRegistrationNonce_def withTransaction_def claimNonceTransaction_def withStorageDeadline_def Let_def)

lemma claimRegistrationNonce_db:
  "snd (claimRegistrationNonce claim db) =
     (let kept = filter (\<lambda>r. \<not> nr_expires_at r < nc_now claim) (rd_nonces db) in
      db\<lparr>rd_nonces := kept @ (if filter (\<lambda>r. nr_nonce r = nc_nonce claim) kept = [] \<and> length kept < nc_capacity claim
          then [\<lparr>nr_nonce = nc_nonce claim, nr_expires_at = nc_expires claim\<rparr>] else [])\<rparr>)"
  by (simp add: claimRegistrationNonce_def withTransaction_def claimNonceTransaction_def retainedCount_def Let_def
      del: filter_filter)

lemma distinct_map_extend:
  "distinct (map f xs) \<Longrightarrow> (P \<Longrightarrow> f y \<notin> f ` set xs) \<Longrightarrow> distinct (map f (xs @ (if P then [y] else [])))"
  by simp

lemma claimRegistrationNonce_distinct:
  assumes "distinct (map nr_nonce (rd_nonces db))"
  shows "distinct (map nr_nonce (rd_nonces (snd (claimRegistrationNonce claim db))))"
proof -
  let ?kept = "filter (\<lambda>r. \<not> nr_expires_at r < nc_now claim) (rd_nonces db)"
  have "distinct (map nr_nonce ?kept)" using assms by (rule distinct_map_filter)
  moreover have "nc_nonce claim \<notin> nr_nonce ` set ?kept" if "filter (\<lambda>r. nr_nonce r = nc_nonce claim) ?kept = []"
    using that unfolding filter_empty_conv by (metis imageE)
  ultimately have "distinct (map nr_nonce (?kept @ (if filter (\<lambda>r. nr_nonce r = nc_nonce claim) ?kept = [] \<and>
      length ?kept < nc_capacity claim then [\<lparr>nr_nonce = nc_nonce claim, nr_expires_at = nc_expires claim\<rparr>] else [])))"
    by (intro distinct_map_extend) simp_all
  then show ?thesis unfolding claimRegistrationNonce_db Let_def by simp
qed

lemma claimRegistrationNonce_keeps:
  "rd_agents (snd (claimRegistrationNonce claim db)) = rd_agents db"
  "rd_operations (snd (claimRegistrationNonce claim db)) = rd_operations db"
  by (simp_all add: claimRegistrationNonce_db Let_def)

lemma registryStep_inv:
  assumes "registryLaws env input" and "registryInv env db"
  shows "registryInv env (registryStep env input event db)"
proof (cases event)
  case (RegisterEvent request randomBytes now)
  obtain answer db' where h: "registerHandler env input request randomBytes now db = (answer, db')" by force
  then have "registryInv env db'"
  proof (cases rule: registerHandler_run)
    case (Done bytes k res)
    then show ?thesis using registerTransaction_inv [OF assms, of "\<lparr>rc_request = request, rc_requestBytes = bytes,
        rc_randomBytes = randomBytes, rc_currentTimeMillis = now\<rparr>" k res db'] by simp
  qed (use assms in simp)
  then show ?thesis by (simp add: registryStep_def RegisterEvent h)
next
  case (ClaimEvent claim)
  then show ?thesis using assms(2) claimRegistrationNonce_distinct [of db claim]
    by (simp add: registryStep_def registryInv_def claimRegistrationNonce_keeps)
qed

lemma registryRun_inv:
  "registryLaws env input \<Longrightarrow> registryInv env db \<Longrightarrow> registryInv env (registryRun env input events db)"
  by (induction events arbitrary: db) (simp_all add: registryRun_def registryStep_inv)

lemma registryInv_empty: "registryInv env emptyDb"
  by (simp add: registryInv_def emptyDb_def)

lemma sample_registryLaws: "registryLaws sampleRegistry sampleStorage"
proof -
  have "signerLaws sampleRegistry"
    by (simp add: signerLaws_def sampleRegistry_def registryIdentity_def rfc4648_def) blast
  then show ?thesis
    using rfc4648_laws registry_canonicalLaws
    by (simp add: registryLaws_def) (simp add: sampleRegistry_def sampleStorage_def registry_codec)
qed

lemma sample_registryRun:
  "registryRun sampleRegistry sampleStorage [RegisterEvent registryRequest (\<lambda>_. replicate 16 0) registryNow] emptyDb = registryDb"
  using sample_registers by (simp add: registryRun_def registryStep_def emptyDb_def)

section \<open>Persistence\<close>

lemma registryStep_appends:
  "\<exists>rows entries. rd_agents (registryStep env input event db) = rd_agents db @ rows \<and>
     rd_operations (registryStep env input event db) = rd_operations db @ entries"
proof (cases event)
  case (RegisterEvent request randomBytes now)
  obtain answer db' where h: "registerHandler env input request randomBytes now db = (answer, db')" by force
  have "\<exists>rows entries. rd_agents db' = rd_agents db @ rows \<and> rd_operations db' = rd_operations db @ entries"
    using h
  proof (cases rule: registerHandler_run)
    case (Done bytes k res)
    from Done(4) show ?thesis by (cases rule: registerTransaction_cases) auto
  qed simp
  then show ?thesis by (simp add: registryStep_def RegisterEvent h)
qed (simp add: registryStep_def claimRegistrationNonce_keeps)

lemma registryRun_appends:
  "\<exists>rows entries. rd_agents (registryRun env input events db) = rd_agents db @ rows \<and>
     rd_operations (registryRun env input events db) = rd_operations db @ entries"
proof (induction events arbitrary: db)
  case (Cons event events)
  show ?case
    using Cons.IH [of "registryStep env input event db"] registryStep_appends [of env input event db]
    by (auto simp: registryRun_def)
qed (simp add: registryRun_def)

lemma findStoredOperation_append:
  "findStoredOperation db k i = Some e \<Longrightarrow> rd_operations db' = rd_operations db @ entries \<Longrightarrow>
     findStoredOperation db' k i = Some e"
  by (auto simp: findStoredOperation_def split: list.splits)

text \<open>What a transaction that answered leaves behind: the operation whose repetition gives the same answer.\<close>

definition answers ::
  "'k registry_environment \<Rightarrow> storage_input \<Rightarrow> byte list \<Rightarrow> register_result \<Rightarrow> operation_row \<Rightarrow> bool" where
  "answers env input bytes res entry \<longleftrightarrow>
     (if or_request_bytes entry = bytes
      then decodeResult env (or_result_bytes entry) (si_registrySignerPublicKey input) = Inr res
      else res = IdempotencyConflict)"

lemma registerTransaction_answers:
  assumes laws: "registryLaws env input"
    and thumb: "jv_thumbprintUri (re_jose env) (rr_publicKey (rc_request call)) = Some k"
    and run: "registerTransaction env input call k db = Inr (res, db')"
  obtains entry where "findStoredOperation db' k (rr_operationId (rc_request call)) = Some entry"
    and "answers env input (rc_requestBytes call) res entry"
proof -
  have fresh: "findStoredOperation (db\<lparr>rd_agents := rows, rd_operations := rd_operations db @ [operationRow k call b]\<rparr>) k
      (rr_operationId (rc_request call)) = Some (operationRow k call b)"
    if "findStoredOperation db k (rr_operationId (rc_request call)) = None" for b rows
    using that by (simp add: findStoredOperation_def split: list.splits)
  show ?thesis
    using run
  proof (cases rule: registerTransaction_cases)
    case (Refused b)
    have "decodeResult env b (si_registrySignerPublicKey input) = Inr res"
      by (rule decodeResult_encoded [OF laws Refused(3)]) (use Refused(2) in auto)
    then show ?thesis
      using that [of "operationRow k call b"] fresh [OF Refused(1), of b "rd_agents db"] Refused(4)
      by (simp add: answers_def)
  next
    case (Fresh b r c)
    have "decodeResult env b (si_registrySignerPublicKey input) = Inr res"
      by (rule decodeResult_encoded [OF laws Fresh(4)]) (use Fresh(2) freshAgent_rowOk(2) [OF laws Fresh(3) thumb] in auto)
    then show ?thesis
      using that [of "operationRow k call b"] fresh [OF Fresh(1), of b "rd_agents db @ [r]"] Fresh(5)
      by (simp add: answers_def)
  qed (use that in \<open>auto simp: answers_def\<close>)
qed

lemma registerTransaction_repeated:
  "findStoredOperation db k (rr_operationId (rc_request call)) = Some entry \<Longrightarrow>
   answers env input (rc_requestBytes call) res entry \<Longrightarrow> registerTransaction env input call k db = Inr (res, db)"
  by (auto simp: registerTransaction_def sameBytes_iff answers_def split: if_splits)

lemma registerHandler_answers:
  assumes laws: "registryLaws env input" and "registerHandler env input request randomBytes now db = (Inr res, db')"
  obtains bytes k entry where "canonicalRegisterRequest env request = Inr bytes"
    and "jv_thumbprintUri (re_jose env) (rr_publicKey request) = Some k"
    and "findStoredOperation db' k (rr_operationId request) = Some entry" and "answers env input bytes res entry"
  using assms(2)
proof (cases rule: registerHandler_run)
  case (Done bytes k res')
  then show ?thesis using registerTransaction_answers [OF laws _ Done(4)] that by auto
qed simp

text \<open>
  C26: A registration that was answered is answered the same way whenever it is sent again, after
  any other registrations and replay checks, and sending it again changes nothing: the answer of an
  operation is decided once.
\<close>

theorem registration_retry_answer:
  assumes "registryLaws env input"
    and "registerHandler env input request randomBytes now db = (Inr res, db')"
  shows "registerHandler env input request randomBytes' now' (registryRun env input events db') =
    (Inr res, registryRun env input events db')"
proof -
  let ?db = "registryRun env input events db'"
  obtain bytes k entry where r: "canonicalRegisterRequest env request = Inr bytes"
    "jv_thumbprintUri (re_jose env) (rr_publicKey request) = Some k"
    "findStoredOperation db' k (rr_operationId request) = Some entry" "answers env input bytes res entry"
    by (rule registerHandler_answers [OF assms])
  obtain entries where "rd_operations ?db = rd_operations db' @ entries" using registryRun_appends by blast
  then have "findStoredOperation ?db k (rr_operationId request) = Some entry"
    by (rule findStoredOperation_append [OF r(3)])
  then have "registerTransaction env input \<lparr>rc_request = request, rc_requestBytes = bytes, rc_randomBytes = randomBytes',
      rc_currentTimeMillis = now'\<rparr> k ?db = Inr (res, ?db)"
    using r(4) by (intro registerTransaction_repeated) simp_all
  then show ?thesis
    using r(1,2) by (simp add: registerHandler_def registryRegister_def internalFailure_def withTransaction_def
        withStorageDeadline_def)
qed

theorem registration_retry_answer_witness:
  "registerHandler sampleRegistry sampleStorage registryRequest (\<lambda>_. []) 0 registryDb = (Inr (Registered registryCard), registryDb)"
  using registration_retry_answer [OF sample_registryLaws sample_registers, of "\<lambda>_. []" 0 "[]"] by (simp add: registryRun_def)

section \<open>Lookups\<close>

lemma filter_unique:
  "distinct (map f xs) \<Longrightarrow> r \<in> set xs \<Longrightarrow> filter (\<lambda>x. f x = f r) xs = [r]"
  by (induction xs) (auto simp: filter_empty_conv image_iff)

lemma registerRequestJson_members:
  "closedObject [''operationId'', ''principalId'', ''agentName'', ''publicKey''] (sortMembers (registerRequestJson q)) =
     Some [JStr (rr_operationId q), JStr (rr_principalId q), JStr (rr_agentName q),
       sortMembers (JObj [(''crv'', JStr ''Ed25519''), (''kty'', JStr ''OKP''), (''x'', JStr (rr_publicKey q))])]"
proof -
  have "closedObject [''operationId'', ''principalId'', ''agentName'', ''publicKey''] (registerRequestJson q) =
     Some [JStr (rr_operationId q), JStr (rr_principalId q), JStr (rr_agentName q),
       JObj [(''crv'', JStr ''Ed25519''), (''kty'', JStr ''OKP''), (''x'', JStr (rr_publicKey q))]]"
    by (simp add: closedObject_def registerRequestJson_def)
  from closedObject_sortMembers [OF this [unfolded registerRequestJson_def]] show ?thesis
    unfolding registerRequestJson_def by (simp del: sortMembers.simps(2))
qed

lemma publicKey_members:
  "closedObject [''crv'', ''kty'', ''x''] (sortMembers (JObj [(''crv'', JStr ''Ed25519''), (''kty'', JStr ''OKP''), (''x'', JStr key)])) =
     Some [JStr ''Ed25519'', JStr ''OKP'', JStr key]"
proof -
  have "closedObject [''crv'', ''kty'', ''x''] (JObj [(''crv'', JStr ''Ed25519''), (''kty'', JStr ''OKP''), (''x'', JStr key)]) =
     Some [JStr ''Ed25519'', JStr ''OKP'', JStr key]"
    by (simp add: closedObject_def)
  from closedObject_sortMembers [OF this] show ?thesis by (simp del: sortMembers.simps(2))
qed

lemma registerRequestJson_injective:
  fixes q q' :: register_request
  assumes "sortMembers (registerRequestJson q) = sortMembers (registerRequestJson q')"
  shows "q = q'"
proof -
  note members = registerRequestJson_members [of q, unfolded assms registerRequestJson_members [of q']]
  have key: "sortMembers (JObj [(''crv'', JStr ''Ed25519''), (''kty'', JStr ''OKP''), (''x'', JStr (rr_publicKey q'))]) =
      sortMembers (JObj [(''crv'', JStr ''Ed25519''), (''kty'', JStr ''OKP''), (''x'', JStr (rr_publicKey q))])"
    using members by (simp del: sortMembers.simps(2))
  have "rr_publicKey q = rr_publicKey q'"
    using publicKey_members [of "rr_publicKey q'", unfolded key publicKey_members] by simp
  moreover have "rr_operationId q = rr_operationId q'" "rr_principalId q = rr_principalId q'" "rr_agentName q = rr_agentName q'"
    using members by (simp_all del: sortMembers.simps(2))
  ultimately show ?thesis by simp
qed

lemma operationOk_Registered:
  assumes laws: "registryLaws env input" and ok: "operationOk env agents entry"
    and dec: "decodeResult env (or_result_bytes entry) (si_registrySignerPublicKey input) = Inr (Registered c)"
    and req: "canonicalRegisterRequest env request = Inr (or_request_bytes entry)"
  obtains r where "cardIssued env c" and "cardMatches c request" and "r \<in> set agents" and "ar_agent_id r = ac_agentId c"
    and "ar_agent_name r = ac_agentName c" and "encodeRegistryAgentCard (re_identity env) c = Some (ar_agent_card_bytes r)"
proof -
  obtain result request' where o: "encodeResult env result = Inr (or_result_bytes entry)"
    "canonicalRegisterRequest env request' = Inr (or_request_bytes entry)"
    "\<And>c. result = Registered c \<Longrightarrow> cardIssued env c \<and> cardMatches c request' \<and>
       (\<exists>r\<in>set agents. ar_agent_id r = ac_agentId c \<and> ar_agent_name r = ac_agentName c \<and>
          encodeRegistryAgentCard (re_identity env) c = Some (ar_agent_card_bytes r))"
    using ok unfolding operationOk_def by blast
  have "decodeResult env (or_result_bytes entry) (si_registrySignerPublicKey input) = Inr result"
    by (rule decodeResult_encoded [OF laws o(1)]) (use o(3) in blast)
  then have result: "result = Registered c" using dec by simp
  have keys: "distinctKeys (registerRequestJson q)" for q by (simp add: registerRequestJson_def)
  have "sortMembers (registerRequestJson request) = sortMembers (registerRequestJson request')"
    by (rule canonical_injective [OF registryLawsD(2) [OF laws] keys keys
        req [unfolded canonicalRegisterRequest_def ofOption_Inr_iff] o(2) [unfolded canonicalRegisterRequest_def ofOption_Inr_iff]])
  then have "request = request'" by (rule registerRequestJson_injective)
  then show ?thesis using o(3) [OF result] that by blast
qed

lemma registryLookup_row:
  assumes laws: "registryLaws env input" and inv: "registryInv env db" and r: "r \<in> set (rd_agents db)"
    and c: "cardIssued env c" "encodeRegistryAgentCard (re_identity env) c = Some (ar_agent_card_bytes r)"
  shows "registryLookup env input (ByAgentId (ar_agent_id r)) db = Inr (Found c)"
    and "registryLookup env input (ByAgentName (ar_agent_name r)) db = Inr (Found c)"
proof -
  have "filter (\<lambda>x. ar_agent_id x = ar_agent_id r) (rd_agents db) = [r]"
    and "filter (\<lambda>x. ar_agent_name x = ar_agent_name r) (rd_agents db) = [r]"
    using inv r by (auto simp: registryInv_def intro!: filter_unique)
  then show "registryLookup env input (ByAgentId (ar_agent_id r)) db = Inr (Found c)"
    and "registryLookup env input (ByAgentName (ar_agent_name r)) db = Inr (Found c)"
    using decodeStoredCard_issued [OF laws c]
    by (simp_all add: registryLookup_def findCardRows_def withStorageDeadline_def)
qed

text \<open>
  C25: A registration answered with a card gave out a card for exactly the requested name, principal
  and key, signed by the Registry, and from then on, whatever else is registered, looking the agent up
  by its identity or by its name returns this very card.
\<close>

theorem registered_cards_are_found:
  assumes laws: "registryLaws env input" and db: "db = registryRun env input before emptyDb"
    and register: "registerHandler env input request randomBytes now db = (Inr (Registered c), db')"
  shows "cardMatches c request \<and> verifyAgentCard (re_jose env) c (si_registrySignerPublicKey input) \<and>
    registryLookup env input (ByAgentId (ac_agentId c)) (registryRun env input events db') = Inr (Found c) \<and>
    registryLookup env input (ByAgentName (rr_agentName request)) (registryRun env input events db') = Inr (Found c)"
proof -
  let ?db = "registryRun env input events db'"
  have "db' = registryRun env input (before @ [RegisterEvent request randomBytes now]) emptyDb"
    using db register by (simp add: registryRun_def registryStep_def)
  then have inv': "registryInv env db'" using registryRun_inv [OF laws registryInv_empty] by blast
  obtain bytes k entry where r: "canonicalRegisterRequest env request = Inr bytes"
    "findStoredOperation db' k (rr_operationId request) = Some entry" "answers env input bytes (Registered c) entry"
    using registerHandler_answers [OF laws register] by blast
  have "operationOk env (rd_agents db') entry"
    using findStoredOperation_Some(1) [OF r(2)] inv' by (auto simp: registryInv_def list_all_iff)
  moreover have "or_request_bytes entry = bytes"
    "decodeResult env (or_result_bytes entry) (si_registrySignerPublicKey input) = Inr (Registered c)"
    using r(3) by (auto simp: answers_def split: if_splits)
  ultimately obtain row where c: "cardIssued env c" "cardMatches c request" and row: "row \<in> set (rd_agents db')"
    "ar_agent_id row = ac_agentId c" "ar_agent_name row = ac_agentName c"
    "encodeRegistryAgentCard (re_identity env) c = Some (ar_agent_card_bytes row)"
    using operationOk_Registered [OF laws, of "rd_agents db'" entry c request] r(1) by metis
  have "row \<in> set (rd_agents ?db)" using row(1) registryRun_appends [of env input events db'] by auto
  note found = registryLookup_row [OF laws registryRun_inv [OF laws inv'] this c(1) row(4)]
  show ?thesis
    using found c row(2,3) registryLawsD(4) [OF laws] by (simp add: cardMatches_def cardIssued_def)
qed

theorem registered_cards_are_found_witness:
  "cardMatches registryCard registryRequest \<and>
   registryLookup sampleRegistry sampleStorage (ByAgentName ''alice'') registryDb = Inr (Found registryCard)"
proof -
  have "emptyDb = registryRun sampleRegistry sampleStorage [] emptyDb" by (simp add: registryRun_def)
  from registered_cards_are_found [OF sample_registryLaws this sample_registers [folded emptyDb_def], of "[]"]
  show ?thesis by (simp add: registryRun_def registryRequest_def)
qed

section \<open>Listings\<close>

text \<open>A caller that follows \<^verbatim>\<open>hasMore\<close> with the last identity of each page, for at most \<open>n\<close> pages.\<close>

fun listPages ::
  "'k registry_environment \<Rightarrow> storage_input \<Rightarrow> registry_db \<Rightarrow> nat \<Rightarrow> agent_id option \<Rightarrow> (storage_error + agent_card list) option" where
  "listPages env input db 0 previous = None"
| "listPages env input db (Suc n) previous =
     (case registryList env input \<lparr>lr_afterAgentId = previous\<rparr> db of
        Inl e \<Rightarrow> Some (Inl e)
      | Inr page \<Rightarrow>
          if lp_hasMore page
          then map_option (mapE (\<lambda>rest. lp_agentCards page @ rest))
                 (listPages env input db n (Some (ac_agentId (last (lp_agentCards page)))))
          else Some (Inr (lp_agentCards page)))"

lemma strictly_sorted_suffix:
  fixes f :: "'a \<Rightarrow> 'b::linorder"
  assumes "sorted (map f ys)" and "distinct (map f ys)" and "n < length ys"
  shows "filter (\<lambda>y. f y > f (ys ! n)) ys = drop (Suc n) ys"
proof -
  have ys: "ys = take (Suc n) ys @ drop (Suc n) ys" by simp
  have "\<not> f y > f (ys ! n)" if y: "y \<in> set (take (Suc n) ys)" for y
  proof -
    obtain i where i: "i < length (take (Suc n) ys)" "take (Suc n) ys ! i = y" using y unfolding in_set_conv_nth by blast
    have "i < Suc n" using i(1) by simp
    then have "y = ys ! i" using i(2) by simp
    with \<open>i < Suc n\<close> have "i \<le> n" "y = ys ! i" by simp_all
    then show ?thesis using sorted_nth_mono [OF assms(1), of i n] assms(3) by simp
  qed
  moreover have "f y > f (ys ! n)" if y: "y \<in> set (drop (Suc n) ys)" for y
  proof -
    obtain i where "i < length (drop (Suc n) ys)" "drop (Suc n) ys ! i = y" using y unfolding in_set_conv_nth by blast
    then have i: "Suc n + i < length ys" "y = ys ! (Suc n + i)" by auto
    have "f (ys ! n) \<le> f y" using sorted_nth_mono [OF assms(1), of n "Suc n + i"] i by simp
    moreover have "f (ys ! n) \<noteq> f y" using i assms nth_eq_iff_index_eq [OF assms(2), of n "Suc n + i"] by simp
    ultimately show ?thesis by simp
  qed
  ultimately show ?thesis
    by (subst ys, subst filter_append) (simp del: append_take_drop_id)
qed

lemma filter_above:
  fixes f :: "'a \<Rightarrow> 'b::linorder"
  assumes "y \<in> set (filter (\<lambda>r. b < f r) xs)"
  shows "filter (\<lambda>r. f y < f r) xs = filter (\<lambda>r. f y < f r) (filter (\<lambda>r. b < f r) xs)"
  using assms by (auto intro!: filter_cong dest: less_trans)

definition rowsAfter :: "byte list option \<Rightarrow> registry_db \<Rightarrow> agent_row list" where
  "rowsAfter previous db =
     filter (\<lambda>r. case previous of None \<Rightarrow> True | Some b \<Rightarrow> ar_agent_id_bytes r > b) (sort_key ar_agent_id_bytes (rd_agents db))"

lemma readListRows_rowsAfter:
  "readListRows input previous db = map ar_agent_card_bytes (take (si_listPageSize input + 1) (rowsAfter previous db))"
  by (cases previous) (simp_all add: readListRows_def rowsAfter_def filter_sort Let_def)

lemma rowsAfter_step:
  assumes "registryInv env db" and "n < length (rowsAfter previous db)"
  shows "rowsAfter (Some (ar_agent_id_bytes (rowsAfter previous db ! n))) db = drop (Suc n) (rowsAfter previous db)"
proof -
  let ?rows = "rowsAfter previous db"
  have "mset (map ar_agent_id_bytes (sort_key ar_agent_id_bytes (rd_agents db))) = mset (map ar_agent_id_bytes (rd_agents db))"
    by simp
  then have "distinct (map ar_agent_id_bytes (sort_key ar_agent_id_bytes (rd_agents db)))"
    using assms(1) mset_eq_imp_distinct_iff unfolding registryInv_def by blast
  then have d: "distinct (map ar_agent_id_bytes ?rows)" unfolding rowsAfter_def by (rule distinct_map_filter)
  have s: "sorted (map ar_agent_id_bytes ?rows)" unfolding rowsAfter_def by (rule sorted_filter) simp
  have member: "?rows ! n \<in> set ?rows" using assms(2) by simp
  have "rowsAfter (Some (ar_agent_id_bytes (?rows ! n))) db = filter (\<lambda>r. ar_agent_id_bytes r > ar_agent_id_bytes (?rows ! n)) ?rows"
  proof (cases previous)
    case (Some b)
    then have "?rows ! n \<in> set (filter (\<lambda>r. b < ar_agent_id_bytes r) (sort_key ar_agent_id_bytes (rd_agents db)))"
      using member by (simp add: rowsAfter_def)
    from filter_above [OF this] show ?thesis unfolding Some rowsAfter_def by simp
  qed (simp add: rowsAfter_def)
  also have "\<dots> = drop (Suc n) ?rows" using s d assms(2) by (rule strictly_sorted_suffix)
  finally show ?thesis .
qed

lemma rowOk_decodes:
  assumes "registryLaws env input" and "rowOk env r"
  shows "\<exists>c. decodeStoredCard env (ar_agent_card_bytes r) (si_registrySignerPublicKey input) = Inr c \<and> ac_agentId c = ar_agent_id r"
  using assms(2) decodeStoredCard_issued [OF assms(1)] unfolding rowOk_def by blast

lemma forEachE_rows:
  assumes "registryLaws env input" and "list_all (rowOk env) rows"
  shows "\<exists>cards. forEachE (\<lambda>row. decodeStoredCard env row (si_registrySignerPublicKey input)) (map ar_agent_card_bytes rows) = Inr cards \<and>
    map ac_agentId cards = map ar_agent_id rows"
  using assms(2)
proof (induction rows)
  case (Cons r rows)
  obtain cards where "forEachE (\<lambda>row. decodeStoredCard env row (si_registrySignerPublicKey input)) (map ar_agent_card_bytes rows) = Inr cards"
    "map ac_agentId cards = map ar_agent_id rows"
    using Cons by auto
  moreover obtain c where "decodeStoredCard env (ar_agent_card_bytes r) (si_registrySignerPublicKey input) = Inr c" "ac_agentId c = ar_agent_id r"
    using Cons.prems rowOk_decodes [OF assms(1)] by auto
  ultimately show ?case by auto
qed simp

text \<open>The cursor a caller may send: none, or an identity with the decoded bytes \<open>b\<close>.\<close>

definition cursorBytes :: "base64url \<Rightarrow> agent_id option \<Rightarrow> byte list option \<Rightarrow> bool" where
  "cursorBytes b64 previous bytes \<longleftrightarrow>
     (case previous of None \<Rightarrow> bytes = None | Some agentId \<Rightarrow> bytes \<noteq> None \<and> b64_decode b64 (drop 4 agentId) = bytes)"

lemma registryList_page:
  assumes laws: "registryLaws env input" and inv: "registryInv env db"
    and cursor: "cursorBytes (ie_base64url (re_identity env)) previous bytes"
  obtains cards where "registryList env input \<lparr>lr_afterAgentId = previous\<rparr> db =
      Inr \<lparr>lp_agentCards = cards, lp_hasMore = si_listPageSize input < length (rowsAfter bytes db)\<rparr>"
    and "map ac_agentId cards = map ar_agent_id (take (si_listPageSize input) (rowsAfter bytes db))"
proof -
  let ?n = "si_listPageSize input"
  let ?rows = "take ?n (rowsAfter bytes db)"
  have "list_all (rowOk env) ?rows"
    using inv by (auto simp: registryInv_def list_all_iff rowsAfter_def dest!: in_set_takeD)
  from forEachE_rows [OF laws this] obtain cards where
    cards: "forEachE (\<lambda>row. decodeStoredCard env row (si_registrySignerPublicKey input)) (map ar_agent_card_bytes ?rows) = Inr cards"
    "map ac_agentId cards = map ar_agent_id ?rows" by blast
  have after: "(case previous of None \<Rightarrow> Inr None
      | Some agentId \<Rightarrow> mapE Some (registryAgentIdBytes (ie_base64url (re_identity env)) agentId)) = Inr bytes"
    using cursor by (auto simp: cursorBytes_def registryAgentIdBytes_def internalFailure_def split: option.splits)
  have "registryList env input \<lparr>lr_afterAgentId = previous\<rparr> db =
      Inr \<lparr>lp_agentCards = cards, lp_hasMore = ?n < length (rowsAfter bytes db)\<rparr>"
    using cards(1) by (simp add: registryList_def after readListRows_rowsAfter take_map Let_def withStorageDeadline_def min_def)
  then show ?thesis using that cards(2) by blast
qed

lemma listPages_complete:
  assumes laws: "registryLaws env input" and inv: "registryInv env db" and size: "0 < si_listPageSize input"
  shows "cursorBytes (ie_base64url (re_identity env)) previous bytes \<Longrightarrow> length (rowsAfter bytes db) < n \<Longrightarrow>
    \<exists>cards. listPages env input db n previous = Some (Inr cards) \<and> map ac_agentId cards = map ar_agent_id (rowsAfter bytes db)"
proof (induction n arbitrary: previous bytes)
  case (Suc n)
  let ?k = "si_listPageSize input" and ?rows = "rowsAfter bytes db"
  obtain cards where page: "registryList env input \<lparr>lr_afterAgentId = previous\<rparr> db =
      Inr \<lparr>lp_agentCards = cards, lp_hasMore = ?k < length ?rows\<rparr>"
    and ids: "map ac_agentId cards = map ar_agent_id (take ?k ?rows)"
    by (rule registryList_page [OF laws inv Suc.prems(1)])
  show ?case
  proof (cases "?k < length ?rows")
    case True
    let ?r = "?rows ! (?k - 1)"
    have len: "length cards = ?k" using arg_cong [OF ids, of length] True by simp
    then have ne: "cards \<noteq> []" using size by auto
    have "ac_agentId (last cards) = map ac_agentId cards ! (?k - 1)" using ne len size by (simp add: last_conv_nth)
    also have "\<dots> = ar_agent_id ?r" unfolding ids using True size by simp
    finally have last: "ac_agentId (last cards) = ar_agent_id ?r" .
    have "?r \<in> set ?rows" using True by simp
    then have "rowOk env ?r" using inv by (auto simp: registryInv_def list_all_iff rowsAfter_def)
    then have "cursorBytes (ie_base64url (re_identity env)) (Some (ar_agent_id ?r)) (Some (ar_agent_id_bytes ?r))"
      by (simp add: cursorBytes_def rowOk_def)
    moreover have rest: "rowsAfter (Some (ar_agent_id_bytes ?r)) db = drop ?k ?rows"
      using rowsAfter_step [OF inv, of "?k - 1" bytes] True size by simp
    moreover have "length (drop ?k ?rows) < n" using Suc.prems(2) True size by simp
    ultimately obtain others where "listPages env input db n (Some (ar_agent_id ?r)) = Some (Inr others)"
      and "map ac_agentId others = map ar_agent_id (drop ?k ?rows)"
      using Suc.IH by metis
    moreover have "map ac_agentId (cards @ others) = map ar_agent_id ?rows" if "map ac_agentId others = map ar_agent_id (drop ?k ?rows)"
      unfolding map_append ids that by (simp flip: map_append)
    ultimately show ?thesis using page last True by simp
  next
    case False
    then show ?thesis using page ids by simp
  qed
qed simp

text \<open>
  C27: Reading the directory page by page, each page starting after the last identity of the one
  before, ends within one page more than there are agents and returns the card of every
  registered agent exactly once, in the byte order of the identities.
\<close>

theorem listing_covers_directory:
  assumes laws: "registryLaws env input" and db: "db = registryRun env input events emptyDb"
    and size: "0 < si_listPageSize input" and pages: "length (rd_agents db) < n"
  shows "\<exists>cards. listPages env input db n None = Some (Inr cards) \<and>
    map ac_agentId cards = map ar_agent_id (sort_key ar_agent_id_bytes (rd_agents db)) \<and> distinct (map ac_agentId cards)"
proof -
  have inv: "registryInv env db" using registryRun_inv [OF laws registryInv_empty] db by blast
  have rows: "rowsAfter None db = sort_key ar_agent_id_bytes (rd_agents db)" by (simp add: rowsAfter_def)
  have "mset (map ar_agent_id (sort_key ar_agent_id_bytes (rd_agents db))) = mset (map ar_agent_id (rd_agents db))" by simp
  then have "distinct (map ar_agent_id (sort_key ar_agent_id_bytes (rd_agents db)))"
    using inv mset_eq_imp_distinct_iff unfolding registryInv_def by blast
  then show ?thesis
    using listPages_complete [OF laws inv size, of None None n] pages by (auto simp: rows cursorBytes_def)
qed

theorem listing_covers_directory_witness:
  "\<exists>cards. listPages sampleRegistry sampleStorage registryDb 2 None = Some (Inr cards) \<and>
     map ac_agentId cards = [''agt_AAAAAAAAAAAAAAAAAAAAAA'']"
  using listing_covers_directory [OF sample_registryLaws sample_registryRun [symmetric], of 2]
  by (auto simp: sampleStorage_def registryDb_def)

end
