(* ===== verification/Registry_Admission.thy ===== *)
theory Registry_Admission
  imports Http_Sample Registry_Facts
begin

text \<open>
  Bootstrap admission, \<^verbatim>\<open>packages/registry/src/admission.ts\<close>: the admission credential, the key a request
  claims, its signature, and the durable claim of its nonce, in the order the Registry checks them.
\<close>

record ('u, 'k) bootstrap_input =
  bi_identity :: identity_environment
  bi_library :: "('u, 'k) signature_library"
  bi_admissionCredential :: string
  bi_nonceCapacity :: nat

section \<open>The admission credential\<close>

text \<open>\<^verbatim>\<open>/^Sharness-Admission ((?=.{8,512}$)[A-Za-z0-9\-._~+/]+=*)$/\<close>\<close>

definition credentialChar :: "char \<Rightarrow> bool" where
  "credentialChar c \<longleftrightarrow> inCharRange (CHR ''A'') (CHR ''Z'') c \<or> inCharRange (CHR ''a'') (CHR ''z'') c \<or>
     inCharRange (CHR ''0'') (CHR ''9'') c \<or> c \<in> set ''-._~+/''"

definition readAdmissionCredential :: "string option \<Rightarrow> string option" where
  "readAdmissionCredential authorization =
     (case authorization of
        None \<Rightarrow> None
      | Some value \<Rightarrow>
          let credential = drop 19 value; token = rev (dropWhile (\<lambda>c. c = CHR ''='') (rev credential)) in
          if startsWith value ''Sharness-Admission '' \<and> 8 \<le> length credential \<and> length credential \<le> 512 \<and>
             token \<noteq> [] \<and> list_all credentialChar token
          then Some credential else None)"

definition sameCredential :: "(byte list \<Rightarrow> byte list) \<Rightarrow> string \<Rightarrow> string \<Rightarrow> bool" where
  "sameCredential sha256 received configured \<longleftrightarrow> sha256 (utf8Bytes received) = sha256 (utf8Bytes configured)"

definition requireAdmissionCredential :: "('u, 'k) bootstrap_input \<Rightarrow> http_request \<Rightarrow> router_http_error + unit" where
  "requireAdmissionCredential input request =
     (case readAdmissionCredential (header request ''authorization'') of
        None \<Rightarrow> Inl AuthenticationFailedError
      | Some credential \<Rightarrow>
          guardE (sameCredential (sl_sha256 (bi_library input)) credential (bi_admissionCredential input))
            AuthenticationFailedError)"

section \<open>The claimed key\<close>

definition memberOf :: "string \<Rightarrow> json \<Rightarrow> json option" where
  "memberOf name value = (case value of JObj ms \<Rightarrow> map_of ms name | _ \<Rightarrow> None)"

text \<open>\<^verbatim>\<open>minimumRegistrationBody\<close>: an open struct that reads only the key, as the coordinate of its JWK.\<close>

definition minimumRegistrationKey :: "base64url \<Rightarrow> json \<Rightarrow> string option" where
  "minimumRegistrationKey b64 parsedBody =
     Option.bind (Option.bind (memberOf ''request'' parsedBody) (memberOf ''publicKey'')) (\<lambda>key.
       case (memberOf ''crv'' key, memberOf ''kty'' key, memberOf ''x'' key) of
         (Some (JStr crv), Some (JStr kty), Some (JStr x)) \<Rightarrow>
           if crv = ''Ed25519'' \<and> kty = ''OKP'' \<and> hasCanonicalBase64UrlLength b64 x 32 then Some x else None
       | _ \<Rightarrow> None)"

definition authenticatePublicKey :: "base64url \<Rightarrow> string \<Rightarrow> router_http_error + string" where
  "authenticatePublicKey b64 x =
     ofOption AuthenticationFailedError
       (decodePublicKey b64 (JObj [(''crv'', JStr ''Ed25519''), (''kty'', JStr ''OKP''), (''x'', JStr x)]))"

definition admitPublicKey ::
  "('u, 'k) bootstrap_input \<Rightarrow> http_request \<Rightarrow> json \<Rightarrow> router_http_error + string" where
  "admitPublicKey input request parsedBody =
     bindE (ofOption MalformedRequestError (minimumRegistrationKey (ie_base64url (bi_identity input)) parsedBody)) (\<lambda>x.
     bindE (requireAdmissionCredential input request) (\<lambda>_.
       authenticatePublicKey (ie_base64url (bi_identity input)) x))"

section \<open>The claim of the nonce\<close>

definition envelopeError :: "storage_error \<Rightarrow> router_http_error" where
  "envelopeError e = (case e of StorageUnavailableError \<Rightarrow> UnavailableError | StorageInternalError \<Rightarrow> InternalServerError)"

definition claimOf :: "nat \<Rightarrow> verified_http_signature \<Rightarrow> nonce_claim" where
  "claimOf capacity signature =
     \<lparr>nc_nonce = vs_nonce signature, nc_expires = vs_expires signature, nc_now = vs_verifiedAt signature, nc_capacity = capacity\<rparr>"

definition claimBootstrapNonce ::
  "('u, 'k) bootstrap_input \<Rightarrow> verified_http_signature \<Rightarrow> registry_db \<Rightarrow> (router_http_error + unit) \<times> registry_db" where
  "claimBootstrapNonce input signature db =
     (case claimRegistrationNonce (claimOf (bi_nonceCapacity input) signature) db of
        (Inl e, db') \<Rightarrow> (Inl (envelopeError e), db')
      | (Inr Replayed, db') \<Rightarrow> (Inl AuthenticationFailedError, db')
      | (Inr Full, db') \<Rightarrow> (Inl OverloadedError, db')
      | (Inr Claimed, db') \<Rightarrow> (Inr (), db'))"

section \<open>The registration request\<close>

definition isOperationId :: "base64url \<Rightarrow> string \<Rightarrow> bool" where
  "isOperationId b64 = canonicalIdentifier b64 ''opn_'' 16"

definition decodeRegisterRequest :: "base64url \<Rightarrow> json \<Rightarrow> register_request option" where
  "decodeRegisterRequest b64 value =
     Option.bind (closedObject [''operationId'', ''principalId'', ''agentName'', ''publicKey''] value) (\<lambda>ms.
     Option.bind (asString (ms ! 0)) (\<lambda>operationId.
     Option.bind (asString (ms ! 1)) (\<lambda>principalId.
     Option.bind (asString (ms ! 2)) (\<lambda>agentName.
     Option.bind (decodePublicKey b64 (ms ! 3)) (\<lambda>publicKey.
       if isOperationId b64 operationId \<and> isPrincipalId b64 principalId \<and> isAgentName agentName
       then Some \<lparr>rr_operationId = operationId, rr_principalId = principalId, rr_agentName = agentName, rr_publicKey = publicKey\<rparr>
       else None)))))"

definition decodeRegistrationBody :: "base64url \<Rightarrow> json \<Rightarrow> register_request option" where
  "decodeRegistrationBody b64 value =
     Option.bind (closedObject [''request''] value) (\<lambda>ms. decodeRegisterRequest b64 (ms ! 0))"

definition verifyBootstrapRegistration ::
  "('u, 'k) bootstrap_input \<Rightarrow> http_request \<Rightarrow> byte list \<Rightarrow> int \<Rightarrow> registry_db \<Rightarrow>
     (router_http_error + register_request) \<times> registry_db" where
  "verifyBootstrapRegistration input request bodyBytes nowMillis db =
     (case verifyBootstrapRequest (bi_identity input) (bi_library input) request bodyBytes nowMillis
             (admitPublicKey input request) (claimBootstrapNonce input) db of
        (Inl e, db') \<Rightarrow> (Inl e, db')
      | (Inr (parsedBody, _), db') \<Rightarrow>
          (ofOption MalformedRequestError (decodeRegistrationBody (ie_base64url (bi_identity input)) parsedBody), db'))"

section \<open>The nonce table keeps the promise\<close>

definition registryClaim :: "nonce_claim \<Rightarrow> registry_db \<Rightarrow> claim_result \<times> registry_db" where
  "registryClaim c db = (case claimRegistrationNonce c db of (Inr r, db') \<Rightarrow> (r, db') | (Inl _, db') \<Rightarrow> (Full, db'))"

definition nonceLive :: "registry_db \<Rightarrow> string \<Rightarrow> int \<Rightarrow> bool" where
  "nonceLive db n e \<longleftrightarrow> \<lparr>nr_nonce = n, nr_expires_at = e\<rparr> \<in> set (rd_nonces db)"

lemma registryClaim_eq:
  "registryClaim c db =
     (let kept = filter (\<lambda>r. \<not> nr_expires_at r < nc_now c) (rd_nonces db) in
      if nc_nonce c \<in> nr_nonce ` set kept then (Replayed, db\<lparr>rd_nonces := kept\<rparr>)
      else if length kept \<ge> nc_capacity c then (Full, db\<lparr>rd_nonces := kept\<rparr>)
      else (Claimed, db\<lparr>rd_nonces := kept @ [\<lparr>nr_nonce = nc_nonce c, nr_expires_at = nc_expires c\<rparr>]\<rparr>))"
proof -
  let ?kept = "filter (\<lambda>r. \<not> nr_expires_at r < nc_now c) (rd_nonces db)"
  have "claimNonceTransaction c db = Inr (let kept = ?kept in
      if nc_nonce c \<in> nr_nonce ` set kept then (Replayed, db\<lparr>rd_nonces := kept\<rparr>)
      else if length kept \<ge> nc_capacity c then (Full, db\<lparr>rd_nonces := kept\<rparr>)
      else (Claimed, db\<lparr>rd_nonces := kept @ [\<lparr>nr_nonce = nc_nonce c, nr_expires_at = nc_expires c\<rparr>]\<rparr>))"
    unfolding claimNonceTransaction_def Let_def registry_db.select_convs registry_db.update_convs
    by (simp add: retainedCount_def) (auto simp: filter_empty_conv image_iff)
  then show ?thesis
    by (simp add: registryClaim_def claimRegistrationNonce_def withTransaction_def withStorageDeadline_def Let_def)
qed

interpretation registry_nonces: nonce_store registryClaim nonceLive "\<lambda>db. length (rd_nonces db)"
proof
  fix c :: nonce_claim and s s' :: registry_db and n e
  show "registryClaim c s = (Claimed, s') \<Longrightarrow> nonceLive s' (nc_nonce c) (nc_expires c)"
    by (auto simp: registryClaim_eq nonceLive_def Let_def split: if_splits)
  show "nonceLive s n e \<Longrightarrow> nc_now c \<le> e \<Longrightarrow> nonceLive (snd (registryClaim c s)) n e"
    by (auto simp: registryClaim_eq nonceLive_def Let_def)
  show "nonceLive s n e \<Longrightarrow> nc_now c \<le> e \<Longrightarrow> nc_nonce c = n \<Longrightarrow> fst (registryClaim c s) = Replayed"
    by (force simp: registryClaim_eq nonceLive_def Let_def image_iff)
  show "registryClaim c s = (Claimed, s') \<Longrightarrow> length (rd_nonces s') \<le> nc_capacity c"
    by (auto simp: registryClaim_eq Let_def split: if_splits)
  show "fst (registryClaim c s) \<noteq> Claimed \<Longrightarrow> length (rd_nonces (snd (registryClaim c s))) \<le> length (rd_nonces s)"
    by (auto simp: registryClaim_eq Let_def split: if_splits)
qed

section \<open>What an admitted request shows\<close>

lemma closedObject_length: "closedObject names v = Some vs \<Longrightarrow> length vs = length names"
  by (cases v) (auto simp: closedObject_def split: if_splits)

lemma closedObject_memberOf:
  assumes "closedObject names v = Some vs" and "i < length names"
  shows "memberOf (names ! i) v = Some (vs ! i)"
proof -
  obtain ms where v: "v = JObj ms" and keys: "set (map fst ms) = set names" and vs: "vs = map (\<lambda>n. the (map_of ms n)) names"
    using assms(1) by (auto simp: closedObject_def split: json.splits if_splits)
  have "names ! i \<in> fst ` set ms" using keys nth_mem [OF assms(2)] by simp
  then obtain w where "map_of ms (names ! i) = Some w" by (metis map_of_eq_None_iff not_None_eq)
  then show ?thesis using assms(2) by (simp add: v vs memberOf_def)
qed

lemma claimBootstrapNonce_Inr:
  "claimBootstrapNonce input signature db = (Inr u, db') \<Longrightarrow>
     registryClaim (claimOf (bi_nonceCapacity input) signature) db = (Claimed, db')"
  by (auto simp: claimBootstrapNonce_def registryClaim_def split: prod.splits sum.splits claim_result.splits)

lemma verifyBootstrapRegistration_Inr:
  assumes "verifyBootstrapRegistration input request bodyBytes nowMillis db = (Inr r, db')"
  obtains parsedBody publicKey signature version where
    "decodeCanonicalJson (bi_identity input) bodyBytes = Some parsedBody"
    and "admitPublicKey input request parsedBody = Inr publicKey"
    and "verifyHttpRequestSignature (bi_library input) request bodyBytes publicKey RegistrationProfile nowMillis = Inr signature"
    and "registryClaim (claimOf (bi_nonceCapacity input) signature) db = (Claimed, db')"
    and "header request ''sharness-version'' = Some version" and "version \<in> set LIVE_WIRE_VERSIONS"
    and "decodeRegistrationBody (ie_base64url (bi_identity input)) parsedBody = Some r"
proof -
  obtain parsedBody signature where v: "verifyBootstrapRequest (bi_identity input) (bi_library input) request bodyBytes nowMillis
        (admitPublicKey input request) (claimBootstrapNonce input) db = (Inr (parsedBody, signature), db')"
    and r: "decodeRegistrationBody (ie_base64url (bi_identity input)) parsedBody = Some r"
    using assms by (auto simp: verifyBootstrapRegistration_def ofOption_Inr_iff split: prod.splits sum.splits)
  have "decodeCanonicalJson (bi_identity input) bodyBytes = Some parsedBody"
    using v by (auto simp: verifyBootstrapRequest_def split: option.splits sum.splits prod.splits if_splits)
  moreover obtain publicKey where "admitPublicKey input request parsedBody = Inr publicKey"
    "verifyHttpRequestSignature (bi_library input) request bodyBytes publicKey RegistrationProfile nowMillis = Inr signature"
    using v by (auto simp: verifyBootstrapRequest_def bindE_Inr_iff split: option.splits sum.splits prod.splits if_splits)
  moreover have "claimBootstrapNonce input signature db = (Inr (), db')"
    using v by (auto simp: verifyBootstrapRequest_def split: option.splits sum.splits prod.splits if_splits)
  then have "registryClaim (claimOf (bi_nonceCapacity input) signature) db = (Claimed, db')"
    by (rule claimBootstrapNonce_Inr)
  moreover obtain version where "header request ''sharness-version'' = Some version" "version \<in> set LIVE_WIRE_VERSIONS"
    using v by (auto simp: verifyBootstrapRequest_def split: option.splits sum.splits prod.splits if_splits)
  ultimately show ?thesis using that r by blast
qed

lemma admitPublicKey_Inr:
  assumes "admitPublicKey input request parsedBody = Inr x"
  shows "minimumRegistrationKey (ie_base64url (bi_identity input)) parsedBody = Some x"
    and "requireAdmissionCredential input request = Inr ()"
  using assms
  by (auto simp: admitPublicKey_def resultE_iffs authenticatePublicKey_def decodePublicKey_def closedObject_def split: if_splits)

lemma asStrings_Some: "asStrings ks = Some ss \<Longrightarrow> ks = map JStr ss"
  by (induction ks arbitrary: ss) (auto simp: asString_def split: option.splits json.splits)

lemma registration_keys_agree:
  assumes "decodeRegistrationBody b64 parsedBody = Some r" and "minimumRegistrationKey b64 parsedBody = Some x"
  shows "rr_publicKey r = x"
proof -
  obtain ms vs where m: "closedObject [''request''] parsedBody = Some ms"
    and v: "closedObject [''operationId'', ''principalId'', ''agentName'', ''publicKey''] (ms ! 0) = Some vs"
    and k: "decodePublicKey b64 (vs ! 3) = Some (rr_publicKey r)"
    using assms(1) by (auto simp: decodeRegistrationBody_def decodeRegisterRequest_def bind_eq_Some_conv split: if_splits)
  obtain ks ss where c: "closedObject [''crv'', ''kty'', ''x''] (vs ! 3) = Some ks" and s: "asStrings ks = Some ss"
    and key: "rr_publicKey r = ss ! 2"
    using k by (auto simp: decodePublicKey_def bind_eq_Some_conv split: if_splits)
  have "length ks = 3" using closedObject_length [OF c] by simp
  then have "ks ! 2 = JStr (ss ! 2)" using asStrings_Some [OF s] by simp
  moreover have "memberOf ''request'' parsedBody = Some (ms ! 0)" "memberOf ''publicKey'' (ms ! 0) = Some (vs ! 3)"
    "memberOf ''x'' (vs ! 3) = Some (ks ! 2)"
    using closedObject_memberOf [OF m, of 0] closedObject_memberOf [OF v, of 3] closedObject_memberOf [OF c, of 2] by simp_all
  ultimately show ?thesis
    using assms(2) key by (auto simp: minimumRegistrationKey_def split: option.splits json.splits if_splits)
qed

text \<open>The claim of a nonce that succeeds: no live row held it, and one holds it afterwards.\<close>

lemma registryClaim_fresh:
  assumes "registryClaim c db = (Claimed, db')"
  shows "\<not> list_ex (\<lambda>row. nr_nonce row = nc_nonce c \<and> nc_now c \<le> nr_expires_at row) (rd_nonces db)"
    and "\<lparr>nr_nonce = nc_nonce c, nr_expires_at = nc_expires c\<rparr> \<in> set (rd_nonces db')"
  using assms by (auto simp: registryClaim_eq Let_def list_ex_iff image_iff split: if_splits)

text \<open>
  C28: The Registry admits a bootstrap request only with the configured admission credential and with a signature,
  verified under the key the request registers and for the URL its own target and host form, that covers the method, the
  target, the credential and the digest of this very body, within its times. The nonce the signature input names had no
  live claim and has one afterwards, until the signature's expiry. The request returned is the closed decoding of the
  body, and its wire version is live.
\<close>

theorem bootstrap_admission_sound:
  assumes "verifyBootstrapRegistration input request bodyBytes nowMillis db = (Inr r, db')"
  shows "\<exists>credential nonce expires.
    header request ''authorization'' = Some (''Sharness-Admission '' @ credential) \<and>
    sameCredential (sl_sha256 (bi_library input)) credential (bi_admissionCredential input) \<and>
    signedRequest (bi_library input) RegistrationProfile request bodyBytes (rr_publicKey r) (nowMillis div 1000) nonce expires \<and>
    \<not> list_ex (\<lambda>row. nr_nonce row = nonce \<and> nowMillis div 1000 \<le> nr_expires_at row) (rd_nonces db) \<and>
    \<lparr>nr_nonce = nonce, nr_expires_at = expires\<rparr> \<in> set (rd_nonces db') \<and>
    Option.bind (decodeCanonicalJson (bi_identity input) bodyBytes) (decodeRegistrationBody (ie_base64url (bi_identity input))) = Some r \<and>
    (\<exists>version\<in>set LIVE_WIRE_VERSIONS. header request ''sharness-version'' = Some version)"
proof -
  obtain parsedBody publicKey signature version where a:
    "decodeCanonicalJson (bi_identity input) bodyBytes = Some parsedBody"
    "admitPublicKey input request parsedBody = Inr publicKey"
    "verifyHttpRequestSignature (bi_library input) request bodyBytes publicKey RegistrationProfile nowMillis = Inr signature"
    "registryClaim (claimOf (bi_nonceCapacity input) signature) db = (Claimed, db')"
    "header request ''sharness-version'' = Some version" "version \<in> set LIVE_WIRE_VERSIONS"
    "decodeRegistrationBody (ie_base64url (bi_identity input)) parsedBody = Some r"
    by (rule verifyBootstrapRegistration_Inr [OF assms])
  have key: "publicKey = rr_publicKey r"
    using registration_keys_agree [OF a(7) admitPublicKey_Inr(1) [OF a(2)]] by simp
  obtain credential where c: "readAdmissionCredential (header request ''authorization'') = Some credential"
    "sameCredential (sl_sha256 (bi_library input)) credential (bi_admissionCredential input)"
    using admitPublicKey_Inr(2) [OF a(2)] by (auto simp: requireAdmissionCredential_def guardE_Inr_iff split: option.splits)
  then obtain auth where h: "header request ''authorization'' = Some auth" "startsWith auth ''Sharness-Admission ''" "credential = drop 19 auth"
    by (auto simp: readAdmissionCredential_def Let_def split: option.splits if_splits)
  have "length ''Sharness-Admission '' = 19" by simp
  then have "take 19 auth = ''Sharness-Admission ''" using h(2) unfolding startsWith_def by presburger
  moreover have "auth = take 19 auth @ drop 19 auth" by simp
  ultimately have auth: "auth = ''Sharness-Admission '' @ credential" using h(3) by metis
  note signed = verified_signed [OF a(3), unfolded key]
  note fresh = registryClaim_fresh [OF a(4), unfolded claimOf_def nonce_claim.select_convs signed(2)]
  show ?thesis
    by (intro exI [of _ credential] exI [of _ "vs_nonce signature"] exI [of _ "vs_expires signature"])
      (use auth h(1) c(2) a signed(1) fresh in auto)
qed

section \<open>A concrete request\<close>

definition bootstrapBody :: json where
  "bootstrapBody = JObj [(''request'', JObj [(''agentName'', JStr ''alice''), (''operationId'', JStr ''opn_AAAAAAAAAAAAAAAAAAAAAA''),
     (''principalId'', JStr ''prn_AAAAAAAAAAAAAAAAAAAAAA''),
     (''publicKey'', JObj [(''crv'', JStr ''Ed25519''), (''kty'', JStr ''OKP''), (''x'', JStr registryKey)])])]"

definition bootstrapInput :: "(unit, unit) bootstrap_input" where
  "bootstrapInput = \<lparr>bi_identity = \<lparr>ie_base64url = rfc4648, ie_parseJson = (\<lambda>_. Some bootstrapBody), ie_canonicalize = (\<lambda>_. Some ''b'')\<rparr>,
     bi_library = (sampleLibrary RegistrationProfile), bi_admissionCredential = ''secret-1'', bi_nonceCapacity = 4\<rparr>"

definition bootstrapDb :: registry_db where
  "bootstrapDb = emptyDb\<lparr>rd_nonces := [\<lparr>nr_nonce = ''AAAAAAAAAAAAAAAAAAAAAA'', nr_expires_at = 300\<rparr>]\<rparr>"

lemma bootstrap_admits:
  "verifyBootstrapRegistration bootstrapInput (sampleHttpRequest RegistrationProfile) (utf8Bytes ''b'') 1000 emptyDb = (Inr registryRequest, bootstrapDb)"
proof -
  have v: "visitJsonValue bootstrapBody 0"
    unfolding bootstrapBody_def by (auto simp: MAXIMUM_CONTAINER_DEPTH_def intro!: hasWellFormedUnicode_ascii registry_ascii)
  have b: "decodeText (utf8Bytes ''b'') = Some ''b''" by code_simp
  have parse: "decodeCanonicalJson (bi_identity bootstrapInput) (utf8Bytes ''b'') = Some bootstrapBody"
    using v b by (simp add: parseCanonicalJson_def bootstrapInput_def)
  have o: "isOperationId rfc4648 ''opn_AAAAAAAAAAAAAAAAAAAAAA''" and n: "isAgentName ''alice''"
    using registry_final by (simp_all add: isOperationId_def canonicalIdentifier_def startsWith_def isAgentName_def inCharRange_def Let_def)
  have x: "hasCanonicalBase64UrlLength rfc4648 registryKey 32" by code_simp
  have "minimumRegistrationKey rfc4648 bootstrapBody = Some registryKey"
    by (simp add: minimumRegistrationKey_def bootstrapBody_def memberOf_def x)
  moreover have "requireAdmissionCredential bootstrapInput (sampleHttpRequest RegistrationProfile) = Inr ()"
    by (simp add: requireAdmissionCredential_def readAdmissionCredential_def sampleHttpRequest_headers
        startsWith_def credentialChar_def inCharRange_def sameCredential_def bootstrapInput_def Let_def)
  ultimately have admit: "admitPublicKey bootstrapInput (sampleHttpRequest RegistrationProfile) bootstrapBody = Inr registryKey"
    by (simp add: admitPublicKey_def authenticatePublicKey_def bootstrapInput_def registry_key)
  have claim: "claimBootstrapNonce bootstrapInput sampleReplayMaterial emptyDb = (Inr (), bootstrapDb)"
    by (simp add: claimBootstrapNonce_def claimOf_def claimRegistrationNonce_def withTransaction_def claimNonceTransaction_def
        retainedCount_def withStorageDeadline_def bootstrapInput_def emptyDb_def bootstrapDb_def)
  have dec: "decodeRegistrationBody rfc4648 bootstrapBody = Some registryRequest"
    by (simp add: decodeRegistrationBody_def decodeRegisterRequest_def bootstrapBody_def closedObject_def registry_key registry_ids o n
        registryRequest_def insert_commute)
  have h: "header (sampleHttpRequest RegistrationProfile) ''sharness-version'' = Some WIRE_VERSION"
    by (rule sampleHttpRequest_headers)
  have i: "bi_library bootstrapInput = (sampleLibrary RegistrationProfile)" "ie_base64url (bi_identity bootstrapInput) = rfc4648"
    by (simp_all add: bootstrapInput_def)
  show ?thesis
    unfolding verifyBootstrapRegistration_def verifyBootstrapRequest_def parse i
    by (simp add: admit sample_verifies claim h dec LIVE_WIRE_VERSIONS_def)
qed

theorem bootstrap_admission_sound_witness:
  "\<exists>credential nonce expires. header (sampleHttpRequest RegistrationProfile) ''authorization'' = Some (''Sharness-Admission '' @ credential) \<and>
     sameCredential (sl_sha256 (sampleLibrary RegistrationProfile)) credential ''secret-1'' \<and>
     signedRequest (sampleLibrary RegistrationProfile) RegistrationProfile (sampleHttpRequest RegistrationProfile) (utf8Bytes ''b'')
       registryKey 1 nonce expires \<and>
     \<lparr>nr_nonce = nonce, nr_expires_at = expires\<rparr> \<in> set (rd_nonces bootstrapDb)"
  using bootstrap_admission_sound [OF bootstrap_admits] by (auto simp: bootstrapInput_def registryRequest_def)

section \<open>Replays\<close>

lemma nonceLive_step:
  assumes "nonceLive db n e" and "\<And>c. event = ClaimEvent c \<Longrightarrow> nc_now c \<le> e"
  shows "nonceLive (registryStep env input event db) n e"
proof (cases event)
  case (RegisterEvent request randomBytes now)
  obtain answer db' where h: "registerHandler env input request randomBytes now db = (answer, db')" by force
  have "rd_nonces db' = rd_nonces db"
    using h
  proof (cases rule: registerHandler_run)
    case (Done bytes k res)
    from Done(4) show ?thesis by (cases rule: registerTransaction_cases) simp_all
  qed simp
  then show ?thesis using assms(1) by (simp add: registryStep_def RegisterEvent h nonceLive_def)
next
  case (ClaimEvent c)
  have "snd (registryClaim c db) = snd (claimRegistrationNonce c db)"
    by (auto simp: registryClaim_def split: prod.splits sum.splits)
  then show ?thesis
    using registry_nonces.live_kept [OF assms(1), of c] assms(2) [OF ClaimEvent] by (simp add: registryStep_def ClaimEvent)
qed

lemma nonceLive_run:
  "nonceLive db n e \<Longrightarrow> list_all (\<lambda>event. case event of ClaimEvent c \<Rightarrow> nc_now c \<le> e | _ \<Rightarrow> True) events \<Longrightarrow>
     nonceLive (registryRun env input events db) n e"
proof (induction events arbitrary: db)
  case (Cons event events)
  have "nonceLive (registryStep env input event db) n e"
    by (rule nonceLive_step) (use Cons.prems in auto)
  then show ?case using Cons by (simp add: registryRun_def)
qed (simp add: registryRun_def)

text \<open>
  C29: A bootstrap request that was admitted is never admitted again: as long as the clock of the
  Registry does not run backwards past its own replay checks, every later request that carries the
  same signed parameters is refused, however the rest of it looks and whatever was registered or
  claimed in between.
\<close>

theorem bootstrap_admitted_once:
  assumes first: "verifyBootstrapRegistration input request bodyBytes nowMillis db = (Inr r, db1)"
    and clock: "list_all (\<lambda>event. case event of ClaimEvent c \<Rightarrow> nc_now c \<le> nowMillis' div 1000 | _ \<Rightarrow> True) events"
    and same: "header request' ''signature-input'' = header request ''signature-input''"
  shows "\<exists>e. fst (verifyBootstrapRegistration input request' bodyBytes' nowMillis' (registryRun env storage events db1)) = Inl e"
proof (rule ccontr)
  let ?db = "registryRun env storage events db1"
  assume "\<not> (\<exists>e. fst (verifyBootstrapRegistration input request' bodyBytes' nowMillis' ?db) = Inl e)"
  then obtain r' db' where again: "verifyBootstrapRegistration input request' bodyBytes' nowMillis' ?db = (Inr r', db')"
    by (metis prod.collapse sum.exhaust)
  obtain key s where s: "verifyHttpRequestSignature (bi_library input) request bodyBytes key RegistrationProfile nowMillis = Inr s"
    "registryClaim (claimOf (bi_nonceCapacity input) s) db = (Claimed, db1)"
    using verifyBootstrapRegistration_Inr [OF first] by metis
  obtain key' s' where s': "verifyHttpRequestSignature (bi_library input) request' bodyBytes' key' RegistrationProfile nowMillis' = Inr s'"
    "registryClaim (claimOf (bi_nonceCapacity input) s') ?db = (Claimed, db')"
    using verifyBootstrapRegistration_Inr [OF again] by metis
  have eq: "vs_nonce s = vs_nonce s'" "vs_expires s = vs_expires s'"
    using verified_replay_material [OF s(1) s'(1)] same by simp_all
  obtain parsed keyid where "exactParameters (sl_base64url (bi_library input)) parsed RegistrationProfile keyid (nowMillis' div 1000) = Some s'"
    by (rule verifyHttpRequestSignature_Inr [OF s'(1)]) blast
  then have t: "vs_verifiedAt s' = nowMillis' div 1000" "nowMillis' div 1000 \<le> vs_expires s'"
    by (rule exactParameters_Some; simp)+
  have "nonceLive db1 (vs_nonce s) (vs_expires s)"
    using registry_nonces.claimed_live [OF s(2)] by (simp add: claimOf_def)
  moreover have "list_all (\<lambda>event. case event of ClaimEvent c \<Rightarrow> nc_now c \<le> vs_expires s | _ \<Rightarrow> True) events"
    using clock t(2) eq(2) by (fastforce simp: list_all_iff split: registry_event.splits)
  ultimately have "nonceLive ?db (vs_nonce s) (vs_expires s)" by (rule nonceLive_run)
  from registry_nonces.live_replayed [OF this, of "claimOf (bi_nonceCapacity input) s'"]
  have "fst (registryClaim (claimOf (bi_nonceCapacity input) s') ?db) = Replayed"
    using t eq by (simp add: claimOf_def)
  then show False using s'(2) by simp
qed

theorem bootstrap_admitted_once_witness:
  "\<exists>e. fst (verifyBootstrapRegistration bootstrapInput (sampleHttpRequest RegistrationProfile) (utf8Bytes ''b'') 2000 bootstrapDb) = Inl e"
  using bootstrap_admitted_once [OF bootstrap_admits, of 2000 "[]" "sampleHttpRequest RegistrationProfile" "utf8Bytes ''b''" sampleRegistry sampleStorage]
  by (simp add: registryRun_def)

end
