(* ===== verification/Bounded_Cache.thy ===== *)
theory Bounded_Cache
  imports Prelude
begin

text \<open>
  The bounded cache of \<^verbatim>\<open>packages/identity/src/bounded-cache.ts\<close>: a map in the order of last use, whose
  first entry is dropped when a store exceeds the capacity.
\<close>

definition cacheTouch :: "'k \<Rightarrow> 'v \<Rightarrow> ('k, 'v) jsmap \<Rightarrow> ('k, 'v) jsmap" where
  "cacheTouch key entry entries = jmSet key entry (jmDelete key entries)"

definition cacheGet :: "'k \<Rightarrow> ('k, 'v) jsmap \<Rightarrow> 'v option \<times> ('k, 'v) jsmap" where
  "cacheGet key entries =
     (case jmGet entries key of None \<Rightarrow> (None, entries) | Some entry \<Rightarrow> (Some entry, cacheTouch key entry entries))"

definition cacheSet :: "nat \<Rightarrow> 'k \<Rightarrow> 'v \<Rightarrow> ('k, 'v) jsmap \<Rightarrow> ('k, 'v) jsmap" where
  "cacheSet capacity key entry entries =
     (let touched = cacheTouch key entry entries in
      if length touched > capacity
      then (case touched of [] \<Rightarrow> touched | (oldest, _) # _ \<Rightarrow> jmDelete oldest touched)
      else touched)"

definition cacheSize :: "('k, 'v) jsmap \<Rightarrow> nat" where
  "cacheSize entries = length entries"

section \<open>Uses\<close>

datatype ('k, 'v) cache_use = UseGet 'k | UseSet 'k 'v

fun useKey :: "('k, 'v) cache_use \<Rightarrow> 'k" where
  "useKey (UseGet k) = k"
| "useKey (UseSet k v) = k"

definition cacheUse :: "nat \<Rightarrow> ('k, 'v) cache_use \<Rightarrow> ('k, 'v) jsmap \<Rightarrow> ('k, 'v) jsmap" where
  "cacheUse capacity use entries =
     (case use of UseGet k \<Rightarrow> snd (cacheGet k entries) | UseSet k v \<Rightarrow> cacheSet capacity k v entries)"

definition cacheUses :: "nat \<Rightarrow> ('k, 'v) cache_use list \<Rightarrow> ('k, 'v) jsmap \<Rightarrow> ('k, 'v) jsmap" where
  "cacheUses capacity = fold (cacheUse capacity)"

section \<open>The order of last use\<close>

lemma jmSet_absent: "k \<notin> fst ` set m \<Longrightarrow> jmSet k v m = m @ [(k, v)]"
  by (induction k v m rule: jmSet.induct) auto

lemma cacheTouch_eq: "cacheTouch k v m = jmDelete k m @ [(k, v)]"
  by (auto simp: cacheTouch_def jmDelete_def intro!: jmSet_absent)

lemma jmDelete_keys: "map fst (jmDelete k m) = filter (\<lambda>k'. k' \<noteq> k) (map fst m)"
  by (induction m) (auto simp: jmDelete_def)

lemma jmDelete_head: "jmWf ((k, v) # m) \<Longrightarrow> jmDelete k ((k, v) # m) = m"
  by (auto simp: jmDelete_def jmWf_def filter_id_conv)

lemma cacheTouch_wf: "jmWf m \<Longrightarrow> jmWf (cacheTouch k v m)"
  by (auto simp: cacheTouch_eq jmWf_def jmDelete_keys)

lemma cacheSet_eq:
  assumes "jmWf m"
  shows "cacheSet capacity k v m =
    (if length (cacheTouch k v m) > capacity then tl (cacheTouch k v m) else cacheTouch k v m)"
proof (cases "cacheTouch k v m")
  case (Cons e rest)
  obtain k' v' where "e = (k', v')" by (cases e)
  then show ?thesis
    using jmDelete_head [of k' v' rest] cacheTouch_wf [OF assms, of k v] Cons by (simp add: cacheSet_def Let_def)
qed (simp add: cacheSet_def)

lemma jmWf_tl: "jmWf m \<Longrightarrow> jmWf (tl m)"
  by (simp add: jmWf_def map_tl distinct_tl)

lemma cacheUse_wf: "jmWf m \<Longrightarrow> jmWf (cacheUse capacity use m)"
  by (auto simp: cacheUse_def cacheGet_def cacheSet_eq cacheTouch_wf jmWf_tl split: cache_use.splits option.splits)

lemma length_cacheTouch: "jmWf m \<Longrightarrow> length (cacheTouch k v m) = (if jmGet m k = None then Suc (length m) else length m)"
  using jm.count_del [of m k] jm.count_pos [of m k] by (cases "jmGet m k") (auto simp: cacheTouch_eq)

lemma cacheUse_bounded:
  assumes "jmWf m" and "length m \<le> max 1 capacity"
  shows "length (cacheUse capacity use m) \<le> max 1 capacity"
  using assms length_cacheTouch [OF assms(1)]
  by (auto simp: cacheUse_def cacheGet_def cacheSet_eq split: cache_use.splits option.splits if_splits)

text \<open>Where an entry stands: only the keys of \<open>later\<close> may have been used after it.\<close>

definition standsBefore :: "'k \<Rightarrow> 'v \<Rightarrow> 'k set \<Rightarrow> ('k, 'v) jsmap \<Rightarrow> bool" where
  "standsBefore k v later m \<longleftrightarrow> jmWf m \<and> (\<exists>older newer. m = older @ (k, v) # newer \<and> fst ` set newer \<subseteq> later)"

lemma standsBefore_touch_other:
  assumes "standsBefore k v later m" and "k' \<in> later" and "k' \<noteq> k"
  shows "standsBefore k v later (cacheTouch k' v' m)"
proof -
  obtain older newer where m: "m = older @ (k, v) # newer" "fst ` set newer \<subseteq> later" using assms(1) by (auto simp: standsBefore_def)
  have "cacheTouch k' v' m = jmDelete k' older @ (k, v) # (jmDelete k' newer @ [(k', v')])"
    using assms(3) by (simp add: cacheTouch_eq m jmDelete_def)
  moreover have "fst ` set (jmDelete k' newer @ [(k', v')]) \<subseteq> later" using m(2) assms(2) by (auto simp: jmDelete_def)
  moreover have "jmWf (cacheTouch k' v' m)" using assms(1) by (simp add: standsBefore_def cacheTouch_wf)
  ultimately show ?thesis unfolding standsBefore_def by blast
qed

lemma standsBefore_touch_same: "jmWf m \<Longrightarrow> standsBefore k v later (cacheTouch k v m)"
  using cacheTouch_wf [of m k v] unfolding standsBefore_def cacheTouch_eq
  by (intro conjI exI [of _ "jmDelete k m"] exI [of _ "[]"]) simp_all

lemma standsBefore_evict:
  assumes "standsBefore k v later m" and "finite later" and "k \<notin> later" and "card later < capacity" and "length m > capacity"
  shows "standsBefore k v later (tl m)"
proof -
  obtain older newer where m: "m = older @ (k, v) # newer" "fst ` set newer \<subseteq> later" and wf: "jmWf m"
    using assms(1) by (auto simp: standsBefore_def)
  have "distinct (map fst newer)" using wf by (simp add: m jmWf_def)
  then have "length newer \<le> card later" using m(2) assms(2) by (metis card_mono distinct_card length_map set_map)
  then have "older \<noteq> []" using m(1) assms(4,5) by auto
  then show ?thesis using m wf jmWf_tl [OF wf] unfolding standsBefore_def by (metis tl_append2)
qed

lemma standsBefore_get: "standsBefore k v later m \<Longrightarrow> jmGet m k = Some v"
  by (auto simp: standsBefore_def jmGet_def jmWf_def)

lemma standsBefore_use:
  assumes s: "standsBefore k v later m" and later: "finite later" "k \<notin> later" "card later < capacity"
    and use: "use = UseGet k \<or> useKey use \<in> later"
  shows "standsBefore k v later (cacheUse capacity use m)"
proof (cases use)
  case (UseGet k')
  show ?thesis
  proof (cases "k' = k")
    case True
    then show ?thesis using s standsBefore_get [OF s] standsBefore_touch_same [of m k v later]
      by (simp add: UseGet cacheUse_def cacheGet_def standsBefore_def [of k v later m])
  next
    case False
    then have "k' \<in> later" using use UseGet by simp
    then show ?thesis using s standsBefore_touch_other [OF s _ False] by (auto simp: UseGet cacheUse_def cacheGet_def split: option.splits)
  qed
next
  case (UseSet k' v')
  then have k': "k' \<in> later" "k' \<noteq> k" using use later(2) by auto
  have wf: "jmWf m" using s by (simp add: standsBefore_def)
  have t: "standsBefore k v later (cacheTouch k' v' m)" by (rule standsBefore_touch_other [OF s k'])
  show ?thesis
    using t standsBefore_evict [OF t later] by (simp add: UseSet cacheUse_def cacheSet_eq [OF wf])
qed

lemma standsBefore_uses:
  "standsBefore k v later m \<Longrightarrow> finite later \<Longrightarrow> k \<notin> later \<Longrightarrow> card later < capacity \<Longrightarrow>
     list_all (\<lambda>use. use = UseGet k \<or> useKey use \<in> later) uses \<Longrightarrow> standsBefore k v later (cacheUses capacity uses m)"
  by (induction uses arbitrary: m) (simp_all add: cacheUses_def standsBefore_use)

text \<open>
  The cache never holds more entries than its capacity (at least one), and it is a cache of the most
  recently used: a stored value is returned as long as fewer other keys than the capacity were used
  since, whatever was read, stored or dropped in between.
\<close>

theorem cache_keeps_recent:
  assumes "0 < capacity" and "finite later" and "k \<notin> later" and "card later < capacity"
    and "list_all (\<lambda>use. use = UseGet k \<or> useKey use \<in> later) uses"
  shows "fst (cacheGet k (cacheUses capacity uses (cacheSet capacity k v (cacheUses capacity before [])))) = Some v \<and>
    cacheSize (cacheUses capacity (before @ uses) []) \<le> capacity"
proof -
  have inv: "jmWf (cacheUses capacity us []) \<and> length (cacheUses capacity us []) \<le> max 1 capacity" for us :: "('a, 'b) cache_use list"
  proof (induction us rule: rev_induct)
    case (snoc use us)
    have "cacheUses capacity (us @ [use]) [] = cacheUse capacity use (cacheUses capacity us [])" by (simp add: cacheUses_def)
    then show ?case using snoc cacheUse_wf cacheUse_bounded by metis
  qed (simp add: cacheUses_def jmWf_def)
  let ?m = "cacheUses capacity before []"
  have wf: "jmWf ?m" using inv by blast
  have t: "standsBefore k v later (cacheTouch k v ?m)" by (rule standsBefore_touch_same [OF wf])
  have "standsBefore k v later (cacheSet capacity k v ?m)"
    using t standsBefore_evict [OF t assms(2-4)] by (simp add: cacheSet_eq [OF wf])
  then have "standsBefore k v later (cacheUses capacity uses (cacheSet capacity k v ?m))"
    using assms(2-5) by (rule standsBefore_uses)
  then have "fst (cacheGet k (cacheUses capacity uses (cacheSet capacity k v ?m))) = Some v"
    using standsBefore_get by (fastforce simp: cacheGet_def)
  moreover have "length (cacheUses capacity (before @ uses) []) \<le> capacity"
    using inv [of "before @ uses"] assms(1) by simp
  ultimately show ?thesis by (simp add: cacheSize_def)
qed

theorem cache_keeps_recent_witness:
  "fst (cacheGet (1::nat) (cacheUses 2 [UseSet 2 ''b''] (cacheSet 2 1 ''a'' (cacheUses 2 [UseSet 3 ''c'', UseSet 4 ''d''] [])))) = Some ''a''"
  using cache_keeps_recent [of 2 "{2}" "1::nat" "[UseSet 2 ''b'']" "''a''" "[UseSet 3 ''c'', UseSet 4 ''d'']"] by simp

end
