(* ===== verification/Authenticated_Http.thy ===== *)
theory Authenticated_Http
  imports Http_Signature Bounded_Cache Nonce_Store Agent_Card
begin

text \<open>
  Authenticated requests of registered agents, \<^verbatim>\<open>packages/identity/src/authenticated-http.ts\<close>: the in-memory
  replay defence, the handler that verifies one request, and the resolution of agent cards, in which
  callers for the same agent share one bounded Registry lookup.  The resolution is an interleaving of
  atomic sections, so it is an inductive step relation; what the Registry answers is an argument of the
  step that completes a lookup.  A card is a verified card when \<open>verified\<close> says so, the identity
  package's own record of what it verified.
\<close>

section \<open>The replay defence in memory\<close>

text \<open>The loop that keeps the live nonces, in the order of the map.\<close>

fun liveNonces :: "int \<Rightarrow> (string, int) jsmap \<Rightarrow> (string, int) jsmap \<Rightarrow> (string, int) jsmap" where
  "liveNonces now [] live = live"
| "liveNonces now ((retainedNonce, retainedExpiry) # current) live =
     liveNonces now current (if retainedExpiry \<ge> now then jmSet retainedNonce retainedExpiry live else live)"

definition updateNonces :: "nonce_claim \<Rightarrow> (string, int) jsmap \<Rightarrow> claim_result \<times> (string, int) jsmap" where
  "updateNonces input current =
     (let live = liveNonces (nc_now input) current [] in
      if jmGet live (nc_nonce input) \<noteq> None then (Replayed, live)
      else if length live \<ge> nc_capacity input then (Full, live)
      else (Claimed, jmSet (nc_nonce input) (nc_expires input) live))"

section \<open>One request\<close>

record verified_request =
  vq_callerAgentId :: agent_id
  vq_agentCard :: agent_card
  vq_request :: json

definition decodeRegisteredAgentBody :: "base64url \<Rightarrow> json \<Rightarrow> (agent_id \<times> json) option" where
  "decodeRegisteredAgentBody b64 value =
     Option.bind (closedObject [''callerAgentId'', ''request''] value) (\<lambda>ms.
     Option.bind (asString (ms ! 0)) (\<lambda>caller. if isAgentId b64 caller then Some (caller, ms ! 1) else None))"

definition authenticatedClaim :: "nat \<Rightarrow> verified_http_signature \<Rightarrow> nonce_claim" where
  "authenticatedClaim capacity signature =
     \<lparr>nc_nonce = vs_nonce signature, nc_expires = vs_expires signature, nc_now = vs_verifiedAt signature, nc_capacity = capacity\<rparr>"

text \<open>
  \<^verbatim>\<open>verifyRequest\<close>: \<open>resolve\<close> is what \<^verbatim>\<open>resolveCard\<close> answered for the caller, and the state is the
  reference that holds the nonces.
\<close>

definition verifyAgentRequest ::
  "identity_environment \<Rightarrow> ('u, 'k) signature_library \<Rightarrow> nat \<Rightarrow> (agent_id \<Rightarrow> router_http_error + agent_card) \<Rightarrow>
     http_request \<Rightarrow> byte list \<Rightarrow> int \<Rightarrow> (string, int) jsmap \<Rightarrow>
     (router_http_error + verified_request) \<times> (string, int) jsmap" where
  "verifyAgentRequest env lib liveNonceCapacity resolve httpRequest bodyBytes nowMillis nonces =
     (case Option.bind (decodeCanonicalJson env bodyBytes) (decodeRegisteredAgentBody (ie_base64url env)) of
        None \<Rightarrow> (Inl MalformedRequestError, nonces)
      | Some (caller, request) \<Rightarrow>
          (case bindE (resolve caller) (\<lambda>agentCard.
                  mapE (\<lambda>signature. (agentCard, signature))
                    (verifyHttpRequestSignature lib httpRequest bodyBytes (ac_publicKey agentCard) NormalProfile nowMillis)) of
             Inl e \<Rightarrow> (Inl e, nonces)
           | Inr (agentCard, signature) \<Rightarrow>
               (case updateNonces (authenticatedClaim liveNonceCapacity signature) nonces of
                  (Replayed, nonces') \<Rightarrow> (Inl AuthenticationFailedError, nonces')
                | (Full, nonces') \<Rightarrow> (Inl OverloadedError, nonces')
                | (Claimed, nonces') \<Rightarrow>
                    (case header httpRequest ''sharness-version'' of
                       None \<Rightarrow> (Inl (VersionMismatchError LIVE_WIRE_VERSIONS), nonces')
                     | Some version \<Rightarrow>
                         if version \<notin> set LIVE_WIRE_VERSIONS then (Inl (VersionMismatchError LIVE_WIRE_VERSIONS), nonces')
                         else (Inr \<lparr>vq_callerAgentId = caller, vq_agentCard = agentCard, vq_request = request\<rparr>, nonces')))))"

section \<open>Card resolution\<close>

text \<open>
  A deferred is a number.  \<open>rs_fibers\<close> are the lookups that lead a resolution and have not settled: before
  their permit is requested, while they hold it, or after the lookup returned and the permit was
  released; \<open>rs_settled\<close> are the results of the deferreds, and \<open>rs_waiting\<close> the callers that await one.  The
  three synchronous sections that end a leading resolution are one step.
\<close>

datatype lookup_answer = LookupFound agent_card | LookupNotFound | LookupFailed | LookupInterrupted

datatype resolution = Resolved agent_card | ResolutionFailed router_http_error | ResolutionInterrupted

datatype fiber_phase = Starting | Holding | Returned "lookup_answer option"

datatype cache_access = Cached agent_card | Join nat | Lead nat

record resolver =
  rs_pending :: "(agent_id, nat) jsmap"
  rs_cards :: "(agent_id, agent_card) jsmap"
  rs_fibers :: "(nat \<times> agent_id \<times> fiber_phase) list"
  rs_settled :: "(nat \<times> agent_id \<times> resolution) list"
  rs_waiting :: "(agent_id \<times> nat) list"
  rs_next :: nat

definition beginCardResolution ::
  "agent_id \<Rightarrow> nat \<Rightarrow> (agent_id, nat) jsmap \<Rightarrow> (agent_id, agent_card) jsmap \<Rightarrow>
     cache_access \<times> (agent_id, nat) jsmap \<times> (agent_id, agent_card) jsmap" where
  "beginCardResolution agentId candidate current cards =
     (case cacheGet agentId cards of
        (Some agentCard, cards') \<Rightarrow> (Cached agentCard, current, cards')
      | (None, cards') \<Rightarrow>
          (case jmGet current agentId of
             Some pending \<Rightarrow> (Join pending, current, cards')
           | None \<Rightarrow> (Lead candidate, jmSet agentId candidate current, cards')))"

definition resolveLookupAttempt ::
  "(agent_card \<Rightarrow> bool) \<Rightarrow> lookup_answer option \<Rightarrow> agent_id \<Rightarrow> resolution" where
  "resolveLookupAttempt verified attempted agentId =
     (case attempted of
        None \<Rightarrow> ResolutionFailed OverloadedError
      | Some LookupInterrupted \<Rightarrow> ResolutionInterrupted
      | Some LookupFailed \<Rightarrow> ResolutionFailed UnavailableError
      | Some LookupNotFound \<Rightarrow> ResolutionFailed AuthenticationFailedError
      | Some (LookupFound agentCard) \<Rightarrow>
          if verified agentCard \<and> ac_agentId agentCard = agentId then Resolved agentCard
          else ResolutionFailed AuthenticationFailedError)"

text \<open>\<^verbatim>\<open>runLeadingResolution\<close> after the lookup: retain the card, remove the pending entry, settle the deferred.\<close>

definition settleResolution ::
  "nat \<Rightarrow> (agent_card \<Rightarrow> bool) \<Rightarrow> nat \<Rightarrow> agent_id \<Rightarrow> lookup_answer option \<Rightarrow> resolver \<Rightarrow> resolver" where
  "settleResolution cacheCapacity verified deferred agentId attempted s =
     (let exit = resolveLookupAttempt verified attempted agentId in
      s\<lparr>rs_cards := (case exit of Resolved agentCard \<Rightarrow> cacheSet cacheCapacity agentId agentCard (rs_cards s) | _ \<Rightarrow> rs_cards s),
        rs_pending := jmDelete agentId (rs_pending s),
        rs_fibers := filter (\<lambda>f. fst f \<noteq> deferred) (rs_fibers s),
        rs_settled := (deferred, agentId, exit) # rs_settled s\<rparr>)"

definition permitsHeld :: "resolver \<Rightarrow> nat" where
  "permitsHeld s = length (filter (\<lambda>(d, a, phase). phase = Holding) (rs_fibers s))"

definition setPhase :: "nat \<Rightarrow> fiber_phase \<Rightarrow> resolver \<Rightarrow> resolver" where
  "setPhase deferred phase s =
     s\<lparr>rs_fibers := map (\<lambda>(d, a, old). (d, a, if d = deferred then phase else old)) (rs_fibers s)\<rparr>"

inductive resolverStep :: "nat \<Rightarrow> nat \<Rightarrow> (agent_card \<Rightarrow> bool) \<Rightarrow> resolver \<Rightarrow> resolver \<Rightarrow> bool"
  for cacheCapacity :: nat and lookupConcurrencyLimit :: nat and verified :: "agent_card \<Rightarrow> bool" where
  arrive_cached:
    "beginCardResolution agentId (rs_next s) (rs_pending s) (rs_cards s) = (Cached agentCard, pending, cards) \<Longrightarrow>
     resolverStep cacheCapacity lookupConcurrencyLimit verified s (s\<lparr>rs_pending := pending, rs_cards := cards, rs_next := Suc (rs_next s)\<rparr>)"
| arrive_join:
    "beginCardResolution agentId (rs_next s) (rs_pending s) (rs_cards s) = (Join deferred, pending, cards) \<Longrightarrow>
     resolverStep cacheCapacity lookupConcurrencyLimit verified s
       (s\<lparr>rs_pending := pending, rs_cards := cards, rs_next := Suc (rs_next s), rs_waiting := (agentId, deferred) # rs_waiting s\<rparr>)"
| arrive_lead:
    "beginCardResolution agentId (rs_next s) (rs_pending s) (rs_cards s) = (Lead deferred, pending, cards) \<Longrightarrow>
     resolverStep cacheCapacity lookupConcurrencyLimit verified s
       (s\<lparr>rs_pending := pending, rs_cards := cards, rs_next := Suc (rs_next s), rs_waiting := (agentId, deferred) # rs_waiting s,
         rs_fibers := (deferred, agentId, Starting) # rs_fibers s\<rparr>)"
| permit_taken:
    "(deferred, agentId, Starting) \<in> set (rs_fibers s) \<Longrightarrow> permitsHeld s < lookupConcurrencyLimit \<Longrightarrow>
     resolverStep cacheCapacity lookupConcurrencyLimit verified s (setPhase deferred Holding s)"
| permit_refused:
    "(deferred, agentId, Starting) \<in> set (rs_fibers s) \<Longrightarrow> \<not> permitsHeld s < lookupConcurrencyLimit \<Longrightarrow>
     resolverStep cacheCapacity lookupConcurrencyLimit verified s (setPhase deferred (Returned None) s)"
| lookup_returned:
    "(deferred, agentId, Holding) \<in> set (rs_fibers s) \<Longrightarrow>
     resolverStep cacheCapacity lookupConcurrencyLimit verified s (setPhase deferred (Returned (Some answer)) s)"
| settled:
    "(deferred, agentId, Returned attempted) \<in> set (rs_fibers s) \<Longrightarrow>
     resolverStep cacheCapacity lookupConcurrencyLimit verified s (settleResolution cacheCapacity verified deferred agentId attempted s)"
| awoken:
    "(agentId, deferred) \<in> set (rs_waiting s) \<Longrightarrow> (deferred, agentId', exit) \<in> set (rs_settled s) \<Longrightarrow>
     resolverStep cacheCapacity lookupConcurrencyLimit verified s (s\<lparr>rs_waiting := remove1 (agentId, deferred) (rs_waiting s)\<rparr>)"

inductive_cases resolverStepE: "resolverStep cacheCapacity limit verified s s'"

definition initialResolver :: resolver where
  "initialResolver = \<lparr>rs_pending = [], rs_cards = [], rs_fibers = [], rs_settled = [], rs_waiting = [], rs_next = 0\<rparr>"

inductive resolverReachable :: "nat \<Rightarrow> nat \<Rightarrow> (agent_card \<Rightarrow> bool) \<Rightarrow> resolver \<Rightarrow> bool"
  for cacheCapacity :: nat and lookupConcurrencyLimit :: nat and verified :: "agent_card \<Rightarrow> bool" where
  start: "resolverReachable cacheCapacity lookupConcurrencyLimit verified initialResolver"
| step: "resolverReachable cacheCapacity lookupConcurrencyLimit verified s \<Longrightarrow>
    resolverStep cacheCapacity lookupConcurrencyLimit verified s s' \<Longrightarrow>
    resolverReachable cacheCapacity lookupConcurrencyLimit verified s'"

section \<open>The in-memory store keeps the promise\<close>

lemma liveNonces_eq:
  "jmWf (live @ current) \<Longrightarrow> liveNonces now current live = live @ filter (\<lambda>(n, e). e \<ge> now) current"
proof (induction now current live rule: liveNonces.induct)
  case (2 now n e current live)
  have absent: "n \<notin> fst ` set live" and wf: "jmWf (live @ [(n, e)] @ current)" "jmWf (live @ current)"
    using 2(2) by (auto simp: jmWf_def)
  show ?case
  proof (cases "e \<ge> now")
    case True
    then show ?thesis using 2(1) wf by (simp add: jmSet_absent [OF absent])
  next
    case False
    then show ?thesis using 2(1) wf by simp
  qed
qed simp

lemma updateNonces_eq:
  assumes "jmWf current"
  shows "updateNonces c current =
    (let live = filter (\<lambda>(n, e). e \<ge> nc_now c) current in
     if nc_nonce c \<in> fst ` set live then (Replayed, live)
     else if length live \<ge> nc_capacity c then (Full, live)
     else (Claimed, live @ [(nc_nonce c, nc_expires c)]))"
proof -
  have "liveNonces (nc_now c) current [] = filter (\<lambda>(n, e). e \<ge> nc_now c) current"
    using liveNonces_eq [of "[]" current] assms by simp
  then show ?thesis
    by (auto simp: updateNonces_def jmGet_def Let_def map_of_eq_None_iff jmSet_absent simp del: set_filter)
qed

text \<open>The states of the reference: maps, so the interface is interpreted on those with distinct keys.\<close>

definition nonceClaim :: "nonce_claim \<Rightarrow> (string, int) jsmap \<Rightarrow> claim_result \<times> (string, int) jsmap" where
  "nonceClaim c current = (if jmWf current then updateNonces c current else (Replayed, current))"

definition nonceHeld :: "(string, int) jsmap \<Rightarrow> string \<Rightarrow> int \<Rightarrow> bool" where
  "nonceHeld current n e \<longleftrightarrow> jmWf current \<and> (n, e) \<in> set current"

lemma updateNonces_wf: "jmWf current \<Longrightarrow> jmWf (snd (updateNonces c current))"
  by (auto simp: updateNonces_eq Let_def jmWf_def distinct_map_filter simp del: set_filter)

interpretation memory_nonces: nonce_store nonceClaim nonceHeld length
proof
  fix c :: nonce_claim and s s' :: "(string, int) jsmap" and n e
  show "nonceClaim c s = (Claimed, s') \<Longrightarrow> nonceHeld s' (nc_nonce c) (nc_expires c)"
    using updateNonces_wf [of s c] by (auto simp: nonceClaim_def nonceHeld_def updateNonces_eq Let_def split: if_splits)
  show "nonceHeld s n e \<Longrightarrow> nc_now c \<le> e \<Longrightarrow> nonceHeld (snd (nonceClaim c s)) n e"
    using updateNonces_wf [of s c] by (auto simp: nonceClaim_def nonceHeld_def updateNonces_eq Let_def)
  show "nonceHeld s n e \<Longrightarrow> nc_now c \<le> e \<Longrightarrow> nc_nonce c = n \<Longrightarrow> fst (nonceClaim c s) = Replayed"
    by (force simp: nonceClaim_def nonceHeld_def updateNonces_eq Let_def image_iff)
  show "nonceClaim c s = (Claimed, s') \<Longrightarrow> length s' \<le> nc_capacity c"
    by (auto simp: nonceClaim_def updateNonces_eq Let_def split: if_splits)
  show "fst (nonceClaim c s) \<noteq> Claimed \<Longrightarrow> length (snd (nonceClaim c s)) \<le> length s"
    by (auto simp: nonceClaim_def updateNonces_eq Let_def split: if_splits)
qed

end
