(* ===== verification/Authenticated_Facts.thy ===== *)
theory Authenticated_Facts
  imports Authenticated_Http Http_Sample
begin

text \<open>
  What a Router relies on when it authenticates a request: the caller is the agent whose card signed it,
  no request is accepted twice, lookups are shared and bounded, and no caller waits for a resolution that
  cannot come.
\<close>

section \<open>The resolver's invariant\<close>

definition resolverInv :: "nat \<Rightarrow> nat \<Rightarrow> (agent_card \<Rightarrow> bool) \<Rightarrow> resolver \<Rightarrow> bool" where
  "resolverInv cacheCapacity limit verified s \<longleftrightarrow>
     jmWf (rs_pending s) \<and> distinct (map fst (rs_fibers s)) \<and>
     (\<forall>a d. jmGet (rs_pending s) a = Some d \<longleftrightarrow> (\<exists>phase. (d, a, phase) \<in> set (rs_fibers s))) \<and>
     (\<forall>f\<in>set (rs_fibers s). fst f < rs_next s) \<and>
     (\<forall>(a, d)\<in>set (rs_waiting s). (\<exists>phase. (d, a, phase) \<in> set (rs_fibers s)) \<or> (\<exists>exit. (d, a, exit) \<in> set (rs_settled s))) \<and>
     jmWf (rs_cards s) \<and> length (rs_cards s) \<le> max 1 cacheCapacity \<and>
     (\<forall>(a, c)\<in>set (rs_cards s). verified c \<and> ac_agentId c = a) \<and>
     (\<forall>(d, a, exit)\<in>set (rs_settled s). \<forall>c. exit = Resolved c \<longrightarrow> verified c \<and> ac_agentId c = a) \<and>
     permitsHeld s \<le> limit"

lemma resolverInv_initial: "resolverInv cacheCapacity limit verified initialResolver"
  by (simp add: resolverInv_def initialResolver_def jmWf_def jmGet_def permitsHeld_def)

lemma resolverInvD:
  assumes "resolverInv cacheCapacity limit verified s"
  shows "jmWf (rs_pending s)" and "distinct (map fst (rs_fibers s))"
    and "jmGet (rs_pending s) a = Some d \<longleftrightarrow> (\<exists>phase. (d, a, phase) \<in> set (rs_fibers s))"
    and "f \<in> set (rs_fibers s) \<Longrightarrow> fst f < rs_next s"
    and "(a, d) \<in> set (rs_waiting s) \<Longrightarrow> (\<exists>phase. (d, a, phase) \<in> set (rs_fibers s)) \<or> (\<exists>exit. (d, a, exit) \<in> set (rs_settled s))"
    and "jmWf (rs_cards s)" and "length (rs_cards s) \<le> max 1 cacheCapacity"
    and "(a, c) \<in> set (rs_cards s) \<Longrightarrow> verified c \<and> ac_agentId c = a"
    and "(d, a, Resolved c) \<in> set (rs_settled s) \<Longrightarrow> verified c \<and> ac_agentId c = a"
    and "permitsHeld s \<le> limit"
  using assms by (simp_all add: resolverInv_def) (fast, fast, fast)

section \<open>Caches keep their entries' owners\<close>

lemma cacheGet_cases:
  obtains "cacheGet k m = (None, m)" and "jmGet m k = None"
  | v where "cacheGet k m = (Some v, cacheTouch k v m)" and "jmGet m k = Some v"
  by (cases "jmGet m k") (simp_all add: cacheGet_def)

lemma cacheTouch_members: "set (cacheTouch k v m) \<subseteq> insert (k, v) (set m)"
  by (auto simp: cacheTouch_eq jmDelete_def)

lemma cacheSet_members: "jmWf m \<Longrightarrow> set (cacheSet capacity k v m) \<subseteq> insert (k, v) (set m)"
  using cacheTouch_members [of k v m] by (auto simp: cacheSet_eq dest: list.set_sel(2) [rotated] split: if_splits)

lemma cacheGet_keeps:
  assumes "jmWf m" and "cacheGet k m = (r, m')"
  shows "jmWf m'" and "set m' \<subseteq> set m" and "length m' = length m"
proof -
  have "jmWf m' \<and> set m' \<subseteq> set m \<and> length m' = length m"
  proof (cases rule: cacheGet_cases [of k m])
    case (2 v)
    then have "(k, v) \<in> set m" by (auto simp: jmGet_def dest: map_of_SomeD)
    then show ?thesis
      using 2 assms cacheTouch_wf [OF assms(1), of k v] cacheTouch_members [of k v m] length_cacheTouch [OF assms(1), of k v] by auto
  qed (use assms in simp)
  then show "jmWf m'" "set m' \<subseteq> set m" "length m' = length m" by blast+
qed

section \<open>Steps keep the invariant\<close>

lemma beginCardResolution_cards:
  "beginCardResolution a d p m = (access, p', m') \<Longrightarrow> \<exists>r. cacheGet a m = (r, m')"
  by (auto simp: beginCardResolution_def split: prod.splits option.splits)

lemma resolverInv_cards:
  assumes "resolverInv cacheCapacity limit verified s" and "cacheGet a (rs_cards s) = (r, m')"
  shows "resolverInv cacheCapacity limit verified (s\<lparr>rs_cards := m', rs_next := Suc (rs_next s)\<rparr>)"
proof -
  note keeps = cacheGet_keeps [OF resolverInvD(6) [OF assms(1)] assms(2)]
  have owners: "\<forall>(a, c)\<in>set m'. verified c \<and> ac_agentId c = a" using keeps(2) assms(1) by (auto simp: resolverInv_def)
  have next': "\<forall>f\<in>set (rs_fibers s). fst f < Suc (rs_next s)" using resolverInvD(4) [OF assms(1)] less_SucI by blast
  show ?thesis using assms(1) keeps(1,3) owners next' by (simp add: resolverInv_def permitsHeld_def)
qed

lemma beginCardResolution_cases:
  assumes "beginCardResolution a d p m = (access, p', m')"
  shows "(\<exists>c. access = Cached c \<and> p' = p) \<or> (\<exists>d'. access = Join d' \<and> p' = p \<and> jmGet p a = Some d') \<or>
    (access = Lead d \<and> jmGet p a = None \<and> p' = jmSet a d p)"
  using assms by (auto simp: beginCardResolution_def split: prod.splits option.splits)

lemma resolverInv_lead:
  assumes inv: "resolverInv cacheCapacity limit verified s" and none: "jmGet (rs_pending s) a = None" and new: "\<forall>f\<in>set (rs_fibers s). fst f < d"
    and d: "d < rs_next s"
  shows "resolverInv cacheCapacity limit verified (s\<lparr>rs_pending := jmSet a d (rs_pending s), rs_waiting := (a, d) # rs_waiting s,
    rs_fibers := (d, a, Starting) # rs_fibers s\<rparr>)"
proof -
  have wf: "jmWf (rs_pending s)" using resolverInvD(1) [OF inv] .
  have fibers: "distinct (d # map fst (rs_fibers s))" using resolverInvD(2) [OF inv] new by auto
  have pending: "jmGet (jmSet a d (rs_pending s)) a' = Some d' \<longleftrightarrow> (\<exists>phase. (d', a', phase) \<in> set ((d, a, Starting) # rs_fibers s))" for a' d'
  proof (cases "a' = a")
    case True
    then show ?thesis using jm.get_put [OF wf, of a d a'] resolverInvD(3) [OF inv, of a] none by auto
  next
    case False
    then show ?thesis using jm.get_put [OF wf, of a d a'] resolverInvD(3) [OF inv, of a' d'] by auto
  qed
  have waiting: "\<forall>(a', d')\<in>set ((a, d) # rs_waiting s). (\<exists>phase. (d', a', phase) \<in> set ((d, a, Starting) # rs_fibers s)) \<or>
      (\<exists>exit. (d', a', exit) \<in> set (rs_settled s))"
    using inv by (fastforce simp: resolverInv_def)
  show ?thesis
    unfolding resolverInv_def
    using inv jm.wf_put [OF wf, of a d] fibers pending waiting d
    by (simp add: resolverInv_def permitsHeld_def)
qed

lemma permitsHeld_setPhase:
  assumes "distinct (map fst (rs_fibers s))" and "(d, a, old) \<in> set (rs_fibers s)"
  shows "permitsHeld (setPhase d new s) + (if old = Holding then 1 else 0) = permitsHeld s + (if new = Holding then 1 else 0)"
proof -
  have "length (filter (\<lambda>(d, a, phase). phase = Holding) (map (\<lambda>(d', a, old). (d', a, if d' = d then new else old)) fs)) +
      (if old = Holding then 1 else 0) = length (filter (\<lambda>(d, a, phase). phase = Holding) fs) + (if new = Holding then 1 else 0)"
    if "distinct (map fst fs)" "(d, a, old) \<in> set fs" for fs :: "(nat \<times> agent_id \<times> fiber_phase) list"
    using that
  proof (induction fs)
    case (Cons f fs)
    show ?case
    proof (cases "f = (d, a, old)")
      case True
      then have "d \<notin> fst ` set fs" using Cons.prems(1) by auto
      then have "map (\<lambda>(d', a, old). (d', a, if d' = d then new else old)) fs = fs"
        by (intro map_idI) force
      then show ?thesis using True by simp
    next
      case False
      then have mem: "(d, a, old) \<in> set fs" "distinct (map fst fs)" using Cons.prems by auto
      have "d \<in> fst ` set fs" using mem(1) by force
      then have "fst f \<noteq> d" using Cons.prems(1) by auto
      then show ?thesis using Cons.IH [OF mem(2,1)] by (cases f) auto
    qed
  qed simp
  from this [OF assms] show ?thesis by (simp add: permitsHeld_def setPhase_def)
qed

lemma setPhase_members: "(d', a', ph) \<in> set (rs_fibers (setPhase d new s)) \<Longrightarrow> \<exists>ph. (d', a', ph) \<in> set (rs_fibers s)"
  by (auto simp: setPhase_def)

lemma setPhase_keeps: "(d', a', ph) \<in> set (rs_fibers s) \<Longrightarrow> \<exists>ph. (d', a', ph) \<in> set (rs_fibers (setPhase d new s))"
  by (force simp: setPhase_def image_iff)

lemma setPhase_keys: "map fst (rs_fibers (setPhase d new s)) = map fst (rs_fibers s)"
  by (simp add: setPhase_def case_prod_unfold)

lemma resolverInv_setPhase:
  assumes inv: "resolverInv cacheCapacity limit verified s" and "permitsHeld (setPhase d new s) \<le> limit"
  shows "resolverInv cacheCapacity limit verified (setPhase d new s)"
proof -
  let ?s = "setPhase d new s"
  have same: "(\<exists>ph. (d', a', ph) \<in> set (rs_fibers ?s)) \<longleftrightarrow> (\<exists>ph. (d', a', ph) \<in> set (rs_fibers s))" for d' a'
    using setPhase_members setPhase_keeps by blast
  have rest: "rs_pending ?s = rs_pending s" "rs_waiting ?s = rs_waiting s" "rs_settled ?s = rs_settled s" "rs_cards ?s = rs_cards s"
    "rs_next ?s = rs_next s"
    by (simp_all add: setPhase_def)
  have "\<forall>f\<in>set (rs_fibers ?s). fst f < rs_next s"
    using resolverInvD(4) [OF inv] by (auto simp: setPhase_def)
  then show ?thesis
    using inv assms(2) unfolding resolverInv_def rest same setPhase_keys by blast
qed

lemma resolveLookupAttempt_Resolved:
  "resolveLookupAttempt verified attempted a = Resolved c \<Longrightarrow> verified c \<and> ac_agentId c = a"
  by (auto simp: resolveLookupAttempt_def split: option.splits lookup_answer.splits if_splits)

lemma settle_cards:
  assumes inv: "resolverInv cacheCapacity limit verified s"
    and s'_def: "s' = settleResolution cacheCapacity verified d a attempted s"
  shows "jmWf (rs_cards s')" and "length (rs_cards s') \<le> max 1 cacheCapacity"
    and "\<forall>(a, c)\<in>set (rs_cards s'). verified c \<and> ac_agentId c = a"
proof -
  have "jmWf (rs_cards s') \<and> length (rs_cards s') \<le> max 1 cacheCapacity \<and> (\<forall>(a, c)\<in>set (rs_cards s'). verified c \<and> ac_agentId c = a)"
  proof (cases "resolveLookupAttempt verified attempted a")
    case (Resolved c)
    have wf: "jmWf (rs_cards s)" using resolverInvD(6) [OF inv] .
    have "rs_cards s' = cacheUse cacheCapacity (UseSet a c) (rs_cards s)"
      by (simp add: s'_def settleResolution_def Resolved cacheUse_def)
    moreover have "set (cacheUse cacheCapacity (UseSet a c) (rs_cards s)) \<subseteq> insert (a, c) (set (rs_cards s))"
      using cacheSet_members [OF wf] by (simp add: cacheUse_def)
    moreover from this have "\<forall>(a, c)\<in>set (cacheUse cacheCapacity (UseSet a c) (rs_cards s)). verified c \<and> ac_agentId c = a"
      using resolverInvD(8) [OF inv] resolveLookupAttempt_Resolved [OF Resolved] by blast
    ultimately show ?thesis
      using cacheUse_wf [OF wf] cacheUse_bounded [OF wf resolverInvD(7) [OF inv]] by simp
  qed (use inv in \<open>simp_all add: s'_def settleResolution_def resolverInv_def\<close>)
  then show "jmWf (rs_cards s')" "length (rs_cards s') \<le> max 1 cacheCapacity" "\<forall>(a, c)\<in>set (rs_cards s'). verified c \<and> ac_agentId c = a"
    by blast+
qed

lemma length_filter_filter: "length (filter P (filter Q xs)) \<le> length (filter P xs)"
  by (induction xs) auto

lemma unique_fiber:
  "distinct (map fst fs) \<Longrightarrow> (d, a, ph) \<in> set fs \<Longrightarrow> (d, a', ph') \<in> set fs \<Longrightarrow> a' = a \<and> ph' = ph"
  by (metis eq_key_imp_eq_value prod.inject)

lemma resolverInv_settle:
  assumes inv: "resolverInv cacheCapacity limit verified s" and fiber: "(d, a, Returned attempted) \<in> set (rs_fibers s)"
  shows "resolverInv cacheCapacity limit verified (settleResolution cacheCapacity verified d a attempted s)"
proof -
  let ?s = "settleResolution cacheCapacity verified d a attempted s"
  let ?exit = "resolveLookupAttempt verified attempted a"
  have proj: "rs_pending ?s = jmDelete a (rs_pending s)" "rs_fibers ?s = filter (\<lambda>f. fst f \<noteq> d) (rs_fibers s)"
    "rs_settled ?s = (d, a, ?exit) # rs_settled s" "rs_waiting ?s = rs_waiting s" "rs_next ?s = rs_next s"
    by (simp_all add: settleResolution_def Let_def)
  note d = resolverInvD [OF inv]
  have pend: "jmGet (rs_pending s) a = Some d" using d(3) fiber by blast
  have pending: "jmGet (jmDelete a (rs_pending s)) a' = Some d' \<longleftrightarrow> (\<exists>ph. (d', a', ph) \<in> set (filter (\<lambda>f. fst f \<noteq> d) (rs_fibers s)))" for a' d'
  proof (cases "a' = a")
    case True
    have "d' = d" if "(d', a, ph) \<in> set (rs_fibers s)" for ph using that d(3) [of a d'] pend by auto
    then show ?thesis using True jm.get_del [OF d(1), of a a'] by auto
  next
    case False
    have "d' \<noteq> d" if "(d', a', ph) \<in> set (rs_fibers s)" for ph using that unique_fiber [OF d(2) fiber] False by blast
    then show ?thesis using False jm.get_del [OF d(1), of a a'] d(3) [of a' d'] by auto
  qed
  have waiting: "(\<exists>ph. (d', a', ph) \<in> set (rs_fibers ?s)) \<or> (\<exists>exit. (d', a', exit) \<in> set (rs_settled ?s))"
    if w: "(a', d') \<in> set (rs_waiting s)" for a' d'
  proof (cases "d' = d")
    case True
    then show ?thesis using d(5) [OF w] unique_fiber [OF d(2) fiber] unfolding proj by auto
  next
    case False
    then show ?thesis using d(5) [OF w] unfolding proj by auto
  qed
  have "permitsHeld ?s \<le> permitsHeld s"
    unfolding permitsHeld_def proj(2) by (rule length_filter_filter)
  then have h: "permitsHeld ?s \<le> limit" using d(10) by linarith
  have r: "\<forall>(d', a', exit)\<in>set (rs_settled ?s). \<forall>c. exit = Resolved c \<longrightarrow> verified c \<and> ac_agentId c = a'"
    using inv resolveLookupAttempt_Resolved [of verified attempted a] unfolding proj by (auto simp: resolverInv_def)
  have f: "\<forall>f\<in>set (rs_fibers ?s). fst f < rs_next ?s" using d(4) unfolding proj by auto
  have k: "distinct (map fst (rs_fibers ?s))" using d(2) unfolding proj by (rule distinct_map_filter)
  have w: "\<forall>(a', d')\<in>set (rs_waiting ?s). (\<exists>ph. (d', a', ph) \<in> set (rs_fibers ?s)) \<or> (\<exists>exit. (d', a', exit) \<in> set (rs_settled ?s))"
    using waiting unfolding proj(4) by blast
  have p: "jmWf (rs_pending ?s)"
    "\<forall>a' d'. jmGet (rs_pending ?s) a' = Some d' \<longleftrightarrow> (\<exists>ph. (d', a', ph) \<in> set (rs_fibers ?s))"
    using pending jm.wf_del [OF d(1), of a] unfolding proj by blast+
  show ?thesis
    unfolding resolverInv_def
    by (intro conjI p k f w r h settle_cards [OF inv refl])
qed

lemma resolverInv_awoken:
  "resolverInv cacheCapacity limit verified s \<Longrightarrow> resolverInv cacheCapacity limit verified (s\<lparr>rs_waiting := remove1 w (rs_waiting s)\<rparr>)"
  using set_remove1_subset [of w "rs_waiting s"] by (auto simp: resolverInv_def permitsHeld_def)

lemma resolverStep_inv:
  assumes "resolverStep cacheCapacity limit verified s s'" and inv: "resolverInv cacheCapacity limit verified s"
  shows "resolverInv cacheCapacity limit verified s'"
  using assms(1)
proof cases
  case (arrive_cached a c p m)
  have "p = rs_pending s" using beginCardResolution_cases [OF arrive_cached(2)] by auto
  moreover obtain r where "cacheGet a (rs_cards s) = (r, m)" using beginCardResolution_cards [OF arrive_cached(2)] by blast
  ultimately show ?thesis using resolverInv_cards [OF inv] arrive_cached(1) by simp
next
  case (arrive_join a d p m)
  have p: "p = rs_pending s" "jmGet (rs_pending s) a = Some d" using beginCardResolution_cases [OF arrive_join(2)] by auto
  obtain r where "cacheGet a (rs_cards s) = (r, m)" using beginCardResolution_cards [OF arrive_join(2)] by blast
  from resolverInv_cards [OF inv this] p resolverInvD(3) [OF inv, of a d] show ?thesis
    unfolding arrive_join(1) by (auto simp: resolverInv_def permitsHeld_def)
next
  case (arrive_lead a d p m)
  have p: "p = jmSet a d (rs_pending s)" "jmGet (rs_pending s) a = None" "d = rs_next s"
    using beginCardResolution_cases [OF arrive_lead(2)] by auto
  obtain r where "cacheGet a (rs_cards s) = (r, m)" using beginCardResolution_cards [OF arrive_lead(2)] by blast
  from resolverInv_lead [OF resolverInv_cards [OF inv this], of a d] p resolverInvD(4) [OF inv] show ?thesis
    unfolding arrive_lead(1) by (simp add: resolverInv_def permitsHeld_def)
next
  case (permit_taken d a)
  have "permitsHeld (setPhase d Holding s) \<le> limit"
    using permitsHeld_setPhase [OF resolverInvD(2) [OF inv] permit_taken(2), of Holding] permit_taken(3) by simp
  then show ?thesis unfolding permit_taken(1) by (rule resolverInv_setPhase [OF inv])
next
  case (permit_refused d a)
  have "permitsHeld (setPhase d (Returned None) s) \<le> limit"
    using permitsHeld_setPhase [OF resolverInvD(2) [OF inv] permit_refused(2), of "Returned None"] resolverInvD(10) [OF inv] by simp
  then show ?thesis unfolding permit_refused(1) by (rule resolverInv_setPhase [OF inv])
next
  case (lookup_returned d a answer)
  have "permitsHeld (setPhase d (Returned (Some answer)) s) \<le> limit"
    using permitsHeld_setPhase [OF resolverInvD(2) [OF inv] lookup_returned(2), of "Returned (Some answer)"] resolverInvD(10) [OF inv] by simp
  then show ?thesis unfolding lookup_returned(1) by (rule resolverInv_setPhase [OF inv])
next
  case (settled d a attempted)
  then show ?thesis using resolverInv_settle [OF inv] by simp
next
  case (awoken a d a' exit)
  then show ?thesis using resolverInv_awoken [OF inv] by simp
qed

lemma resolverReachable_inv:
  "resolverReachable cacheCapacity limit verified s \<Longrightarrow> resolverInv cacheCapacity limit verified s"
  by (induction rule: resolverReachable.induct) (simp_all add: resolverInv_initial resolverStep_inv)

section \<open>Shared, bounded lookups\<close>

lemma fibers_by_agent:
  assumes "resolverInv cacheCapacity limit verified s"
  shows "distinct (map (\<lambda>f. fst (snd f)) (rs_fibers s))"
proof -
  have "f = g" if fg: "f \<in> set (rs_fibers s)" "g \<in> set (rs_fibers s)" "fst (snd f) = fst (snd g)" for f g
  proof -
    obtain d a ph where f: "f = (d, a, ph)" by (cases f)
    obtain d' ph' where g: "g = (d', a, ph')" using fg(3) f by (cases g) simp
    have "jmGet (rs_pending s) a = Some d" "jmGet (rs_pending s) a = Some d'"
      using resolverInvD(3) [OF assms] fg f g by blast+
    then have "d' = d" by simp
    then show ?thesis using unique_fiber [OF resolverInvD(2) [OF assms], of d a ph a ph'] fg f g by simp
  qed
  moreover have "distinct (rs_fibers s)" using resolverInvD(2) [OF assms] by (simp add: distinct_map)
  ultimately show ?thesis unfolding distinct_map inj_on_def by blast
qed

text \<open>
  C33: Whatever callers arrive and however lookups interleave, there are never more Registry lookups in
  progress than the configured limit, never two unsettled resolutions for one agent, never more cached
  cards than the capacity, and every cached card is a verified card of the agent it is cached for.
\<close>

theorem lookups_shared_and_bounded:
  assumes "resolverReachable cacheCapacity limit verified s"
  shows "permitsHeld s \<le> limit \<and> distinct (map (\<lambda>f. fst (snd f)) (rs_fibers s)) \<and>
    cacheSize (rs_cards s) \<le> max 1 cacheCapacity \<and> list_all (\<lambda>(a, c). verified c \<and> ac_agentId c = a) (rs_cards s)"
proof -
  have inv: "resolverInv cacheCapacity limit verified s" using assms by (rule resolverReachable_inv)
  have "list_all (\<lambda>(a, c). verified c \<and> ac_agentId c = a) (rs_cards s)"
    unfolding list_all_iff using resolverInvD(8) [OF inv] by blast
  then show ?thesis
    using fibers_by_agent [OF inv] resolverInvD(7,10) [OF inv] by (simp add: cacheSize_def)
qed

definition leadingResolver :: resolver where
  "leadingResolver = initialResolver\<lparr>rs_pending := [(''a'', 0)], rs_next := 1, rs_waiting := [(''a'', 0)], rs_fibers := [(0, ''a'', Starting)]\<rparr>"

lemma leadingResolver_reachable: "resolverReachable 2 1 (\<lambda>_. True) leadingResolver"
proof -
  have "beginCardResolution ''a'' 0 [] [] = (Lead 0, [(''a'', 0)], [])"
    by (simp add: beginCardResolution_def cacheGet_def jmGet_def)
  then have "resolverStep 2 1 (\<lambda>_. True) initialResolver leadingResolver"
    using arrive_lead [of "''a''" initialResolver 0 "[(''a'', 0)]" "[]" 2 1 "\<lambda>_. True"]
    by (simp add: leadingResolver_def initialResolver_def)
  then show ?thesis by (rule resolverReachable.step [OF resolverReachable.start])
qed

theorem lookups_shared_and_bounded_witness: "permitsHeld leadingResolver \<le> 1 \<and> cacheSize (rs_cards leadingResolver) \<le> 2"
  using lookups_shared_and_bounded [OF leadingResolver_reachable] by simp

section \<open>No caller is left waiting\<close>

lemma setPhase_member: "(d, a, ph) \<in> set (rs_fibers s) \<Longrightarrow> (d, a, new) \<in> set (rs_fibers (setPhase d new s))"
  by (force simp: setPhase_def image_iff)

lemma setPhase_waiting [simp]: "rs_waiting (setPhase d new s) = rs_waiting s"
  by (simp add: setPhase_def)

lemma settle_settled:
  "rs_waiting (settleResolution cacheCapacity verified d a attempted s) = rs_waiting s"
  "\<exists>exit. (d, a, exit) \<in> set (rs_settled (settleResolution cacheCapacity verified d a attempted s))"
  by (auto simp: settleResolution_def Let_def)

lemma fiber_settles:
  assumes "(d, a, ph) \<in> set (rs_fibers s)"
  shows "\<exists>s' exit. (resolverStep cacheCapacity limit verified)\<^sup>*\<^sup>* s s' \<and> rs_waiting s' = rs_waiting s \<and> (d, a, exit) \<in> set (rs_settled s')"
proof -
  let ?step = "resolverStep cacheCapacity limit verified"
  have returned: "\<exists>s' exit. ?step\<^sup>*\<^sup>* s s' \<and> rs_waiting s' = rs_waiting s \<and> (d, a, exit) \<in> set (rs_settled s')"
    if "(d, a, Returned attempted) \<in> set (rs_fibers s)" for s attempted
    using resolverStep.settled [OF that, of cacheCapacity limit verified] settle_settled by (meson r_into_rtranclp)
  have holding: "\<exists>s' exit. ?step\<^sup>*\<^sup>* s s' \<and> rs_waiting s' = rs_waiting s \<and> (d, a, exit) \<in> set (rs_settled s')"
    if "(d, a, Holding) \<in> set (rs_fibers s)" for s
    using lookup_returned [OF that, of cacheCapacity limit verified LookupFailed] returned [OF setPhase_member [OF that]]
    by (metis converse_rtranclp_into_rtranclp setPhase_waiting)
  show ?thesis
  proof (cases ph)
    case Starting
    show ?thesis
    proof (cases "permitsHeld s < limit")
      case True
      then show ?thesis
        using permit_taken [of d a s limit cacheCapacity verified] assms Starting holding [OF setPhase_member [OF assms]]
        by (metis converse_rtranclp_into_rtranclp setPhase_waiting)
    next
      case False
      then show ?thesis
        using permit_refused [of d a s limit cacheCapacity verified] assms Starting returned [OF setPhase_member [OF assms]]
        by (metis converse_rtranclp_into_rtranclp setPhase_waiting)
    qed
  next
    case Holding
    then show ?thesis using holding assms by blast
  next
    case (Returned attempted)
    then show ?thesis using returned assms by blast
  qed
qed

text \<open>
  C32: No caller is stranded: from every state the resolver can reach, each caller that awaits a
  resolution can be answered by steps of the resolver alone (whatever the Registry answers), because the
  deferred it awaits has been settled or its leading lookup is still alive.
\<close>

theorem no_caller_stranded:
  assumes "resolverReachable cacheCapacity limit verified s" and "(a, d) \<in> set (rs_waiting s)"
  shows "\<exists>s' s'' exit. (resolverStep cacheCapacity limit verified)\<^sup>*\<^sup>* s s' \<and> (d, a, exit) \<in> set (rs_settled s') \<and>
    resolverStep cacheCapacity limit verified s' s'' \<and> rs_waiting s'' = remove1 (a, d) (rs_waiting s)"
proof -
  have "\<exists>s' exit. (resolverStep cacheCapacity limit verified)\<^sup>*\<^sup>* s s' \<and> rs_waiting s' = rs_waiting s \<and> (d, a, exit) \<in> set (rs_settled s')"
    using resolverInvD(5) [OF resolverReachable_inv [OF assms(1)] assms(2)] fiber_settles by blast
  then obtain s' exit where s': "(resolverStep cacheCapacity limit verified)\<^sup>*\<^sup>* s s'" "rs_waiting s' = rs_waiting s" "(d, a, exit) \<in> set (rs_settled s')"
    by blast
  have "resolverStep cacheCapacity limit verified s' (s'\<lparr>rs_waiting := remove1 (a, d) (rs_waiting s')\<rparr>)"
    using assms(2) s' by (intro awoken) auto
  then show ?thesis using s' by (metis resolver.select_convs(5) resolver.surjective resolver.update_convs(5))
qed

theorem no_caller_stranded_witness:
  "\<exists>s' s'' exit. (resolverStep 2 1 (\<lambda>_. True))\<^sup>*\<^sup>* leadingResolver s' \<and> (0, ''a'', exit) \<in> set (rs_settled s') \<and>
    resolverStep 2 1 (\<lambda>_. True) s' s'' \<and> rs_waiting s'' = []"
  using no_caller_stranded [OF leadingResolver_reachable, of "''a''" 0] by (simp add: leadingResolver_def)

section \<open>Accepted requests\<close>

lemma verifyAgentRequest_Inr:
  assumes "verifyAgentRequest env lib capacity resolve httpRequest bodyBytes nowMillis nonces = (Inr v, nonces')"
  obtains parsed signature where
    "decodeCanonicalJson env bodyBytes = Some parsed"
    and "decodeRegisteredAgentBody (ie_base64url env) parsed = Some (vq_callerAgentId v, vq_request v)"
    and "resolve (vq_callerAgentId v) = Inr (vq_agentCard v)"
    and "verifyHttpRequestSignature lib httpRequest bodyBytes (ac_publicKey (vq_agentCard v)) NormalProfile nowMillis = Inr signature"
    and "updateNonces (authenticatedClaim capacity signature) nonces = (Claimed, nonces')"
  using assms
  by (auto simp: verifyAgentRequest_def bind_eq_Some_conv bindE_Inr_iff mapE_Inr_iff
      split: option.splits sum.splits prod.splits claim_result.splits if_splits)

text \<open>
  What a resolution answers a caller: on arrival the card the cache holds, or, when the caller awaits a deferred, the
  result that settled it.
\<close>

definition awaitedAnswer :: "resolution \<Rightarrow> (router_http_error + agent_card) option" where
  "awaitedAnswer exit = (case exit of Resolved found \<Rightarrow> Some (Inr found) | ResolutionFailed e \<Rightarrow> Some (Inl e) | ResolutionInterrupted \<Rightarrow> None)"

definition resolverAnswers :: "resolver \<Rightarrow> agent_id \<Rightarrow> router_http_error + agent_card \<Rightarrow> bool" where
  "resolverAnswers s a answer \<longleftrightarrow>
     (case fst (beginCardResolution a (rs_next s) (rs_pending s) (rs_cards s)) of Cached found \<Rightarrow> answer = Inr found | _ \<Rightarrow> False) \<or>
     list_ex (\<lambda>(a', d). a' = a \<and> list_ex (\<lambda>(d', _, exit). d' = d \<and> awaitedAnswer exit = Some answer) (rs_settled s)) (rs_waiting s)"

text \<open>A deferred settles once, for the agent whose lookup led it.\<close>

definition deferredsApart :: "resolver \<Rightarrow> bool" where
  "deferredsApart s \<longleftrightarrow> distinct (map fst (rs_settled s) @ map fst (rs_fibers s)) \<and>
     list_all (\<lambda>d. d < rs_next s) (map fst (rs_settled s) @ map fst (rs_fibers s))"

lemma rs_setPhase: "rs_settled (setPhase d new s) = rs_settled s" "rs_next (setPhase d new s) = rs_next s"
  by (simp_all add: setPhase_def)

lemma deferredsApart_step:
  assumes "resolverStep cacheCapacity limit verified s s'" and old: "deferredsApart s"
  shows "deferredsApart s'"
  using assms(1)
proof cases
  case (arrive_lead a d p m)
  have "d = rs_next s" using beginCardResolution_cases [OF arrive_lead(2)] by auto
  then show ?thesis using old by (auto simp: arrive_lead(1) deferredsApart_def list_all_iff less_Suc_eq)
next
  case (settled d a attempted)
  have member: "d \<in> fst ` set (rs_fibers s)" using settled(2) by force
  have fibers: "rs_fibers s' = filter (\<lambda>f. fst f \<noteq> d) (rs_fibers s)" "map fst (rs_settled s') = d # map fst (rs_settled s)"
    "rs_next s' = rs_next s"
    by (simp_all add: settled(1) settleResolution_def Let_def)
  show ?thesis using old member unfolding deferredsApart_def fibers by (auto simp: list_all_iff distinct_map_filter)
qed (use old in \<open>auto simp: deferredsApart_def setPhase_keys rs_setPhase list_all_iff less_Suc_eq simp del: set_map\<close>)

lemma resolverReachable_apart: "resolverReachable cacheCapacity limit verified s \<Longrightarrow> deferredsApart s"
  by (induction rule: resolverReachable.induct) (simp add: deferredsApart_def initialResolver_def, rule deferredsApart_step)

lemma resolverAnswers_card:
  assumes "resolverReachable cacheCapacity limit verified s" and "resolverAnswers s a (Inr found)"
  shows "verified found \<and> ac_agentId found = a"
proof -
  note inv = resolverReachable_inv [OF assms(1)]
  from assms(2) consider (cached) "fst (beginCardResolution a (rs_next s) (rs_pending s) (rs_cards s)) = Cached found"
    | (awaited) d a' where "(a, d) \<in> set (rs_waiting s)" "(d, a', Resolved found) \<in> set (rs_settled s)"
    unfolding resolverAnswers_def
  proof (elim disjE, goal_cases)
    case 1
    then show ?case by (auto split: cache_access.splits)
  next
    case 2
    then obtain d a' exit where "(a, d) \<in> set (rs_waiting s)" "(d, a', exit) \<in> set (rs_settled s)" "awaitedAnswer exit = Some (Inr found)"
      by (auto simp: list_ex_iff)
    moreover from this(3) have "exit = Resolved found" by (cases exit) (simp_all add: awaitedAnswer_def)
    ultimately show ?case using 2 by blast
  qed
  then show ?thesis
  proof cases
    case cached
    then have "(a, found) \<in> set (rs_cards s)"
      by (cases rule: cacheGet_cases [of a "rs_cards s"])
        (auto simp: beginCardResolution_def jmGet_def dest: map_of_SomeD split: option.splits)
    then show ?thesis using resolverInvD(8) [OF inv] by blast
  next
    case awaited
    have apart: "distinct (map fst (rs_settled s))" "fst ` set (rs_settled s) \<inter> fst ` set (rs_fibers s) = {}"
      using resolverReachable_apart [OF assms(1)] by (simp_all add: deferredsApart_def)
    from resolverInvD(5) [OF inv awaited(1)] have "a' = a"
    proof
      assume "\<exists>phase. (d, a, phase) \<in> set (rs_fibers s)"
      then show ?thesis using apart(2) awaited(2) by force
    next
      assume "\<exists>exit. (d, a, exit) \<in> set (rs_settled s)"
      then show ?thesis using eq_key_imp_eq_value [OF apart(1)] awaited(2) by blast
    qed
    then show ?thesis using resolverInvD(9) [OF inv] awaited(2) by blast
  qed
qed

text \<open>
  C30: An accepted request is bound to its caller. When, in any state the resolver can reach, the answer the request's
  verification gets for the caller its body names is one the resolution gives (a card the cache holds, or the result that
  settled the deferred the caller awaits), then an accepted request's body is canonical and names the caller, the card is
  a verified card of that very agent, and the signature verifies under the key of that card, for the URL the request's own
  target and host form, covering method, target and the digest of this body, within its times. Its nonce is claimed, and
  its wire version is live.
\<close>

theorem authenticated_requests_bind_caller:
  assumes "resolverReachable cacheCapacity limit verified s"
    and "Option.bind (decodeCanonicalJson env bodyBytes) (decodeRegisteredAgentBody (ie_base64url env)) = Some (caller, body)"
    and "resolverAnswers s caller (resolve caller)"
    and "verifyAgentRequest env lib capacity resolve httpRequest bodyBytes nowMillis nonces = (Inr v, nonces')"
  shows "vq_callerAgentId v = caller \<and> vq_request v = body \<and> ac_agentId (vq_agentCard v) = caller \<and> verified (vq_agentCard v) \<and>
    (\<exists>nonce expires. signedRequest lib NormalProfile httpRequest bodyBytes (ac_publicKey (vq_agentCard v)) (nowMillis div 1000) nonce expires \<and>
      jmGet nonces' nonce = Some expires) \<and>
    (\<exists>version\<in>set LIVE_WIRE_VERSIONS. header httpRequest ''sharness-version'' = Some version)"
proof -
  obtain parsed signature where a: "decodeCanonicalJson env bodyBytes = Some parsed"
    "decodeRegisteredAgentBody (ie_base64url env) parsed = Some (vq_callerAgentId v, vq_request v)"
    "resolve (vq_callerAgentId v) = Inr (vq_agentCard v)"
    "verifyHttpRequestSignature lib httpRequest bodyBytes (ac_publicKey (vq_agentCard v)) NormalProfile nowMillis = Inr signature"
    "updateNonces (authenticatedClaim capacity signature) nonces = (Claimed, nonces')"
    by (rule verifyAgentRequest_Inr [OF assms(4)])
  have caller: "vq_callerAgentId v = caller" "vq_request v = body" using assms(2) a(1,2) by simp_all
  have mine: "verified (vq_agentCard v) \<and> ac_agentId (vq_agentCard v) = caller"
    using resolverAnswers_card [OF assms(1)] assms(3) a(3) unfolding caller by simp
  have nonce: "jmGet nonces' (vs_nonce signature) = Some (vs_expires signature)"
    using a(5) by (auto simp: updateNonces_def authenticatedClaim_def Let_def jmGet_jmSet split: if_splits)
  have "\<exists>version\<in>set LIVE_WIRE_VERSIONS. header httpRequest ''sharness-version'' = Some version"
    using assms(4) by (auto simp: verifyAgentRequest_def split: option.splits sum.splits prod.splits claim_result.splits if_splits)
  then show ?thesis using caller mine nonce verified_signed(1) [OF a(4)] by blast
qed

section \<open>A concrete accepted request\<close>

definition callerId :: agent_id where "callerId = ''agt_AAAAAAAAAAAAAAAAAAAAAA''"

definition callerCard :: agent_card where
  "callerCard = \<lparr>ac_agentId = callerId, ac_publicKey = ''k'', ac_digest = [], ac_principalId = [], ac_agentName = ''alice'',
     ac_issuedAt = [], ac_wireVersion = WIRE_VERSION,
     ac_representation = \<lparr>gj_payload = [], gj_protected = [], gj_signature = []\<rparr>,
     ac_protectedHeader = \<lparr>ph_alg = [], ph_kid = [], ph_typ = []\<rparr>\<rparr>"

definition callerEnvironment :: identity_environment where
  "callerEnvironment = \<lparr>ie_base64url = rfc4648,
     ie_parseJson = (\<lambda>_. Some (JObj [(''callerAgentId'', JStr callerId), (''request'', JNull)])),
     ie_canonicalize = (\<lambda>_. Some ''b'')\<rparr>"

definition callerResolve :: "agent_id \<Rightarrow> router_http_error + agent_card" where
  "callerResolve a = (if a = callerId then Inr callerCard else Inl AuthenticationFailedError)"

lemma caller_resolved:
  "\<exists>s. resolverReachable 2 1 (\<lambda>_. True) s \<and> (callerId, callerCard) \<in> set (rs_cards s)"
proof -
  let ?step = "resolverStep 2 1 (\<lambda>_. True)"
  let ?s = "initialResolver\<lparr>rs_pending := [(callerId, 0)], rs_cards := [], rs_next := 1, rs_waiting := [(callerId, 0)], rs_fibers := [(0, callerId, Starting)]\<rparr>"
  have "beginCardResolution callerId 0 [] [] = (Lead 0, [(callerId, 0)], [])"
    by (simp add: beginCardResolution_def cacheGet_def jmGet_def)
  then have 1: "?step initialResolver ?s"
    using arrive_lead [of callerId initialResolver 0 "[(callerId, 0)]" "[]" 2 1 "\<lambda>_. True"] by (simp add: initialResolver_def)
  have 2: "?step ?s (setPhase 0 Holding ?s)"
    by (rule permit_taken [of 0 callerId]) (simp_all add: permitsHeld_def)
  let ?t = "setPhase 0 Holding ?s"
  have 3: "?step ?t (setPhase 0 (Returned (Some (LookupFound callerCard))) ?t)"
    by (rule lookup_returned [of 0 callerId]) (simp add: setPhase_def)
  let ?u = "setPhase 0 (Returned (Some (LookupFound callerCard))) ?t"
  have 4: "?step ?u (settleResolution 2 (\<lambda>_. True) 0 callerId (Some (LookupFound callerCard)) ?u)"
    by (rule resolverStep.settled) (simp add: setPhase_def)
  have "resolverReachable 2 1 (\<lambda>_. True) (settleResolution 2 (\<lambda>_. True) 0 callerId (Some (LookupFound callerCard)) ?u)"
    using resolverReachable.start 1 2 3 4 by (meson resolverReachable.step)
  moreover have "(callerId, callerCard) \<in> set (rs_cards (settleResolution 2 (\<lambda>_. True) 0 callerId (Some (LookupFound callerCard)) ?u))"
    by (simp add: settleResolution_def resolveLookupAttempt_def callerCard_def cacheSet_def cacheTouch_def jmDelete_def setPhase_def initialResolver_def)
  ultimately show ?thesis by blast
qed

lemma caller_decoded:
  "Option.bind (decodeCanonicalJson callerEnvironment (utf8Bytes ''b'')) (decodeRegisteredAgentBody (ie_base64url callerEnvironment)) =
     Some (callerId, JNull)"
proof -
  have id: "isAgentId rfc4648 callerId" unfolding callerId_def by (rule sample_agentId)
  have b: "decodeText (utf8Bytes ''b'') = Some ''b''" by code_simp
  have "asciiText callerId" by (simp add: callerId_def)
  then have v: "visitJsonValue (JObj [(''callerAgentId'', JStr callerId), (''request'', JNull)]) 0"
    by (auto simp: MAXIMUM_CONTAINER_DEPTH_def intro!: hasWellFormedUnicode_ascii)
  have parse: "decodeCanonicalJson callerEnvironment (utf8Bytes ''b'') = Some (JObj [(''callerAgentId'', JStr callerId), (''request'', JNull)])"
    using v b by (simp add: parseCanonicalJson_def callerEnvironment_def)
  have e: "ie_base64url callerEnvironment = rfc4648" by (simp add: callerEnvironment_def)
  show ?thesis unfolding parse e using id by (simp add: decodeRegisteredAgentBody_def closedObject_def)
qed

lemma caller_accepted:
  "verifyAgentRequest callerEnvironment (sampleLibrary NormalProfile) 4 callerResolve (sampleHttpRequest NormalProfile) (utf8Bytes ''b'') 1000 [] =
     (Inr \<lparr>vq_callerAgentId = callerId, vq_agentCard = callerCard, vq_request = JNull\<rparr>, [(''AAAAAAAAAAAAAAAAAAAAAA'', 300)])"
proof -
  have claim: "updateNonces (authenticatedClaim 4 sampleReplayMaterial) [] = (Claimed, [(''AAAAAAAAAAAAAAAAAAAAAA'', 300)])"
    by (simp add: updateNonces_def authenticatedClaim_def jmGet_def)
  show ?thesis
    unfolding verifyAgentRequest_def caller_decoded
    by (simp add: callerResolve_def sample_verifies claim sampleHttpRequest_headers LIVE_WIRE_VERSIONS_def)
qed

theorem authenticated_requests_bind_caller_witness:
  "\<exists>s nonce expires. resolverReachable 2 1 (\<lambda>_. True) s \<and> resolverAnswers s callerId (Inr callerCard) \<and> ac_agentId callerCard = callerId \<and>
     signedRequest (sampleLibrary NormalProfile) NormalProfile (sampleHttpRequest NormalProfile) (utf8Bytes ''b'') ''k'' 1 nonce expires"
proof -
  obtain s where s: "resolverReachable 2 1 (\<lambda>_. True) s" "(callerId, callerCard) \<in> set (rs_cards s)" using caller_resolved by blast
  have "jmGet (rs_cards s) callerId = Some callerCard"
    using s(2) resolverInvD(6) [OF resolverReachable_inv [OF s(1)]] by (simp add: jmGet_def jmWf_def)
  then have answer: "resolverAnswers s callerId (callerResolve callerId)"
    by (simp add: resolverAnswers_def beginCardResolution_def cacheGet_def callerResolve_def)
  from authenticated_requests_bind_caller [OF s(1) caller_decoded answer caller_accepted] s(1) answer
  show ?thesis by (auto simp: callerResolve_def callerCard_def)
qed

section \<open>Replays\<close>

text \<open>One request after another on the same reference.\<close>

type_synonym request_arrival = "(agent_id \<Rightarrow> router_http_error + agent_card) \<times> http_request \<times> byte list \<times> int"

definition verifyRequests ::
  "identity_environment \<Rightarrow> ('u, 'k) signature_library \<Rightarrow> nat \<Rightarrow> request_arrival list \<Rightarrow> (string, int) jsmap \<Rightarrow> (string, int) jsmap" where
  "verifyRequests env lib capacity arrivals nonces =
     fold (\<lambda>(resolve, httpRequest, bodyBytes, nowMillis) ns. snd (verifyAgentRequest env lib capacity resolve httpRequest bodyBytes nowMillis ns))
       arrivals nonces"

lemma verifyAgentRequest_nonces:
  obtains "snd (verifyAgentRequest env lib capacity resolve httpRequest bodyBytes nowMillis nonces) = nonces"
  | signature publicKey where "verifyHttpRequestSignature lib httpRequest bodyBytes publicKey NormalProfile nowMillis = Inr signature"
      and "snd (verifyAgentRequest env lib capacity resolve httpRequest bodyBytes nowMillis nonces) =
        snd (updateNonces (authenticatedClaim capacity signature) nonces)"
proof (cases "Option.bind (decodeCanonicalJson env bodyBytes) (decodeRegisteredAgentBody (ie_base64url env))")
  case None
  then show ?thesis using that(1) by (simp add: verifyAgentRequest_def)
next
  case (Some body)
  obtain caller request where body: "body = (caller, request)" by (cases body)
  show ?thesis
  proof (cases "bindE (resolve caller) (\<lambda>agentCard. mapE (\<lambda>signature. (agentCard, signature))
      (verifyHttpRequestSignature lib httpRequest bodyBytes (ac_publicKey agentCard) NormalProfile nowMillis))")
    case (Inl e)
    then show ?thesis using that(1) Some body by (simp add: verifyAgentRequest_def)
  next
    case (Inr r)
    then obtain agentCard signature where r: "r = (agentCard, signature)"
      and v: "verifyHttpRequestSignature lib httpRequest bodyBytes (ac_publicKey agentCard) NormalProfile nowMillis = Inr signature"
      by (auto simp: bindE_Inr_iff mapE_Inr_iff)
    have "snd (verifyAgentRequest env lib capacity resolve httpRequest bodyBytes nowMillis nonces) =
        snd (updateNonces (authenticatedClaim capacity signature) nonces)"
      using Some body Inr r by (auto simp: verifyAgentRequest_def split: prod.splits claim_result.splits option.splits)
    then show ?thesis using that(2) v by blast
  qed
qed

lemma verified_second: "verifyHttpRequestSignature lib httpRequest bodyBytes publicKey profile nowMillis = Inr s \<Longrightarrow>
    vs_verifiedAt s = nowMillis div 1000 \<and> nowMillis div 1000 \<le> vs_expires s"
  by (rule verifyHttpRequestSignature_Inr, assumption) (auto elim: exactParameters_Some)

lemma nonceHeld_request:
  assumes "nonceHeld nonces n e" and "nowMillis div 1000 \<le> e"
  shows "nonceHeld (snd (verifyAgentRequest env lib capacity resolve httpRequest bodyBytes nowMillis nonces)) n e"
proof (cases rule: verifyAgentRequest_nonces [of env lib capacity resolve httpRequest bodyBytes nowMillis nonces])
  case 1
  then show ?thesis using assms by simp
next
  case (2 signature publicKey)
  have "jmWf nonces" using assms(1) by (simp add: nonceHeld_def)
  then show ?thesis
    using memory_nonces.live_kept [OF assms(1), of "authenticatedClaim capacity signature"] verified_second [OF 2(1)] assms(2) 2(2)
    by (simp add: nonceClaim_def authenticatedClaim_def)
qed

lemma nonceHeld_requests:
  "nonceHeld nonces n e \<Longrightarrow> list_all (\<lambda>(_, _, _, nowMillis). nowMillis div 1000 \<le> e) arrivals \<Longrightarrow>
     nonceHeld (verifyRequests env lib capacity arrivals nonces) n e"
proof (induction arrivals arbitrary: nonces)
  case (Cons arrival arrivals)
  obtain resolve httpRequest bodyBytes nowMillis where "arrival = (resolve, httpRequest, bodyBytes, nowMillis)" by (cases arrival)
  then show ?case using Cons nonceHeld_request [of nonces n e nowMillis env lib capacity resolve httpRequest bodyBytes]
    by (simp add: verifyRequests_def)
qed (simp add: verifyRequests_def)

lemma verifyRequests_wf: "jmWf nonces \<Longrightarrow> jmWf (verifyRequests env lib capacity arrivals nonces)"
proof (induction arrivals arbitrary: nonces)
  case (Cons arrival arrivals)
  obtain resolve httpRequest bodyBytes nowMillis where a: "arrival = (resolve, httpRequest, bodyBytes, nowMillis)" by (cases arrival)
  have "jmWf (snd (verifyAgentRequest env lib capacity resolve httpRequest bodyBytes nowMillis nonces))"
    by (rule verifyAgentRequest_nonces [of env lib capacity resolve httpRequest bodyBytes nowMillis nonces])
      (use Cons.prems updateNonces_wf in auto)
  then show ?case using Cons.IH a by (simp add: verifyRequests_def)
qed (simp add: verifyRequests_def)

text \<open>
  C31: A signed request is accepted at most once: after it was accepted, every later request with the
  same signed parameters is refused, whatever requests were verified in between, as long as the clock
  does not run backwards past its own checks.
\<close>

theorem agent_request_accepted_once:
  assumes first: "verifyAgentRequest env lib capacity resolve request bodyBytes nowMillis (verifyRequests env lib capacity before []) = (Inr v, nonces)"
    and clock: "list_all (\<lambda>(_, _, _, now). now div 1000 \<le> nowMillis' div 1000) arrivals"
    and same: "header request' ''signature-input'' = header request ''signature-input''"
  shows "\<exists>e. fst (verifyAgentRequest env lib capacity' resolve' request' bodyBytes' nowMillis' (verifyRequests env lib capacity arrivals nonces)) = Inl e"
proof (rule ccontr)
  let ?ns = "verifyRequests env lib capacity arrivals nonces"
  assume "\<not> (\<exists>e. fst (verifyAgentRequest env lib capacity' resolve' request' bodyBytes' nowMillis' ?ns) = Inl e)"
  then obtain v' ns' where again: "verifyAgentRequest env lib capacity' resolve' request' bodyBytes' nowMillis' ?ns = (Inr v', ns')"
    by (metis prod.collapse sum.exhaust)
  obtain key s where s: "verifyHttpRequestSignature lib request bodyBytes key NormalProfile nowMillis = Inr s"
    "updateNonces (authenticatedClaim capacity s) (verifyRequests env lib capacity before []) = (Claimed, nonces)"
    by (rule verifyAgentRequest_Inr [OF first]) blast
  obtain key' s' where s': "verifyHttpRequestSignature lib request' bodyBytes' key' NormalProfile nowMillis' = Inr s'"
    "updateNonces (authenticatedClaim capacity' s') ?ns = (Claimed, ns')"
    by (rule verifyAgentRequest_Inr [OF again]) blast
  have eq: "vs_nonce s = vs_nonce s'" "vs_expires s = vs_expires s'"
    using verified_replay_material [OF s(1) s'(1)] same by simp_all
  have t: "vs_verifiedAt s' = nowMillis' div 1000" "nowMillis' div 1000 \<le> vs_expires s'" using verified_second [OF s'(1)] by simp_all
  have "jmWf (verifyRequests env lib capacity before [])" by (rule verifyRequests_wf) (simp add: jmWf_def)
  then have "nonceHeld nonces (vs_nonce s) (vs_expires s)"
    using memory_nonces.claimed_live [of "authenticatedClaim capacity s" "verifyRequests env lib capacity before []" nonces] s(2)
    by (simp add: nonceClaim_def authenticatedClaim_def)
  moreover have "list_all (\<lambda>(_, _, _, now). now div 1000 \<le> vs_expires s) arrivals"
    using clock t(2) eq(2) by (auto simp: list_all_iff)
  ultimately have held: "nonceHeld ?ns (vs_nonce s) (vs_expires s)" by (rule nonceHeld_requests)
  then have "fst (nonceClaim (authenticatedClaim capacity' s') ?ns) = Replayed"
    using memory_nonces.live_replayed [OF held, of "authenticatedClaim capacity' s'"] t eq by (simp add: authenticatedClaim_def)
  then show False using s'(2) held by (simp add: nonceClaim_def nonceHeld_def)
qed

theorem agent_request_accepted_once_witness:
  "\<exists>e. fst (verifyAgentRequest callerEnvironment (sampleLibrary NormalProfile) 4 callerResolve (sampleHttpRequest NormalProfile) (utf8Bytes ''b'')
     2000 [(''AAAAAAAAAAAAAAAAAAAAAA'', 300)]) = Inl e"
proof -
  have "verifyRequests callerEnvironment (sampleLibrary NormalProfile) 4 [] [] = []" by (simp add: verifyRequests_def)
  then have "verifyAgentRequest callerEnvironment (sampleLibrary NormalProfile) 4 callerResolve (sampleHttpRequest NormalProfile) (utf8Bytes ''b'') 1000
      (verifyRequests callerEnvironment (sampleLibrary NormalProfile) 4 [] []) =
     (Inr \<lparr>vq_callerAgentId = callerId, vq_agentCard = callerCard, vq_request = JNull\<rparr>, [(''AAAAAAAAAAAAAAAAAAAAAA'', 300)])"
    using caller_accepted by simp
  from agent_request_accepted_once [OF this, where arrivals = "[]" and nowMillis' = 2000 and request' = "sampleHttpRequest NormalProfile"
      and capacity' = 4 and resolve' = callerResolve and bodyBytes' = "utf8Bytes ''b''"]
  show ?thesis by (simp add: verifyRequests_def)
qed

end
