(* ===== verification/Conversation_Address.thy ===== *)
theory Conversation_Address
  imports Records_Values
begin

text \<open>
  Message addresses: the parsers of \<^verbatim>\<open>packages/client/src/communication/records/values.ts\<close>, the closed
  send errors of \<^verbatim>\<open>communication/conversations/errors.ts\<close>, and the resolution of
  \<^verbatim>\<open>communication/conversations/address.ts\<close> from a destination to its canonical form and the members'
  cards. The Registry's lookup is a parameter, with its failures as the code tells them apart.
\<close>

section \<open>Send errors\<close>

datatype send_failure_reason =
    InvalidAddress | UnknownAgent | MembershipInvalid | ContentInvalid | NotRegistered | VersionMismatchFailure
  | CertificationUnavailable | PersistenceFailed | NetworkUnavailable | DeliveryPending | OutcomeUnknown

record send_error =
  se_reason :: send_failure_reason
  se_detail :: "string option"

fun sendFailureText :: "send_failure_reason \<Rightarrow> string" where
  "sendFailureText InvalidAddress = ''the address is not a valid agent: or group: address''"
| "sendFailureText UnknownAgent = ''an agent the address names is not a known agent''"
| "sendFailureText MembershipInvalid = ''the address does not name a valid set of agents''"
| "sendFailureText ContentInvalid = ''the message content is invalid''"
| "sendFailureText NotRegistered = ''this agent is not registered with Social Harness''"
| "sendFailureText VersionMismatchFailure = ''Social Harness is unavailable (version mismatch)''"
| "sendFailureText CertificationUnavailable = ''Social Harness is unavailable (certification unavailable)''"
| "sendFailureText PersistenceFailed = ''Social Harness is unavailable (the message could not be stored)''"
| "sendFailureText NetworkUnavailable = ''Social Harness is unavailable (network unavailable)''"
| "sendFailureText DeliveryPending = ''the message is pending and Social Harness will still deliver it''"
| "sendFailureText OutcomeUnknown = ''the send did not complete; the message may or may not have been sent''"

definition sendErrorMessage :: "send_error \<Rightarrow> string" where
  "sendErrorMessage e =
     ''send failed: '' @ (case se_detail e of Some d \<Rightarrow> d | None \<Rightarrow> sendFailureText (se_reason e))"

section \<open>Parsing\<close>

definition AGENT_ADDRESS_PREFIX :: string where
  "AGENT_ADDRESS_PREFIX = ''agent:''"

definition GROUP_ADDRESS_PREFIX :: string where
  "GROUP_ADDRESS_PREFIX = ''group:''"

definition parseAgentAddress :: "string \<Rightarrow> string option" where
  "parseAgentAddress value =
     (if \<not> startsWith value AGENT_ADDRESS_PREFIX then None
      else let name = drop (length AGENT_ADDRESS_PREFIX) value in if isAgentName name then Some name else None)"

definition parseGroupAddress :: "string \<Rightarrow> string list option" where
  "parseGroupAddress value =
     (if \<not> startsWith value GROUP_ADDRESS_PREFIX then None
      else let names = splitOn (CHR '','') (drop (length GROUP_ADDRESS_PREFIX) value)
           in if 0 < length names \<and> list_all isAgentName names then Some names else None)"

definition isMessageAddressInput :: "string \<Rightarrow> bool" where
  "isMessageAddressInput value \<longleftrightarrow> parseAgentAddress value \<noteq> None \<or> parseGroupAddress value \<noteq> None"

definition isAgentAddress :: "string \<Rightarrow> bool" where
  "isAgentAddress value \<longleftrightarrow> isMessageAddressInput value \<and> parseAgentAddress value \<noteq> None"

definition isCanonicalGroupAddress :: "string \<Rightarrow> bool" where
  "isCanonicalGroupAddress value =
     (case parseGroupAddress value of
        None \<Rightarrow> False
      | Some names \<Rightarrow> \<not> length names < 3 \<and> \<not> maximumMembers < length names \<and> isStrictlyAscending compareAscii names)"

definition isGroupAddress :: "string \<Rightarrow> bool" where
  "isGroupAddress value \<longleftrightarrow> isMessageAddressInput value \<and> isCanonicalGroupAddress value"

section \<open>The canonical form\<close>

text \<open>
  \<^verbatim>\<open>sort\<close> with a comparison is stable, so a consistent comparison determines its result; the model
  inserts each element before the first that does not compare below it.
\<close>

fun insertWith :: "('a \<Rightarrow> 'a \<Rightarrow> int) \<Rightarrow> 'a \<Rightarrow> 'a list \<Rightarrow> 'a list" where
  "insertWith compare x [] = [x]"
| "insertWith compare x (y # ys) = (if compare y x < 0 then y # insertWith compare x ys else x # y # ys)"

definition sortWith :: "('a \<Rightarrow> 'a \<Rightarrow> int) \<Rightarrow> 'a list \<Rightarrow> 'a list" where
  "sortWith compare xs = foldr (insertWith compare) xs []"

datatype canonical_address =
    DirectAddress (ca_address: string) string
  | GroupAddress (ca_address: string) "string list"

definition sendError :: "send_failure_reason \<Rightarrow> send_error" where
  "sendError reason = \<lparr>se_reason = reason, se_detail = None\<rparr>"

definition invalidMembership :: "string \<Rightarrow> send_error" where
  "invalidMembership detail = \<lparr>se_reason = MembershipInvalid, se_detail = Some detail\<rparr>"

definition decodeAgentName :: "string \<Rightarrow> send_error + string" where
  "decodeAgentName value = (if isAgentName value then Inr value else Inl (sendError InvalidAddress))"

definition decodeAgentAddress :: "string \<Rightarrow> send_error + string" where
  "decodeAgentAddress value = (if isAgentAddress value then Inr value else Inl (sendError InvalidAddress))"

definition renderGroupAddress :: "string list \<Rightarrow> (string \<times> string list) option" where
  "renderGroupAddress names =
     (let ordered = sortWith compareAscii names;
          address = GROUP_ADDRESS_PREFIX @ joinWith '','' ordered
      in if isGroupAddress address then Some (address, ordered) else None)"

definition canonicalDirect :: "string \<Rightarrow> string \<Rightarrow> send_error + canonical_address" where
  "canonicalDirect to localAgentName =
     bindE (decodeAgentName (drop (length AGENT_ADDRESS_PREFIX) to)) (\<lambda>remoteName.
     if remoteName = localAgentName then Inl (invalidMembership ''the address names only you'')
     else bindE (decodeAgentAddress to) (\<lambda>address. Inr (DirectAddress address remoteName)))"

definition canonicalGroup :: "string \<Rightarrow> string \<Rightarrow> send_error + canonical_address" where
  "canonicalGroup to localAgentName =
     bindE (forEachE decodeAgentName (splitOn (CHR '','') (drop (length GROUP_ADDRESS_PREFIX) to))) (\<lambda>explicitNames.
     if length (jsSet explicitNames) \<noteq> length explicitNames
     then Inl (invalidMembership ''the address names an agent more than once'')
     else bindE (decodeAgentName localAgentName) (\<lambda>localName.
       let memberNames = (if localName \<in> set explicitNames then explicitNames else explicitNames @ [localName]);
           others = filter (\<lambda>name. name \<noteq> localName) memberNames
       in case others of
            [] \<Rightarrow> Inl (invalidMembership ''the address names only you'')
          | onlyOther # _ \<Rightarrow>
              if length others = 1
              then bindE (decodeAgentAddress (AGENT_ADDRESS_PREFIX @ onlyOther)) (\<lambda>address.
                   Inr (DirectAddress address onlyOther))
              else if maximumMembers < length memberNames
              then Inl (invalidMembership (''a group has at most '' @ natText maximumMembers @ '' members''))
              else (case renderGroupAddress memberNames of
                      None \<Rightarrow> Inl (sendError InvalidAddress)
                    | Some (address, names) \<Rightarrow> Inr (GroupAddress address names))))"

definition canonicalMessageAddress :: "string \<Rightarrow> string \<Rightarrow> send_error + canonical_address" where
  "canonicalMessageAddress to localAgentName =
     (if startsWith to AGENT_ADDRESS_PREFIX then canonicalDirect to localAgentName
      else canonicalGroup to localAgentName)"

section \<open>The members' cards\<close>

datatype registry_failure = RegistryVersionMismatch | RegistryOtherFailure

definition mapRegistryFailure :: "registry_failure \<Rightarrow> send_error" where
  "mapRegistryFailure e =
     sendError (case e of RegistryVersionMismatch \<Rightarrow> VersionMismatchFailure | RegistryOtherFailure \<Rightarrow> NetworkUnavailable)"

definition unknownAgent :: "string \<Rightarrow> send_error" where
  "unknownAgent agentName =
     \<lparr>se_reason = UnknownAgent, se_detail = Some (AGENT_ADDRESS_PREFIX @ agentName @ '' is not a known agent'')\<rparr>"

definition lookupCard ::
  "(string \<Rightarrow> registry_failure + agent_card option) \<Rightarrow> string \<Rightarrow> send_error + agent_card" where
  "lookupCard lookup agentName =
     (case lookup agentName of
        Inl e \<Rightarrow> Inl (mapRegistryFailure e)
      | Inr None \<Rightarrow> Inl (unknownAgent agentName)
      | Inr (Some c) \<Rightarrow> if ac_agentName c = agentName then Inr c else Inl (unknownAgent agentName))"

definition orderMemberCards :: "base64url \<Rightarrow> agent_card list \<Rightarrow> agent_card list" where
  "orderMemberCards b64 = sortWith (\<lambda>left right. compareAgentIds b64 (ac_agentId left) (ac_agentId right))"

definition resolveMessageAddress ::
  "base64url \<Rightarrow> (string \<Rightarrow> registry_failure + agent_card option) \<Rightarrow> agent_card \<Rightarrow> string \<Rightarrow>
   send_error + canonical_address \<times> agent_card list" where
  "resolveMessageAddress b64 lookup localAgentCard to =
     bindE (canonicalMessageAddress to (ac_agentName localAgentCard)) (\<lambda>canonical.
     case canonical of
       DirectAddress address remoteName \<Rightarrow>
         mapE (\<lambda>remoteCard. (canonical, orderMemberCards b64 [localAgentCard, remoteCard])) (lookupCard lookup remoteName)
     | GroupAddress address memberNames \<Rightarrow>
         mapE (\<lambda>resolved. (canonical, orderMemberCards b64 resolved))
           (forEachE (\<lambda>agentName. if agentName = ac_agentName localAgentCard then Inr localAgentCard
              else lookupCard lookup agentName) memberNames))"

section \<open>Sorting\<close>

lemma set_insertWith: "set (insertWith compare x ys) = insert x (set ys)"
  by (induction compare x ys rule: insertWith.induct) auto

lemma set_sortWith [simp]: "set (sortWith compare xs) = set xs"
  by (induction xs) (simp_all add: sortWith_def set_insertWith)

lemma length_insertWith: "length (insertWith compare x ys) = Suc (length ys)"
  by (induction compare x ys rule: insertWith.induct) auto

lemma length_sortWith [simp]: "length (sortWith compare xs) = length xs"
  by (induction xs) (simp_all add: sortWith_def length_insertWith)

lemma ascending_Cons:
  "isStrictlyAscending compare (x # xs) \<longleftrightarrow> (xs = [] \<or> compare x (hd xs) < 0 \<and> isStrictlyAscending compare xs)"
  by (cases xs) auto

lemma hd_insertWith: "hd (insertWith compare x ys) \<in> {x, hd ys}"
  by (cases ys) auto

context ranked_comparison
begin

lemma ascending_insertWith:
  assumes "isStrictlyAscending compare ys" "\<forall>y\<in>set ys. compare x y < 0 \<or> compare y x < 0"
  shows "isStrictlyAscending compare (insertWith compare x ys)"
  using assms
proof (induction ys)
  case Nil
  then show ?case by simp
next
  case (Cons y ys)
  have tail: "isStrictlyAscending compare ys" using Cons.prems(1) by (cases ys) (auto split: if_splits)
  show ?case
  proof (cases "compare y x < 0")
    case True
    have "isStrictlyAscending compare (insertWith compare x ys)" using Cons.IH tail Cons.prems(2) by simp
    moreover have "compare y (hd (insertWith compare x ys)) < 0"
      using hd_insertWith [of compare x ys] True Cons.prems(1) by (cases ys) (auto split: if_splits)
    moreover have "insertWith compare x ys \<noteq> []" by (cases ys) auto
    ultimately show ?thesis using True by (simp add: ascending_Cons)
  next
    case False
    with Cons.prems show ?thesis by (auto simp: ascending_Cons)
  qed
qed

text \<open>Values of different rank sort to the one ascending list of them.\<close>

lemma ascending_sortWith:
  assumes "distinct xs" "\<forall>x\<in>set xs. \<forall>y\<in>set xs. x \<noteq> y \<longrightarrow> compare x y < 0 \<or> compare y x < 0"
  shows "isStrictlyAscending compare (sortWith compare xs)"
  using assms
proof (induction xs)
  case (Cons x xs)
  then have "isStrictlyAscending compare (sortWith compare xs)" by simp
  moreover have "\<forall>y\<in>set (sortWith compare xs). compare x y < 0 \<or> compare y x < 0"
    using Cons.prems by (metis distinct.simps(2) list.set_intros set_sortWith)
  ultimately show ?case by (simp add: sortWith_def ascending_insertWith)
qed (simp add: sortWith_def)

lemma sortWith_set_unique:
  assumes "distinct xs" "distinct ys" "set xs = set ys"
    and "\<forall>x\<in>set xs. \<forall>y\<in>set xs. x \<noteq> y \<longrightarrow> compare x y < 0 \<or> compare y x < 0"
  shows "sortWith compare xs = sortWith compare ys"
  using assms by (intro ascending_unique ascending_sortWith) auto

end

lemma compareAscii_total: "x \<noteq> y \<Longrightarrow> compareAscii x y < 0 \<or> compareAscii y x < 0"
proof -
  assume "x \<noteq> y"
  then have "map (\<lambda>c. of_char c :: nat) x \<noteq> map of_char y" by (simp add: inj_map_eq_map inj_of_char)
  then show ?thesis by (auto simp: compareAscii_less)
qed

lemma names_sorted: "distinct xs \<Longrightarrow> isStrictlyAscending compareAscii (sortWith compareAscii xs)"
  by (intro nameOrder.ascending_sortWith) (auto dest: compareAscii_total)

lemma names_sort_unique:
  "distinct xs \<Longrightarrow> distinct ys \<Longrightarrow> set xs = set ys \<Longrightarrow> sortWith compareAscii xs = sortWith compareAscii ys"
  by (intro nameOrder.sortWith_set_unique) (auto dest: compareAscii_total)

end
