(* ===== verification/Conversation_Address_Facts.thy ===== *)
theory Conversation_Address_Facts
  imports Conversation_Address
begin

text \<open>
  One conversation has one address: a destination's canonical form depends only on the agents it
  names together with the sender, is its own canonical form, and is the same text for every
  member of a group; and the cards it resolves to are the members' own.
\<close>

section \<open>Names in addresses\<close>

abbreviation groupInput :: "string list \<Rightarrow> string" where
  "groupInput names \<equiv> GROUP_ADDRESS_PREFIX @ joinWith '','' names"

definition completedNames :: "string list \<Rightarrow> string \<Rightarrow> string list" where
  "completedNames names self = (if self \<in> set names then names else names @ [self])"

lemma agentName_no_comma: "isAgentName s \<Longrightarrow> CHR '','' \<notin> set s"
proof
  assume s: "isAgentName s" and c: "CHR '','' \<in> set s"
  then obtain w where "w \<in> set (splitOn (CHR ''-'') s)" "CHR '','' \<in> set w"
    using splitOn_pieces [OF c, of "CHR ''-''"] by auto
  with s have "inCharRange (CHR ''a'') (CHR ''z'') (CHR '','') \<or> inCharRange (CHR ''0'') (CHR ''9'') (CHR '','')"
    unfolding isAgentName_def list_all_iff by blast
  then show False by (simp add: inCharRange_def)
qed

lemma splitOn_names: "xs \<noteq> [] \<Longrightarrow> list_all isAgentName xs \<Longrightarrow> splitOn (CHR '','') (joinWith '','' xs) = xs"
  by (intro splitOn_joinWith) (auto simp: list_all_iff agentName_no_comma)

lemma startsWith_prefix_simps [simp]:
  "startsWith (GROUP_ADDRESS_PREFIX @ r) GROUP_ADDRESS_PREFIX"
  "startsWith (AGENT_ADDRESS_PREFIX @ r) AGENT_ADDRESS_PREFIX"
  "\<not> startsWith (GROUP_ADDRESS_PREFIX @ r) AGENT_ADDRESS_PREFIX"
  by (auto simp: startsWith_def GROUP_ADDRESS_PREFIX_def AGENT_ADDRESS_PREFIX_def)

lemma drop_prefix_simps [simp]:
  "drop (length GROUP_ADDRESS_PREFIX) (GROUP_ADDRESS_PREFIX @ r) = r"
  "drop (length AGENT_ADDRESS_PREFIX) (AGENT_ADDRESS_PREFIX @ r) = r"
  by simp_all

lemma parseGroupAddress_names:
  "xs \<noteq> [] \<Longrightarrow> list_all isAgentName xs \<Longrightarrow> parseGroupAddress (groupInput xs) = Some xs"
  by (simp add: parseGroupAddress_def splitOn_names del: length_greater_0_conv)

lemma isAgentAddress_name: "isAgentName n \<Longrightarrow> isAgentAddress (AGENT_ADDRESS_PREFIX @ n)"
  by (simp add: isAgentAddress_def isMessageAddressInput_def parseAgentAddress_def)

lemma decode_names_iff:
  "forEachE decodeAgentName xs = Inr ys \<longleftrightarrow> ys = xs \<and> list_all isAgentName xs"
  by (induction xs arbitrary: ys) (auto simp: resultE_iffs decodeAgentName_def split: if_splits)

lemma completedNames_facts [simp]:
  "set (completedNames xs self) = insert self (set xs)"
  "distinct (completedNames xs self) \<longleftrightarrow> distinct xs"
  "filter (\<lambda>n. n \<noteq> self) (completedNames xs self) = filter (\<lambda>n. n \<noteq> self) xs"
  by (auto simp: completedNames_def)

lemma length_completedNames:
  "distinct xs \<Longrightarrow> length (completedNames xs self) = Suc (length (filter (\<lambda>n. n \<noteq> self) xs))"
proof -
  assume xs: "distinct xs"
  have "length (completedNames xs self) = card (insert self (set xs))"
    using xs distinct_card [of "completedNames xs self"] by simp
  also have "\<dots> = Suc (card (set xs - {self}))" by (rule card.insert_remove) simp
  also have "card (set xs - {self}) = length (filter (\<lambda>n. n \<noteq> self) xs)"
    using xs distinct_card [of "filter (\<lambda>n. n \<noteq> self) xs"] by (simp add: set_diff_eq)
  finally show ?thesis .
qed

lemma renderGroupAddress_names:
  assumes "distinct xs" "list_all isAgentName xs" "3 \<le> length xs" "length xs \<le> maximumMembers"
  shows "renderGroupAddress xs = Some (groupInput (sortWith compareAscii xs), sortWith compareAscii xs)"
proof -
  let ?s = "sortWith compareAscii xs"
  have "length ?s \<noteq> 0" using assms(3) unfolding length_sortWith by linarith
  then have "?s \<noteq> []" unfolding length_0_conv .
  then have s: "?s \<noteq> []" "list_all isAgentName ?s"
    using assms(2) by (auto simp: list_all_iff)
  have "isStrictlyAscending compareAscii ?s" by (rule names_sorted [OF assms(1)])
  then have "isGroupAddress (groupInput ?s)"
    using parseGroupAddress_names [OF s] assms by (simp add: isGroupAddress_def isMessageAddressInput_def isCanonicalGroupAddress_def)
  then show ?thesis by (simp add: renderGroupAddress_def Let_def)
qed

section \<open>The canonical form of a group input\<close>

lemma canonical_group_input:
  assumes "xs \<noteq> []" "list_all isAgentName xs" "distinct xs" "isAgentName self"
  shows "canonicalMessageAddress (groupInput xs) self =
    (case filter (\<lambda>n. n \<noteq> self) xs of
       [] \<Rightarrow> Inl (invalidMembership ''the address names only you'')
     | other # rest \<Rightarrow>
         if rest = [] then Inr (DirectAddress (AGENT_ADDRESS_PREFIX @ other) other)
         else if maximumMembers < length (completedNames xs self)
         then Inl (invalidMembership (''a group has at most '' @ natText maximumMembers @ '' members''))
         else Inr (GroupAddress (groupInput (sortWith compareAscii (completedNames xs self)))
                (sortWith compareAscii (completedNames xs self))))"
proof -
  let ?ms = "completedNames xs self"
  have names: "list_all isAgentName ?ms" using assms by (auto simp: list_all_iff)
  have render: "renderGroupAddress ?ms = Some (groupInput (sortWith compareAscii ?ms), sortWith compareAscii ?ms)"
    if "filter (\<lambda>n. n \<noteq> self) xs = other # rest" "rest \<noteq> []" "\<not> maximumMembers < length ?ms" for other rest
    using that names assms(3) length_completedNames [OF assms(3), of self]
    by (intro renderGroupAddress_names) (auto simp: neq_Nil_conv)
  have other: "isAgentName other" if "filter (\<lambda>n. n \<noteq> self) xs = other # rest" for other rest
  proof -
    have "other \<in> set (filter (\<lambda>n. n \<noteq> self) xs)" unfolding that by simp
    then show ?thesis using assms(2) by (auto simp: list_all_iff)
  qed
  show ?thesis
    using assms render other
    by (auto simp: canonicalMessageAddress_def canonicalGroup_def splitOn_names decode_names_iff [THEN iffD2]
        decodeAgentName_def decodeAgentAddress_def isAgentAddress_name Let_def completedNames_def [symmetric]
        split: list.splits)
qed

lemma canonical_direct_input:
  "isAgentName n \<Longrightarrow> n \<noteq> self \<Longrightarrow>
   canonicalMessageAddress (AGENT_ADDRESS_PREFIX @ n) self = Inr (DirectAddress (AGENT_ADDRESS_PREFIX @ n) n)"
  by (simp add: canonicalMessageAddress_def canonicalDirect_def decodeAgentName_def decodeAgentAddress_def isAgentAddress_name)

text \<open>What a successful resolution of a name says about the input.\<close>

lemma canonical_cases:
  assumes "canonicalMessageAddress to self = Inr c"
  obtains (direct) n where "isAgentName n" "n \<noteq> self" "c = DirectAddress (AGENT_ADDRESS_PREFIX @ n) n"
  | (groups) names where "distinct names" "list_all isAgentName names" "self \<in> set names" "3 \<le> length names"
      "length names \<le> maximumMembers" "isStrictlyAscending compareAscii names" "c = GroupAddress (groupInput names) names"
proof (cases "startsWith to AGENT_ADDRESS_PREFIX")
  case True
  then obtain n where to: "to = AGENT_ADDRESS_PREFIX @ n" by (auto simp: startsWith_iff)
  with assms show ?thesis
    by (auto simp: canonicalMessageAddress_def canonicalDirect_def decodeAgentName_def decodeAgentAddress_def
        split: if_splits intro: direct)
next
  case False
  let ?xs = "splitOn (CHR '','') (drop (length GROUP_ADDRESS_PREFIX) to)"
  have xs: "?xs \<noteq> []" by (cases "drop (length GROUP_ADDRESS_PREFIX) to") (auto split: list.splits)
  have ok: "list_all isAgentName ?xs" "distinct ?xs" "isAgentName self"
    using assms False by (auto simp: canonicalMessageAddress_def canonicalGroup_def resultE_iffs decode_names_iff
        decodeAgentName_def split: if_splits)
  have "canonicalMessageAddress (groupInput ?xs) self = Inr c"
    using assms False by (simp add: canonicalMessageAddress_def canonicalGroup_def splitOn_names [OF xs ok(1)])
  then show ?thesis
    unfolding canonical_group_input [OF xs ok]
  proof (cases "filter (\<lambda>n. n \<noteq> self) ?xs")
    case (Cons other rest)
    have "other \<in> set (filter (\<lambda>n. n \<noteq> self) ?xs)" unfolding Cons by simp
    then have "isAgentName other" "other \<noteq> self" using ok(1) by (auto simp: list_all_iff)
    moreover have "length (completedNames ?xs self) = Suc (Suc (length rest))"
      unfolding length_completedNames [OF ok(2)] Cons by simp
    ultimately show ?thesis
      using \<open>canonicalMessageAddress (groupInput ?xs) self = Inr c\<close> ok
        names_sorted [of "completedNames ?xs self"] direct [of other]
        groups [of "sortWith compareAscii (completedNames ?xs self)"]
      unfolding canonical_group_input [OF xs ok] Cons
      by (cases rest) (auto split: if_splits simp: list_all_iff nameOrder.ascending_distinct)
  qed simp
qed

lemma canonical_group_itself:
  assumes "distinct names" "list_all isAgentName names" "member \<in> set names" "3 \<le> length names"
    and "length names \<le> maximumMembers" "isStrictlyAscending compareAscii names"
  shows "canonicalMessageAddress (groupInput names) member = Inr (GroupAddress (groupInput names) names)"
proof -
  have complete: "completedNames names member = names" using assms(3) by (simp add: completedNames_def)
  have sorted: "sortWith compareAscii names = names"
    using names_sorted [OF assms(1)] assms(6) by (rule nameOrder.ascending_unique) (rule set_sortWith)
  have member: "isAgentName member" "names \<noteq> []" using assms by (auto simp: list_all_iff)
  have "2 \<le> length (filter (\<lambda>n. n \<noteq> member) names)"
    using length_completedNames [OF assms(1), of member] assms(4) complete by simp
  then obtain a b rest where "filter (\<lambda>n. n \<noteq> member) names = a # b # rest"
    by (cases "filter (\<lambda>n. n \<noteq> member) names" rule: remdups_adj.cases) auto
  then show ?thesis
    using canonical_group_input [OF member(2) assms(2,1) member(1)] assms(5) by (simp add: complete sorted)
qed

section \<open>One conversation, one address\<close>

text \<open>
  C39: An address is canonical. What a destination resolves to is its own canonical form for the same
  sender. A direct address names one other agent; a group lists three to thirty-two distinct
  agents in increasing order, the sender among them, and every member that writes to that address
  reaches the same address and the same list of members.
\<close>

theorem canonical_address_shared:
  assumes "canonicalMessageAddress to self = Inr c"
  shows "canonicalMessageAddress (ca_address c) self = Inr c \<and>
    (case c of
       DirectAddress address remoteName \<Rightarrow> address = AGENT_ADDRESS_PREFIX @ remoteName \<and> remoteName \<noteq> self
     | GroupAddress address names \<Rightarrow>
         self \<in> set names \<and> 3 \<le> length names \<and> length names \<le> 32 \<and>
         isStrictlyAscending compareAscii names \<and>
         list_all (\<lambda>member. canonicalMessageAddress address member = Inr c) names)"
  using assms
proof (cases rule: canonical_cases)
  case (direct n)
  then show ?thesis by (simp add: canonical_direct_input)
next
  case (groups names)
  then show ?thesis by (simp add: canonical_group_itself list_all_iff maximumMembers_def)
qed

theorem canonical_address_shared_witness:
  "canonicalMessageAddress (ca_address (GroupAddress ''group:ann,bob,eve'' [''ann'', ''bob'', ''eve''])) ''ann'' =
    Inr (GroupAddress ''group:ann,bob,eve'' [''ann'', ''bob'', ''eve''])"
proof -
  have "canonicalMessageAddress ''group:eve,bob'' ''ann'' = Inr (GroupAddress ''group:ann,bob,eve'' [''ann'', ''bob'', ''eve''])"
    by code_simp
  from canonical_address_shared [OF this] show ?thesis by blast
qed

text \<open>Two inputs that name the same agents beside the sender.\<close>

lemma canonical_same_members:
  assumes "xs \<noteq> []" "list_all isAgentName xs" "distinct xs" "ys \<noteq> []" "list_all isAgentName ys" "distinct ys"
    and "isAgentName self" "set xs - {self} = set ys - {self}"
  shows "canonicalMessageAddress (groupInput xs) self = canonicalMessageAddress (groupInput ys) self"
proof -
  let ?others = "filter (\<lambda>n. n \<noteq> self)"
  have others: "set (?others xs) = set (?others ys)" "distinct (?others xs)" "distinct (?others ys)"
    using assms by auto
  then have len: "length (?others xs) = length (?others ys)" by (metis distinct_card)
  have sorted: "sortWith compareAscii (completedNames xs self) = sortWith compareAscii (completedNames ys self)"
    using assms by (intro names_sort_unique) auto
  have count: "length (completedNames xs self) = length (completedNames ys self)"
    using len assms by (simp add: length_completedNames)
  consider "?others xs = []" "?others ys = []" | a where "?others xs = [a]" "?others ys = [a]"
    | a b as c d cs where "?others xs = a # b # as" "?others ys = c # d # cs"
    using len others(1) by (cases "?others xs" rule: remdups_adj.cases; cases "?others ys" rule: remdups_adj.cases) auto
  then show ?thesis
    unfolding canonical_group_input [OF assms(1,2,3,7)] canonical_group_input [OF assms(4,5,6,7)]
    by cases (simp_all add: sorted count)
qed

text \<open>The two forms of one agent's address, and the groups.\<close>

lemma canonical_duplicate:
  assumes "xs \<noteq> []" "list_all isAgentName xs" "\<not> distinct xs"
  shows "canonicalMessageAddress (groupInput xs) self = Inl (invalidMembership ''the address names an agent more than once'')"
proof -
  have "length (jsSet xs) \<noteq> length xs" using assms(3) unfolding length_jsSet_eq_iff .
  then show ?thesis
    using assms(1,2) by (simp add: canonicalMessageAddress_def canonicalGroup_def splitOn_names decode_names_iff [THEN iffD2])
qed

lemma canonical_direct_self:
  "isAgentName self \<Longrightarrow>
   canonicalMessageAddress (AGENT_ADDRESS_PREFIX @ self) self = Inl (invalidMembership ''the address names only you'')"
  by (simp add: canonicalMessageAddress_def canonicalDirect_def decodeAgentName_def)

lemma others_facts:
  assumes "distinct xs"
  shows "card (set xs - {self}) = length (filter (\<lambda>n. n \<noteq> self) xs)" and "set xs - {self} = set (filter (\<lambda>n. n \<noteq> self) xs)"
proof -
  show s: "set xs - {self} = set (filter (\<lambda>n. n \<noteq> self) xs)" by auto
  show "card (set xs - {self}) = length (filter (\<lambda>n. n \<noteq> self) xs)"
    unfolding s by (rule distinct_card) (simp add: assms)
qed

lemma canonical_one_other:
  assumes "xs \<noteq> []" "list_all isAgentName xs" "distinct xs" "isAgentName self" "insert self (set xs) = {n, self}"
  shows "canonicalMessageAddress (groupInput xs) self = canonicalMessageAddress (AGENT_ADDRESS_PREFIX @ n) self"
proof (cases "n = self")
  case True
  then have "filter (\<lambda>n. n \<noteq> self) xs = []" using assms(5) by (auto simp: filter_empty_conv)
  then show ?thesis using True by (simp add: canonical_group_input [OF assms(1-4)] canonical_direct_self [OF assms(4)])
next
  case False
  have "insert self (set xs) - {self} = {n, self} - {self}" unfolding assms(5) ..
  then have n: "set xs - {self} = {n}" using False by (simp add: insert_Diff_if)
  then have "n \<in> set xs" by blast
  have "length (filter (\<lambda>n. n \<noteq> self) xs) = 1" unfolding others_facts(1) [OF assms(3), of self, symmetric] n by simp
  then obtain m where m: "filter (\<lambda>n. n \<noteq> self) xs = [m]" by (cases "filter (\<lambda>n. n \<noteq> self) xs") simp_all
  have "m = n" using others_facts(2) [OF assms(3), of self] unfolding n m by simp
  moreover have "isAgentName n" using \<open>n \<in> set xs\<close> assms(2) by (simp add: list_all_iff)
  ultimately show ?thesis unfolding canonical_group_input [OF assms(1-4)] m by (simp add: canonical_direct_input False)
qed

lemma canonical_group_members:
  assumes "xs \<noteq> []" "list_all isAgentName xs" "distinct xs" "isAgentName self" "2 \<le> card (set xs - {self})"
  shows "canonicalMessageAddress (groupInput xs) self =
    (if 31 < card (set xs - {self}) then Inl (invalidMembership (''a group has at most '' @ natText maximumMembers @ '' members''))
     else Inr (GroupAddress (groupInput (sortWith compareAscii (completedNames xs self))) (sortWith compareAscii (completedNames xs self))))"
proof -
  note c = others_facts(1) [OF assms(3), of self]
  have "2 \<le> length (filter (\<lambda>n. n \<noteq> self) xs)" using assms(5) unfolding c .
  then obtain a b rest where "filter (\<lambda>n. n \<noteq> self) xs = a # b # rest"
    by (cases "filter (\<lambda>n. n \<noteq> self) xs" rule: remdups_adj.cases) simp_all
  then show ?thesis
    unfolding canonical_group_input [OF assms(1-4)] c length_completedNames [OF assms(3)] by (simp add: maximumMembers_def)
qed

text \<open>
  C40: What a group destination of well-formed agent names resolves to. One that names an agent twice fails. One that names no agent
  twice and at most one agent beside the sender resolves, or fails, as that agent's direct address does. One that
  names more than thirty-one other agents fails. Any other resolves to the group of exactly the named agents and the
  sender, in increasing order. So the order in which distinct names are written, and whether the sender is among
  them, makes no difference.
\<close>

theorem address_of_member_set:
  assumes "xs \<noteq> []" "list_all isAgentName xs" "isAgentName self"
  shows "(\<not> distinct xs \<longrightarrow>
      canonicalMessageAddress (groupInput xs) self = Inl (invalidMembership ''the address names an agent more than once'')) \<and>
    (distinct xs \<longrightarrow>
      (\<forall>n. insert self (set xs) = {n, self} \<longrightarrow>
         canonicalMessageAddress (groupInput xs) self = canonicalMessageAddress (AGENT_ADDRESS_PREFIX @ n) self \<and>
         canonicalMessageAddress (groupInput xs) self =
           (if n = self then Inl (invalidMembership ''the address names only you'') else Inr (DirectAddress (AGENT_ADDRESS_PREFIX @ n) n))) \<and>
      (31 < card (set xs - {self}) \<longrightarrow>
         canonicalMessageAddress (groupInput xs) self = Inl (invalidMembership (''a group has at most '' @ natText 32 @ '' members''))) \<and>
      (card (set xs - {self}) \<in> {2..31} \<longrightarrow>
         (\<exists>names. set names = insert self (set xs) \<and> isStrictlyAscending compareAscii names \<and>
            canonicalMessageAddress (groupInput xs) self = Inr (GroupAddress (groupInput names) names))) \<and>
      (\<forall>ys. ys \<noteq> [] \<and> list_all isAgentName ys \<and> distinct ys \<and> set xs - {self} = set ys - {self} \<longrightarrow>
         canonicalMessageAddress (groupInput xs) self = canonicalMessageAddress (groupInput ys) self))"
proof (intro conjI impI allI)
  show "canonicalMessageAddress (groupInput xs) self = Inl (invalidMembership ''the address names an agent more than once'')"
    if "\<not> distinct xs" using canonical_duplicate [OF assms(1,2) that] .
next
  fix n assume d: "distinct xs" and n: "insert self (set xs) = {n, self}"
  show one: "canonicalMessageAddress (groupInput xs) self = canonicalMessageAddress (AGENT_ADDRESS_PREFIX @ n) self"
    by (rule canonical_one_other [OF assms(1,2) d assms(3) n])
  have "n \<in> insert self (set xs)" unfolding n by simp
  then have "isAgentName n" using assms(2,3) by (auto simp: list_all_iff)
  then show "canonicalMessageAddress (groupInput xs) self =
      (if n = self then Inl (invalidMembership ''the address names only you'') else Inr (DirectAddress (AGENT_ADDRESS_PREFIX @ n) n))"
    unfolding one using assms(3) by (simp add: canonical_direct_self canonical_direct_input)
next
  assume d: "distinct xs" and many: "31 < card (set xs - {self})"
  then show "canonicalMessageAddress (groupInput xs) self = Inl (invalidMembership (''a group has at most '' @ natText 32 @ '' members''))"
    using canonical_group_members [OF assms(1,2) d assms(3)] by (simp add: maximumMembers_def)
next
  assume d: "distinct xs" and c: "card (set xs - {self}) \<in> {2..31}"
  let ?names = "sortWith compareAscii (completedNames xs self)"
  have "canonicalMessageAddress (groupInput xs) self = Inr (GroupAddress (groupInput ?names) ?names)"
    using canonical_group_members [OF assms(1,2) d assms(3)] c by simp
  moreover have "isStrictlyAscending compareAscii ?names" by (rule names_sorted) (simp add: d)
  ultimately show "\<exists>names. set names = insert self (set xs) \<and> isStrictlyAscending compareAscii names \<and>
      canonicalMessageAddress (groupInput xs) self = Inr (GroupAddress (groupInput names) names)"
    by (intro exI [of _ ?names]) simp
next
  fix ys assume "distinct xs" and "ys \<noteq> [] \<and> list_all isAgentName ys \<and> distinct ys \<and> set xs - {self} = set ys - {self}"
  then show "canonicalMessageAddress (groupInput xs) self = canonicalMessageAddress (groupInput ys) self"
    by (intro canonical_same_members assms) simp_all
qed

theorem address_of_member_set_witness:
  "(\<exists>names. set names = {''ann'', ''bob'', ''eve''} \<and> isStrictlyAscending compareAscii names \<and>
      canonicalMessageAddress (groupInput [''eve'', ''bob'', ''ann'']) ''ann'' = Inr (GroupAddress (groupInput names) names)) \<and>
   canonicalMessageAddress (groupInput [''eve'', ''bob'', ''ann'']) ''ann'' = canonicalMessageAddress (groupInput [''bob'', ''eve'']) ''ann'' \<and>
   canonicalMessageAddress (groupInput [''bob'', ''ann'']) ''ann'' = canonicalMessageAddress (AGENT_ADDRESS_PREFIX @ ''bob'') ''ann'' \<and>
   canonicalMessageAddress (groupInput [''bob'', ''bob'', ''eve'']) ''ann'' =
     Inl (invalidMembership ''the address names an agent more than once'')"
proof -
  have names: "list_all isAgentName [''eve'', ''bob'', ''ann'']" "isAgentName ''ann''" "list_all isAgentName [''bob'', ''ann'']"
    "list_all isAgentName [''bob'', ''bob'', ''eve'']" "list_all isAgentName [''bob'', ''eve'']" by code_simp+
  have others: "set [''eve'', ''bob'', ''ann''] - {''ann''} = {''eve'', ''bob''}" by auto
  then have size: "card (set [''eve'', ''bob'', ''ann''] - {''ann''}) \<in> {2..31}" unfolding others by simp
  have "set [''bob'', ''eve''] - {''ann''} = {''eve'', ''bob''}" by auto
  then have same: "set [''eve'', ''bob'', ''ann''] - {''ann''} = set [''bob'', ''eve''] - {''ann''}" unfolding others ..
  have one: "insert ''ann'' (set [''bob'', ''ann'']) = {''bob'', ''ann''}" by auto
  have d: "distinct [''eve'', ''bob'', ''ann'']" "distinct [''bob'', ''ann'']" "\<not> distinct [''bob'', ''bob'', ''eve'']"
    "distinct [''bob'', ''eve'']" by simp_all
  have all: "insert ''ann'' (set [''eve'', ''bob'', ''ann'']) = {''ann'', ''bob'', ''eve''}" by auto
  note group = address_of_member_set [OF list.distinct(2) names(1,2), THEN conjunct2, THEN mp, OF d(1)]
  show ?thesis
  proof (intro conjI)
    show "\<exists>names. set names = {''ann'', ''bob'', ''eve''} \<and> isStrictlyAscending compareAscii names \<and>
      canonicalMessageAddress (groupInput [''eve'', ''bob'', ''ann'']) ''ann'' = Inr (GroupAddress (groupInput names) names)"
      using group [THEN conjunct2, THEN conjunct2, THEN conjunct1, THEN mp, OF size] unfolding all .
    show "canonicalMessageAddress (groupInput [''eve'', ''bob'', ''ann'']) ''ann'' = canonicalMessageAddress (groupInput [''bob'', ''eve'']) ''ann''"
      by (rule group [THEN conjunct2, THEN conjunct2, THEN conjunct2, THEN spec, THEN mp]) (intro conjI names(5) d(4) same list.distinct(2))
    show "canonicalMessageAddress (groupInput [''bob'', ''ann'']) ''ann'' = canonicalMessageAddress (AGENT_ADDRESS_PREFIX @ ''bob'') ''ann''"
      by (rule address_of_member_set [OF list.distinct(2) names(3,2), THEN conjunct2, THEN mp, OF d(2), THEN conjunct1, THEN spec, THEN mp,
            OF one, THEN conjunct1])
    show "canonicalMessageAddress (groupInput [''bob'', ''bob'', ''eve'']) ''ann'' =
       Inl (invalidMembership ''the address names an agent more than once'')"
      by (rule address_of_member_set [OF list.distinct(2) names(4,2), THEN conjunct1, THEN mp, OF d(3)])
  qed
qed

end
