(* ===== verification/Text_Patterns.thy ===== *)
theory Text_Patterns
  imports Prelude
begin

text \<open>
  Regular expressions as the answer formats use them: a pattern tests a whole text, as a
  JavaScript expression between \<^verbatim>\<open>^\<close> and \<^verbatim>\<open>$\<close> does. A pattern has a language; the test takes
  the derivative of the pattern character by character, and agrees with the language.
\<close>

section \<open>Patterns and their languages\<close>

datatype pattern =
    Never
  | Nothing
  | OneOf "char \<Rightarrow> bool"
  | Then pattern pattern
  | Either pattern pattern
  | Repeat pattern

inductive_set repeated :: "string set \<Rightarrow> string set" for L where
  none: "[] \<in> repeated L"
| again: "u \<in> L \<Longrightarrow> w \<in> repeated L \<Longrightarrow> u @ w \<in> repeated L"

primrec language :: "pattern \<Rightarrow> string set" where
  "language Never = {}"
| "language Nothing = {[]}"
| "language (OneOf P) = {[c] |c. P c}"
| "language (Then p q) = {u @ w |u w. u \<in> language p \<and> w \<in> language q}"
| "language (Either p q) = language p \<union> language q"
| "language (Repeat p) = repeated (language p)"

section \<open>Testing a text\<close>

primrec acceptsEmpty :: "pattern \<Rightarrow> bool" where
  "acceptsEmpty Never = False"
| "acceptsEmpty Nothing = True"
| "acceptsEmpty (OneOf P) = False"
| "acceptsEmpty (Then p q) = (acceptsEmpty p \<and> acceptsEmpty q)"
| "acceptsEmpty (Either p q) = (acceptsEmpty p \<or> acceptsEmpty q)"
| "acceptsEmpty (Repeat p) = True"

text \<open>Sequences and choices that drop the pattern nothing matches, so derivatives stay small.\<close>

fun thenP :: "pattern \<Rightarrow> pattern \<Rightarrow> pattern" where
  "thenP Never q = Never"
| "thenP Nothing q = q"
| "thenP p q = Then p q"

fun eitherP :: "pattern \<Rightarrow> pattern \<Rightarrow> pattern" where
  "eitherP Never q = q"
| "eitherP p Never = p"
| "eitherP p q = Either p q"

primrec afterChar :: "char \<Rightarrow> pattern \<Rightarrow> pattern" where
  "afterChar c Never = Never"
| "afterChar c Nothing = Never"
| "afterChar c (OneOf P) = (if P c then Nothing else Never)"
| "afterChar c (Then p q) =
     (if acceptsEmpty p then eitherP (thenP (afterChar c p) q) (afterChar c q) else thenP (afterChar c p) q)"
| "afterChar c (Either p q) = eitherP (afterChar c p) (afterChar c q)"
| "afterChar c (Repeat p) = thenP (afterChar c p) (Repeat p)"

definition testPattern :: "pattern \<Rightarrow> string \<Rightarrow> bool" where
  "testPattern p s = acceptsEmpty (fold afterChar s p)"

lemma language_thenP [simp]: "language (thenP p q) = language (Then p q)"
  by (cases "(p, q)" rule: thenP.cases) auto

lemma language_eitherP [simp]: "language (eitherP p q) = language p \<union> language q"
  by (cases "(p, q)" rule: eitherP.cases) auto

lemma acceptsEmpty_iff: "acceptsEmpty p \<longleftrightarrow> [] \<in> language p"
  by (induction p) (auto intro: repeated.none)

lemma repeated_Cons:
  "c # s \<in> repeated L \<longleftrightarrow> (\<exists>u w. s = u @ w \<and> c # u \<in> L \<and> w \<in> repeated L)"
proof
  have "x \<in> repeated L \<Longrightarrow> x = c # s \<Longrightarrow> \<exists>u w. s = u @ w \<and> c # u \<in> L \<and> w \<in> repeated L" for x
    by (induction rule: repeated.induct) (fastforce simp: append_eq_Cons_conv)+
  then show "c # s \<in> repeated L \<Longrightarrow> \<exists>u w. s = u @ w \<and> c # u \<in> L \<and> w \<in> repeated L" by blast
next
  assume "\<exists>u w. s = u @ w \<and> c # u \<in> L \<and> w \<in> repeated L"
  then obtain u w where "s = u @ w" "c # u \<in> L" "w \<in> repeated L" by blast
  then show "c # s \<in> repeated L" using repeated.again [of "c # u" L w] by simp
qed

lemma language_afterChar: "s \<in> language (afterChar c p) \<longleftrightarrow> c # s \<in> language p"
proof (induction p arbitrary: s)
  case (Then p q)
  show ?case
    by (auto simp: Then.IH acceptsEmpty_iff Cons_eq_append_conv)
next
  case (Repeat p)
  then show ?case by (auto simp: repeated_Cons)
qed auto

text \<open>The test accepts exactly the texts of the pattern's language.\<close>

lemma testPattern_iff: "testPattern p s \<longleftrightarrow> s \<in> language p"
  unfolding testPattern_def
  by (induction s arbitrary: p) (simp_all add: acceptsEmpty_iff language_afterChar)

section \<open>Building patterns\<close>

text \<open>
  \<^verbatim>\<open>p?\<close>, \<^verbatim>\<open>p+\<close>, \<^verbatim>\<open>p{n}\<close>, \<^verbatim>\<open>p{m,n}\<close> with \<open>m \<le> n\<close>, a literal text, and a choice of several patterns.
  Letters of a literal match in both cases, since every expression here carries the flag \<^verbatim>\<open>i\<close>.
\<close>

definition optionalP :: "pattern \<Rightarrow> pattern" where
  "optionalP p = Either p Nothing"

definition someP :: "pattern \<Rightarrow> pattern" where
  "someP p = Then p (Repeat p)"

primrec timesP :: "nat \<Rightarrow> pattern \<Rightarrow> pattern" where
  "timesP 0 p = Nothing"
| "timesP (Suc n) p = thenP p (timesP n p)"

primrec atMostP :: "nat \<Rightarrow> pattern \<Rightarrow> pattern" where
  "atMostP 0 p = Nothing"
| "atMostP (Suc n) p = Either (thenP p (atMostP n p)) Nothing"

definition betweenP :: "nat \<Rightarrow> nat \<Rightarrow> pattern \<Rightarrow> pattern" where
  "betweenP m n p = thenP (timesP m p) (atMostP (n - m) p)"

definition seqP :: "pattern list \<Rightarrow> pattern" where
  "seqP ps = foldr thenP ps Nothing"

definition anyP :: "pattern list \<Rightarrow> pattern" where
  "anyP ps = foldr eitherP ps Never"

definition charIn :: "string \<Rightarrow> char \<Rightarrow> bool" where
  "charIn s c \<longleftrightarrow> c \<in> set s"

definition literalP :: "string \<Rightarrow> pattern" where
  "literalP s = seqP (map (\<lambda>a. OneOf (\<lambda>c. c = a)) s)"

definition isDigitChar :: "char \<Rightarrow> bool" where
  "isDigitChar c \<longleftrightarrow> (48::nat) \<le> of_char c \<and> of_char c \<le> (57::nat)"

definition isLetterChar :: "char \<Rightarrow> bool" where
  "isLetterChar c \<longleftrightarrow>
     (65::nat) \<le> of_char c \<and> of_char c \<le> (90::nat) \<or> (97::nat) \<le> of_char c \<and> of_char c \<le> (122::nat)"

definition isHexChar :: "char \<Rightarrow> bool" where
  "isHexChar c \<longleftrightarrow>
     isDigitChar c \<or> (65::nat) \<le> of_char c \<and> of_char c \<le> (70::nat) \<or> (97::nat) \<le> of_char c \<and> of_char c \<le> (102::nat)"

end
