(* ===== verification/Answer_Formats.thy ===== *)
theory Answer_Formats
  imports Agent_Card Text_Patterns Complex_Main
begin

text \<open>
  The string formats a form may require of an answer,
  \<^verbatim>\<open>packages/client/src/communication/collectives/answer-formats.ts\<close>. The expressions for mail
  addresses and URIs are written with the patterns of \<open>Text_Patterns\<close>, part by part as the
  source assembles them; dates and times are read by position, as their capture groups are. A
  text is its UTF-8 bytes, and every class of these expressions but white space is ASCII.
\<close>

section \<open>Mail addresses\<close>

datatype answer_format = EmailFormat | UriFormat | DateFormat | DateTimeFormat

definition isAlnumChar :: "char \<Rightarrow> bool" where
  "isAlnumChar c \<longleftrightarrow> isLetterChar c \<or> isDigitChar c"

definition atomChar :: "char \<Rightarrow> bool" where
  "atomChar c \<longleftrightarrow> isAlnumChar c \<or> charIn [CHR ''!'', CHR ''#'', CHR ''$'', CHR ''%'', CHR ''&'', CHR 0x27, CHR ''*'', CHR ''+'',
      CHR ''/'', CHR ''='', CHR ''?'', CHR ''^'', CHR ''_'', CHR 0x60, CHR ''{'', CHR ''|'', CHR ''}'', CHR ''~'', CHR ''-''] c"

definition atomP :: pattern where
  "atomP = someP (OneOf atomChar)"

definition hostLabelP :: pattern where
  "hostLabelP = Then (OneOf isAlnumChar)
     (optionalP (Then (Repeat (OneOf (\<lambda>c. isAlnumChar c \<or> c = CHR ''-''))) (OneOf isAlnumChar)))"

definition EMAIL :: pattern where
  "EMAIL = seqP [atomP, Repeat (Then (literalP ''.'') atomP), literalP ''@'',
     someP (Then hostLabelP (literalP ''.'')), hostLabelP]"

section \<open>URIs\<close>

definition hexP :: pattern where
  "hexP = OneOf isHexChar"

definition pctEncodedP :: pattern where
  "pctEncodedP = Then (literalP ''%'') (timesP 2 hexP)"

definition unreservedChar :: "char \<Rightarrow> bool" where
  "unreservedChar c \<longleftrightarrow> isAlnumChar c \<or> charIn ''-._~'' c"

definition subDelimChar :: "char \<Rightarrow> bool" where
  "subDelimChar c \<longleftrightarrow> charIn [CHR ''!'', CHR ''$'', CHR ''&'', CHR 0x27, CHR ''('', CHR '')'', CHR ''*'', CHR ''+'', CHR '','', CHR '';'', CHR ''=''] c"

definition digitP :: pattern where
  "digitP = OneOf isDigitChar"

definition decOctetP :: pattern where
  "decOctetP = anyP [
     Then (literalP ''25'') (OneOf (charIn ''012345'')),
     seqP [literalP ''2'', OneOf (charIn ''01234''), digitP],
     seqP [optionalP (OneOf (charIn ''01'')), digitP, optionalP digitP]]"

definition ipv4P :: pattern where
  "ipv4P = Then (timesP 3 (Then decOctetP (literalP ''.''))) decOctetP"

definition h16P :: pattern where
  "h16P = betweenP 1 4 hexP"

definition ls32P :: pattern where
  "ls32P = Either (seqP [h16P, literalP '':'', h16P]) ipv4P"

definition h16ColonP :: pattern where
  "h16ColonP = Then h16P (literalP '':'')"

definition beforeGapP :: "nat \<Rightarrow> pattern" where
  "beforeGapP n = optionalP (Then (betweenP 0 n h16ColonP) h16P)"

definition ipv6P :: pattern where
  "ipv6P = anyP [
     seqP [timesP 6 h16ColonP, ls32P],
     seqP [literalP ''::'', timesP 5 h16ColonP, ls32P],
     seqP [optionalP h16P, literalP ''::'', timesP 4 h16ColonP, ls32P],
     seqP [beforeGapP 1, literalP ''::'', timesP 3 h16ColonP, ls32P],
     seqP [beforeGapP 2, literalP ''::'', timesP 2 h16ColonP, ls32P],
     seqP [beforeGapP 3, literalP ''::'', h16P, literalP '':'', ls32P],
     seqP [beforeGapP 4, literalP ''::'', ls32P],
     seqP [beforeGapP 5, literalP ''::'', h16P],
     seqP [beforeGapP 6, literalP ''::'']]"

definition ipFutureP :: pattern where
  "ipFutureP = seqP [OneOf (charIn ''vV''), someP hexP, literalP ''.'',
     someP (OneOf (\<lambda>c. unreservedChar c \<or> subDelimChar c \<or> c = CHR '':''))]"

definition hostP :: pattern where
  "hostP = anyP [
     seqP [literalP ''['', Either ipv6P ipFutureP, literalP '']''],
     ipv4P,
     Repeat (Either (OneOf (\<lambda>c. unreservedChar c \<or> subDelimChar c)) pctEncodedP)]"

definition userinfoP :: pattern where
  "userinfoP = Repeat (Either (OneOf (\<lambda>c. unreservedChar c \<or> subDelimChar c \<or> c = CHR '':'')) pctEncodedP)"

definition pcharP :: pattern where
  "pcharP = Either (OneOf (\<lambda>c. unreservedChar c \<or> subDelimChar c \<or> charIn '':@'' c)) pctEncodedP"

definition segmentsP :: pattern where
  "segmentsP = Repeat (Then (literalP ''/'') (Repeat pcharP))"

definition hierPartP :: pattern where
  "hierPartP = anyP [
     seqP [optionalP (literalP ''/''), literalP ''/'', optionalP (Then userinfoP (literalP ''@'')), hostP,
       optionalP (Then (literalP '':'') (Repeat digitP)), segmentsP],
     Then (literalP ''/'') (optionalP (Then (someP pcharP) segmentsP)),
     Then (someP pcharP) segmentsP]"

definition queryOrFragmentP :: pattern where
  "queryOrFragmentP = Repeat (Either (OneOf (\<lambda>c. unreservedChar c \<or> subDelimChar c \<or> charIn '':@/?'' c)) pctEncodedP)"

definition URI :: pattern where
  "URI = seqP [OneOf isLetterChar, Repeat (OneOf (\<lambda>c. isAlnumChar c \<or> charIn ''+-.'' c)), literalP '':'', hierPartP,
     optionalP (Then (literalP ''?'') queryOrFragmentP), optionalP (Then (literalP ''#'') queryOrFragmentP)]"

section \<open>Dates and times\<close>

definition isCalendarLeapYear :: "nat \<Rightarrow> bool" where
  "isCalendarLeapYear year \<longleftrightarrow> year mod 4 = 0 \<and> (year mod 100 \<noteq> 0 \<or> year mod 400 = 0)"

definition DAYS_IN_MONTH :: "nat list" where
  "DAYS_IN_MONTH = [0, 31, 28, 31, 30, 31, 30, 31, 31, 30, 31, 30, 31]"

definition daysIn :: "nat \<Rightarrow> nat \<Rightarrow> nat" where
  "daysIn year month =
     (if month = 2 \<and> isCalendarLeapYear year then 29
      else if month < length DAYS_IN_MONTH then DAYS_IN_MONTH ! month else 0)"

definition isCalendarDay :: "nat \<Rightarrow> nat \<Rightarrow> nat \<Rightarrow> bool" where
  "isCalendarDay year month day \<longleftrightarrow> 1 \<le> month \<and> month \<le> 12 \<and> 1 \<le> day \<and> day \<le> daysIn year month"

definition isDate :: "string \<Rightarrow> bool" where
  "isDate s \<longleftrightarrow>
     length s = 10 \<and>
     (let year = take 4 s; month = take 2 (drop 5 s); day = drop 8 s
      in s ! 4 = CHR ''-'' \<and> s ! 7 = CHR ''-'' \<and> list_all digits [year, month, day] \<and>
         isCalendarDay (decimal year) (decimal month) (decimal day))"

text \<open>
  A clock reading. Seconds may carry a fraction of any length; \<^verbatim>\<open>Number\<close> rounds them to the nearest
  double, and between 32 and 64 doubles lie \<open>2\<^sup>-\<^sup>4\<^sup>7\<close> apart, so the rounded reading lies
  below a whole second of that range exactly when the written one lies more than half a step below it.
\<close>

record clock_time =
  ct_hour :: nat
  ct_minute :: nat
  ct_second :: rat
  ct_offsetSign :: int
  ct_offsetHour :: nat
  ct_offsetMinute :: nat

definition secondBelow :: "rat \<Rightarrow> rat \<Rightarrow> bool" where
  "secondBelow second bound \<longleftrightarrow> second < bound - 1 / 2 ^ 48"

definition isOrdinaryTime :: "clock_time \<Rightarrow> bool" where
  "isOrdinaryTime time \<longleftrightarrow> ct_hour time \<le> 23 \<and> ct_minute time \<le> 59 \<and> secondBelow (ct_second time) 60"

definition isLeapSecond :: "clock_time \<Rightarrow> bool" where
  "isLeapSecond time \<longleftrightarrow>
     (let utcMinute = int (ct_minute time) - int (ct_offsetMinute time) * ct_offsetSign time;
          utcHour = int (ct_hour time) - int (ct_offsetHour time) * ct_offsetSign time - (if utcMinute < 0 then 1 else 0);
          lastHour = (utcHour = 23 \<or> utcHour = - 1);
          lastMinute = (utcMinute = 59 \<or> utcMinute = - 1)
      in lastHour \<and> lastMinute \<and> secondBelow (ct_second time) 61)"

text \<open>
  \<^verbatim>\<open>TIME.exec\<close>: two digits thrice, an optional fraction of the seconds, and the zone, either
  \<^verbatim>\<open>z\<close> or a sign with hours and, after an optional colon, minutes.
\<close>

definition fractionOf :: "string \<Rightarrow> (string \<times> string) option" where
  "fractionOf s =
     (case s of
        c # rest \<Rightarrow>
          if c = CHR ''.''
          then let ds = takeWhile isDigitChar rest
               in if ds = [] then None else Some (ds, dropWhile isDigitChar rest)
          else Some ([], s)
      | [] \<Rightarrow> Some ([], s))"

definition zoneOf :: "string \<Rightarrow> (int \<times> nat \<times> nat) option" where
  "zoneOf s =
     (case s of
        [] \<Rightarrow> None
      | c # rest \<Rightarrow>
          if charIn ''zZ'' c then (if rest = [] then Some (1, 0, 0) else None)
          else if charIn ''+-'' c
          then let hours = take 2 rest; after = drop 2 rest;
                   minutes = (case after of d # ds \<Rightarrow> if d = CHR '':'' then ds else after | [] \<Rightarrow> after)
               in if length hours = 2 \<and> digits hours \<and> (after = [] \<or> length minutes = 2 \<and> digits minutes)
                  then Some (if c = CHR ''-'' then - 1 else 1, decimal hours, decimal minutes) else None
          else None)"

definition clockTimeOf :: "string \<Rightarrow> clock_time option" where
  "clockTimeOf s =
     (if length (take 8 s) = 8 \<and> s ! 2 = CHR '':'' \<and> s ! 5 = CHR '':'' \<and>
         list_all digits [take 2 s, take 2 (drop 3 s), take 2 (drop 6 s)]
      then Option.bind (fractionOf (drop 8 s)) (\<lambda>(fraction, zone).
           map_option (\<lambda>(sign, hours, minutes).
             \<lparr>ct_hour = decimal (take 2 s), ct_minute = decimal (take 2 (drop 3 s)),
              ct_second = of_nat (decimal (take 2 (drop 6 s))) + of_nat (decimal fraction) / 10 ^ length fraction,
              ct_offsetSign = sign, ct_offsetHour = hours, ct_offsetMinute = minutes\<rparr>)
             (zoneOf zone))
      else None)"

definition isTime :: "string \<Rightarrow> bool" where
  "isTime s =
     (case clockTimeOf s of
        None \<Rightarrow> False
      | Some time \<Rightarrow>
          ct_offsetHour time \<le> 23 \<and> ct_offsetMinute time \<le> 59 \<and> (isOrdinaryTime time \<or> isLeapSecond time))"

text \<open>
  The separators \<^verbatim>\<open>/t|\s/i\<close> as UTF-8: the letter, the ASCII white space, and the white space of
  two and three bytes.
\<close>

definition separatorLength :: "string \<Rightarrow> nat" where
  "separatorLength s =
     (let codes = map of_char (take 3 s) :: nat list
      in if take 1 codes \<in> set [[116], [84], [9], [10], [11], [12], [13], [32]] then 1
         else if take 2 codes = [194, 160] then 2
         else if take 3 codes \<in> set ([[225, 154, 128], [226, 128, 168], [226, 128, 169], [226, 128, 175], [226, 129, 159],
                [227, 128, 128], [239, 187, 191]] @ map (\<lambda>b. [226, 128, b]) [128..<139]) then 3
         else 0)"

function (sequential) splitAtSeparators :: "string \<Rightarrow> string list" where
  "splitAtSeparators [] = [[]]"
| "splitAtSeparators (c # s) =
     (if 0 < separatorLength (c # s) then [] # splitAtSeparators (drop (separatorLength (c # s)) (c # s))
      else case splitAtSeparators s of [] \<Rightarrow> [[c]] | p # ps \<Rightarrow> (c # p) # ps)"
  by pat_completeness auto

termination
  by (relation "measure length") auto

definition isDateTime :: "string \<Rightarrow> bool" where
  "isDateTime s =
     (case splitAtSeparators s of
        [date, time] \<Rightarrow> isDate date \<and> isTime time
      | _ \<Rightarrow> False)"

definition matchesFormat :: "answer_format \<Rightarrow> string \<Rightarrow> bool" where
  "matchesFormat format s =
     (case format of
        EmailFormat \<Rightarrow> testPattern EMAIL s
      | UriFormat \<Rightarrow> testPattern URI s
      | DateFormat \<Rightarrow> isDate s
      | DateTimeFormat \<Rightarrow> isDateTime s)"

lemma daysIn_positive:
  assumes "1 \<le> month" "month \<le> 12"
  shows "28 \<le> daysIn year month \<and> daysIn year month \<le> 31"
proof -
  have "month \<in> {1, 2, 3, 4, 5, 6, 7, 8, 9, 10, 11, 12}" using assms by (simp, presburger)
  then show ?thesis by (auto simp: daysIn_def DAYS_IN_MONTH_def)
qed

text \<open>The two calendars of the code, of agent cards and of answers, agree on every month.\<close>

lemma daysIn_is_daysInMonth:
  assumes "1 \<le> month" "month \<le> 12"
  shows "daysIn year month = daysInMonth year month"
proof -
  have "month \<in> {1, 2, 3, 4, 5, 6, 7, 8, 9, 10, 11, 12}" using assms by (simp, presburger)
  then show ?thesis
    by (auto simp: daysIn_def DAYS_IN_MONTH_def daysInMonth_def isCalendarLeapYear_def isLeapYear_def)
qed

end
