(* ===== verification/Collective_Forms.thy ===== *)
theory Collective_Forms
  imports Answer_Formats
begin

text \<open>
  The forms of a collective question: the grammar of one form field of
  \<^verbatim>\<open>packages/client/src/communication/collectives/part/grammar.ts\<close>, the form-mode schema of
  \<^verbatim>\<open>part/index.ts\<close>, and the check of an answer against it of \<^verbatim>\<open>validation.ts\<close>, with the failures of
  \<^verbatim>\<open>forms.ts\<close>. A finite JSON number is the rational it stands for, so comparisons are the
  doubles' own; objects list their members in the order of \<^verbatim>\<open>Object.keys\<close>. Two texts of the language and
  its libraries are parameters: how a number prints, and how the schema library words its issues.
\<close>

section \<open>JSON with numbers of any size\<close>

datatype form_json =
    FNull
  | FBool bool
  | FNum rat
  | FStr string
  | FArr "form_json list"
  | FObj "(string \<times> form_json) list"

definition asFStr :: "form_json \<Rightarrow> string option" where
  "asFStr v = (case v of FStr s \<Rightarrow> Some s | _ \<Rightarrow> None)"

definition asFNum :: "form_json \<Rightarrow> rat option" where
  "asFNum v = (case v of FNum n \<Rightarrow> Some n | _ \<Rightarrow> None)"

definition asFBool :: "form_json \<Rightarrow> bool option" where
  "asFBool v = (case v of FBool b \<Rightarrow> Some b | _ \<Rightarrow> None)"

definition asFArr :: "(form_json \<Rightarrow> 'a option) \<Rightarrow> form_json \<Rightarrow> 'a list option" where
  "asFArr element v = (case v of FArr vs \<Rightarrow> those (map element vs) | _ \<Rightarrow> None)"

definition asFObj :: "form_json \<Rightarrow> (string \<times> form_json) list option" where
  "asFObj v = (case v of FObj ms \<Rightarrow> Some ms | _ \<Rightarrow> None)"

text \<open>A literal schema admits one of its texts.\<close>

definition asFLiteral :: "(string \<times> 'a) list \<Rightarrow> form_json \<Rightarrow> 'a option" where
  "asFLiteral texts v = Option.bind (asFStr v) (map_of texts)"

text \<open>A required and an optional keyword of an object.\<close>

definition requiredKey :: "(form_json \<Rightarrow> 'a option) \<Rightarrow> string \<Rightarrow> (string \<times> form_json) list \<Rightarrow> 'a option" where
  "requiredKey element k ms = Option.bind (map_of ms k) element"

definition optionalKey :: "(form_json \<Rightarrow> 'a option) \<Rightarrow> string \<Rightarrow> (string \<times> form_json) list \<Rightarrow> 'a option option" where
  "optionalKey element k ms =
     (case map_of ms k of None \<Rightarrow> Some None | Some v \<Rightarrow> map_option Some (element v))"

section \<open>Form fields\<close>

record field_labels =
  fl_title :: "string option"
  fl_description :: "string option"

record titled_option =
  to_const :: string
  to_title :: string

datatype multi_items = EnumItems "string list" | AnyOfItems "titled_option list"

datatype form_field =
    SelectField field_labels "string list" "string option"
  | TitledSelectField field_labels "titled_option list" "string option"
  | MultiSelectField field_labels "rat option" "rat option" "string list option" multi_items
  | BooleanField field_labels "bool option"
  | StringField field_labels "rat option" "rat option" "answer_format option" "string option"
  | NumberField field_labels bool "rat option" "rat option" "rat option"

text \<open>The shapes, each decoded with the keywords it does not declare ignored.\<close>

definition decodeLabels :: "(string \<times> form_json) list \<Rightarrow> field_labels option" where
  "decodeLabels ms =
     Option.bind (optionalKey asFStr ''title'' ms) (\<lambda>title.
     Option.bind (optionalKey asFStr ''description'' ms) (\<lambda>description.
     Some \<lparr>fl_title = title, fl_description = description\<rparr>))"

definition decodeTitledOption :: "form_json \<Rightarrow> titled_option option" where
  "decodeTitledOption v =
     Option.bind (asFObj v) (\<lambda>ms.
     Option.bind (requiredKey asFStr ''const'' ms) (\<lambda>c.
     Option.bind (requiredKey asFStr ''title'' ms) (\<lambda>t.
     Some \<lparr>to_const = c, to_title = t\<rparr>)))"

definition typeKey :: "(string \<times> 'a) list \<Rightarrow> (string \<times> form_json) list \<Rightarrow> 'a option" where
  "typeKey texts = requiredKey (asFLiteral texts) ''type''"

definition decodeUntitledSelect :: "form_json \<Rightarrow> form_field option" where
  "decodeUntitledSelect v =
     Option.bind (asFObj v) (\<lambda>ms.
     Option.bind (typeKey [(''string'', ())] ms) (\<lambda>_.
     Option.bind (decodeLabels ms) (\<lambda>labels.
     Option.bind (requiredKey (asFArr asFStr) ''enum'' ms) (\<lambda>options.
     Option.bind (optionalKey asFStr ''default'' ms) (\<lambda>def.
     Some (SelectField labels options def))))))"

definition decodeTitledSelect :: "form_json \<Rightarrow> form_field option" where
  "decodeTitledSelect v =
     Option.bind (asFObj v) (\<lambda>ms.
     Option.bind (typeKey [(''string'', ())] ms) (\<lambda>_.
     Option.bind (decodeLabels ms) (\<lambda>labels.
     Option.bind (requiredKey (asFArr decodeTitledOption) ''oneOf'' ms) (\<lambda>options.
     Option.bind (optionalKey asFStr ''default'' ms) (\<lambda>def.
     Some (TitledSelectField labels options def))))))"

definition decodeEnumItems :: "form_json \<Rightarrow> multi_items option" where
  "decodeEnumItems v =
     Option.bind (asFObj v) (\<lambda>ms.
     Option.bind (typeKey [(''string'', ())] ms) (\<lambda>_.
     map_option EnumItems (requiredKey (asFArr asFStr) ''enum'' ms)))"

definition decodeAnyOfItems :: "form_json \<Rightarrow> multi_items option" where
  "decodeAnyOfItems v =
     Option.bind (asFObj v) (\<lambda>ms. map_option AnyOfItems (requiredKey (asFArr decodeTitledOption) ''anyOf'' ms))"

definition decodeMultiSelect :: "(form_json \<Rightarrow> multi_items option) \<Rightarrow> form_json \<Rightarrow> form_field option" where
  "decodeMultiSelect items v =
     Option.bind (asFObj v) (\<lambda>ms.
     Option.bind (typeKey [(''array'', ())] ms) (\<lambda>_.
     Option.bind (decodeLabels ms) (\<lambda>labels.
     Option.bind (optionalKey asFNum ''minItems'' ms) (\<lambda>minItems.
     Option.bind (optionalKey asFNum ''maxItems'' ms) (\<lambda>maxItems.
     Option.bind (optionalKey (asFArr asFStr) ''default'' ms) (\<lambda>def.
     map_option (MultiSelectField labels minItems maxItems def) (requiredKey items ''items'' ms)))))))"

definition decodeBoolean :: "form_json \<Rightarrow> form_field option" where
  "decodeBoolean v =
     Option.bind (asFObj v) (\<lambda>ms.
     Option.bind (typeKey [(''boolean'', ())] ms) (\<lambda>_.
     Option.bind (decodeLabels ms) (\<lambda>labels.
     map_option (BooleanField labels) (optionalKey asFBool ''default'' ms))))"

definition formatTexts :: "(string \<times> answer_format) list" where
  "formatTexts =
     [(''email'', EmailFormat), (''uri'', UriFormat), (''date'', DateFormat), (''date-time'', DateTimeFormat)]"

definition decodeString :: "form_json \<Rightarrow> form_field option" where
  "decodeString v =
     Option.bind (asFObj v) (\<lambda>ms.
     Option.bind (typeKey [(''string'', ())] ms) (\<lambda>_.
     Option.bind (decodeLabels ms) (\<lambda>labels.
     Option.bind (optionalKey asFNum ''minLength'' ms) (\<lambda>minLength.
     Option.bind (optionalKey asFNum ''maxLength'' ms) (\<lambda>maxLength.
     Option.bind (optionalKey (asFLiteral formatTexts) ''format'' ms) (\<lambda>format.
     map_option (StringField labels minLength maxLength format) (optionalKey asFStr ''default'' ms)))))))"

definition decodeNumber :: "form_json \<Rightarrow> form_field option" where
  "decodeNumber v =
     Option.bind (asFObj v) (\<lambda>ms.
     Option.bind (typeKey [(''number'', False), (''integer'', True)] ms) (\<lambda>isInteger.
     Option.bind (decodeLabels ms) (\<lambda>labels.
     Option.bind (optionalKey asFNum ''minimum'' ms) (\<lambda>minimum.
     Option.bind (optionalKey asFNum ''maximum'' ms) (\<lambda>maximum.
     map_option (NumberField labels isInteger minimum maximum) (optionalKey asFNum ''default'' ms))))))"

text \<open>The shapes in the specification's union order; the first that admits a property wins.\<close>

definition fieldShapes :: "(form_json \<Rightarrow> form_field option) list" where
  "fieldShapes =
     [decodeUntitledSelect, decodeTitledSelect, decodeMultiSelect decodeEnumItems,
      decodeMultiSelect decodeAnyOfItems, decodeBoolean, decodeString, decodeNumber]"

fun firstShape :: "(form_json \<Rightarrow> form_field option) list \<Rightarrow> form_json \<Rightarrow> form_field option" where
  "firstShape [] v = None"
| "firstShape (decode # shapes) v = (case decode v of Some field \<Rightarrow> Some field | None \<Rightarrow> firstShape shapes v)"

text \<open>
  Which shape a rejected property meant: what to write, the decoder, and the properties it is
  the intended shape of, each shape before any it refines.
\<close>

definition hasProperty :: "string \<Rightarrow> form_json \<Rightarrow> bool" where
  "hasProperty k v = (case v of FObj ms \<Rightarrow> map_of ms k \<noteq> None | _ \<Rightarrow> False)"

definition declares :: "string list \<Rightarrow> form_json \<Rightarrow> bool" where
  "declares types v =
     (case v of FObj ms \<Rightarrow> list_ex (\<lambda>t. map_of ms ''type'' = Some (FStr t)) types | _ \<Rightarrow> False)"

definition property :: "string \<Rightarrow> form_json \<Rightarrow> form_json" where
  "property k v = (case v of FObj ms \<Rightarrow> (case map_of ms k of Some w \<Rightarrow> w | None \<Rightarrow> FNull) | _ \<Rightarrow> FNull)"

record form_shape =
  fs_expected :: string
  fs_decode :: "form_json \<Rightarrow> form_field option"
  fs_intends :: "form_json \<Rightarrow> bool"

definition intendedShapes :: "form_shape list" where
  "intendedShapes = [
     \<lparr>fs_expected = ''a titled single-select is {\"type\":\"string\",\"oneOf\":[{\"const\":\"a\",\"title\":\"A\"}]}'',
      fs_decode = decodeTitledSelect,
      fs_intends = (\<lambda>v. declares [''string''] v \<and> hasProperty ''oneOf'' v)\<rparr>,
     \<lparr>fs_expected = ''a single-select is {\"type\":\"string\",\"enum\":[\"a\",\"b\"]}'',
      fs_decode = decodeUntitledSelect,
      fs_intends = (\<lambda>v. declares [''string''] v \<and> hasProperty ''enum'' v)\<rparr>,
     \<lparr>fs_expected = ''a string is {\"type\":\"string\"} with optional minLength, maxLength or format'',
      fs_decode = decodeString,
      fs_intends = declares [''string'']\<rparr>,
     \<lparr>fs_expected = ''a number is {\"type\":\"number\"} or {\"type\":\"integer\"} with optional minimum and maximum'',
      fs_decode = decodeNumber,
      fs_intends = declares [''number'', ''integer'']\<rparr>,
     \<lparr>fs_expected = ''a boolean is {\"type\":\"boolean\"}'',
      fs_decode = decodeBoolean,
      fs_intends = declares [''boolean'']\<rparr>,
     \<lparr>fs_expected = ''a titled multi-select is {\"type\":\"array\",\"items\":{\"anyOf\":[{\"const\":\"a\",\"title\":\"A\"}]}}'',
      fs_decode = decodeMultiSelect decodeAnyOfItems,
      fs_intends = (\<lambda>v. declares [''array''] v \<and> hasProperty ''items'' v \<and> hasProperty ''anyOf'' (property ''items'' v))\<rparr>,
     \<lparr>fs_expected = ''a multi-select is {\"type\":\"array\",\"items\":{\"type\":\"string\",\"enum\":[\"a\",\"b\"]}}'',
      fs_decode = decodeMultiSelect decodeEnumItems,
      fs_intends = declares [''array'']\<rparr>]"

text \<open>The texts of the language and its libraries that the layer prints.\<close>

record form_texts =
  ft_number :: "rat \<Rightarrow> string"
  ft_issues :: "form_shape \<Rightarrow> form_json \<Rightarrow> string"

definition formFieldViolation :: "form_texts \<Rightarrow> form_json \<Rightarrow> string" where
  "formFieldViolation texts v =
     (case List.find (\<lambda>shape. fs_intends shape v) intendedShapes of
        None \<Rightarrow> ''\"type\" must be \"string\", \"number\", \"integer\", \"boolean\" or \"array\"''
      | Some shape \<Rightarrow>
          (case fs_decode shape v of
             None \<Rightarrow> ft_issues texts shape v @ ''; '' @ fs_expected shape
           | Some _ \<Rightarrow> fs_expected shape))"

definition offersOptions :: "form_field \<Rightarrow> string + form_field" where
  "offersOptions field =
     (case field of
        SelectField _ options _ \<Rightarrow>
          if length options = 0 then Inl ''enum: Invalid input: expected at least one option'' else Inr field
      | MultiSelectField _ _ _ _ (EnumItems options) \<Rightarrow>
          if length options = 0 then Inl ''items.enum: Invalid input: expected at least one option'' else Inr field
      | _ \<Rightarrow> Inr field)"

definition admitFormField :: "form_texts \<Rightarrow> form_json \<Rightarrow> string + form_field" where
  "admitFormField texts v =
     (case firstShape fieldShapes v of
        None \<Rightarrow> Inl (formFieldViolation texts v)
      | Some field \<Rightarrow> offersOptions field)"

section \<open>Form-mode schemas\<close>

record form_schema =
  sch_dialect :: "string option"
  sch_properties :: "(string \<times> form_field) list"
  sch_required :: "string list option"

definition requiredDeclared :: "form_schema \<Rightarrow> bool" where
  "requiredDeclared schema \<longleftrightarrow>
     filter (\<lambda>name. name \<notin> fst ` set (sch_properties schema))
       (case sch_required schema of Some names \<Rightarrow> names | None \<Rightarrow> []) = []"

text \<open>
  Decoding a stated schema: a closed object of a fixed type whose properties are admitted fields
  and whose required names are properties. A refused property is returned with its text.
\<close>

definition closedKeys :: "string list \<Rightarrow> (string \<times> form_json) list \<Rightarrow> bool" where
  "closedKeys names ms \<longleftrightarrow> list_all (\<lambda>kv. fst kv \<in> set names) ms"

definition decodeFormModeSchema :: "form_texts \<Rightarrow> form_json \<Rightarrow> form_schema option" where
  "decodeFormModeSchema texts v =
     Option.bind (asFObj v) (\<lambda>ms.
     if \<not> closedKeys [''$schema'', ''type'', ''properties'', ''required''] ms then None
     else Option.bind (optionalKey asFStr ''$schema'' ms) (\<lambda>dialect.
     Option.bind (requiredKey (asFLiteral [(''object'', ())]) ''type'' ms) (\<lambda>_.
     Option.bind (requiredKey asFObj ''properties'' ms) (\<lambda>properties.
     Option.bind (those (map (\<lambda>(k, p). case admitFormField texts p of Inl _ \<Rightarrow> None | Inr f \<Rightarrow> Some (k, f)) properties)) (\<lambda>fields.
     Option.bind (optionalKey (asFArr asFStr) ''required'' ms) (\<lambda>required.
     let schema = \<lparr>sch_dialect = dialect, sch_properties = fields, sch_required = required\<rparr>
     in if requiredDeclared schema then Some schema else None))))))"

section \<open>Answers\<close>

datatype answer_value = AText string | ANumber rat | ABool bool | AList "string list"

type_synonym answer_content = "(string \<times> answer_value) list"

datatype field_reason = FieldMissing | FieldUnexpected | FieldInvalid

record field_failure =
  ff_field :: string
  ff_reason :: field_reason
  ff_detail :: "string option"

text \<open>\<^verbatim>\<open>Array.from(text).length\<close>: the code points of a text, one per byte that continues no other.\<close>

definition codePoints :: "string \<Rightarrow> nat" where
  "codePoints s = length (filter (\<lambda>c. \<not> ((128::nat) \<le> of_char c \<and> of_char c \<le> (191::nat))) s)"

definition fieldTypeText :: "form_field \<Rightarrow> string" where
  "fieldTypeText field =
     (case field of
        SelectField _ _ _ \<Rightarrow> ''string''
      | TitledSelectField _ _ _ \<Rightarrow> ''string''
      | MultiSelectField _ _ _ _ _ \<Rightarrow> ''array''
      | BooleanField _ _ \<Rightarrow> ''boolean''
      | StringField _ _ _ _ _ \<Rightarrow> ''string''
      | NumberField _ isInteger _ _ _ \<Rightarrow> if isInteger then ''integer'' else ''number'')"

definition hasType :: "form_field \<Rightarrow> answer_value \<Rightarrow> bool" where
  "hasType field v =
     (case field of
        SelectField _ _ _ \<Rightarrow> (case v of AText _ \<Rightarrow> True | _ \<Rightarrow> False)
      | TitledSelectField _ _ _ \<Rightarrow> (case v of AText _ \<Rightarrow> True | _ \<Rightarrow> False)
      | MultiSelectField _ _ _ _ _ \<Rightarrow> (case v of AList _ \<Rightarrow> True | _ \<Rightarrow> False)
      | BooleanField _ _ \<Rightarrow> (case v of ABool _ \<Rightarrow> True | _ \<Rightarrow> False)
      | StringField _ _ _ _ _ \<Rightarrow> (case v of AText _ \<Rightarrow> True | _ \<Rightarrow> False)
      | NumberField _ isInteger _ _ _ \<Rightarrow>
          (case v of ANumber n \<Rightarrow> isInteger \<longrightarrow> snd (quotient_of n) = 1 | _ \<Rightarrow> False))"

definition typeIssues :: "form_field \<Rightarrow> answer_value \<Rightarrow> string list" where
  "typeIssues field v = (if hasType field v then [] else [''type: must be '' @ fieldTypeText field])"

text \<open>One bound of a field: an issue when it is stated and fails.\<close>

definition boundIssue :: "rat option \<Rightarrow> (rat \<Rightarrow> bool) \<Rightarrow> (rat \<Rightarrow> string) \<Rightarrow> string list" where
  "boundIssue bound fails issue = (case bound of None \<Rightarrow> [] | Some b \<Rightarrow> if fails b then [issue b] else [])"

definition stringLimitIssues :: "form_texts \<Rightarrow> form_field \<Rightarrow> answer_value \<Rightarrow> string list" where
  "stringLimitIssues texts field v =
     (case (field, v) of
        (StringField _ minLength maxLength _ _, AText s) \<Rightarrow>
          boundIssue minLength (\<lambda>b. of_nat (codePoints s) < b)
            (\<lambda>b. ''minLength: must have at least '' @ ft_number texts b @ '' characters'') @
          boundIssue maxLength (\<lambda>b. of_nat (codePoints s) > b)
            (\<lambda>b. ''maxLength: must have at most '' @ ft_number texts b @ '' characters'')
      | _ \<Rightarrow> [])"

definition numberLimitIssues :: "form_texts \<Rightarrow> form_field \<Rightarrow> answer_value \<Rightarrow> string list" where
  "numberLimitIssues texts field v =
     (case (field, v) of
        (NumberField _ _ minimum maximum _, ANumber n) \<Rightarrow>
          boundIssue minimum (\<lambda>b. n < b) (\<lambda>b. ''minimum: must be >= '' @ ft_number texts b) @
          boundIssue maximum (\<lambda>b. n > b) (\<lambda>b. ''maximum: must be <= '' @ ft_number texts b)
      | _ \<Rightarrow> [])"

definition arrayLimitIssues :: "form_texts \<Rightarrow> form_field \<Rightarrow> answer_value \<Rightarrow> string list" where
  "arrayLimitIssues texts field v =
     (case (field, v) of
        (MultiSelectField _ minItems maxItems _ _, AList ss) \<Rightarrow>
          boundIssue minItems (\<lambda>b. of_nat (length ss) < b)
            (\<lambda>b. ''minItems: must have at least '' @ ft_number texts b @ '' items'') @
          boundIssue maxItems (\<lambda>b. of_nat (length ss) > b)
            (\<lambda>b. ''maxItems: must have at most '' @ ft_number texts b @ '' items'')
      | _ \<Rightarrow> [])"

definition limitIssues :: "form_texts \<Rightarrow> form_field \<Rightarrow> answer_value \<Rightarrow> string list" where
  "limitIssues texts field v =
     (case field of
        SelectField _ _ _ \<Rightarrow> stringLimitIssues texts field v
      | TitledSelectField _ _ _ \<Rightarrow> stringLimitIssues texts field v
      | StringField _ _ _ _ _ \<Rightarrow> stringLimitIssues texts field v
      | NumberField _ _ _ _ _ \<Rightarrow> numberLimitIssues texts field v
      | MultiSelectField _ _ _ _ _ \<Rightarrow> arrayLimitIssues texts field v
      | BooleanField _ _ \<Rightarrow> [])"

fun formatText :: "answer_format \<Rightarrow> string" where
  "formatText EmailFormat = ''email''"
| "formatText UriFormat = ''uri''"
| "formatText DateFormat = ''date''"
| "formatText DateTimeFormat = ''date-time''"

definition formatIssues :: "form_field \<Rightarrow> answer_value \<Rightarrow> string list" where
  "formatIssues field v =
     (case (field, v) of
        (StringField _ _ _ (Some format) _, AText s) \<Rightarrow>
          if matchesFormat format s then [] else [''format: must match format \"'' @ formatText format @ ''\"'']
      | _ \<Rightarrow> [])"

definition ALLOWED_VALUES :: string where
  "ALLOWED_VALUES = ''must be one of the allowed values''"

definition enumIssues :: "form_field \<Rightarrow> answer_value \<Rightarrow> string list" where
  "enumIssues field v =
     (case field of
        SelectField _ options _ \<Rightarrow>
          if \<not> list_ex (\<lambda>allowed. AText allowed = v) options then [''enum: '' @ ALLOWED_VALUES] else []
      | _ \<Rightarrow> [])"

definition oneOfIssues :: "form_field \<Rightarrow> answer_value \<Rightarrow> string list" where
  "oneOfIssues field v =
     (case field of
        TitledSelectField _ options _ \<Rightarrow>
          if length (filter (\<lambda>option. AText (to_const option) = v) options) \<noteq> 1
          then [''oneOf: must equal exactly one option's const''] else []
      | _ \<Rightarrow> [])"

definition selectedItemIssues :: "multi_items \<Rightarrow> string \<Rightarrow> nat \<Rightarrow> string list" where
  "selectedItemIssues items item index =
     (case items of
        EnumItems options \<Rightarrow>
          if item \<in> set options then [] else [''items['' @ natText index @ ''].enum: '' @ ALLOWED_VALUES]
      | AnyOfItems options \<Rightarrow>
          if list_ex (\<lambda>option. to_const option = item) options then []
          else [''items['' @ natText index @ ''].anyOf: must equal some option's const''])"

definition itemIssues :: "form_field \<Rightarrow> answer_value \<Rightarrow> string list" where
  "itemIssues field v =
     (case (field, v) of
        (MultiSelectField _ _ _ _ items, AList ss) \<Rightarrow>
          concat (map (\<lambda>(index, item). selectedItemIssues items item index) (List.enumerate 0 ss))
      | _ \<Rightarrow> [])"

definition answerIssues :: "form_texts \<Rightarrow> form_field \<Rightarrow> answer_value \<Rightarrow> string list" where
  "answerIssues texts field v =
     concat (map (\<lambda>check. check field v)
       [typeIssues, limitIssues texts, formatIssues, enumIssues, oneOfIssues, itemIssues])"

section \<open>Validation\<close>

definition fieldFailure :: "form_texts \<Rightarrow> form_schema \<Rightarrow> answer_content \<Rightarrow> string \<Rightarrow> field_failure option" where
  "fieldFailure texts schema content field =
     (case map_of (sch_properties schema) field of
        None \<Rightarrow> Some \<lparr>ff_field = field, ff_reason = FieldUnexpected, ff_detail = None\<rparr>
      | Some def \<Rightarrow>
          (case map_of content field of
             None \<Rightarrow>
               if (case sch_required schema of Some names \<Rightarrow> field \<in> set names | None \<Rightarrow> False)
               then Some \<lparr>ff_field = field, ff_reason = FieldMissing, ff_detail = None\<rparr> else None
           | Some v \<Rightarrow>
               let issues = answerIssues texts def v
               in if length issues = 0 then None
                  else Some \<lparr>ff_field = field, ff_reason = FieldInvalid, ff_detail = Some (joinWith '', '' issues)\<rparr>))"

definition validateAnswer :: "form_texts \<Rightarrow> form_schema \<Rightarrow> answer_content \<Rightarrow> field_failure list + answer_content" where
  "validateAnswer texts schema content =
     (let names = jsSet (map fst (sch_properties schema) @ map fst content);
          failures = List.map_filter (fieldFailure texts schema content) names
      in case failures of [] \<Rightarrow> Inr content | first # rest \<Rightarrow> Inl (first # rest))"

fun answerFieldText :: "field_reason \<Rightarrow> string" where
  "answerFieldText FieldMissing = ''is missing''"
| "answerFieldText FieldUnexpected = ''is not in the form''"
| "answerFieldText FieldInvalid = ''is invalid''"

definition answerFieldsText :: "field_failure list \<Rightarrow> string" where
  "answerFieldsText failures =
     joinWith ''; '' (map (\<lambda>f.
       let named = ''field '' @ jsonString (ff_field f) @ '' '' @ answerFieldText (ff_reason f)
       in case ff_detail f of None \<Rightarrow> named | Some d \<Rightarrow> named @ '' ('' @ d @ '')'') failures)"

datatype collective_response = AcceptResponse answer_content | DeclineResponse

datatype member_outcome =
    Answered answer_content
  | Declined
  | InvalidAnswer string
  | NoAnswer

definition outcomeOfResponse :: "form_texts \<Rightarrow> form_schema \<Rightarrow> collective_response \<Rightarrow> member_outcome" where
  "outcomeOfResponse texts schema response =
     (case response of
        AcceptResponse content \<Rightarrow>
          (case validateAnswer texts schema content of
             Inl failures \<Rightarrow> InvalidAnswer (answerFieldsText failures)
           | Inr c \<Rightarrow> Answered c)
      | DeclineResponse \<Rightarrow> Declined)"

end
