(* ===== verification/Collective_Forms_Facts.thy ===== *)
theory Collective_Forms_Facts
  imports Collective_Forms
begin

text \<open>
  What the check of an answer means: a declarative reading of each form field, and the lemmas that
  the check accepts exactly the answers that satisfy it, names every failing field once, and judges
  an answer the same at every endpoint.
\<close>

section \<open>A field's own meaning\<close>

definition inBounds :: "rat option \<Rightarrow> rat option \<Rightarrow> rat \<Rightarrow> bool" where
  "inBounds lower upper n \<longleftrightarrow> (\<forall>b. lower = Some b \<longrightarrow> b \<le> n) \<and> (\<forall>b. upper = Some b \<longrightarrow> n \<le> b)"

definition listed :: "multi_items \<Rightarrow> string \<Rightarrow> bool" where
  "listed items s = (case items of EnumItems options \<Rightarrow> s \<in> set options | AnyOfItems options \<Rightarrow> s \<in> to_const ` set options)"

inductive satisfies :: "form_field \<Rightarrow> answer_value \<Rightarrow> bool" where
  select: "s \<in> set options \<Longrightarrow> satisfies (SelectField labels options def) (AText s)"
| titled: "length (filter (\<lambda>option. to_const option = s) options) = 1 \<Longrightarrow>
    satisfies (TitledSelectField labels options def) (AText s)"
| multi: "inBounds minItems maxItems (of_nat (length ss)) \<Longrightarrow> \<forall>s\<in>set ss. listed items s \<Longrightarrow>
    satisfies (MultiSelectField labels minItems maxItems def items) (AList ss)"
| boolean: "satisfies (BooleanField labels def) (ABool b)"
| string: "inBounds minLength maxLength (of_nat (codePoints s)) \<Longrightarrow>
    \<forall>format. form = Some format \<longrightarrow> matchesFormat format s \<Longrightarrow>
    satisfies (StringField labels minLength maxLength form def) (AText s)"
| number: "inBounds minimum maximum n \<Longrightarrow> \<not> isInteger \<or> n \<in> \<int> \<Longrightarrow>
    satisfies (NumberField labels isInteger minimum maximum def) (ANumber n)"

inductive_simps satisfies_simps:
  "satisfies (SelectField labels options def) v"
  "satisfies (TitledSelectField labels options def) v"
  "satisfies (MultiSelectField labels minItems maxItems def items) v"
  "satisfies (BooleanField labels def) v"
  "satisfies (StringField labels minLength maxLength form def) v"
  "satisfies (NumberField labels isInteger minimum maximum def) v"

lemma integer_rat_iff: "snd (quotient_of n) = 1 \<longleftrightarrow> n \<in> \<int>"
proof
  assume "snd (quotient_of n) = 1"
  then have "n = of_int (fst (quotient_of n))"
    using quotient_of_div [of n "fst (quotient_of n)" "snd (quotient_of n)"]
    by (simp add: prod_eq_iff)
  then show "n \<in> \<int>" by (metis Ints_of_int)
next
  assume "n \<in> \<int>"
  then show "snd (quotient_of n) = 1" by (auto elim!: Ints_cases)
qed

lemma boundIssue_empty: "boundIssue bound fails issue = [] \<longleftrightarrow> (\<forall>b. bound = Some b \<longrightarrow> \<not> fails b)"
  by (auto simp: boundIssue_def split: option.splits)

lemma limits_empty:
  "stringLimitIssues texts (StringField labels lower upper form def) (AText s) = [] \<longleftrightarrow>
     inBounds lower upper (of_nat (codePoints s))"
  "numberLimitIssues texts (NumberField labels isInteger lower upper def') (ANumber n) = [] \<longleftrightarrow> inBounds lower upper n"
  "arrayLimitIssues texts (MultiSelectField labels lower upper def'' items) (AList ss) = [] \<longleftrightarrow>
     inBounds lower upper (of_nat (length ss))"
  by (simp_all add: stringLimitIssues_def numberLimitIssues_def arrayLimitIssues_def boundIssue_empty inBounds_def not_less)

lemma selectedItemIssues_empty: "selectedItemIssues items item index = [] \<longleftrightarrow> listed items item"
  by (auto simp: selectedItemIssues_def listed_def list_ex_iff split: multi_items.splits)

lemma itemIssues_empty:
  "itemIssues (MultiSelectField labels a b def items) (AList ss) = [] \<longleftrightarrow> (\<forall>s\<in>set ss. listed items s)"
proof -
  have "itemIssues (MultiSelectField labels a b def items) (AList ss) = [] \<longleftrightarrow>
      (\<forall>p\<in>set (List.enumerate 0 ss). listed items (snd p))"
    by (auto simp: itemIssues_def case_prod_unfold selectedItemIssues_empty)
  also have "\<dots> \<longleftrightarrow> (\<forall>s\<in>set (map snd (List.enumerate 0 ss)). listed items s)"
    unfolding set_map by blast
  finally show ?thesis unfolding map_snd_enumerate .
qed

text \<open>The keyword checks find no issue exactly when the value satisfies the field.\<close>

lemma answerIssues_empty: "answerIssues texts field v = [] \<longleftrightarrow> satisfies field v"
proof (cases field)
  case (MultiSelectField labels a b def items)
  then show ?thesis
    by (cases v) (simp_all add: answerIssues_def typeIssues_def hasType_def limitIssues_def formatIssues_def enumIssues_def
        oneOfIssues_def itemIssues_empty limits_empty satisfies_simps)
next
  case (NumberField labels isInteger a b def)
  then show ?thesis
    by (cases v) (auto simp: answerIssues_def typeIssues_def hasType_def limitIssues_def formatIssues_def enumIssues_def
        oneOfIssues_def itemIssues_def limits_empty satisfies_simps integer_rat_iff)
next
  case (StringField labels a b form def)
  then show ?thesis
    by (cases v; cases form) (simp_all add: answerIssues_def typeIssues_def hasType_def limitIssues_def formatIssues_def
        enumIssues_def oneOfIssues_def itemIssues_def limits_empty satisfies_simps)
qed (cases v; auto simp: answerIssues_def typeIssues_def hasType_def limitIssues_def formatIssues_def enumIssues_def
    oneOfIssues_def itemIssues_def stringLimitIssues_def satisfies_simps list_ex_iff)+

section \<open>Whole answers\<close>

definition conforms :: "form_schema \<Rightarrow> answer_content \<Rightarrow> string \<Rightarrow> bool" where
  "conforms schema content name \<longleftrightarrow>
     (\<exists>field. map_of (sch_properties schema) name = Some field \<and>
       (case map_of content name of
          Some v \<Rightarrow> satisfies field v
        | None \<Rightarrow> \<forall>names. sch_required schema = Some names \<longrightarrow> name \<notin> set names))"

lemma fieldFailure_None_iff: "fieldFailure texts schema content name = None \<longleftrightarrow> conforms schema content name"
  by (auto simp: fieldFailure_def conforms_def Let_def answerIssues_empty split: option.splits)

lemma fieldFailure_field: "fieldFailure texts schema content name = Some f \<Longrightarrow> ff_field f = name"
  by (auto simp: fieldFailure_def Let_def split: option.splits if_splits)

lemma map_filter_names:
  "(\<And>x y. f x = Some y \<Longrightarrow> g y = x) \<Longrightarrow> map g (List.map_filter f xs) = filter (\<lambda>x. f x \<noteq> None) xs"
  by (induction xs) (auto simp: List.map_filter_simps split: option.splits)

text \<open>
  C37: The check of an answer succeeds exactly when every field of the form and of the answer
  conforms: it is a field of the form, its value satisfies the field's type, bounds, format and options, and
  a required field is present. Otherwise it returns a failure for each field that does not
  conform, each once and no other, in the order of the form and then of the answer.
\<close>

theorem answer_check_exact:
  "(case validateAnswer texts schema content of
      Inr accepted \<Rightarrow> accepted = content \<and>
        list_all (conforms schema content) (jsSet (map fst (sch_properties schema) @ map fst content))
    | Inl failures \<Rightarrow>
        failures \<noteq> [] \<and> distinct (map ff_field failures) \<and>
        map ff_field failures =
          filter (\<lambda>name. \<not> conforms schema content name) (jsSet (map fst (sch_properties schema) @ map fst content)))"
proof -
  let ?names = "jsSet (map fst (sch_properties schema) @ map fst content)"
  let ?failures = "List.map_filter (fieldFailure texts schema content) ?names"
  have names: "map ff_field ?failures = filter (\<lambda>name. \<not> conforms schema content name) ?names"
    using map_filter_names [of "fieldFailure texts schema content" ff_field ?names, OF fieldFailure_field]
    by (simp only: fieldFailure_None_iff)
  have conforming: "list_all (conforms schema content) ?names" if "?failures = []"
  proof -
    have "filter (\<lambda>name. \<not> conforms schema content name) ?names = []" using names unfolding that by simp
    then show ?thesis unfolding filter_empty_conv list_all_iff by blast
  qed
  have once: "distinct (map ff_field ?failures)" unfolding names by simp
  show ?thesis
  proof (cases ?failures)
    case Nil
    then have "validateAnswer texts schema content = Inr content" unfolding validateAnswer_def Let_def by simp
    then show ?thesis using conforming [OF Nil] by simp
  next
    case (Cons first rest)
    then have "validateAnswer texts schema content = Inl ?failures" unfolding validateAnswer_def Let_def by simp
    then show ?thesis using names once Cons by simp
  qed
qed

section \<open>Rejected properties\<close>

text \<open>The shapes that explain a rejection are the shapes that were tried.\<close>

lemma firstShape_None: "firstShape shapes v = None \<longleftrightarrow> (\<forall>decode\<in>set shapes. decode v = None)"
  by (induction shapes) (auto split: option.splits)

lemma intended_shapes_tried: "shape \<in> set intendedShapes \<Longrightarrow> fs_decode shape \<in> set fieldShapes"
  by (auto simp: intendedShapes_def fieldShapes_def)

text \<open>
  So a property that no shape admits is always explained by the failing keywords of its intended
  shape: the branch that would print that shape alone is never taken.
\<close>

lemma rejection_names_keywords:
  assumes "firstShape fieldShapes v = None" "List.find (\<lambda>shape. fs_intends shape v) intendedShapes = Some shape"
  shows "formFieldViolation texts v = ft_issues texts shape v @ ''; '' @ fs_expected shape"
proof -
  have "shape \<in> set intendedShapes" using assms(2) by (auto dest: find_Some_mem)
  then have "fs_decode shape v = None" using assms(1) intended_shapes_tried by (auto simp: firstShape_None)
  then show ?thesis using assms(2) by (simp add: formFieldViolation_def)
qed

end
