(* ===== verification/Collective_Part.thy ===== *)
theory Collective_Part
  imports Collective_Forms Conversation_Address
begin

text \<open>
  The values the collective layer carries inside a certified post,
  \<^verbatim>\<open>packages/client/src/communication/collectives/part/index.ts\<close>: their wire grammar, the identifier
  a requester's nonce names, and the content that carries a value as one data part. The hash and the canonical
  text are parameters; \<^verbatim>\<open>Schema.encode\<close> checks the value it encodes as decoding would.
\<close>

section \<open>Values\<close>

type_synonym collective_id = string

datatype gather_op = Gather | AllGather

datatype collective_value =
    MulticastValue
  | CollectingValue gather_op collective_id string int form_schema
  | ResponseValue collective_id collective_response
  | CloseValue collective_id "record_hash list"

datatype content_part = TextPart string | DataPart form_json

record collective_environment =
  cv_client :: client_environment
  cv_texts :: form_texts
  cv_canonicalize :: "form_json \<Rightarrow> string option"

abbreviation cv_base64url :: "collective_environment \<Rightarrow> base64url" where
  "cv_base64url env \<equiv> ie_base64url (ce_identity (cv_client env))"

definition COLLECTIVE_DATA_KEY :: string where
  "COLLECTIVE_DATA_KEY = ''org.social-harness/collective''"

definition COLLECTIVE_ID_DOMAIN :: string where
  "COLLECTIVE_ID_DOMAIN = ''org.social-harness/collective-id''"

definition MAXIMUM_EPOCH_MILLIS :: int where
  "MAXIMUM_EPOCH_MILLIS = 8640000000000000"

definition isCollectiveId :: "collective_environment \<Rightarrow> string \<Rightarrow> bool" where
  "isCollectiveId env = isCanonicalIdentifier (cv_base64url env) ''col_''"

definition isRecordHash :: "collective_environment \<Rightarrow> string \<Rightarrow> bool" where
  "isRecordHash env = isCanonicalIdentifier (cv_base64url env) ''rch_''"

definition isCollectiveNonce :: "string \<Rightarrow> bool" where
  "isCollectiveNonce s \<longleftrightarrow>
     length s = 43 \<and> list_all (\<lambda>c. isLetterChar c \<or> isDigitChar c \<or> c = CHR ''_'' \<or> c = CHR ''-'') s"

definition isEpochMillis :: "int \<Rightarrow> bool" where
  "isEpochMillis n \<longleftrightarrow> 1 \<le> n \<and> n \<le> MAXIMUM_EPOCH_MILLIS"

definition collectiveIdOf :: "collective_environment \<Rightarrow> string \<Rightarrow> string \<Rightarrow> collective_id" where
  "collectiveIdOf env requester nonce =
     ''col_'' @ b64_encode (cv_base64url env) (ce_sha256 (cv_client env)
       (utf8Bytes (COLLECTIVE_ID_DOMAIN @ [CHR 0x00] @ requester @ [CHR 0x00] @ nonce)))"

text \<open>The 32 random bytes are drawn by the caller.\<close>

definition mintCollectiveId :: "collective_environment \<Rightarrow> string \<Rightarrow> byte list \<Rightarrow> collective_id \<times> string" where
  "mintCollectiveId env requester random =
     (let nonce = b64_encode (cv_base64url env) random in (collectiveIdOf env requester nonce, nonce))"

section \<open>Decoding\<close>

definition checked :: "('a \<Rightarrow> bool) \<Rightarrow> (form_json \<Rightarrow> 'a option) \<Rightarrow> form_json \<Rightarrow> 'a option" where
  "checked ok decode v = Option.bind (decode v) (\<lambda>x. if ok x then Some x else None)"

definition asFInt :: "form_json \<Rightarrow> int option" where
  "asFInt v =
     Option.bind (asFNum v) (\<lambda>n. case quotient_of n of (i, d) \<Rightarrow> if d = 1 then Some i else None)"

definition asAnswerValue :: "form_json \<Rightarrow> answer_value option" where
  "asAnswerValue v =
     (case v of
        FStr s \<Rightarrow> Some (AText s)
      | FNum n \<Rightarrow> Some (ANumber n)
      | FBool b \<Rightarrow> Some (ABool b)
      | FArr _ \<Rightarrow> map_option AList (asFArr asFStr v)
      | _ \<Rightarrow> None)"

definition asAnswerContent :: "form_json \<Rightarrow> answer_content option" where
  "asAnswerContent v =
     Option.bind (asFObj v) (\<lambda>ms. those (map (\<lambda>(k, w). map_option (Pair k) (asAnswerValue w)) ms))"

definition decodeMulticast :: "form_json \<Rightarrow> collective_value option" where
  "decodeMulticast v =
     Option.bind (asFObj v) (\<lambda>ms.
     if \<not> closedKeys [''kind'', ''op''] ms then None
     else Option.bind (requiredKey (asFLiteral [(''operation'', ())]) ''kind'' ms) (\<lambda>_.
     Option.bind (requiredKey (asFLiteral [(''multicast'', ())]) ''op'' ms) (\<lambda>_.
     Some MulticastValue)))"

definition decodeCollecting :: "collective_environment \<Rightarrow> form_json \<Rightarrow> collective_value option" where
  "decodeCollecting env v =
     Option.bind (asFObj v) (\<lambda>ms.
     if \<not> closedKeys [''kind'', ''op'', ''id'', ''nonce'', ''deadlineAt'', ''requestedSchema''] ms then None
     else Option.bind (requiredKey (asFLiteral [(''operation'', ())]) ''kind'' ms) (\<lambda>_.
     Option.bind (requiredKey (asFLiteral [(''gather'', Gather), (''all_gather'', AllGather)]) ''op'' ms) (\<lambda>op.
     Option.bind (requiredKey (checked (isCollectiveId env) asFStr) ''id'' ms) (\<lambda>id.
     Option.bind (requiredKey (checked isCollectiveNonce asFStr) ''nonce'' ms) (\<lambda>nonce.
     Option.bind (requiredKey (checked isEpochMillis asFInt) ''deadlineAt'' ms) (\<lambda>deadlineAt.
     Option.bind (requiredKey (decodeFormModeSchema (cv_texts env)) ''requestedSchema'' ms) (\<lambda>schema.
     Some (CollectingValue op id nonce deadlineAt schema))))))))"

definition decodeResponse :: "collective_environment \<Rightarrow> form_json \<Rightarrow> collective_value option" where
  "decodeResponse env v =
     Option.bind (asFObj v) (\<lambda>ms.
     Option.bind (requiredKey (asFLiteral [(''response'', ())]) ''kind'' ms) (\<lambda>_.
     Option.bind (requiredKey (checked (isCollectiveId env) asFStr) ''id'' ms) (\<lambda>id.
     Option.bind (requiredKey (asFLiteral [(''accept'', True), (''decline'', False)]) ''action'' ms) (\<lambda>accept.
     if accept
     then (if closedKeys [''kind'', ''id'', ''action'', ''content''] ms
           then map_option (\<lambda>content. ResponseValue id (AcceptResponse content)) (requiredKey asAnswerContent ''content'' ms)
           else None)
     else (if closedKeys [''kind'', ''id'', ''action''] ms then Some (ResponseValue id DeclineResponse) else None)))))"

definition decodeClose :: "collective_environment \<Rightarrow> form_json \<Rightarrow> collective_value option" where
  "decodeClose env v =
     Option.bind (asFObj v) (\<lambda>ms.
     if \<not> closedKeys [''kind'', ''id'', ''included''] ms then None
     else Option.bind (requiredKey (asFLiteral [(''close'', ())]) ''kind'' ms) (\<lambda>_.
     Option.bind (requiredKey (checked (isCollectiveId env) asFStr) ''id'' ms) (\<lambda>id.
     Option.bind (requiredKey (asFArr (checked (isRecordHash env) asFStr)) ''included'' ms) (\<lambda>included.
     Some (CloseValue id included)))))"

text \<open>The union, member by member.\<close>

definition decodeCollectiveValue :: "collective_environment \<Rightarrow> form_json \<Rightarrow> collective_value option" where
  "decodeCollectiveValue env v =
     (case decodeMulticast v of
        Some x \<Rightarrow> Some x
      | None \<Rightarrow> (case decodeCollecting env v of
          Some x \<Rightarrow> Some x
        | None \<Rightarrow> (case decodeResponse env v of Some x \<Rightarrow> Some x | None \<Rightarrow> decodeClose env v)))"

datatype part_error = DuplicatePart | MalformedPart

definition collectivePartValue :: "content_part \<Rightarrow> form_json option" where
  "collectivePartValue part =
     (case part of
        DataPart v \<Rightarrow> Option.bind (asFObj v) (\<lambda>ms. map_of ms COLLECTIVE_DATA_KEY)
      | TextPart _ \<Rightarrow> None)"

definition withoutCollectivePart :: "content_part list \<Rightarrow> content_part list" where
  "withoutCollectivePart content = filter (\<lambda>part. collectivePartValue part = None) content"

definition readCollectiveValue ::
  "collective_environment \<Rightarrow> content_part list \<Rightarrow> part_error + collective_value option" where
  "readCollectiveValue env content =
     (case List.map_filter collectivePartValue content of
        [] \<Rightarrow> Inr None
      | only # rest \<Rightarrow>
          if 0 < length rest then Inl DuplicatePart
          else (case decodeCollectiveValue env only of
                  None \<Rightarrow> Inl MalformedPart
                | Some v \<Rightarrow> Inr (Some v)))"

section \<open>Encoding\<close>

definition givenKey :: "string \<Rightarrow> ('a \<Rightarrow> form_json) \<Rightarrow> 'a option \<Rightarrow> (string \<times> form_json) list" where
  "givenKey k encode x = (case x of None \<Rightarrow> [] | Some v \<Rightarrow> [(k, encode v)])"

definition stringsJson :: "string list \<Rightarrow> form_json" where
  "stringsJson ss = FArr (map FStr ss)"

definition labelsJson :: "field_labels \<Rightarrow> (string \<times> form_json) list" where
  "labelsJson l = givenKey ''title'' FStr (fl_title l) @ givenKey ''description'' FStr (fl_description l)"

definition titledOptionJson :: "titled_option \<Rightarrow> form_json" where
  "titledOptionJson x = FObj [(''const'', FStr (to_const x)), (''title'', FStr (to_title x))]"

fun multiItemsJson :: "multi_items \<Rightarrow> form_json" where
  "multiItemsJson (EnumItems options) = FObj [(''type'', FStr ''string''), (''enum'', stringsJson options)]"
| "multiItemsJson (AnyOfItems options) = FObj [(''anyOf'', FArr (map titledOptionJson options))]"

fun formFieldJson :: "form_field \<Rightarrow> form_json" where
  "formFieldJson (SelectField labels options def) =
     FObj ([(''type'', FStr ''string''), (''enum'', stringsJson options)] @ labelsJson labels @ givenKey ''default'' FStr def)"
| "formFieldJson (TitledSelectField labels options def) =
     FObj ([(''type'', FStr ''string''), (''oneOf'', FArr (map titledOptionJson options))] @ labelsJson labels @
       givenKey ''default'' FStr def)"
| "formFieldJson (MultiSelectField labels minItems maxItems def items) =
     FObj ([(''type'', FStr ''array''), (''items'', multiItemsJson items)] @ labelsJson labels @
       givenKey ''minItems'' FNum minItems @ givenKey ''maxItems'' FNum maxItems @ givenKey ''default'' stringsJson def)"
| "formFieldJson (BooleanField labels def) =
     FObj ([(''type'', FStr ''boolean'')] @ labelsJson labels @ givenKey ''default'' FBool def)"
| "formFieldJson (StringField labels minLength maxLength format def) =
     FObj ([(''type'', FStr ''string'')] @ labelsJson labels @ givenKey ''minLength'' FNum minLength @
       givenKey ''maxLength'' FNum maxLength @ givenKey ''format'' (\<lambda>f. FStr (formatText f)) format @
       givenKey ''default'' FStr def)"
| "formFieldJson (NumberField labels isInteger minimum maximum def) =
     FObj ([(''type'', FStr (if isInteger then ''integer'' else ''number''))] @ labelsJson labels @
       givenKey ''minimum'' FNum minimum @ givenKey ''maximum'' FNum maximum @ givenKey ''default'' FNum def)"

definition formSchemaJson :: "form_schema \<Rightarrow> form_json" where
  "formSchemaJson schema =
     FObj ([(''type'', FStr ''object''), (''properties'', FObj (map (\<lambda>(k, f). (k, formFieldJson f)) (sch_properties schema)))] @
       givenKey ''$schema'' FStr (sch_dialect schema) @ givenKey ''required'' stringsJson (sch_required schema))"

fun answerValueJson :: "answer_value \<Rightarrow> form_json" where
  "answerValueJson (AText s) = FStr s"
| "answerValueJson (ANumber n) = FNum n"
| "answerValueJson (ABool b) = FBool b"
| "answerValueJson (AList ss) = stringsJson ss"

fun collectiveValueJson :: "collective_value \<Rightarrow> form_json" where
  "collectiveValueJson MulticastValue = FObj [(''kind'', FStr ''operation''), (''op'', FStr ''multicast'')]"
| "collectiveValueJson (CollectingValue op cid nonce deadlineAt schema) =
     FObj [(''kind'', FStr ''operation''), (''op'', FStr (case op of Gather \<Rightarrow> ''gather'' | AllGather \<Rightarrow> ''all_gather'')),
       (''id'', FStr cid), (''nonce'', FStr nonce), (''deadlineAt'', FNum (of_int deadlineAt)),
       (''requestedSchema'', formSchemaJson schema)]"
| "collectiveValueJson (ResponseValue cid (AcceptResponse content)) =
     FObj [(''kind'', FStr ''response''), (''id'', FStr cid), (''action'', FStr ''accept''),
       (''content'', FObj (map (\<lambda>(k, v). (k, answerValueJson v)) content))]"
| "collectiveValueJson (ResponseValue cid DeclineResponse) =
     FObj [(''kind'', FStr ''response''), (''id'', FStr cid), (''action'', FStr ''decline'')]"
| "collectiveValueJson (CloseValue cid included) =
     FObj [(''kind'', FStr ''close''), (''id'', FStr cid), (''included'', stringsJson included)]"

text \<open>The refinements of the value's schema, which encoding checks as well.\<close>

definition validFormField :: "form_field \<Rightarrow> bool" where
  "validFormField f \<longleftrightarrow> offersOptions f = Inr f"

definition validFormSchema :: "form_schema \<Rightarrow> bool" where
  "validFormSchema schema \<longleftrightarrow> list_all (\<lambda>(k, f). validFormField f) (sch_properties schema) \<and> requiredDeclared schema"

fun validCollectiveValue :: "collective_environment \<Rightarrow> collective_value \<Rightarrow> bool" where
  "validCollectiveValue env MulticastValue = True"
| "validCollectiveValue env (CollectingValue op cid nonce deadlineAt schema) =
     (isCollectiveId env cid \<and> isCollectiveNonce nonce \<and> isEpochMillis deadlineAt \<and> validFormSchema schema)"
| "validCollectiveValue env (ResponseValue cid response) = isCollectiveId env cid"
| "validCollectiveValue env (CloseValue cid included) = (isCollectiveId env cid \<and> list_all (isRecordHash env) included)"

fun contentPartJson :: "content_part \<Rightarrow> form_json" where
  "contentPartJson (TextPart s) = FObj [(''type'', FStr ''text''), (''text'', FStr s)]"
| "contentPartJson (DataPart v) = FObj [(''type'', FStr ''data''), (''value'', v)]"

definition contentFits :: "collective_environment \<Rightarrow> content_part list \<Rightarrow> bool" where
  "contentFits env content =
     (case cv_canonicalize env (FArr (map contentPartJson content)) of
        None \<Rightarrow> False
      | Some canonical \<Rightarrow> length canonical \<le> maximumContentBytes)"

definition encodeCollectiveContent ::
  "collective_environment \<Rightarrow> collective_value \<Rightarrow> string option \<Rightarrow> content_part list option" where
  "encodeCollectiveContent env v message =
     (if validCollectiveValue env v
      then let content = (case message of None \<Rightarrow> [] | Some m \<Rightarrow> [TextPart m]) @
                 [DataPart (FObj [(COLLECTIVE_DATA_KEY, collectiveValueJson v)])]
           in if contentFits env content then Some content else None
      else None)"

definition questionText :: "content_part list \<Rightarrow> string" where
  "questionText content =
     joinWith [CHR 0x0A] (List.map_filter (\<lambda>part. case part of TextPart s \<Rightarrow> Some s | DataPart _ \<Rightarrow> None) content)"

end
