(* ===== verification/Collective_Requests.thy ===== *)
theory Collective_Requests
  imports Collective_Part
begin

text \<open>
  The requests a member endpoint received and which of them an answer answers,
  \<^verbatim>\<open>packages/client/src/communication/collectives/received-request.ts\<close>, and the answers an all_gather member
  keeps until the close, \<^verbatim>\<open>shared-answers.ts\<close>. Times are milliseconds since the epoch.
\<close>

section \<open>Messages and items\<close>

text \<open>A certified message; a group message lists its members, a direct one has none.\<close>

record inbound_message =
  im_postId :: string
  im_address :: string
  im_sender :: string
  im_members :: "string list option"
  im_content :: "content_part list"

record certified_post =
  cp_message :: inbound_message
  cp_recordHash :: record_hash

record certified_answer =
  an_recordHash :: record_hash
  an_response :: collective_response

record held_close =
  hc_postId :: string
  hc_included :: "record_hash list"

record shared_answers =
  sa_members :: "string list"
  sa_answers :: "(string, certified_answer) jsmap"
  sa_heldClose :: "held_close option"

section \<open>Received requests\<close>

datatype request_state = RUnadmitted | ROpen | RSending | RAnswered | RClosed | RWithheld

text \<open>The answers shared until the close make a request an all_gather's; a gather's has none.\<close>

record received_request =
  rq_postId :: string
  rq_recordHash :: record_hash
  rq_from :: string
  rq_to :: string
  rq_question :: string
  rq_schema :: form_schema
  rq_deadlineAt :: int
  rq_state :: request_state
  rq_shared :: "shared_answers option"

datatype unmatched_answer = RequestNone | RequestAmbiguous | RequestAnswered | RequestExpired

definition MAXIMUM_DEADLINE_SECONDS :: int where
  "MAXIMUM_DEADLINE_SECONDS = 2592000"

definition CLOSE_WAIT :: int where
  "CLOSE_WAIT = 60 * 60 * 1000"

definition RECEIVED_DEADLINE_ALLOWANCE :: int where
  "RECEIVED_DEADLINE_ALLOWANCE = 60 * 60 * 1000"

definition RECEIVED_DEADLINE_HORIZON :: int where
  "RECEIVED_DEADLINE_HORIZON = MAXIMUM_DEADLINE_SECONDS * 1000 + RECEIVED_DEADLINE_ALLOWANCE"

definition requestShown :: "request_state \<Rightarrow> bool" where
  "requestShown state = (case state of RUnadmitted \<Rightarrow> False | RWithheld \<Rightarrow> False | _ \<Rightarrow> True)"

definition requestUnavailable :: "received_request \<Rightarrow> int \<Rightarrow> unmatched_answer option" where
  "requestUnavailable request now =
     (case rq_state request of
        ROpen \<Rightarrow> if now \<ge> rq_deadlineAt request then Some RequestExpired else None
      | RSending \<Rightarrow> Some RequestAnswered
      | RAnswered \<Rightarrow> Some RequestAnswered
      | RClosed \<Rightarrow> Some RequestExpired
      | RUnadmitted \<Rightarrow> Some RequestExpired
      | RWithheld \<Rightarrow> Some RequestExpired)"

definition matchOpenRequest ::
  "(collective_id, received_request) jsmap \<Rightarrow> string \<Rightarrow> int \<Rightarrow> unmatched_answer + collective_id \<times> received_request" where
  "matchOpenRequest requests conversation now =
     (let asked = filter (\<lambda>(_, request). rq_to request = conversation \<and> requestShown (rq_state request)) requests;
          available = filter (\<lambda>(_, request). requestUnavailable request now = None) asked
      in case available of
           [only] \<Rightarrow> Inr only
         | _ # _ # _ \<Rightarrow> Inl RequestAmbiguous
         | [] \<Rightarrow>
             if list_ex (\<lambda>(_, request). requestUnavailable request now = Some RequestAnswered) asked
             then Inl RequestAnswered
             else Inl (if length asked = 0 then RequestNone else RequestExpired))"

definition retainedUntil :: "int \<Rightarrow> bool \<Rightarrow> int" where
  "retainedUntil deadlineAt isAllGather = deadlineAt + (if isAllGather then CLOSE_WAIT else 0)"

definition trustedRequest ::
  "collective_environment \<Rightarrow> inbound_message \<Rightarrow> collective_id \<Rightarrow> string \<Rightarrow> int \<Rightarrow> int \<Rightarrow> bool" where
  "trustedRequest env message cid nonce deadlineAt now \<longleftrightarrow>
     deadlineAt \<le> now + RECEIVED_DEADLINE_HORIZON \<and> collectiveIdOf env (im_sender message) nonce = cid"

definition receivedRequest ::
  "collective_environment \<Rightarrow> certified_post \<Rightarrow> gather_op \<Rightarrow> collective_id \<Rightarrow> string \<Rightarrow> int \<Rightarrow> form_schema \<Rightarrow>
   int \<Rightarrow> request_state \<Rightarrow> received_request option" where
  "receivedRequest env post op cid nonce deadlineAt schema now initial =
     (let message = cp_message post;
          request = \<lparr>rq_postId = im_postId message, rq_recordHash = cp_recordHash post, rq_from = im_sender message,
            rq_to = im_address message, rq_question = questionText (im_content message), rq_schema = schema,
            rq_deadlineAt = deadlineAt, rq_state = initial, rq_shared = None\<rparr>
      in if \<not> trustedRequest env message cid nonce deadlineAt now then None
         else case op of
           Gather \<Rightarrow>
             if im_members message = None \<and> now < deadlineAt then Some request else None
         | AllGather \<Rightarrow>
             (case im_members message of
                None \<Rightarrow> None
              | Some members \<Rightarrow>
                  if now \<ge> retainedUntil deadlineAt True then None
                  else (case filter (\<lambda>member. member \<noteq> im_sender message) members of
                          [] \<Rightarrow> None
                        | first # rest \<Rightarrow>
                            Some (request\<lparr>rq_shared := Some \<lparr>sa_members = first # rest, sa_answers = [], sa_heldClose = None\<rparr>\<rparr>))))"

section \<open>Shared answers\<close>

definition keepFirstAnswer :: "shared_answers \<Rightarrow> string \<Rightarrow> certified_answer \<Rightarrow> shared_answers" where
  "keepFirstAnswer shared sender answer =
     (if sender \<in> set (sa_members shared) \<and> jmGet (sa_answers shared) sender = None
      then shared\<lparr>sa_answers := jmSet sender answer (sa_answers shared)\<rparr> else shared)"

record listed_answer =
  la_member :: string
  la_recordHash :: record_hash
  la_response :: collective_response

text \<open>\<^verbatim>\<open>new Map(pairs)\<close>: later pairs of a key replace earlier ones.\<close>

definition newMap :: "('k \<times> 'v) list \<Rightarrow> ('k, 'v) jsmap" where
  "newMap pairs = fold (\<lambda>(k, v) m. jmSet k v m) pairs []"

definition listedAnswers :: "shared_answers \<Rightarrow> record_hash list \<Rightarrow> listed_answer list \<times> bool \<times> bool" where
  "listedAnswers shared included =
     (let byHash = newMap (map (\<lambda>(member, answer). (an_recordHash answer,
            \<lparr>la_member = member, la_recordHash = an_recordHash answer, la_response = an_response answer\<rparr>)) (sa_answers shared));
          answers = List.map_filter (jmGet byHash) included
      in (answers, length answers < length included,
          length (jsSet (map la_member answers)) < length answers))"

definition memberOutcomes :: "string list \<Rightarrow> (string, member_outcome) jsmap \<Rightarrow> (string \<times> member_outcome) list" where
  "memberOutcomes members outcomes =
     map (\<lambda>member. (member, case jmGet outcomes member of Some outcome \<Rightarrow> outcome | None \<Rightarrow> NoAnswer)) members"

end
