(* ===== verification/Collective_Operations.thy ===== *)
theory Collective_Operations
  imports Collective_Requests
begin

text \<open>
  Collective operations over certified posts, \<^verbatim>\<open>packages/client/src/communication/collectives/operation.ts\<close>,
  with the addresses, waits and refusals of \<^verbatim>\<open>request-sends.ts\<close>, the items of \<^verbatim>\<open>inbound.ts\<close> and the failures of
  \<^verbatim>\<open>forms.ts\<close> and \<^verbatim>\<open>failures.ts\<close>. Each handler that the code runs in one step, without a yield, is a
  function from the state to the next state and the effects it then performs, in order. A received request is
  an object that its answer in flight still refers to when the map has dropped it, so requests live in
  a store and the map holds references. What a suspended fiber still has to do is part of the state: the answers
  in flight by the reference they claimed, the closes being posted, and an open operation's timer by its deadline.
\<close>

section \<open>State\<close>

datatype closed_outcome = ClosedCompleted | ClosedFailed | ClosedRefused

record result_provenance =
  rp_answers :: "(string \<times> record_hash) list"
  rp_request :: "record_hash option"

record result_item =
  ri_op :: gather_op
  ri_id :: collective_id
  ri_to :: string
  ri_question :: string
  ri_outcomes :: "(string \<times> member_outcome) list"

record request_item =
  qi_op :: gather_op
  qi_id :: collective_id
  qi_postId :: string
  qi_from :: string
  qi_to :: string
  qi_question :: string
  qi_schema :: form_schema
  qi_deadlineAt :: int

datatype inbound_item =
    MulticastItem inbound_message
  | RequestItem request_item
  | ResultItem result_item
  | OperationFailedItem collective_id string string

text \<open>
  An emitted item names the operation whose \<^verbatim>\<open>collective.closed\<close> span it closes, if any: with the stated
  outcome when the item is kept, and as failed when it cannot be.
\<close>

datatype collective_effect =
    Emit inbound_item "result_provenance option" "(collective_id \<times> closed_outcome) option"
  | SendClose collective_id string "content_part list"
  | StartTimer collective_id int
  | StopTimer collective_id
  | OpenedSpan collective_id gather_op int
  | ClosedSpan collective_id closed_outcome
  | ConsumedWarning string

record gather_request =
  gr_op :: gather_op
  gr_to :: string
  gr_question :: string
  gr_members :: "string list"
  gr_schema :: form_schema

text \<open>The two maps of an operation are one object in all its openings, so they are kept by its identifier.\<close>

record gather_records =
  gs_outcomes :: "(string, member_outcome) jsmap"
  gs_answerHashes :: "(string, record_hash) jsmap"

record open_gather =
  og_request :: gather_request
  og_timer :: int
  og_requestsSettled :: bool

record closing_gather =
  cg_id :: collective_id
  cg_open :: gather_request
  cg_result :: result_item
  cg_provenance :: result_provenance
  cg_announced :: bool

record collective_state =
  cs_gathers :: "(collective_id, open_gather) jsmap"
  cs_records :: "(collective_id, gather_records) jsmap"
  cs_requests :: "(collective_id, nat) jsmap"
  cs_store :: "received_request list"
  cs_announced :: "collective_id list"
  cs_claims :: "nat list"
  cs_closing :: "closing_gather list"

definition emptyCollective :: collective_state where
  "emptyCollective = \<lparr>cs_gathers = [], cs_records = [], cs_requests = [], cs_store = [], cs_announced = [],
     cs_claims = [], cs_closing = []\<rparr>"

record collective_ports =
  po_env :: collective_environment
  po_self :: string
  po_admission :: bool

definition recordsOf :: "collective_state \<Rightarrow> collective_id \<Rightarrow> gather_records" where
  "recordsOf st cid = (case jmGet (cs_records st) cid of
     Some r \<Rightarrow> r | None \<Rightarrow> \<lparr>gs_outcomes = [], gs_answerHashes = []\<rparr>)"

definition heldRequests :: "collective_state \<Rightarrow> (collective_id, received_request) jsmap" where
  "heldRequests st = map (\<lambda>(cid, r). (cid, cs_store st ! r)) (cs_requests st)"

definition setRequest :: "nat \<Rightarrow> received_request \<Rightarrow> collective_state \<Rightarrow> collective_state" where
  "setRequest r request st = st\<lparr>cs_store := (cs_store st)[r := request]\<rparr>"

section \<open>Addresses, waits and refusals of a request\<close>

record request_refusal =
  rr_member :: string
  rr_reason :: send_failure_reason
  rr_detail :: "string option"

definition postRefusal :: "string \<Rightarrow> send_error \<Rightarrow> request_refusal" where
  "postRefusal member error = \<lparr>rr_member = member, rr_reason = se_reason error, rr_detail = se_detail error\<rparr>"

definition gatherAddress :: "string \<Rightarrow> string \<Rightarrow> gather_op \<Rightarrow> send_error + string \<times> string list" where
  "gatherAddress to self op =
     (let selfName = drop (length ''agent:'') self;
          membershipInvalid = \<lparr>se_reason = MembershipInvalid,
            se_detail = Some ''an all_gather asks a group of two or more other agents''\<rparr>
      in bindE (canonicalMessageAddress to selfName) (\<lambda>canonical.
         case canonical of
           DirectAddress address _ \<Rightarrow> (if op = Gather then Inr (address, [address]) else Inl membershipInvalid)
         | GroupAddress address memberNames \<Rightarrow>
             (case filter isAgentAddress (map (\<lambda>name. ''agent:'' @ name) (filter (\<lambda>name. name \<noteq> selfName) memberNames)) of
                [] \<Rightarrow> Inl membershipInvalid
              | first # rest \<Rightarrow> Inr (address, first # rest))))"

definition REQUEST_SEND_WAIT :: int where
  "REQUEST_SEND_WAIT = 20 * 1000"

definition operationTimes :: "int \<Rightarrow> int \<Rightarrow> int \<times> int" where
  "operationTimes now deadlineSeconds =
     (let untilDeadline = deadlineSeconds * 1000
      in (now + untilDeadline, now + min REQUEST_SEND_WAIT untilDeadline))"

definition requestWait :: "int \<Rightarrow> int \<Rightarrow> int" where
  "requestWait now waitUntil = max 0 (waitUntil - now)"

definition isAddressRefusal :: "request_refusal \<Rightarrow> bool" where
  "isAddressRefusal refusal \<longleftrightarrow> rr_reason refusal \<in> set [InvalidAddress, UnknownAgent, MembershipInvalid]"

text \<open>The engine's lookup of one member is a parameter: the failure it ends in, or none.\<close>

definition lookupRefusals :: "string list \<Rightarrow> (string \<Rightarrow> send_error option) \<Rightarrow> request_refusal list" where
  "lookupRefusals members lookup =
     List.map_filter (\<lambda>member. map_option (\<lambda>error.
       \<lparr>rr_member = member, rr_reason = se_reason error, rr_detail = None\<rparr>) (lookup member)) members"

datatype request_send = RequestPending | RequestCertified string | RequestRefused request_refusal

definition requestsSoFar :: "request_send list \<Rightarrow> string list \<times> request_refusal list" where
  "requestsSoFar sends =
     (List.map_filter (\<lambda>s. case s of RequestCertified post \<Rightarrow> Some post | _ \<Rightarrow> None) sends,
      List.map_filter (\<lambda>s. case s of RequestRefused refusal \<Rightarrow> Some refusal | _ \<Rightarrow> None) sends)"

section \<open>Failures\<close>

datatype collective_failure =
    MembersUnreachable "request_refusal list"
  | SchemaInvalid
  | AnswerInvalid "field_failure list"
  | UnmatchedAnswer unmatched_answer
  | DeadlinePassed

datatype send_refusal =
    RefusedSendError collective_id string send_error
  | RefusedCollective collective_id string collective_failure

definition closeFailureText :: "send_error \<Rightarrow> string" where
  "closeFailureText error =
     ''all_gather failed: the result could not be shared with the group: '' @
       (case se_detail error of Some d \<Rightarrow> d | None \<Rightarrow> sendFailureText (se_reason error))"

section \<open>Preparing an operation\<close>

record prepared_gather =
  pg_id :: collective_id
  pg_open :: gather_request
  pg_content :: "content_part list"
  pg_deadlineAt :: int
  pg_waitUntil :: int

definition refuseAddressErrors :: "string list \<Rightarrow> (string \<Rightarrow> send_error option) \<Rightarrow> collective_failure option" where
  "refuseAddressErrors members lookup =
     (case filter isAddressRefusal (lookupRefusals members lookup) of
        [] \<Rightarrow> None
      | first # rest \<Rightarrow> Some (MembersUnreachable (first # rest)))"

definition prepareGather ::
  "collective_ports \<Rightarrow> (string \<Rightarrow> send_error option) \<Rightarrow> byte list \<Rightarrow> int \<Rightarrow> string \<Rightarrow> string \<Rightarrow> gather_op \<Rightarrow> int \<Rightarrow> form_json \<Rightarrow>
   send_refusal + prepared_gather" where
  "prepareGather ports lookup random now requestedTo question op deadlineSeconds requestedSchema =
     (case mintCollectiveId (po_env ports) (po_self ports) random of (cid, nonce) \<Rightarrow>
      (case gatherAddress requestedTo (po_self ports) op of
         Inl error \<Rightarrow> Inl (RefusedSendError cid requestedTo error)
       | Inr (to, members) \<Rightarrow>
           (case decodeFormModeSchema (cv_texts (po_env ports)) requestedSchema of
              None \<Rightarrow> Inl (RefusedCollective cid to SchemaInvalid)
            | Some schema \<Rightarrow>
                (case refuseAddressErrors members lookup of
                   Some failure \<Rightarrow> Inl (RefusedCollective cid to failure)
                 | None \<Rightarrow>
                     (case operationTimes now deadlineSeconds of (deadlineAt, waitUntil) \<Rightarrow>
                      (case encodeCollectiveContent (po_env ports) (CollectingValue op cid nonce deadlineAt schema) (Some question) of
                         None \<Rightarrow> Inl (RefusedSendError cid to (sendError ContentInvalid))
                       | Some content \<Rightarrow>
                           Inr \<lparr>pg_id = cid,
                             pg_open = \<lparr>gr_op = op, gr_to = to, gr_question = question, gr_members = members, gr_schema = schema\<rparr>,
                             pg_content = content, pg_deadlineAt = deadlineAt, pg_waitUntil = waitUntil\<rparr>))))))"

section \<open>Completing an operation\<close>

definition countedProvenance :: "gather_request \<Rightarrow> gather_records \<Rightarrow> result_provenance" where
  "countedProvenance asked records =
     \<lparr>rp_answers = List.map_filter (\<lambda>member. map_option (Pair member) (jmGet (gs_answerHashes records) member)) (gr_members asked),
      rp_request = None\<rparr>"

definition closeAllGather ::
  "collective_ports \<Rightarrow> collective_state \<Rightarrow> gather_request \<Rightarrow> gather_records \<Rightarrow> result_item \<Rightarrow> bool \<Rightarrow>
   collective_state \<times> collective_effect list" where
  "closeAllGather ports st asked records result announced =
     (let included = List.map_filter (jmGet (gs_answerHashes records)) (gr_members asked);
          closes = (\<lambda>outcome. if announced then Some (ri_id result, outcome) else None)
      in case encodeCollectiveContent (po_env ports) (CloseValue (ri_id result) included) None of
           None \<Rightarrow>
             (st, [Emit (OperationFailedItem (ri_id result) (gr_to asked) (closeFailureText (sendError ContentInvalid))) None
                     (closes ClosedFailed)])
         | Some content \<Rightarrow>
             (st\<lparr>cs_closing := cs_closing st @ [\<lparr>cg_id = ri_id result, cg_open = asked, cg_result = result,
                    cg_provenance = countedProvenance asked records, cg_announced = announced\<rparr>]\<rparr>,
              [SendClose (ri_id result) (gr_to asked) content]))"

text \<open>The post of one of the closes in flight settled: certified, or failed with an error.\<close>

definition closeSettled ::
  "collective_state \<Rightarrow> nat \<Rightarrow> send_error option \<Rightarrow> collective_state \<times> collective_effect list" where
  "closeSettled st i failure =
     (if i < length (cs_closing st)
      then let closing = cs_closing st ! i;
               closes = (\<lambda>outcome. if cg_announced closing then Some (cg_id closing, outcome) else None);
               st' = st\<lparr>cs_closing := take i (cs_closing st) @ drop (Suc i) (cs_closing st)\<rparr>
           in case failure of
                Some error \<Rightarrow>
                  (st', [Emit (OperationFailedItem (cg_id closing) (gr_to (cg_open closing)) (closeFailureText error)) None
                           (closes ClosedFailed)])
              | None \<Rightarrow>
                  (st', [Emit (ResultItem (cg_result closing)) (Some (cg_provenance closing)) (closes ClosedCompleted)])
      else (st, []))"

definition completeGather ::
  "collective_ports \<Rightarrow> collective_state \<Rightarrow> collective_id \<Rightarrow> collective_state \<times> collective_effect list" where
  "completeGather ports st cid =
     (case jmGet (cs_gathers st) cid of
        None \<Rightarrow> (st, [])
      | Some opened \<Rightarrow>
          (let asked = og_request opened;
               records = recordsOf st cid;
               announced = cid \<in> set (cs_announced st);
               st' = st\<lparr>cs_gathers := jmDelete cid (cs_gathers st), cs_announced := removeAll cid (cs_announced st)\<rparr>;
               result = \<lparr>ri_op = gr_op asked, ri_id = cid, ri_to = gr_to asked, ri_question = gr_question asked,
                 ri_outcomes = memberOutcomes (gr_members asked) (gs_outcomes records)\<rparr>
           in case gr_op asked of
                Gather \<Rightarrow> (st', [Emit (ResultItem result) (Some (countedProvenance asked records))
                   (if announced then Some (cid, ClosedCompleted) else None)])
              | AllGather \<Rightarrow> closeAllGather ports st' asked records result announced))"

text \<open>The deadline timer: it fires once its time has come, if the operation it belongs to is still open.\<close>

definition deadlineReached ::
  "collective_ports \<Rightarrow> collective_state \<Rightarrow> collective_id \<Rightarrow> int \<Rightarrow> collective_state \<times> collective_effect list" where
  "deadlineReached ports st cid now =
     (case jmGet (cs_gathers st) cid of
        None \<Rightarrow> (st, [])
      | Some opened \<Rightarrow> if now \<ge> og_timer opened then completeGather ports st cid else (st, []))"

text \<open>One change to an open operation, then its completion once its requests settled and every member has an outcome.\<close>

definition updateGather ::
  "collective_ports \<Rightarrow> collective_state \<Rightarrow> collective_id \<Rightarrow> (open_gather \<Rightarrow> open_gather) \<Rightarrow> (gather_records \<Rightarrow> gather_records) \<Rightarrow>
   collective_state \<times> collective_effect list" where
  "updateGather ports st cid change changeRecords =
     (case jmGet (cs_gathers st) cid of
        None \<Rightarrow> (st, [])
      | Some opened \<Rightarrow>
          (let opened' = change opened;
               records = changeRecords (recordsOf st cid);
               st' = st\<lparr>cs_gathers := jmSet cid opened' (cs_gathers st), cs_records := jmSet cid records (cs_records st)\<rparr>
           in if og_requestsSettled opened' \<and> length (gs_outcomes records) = length (gr_members (og_request opened'))
              then (case completeGather ports st' cid of (st'', effects) \<Rightarrow> (st'', effects @ [StopTimer cid]))
              else (st', [])))"

definition recordRefusal ::
  "collective_ports \<Rightarrow> collective_state \<Rightarrow> collective_id \<Rightarrow> string \<Rightarrow> collective_state \<times> collective_effect list" where
  "recordRefusal ports st cid member =
     updateGather ports st cid (\<lambda>opened. opened) (\<lambda>records.
       if jmGet (gs_outcomes records) member = None
       then records\<lparr>gs_outcomes := jmSet member NoAnswer (gs_outcomes records)\<rparr> else records)"

section \<open>Opening and abandoning\<close>

definition openGather ::
  "collective_state \<Rightarrow> prepared_gather \<Rightarrow> bool \<Rightarrow> int \<Rightarrow> collective_failure + collective_state \<times> collective_effect list" where
  "openGather st prepared requestsSettled now =
     (if now \<ge> pg_deadlineAt prepared then Inl DeadlinePassed
      else let first = pg_id prepared \<notin> set (cs_announced st);
               st' = st\<lparr>cs_gathers := jmSet (pg_id prepared)
                     \<lparr>og_request = pg_open prepared, og_timer = pg_deadlineAt prepared, og_requestsSettled = requestsSettled\<rparr>
                     (cs_gathers st),
                   cs_announced := (if first then cs_announced st @ [pg_id prepared] else cs_announced st)\<rparr>
           in Inr (st', StartTimer (pg_id prepared) (pg_deadlineAt prepared) #
                 (if first then [OpenedSpan (pg_id prepared) (gr_op (pg_open prepared)) (pg_deadlineAt prepared)] else [])))"

definition releaseGather :: "collective_state \<Rightarrow> collective_id \<Rightarrow> collective_state \<times> collective_effect list" where
  "releaseGather st cid =
     (st\<lparr>cs_gathers := jmDelete cid (cs_gathers st)\<rparr>,
      if jmGet (cs_gathers st) cid = None then [] else [StopTimer cid])"

definition markRefused :: "collective_state \<Rightarrow> collective_id \<Rightarrow> collective_state \<times> collective_effect list" where
  "markRefused st cid =
     (if cid \<in> set (cs_announced st)
      then (st\<lparr>cs_announced := removeAll cid (cs_announced st)\<rparr>, [ClosedSpan cid ClosedRefused])
      else (st, []))"

definition forgetGather :: "collective_state \<Rightarrow> collective_id \<Rightarrow> collective_state \<times> collective_effect list" where
  "forgetGather st cid =
     (case releaseGather st cid of (st', stopped) \<Rightarrow>
      case markRefused st' cid of (st'', marked) \<Rightarrow> (st'', stopped @ marked))"

text \<open>A gather's send stops waiting: refused when every post was and it is still open, settled otherwise.\<close>

definition settleRequests ::
  "collective_ports \<Rightarrow> collective_state \<Rightarrow> prepared_gather \<Rightarrow> request_send list \<Rightarrow>
   collective_state \<times> collective_effect list \<times> (collective_failure + string list)" where
  "settleRequests ports st prepared sends =
     (case requestsSoFar sends of (posts, refused) \<Rightarrow>
        if refused \<noteq> [] \<and> length refused = length (gr_members (pg_open prepared)) \<and> jmGet (cs_gathers st) (pg_id prepared) \<noteq> None
        then (case forgetGather st (pg_id prepared) of (st', effects) \<Rightarrow>
               (st', effects, Inl (MembersUnreachable refused)))
        else (case updateGather ports st (pg_id prepared) (\<lambda>opened. opened\<lparr>og_requestsSettled := True\<rparr>) (\<lambda>records. records) of
                (st', effects) \<Rightarrow> (st', effects, Inr posts)))"

definition abandonGroupRequest ::
  "collective_state \<Rightarrow> prepared_gather \<Rightarrow> send_error \<Rightarrow> collective_state \<times> collective_effect list \<times> collective_failure" where
  "abandonGroupRequest st prepared error =
     (case forgetGather st (pg_id prepared) of (st', effects) \<Rightarrow>
        (st', effects, MembersUnreachable (map (\<lambda>member. postRefusal member error) (gr_members (pg_open prepared)))))"

text \<open>
  The outcome of an all_gather's one group post after it bound: certified, or failed by an error or by the wait's
  end. A completed operation's result stands.
\<close>

definition settleGroupRequest ::
  "collective_state \<Rightarrow> prepared_gather \<Rightarrow> send_error + string \<Rightarrow>
   collective_state \<times> collective_effect list \<times> (collective_failure + string list)" where
  "settleGroupRequest st prepared outcome =
     (case outcome of
        Inr postId \<Rightarrow> (st, [], Inr [postId])
      | Inl error \<Rightarrow>
          if jmGet (cs_gathers st) (pg_id prepared) \<noteq> None
          then (case abandonGroupRequest st prepared error of (st', effects, failure) \<Rightarrow> (st', effects, Inl failure))
          else (st, [], Inr []))"

text \<open>
  The group post did not bind: an operation whose hold was given up closes as refused, and a send error
  abandons it; a refusal of another kind leaves an operation that keeps its hold to its deadline.
\<close>

definition groupBindFailed ::
  "collective_state \<Rightarrow> prepared_gather \<Rightarrow> send_error option \<Rightarrow> collective_state \<times> collective_effect list" where
  "groupBindFailed st prepared failure =
     (case (if jmGet (cs_gathers st) (pg_id prepared) \<noteq> None then (st, []) else markRefused st (pg_id prepared)) of
        (st', marked) \<Rightarrow>
          (case failure of
             None \<Rightarrow> (st', marked)
           | Some error \<Rightarrow>
               (case abandonGroupRequest st' prepared error of (st'', effects, _) \<Rightarrow> (st'', marked @ effects))))"

section \<open>Answering a request\<close>

definition openRequest ::
  "collective_ports \<Rightarrow> collective_state \<Rightarrow> byte list \<Rightarrow> int \<Rightarrow> string \<Rightarrow> send_refusal + collective_id \<times> nat" where
  "openRequest ports st random now to =
     (case mintCollectiveId (po_env ports) (po_self ports) random of (cid, _) \<Rightarrow>
      (case canonicalMessageAddress to (drop (length ''agent:'') (po_self ports)) of
         Inl error \<Rightarrow> Inl (RefusedSendError cid to error)
       | Inr canonical \<Rightarrow>
           (case matchOpenRequest (heldRequests st) (ca_address canonical) now of
              Inl kind \<Rightarrow> Inl (RefusedCollective cid (ca_address canonical) (UnmatchedAnswer kind))
            | Inr (matched, _) \<Rightarrow> Inr (matched, the (jmGet (cs_requests st) matched)))))"

definition responseContent ::
  "collective_ports \<Rightarrow> received_request \<Rightarrow> collective_id \<Rightarrow> collective_response \<Rightarrow> send_refusal + content_part list" where
  "responseContent ports request cid response =
     (let refuse = (\<lambda>failure. RefusedCollective cid (rq_to request) failure);
          encoded = (case encodeCollectiveContent (po_env ports) (ResponseValue cid response) None of
             None \<Rightarrow> Inl (RefusedSendError cid (rq_to request) (sendError ContentInvalid)) | Some content \<Rightarrow> Inr content)
      in case response of
           AcceptResponse content \<Rightarrow>
             (case validateAnswer (cv_texts (po_env ports)) (rq_schema request) content of
                Inl failures \<Rightarrow> Inl (refuse (AnswerInvalid failures))
              | Inr _ \<Rightarrow> encoded)
         | DeclineResponse \<Rightarrow> encoded)"

text \<open>The match and the claim run in one step; the claim is the answer in flight.\<close>

definition claimRequest ::
  "collective_state \<Rightarrow> collective_id \<Rightarrow> nat \<Rightarrow> int \<Rightarrow> collective_failure + collective_state" where
  "claimRequest st cid r now =
     (let request = cs_store st ! r
      in case matchOpenRequest (heldRequests st) (rq_to request) now of
           Inl kind \<Rightarrow> Inl (UnmatchedAnswer kind)
         | Inr (matched, _) \<Rightarrow>
             if matched \<noteq> cid
             then Inl (UnmatchedAnswer (case requestUnavailable request now of Some kind \<Rightarrow> kind | None \<Rightarrow> RequestAmbiguous))
             else Inr ((setRequest r (request\<lparr>rq_state := RSending\<rparr>) st)\<lparr>cs_claims := r # cs_claims st\<rparr>))"

definition reopenRequest :: "collective_state \<Rightarrow> nat \<Rightarrow> collective_state" where
  "reopenRequest st r =
     (let request = cs_store st ! r;
          st' = st\<lparr>cs_claims := remove1 r (cs_claims st)\<rparr>
      in if rq_state request = RSending then setRequest r (request\<lparr>rq_state := ROpen\<rparr>) st' else st')"

section \<open>Closes\<close>

definition applyClose ::
  "collective_ports \<Rightarrow> collective_state \<Rightarrow> collective_id \<Rightarrow> nat \<Rightarrow> shared_answers \<Rightarrow> held_close \<Rightarrow>
   collective_state \<times> collective_effect list" where
  "applyClose ports st cid r shared close =
     (let request = cs_store st ! r
      in case listedAnswers shared (hc_included close) of (answers, missing, twice) \<Rightarrow>
        if missing \<and> rq_state request = RSending
        then (setRequest r (request\<lparr>rq_shared := Some (shared\<lparr>sa_heldClose := Some close\<rparr>)\<rparr>) st, [])
        else let st' = setRequest r (request\<lparr>rq_state := RClosed, rq_shared := Some (shared\<lparr>sa_answers := []\<rparr>)\<rparr>) st
             in if missing \<or> twice then (st', [ConsumedWarning (hc_postId close)])
                else (st', [Emit
                  (ResultItem \<lparr>ri_op = AllGather, ri_id = cid, ri_to = rq_to request, ri_question = rq_question request,
                     ri_outcomes = memberOutcomes (sa_members shared)
                       (newMap (map (\<lambda>answer. (la_member answer,
                          outcomeOfResponse (cv_texts (po_env ports)) (rq_schema request) (la_response answer))) answers))\<rparr>)
                  (Some \<lparr>rp_answers = List.map_filter (\<lambda>answer. if la_member answer = po_self ports then None
                            else Some (la_member answer, la_recordHash answer)) answers,
                         rp_request = Some (rq_recordHash request)\<rparr>)
                  None]))"

definition settleAnswer ::
  "collective_ports \<Rightarrow> collective_state \<Rightarrow> collective_id \<Rightarrow> nat \<Rightarrow> certified_answer option \<Rightarrow>
   collective_state \<times> collective_effect list" where
  "settleAnswer ports st cid r certified =
     (let request = cs_store st ! r;
          st0 = st\<lparr>cs_claims := remove1 r (cs_claims st)\<rparr>
      in if rq_state request = RClosed then (st0, [])
         else let settled = request\<lparr>rq_state := (if certified \<noteq> None then RAnswered else ROpen)\<rparr>
              in case rq_shared request of
                   None \<Rightarrow> (setRequest r settled st0, [])
                 | Some shared \<Rightarrow>
                     (let answers = (case certified of Some answer \<Rightarrow> jmSet (po_self ports) answer (sa_answers shared)
                                     | None \<Rightarrow> sa_answers shared);
                          shared' = shared\<lparr>sa_answers := answers, sa_heldClose := None\<rparr>;
                          st' = setRequest r (settled\<lparr>rq_shared := Some shared'\<rparr>) st0
                      in case sa_heldClose shared of
                           None \<Rightarrow> (st', [])
                         | Some held \<Rightarrow> applyClose ports st' cid r shared' held))"

definition receiveClose ::
  "collective_ports \<Rightarrow> collective_state \<Rightarrow> inbound_message \<Rightarrow> collective_id \<Rightarrow> record_hash list \<Rightarrow>
   collective_state \<times> collective_effect list" where
  "receiveClose ports st message cid included =
     (case Option.bind (jmGet (cs_requests st) cid) (\<lambda>r. map_option (Pair r) (rq_shared (cs_store st ! r))) of
        None \<Rightarrow> (st, [ConsumedWarning (im_postId message)])
      | Some (r, shared) \<Rightarrow>
          let request = cs_store st ! r
          in if im_members message = None \<or> im_address message \<noteq> rq_to request \<or> im_sender message \<noteq> rq_from request
             then (st, [ConsumedWarning (im_postId message)])
             else if rq_state request = RClosed \<or> sa_heldClose shared \<noteq> None then (st, [])
             else applyClose ports st cid r shared \<lparr>hc_postId = im_postId message, hc_included = included\<rparr>)"

section \<open>Classifying a post\<close>

definition forgetExpiredRequests :: "collective_state \<Rightarrow> int \<Rightarrow> collective_state" where
  "forgetExpiredRequests st now =
     st\<lparr>cs_requests := filter (\<lambda>(_, r). \<not> now \<ge> retainedUntil (rq_deadlineAt (cs_store st ! r)) (rq_shared (cs_store st ! r) \<noteq> None))
          (cs_requests st)\<rparr>"

definition requestItem ::
  "collective_ports \<Rightarrow> collective_state \<Rightarrow> certified_post \<Rightarrow> gather_op \<Rightarrow> collective_id \<Rightarrow> string \<Rightarrow> int \<Rightarrow> form_schema \<Rightarrow> int \<Rightarrow>
   collective_state \<times> inbound_item option" where
  "requestItem ports st post op cid nonce deadlineAt schema now =
     (case receivedRequest (po_env ports) post op cid nonce deadlineAt schema now
        (if po_admission ports then RUnadmitted else ROpen) of
        None \<Rightarrow> (st, None)
      | Some received \<Rightarrow>
          let held = jmGet (cs_requests st) cid
          in if rq_postId (case held of Some r \<Rightarrow> cs_store st ! r | None \<Rightarrow> received) \<noteq> im_postId (cp_message post)
             then (st, None)
             else let st' = (case held of
                        Some _ \<Rightarrow> st
                      | None \<Rightarrow>
                          let kept = forgetExpiredRequests st now
                          in kept\<lparr>cs_requests := jmSet cid (length (cs_store kept)) (cs_requests kept),
                                  cs_store := cs_store kept @ [received]\<rparr>)
                  in (st', if now < deadlineAt
                           then Some (RequestItem \<lparr>qi_op = op, qi_id = cid, qi_postId = im_postId (cp_message post),
                                  qi_from = im_sender (cp_message post), qi_to = rq_to received, qi_question = rq_question received,
                                  qi_schema = schema, qi_deadlineAt = deadlineAt\<rparr>)
                           else None))"

definition answeredInConversation :: "gather_request \<Rightarrow> inbound_message \<Rightarrow> bool" where
  "answeredInConversation asked message =
     (case gr_op asked of
        Gather \<Rightarrow> im_members message = None
      | AllGather \<Rightarrow> im_members message \<noteq> None \<and> im_address message = gr_to asked)"

definition recordCountedAnswer ::
  "collective_ports \<Rightarrow> collective_state \<Rightarrow> open_gather \<Rightarrow> certified_post \<Rightarrow> collective_id \<Rightarrow> collective_response \<Rightarrow>
   collective_state \<times> collective_effect list" where
  "recordCountedAnswer ports st opened post cid response =
     (let asked = og_request opened; sender = im_sender (cp_message post)
      in if \<not> answeredInConversation asked (cp_message post) \<or> sender \<notin> set (gr_members asked) \<or>
            jmGet (gs_outcomes (recordsOf st cid)) sender \<noteq> None
         then (st, [])
         else let outcome = outcomeOfResponse (cv_texts (po_env ports)) (gr_schema asked) response
              in updateGather ports st cid (\<lambda>opened. opened) (\<lambda>records.
                   records\<lparr>gs_outcomes := jmSet sender outcome (gs_outcomes records),
                           gs_answerHashes := jmSet sender (cp_recordHash post) (gs_answerHashes records)\<rparr>))"

definition recordPeerAnswer ::
  "collective_state \<Rightarrow> nat \<Rightarrow> shared_answers \<Rightarrow> certified_post \<Rightarrow> collective_response \<Rightarrow> collective_state" where
  "recordPeerAnswer st r shared post response =
     (let request = cs_store st ! r; message = cp_message post
      in if rq_state request = RClosed \<or> im_members message = None \<or> im_address message \<noteq> rq_to request then st
         else setRequest r (request\<lparr>rq_shared := Some (keepFirstAnswer shared (im_sender message)
                \<lparr>an_recordHash = cp_recordHash post, an_response = response\<rparr>)\<rparr>) st)"

definition recordAnswer ::
  "collective_ports \<Rightarrow> collective_state \<Rightarrow> certified_post \<Rightarrow> collective_id \<Rightarrow> collective_response \<Rightarrow>
   collective_state \<times> collective_effect list" where
  "recordAnswer ports st post cid response =
     (case jmGet (cs_gathers st) cid of
        Some opened \<Rightarrow> recordCountedAnswer ports st opened post cid response
      | None \<Rightarrow>
          (case Option.bind (jmGet (cs_requests st) cid) (\<lambda>r. map_option (Pair r) (rq_shared (cs_store st ! r))) of
             Some (r, shared) \<Rightarrow> (recordPeerAnswer st r shared post response, [])
           | None \<Rightarrow> (st, [])))"

definition multicastItem :: "inbound_message \<Rightarrow> content_part list \<Rightarrow> inbound_item option" where
  "multicastItem message content =
     (if content = [] then None else Some (MulticastItem (message\<lparr>im_content := content\<rparr>)))"

definition collectiveItem ::
  "collective_ports \<Rightarrow> collective_state \<Rightarrow> certified_post \<Rightarrow> collective_value \<Rightarrow> int \<Rightarrow>
   collective_state \<times> collective_effect list \<times> inbound_item option" where
  "collectiveItem ports st post value now =
     (case value of
        MulticastValue \<Rightarrow>
          (st, [], multicastItem (cp_message post) (withoutCollectivePart (im_content (cp_message post))))
      | CollectingValue op cid nonce deadlineAt schema \<Rightarrow>
          (case requestItem ports st post op cid nonce deadlineAt schema now of (st', item) \<Rightarrow> (st', [], item))
      | ResponseValue cid response \<Rightarrow>
          (case recordAnswer ports st post cid response of (st', effects) \<Rightarrow> (st', effects, None))
      | CloseValue cid included \<Rightarrow>
          (case receiveClose ports st (cp_message post) cid included of (st', effects) \<Rightarrow> (st', effects, None)))"

definition classify ::
  "collective_ports \<Rightarrow> collective_state \<Rightarrow> certified_post \<Rightarrow> int \<Rightarrow>
   collective_state \<times> collective_effect list \<times> inbound_item option" where
  "classify ports st post now =
     (case readCollectiveValue (po_env ports) (im_content (cp_message post)) of
        Inl _ \<Rightarrow> (st, [ConsumedWarning (im_postId (cp_message post))], None)
      | Inr None \<Rightarrow> (st, [], Some (MulticastItem (cp_message post)))
      | Inr (Some value) \<Rightarrow> collectiveItem ports st post value now)"

definition settleRequest :: "collective_state \<Rightarrow> collective_id \<Rightarrow> bool \<Rightarrow> collective_state" where
  "settleRequest st cid presented =
     (case jmGet (cs_requests st) cid of
        None \<Rightarrow> st
      | Some r \<Rightarrow>
          let request = cs_store st ! r
          in if rq_state request = RUnadmitted
             then setRequest r (request\<lparr>rq_state := (if presented then ROpen else RWithheld)\<rparr>) st else st)"

section \<open>Runs\<close>

text \<open>
  The steps the endpoint's fibers take, each with the time it runs at. An operation is opened only while it is not
  open: its identifier is fresh, and an all_gather's hold is given up before it is taken again. A claim is
  made with the identifier and the request object an earlier match of the answer returned; like the code it compares
  the identifiers alone. Only an answer in flight is reopened or settled.
\<close>

datatype collective_event =
    OpenStep prepared_gather bool
  | RefusalStep collective_id string
  | SettleStep prepared_gather "request_send list"
  | GroupSettledStep prepared_gather "send_error + string"
  | BindFailedStep prepared_gather "send_error option"
  | ReleaseStep collective_id
  | DeadlineStep collective_id
  | CloseSettledStep nat "send_error option"
  | ClassifyStep certified_post
  | ClaimStep collective_id nat
  | ReopenStep nat
  | SettleAnswerStep collective_id nat "certified_answer option"
  | SettleRequestStep collective_id bool

definition performStep ::
  "collective_ports \<Rightarrow> collective_state \<Rightarrow> collective_event \<times> int \<Rightarrow> collective_state \<times> collective_effect list" where
  "performStep ports st step =
     (case step of (event, now) \<Rightarrow>
      (case event of
         OpenStep prepared settled \<Rightarrow>
           if jmGet (cs_gathers st) (pg_id prepared) = None
           then (case openGather st prepared settled now of Inl _ \<Rightarrow> (st, []) | Inr next \<Rightarrow> next) else (st, [])
       | RefusalStep cid member \<Rightarrow> recordRefusal ports st cid member
       | SettleStep prepared sends \<Rightarrow>
           (case settleRequests ports st prepared sends of (st', effects, _) \<Rightarrow> (st', effects))
       | GroupSettledStep prepared outcome \<Rightarrow>
           (case settleGroupRequest st prepared outcome of (st', effects, _) \<Rightarrow> (st', effects))
       | BindFailedStep prepared failure \<Rightarrow> groupBindFailed st prepared failure
       | ReleaseStep cid \<Rightarrow> releaseGather st cid
       | DeadlineStep cid \<Rightarrow> deadlineReached ports st cid now
       | CloseSettledStep i failure \<Rightarrow> closeSettled st i failure
       | ClassifyStep post \<Rightarrow> (case classify ports st post now of (st', effects, _) \<Rightarrow> (st', effects))
       | ClaimStep cid r \<Rightarrow> (case claimRequest st cid r now of Inl _ \<Rightarrow> (st, []) | Inr st' \<Rightarrow> (st', []))
       | ReopenStep r \<Rightarrow> if r \<in> set (cs_claims st) then (reopenRequest st r, []) else (st, [])
       | SettleAnswerStep cid r certified \<Rightarrow>
           if r \<in> set (cs_claims st) then settleAnswer ports st cid r certified else (st, [])
       | SettleRequestStep cid presented \<Rightarrow> (settleRequest st cid presented, [])))"

fun runCollective ::
  "collective_ports \<Rightarrow> collective_state \<Rightarrow> (collective_event \<times> int) list \<Rightarrow> collective_state \<times> collective_effect list" where
  "runCollective ports st [] = (st, [])"
| "runCollective ports st (step # steps) =
     (case performStep ports st step of (st', effects) \<Rightarrow>
      case runCollective ports st' steps of (st'', later) \<Rightarrow> (st'', effects @ later))"

end
