(* ===== verification/Collective_Part_Facts.thy ===== *)
theory Collective_Part_Facts
  imports Collective_Part Records_Sample
begin

text \<open>
  The wire grammar of the collective values and their encoding are inverse: a field, a form and a value read
  back as they were written, and so does the content that carries them.
\<close>

section \<open>Round trips\<close>

lemma as_simps [simp]:
  "asFStr (FStr s) = Some s" "asFNum (FNum n) = Some n" "asFBool (FBool b) = Some b" "asFObj (FObj ms) = Some ms"
  "asFLiteral texts (FStr s) = map_of texts s"
  by (simp_all add: asFStr_def asFNum_def asFBool_def asFObj_def asFLiteral_def)

lemma those_map: "(\<And>x. x \<in> set xs \<Longrightarrow> f x = Some (g x)) \<Longrightarrow> those (map f xs) = Some (map g xs)"
  by (induction xs) auto

lemma asFArr_map: "(\<And>x. x \<in> set xs \<Longrightarrow> decode (encode x) = Some x) \<Longrightarrow> asFArr decode (FArr (map encode xs)) = Some xs"
  using those_map [of xs "decode \<circ> encode" id] by (simp add: asFArr_def o_def)

lemma asFArr_strings [simp]: "asFArr asFStr (stringsJson ss) = Some ss"
  by (simp add: stringsJson_def asFArr_map)

lemma decodeTitledOption_json [simp]: "decodeTitledOption (titledOptionJson x) = Some x"
  by (simp add: decodeTitledOption_def titledOptionJson_def requiredKey_def)

lemma asFArr_titled [simp]: "asFArr decodeTitledOption (FArr (map titledOptionJson xs)) = Some xs"
  by (simp add: asFArr_map)

lemma formatTexts_json [simp]: "map_of formatTexts (formatText f) = Some f"
  by (cases f) (simp_all add: formatTexts_def)

lemma map_of_given:
  "map_of rest k = None \<Longrightarrow> map_of (givenKey k encode x @ rest) k = map_option encode x"
  "k \<noteq> k' \<Longrightarrow> map_of (givenKey k encode x @ rest) k' = map_of rest k'"
  "map_of (givenKey k encode x) k = map_option encode x"
  "k \<noteq> k' \<Longrightarrow> map_of (givenKey k encode x) k' = None"
  by (cases x; simp add: givenKey_def)+

lemma case_given:
  "(\<And>v. decode (encode v) = Some v) \<Longrightarrow>
   (case map_option encode x of None \<Rightarrow> Some None | Some v \<Rightarrow> map_option Some (decode v)) = Some x"
  by (cases x) simp_all

lemmas given_simps = case_given [of asFStr FStr, simplified] case_given [of asFNum FNum, simplified]
  case_given [of asFBool FBool, simplified] case_given [of "asFArr asFStr" stringsJson, simplified]
  case_given [of "asFLiteral formatTexts" "\<lambda>f. FStr (formatText f)", simplified]

lemma decodeItems_json:
  "decodeEnumItems (multiItemsJson (EnumItems xs)) = Some (EnumItems xs)"
  "decodeEnumItems (multiItemsJson (AnyOfItems ys)) = None"
  "decodeAnyOfItems (multiItemsJson (AnyOfItems ys)) = Some (AnyOfItems ys)"
  by (simp_all add: decodeEnumItems_def decodeAnyOfItems_def typeKey_def requiredKey_def)

lemmas shape_simps = labelsJson_def map_of_given optionalKey_def decodeLabels_def given_simps requiredKey_def typeKey_def
  decodeItems_json

lemmas shape_defs = fieldShapes_def decodeUntitledSelect_def decodeTitledSelect_def decodeMultiSelect_def
  decodeBoolean_def decodeString_def decodeNumber_def

lemma firstShape_json: "firstShape fieldShapes (formFieldJson f) = Some f"
proof (cases f)
  case (SelectField labels options def)
  then show ?thesis by (simp add: shape_defs shape_simps del: map_of_append)
next
  case (TitledSelectField labels options def)
  then show ?thesis by (simp add: shape_defs shape_simps del: map_of_append)
next
  case (MultiSelectField labels a b def items)
  then show ?thesis by (cases items) (simp_all add: shape_defs shape_simps del: map_of_append multiItemsJson.simps)
next
  case (BooleanField labels def)
  then show ?thesis by (simp add: shape_defs shape_simps del: map_of_append)
next
  case (StringField labels a b form def)
  then show ?thesis by (simp add: shape_defs shape_simps del: map_of_append)
next
  case (NumberField labels isInteger a b def)
  then show ?thesis by (cases isInteger) (simp_all add: shape_defs shape_simps del: map_of_append)
qed

lemma admit_json: "validFormField f \<Longrightarrow> admitFormField texts (formFieldJson f) = Inr f"
  by (simp add: admitFormField_def firstShape_json validFormField_def)

lemma decodeFormModeSchema_json:
  assumes "validFormSchema schema"
  shows "decodeFormModeSchema texts (formSchemaJson schema) = Some schema"
proof -
  have "those (map ((\<lambda>(k, p). case admitFormField texts p of Inl _ \<Rightarrow> None | Inr f \<Rightarrow> Some (k, f)) \<circ>
      (\<lambda>(k, f). (k, formFieldJson f))) (sch_properties schema)) = Some (map id (sch_properties schema))"
    using assms by (intro those_map) (auto simp: validFormSchema_def list_all_iff admit_json)
  then have fields: "those (map (\<lambda>(k, p). case admitFormField texts p of Inl _ \<Rightarrow> None | Inr f \<Rightarrow> Some (k, f))
      (map (\<lambda>(k, f). (k, formFieldJson f)) (sch_properties schema))) = Some (sch_properties schema)"
    by (simp only: map_map list.map_id)
  have closed: "closedKeys [''$schema'', ''type'', ''properties'', ''required'']
      (givenKey ''$schema'' FStr d @ givenKey ''required'' stringsJson r)" for d r
    by (cases d; cases r; simp add: closedKeys_def givenKey_def)
  have keys: "closedKeys ns ((k, v) # ms) \<longleftrightarrow> k \<in> set ns \<and> closedKeys ns ms" for ns k v ms
    by (simp add: closedKeys_def)
  have whole: "\<lparr>sch_dialect = sch_dialect schema, sch_properties = sch_properties schema, sch_required = sch_required schema\<rparr> = schema"
    by simp
  show ?thesis
    using assms fields
    by (simp add: whole formSchemaJson_def decodeFormModeSchema_def keys closed shape_simps validFormSchema_def
        Let_def del: map_of_append map_map)
qed

lemma asAnswerValue_json [simp]: "asAnswerValue (answerValueJson v) = Some v"
  by (cases v) (simp_all add: asAnswerValue_def asFArr_map stringsJson_def)

lemma asAnswerContent_json: "asAnswerContent (FObj (map (\<lambda>(k, v). (k, answerValueJson v)) content)) = Some content"
  using those_map [of content "\<lambda>(k, v). Some (k, v)" id] by (simp add: asAnswerContent_def o_def case_prod_unfold)

lemma asFInt_json: "asFInt (FNum (of_int n)) = Some n"
  by (simp add: asFInt_def)

lemma asFArr_hashes: "list_all P hs \<Longrightarrow> asFArr (checked P asFStr) (stringsJson hs) = Some hs"
  unfolding stringsJson_def by (rule asFArr_map) (simp add: checked_def list_all_iff)

lemma decodeCollectiveValue_json:
  assumes "validCollectiveValue env v"
  shows "decodeCollectiveValue env (collectiveValueJson v) = Some v"
proof (cases v)
  case MulticastValue
  then show ?thesis by (simp add: decodeCollectiveValue_def decodeMulticast_def closedKeys_def requiredKey_def)
next
  case (CollectingValue op cid nonce deadlineAt schema)
  then show ?thesis
    using assms by (cases op) (simp_all add: decodeCollectiveValue_def decodeMulticast_def decodeCollecting_def closedKeys_def
        requiredKey_def checked_def asFInt_json decodeFormModeSchema_json)
next
  case (ResponseValue cid response)
  then show ?thesis
    using assms by (cases response) (simp_all add: decodeCollectiveValue_def decodeMulticast_def decodeCollecting_def
        decodeResponse_def closedKeys_def requiredKey_def checked_def asAnswerContent_json)
next
  case (CloseValue cid included)
  then show ?thesis
    using assms by (simp add: decodeCollectiveValue_def decodeMulticast_def decodeCollecting_def decodeResponse_def
        decodeClose_def closedKeys_def requiredKey_def checked_def asFArr_hashes)
qed

lemma encodeCollectiveContent_cases:
  assumes "encodeCollectiveContent env v message = Some content"
  obtains "validCollectiveValue env v" "contentFits env content"
    "content = (case message of None \<Rightarrow> [] | Some m \<Rightarrow> [TextPart m]) @
       [DataPart (FObj [(COLLECTIVE_DATA_KEY, collectiveValueJson v)])]"
  using assms by (auto simp: encodeCollectiveContent_def Let_def split: if_splits)

lemma read_encoded:
  assumes "encodeCollectiveContent env v message = Some content"
  shows "readCollectiveValue env content = Inr (Some v)"
  using assms
proof (cases rule: encodeCollectiveContent_cases)
  case 1
  then show ?thesis
    by (cases message) (simp_all add: readCollectiveValue_def collectivePartValue_def List.map_filter_simps decodeCollectiveValue_json)
qed

text \<open>
  C38: What an endpoint puts into a post is what every reader takes out of it: content built from a
  collective value is within the content limit, reads back as exactly that value, shows its text as the question
  and, with the collective part removed, is its text alone.
\<close>

theorem collective_content_roundtrip:
  assumes "encodeCollectiveContent env v message = Some content"
  shows "readCollectiveValue env content = Inr (Some v) \<and> contentFits env content \<and>
    questionText content = (case message of None \<Rightarrow> [] | Some m \<Rightarrow> m) \<and>
    withoutCollectivePart content = (case message of None \<Rightarrow> [] | Some m \<Rightarrow> [TextPart m])"
  using assms
proof (cases rule: encodeCollectiveContent_cases)
  case 1
  then show ?thesis
    using read_encoded [OF assms]
    by (cases message) (simp_all add: collectivePartValue_def questionText_def withoutCollectivePart_def List.map_filter_simps)
qed

definition sampleTexts :: form_texts where
  "sampleTexts = \<lparr>ft_number = (\<lambda>n. intText (fst (quotient_of n))), ft_issues = (\<lambda>_ _. [])\<rparr>"

definition sampleCollective :: collective_environment where
  "sampleCollective = \<lparr>cv_client = sampleClient, cv_texts = sampleTexts, cv_canonicalize = (\<lambda>_. Some [])\<rparr>"

theorem collective_content_roundtrip_witness:
  "readCollectiveValue sampleCollective
     [TextPart ''hello'', DataPart (FObj [(COLLECTIVE_DATA_KEY, collectiveValueJson MulticastValue)])] = Inr (Some MulticastValue)"
proof -
  have "encodeCollectiveContent sampleCollective MulticastValue (Some ''hello'') =
      Some [TextPart ''hello'', DataPart (FObj [(COLLECTIVE_DATA_KEY, collectiveValueJson MulticastValue)])]"
    by (simp add: encodeCollectiveContent_def contentFits_def sampleCollective_def)
  from collective_content_roundtrip [OF this] show ?thesis by blast
qed

end
