(* ===== verification/Collective_Ledger.thy ===== *)
theory Collective_Ledger
  imports Collective_Operations Collective_Part_Facts
begin

text \<open>
  The ledger of an endpoint's own operations: how often an operation was opened, how often it ended in a
  result or a failure, and how often its spans were recorded, counted over the effects of a whole run.
\<close>

section \<open>Counting effects\<close>

definition tally :: "(collective_effect \<Rightarrow> bool) \<Rightarrow> collective_effect list \<Rightarrow> nat" where
  "tally p effects = length (filter p effects)"

lemma tally_simps [simp]:
  "tally p [] = 0"
  "tally p (e # es) = (if p e then 1 else 0) + tally p es"
  "tally p (es @ fs) = tally p es + tally p fs"
  by (simp_all add: tally_def)

definition startsOf :: "collective_id \<Rightarrow> collective_effect \<Rightarrow> bool" where
  "startsOf cid e = (case e of StartTimer c _ \<Rightarrow> c = cid | _ \<Rightarrow> False)"

text \<open>A result or failure of an operation this endpoint started; a member's result names the request it was asked by.\<close>

definition endsOf :: "collective_id \<Rightarrow> collective_effect \<Rightarrow> bool" where
  "endsOf cid e =
     (case e of
        Emit (ResultItem r) (Some provenance) _ \<Rightarrow> ri_id r = cid \<and> rp_request provenance = None
      | Emit (OperationFailedItem c _ _) _ _ \<Rightarrow> c = cid
      | _ \<Rightarrow> False)"

definition opensSpan :: "collective_id \<Rightarrow> collective_effect \<Rightarrow> bool" where
  "opensSpan cid e = (case e of OpenedSpan c _ _ \<Rightarrow> c = cid | _ \<Rightarrow> False)"

definition closesSpan :: "collective_id \<Rightarrow> collective_effect \<Rightarrow> bool" where
  "closesSpan cid e =
     (case e of
        ClosedSpan c _ \<Rightarrow> c = cid
      | Emit _ _ (Some (c, _)) \<Rightarrow> c = cid
      | _ \<Rightarrow> False)"

lemmas effect_defs = startsOf_def endsOf_def opensSpan_def closesSpan_def

definition isOpen :: "collective_id \<Rightarrow> collective_state \<Rightarrow> nat" where
  "isOpen cid st = (if jmGet (cs_gathers st) cid = None then 0 else 1)"

definition closingOf :: "collective_id \<Rightarrow> collective_state \<Rightarrow> nat" where
  "closingOf cid st = length (filter (\<lambda>c. cg_id c = cid) (cs_closing st))"

definition pendingSpan :: "collective_id \<Rightarrow> collective_state \<Rightarrow> nat" where
  "pendingSpan cid st =
     (if cid \<in> set (cs_announced st) then 1 else 0) +
     length (filter (\<lambda>c. cg_id c = cid \<and> cg_announced c) (cs_closing st))"

text \<open>A close in flight carries the result of the operation it ends, with the requester's provenance.\<close>

definition closingWf :: "collective_state \<Rightarrow> bool" where
  "closingWf st \<longleftrightarrow> list_all (\<lambda>c. ri_id (cg_result c) = cg_id c \<and> rp_request (cg_provenance c) = None) (cs_closing st)"

text \<open>
  What one step does to the ledger: the operations open or closing, and the ends, are no more than those before and
  the openings; and the spans opened are those closed and pending.
\<close>

definition balanced :: "collective_state \<Rightarrow> collective_state \<times> collective_effect list \<Rightarrow> bool" where
  "balanced st next \<longleftrightarrow> (case next of (st', effects) \<Rightarrow>
     closingWf st' \<and>
     (\<forall>cid. isOpen cid st' + closingOf cid st' + tally (endsOf cid) effects \<le> isOpen cid st + closingOf cid st + tally (startsOf cid) effects) \<and>
     (\<forall>cid. pendingSpan cid st' + tally (closesSpan cid) effects = pendingSpan cid st + tally (opensSpan cid) effects))"

lemma balanced_refl: "closingWf st \<Longrightarrow> balanced st (st, [])"
  by (simp add: balanced_def)

lemma balanced_trans:
  assumes "balanced st (st', es)" "balanced st' (st'', fs)"
  shows "balanced st (st'', es @ fs)"
  unfolding balanced_def prod.case
proof (intro conjI allI)
  show "closingWf st''" using assms(2) by (simp add: balanced_def)
next
  fix cid
  have "isOpen cid st' + closingOf cid st' + tally (endsOf cid) es \<le> isOpen cid st + closingOf cid st + tally (startsOf cid) es"
    "isOpen cid st'' + closingOf cid st'' + tally (endsOf cid) fs \<le> isOpen cid st' + closingOf cid st' + tally (startsOf cid) fs"
    using assms by (simp_all add: balanced_def)
  then show "isOpen cid st'' + closingOf cid st'' + tally (endsOf cid) (es @ fs) \<le>
      isOpen cid st + closingOf cid st + tally (startsOf cid) (es @ fs)" by simp
next
  fix cid
  have "pendingSpan cid st' + tally (closesSpan cid) es = pendingSpan cid st + tally (opensSpan cid) es"
    "pendingSpan cid st'' + tally (closesSpan cid) fs = pendingSpan cid st' + tally (opensSpan cid) fs"
    using assms by (simp_all add: balanced_def)
  then show "pendingSpan cid st'' + tally (closesSpan cid) (es @ fs) = pendingSpan cid st + tally (opensSpan cid) (es @ fs)" by simp
qed

text \<open>Steps that leave the endpoint's own operations alone and emit nothing of theirs.\<close>

definition foreign :: "collective_effect \<Rightarrow> bool" where
  "foreign e =
     (case e of
        Emit (ResultItem _) (Some provenance) None \<Rightarrow> rp_request provenance \<noteq> None
      | ConsumedWarning _ \<Rightarrow> True
      | _ \<Rightarrow> False)"

lemma tally_foreign:
  "list_all foreign es \<Longrightarrow> tally (startsOf cid) es = 0 \<and> tally (endsOf cid) es = 0 \<and> tally (opensSpan cid) es = 0 \<and> tally (closesSpan cid) es = 0"
proof (induction es)
  case (Cons e es)
  moreover have "foreign e \<Longrightarrow> \<not> startsOf cid e \<and> \<not> endsOf cid e \<and> \<not> opensSpan cid e \<and> \<not> closesSpan cid e"
    by (auto simp: foreign_def effect_defs split: collective_effect.splits inbound_item.splits option.splits)
  ultimately show ?case by simp
qed simp

definition sameOperations :: "collective_state \<Rightarrow> collective_state \<Rightarrow> bool" where
  "sameOperations st st' \<longleftrightarrow>
     cs_gathers st' = cs_gathers st \<and> cs_announced st' = cs_announced st \<and> cs_closing st' = cs_closing st \<and> cs_records st' = cs_records st"

lemma balanced_foreign:
  assumes "closingWf st" "sameOperations st st'" "list_all foreign es"
  shows "balanced st (st', es)"
  using assms tally_foreign [OF assms(3)]
  by (auto simp: balanced_def sameOperations_def closingWf_def isOpen_def closingOf_def pendingSpan_def)

section \<open>The handlers\<close>

lemma closeAllGather_balanced:
  assumes "closingWf st" "jmGet (cs_gathers st) cid = Some opened" "ri_id result = cid"
  shows "balanced st (closeAllGather ports
    (st\<lparr>cs_gathers := jmDelete cid (cs_gathers st), cs_announced := removeAll cid (cs_announced st)\<rparr>)
    asked records result (cid \<in> set (cs_announced st)))"
  using assms
  by (auto simp: closeAllGather_def balanced_def Let_def closingWf_def isOpen_def closingOf_def pendingSpan_def effect_defs
      jmGet_jmDelete countedProvenance_def split: option.splits)

lemma completeGather_balanced:
  assumes "closingWf st"
  shows "balanced st (completeGather ports st cid)"
proof (cases "jmGet (cs_gathers st) cid")
  case None
  then show ?thesis using assms by (simp add: completeGather_def balanced_refl)
next
  case (Some opened)
  show ?thesis
  proof (cases "gr_op (og_request opened)")
    case Gather
    with Some assms show ?thesis
      by (auto simp: completeGather_def balanced_def Let_def closingWf_def isOpen_def closingOf_def pendingSpan_def effect_defs
          jmGet_jmDelete countedProvenance_def)
  next
    case AllGather
    then show ?thesis
      using closeAllGather_balanced [OF assms Some] by (simp add: completeGather_def Some Let_def)
  qed
qed

text \<open>A change of an open operation keeps it open.\<close>

definition changedGather :: "collective_id \<Rightarrow> open_gather \<Rightarrow> gather_records \<Rightarrow> collective_state \<Rightarrow> collective_state" where
  "changedGather cid opened records st =
     st\<lparr>cs_gathers := jmSet cid opened (cs_gathers st), cs_records := jmSet cid records (cs_records st)\<rparr>"

lemma changedGather_balanced:
  "closingWf st \<Longrightarrow> jmGet (cs_gathers st) cid \<noteq> None \<Longrightarrow> balanced st (changedGather cid opened records st, [])"
  by (auto simp: balanced_def changedGather_def closingWf_def isOpen_def closingOf_def pendingSpan_def jmGet_jmSet)

lemma stopTimer_balanced: "balanced st (st', es) \<Longrightarrow> balanced st (st', es @ [StopTimer cid])"
  by (simp add: balanced_def effect_defs)

lemma updateGather_balanced:
  assumes "closingWf st"
  shows "balanced st (updateGather ports st cid change changeRecords)"
proof (cases "jmGet (cs_gathers st) cid")
  case None
  then show ?thesis using assms by (simp add: updateGather_def balanced_refl)
next
  case (Some opened)
  let ?st = "changedGather cid (change opened) (changeRecords (recordsOf st cid)) st"
  have changed: "balanced st (?st, [])" using assms Some by (simp add: changedGather_balanced)
  then have wf: "closingWf ?st" by (simp add: balanced_def)
  obtain st' es where completed: "completeGather ports ?st cid = (st', es)" by fastforce
  have "balanced ?st (st', es)" using completeGather_balanced [OF wf, of ports cid] completed by simp
  from balanced_trans [OF changed this] have "balanced st (st', es)" by simp
  then have "balanced st (st', es @ [StopTimer cid])" by (rule stopTimer_balanced)
  then show ?thesis
    using changed completed Some by (simp add: updateGather_def Let_def changedGather_def)
qed

lemma releaseGather_balanced: "closingWf st \<Longrightarrow> balanced st (releaseGather st cid)"
  by (auto simp: releaseGather_def balanced_def closingWf_def isOpen_def closingOf_def pendingSpan_def effect_defs jmGet_jmDelete)

lemma markRefused_balanced: "closingWf st \<Longrightarrow> balanced st (markRefused st cid)"
  by (auto simp: markRefused_def balanced_def closingWf_def isOpen_def closingOf_def pendingSpan_def effect_defs)

lemma balanced_wf: "balanced st (st', es) \<Longrightarrow> closingWf st'"
  by (simp add: balanced_def)

lemma forgetGather_balanced:
  assumes "closingWf st"
  shows "balanced st (forgetGather st cid)"
proof -
  obtain st' es where released: "releaseGather st cid = (st', es)" by fastforce
  have first: "balanced st (st', es)" using releaseGather_balanced [OF assms, of cid] released by simp
  obtain st'' fs where marked: "markRefused st' cid = (st'', fs)" by fastforce
  have "balanced st' (st'', fs)" using markRefused_balanced [OF balanced_wf [OF first], of cid] marked by simp
  with first show ?thesis unfolding forgetGather_def released marked prod.case by (rule balanced_trans)
qed

lemma openGather_balanced:
  assumes "closingWf st" "jmGet (cs_gathers st) (pg_id prepared) = None" "openGather st prepared settled now = Inr next"
  shows "balanced st next"
  using assms
  by (auto simp: openGather_def balanced_def Let_def closingWf_def isOpen_def closingOf_def pendingSpan_def effect_defs jmGet_jmSet
      split: if_splits)

lemma settleRequests_balanced:
  assumes "closingWf st" "settleRequests ports st prepared sends = (st', es, outcome)"
  shows "balanced st (st', es)"
  using assms forgetGather_balanced [OF assms(1), of "pg_id prepared"]
    updateGather_balanced [OF assms(1), of ports "pg_id prepared" "\<lambda>opened. opened\<lparr>og_requestsSettled := True\<rparr>" "\<lambda>records. records"]
  by (auto simp: settleRequests_def split: prod.splits if_splits)

lemma abandonGroupRequest_balanced:
  assumes "closingWf st" "abandonGroupRequest st prepared error = (st', es, problem)"
  shows "balanced st (st', es)"
  using assms forgetGather_balanced [OF assms(1), of "pg_id prepared"]
  by (auto simp: abandonGroupRequest_def split: prod.splits)

lemma settleGroupRequest_balanced:
  assumes "closingWf st" "settleGroupRequest st prepared outcome = (st', es, result)"
  shows "balanced st (st', es)"
  using assms
  by (auto simp: settleGroupRequest_def balanced_refl abandonGroupRequest_balanced split: sum.splits prod.splits if_splits)

lemma groupBindFailed_balanced:
  assumes "closingWf st"
  shows "balanced st (groupBindFailed st prepared problem)"
proof -
  obtain st' es where first: "(if jmGet (cs_gathers st) (pg_id prepared) \<noteq> None then (st, []) else markRefused st (pg_id prepared)) = (st', es)"
    by fastforce
  then have marked: "balanced st (st', es)"
    using assms markRefused_balanced [OF assms, of "pg_id prepared"] balanced_refl [OF assms] by (auto split: if_splits)
  show ?thesis
  proof (cases problem)
    case None
    then show ?thesis unfolding groupBindFailed_def first using marked by simp
  next
    case (Some error)
    obtain st'' fs kind where abandoned: "abandonGroupRequest st' prepared error = (st'', fs, kind)" by (metis prod_cases3)
    have "balanced st' (st'', fs)" by (rule abandonGroupRequest_balanced [OF balanced_wf [OF marked] abandoned])
    with marked show ?thesis unfolding groupBindFailed_def first using Some abandoned by (simp add: balanced_trans)
  qed
qed

lemma take_drop_filter:
  assumes "i < length xs"
  shows "length (filter p (take i xs @ drop (Suc i) xs)) + (if p (xs ! i) then 1 else 0) = length (filter p xs)"
proof -
  have "filter p xs = filter p (take i xs @ xs ! i # drop (Suc i) xs)" using assms by (simp only: id_take_nth_drop [symmetric])
  then show ?thesis by simp
qed

lemma closeSettled_balanced:
  assumes wf: "closingWf st"
  shows "balanced st (closeSettled st i problem)"
proof (cases "i < length (cs_closing st)")
  case False
  then show ?thesis using wf by (simp add: closeSettled_def balanced_refl)
next
  case True
  let ?c = "cs_closing st ! i"
  let ?rest = "take i (cs_closing st) @ drop (Suc i) (cs_closing st)"
  have own: "ri_id (cg_result ?c) = cg_id ?c" "rp_request (cg_provenance ?c) = None"
    using wf True by (auto simp: closingWf_def list_all_iff)
  have rest: "closingWf (st\<lparr>cs_closing := ?rest\<rparr>)"
    using wf by (auto simp: closingWf_def list_all_iff dest: in_set_takeD in_set_dropD)
  let ?st = "st\<lparr>cs_closing := ?rest\<rparr>"
  have closing: "closingOf cid ?st + (if cg_id ?c = cid then 1 else 0) = closingOf cid st" for cid
    using take_drop_filter [OF True, of "\<lambda>c. cg_id c = cid"] by (simp add: closingOf_def)
  have pending: "pendingSpan cid ?st + (if cg_id ?c = cid \<and> cg_announced ?c then 1 else 0) = pendingSpan cid st" for cid
    using take_drop_filter [OF True, of "\<lambda>c. cg_id c = cid \<and> cg_announced c"] by (simp add: pendingSpan_def)
  have opened: "isOpen cid ?st = isOpen cid st" for cid by (simp add: isOpen_def)
  have "balanced st (?st, [e])"
    if "\<And>cid. startsOf cid e = False" "\<And>cid. opensSpan cid e = False" "\<And>cid. endsOf cid e = (cg_id ?c = cid)"
      "\<And>cid. closesSpan cid e = (cg_id ?c = cid \<and> cg_announced ?c)" for e
    unfolding balanced_def prod.case
    using rest closing pending by (simp add: that opened)
  then show ?thesis
    using True own by (cases problem) (simp_all add: closeSettled_def Let_def effect_defs)
qed

section \<open>Answers, closes and requests\<close>

lemma sameOperations_setRequest [simp]: "sameOperations st (setRequest r request st)"
  by (simp add: sameOperations_def setRequest_def)

lemma sameOperations_trans: "sameOperations st st' \<Longrightarrow> sameOperations st' st'' \<Longrightarrow> sameOperations st st''"
  by (simp add: sameOperations_def)

lemma applyClose_foreign:
  assumes "applyClose ports st cid r shared close = (st', es)"
  shows "sameOperations st st' \<and> list_all foreign es"
  using assms by (auto simp: applyClose_def Let_def foreign_def split: prod.splits if_splits)

lemma settleAnswer_foreign:
  assumes "settleAnswer ports st cid r certified = (st', es)"
  shows "sameOperations st st' \<and> list_all foreign es"
proof -
  have claims: "sameOperations st (setRequest r request (st\<lparr>cs_claims := cl\<rparr>))" "sameOperations st (st\<lparr>cs_claims := cl\<rparr>)" for request cl
    by (simp_all add: sameOperations_def setRequest_def)
  show ?thesis
    using assms claims
    by (auto simp: settleAnswer_def Let_def split: option.splits if_splits
        dest!: applyClose_foreign intro: sameOperations_trans)
qed

lemma receiveClose_foreign:
  assumes "receiveClose ports st message cid included = (st', es)"
  shows "sameOperations st st' \<and> list_all foreign es"
  using assms
  by (auto simp: receiveClose_def Let_def foreign_def sameOperations_def split: option.splits prod.splits if_splits
      dest!: applyClose_foreign)

lemma requestItem_same: "requestItem ports st post op cid nonce deadlineAt schema now = (st', item) \<Longrightarrow> sameOperations st st'"
  by (auto simp: requestItem_def Let_def sameOperations_def forgetExpiredRequests_def split: option.splits if_splits)

lemma recordAnswer_balanced:
  assumes "closingWf st"
  shows "balanced st (recordAnswer ports st post cid response)"
proof (cases "jmGet (cs_gathers st) cid")
  case (Some opened)
  then show ?thesis
    using assms by (auto simp: recordAnswer_def recordCountedAnswer_def Let_def intro: balanced_refl updateGather_balanced)
next
  case None
  have "sameOperations st (recordPeerAnswer st r shared post response)" for r shared
    by (simp add: recordPeerAnswer_def Let_def sameOperations_def setRequest_def)
  then show ?thesis
    using assms None by (auto simp: recordAnswer_def balanced_refl intro: balanced_foreign split: option.splits prod.splits)
qed

lemma classify_balanced:
  assumes "closingWf st" "classify ports st post now = (st', es, item)"
  shows "balanced st (st', es)"
proof -
  have warn: "balanced st (st, [ConsumedWarning p])" for p
    using assms(1) by (intro balanced_foreign) (simp_all add: foreign_def sameOperations_def)
  show ?thesis
    using assms warn balanced_refl [OF assms(1)]
    by (auto simp: classify_def collectiveItem_def split: sum.splits option.splits collective_value.splits prod.splits
        dest!: requestItem_same receiveClose_foreign intro: balanced_foreign)
      (metis recordAnswer_balanced)
qed

lemma claimRequest_same: "claimRequest st cid r now = Inr st' \<Longrightarrow> sameOperations st st'"
  by (auto simp: claimRequest_def Let_def sameOperations_def setRequest_def split: sum.splits prod.splits if_splits)

lemma settleRequest_same: "sameOperations st (settleRequest st cid presented)"
  by (auto simp: settleRequest_def Let_def sameOperations_def setRequest_def split: option.splits)

lemma reopenRequest_same: "sameOperations st (reopenRequest st r)"
  by (simp add: reopenRequest_def Let_def sameOperations_def setRequest_def)

lemma same_balanced: "closingWf st \<Longrightarrow> sameOperations st st' \<Longrightarrow> balanced st (st', [])"
  by (simp add: balanced_foreign)

lemma performStep_balanced:
  assumes wf: "closingWf st"
  shows "balanced st (performStep ports st (event, now))"
proof (cases event)
  case (OpenStep prepared settled)
  then show ?thesis
    using wf by (auto simp: performStep_def intro: balanced_refl openGather_balanced split: sum.splits)
next
  case (RefusalStep cid member)
  then show ?thesis using updateGather_balanced [OF wf] by (simp add: performStep_def recordRefusal_def)
next
  case (SettleStep prepared sends)
  then show ?thesis using settleRequests_balanced [OF wf] by (auto simp: performStep_def split: prod.splits)
next
  case (GroupSettledStep prepared outcome)
  then show ?thesis using settleGroupRequest_balanced [OF wf] by (auto simp: performStep_def split: prod.splits)
next
  case (BindFailedStep prepared problem)
  then show ?thesis using groupBindFailed_balanced [OF wf] by (simp add: performStep_def)
next
  case (ReleaseStep cid)
  then show ?thesis using releaseGather_balanced [OF wf] by (simp add: performStep_def)
next
  case (DeadlineStep cid)
  then show ?thesis
    using wf completeGather_balanced [OF wf] by (auto simp: performStep_def deadlineReached_def balanced_refl split: option.splits)
next
  case (CloseSettledStep i problem)
  then show ?thesis using closeSettled_balanced [OF wf] by (simp add: performStep_def)
next
  case (ClassifyStep post)
  then show ?thesis using classify_balanced [OF wf] by (auto simp: performStep_def split: prod.splits)
next
  case (ClaimStep cid r)
  then show ?thesis
    using wf by (auto simp: performStep_def intro: balanced_refl same_balanced claimRequest_same split: sum.splits)
next
  case (ReopenStep r)
  then show ?thesis using wf by (auto simp: performStep_def intro: balanced_refl same_balanced reopenRequest_same)
next
  case (SettleAnswerStep cid r certified)
  obtain st' es where settled: "settleAnswer ports st cid r certified = (st', es)" by fastforce
  then have "balanced st (st', es)" using settleAnswer_foreign [OF settled] wf by (simp add: balanced_foreign)
  with SettleAnswerStep wf settled show ?thesis by (simp add: performStep_def balanced_refl)
next
  case (SettleRequestStep cid presented)
  then show ?thesis using wf by (simp add: performStep_def same_balanced settleRequest_same)
qed

lemma run_balanced: "closingWf st \<Longrightarrow> balanced st (runCollective ports st steps)"
proof (induction steps arbitrary: st)
  case Nil
  then show ?case by (simp add: balanced_refl)
next
  case (Cons step steps)
  obtain st' es where step: "performStep ports st step = (st', es)" by fastforce
  obtain st'' fs where later: "runCollective ports st' steps = (st'', fs)" by fastforce
  have first: "balanced st (st', es)" using performStep_balanced [OF Cons.prems, of ports "fst step" "snd step"] step by simp
  have "balanced st' (st'', fs)" using Cons.IH [OF balanced_wf [OF first]] later by simp
  with first show ?case by (simp add: step later balanced_trans)
qed

lemma empty_ledger: "closingWf emptyCollective" "isOpen cid emptyCollective = 0" "closingOf cid emptyCollective = 0" "pendingSpan cid emptyCollective = 0"
  by (simp_all add: closingWf_def isOpen_def closingOf_def pendingSpan_def emptyCollective_def jmGet_def)

section \<open>Operations end once\<close>

lemma operations_end_once_bound:
  "runCollective ports emptyCollective steps = (st, effects) \<Longrightarrow>
   tally (endsOf cid) effects + isOpen cid st + closingOf cid st \<le> tally (startsOf cid) effects"
  using run_balanced [OF empty_ledger(1), of ports steps] by (simp add: balanced_def empty_ledger ac_simps)

text \<open>
  C5: An operation ends at most once. Over any run of an endpoint, whatever the order of answers, refusals, deadlines,
  closes and abandonments, the results and failures an operation has emitted, with those it can still
  emit because it is open or its close is in flight, are no more than the times it was opened.
\<close>

theorem operations_end_once:
  "case runCollective ports emptyCollective steps of (st, effects) \<Rightarrow>
     tally (endsOf cid) effects + isOpen cid st + closingOf cid st \<le> tally (startsOf cid) effects"
  using operations_end_once_bound by (auto split: prod.splits)

text \<open>
  C34: Every operation whose opening was recorded is recorded as closed exactly once: the opened spans of an
  operation are its closed spans and the one it still owes, which it owes only while it is announced or its
  close is in flight.
\<close>

theorem spans_balanced:
  "case runCollective ports emptyCollective steps of (st, effects) \<Rightarrow>
     tally (opensSpan cid) effects = tally (closesSpan cid) effects + pendingSpan cid st"
proof -
  obtain st effects where ran: "runCollective ports emptyCollective steps = (st, effects)" by fastforce
  then have "pendingSpan cid st + tally (closesSpan cid) effects = tally (opensSpan cid) effects"
    using run_balanced [OF empty_ledger(1), of ports steps] by (simp add: balanced_def empty_ledger)
  then show ?thesis by (simp add: ran)
qed

text \<open>
  C35: A refused gather has no result. When a gather's send ends in a refusal, having been opened once, no later step
  emits a result or a failure for it unless it is opened again.
\<close>

theorem refused_gather_has_no_result:
  assumes "runCollective ports emptyCollective steps = (st, effects)" "tally (startsOf (pg_id prepared)) effects \<le> 1"
    and "settleRequests ports st prepared sends = (st', refusing, Inl problem)"
    and "runCollective ports st' more_steps = (st'', later)" "tally (startsOf (pg_id prepared)) later = 0"
  shows "tally (endsOf (pg_id prepared)) (effects @ refusing @ later) = 0"
proof -
  let ?cid = "pg_id prepared"
  have before: "closingWf st" "tally (endsOf ?cid) effects + isOpen ?cid st + closingOf ?cid st \<le> 1"
    using run_balanced [OF empty_ledger(1), of ports steps] assms(1)
      operations_end_once_bound [OF assms(1), of ?cid] assms(2) by (simp_all add: balanced_def)
  have opened: "isOpen ?cid st = 1" and forgot: "(st', refusing) = forgetGather st ?cid"
    using assms(3) by (auto simp: settleRequests_def isOpen_def split: prod.splits if_splits)
  then have none: "tally (endsOf ?cid) effects = 0" "closingOf ?cid st = 0" using before(2) by simp_all
  have left: "isOpen ?cid st' = 0" "closingOf ?cid st' = 0" "tally (endsOf ?cid) refusing = 0"
    using forgot none
    by (auto simp: forgetGather_def releaseGather_def markRefused_def isOpen_def closingOf_def jmGet_jmDelete effect_defs
        split: prod.splits if_splits)
  have "closingWf st'" using forgetGather_balanced [OF before(1), of ?cid] forgot by (metis balanced_wf)
  from run_balanced [OF this, of ports more_steps] have "tally (endsOf ?cid) later \<le> tally (startsOf ?cid) later"
    unfolding assms(4) balanced_def prod.case using left
    by (metis (no_types, lifting) add.right_neutral add_0 add_leD2)
  then show ?thesis using none left assms(5) by simp
qed

definition sampleGather :: prepared_gather where
  "sampleGather = \<lparr>pg_id = ''col'',
     pg_open = \<lparr>gr_op = Gather, gr_to = ''agent:bob'', gr_question = ''Which day?'', gr_members = [''agent:bob''],
       gr_schema = \<lparr>sch_dialect = None, sch_properties = [], sch_required = None\<rparr>\<rparr>,
     pg_content = [], pg_deadlineAt = 60000, pg_waitUntil = 20000\<rparr>"

definition sampleRefusal :: request_refusal where
  "sampleRefusal = postRefusal ''agent:bob'' (sendError NetworkUnavailable)"

definition sampleOpened :: collective_state where
  "sampleOpened = emptyCollective\<lparr>cs_gathers := [(''col'', \<lparr>og_request = pg_open sampleGather, og_timer = 60000,
     og_requestsSettled = False\<rparr>)], cs_announced := [''col'']\<rparr>"

theorem refused_gather_has_no_result_witness:
  "tally (endsOf (pg_id sampleGather)) ([StartTimer ''col'' 60000, OpenedSpan ''col'' Gather 60000] @
     [StopTimer ''col'', ClosedSpan ''col'' ClosedRefused] @ []) = 0"
proof (rule refused_gather_has_no_result)
  let ?ports = "\<lparr>po_env = sampleCollective, po_self = ''agent:ann'', po_admission = False\<rparr>"
  show "runCollective ?ports emptyCollective [(OpenStep sampleGather False, 0)] =
      (sampleOpened, [StartTimer ''col'' 60000, OpenedSpan ''col'' Gather 60000])"
    by (simp add: performStep_def openGather_def emptyCollective_def jmGet_def sampleOpened_def sampleGather_def)
  show "tally (startsOf (pg_id sampleGather)) [StartTimer ''col'' 60000, OpenedSpan ''col'' Gather 60000] \<le> 1"
    by (simp add: startsOf_def)
  show "settleRequests ?ports sampleOpened sampleGather [RequestRefused sampleRefusal] =
      (emptyCollective, [StopTimer ''col'', ClosedSpan ''col'' ClosedRefused], Inl (MembersUnreachable [sampleRefusal]))"
    by (simp add: settleRequests_def requestsSoFar_def List.map_filter_simps forgetGather_def releaseGather_def markRefused_def
        jmGet_def jmDelete_def sampleOpened_def sampleGather_def emptyCollective_def)
  show "runCollective ?ports emptyCollective [] = (emptyCollective, [])" by simp
  show "tally (startsOf (pg_id sampleGather)) [] = 0" by simp
qed

end
