(* ===== verification/Collective_Members.thy ===== *)
theory Collective_Members
  imports Collective_Ledger
begin

text \<open>
  A member endpoint's requests: the invariant of the request store and of the answers in flight, that a certified
  answer is a request's last, and that classifying a post again changes nothing.
\<close>

section \<open>The invariant\<close>

definition stateAt :: "collective_state \<Rightarrow> nat \<Rightarrow> request_state" where
  "stateAt st r = rq_state (cs_store st ! r)"

definition requestsWf :: "collective_state \<Rightarrow> bool" where
  "requestsWf st \<longleftrightarrow> jmWf (cs_requests st) \<and> distinct (map snd (cs_requests st)) \<and>
     (\<forall>r\<in>snd ` set (cs_requests st). r < length (cs_store st))"

definition claimsWf :: "collective_state \<Rightarrow> bool" where
  "claimsWf st \<longleftrightarrow> distinct (cs_claims st) \<and>
     (\<forall>r\<in>set (cs_claims st). r < length (cs_store st) \<and> stateAt st r \<in> {RSending, RClosed}) \<and>
     (\<forall>r<length (cs_store st). stateAt st r = RSending \<longrightarrow> r \<in> set (cs_claims st))"

text \<open>A request that took its answer or was closed takes no other.\<close>

definition settledAt :: "nat \<Rightarrow> collective_state \<Rightarrow> bool" where
  "settledAt r st \<longleftrightarrow> r < length (cs_store st) \<and> r \<notin> set (cs_claims st) \<and> stateAt st r \<in> {RAnswered, RClosed}"

definition sameRequests :: "collective_state \<Rightarrow> collective_state \<Rightarrow> bool" where
  "sameRequests st st' \<longleftrightarrow> cs_requests st' = cs_requests st \<and> cs_store st' = cs_store st \<and> cs_claims st' = cs_claims st"

text \<open>What every step keeps: the invariant, and every request that is settled.\<close>

definition keepsRequests :: "collective_state \<Rightarrow> collective_state \<Rightarrow> bool" where
  "keepsRequests st st' \<longleftrightarrow> requestsWf st' \<and> claimsWf st' \<and> (\<forall>r. settledAt r st \<longrightarrow> settledAt r st')"

lemma keepsRequests_same:
  "requestsWf st \<Longrightarrow> claimsWf st \<Longrightarrow> sameRequests st st' \<Longrightarrow> keepsRequests st st'"
  by (simp add: keepsRequests_def sameRequests_def requestsWf_def claimsWf_def settledAt_def stateAt_def)

lemma keepsRequests_trans: "keepsRequests st st' \<Longrightarrow> keepsRequests st' st'' \<Longrightarrow> keepsRequests st st''"
  by (simp add: keepsRequests_def)

lemma sameRequests_trans: "sameRequests st st' \<Longrightarrow> sameRequests st' st'' \<Longrightarrow> sameRequests st st''"
  by (simp add: sameRequests_def)

section \<open>The endpoint's own operations\<close>

lemma completeGather_same: "completeGather ports st cid = (st', es) \<Longrightarrow> sameRequests st st'"
  by (auto simp: completeGather_def closeAllGather_def Let_def sameRequests_def split: option.splits gather_op.splits)

lemma updateGather_same: "updateGather ports st cid change changeRecords = (st', es) \<Longrightarrow> sameRequests st st'"
  by (auto simp: updateGather_def Let_def sameRequests_def dest!: completeGather_same split: option.splits if_splits prod.splits)

lemma forgetGather_same: "forgetGather st cid = (st', es) \<Longrightarrow> sameRequests st st'"
  by (auto simp: forgetGather_def releaseGather_def markRefused_def sameRequests_def split: if_splits)

lemma settleRequests_same: "settleRequests ports st prepared sends = (st', es, result) \<Longrightarrow> sameRequests st st'"
  by (auto simp: settleRequests_def dest!: forgetGather_same updateGather_same split: prod.splits if_splits)

lemma settleGroupRequest_same: "settleGroupRequest st prepared result = (st', es, answer) \<Longrightarrow> sameRequests st st'"
  by (auto simp: settleGroupRequest_def abandonGroupRequest_def sameRequests_def dest!: forgetGather_same
      split: prod.splits sum.splits if_splits)

lemma groupBindFailed_same: "groupBindFailed st prepared problem = (st', es) \<Longrightarrow> sameRequests st st'"
  by (auto simp: groupBindFailed_def abandonGroupRequest_def markRefused_def sameRequests_def dest!: forgetGather_same
      split: prod.splits option.splits if_splits)

section \<open>One request\<close>

lemma keepsRequests_set:
  assumes "requestsWf st" "claimsWf st" "r < length (cs_store st)"
    and "set cl \<subseteq> insert r (set (cs_claims st))" "set (cs_claims st) \<subseteq> insert r (set cl)" "distinct cl"
    and "rq_state request = RSending \<longrightarrow> r \<in> set cl" "r \<in> set cl \<longrightarrow> rq_state request \<in> {RSending, RClosed}"
    and "settledAt r st \<longrightarrow> rq_state request \<in> {RAnswered, RClosed} \<and> r \<notin> set cl"
  shows "keepsRequests st ((setRequest r request st)\<lparr>cs_claims := cl\<rparr>)"
proof -
  let ?st = "(setRequest r request st)\<lparr>cs_claims := cl\<rparr>"
  have len: "length (cs_store ?st) = length (cs_store st)" by (simp add: setRequest_def)
  have at_r: "stateAt ?st r = rq_state request" using assms(3) by (simp add: stateAt_def setRequest_def)
  have at_other: "stateAt ?st i = stateAt st i" if "i \<noteq> r" for i using that by (simp add: stateAt_def setRequest_def)
  have "requestsWf ?st" using assms(1) by (simp add: requestsWf_def setRequest_def)
  moreover have "claimsWf ?st"
    unfolding claimsWf_def
  proof (intro conjI ballI allI impI)
    show "distinct (cs_claims ?st)" using assms(6) by simp
  next
    fix i assume "i \<in> set (cs_claims ?st)"
    then show "i < length (cs_store ?st)" "stateAt ?st i \<in> {RSending, RClosed}"
      using assms len at_r at_other [of i] by (cases "i = r"; auto simp: claimsWf_def)+
  next
    fix i assume "i < length (cs_store ?st)" "stateAt ?st i = RSending"
    then show "i \<in> set (cs_claims ?st)"
      using assms len at_r at_other [of i] by (cases "i = r") (auto simp: claimsWf_def)
  qed
  moreover have "settledAt i ?st" if settled: "settledAt i st" for i
  proof (cases "i = r")
    case True
    then show ?thesis using settled assms(3,9) len at_r by (simp add: settledAt_def)
  next
    case False
    then show ?thesis using settled assms(4) len at_other [of i] by (auto simp: settledAt_def)
  qed
  ultimately show ?thesis by (simp add: keepsRequests_def)
qed

lemma setRequest_claims: "setRequest r request st = (setRequest r request st)\<lparr>cs_claims := cs_claims st\<rparr>"
  by (simp add: setRequest_def)

text \<open>A change that keeps a request's state, or closes it, keeps the invariant.\<close>

lemma keepsRequests_change:
  assumes "requestsWf st" "claimsWf st" "r < length (cs_store st)"
    and "rq_state request = stateAt st r \<or> rq_state request = RClosed"
  shows "keepsRequests st (setRequest r request st)"
  by (subst setRequest_claims, rule keepsRequests_set) (use assms in \<open>auto simp: claimsWf_def settledAt_def\<close>)

lemma applyClose_keeps:
  assumes "requestsWf st" "claimsWf st" "r < length (cs_store st)" "applyClose ports st cid r shared close = (st', es)"
  shows "keepsRequests st st'"
  using assms
  by (auto simp: applyClose_def Let_def stateAt_def intro!: keepsRequests_change split: prod.splits if_splits)

lemma request_ref: "requestsWf st \<Longrightarrow> jmGet (cs_requests st) cid = Some r \<Longrightarrow> r < length (cs_store st)"
  by (auto simp: requestsWf_def jmGet_def dest!: map_of_SomeD)

lemma receiveClose_keeps:
  assumes "requestsWf st" "claimsWf st" "receiveClose ports st message cid included = (st', es)"
  shows "keepsRequests st st'"
proof -
  have same: "keepsRequests st st" using assms(1,2) by (simp add: keepsRequests_def)
  show ?thesis
    using assms same
    by (auto simp: receiveClose_def Let_def bind_eq_Some_conv split: option.splits prod.splits if_splits
        intro: applyClose_keeps request_ref)
qed

lemma recordPeerAnswer_keeps:
  assumes "requestsWf st" "claimsWf st" "r < length (cs_store st)"
  shows "keepsRequests st (recordPeerAnswer st r shared post response)"
  using assms keepsRequests_same [OF assms(1,2)]
  by (auto simp: recordPeerAnswer_def Let_def stateAt_def sameRequests_def intro!: keepsRequests_change)

lemma recordAnswer_keeps:
  assumes "requestsWf st" "claimsWf st" "recordAnswer ports st post cid response = (st', es)"
  shows "keepsRequests st st'"
proof (cases "jmGet (cs_gathers st) cid")
  case (Some opened)
  with assms show ?thesis
    by (auto simp: recordAnswer_def recordCountedAnswer_def Let_def sameRequests_def
        intro!: keepsRequests_same dest!: updateGather_same split: if_splits)
next
  case None
  with assms keepsRequests_same [OF assms(1,2), of st] show ?thesis
    by (auto simp: recordAnswer_def sameRequests_def bind_eq_Some_conv split: option.splits prod.splits
        intro: recordPeerAnswer_keeps request_ref)
qed

text \<open>A received request becomes a new object of the store.\<close>

lemma receivedRequest_state:
  "receivedRequest env post op cid nonce deadlineAt schema now initial = Some request \<Longrightarrow> rq_state request = initial"
  by (auto simp: receivedRequest_def Let_def split: if_splits gather_op.splits option.splits list.splits)

lemma jmSet_snd: "jmGet m k = None \<Longrightarrow> map snd (jmSet k v m) = map snd m @ [v]"
  by (induction k v m rule: jmSet.induct) (auto simp: jmGet_def split: if_splits)

lemma requestsWf_forget: "requestsWf st \<Longrightarrow> requestsWf (forgetExpiredRequests st now)"
  by (auto simp: requestsWf_def forgetExpiredRequests_def jmWf_def distinct_map_filter)

text \<open>The store after a request was added, and what the map then holds.\<close>

lemma requestsWf_add:
  assumes "requestsWf st" "jmGet (cs_requests st) cid = None"
  shows "requestsWf ((forgetExpiredRequests st now)\<lparr>
    cs_requests := jmSet cid (length (cs_store (forgetExpiredRequests st now))) (cs_requests (forgetExpiredRequests st now)),
    cs_store := cs_store (forgetExpiredRequests st now) @ [received]\<rparr>)"
proof -
  let ?kept = "forgetExpiredRequests st now"
  have "jmGet (cs_requests ?kept) cid = None"
    using assms(2) by (auto simp: forgetExpiredRequests_def jmGet_def map_of_eq_None_iff)
  from jmSet_snd [OF this] requestsWf_forget [OF assms(1), of now] show ?thesis
    by (auto simp: requestsWf_def jmWf_jmSet less_Suc_eq simp flip: set_map)
qed

lemma requestItem_keeps:
  assumes "requestsWf st" "claimsWf st" "requestItem ports st post op cid nonce deadlineAt schema now = (st', item)"
  shows "keepsRequests st st'"
proof -
  have same: "keepsRequests st st" using assms(1,2) by (simp add: keepsRequests_def)
  let ?kept = "forgetExpiredRequests st now"
  have add: "keepsRequests st (?kept\<lparr>cs_requests := jmSet cid (length (cs_store ?kept)) (cs_requests ?kept),
      cs_store := cs_store ?kept @ [received]\<rparr>)"
    if "jmGet (cs_requests st) cid = None" "rq_state received \<noteq> RSending" for received
  proof -
    have store: "cs_store ?kept = cs_store st" "cs_claims ?kept = cs_claims st" by (simp_all add: forgetExpiredRequests_def)
    have "requestsWf (?kept\<lparr>cs_requests := jmSet cid (length (cs_store ?kept)) (cs_requests ?kept), cs_store := cs_store ?kept @ [received]\<rparr>)"
      by (rule requestsWf_add [OF assms(1) that(1)])
    moreover have "claimsWf (?kept\<lparr>cs_requests := jmSet cid (length (cs_store ?kept)) (cs_requests ?kept), cs_store := cs_store ?kept @ [received]\<rparr>)"
      using assms(2) that(2) by (auto simp: claimsWf_def store stateAt_def nth_append less_Suc_eq)
    ultimately show ?thesis by (auto simp: keepsRequests_def settledAt_def store stateAt_def nth_append)
  qed
  show ?thesis
    using assms(3) same add
    by (auto simp: requestItem_def Let_def split: option.splits if_splits dest!: receivedRequest_state)
qed

lemma classify_keeps:
  assumes "requestsWf st" "claimsWf st" "classify ports st post now = (st', es, item)"
  shows "keepsRequests st st'"
proof -
  have same: "keepsRequests st st" using assms(1,2) by (simp add: keepsRequests_def)
  show ?thesis
    using assms same
    by (auto simp: classify_def collectiveItem_def split: sum.splits option.splits collective_value.splits prod.splits
        intro: requestItem_keeps recordAnswer_keeps receiveClose_keeps)
qed

section \<open>Answers in flight\<close>

text \<open>A matched request is the one open request of its conversation, before its deadline.\<close>

lemma matchOpenRequest_Inr:
  assumes "matchOpenRequest requests conversation now = Inr (cid, request)"
  shows "(cid, request) \<in> set requests" "rq_to request = conversation" "rq_state request = ROpen" "now < rq_deadlineAt request"
proof -
  let ?asked = "filter (\<lambda>(_, request). rq_to request = conversation \<and> requestShown (rq_state request)) requests"
  let ?available = "filter (\<lambda>(_, request). requestUnavailable request now = None) ?asked"
  have "?available = [(cid, request)]"
    using assms by (auto simp: matchOpenRequest_def Let_def split: list.splits if_splits)
  then have mem: "(cid, request) \<in> set ?available" by simp
  then show "(cid, request) \<in> set requests" "rq_to request = conversation" by auto
  have "requestUnavailable request now = None" using mem by auto
  then show "rq_state request = ROpen" "now < rq_deadlineAt request"
    by (auto simp: requestUnavailable_def split: request_state.splits if_splits)
qed

lemma heldRequests_unique:
  assumes "requestsWf st" "(cid, request) \<in> set (heldRequests st)" "jmGet (cs_requests st) cid = Some r"
  shows "request = cs_store st ! r"
proof -
  obtain r' where "(cid, r') \<in> set (cs_requests st)" "request = cs_store st ! r'"
    using assms(2) by (auto simp: heldRequests_def)
  moreover have "r' = r" using assms(1,3) calculation(1) by (auto simp: requestsWf_def jmWf_def jmGet_def dest: map_of_is_SomeI)
  ultimately show ?thesis by simp
qed

lemma claimRequest_cases:
  assumes "requestsWf st" "jmGet (cs_requests st) cid = Some r" "claimRequest st cid r now = Inr st'"
  shows "stateAt st r = ROpen" "now < rq_deadlineAt (cs_store st ! r)"
    "st' = (setRequest r ((cs_store st ! r)\<lparr>rq_state := RSending\<rparr>) st)\<lparr>cs_claims := r # cs_claims st\<rparr>"
proof -
  obtain request where matched: "matchOpenRequest (heldRequests st) (rq_to (cs_store st ! r)) now = Inr (cid, request)"
    and st': "st' = (setRequest r ((cs_store st ! r)\<lparr>rq_state := RSending\<rparr>) st)\<lparr>cs_claims := r # cs_claims st\<rparr>"
    using assms(3) by (auto simp: claimRequest_def Let_def split: sum.splits prod.splits if_splits)
  have "request = cs_store st ! r" using heldRequests_unique [OF assms(1) matchOpenRequest_Inr(1) [OF matched] assms(2)] .
  then show "stateAt st r = ROpen" "now < rq_deadlineAt (cs_store st ! r)"
    using matchOpenRequest_Inr(3,4) [OF matched] by (simp_all add: stateAt_def)
  show "st' = (setRequest r ((cs_store st ! r)\<lparr>rq_state := RSending\<rparr>) st)\<lparr>cs_claims := r # cs_claims st\<rparr>" by (rule st')
qed

lemma claimRequest_keeps:
  assumes "requestsWf st" "claimsWf st" "jmGet (cs_requests st) cid = Some r" "claimRequest st cid r now = Inr st'"
  shows "keepsRequests st st'"
proof -
  note opened = claimRequest_cases [OF assms(1,3,4)]
  have r: "r < length (cs_store st)" by (rule request_ref [OF assms(1,3)])
  have "r \<notin> set (cs_claims st)" using assms(2) opened(1) by (auto simp: claimsWf_def)
  then show ?thesis
    unfolding opened(3) using assms(1,2) r opened(1)
    by (intro keepsRequests_set) (auto simp: claimsWf_def settledAt_def)
qed

lemma remove1_distinct: "distinct xs \<Longrightarrow> set (remove1 x xs) = set xs - {x}"
  by (rule set_remove1_eq)

lemma release_claim_keeps:
  assumes "requestsWf st" "claimsWf st" "r \<in> set (cs_claims st)" "rq_state request \<noteq> RSending"
  shows "keepsRequests st ((setRequest r request st)\<lparr>cs_claims := remove1 r (cs_claims st)\<rparr>)"
  using assms by (intro keepsRequests_set) (auto simp: claimsWf_def settledAt_def remove1_distinct)

lemma reopenRequest_eq:
  "r < length (cs_store st) \<Longrightarrow> reopenRequest st r = (setRequest r ((cs_store st ! r)\<lparr>rq_state :=
     (if stateAt st r = RSending then ROpen else stateAt st r)\<rparr>) st)\<lparr>cs_claims := remove1 r (cs_claims st)\<rparr>"
  by (auto simp: reopenRequest_def Let_def stateAt_def setRequest_def)

lemma reopenRequest_keeps:
  assumes "requestsWf st" "claimsWf st" "r \<in> set (cs_claims st)"
  shows "keepsRequests st (reopenRequest st r)"
proof -
  have "r < length (cs_store st)" using assms by (auto simp: claimsWf_def)
  then show ?thesis unfolding reopenRequest_eq [OF \<open>r < length (cs_store st)\<close>] using assms by (intro release_claim_keeps) auto
qed

text \<open>
  Settling an answer takes the request out of flight, answered, reopened or closed; what it then does with a
  held close starts from that state.
\<close>

lemma settleAnswer_keeps:
  assumes wf: "requestsWf st" "claimsWf st" and r: "r \<in> set (cs_claims st)"
    and settle: "settleAnswer ports st cid r certified = (st', es)"
  shows "keepsRequests st st'" "certified \<noteq> None \<Longrightarrow> settledAt r st'"
proof -
  have len: "r < length (cs_store st)" and state: "stateAt st r \<in> {RSending, RClosed}" using wf(2) r by (auto simp: claimsWf_def)
  let ?claims = "remove1 r (cs_claims st)"
  have out: "r \<notin> set ?claims" using wf(2) by (simp add: claimsWf_def remove1_distinct)
  have "keepsRequests st st' \<and> (certified \<noteq> None \<longrightarrow> settledAt r st')"
  proof (cases "stateAt st r = RClosed")
    case True
    then have st': "st' = (setRequest r (cs_store st ! r) st)\<lparr>cs_claims := ?claims\<rparr>"
      using settle by (simp add: settleAnswer_def Let_def stateAt_def setRequest_def)
    have "keepsRequests st st'" unfolding st' using wf r True by (intro release_claim_keeps) (auto simp: stateAt_def)
    moreover have "settledAt r st'" using True len out by (simp add: st' settledAt_def stateAt_def setRequest_def)
    ultimately show ?thesis by simp
  next
    case False
    define target where "target = (if certified \<noteq> None then RAnswered else ROpen)"
    have mid: "keepsRequests st ((setRequest r request st)\<lparr>cs_claims := ?claims\<rparr>)" if "rq_state request = target" for request
      using wf r that by (intro release_claim_keeps) (auto simp: target_def)
    have settled: "settledAt r ((setRequest r request st)\<lparr>cs_claims := ?claims\<rparr>)"
      if "rq_state request = target" "certified \<noteq> None" for request
      using len out that by (simp add: settledAt_def stateAt_def setRequest_def target_def)
    have swap: "setRequest r request (st\<lparr>cs_claims := cl\<rparr>) = (setRequest r request st)\<lparr>cs_claims := cl\<rparr>" for request cl
      by (simp add: setRequest_def)
    have closing: "keepsRequests st st' \<and> (certified \<noteq> None \<longrightarrow> settledAt r st')"
      if "applyClose ports ((setRequest r request st)\<lparr>cs_claims := ?claims\<rparr>) cid r shared held = (st', es)" "rq_state request = target"
      for request shared held
    proof -
      have "keepsRequests ((setRequest r request st)\<lparr>cs_claims := ?claims\<rparr>) st'"
        using mid [OF that(2)] that(1) len by (intro applyClose_keeps) (auto simp: keepsRequests_def setRequest_def)
      then show ?thesis
        using mid [OF that(2)] settled [OF that(2)] by (auto simp: keepsRequests_def)
    qed
    show ?thesis
    proof (cases "rq_shared (cs_store st ! r)")
      case None
      then have "st' = (setRequest r ((cs_store st ! r)\<lparr>rq_state := target\<rparr>) st)\<lparr>cs_claims := ?claims\<rparr>"
        using settle False unfolding settleAnswer_def Let_def stateAt_def swap target_def by simp
      then show ?thesis using mid settled by simp
    next
      case (Some shared)
      let ?answers = "case certified of Some answer \<Rightarrow> jmSet (po_self ports) answer (sa_answers shared) | None \<Rightarrow> sa_answers shared"
      let ?shared = "shared\<lparr>sa_answers := ?answers, sa_heldClose := None\<rparr>"
      let ?st = "(setRequest r ((cs_store st ! r)\<lparr>rq_state := target, rq_shared := Some ?shared\<rparr>) st)\<lparr>cs_claims := ?claims\<rparr>"
      have result: "(case sa_heldClose shared of None \<Rightarrow> (?st, []) | Some held \<Rightarrow> applyClose ports ?st cid r ?shared held) = (st', es)"
        using settle False Some unfolding settleAnswer_def Let_def stateAt_def swap target_def by simp
      show ?thesis
      proof (cases "sa_heldClose shared")
        case None
        with result have "st' = ?st" by simp
        then show ?thesis using mid settled by simp
      next
        case (Some held)
        with result have "applyClose ports ?st cid r ?shared held = (st', es)" by simp
        then show ?thesis by (rule closing) simp
      qed
    qed
  qed
  then show "keepsRequests st st'" "certified \<noteq> None \<Longrightarrow> settledAt r st'" by simp_all
qed

lemma settleRequest_keeps:
  assumes "requestsWf st" "claimsWf st"
  shows "keepsRequests st (settleRequest st cid presented)"
proof (cases "jmGet (cs_requests st) cid")
  case None
  then show ?thesis using assms by (simp add: settleRequest_def keepsRequests_def)
next
  case (Some r)
  have r: "r < length (cs_store st)" by (rule request_ref [OF assms(1) Some])
  show ?thesis
  proof (cases "stateAt st r = RUnadmitted")
    case True
    then have "r \<notin> set (cs_claims st)" using assms(2) by (auto simp: claimsWf_def)
    then have "keepsRequests st ((setRequest r ((cs_store st ! r)\<lparr>rq_state := (if presented then ROpen else RWithheld)\<rparr>) st)
        \<lparr>cs_claims := cs_claims st\<rparr>)"
      using assms r True by (intro keepsRequests_set) (auto simp: claimsWf_def settledAt_def)
    then show ?thesis using Some True by (simp add: settleRequest_def Let_def stateAt_def setRequest_def)
  next
    case False
    then show ?thesis using assms Some by (simp add: settleRequest_def Let_def stateAt_def keepsRequests_def)
  qed
qed

section \<open>Runs\<close>

text \<open>
  What the map holds under the identifier of a claim, if anything, is the request the answer matched. A requester that
  sends a second request under an expired identifier can break this.
\<close>

definition namesHeld :: "collective_state \<Rightarrow> collective_event \<Rightarrow> bool" where
  "namesHeld st event \<longleftrightarrow>
     (case event of ClaimStep cid r \<Rightarrow> (case jmGet (cs_requests st) cid of None \<Rightarrow> True | Some held \<Rightarrow> held = r) | _ \<Rightarrow> True)"

fun claimsCurrent :: "collective_ports \<Rightarrow> collective_state \<Rightarrow> (collective_event \<times> int) list \<Rightarrow> bool" where
  "claimsCurrent ports st [] = True"
| "claimsCurrent ports st (step # steps) =
     (namesHeld st (fst step) \<and> claimsCurrent ports (fst (performStep ports st step)) steps)"

lemma claimRequest_held: "claimRequest st cid r now = Inr st' \<Longrightarrow> jmGet (cs_requests st) cid \<noteq> None"
proof -
  assume "claimRequest st cid r now = Inr st'"
  then obtain request where "matchOpenRequest (heldRequests st) (rq_to (cs_store st ! r)) now = Inr (cid, request)"
    by (auto simp: claimRequest_def Let_def split: sum.splits prod.splits if_splits)
  from matchOpenRequest_Inr(1) [OF this] have "cid \<in> fst ` set (cs_requests st)" by (force simp: heldRequests_def)
  then show "jmGet (cs_requests st) cid \<noteq> None" by (simp add: jmGet_def map_of_eq_None_iff)
qed

lemma claimStep_keeps:
  assumes "requestsWf st" "claimsWf st" "namesHeld st (ClaimStep cid r)" "claimRequest st cid r now = Inr st'"
  shows "keepsRequests st st'"
proof -
  have "jmGet (cs_requests st) cid = Some r"
    using assms(3) claimRequest_held [OF assms(4)] by (auto simp: namesHeld_def)
  from claimRequest_keeps [OF assms(1,2) this assms(4)] show ?thesis .
qed

lemma performStep_keeps:
  assumes wf: "requestsWf st" "claimsWf st" and current: "namesHeld st event" and step: "performStep ports st (event, now) = (st', es)"
  shows "keepsRequests st st'"
proof -
  note same = keepsRequests_same [OF wf]
  have id: "keepsRequests st st" using wf by (simp add: keepsRequests_def)
  show ?thesis
  proof (cases event)
    case (OpenStep prepared settled)
    then show ?thesis
      using step id by (auto simp: performStep_def openGather_def Let_def sameRequests_def intro!: same split: sum.splits if_splits)
  next
    case (RefusalStep cid member)
    then show ?thesis using step by (auto simp: performStep_def recordRefusal_def intro!: same dest: updateGather_same)
  next
    case (SettleStep prepared sends)
    then show ?thesis using step by (auto simp: performStep_def intro!: same dest: settleRequests_same split: prod.splits)
  next
    case (GroupSettledStep prepared result)
    then show ?thesis using step by (auto simp: performStep_def intro!: same dest: settleGroupRequest_same split: prod.splits)
  next
    case (BindFailedStep prepared problem)
    then show ?thesis using step by (auto simp: performStep_def intro!: same dest: groupBindFailed_same)
  next
    case (ReleaseStep cid)
    then show ?thesis using step by (auto simp: performStep_def releaseGather_def sameRequests_def intro!: same)
  next
    case (DeadlineStep cid)
    then show ?thesis
      using step id by (auto simp: performStep_def deadlineReached_def intro!: same dest: completeGather_same split: option.splits if_splits)
  next
    case (CloseSettledStep i problem)
    then show ?thesis
      using step id by (auto simp: performStep_def closeSettled_def Let_def sameRequests_def intro!: same split: option.splits if_splits)
  next
    case (ClassifyStep post)
    then show ?thesis using step wf by (auto simp: performStep_def intro: classify_keeps split: prod.splits)
  next
    case (ClaimStep cid r)
    then show ?thesis using step wf id current by (auto simp: performStep_def intro: claimStep_keeps split: sum.splits)
  next
    case (ReopenStep r)
    then show ?thesis using step wf id by (auto simp: performStep_def intro: reopenRequest_keeps split: if_splits)
  next
    case (SettleAnswerStep cid r certified)
    then show ?thesis using step wf id by (auto simp: performStep_def intro: settleAnswer_keeps(1) split: if_splits)
  next
    case (SettleRequestStep cid presented)
    then show ?thesis using step wf by (auto simp: performStep_def intro: settleRequest_keeps)
  qed
qed

lemma run_keeps:
  "requestsWf st \<Longrightarrow> claimsWf st \<Longrightarrow> claimsCurrent ports st steps \<Longrightarrow> runCollective ports st steps = (st', es) \<Longrightarrow>
   keepsRequests st st'"
proof (induction steps arbitrary: st es)
  case Nil
  then show ?case by (simp add: keepsRequests_def)
next
  case (Cons step steps)
  obtain st1 es1 where first: "performStep ports st (fst step, snd step) = (st1, es1)" by fastforce
  obtain es2 where rest: "runCollective ports st1 steps = (st', es2)" using Cons.prems(4) first by (auto split: prod.splits)
  have current: "namesHeld st (fst step)" "claimsCurrent ports st1 steps" using Cons.prems(3) first by simp_all
  have kept: "keepsRequests st st1" by (rule performStep_keeps [OF Cons.prems(1,2) current(1) first])
  then have "keepsRequests st1 st'" using rest current(2) by (intro Cons.IH) (auto simp: keepsRequests_def)
  with kept show ?case by (rule keepsRequests_trans)
qed

lemma empty_requests: "requestsWf emptyCollective" "claimsWf emptyCollective"
  by (simp_all add: requestsWf_def claimsWf_def emptyCollective_def jmWf_def)

section \<open>A sample request\<close>

definition sampleNonce :: string where
  "sampleNonce = replicate 43 (CHR ''A'')"

definition sampleCid :: collective_id where
  "sampleCid = collectiveIdOf sampleCollective ''agent:ann'' sampleNonce"

definition sampleSchema :: form_schema where
  "sampleSchema = \<lparr>sch_dialect = None, sch_properties = [], sch_required = None\<rparr>"

definition samplePorts :: collective_ports where
  "samplePorts = \<lparr>po_env = sampleCollective, po_self = ''agent:bob'', po_admission = False\<rparr>"

definition sampleAsk :: certified_post where
  "sampleAsk = \<lparr>cp_message = \<lparr>im_postId = ''pst'', im_address = ''agent:ann'', im_sender = ''agent:ann'', im_members = None,
     im_content = [TextPart ''Which day?'',
       DataPart (FObj [(COLLECTIVE_DATA_KEY, collectiveValueJson (CollectingValue Gather sampleCid sampleNonce 60000 sampleSchema))])]\<rparr>,
     cp_recordHash = ''rch''\<rparr>"

lemma sampleCid_canonical: "isCollectiveId sampleCollective sampleCid"
  by (simp add: isCollectiveId_def sampleCid_def collectiveIdOf_def sampleCollective_def sampleClient_def sampleIdentity_def
      isCanonicalIdentifier_def startsWith_def decodeCanonicalBase64Url_encoded rfc4648_laws HASH_BYTE_LENGTH_def)

lemma sampleNonce_ok: "isCollectiveNonce sampleNonce"
  by (simp add: isCollectiveNonce_def sampleNonce_def isLetterChar_def list_all_iff)

lemma sample_read:
  "readCollectiveValue sampleCollective (im_content (cp_message sampleAsk)) =
     Inr (Some (CollectingValue Gather sampleCid sampleNonce 60000 sampleSchema))"
proof -
  have "validCollectiveValue sampleCollective (CollectingValue Gather sampleCid sampleNonce 60000 sampleSchema)"
    by (simp add: sampleCid_canonical sampleNonce_ok isEpochMillis_def MAXIMUM_EPOCH_MILLIS_def validFormSchema_def sampleSchema_def
        requiredDeclared_def)
  from decodeCollectiveValue_json [OF this] show ?thesis
    by (simp add: readCollectiveValue_def sampleAsk_def List.map_filter_simps collectivePartValue_def del: collectiveValueJson.simps)
qed

definition sampleRequestIn :: "request_state \<Rightarrow> received_request" where
  "sampleRequestIn state = \<lparr>rq_postId = ''pst'', rq_recordHash = ''rch'', rq_from = ''agent:ann'', rq_to = ''agent:ann'',
     rq_question = ''Which day?'', rq_schema = sampleSchema, rq_deadlineAt = 60000, rq_state = state, rq_shared = None\<rparr>"

definition sampleHeld :: "request_state \<Rightarrow> nat list \<Rightarrow> collective_state" where
  "sampleHeld state claims = emptyCollective\<lparr>cs_requests := [(sampleCid, 0)], cs_store := [sampleRequestIn state], cs_claims := claims\<rparr>"

lemma sample_received:
  "receivedRequest sampleCollective sampleAsk Gather sampleCid sampleNonce 60000 sampleSchema 0 ROpen = Some (sampleRequestIn ROpen)"
  by (simp add: receivedRequest_def Let_def trustedRequest_def sampleAsk_def sampleCid_def sampleRequestIn_def questionText_def
      List.map_filter_simps RECEIVED_DEADLINE_HORIZON_def MAXIMUM_DEADLINE_SECONDS_def RECEIVED_DEADLINE_ALLOWANCE_def)

lemma sample_classified:
  "\<exists>item. classify samplePorts emptyCollective sampleAsk 0 = (sampleHeld ROpen [], [], item)"
  using sample_read sample_received
  by (simp add: classify_def samplePorts_def collectiveItem_def requestItem_def Let_def emptyCollective_def jmGet_def
      forgetExpiredRequests_def sampleHeld_def) (simp add: sampleRequestIn_def sampleAsk_def)

lemma sample_claimed: "claimRequest (sampleHeld ROpen []) sampleCid 0 1 = Inr (sampleHeld RSending [0])"
  by (simp add: claimRequest_def sampleHeld_def heldRequests_def matchOpenRequest_def Let_def sampleRequestIn_def requestShown_def
      requestUnavailable_def setRequest_def)

lemma sample_claim_run:
  "runCollective samplePorts emptyCollective [(ClassifyStep sampleAsk, 0), (ClaimStep sampleCid 0, 1)] = (sampleHeld RSending [0], [])"
  using sample_classified sample_claimed by (auto simp: performStep_def)

section \<open>A certified answer is the last\<close>

text \<open>
  C6: A request has at most one answer in flight, and a certified answer is its last. However the endpoint's steps interleave,
  while every claim finds under its identifier the request it matched (a requester that reuses an expired
  identifier can break that), no request has two answers in flight at once; and once an answer in flight settled as
  certified, the request has none in flight again, stays answered or closed, and refuses every later claim. An
  answer whose send failed, even one that is still pending, is not certified here: it opens its request to another.
\<close>

theorem certified_answer_is_last:
  assumes "claimsCurrent ports emptyCollective steps" "runCollective ports emptyCollective steps = (st, effects)" "r \<in> set (cs_claims st)"
    and "settleAnswer ports st cid r (Some answer) = (settled, answering)"
    and "claimsCurrent ports settled further" "runCollective ports settled further = (st', later)"
    and "namesHeld st' (ClaimStep anyId r)"
  shows "distinct (cs_claims st) \<and> r \<notin> set (cs_claims st') \<and> rq_state (cs_store st' ! r) \<in> {RAnswered, RClosed} \<and>
    fst (performStep ports st' (ClaimStep anyId r, now)) = st'"
proof -
  have wf: "requestsWf st" "claimsWf st" using run_keeps [OF empty_requests assms(1,2)] by (simp_all add: keepsRequests_def)
  note settled = settleAnswer_keeps [OF wf assms(3,4)]
  have kept: "keepsRequests settled st'" using settled(1) assms(5,6) by (intro run_keeps) (auto simp: keepsRequests_def)
  then have r: "settledAt r st'" using settled(2) by (auto simp: keepsRequests_def)
  have "claimRequest st' anyId r now = Inr st'' \<Longrightarrow> False" for st''
    using claimRequest_cases(1) [of st' anyId r now] claimRequest_held [of st' anyId r now] assms(7) kept r
    by (auto simp: keepsRequests_def settledAt_def namesHeld_def)
  then have refused: "fst (performStep ports st' (ClaimStep anyId r, now)) = st'"
    by (auto simp: performStep_def split: sum.splits)
  have "distinct (cs_claims st)" using wf(2) by (simp add: claimsWf_def)
  then show ?thesis using r refused by (auto simp: settledAt_def stateAt_def)
qed

theorem certified_answer_is_last_witness:
  "distinct (cs_claims (sampleHeld RSending [0])) \<and> 0 \<notin> set (cs_claims (sampleHeld RAnswered [])) \<and>
   rq_state (cs_store (sampleHeld RAnswered []) ! 0) \<in> {RAnswered, RClosed} \<and>
   fst (performStep samplePorts (sampleHeld RAnswered []) (ClaimStep sampleCid 0, 2)) = sampleHeld RAnswered []"
proof (rule certified_answer_is_last)
  show "runCollective samplePorts emptyCollective [(ClassifyStep sampleAsk, 0), (ClaimStep sampleCid 0, 1)] = (sampleHeld RSending [0], [])"
    by (rule sample_claim_run)
  show "claimsCurrent samplePorts emptyCollective [(ClassifyStep sampleAsk, 0), (ClaimStep sampleCid 0, 1)]"
    using sample_classified by (auto simp: performStep_def namesHeld_def sampleHeld_def jmGet_def)
  show "0 \<in> set (cs_claims (sampleHeld RSending [0]))" by (simp add: sampleHeld_def)
  show "settleAnswer samplePorts (sampleHeld RSending [0]) sampleCid 0 (Some \<lparr>an_recordHash = ''rch'', an_response = DeclineResponse\<rparr>) =
      (sampleHeld RAnswered [], [])"
    by (simp add: settleAnswer_def Let_def sampleHeld_def sampleRequestIn_def setRequest_def)
  show "runCollective samplePorts (sampleHeld RAnswered []) [] = (sampleHeld RAnswered [], [])" by simp
  show "namesHeld (sampleHeld RAnswered []) (ClaimStep sampleCid 0)" by (simp add: namesHeld_def sampleHeld_def jmGet_def)
qed simp

text \<open>An answer that failed after it was claimed, even one that is still pending, opens its request to another.\<close>

lemma failed_answer_reopens:
  "settleAnswer samplePorts (sampleHeld RSending [0]) sampleCid 0 None = (sampleHeld ROpen [], []) \<and>
   claimRequest (sampleHeld ROpen []) sampleCid 0 1 = Inr (sampleHeld RSending [0])"
  using sample_claimed by (simp add: settleAnswer_def Let_def sampleHeld_def sampleRequestIn_def setRequest_def)

section \<open>Classifying a post again\<close>

definition isWarning :: "collective_effect \<Rightarrow> bool" where
  "isWarning e = (case e of ConsumedWarning _ \<Rightarrow> True | _ \<Rightarrow> False)"

text \<open>No identifier is both an operation's of this endpoint and a request's it received.\<close>

definition idsApart :: "collective_state \<Rightarrow> bool" where
  "idsApart st \<longleftrightarrow> list_all (\<lambda>(cid, _). jmGet (cs_requests st) cid = None) (cs_gathers st)"

text \<open>
  The operations a run opened, and the request of another endpoint that names one of them: its identifier
  would be the hash of two senders.
\<close>

definition openedIds :: "(collective_event \<times> int) list \<Rightarrow> collective_id list" where
  "openedIds steps = List.map_filter (\<lambda>(event, _). case event of OpenStep prepared _ \<Rightarrow> Some (pg_id prepared) | _ \<Rightarrow> None) steps"

definition namesOperation :: "collective_environment \<Rightarrow> collective_id list \<Rightarrow> certified_post \<Rightarrow> bool" where
  "namesOperation env ids post \<longleftrightarrow>
     (case readCollectiveValue env (im_content (cp_message post)) of
        Inr (Some (CollectingValue op cid nonce deadlineAt schema)) \<Rightarrow>
          collectiveIdOf env (im_sender (cp_message post)) nonce = cid \<and> cid \<in> set ids
      | _ \<Rightarrow> False)"

definition foreignRequests :: "collective_environment \<Rightarrow> collective_id list \<Rightarrow> (collective_event \<times> int) list \<Rightarrow> bool" where
  "foreignRequests env ids steps \<longleftrightarrow>
     list_all (\<lambda>(event, _). case event of ClassifyStep post \<Rightarrow> \<not> namesOperation env ids post | _ \<Rightarrow> True) steps"

definition keysIn :: "('k, 'v) jsmap \<Rightarrow> 'k set" where
  "keysIn m = fst ` set m"

lemma keysIn_simps [simp]:
  "keysIn [] = {}" "keysIn (jmSet k v m) = insert k (keysIn m)" "keysIn (jmDelete k m) = keysIn m - {k}"
  by (auto simp: keysIn_def jmSet_keys jmDelete_def)

lemma keysIn_filter: "keysIn (filter P m) \<subseteq> keysIn m"
  by (auto simp: keysIn_def)

lemma jmGet_keysIn: "jmGet m k = None \<longleftrightarrow> k \<notin> keysIn m"
  by (simp add: keysIn_def jmGet_def map_of_eq_None_iff)

text \<open>Operations have identifiers among the opened ones, requests have others.\<close>

definition idsFrom :: "collective_id list \<Rightarrow> collective_state \<Rightarrow> bool" where
  "idsFrom ids st \<longleftrightarrow> keysIn (cs_gathers st) \<subseteq> set ids \<and> keysIn (cs_requests st) \<inter> set ids = {}"

lemma idsFrom_apart: "idsFrom ids st \<Longrightarrow> idsApart st"
  by (force simp: idsFrom_def idsApart_def list_all_iff jmGet_keysIn keysIn_def [of "cs_gathers st"])

text \<open>Steps that add no operation and no request.\<close>

definition addsNoIds :: "collective_state \<Rightarrow> collective_state \<Rightarrow> bool" where
  "addsNoIds st st' \<longleftrightarrow> keysIn (cs_gathers st') \<subseteq> keysIn (cs_gathers st) \<and> cs_requests st' = cs_requests st \<and>
     length (cs_store st') = length (cs_store st)"

lemma addsNoIds_refl [simp]: "addsNoIds st st"
  by (simp add: addsNoIds_def)

lemma addsNoIds_trans: "addsNoIds st st' \<Longrightarrow> addsNoIds st' st'' \<Longrightarrow> addsNoIds st st''"
  by (auto simp: addsNoIds_def)

lemma addsNoIds_setRequest [simp]: "addsNoIds st (setRequest r request st)"
  by (simp add: addsNoIds_def setRequest_def)

lemma addsNoIds_keeps: "addsNoIds st st' \<Longrightarrow> idsFrom ids st \<and> requestsWf st \<Longrightarrow> idsFrom ids st' \<and> requestsWf st'"
  by (auto simp: addsNoIds_def idsFrom_def requestsWf_def)

lemma completeGather_ids: "completeGather ports st cid = (st', es) \<Longrightarrow> addsNoIds st st'"
  by (auto simp: completeGather_def closeAllGather_def Let_def addsNoIds_def split: option.splits gather_op.splits)

lemma updateGather_ids:
  assumes "updateGather ports st cid change changeRecords = (st', es)"
  shows "addsNoIds st st'"
proof (cases "jmGet (cs_gathers st) cid")
  case None
  then show ?thesis using assms by (simp add: updateGather_def)
next
  case (Some opened)
  let ?st = "st\<lparr>cs_gathers := jmSet cid (change opened) (cs_gathers st), cs_records := jmSet cid (changeRecords (recordsOf st cid)) (cs_records st)\<rparr>"
  have "cid \<in> keysIn (cs_gathers st)" using Some jmGet_keysIn [of "cs_gathers st" cid] by simp
  then have "addsNoIds st ?st" by (simp add: addsNoIds_def)
  then show ?thesis
    using assms Some by (auto simp: updateGather_def Let_def dest!: completeGather_ids intro: addsNoIds_trans split: if_splits prod.splits)
qed

lemma forgetGather_ids: "forgetGather st cid = (st', es) \<Longrightarrow> addsNoIds st st'"
  by (auto simp: forgetGather_def releaseGather_def markRefused_def addsNoIds_def split: if_splits)

lemma settleRequests_ids: "settleRequests ports st prepared sends = (st', es, result) \<Longrightarrow> addsNoIds st st'"
  by (auto simp: settleRequests_def dest!: forgetGather_ids updateGather_ids split: prod.splits if_splits)

lemma abandoned_ids: "abandonGroupRequest st prepared error = (st', es, result) \<Longrightarrow> addsNoIds st st'"
  by (auto simp: abandonGroupRequest_def dest!: forgetGather_ids split: prod.splits)

lemma settleGroupRequest_ids: "settleGroupRequest st prepared result = (st', es, answer) \<Longrightarrow> addsNoIds st st'"
  by (auto simp: settleGroupRequest_def dest!: abandoned_ids split: prod.splits sum.splits if_splits)

lemma groupBindFailed_ids: "groupBindFailed st prepared problem = (st', es) \<Longrightarrow> addsNoIds st st'"
  by (auto simp: groupBindFailed_def markRefused_def dest!: abandoned_ids split: prod.splits option.splits if_splits)
     (auto simp: addsNoIds_def)

lemma applyClose_ids: "applyClose ports st cid r shared close = (st', es) \<Longrightarrow> addsNoIds st st'"
  by (auto simp: applyClose_def Let_def split: prod.splits if_splits)

lemma settleAnswer_ids: "settleAnswer ports st cid r certified = (st', es) \<Longrightarrow> addsNoIds st st'"
  by (auto simp: settleAnswer_def Let_def dest!: applyClose_ids split: option.splits if_splits)
     (auto simp: addsNoIds_def setRequest_def)

lemma recordAnswer_ids: "recordAnswer ports st post cid response = (st', es) \<Longrightarrow> addsNoIds st st'"
  by (auto simp: recordAnswer_def recordCountedAnswer_def recordPeerAnswer_def Let_def dest!: updateGather_ids
      split: option.splits prod.splits if_splits)

lemma receiveClose_ids: "receiveClose ports st message cid included = (st', es) \<Longrightarrow> addsNoIds st st'"
  by (auto simp: receiveClose_def Let_def dest!: applyClose_ids split: option.splits prod.splits if_splits)

lemma claim_ids: "claimRequest st cid r now = Inr st' \<Longrightarrow> addsNoIds st st'"
  by (auto simp: claimRequest_def Let_def addsNoIds_def setRequest_def split: sum.splits prod.splits if_splits)

lemma reopen_ids: "addsNoIds st (reopenRequest st r)"
  by (simp add: reopenRequest_def Let_def addsNoIds_def setRequest_def)

lemma settleRequest_ids: "addsNoIds st (settleRequest st cid presented)"
  by (auto simp: settleRequest_def Let_def split: option.splits)

lemma requestItem_ids:
  assumes "requestItem ports st post op cid nonce deadlineAt schema now = (st', item)" "idsFrom ids st \<and> requestsWf st"
    and "\<not> (collectiveIdOf (po_env ports) (im_sender (cp_message post)) nonce = cid \<and> cid \<in> set ids)"
  shows "idsFrom ids st' \<and> requestsWf st'"
proof -
  have foreign: "cid \<notin> set ids"
    if "receivedRequest (po_env ports) post op cid nonce deadlineAt schema now initial = Some received" for initial received
    using that assms(3) by (auto simp: receivedRequest_def Let_def trustedRequest_def split: if_splits)
  let ?kept = "forgetExpiredRequests st now"
  have "idsFrom ids (?kept\<lparr>cs_requests := jmSet cid (length (cs_store ?kept)) (cs_requests ?kept), cs_store := cs_store ?kept @ [received]\<rparr>)"
    if "cid \<notin> set ids" for received
    using assms(2) that keysIn_filter by (fastforce simp: idsFrom_def forgetExpiredRequests_def)
  then show ?thesis
    using assms(1,2) foreign requestsWf_add [of st cid]
    by (auto simp: requestItem_def Let_def split: option.splits if_splits)
qed

lemma classify_ids:
  assumes "classify ports st post now = (st', es, item)" "idsFrom ids st \<and> requestsWf st" "\<not> namesOperation (po_env ports) ids post"
  shows "idsFrom ids st' \<and> requestsWf st'"
  using assms
  by (auto simp: classify_def collectiveItem_def namesOperation_def split: sum.splits option.splits collective_value.splits prod.splits
      dest: requestItem_ids addsNoIds_keeps [OF recordAnswer_ids] addsNoIds_keeps [OF receiveClose_ids])


lemma requestItem_again:
  assumes "requestItem ports st post op cid nonce deadlineAt schema now = (st', item)"
  shows "requestItem ports st' post op cid nonce deadlineAt schema now = (st', item)"
proof -
  have post: "rq_postId received = im_postId (cp_message post)"
    if "receivedRequest env post op cid nonce deadlineAt schema now initial = Some received" for env initial received
    using that by (auto simp: receivedRequest_def Let_def split: if_splits gather_op.splits option.splits list.splits)
  show ?thesis
    using assms post by (auto simp: requestItem_def Let_def jmGet_jmSet nth_append split: option.splits if_splits)
qed

lemma keepFirstAnswer_again: "keepFirstAnswer (keepFirstAnswer shared sender answer) sender answer' = keepFirstAnswer shared sender answer"
  by (simp add: keepFirstAnswer_def jmGet_jmSet)

lemma setRequest_id: "setRequest r (cs_store st ! r) st = st"
  by (simp add: setRequest_def)

lemma recordPeerAnswer_again:
  assumes "r < length (cs_store st)" "rq_shared (cs_store st ! r) = Some shared"
    and "rq_shared (cs_store (recordPeerAnswer st r shared post response) ! r) = Some shared'"
  shows "recordPeerAnswer (recordPeerAnswer st r shared post response) r shared' post response =
    recordPeerAnswer st r shared post response"
proof (cases "rq_state (cs_store st ! r) = RClosed \<or> im_members (cp_message post) = None \<or> im_address (cp_message post) \<noteq> rq_to (cs_store st ! r)")
  case True
  then show ?thesis using assms by (simp add: recordPeerAnswer_def)
next
  case False
  let ?answer = "\<lparr>an_recordHash = cp_recordHash post, an_response = response\<rparr>"
  have "shared' = keepFirstAnswer shared (im_sender (cp_message post)) ?answer"
    using assms False by (simp add: recordPeerAnswer_def Let_def setRequest_def)
  then show ?thesis
    using False assms(1) by (simp add: recordPeerAnswer_def Let_def setRequest_def keepFirstAnswer_again)
qed

lemma recordCountedAnswer_again:
  assumes "jmGet (cs_gathers st) cid = Some opened" "jmGet (cs_requests st) cid = None"
    and "recordAnswer ports st post cid response = (st', es)"
  shows "recordAnswer ports st' post cid response = (st', [])"
proof -
  have counted: "recordCountedAnswer ports st opened post cid response = (st', es)" using assms(1,3) by (simp add: recordAnswer_def)
  show ?thesis
  proof (cases "\<not> answeredInConversation (og_request opened) (cp_message post) \<or>
      im_sender (cp_message post) \<notin> set (gr_members (og_request opened)) \<or>
      jmGet (gs_outcomes (recordsOf st cid)) (im_sender (cp_message post)) \<noteq> None")
    case True
    then have "st' = st \<and> es = []" using counted by (auto simp: recordCountedAnswer_def Let_def)
    then show ?thesis using True assms(1) by (auto simp: recordAnswer_def recordCountedAnswer_def Let_def)
  next
    case False
    define records where "records = (recordsOf st cid)\<lparr>
      gs_outcomes := jmSet (im_sender (cp_message post)) (outcomeOfResponse (cv_texts (po_env ports)) (gr_schema (og_request opened)) response)
        (gs_outcomes (recordsOf st cid)),
      gs_answerHashes := jmSet (im_sender (cp_message post)) (cp_recordHash post) (gs_answerHashes (recordsOf st cid))\<rparr>"
    let ?st = "changedGather cid opened records st"
    have counted': "(if og_requestsSettled opened \<and> length (gs_outcomes records) = length (gr_members (og_request opened))
        then (case completeGather ports ?st cid of (st'', effects) \<Rightarrow> (st'', effects @ [StopTimer cid])) else (?st, [])) = (st', es)"
      using counted False assms(1)
      unfolding recordCountedAnswer_def Let_def updateGather_def records_def changedGather_def by simp
    show ?thesis
    proof (cases "og_requestsSettled opened \<and> length (gs_outcomes records) = length (gr_members (og_request opened))")
      case True
      then obtain effects where "completeGather ports ?st cid = (st', effects)" using counted' by (auto split: prod.splits)
      then have "jmGet (cs_gathers st') cid = None \<and> cs_requests st' = cs_requests st"
        by (auto simp: completeGather_def closeAllGather_def Let_def changedGather_def jmGet_jmSet jmGet_jmDelete
            split: gather_op.splits option.splits)
      then show ?thesis using assms(2) by (simp add: recordAnswer_def)
    next
      case False
      then have "st' = ?st" using counted' by auto
      moreover have "jmGet (gs_outcomes (recordsOf ?st cid)) (im_sender (cp_message post)) \<noteq> None"
        by (simp add: recordsOf_def changedGather_def jmGet_jmSet records_def)
      moreover have "jmGet (cs_gathers ?st) cid = Some opened" by (simp add: changedGather_def jmGet_jmSet)
      ultimately show ?thesis by (simp add: recordAnswer_def recordCountedAnswer_def Let_def)
    qed
  qed
qed

lemma recordAnswer_again:
  assumes "requestsWf st" "idsApart st" "recordAnswer ports st post cid response = (st', es)"
  shows "recordAnswer ports st' post cid response = (st', [])"
proof (cases "jmGet (cs_gathers st) cid")
  case (Some opened)
  then have "jmGet (cs_requests st) cid = None"
    using assms(2) by (auto simp: idsApart_def list_all_iff jmGet_def dest!: map_of_SomeD)
  with Some assms(3) show ?thesis by (intro recordCountedAnswer_again)
next
  case None
  show ?thesis
  proof (cases "Option.bind (jmGet (cs_requests st) cid) (\<lambda>r. map_option (Pair r) (rq_shared (cs_store st ! r)))")
    case (Some rs)
    obtain r shared where rs: "rs = (r, shared)" by fastforce
    with Some have held: "jmGet (cs_requests st) cid = Some r" "rq_shared (cs_store st ! r) = Some shared"
      by (auto simp: bind_eq_Some_conv)
    have r: "r < length (cs_store st)" by (rule request_ref [OF assms(1) held(1)])
    have st': "st' = recordPeerAnswer st r shared post response" using assms(3) None Some rs by (simp add: recordAnswer_def)
    have same: "cs_gathers st' = cs_gathers st" "cs_requests st' = cs_requests st"
      by (simp_all add: st' recordPeerAnswer_def Let_def setRequest_def)
    have "rq_shared (cs_store st' ! r) \<noteq> None"
      using held(2) r by (simp add: st' recordPeerAnswer_def Let_def setRequest_def)
    then obtain shared' where shared': "rq_shared (cs_store st' ! r) = Some shared'" by blast
    then have "recordPeerAnswer st' r shared' post response = st'"
      using recordPeerAnswer_again [OF r held(2)] by (simp add: st')
    then show ?thesis using None same held(1) shared' by (simp add: recordAnswer_def)
  next
    case None': None
    then show ?thesis using assms(3) None by (simp add: recordAnswer_def)
  qed
qed

lemma receiveClose_again:
  assumes "requestsWf st" "receiveClose ports st message cid included = (st', es)"
  shows "\<exists>es'. receiveClose ports st' message cid included = (st', es') \<and> list_all isWarning es'"
proof (cases "Option.bind (jmGet (cs_requests st) cid) (\<lambda>r. map_option (Pair r) (rq_shared (cs_store st ! r)))")
  case None
  then show ?thesis using assms(2) by (auto simp: receiveClose_def isWarning_def)
next
  case (Some rs)
  obtain r shared where rs: "rs = (r, shared)" by fastforce
  with Some have held: "jmGet (cs_requests st) cid = Some r" "rq_shared (cs_store st ! r) = Some shared"
    by (auto simp: bind_eq_Some_conv)
  have r: "r < length (cs_store st)" by (rule request_ref [OF assms(1) held(1)])
  consider (foreign) "im_members message = None \<or> im_address message \<noteq> rq_to (cs_store st ! r) \<or> im_sender message \<noteq> rq_from (cs_store st ! r)"
    | (again) "\<not> (im_members message = None \<or> im_address message \<noteq> rq_to (cs_store st ! r) \<or> im_sender message \<noteq> rq_from (cs_store st ! r))"
        "rq_state (cs_store st ! r) = RClosed \<or> sa_heldClose shared \<noteq> None"
    | (first) "\<not> (im_members message = None \<or> im_address message \<noteq> rq_to (cs_store st ! r) \<or> im_sender message \<noteq> rq_from (cs_store st ! r))"
        "\<not> (rq_state (cs_store st ! r) = RClosed \<or> sa_heldClose shared \<noteq> None)" by blast
  then show ?thesis
  proof cases
    case foreign
    then have "st' = st" using assms(2) Some rs by (auto simp: receiveClose_def Let_def)
    then show ?thesis using foreign Some rs by (auto simp: receiveClose_def Let_def isWarning_def)
  next
    case again
    then have "st' = st" using assms(2) Some rs by (auto simp: receiveClose_def Let_def)
    then show ?thesis using again Some rs by (auto simp: receiveClose_def Let_def)
  next
    case first
    then have applied: "applyClose ports st cid r shared \<lparr>hc_postId = im_postId message, hc_included = included\<rparr> = (st', es)"
      using assms(2) Some rs by (auto simp: receiveClose_def Let_def)
    then obtain shared' where after: "rq_shared (cs_store st' ! r) = Some shared'"
        "rq_state (cs_store st' ! r) = RClosed \<or> sa_heldClose shared' \<noteq> None"
        "rq_to (cs_store st' ! r) = rq_to (cs_store st ! r)" "rq_from (cs_store st' ! r) = rq_from (cs_store st ! r)"
        "cs_requests st' = cs_requests st"
      using r by (auto simp: applyClose_def Let_def setRequest_def split: prod.splits if_splits)
    then show ?thesis using first(1) held(1) by (auto simp: receiveClose_def Let_def)
  qed
qed

lemma openGather_ids:
  assumes "openGather st prepared settled now = Inr (st', es)" "idsFrom ids st \<and> requestsWf st" "pg_id prepared \<in> set ids"
  shows "idsFrom ids st' \<and> requestsWf st'"
proof -
  have "cs_requests st' = cs_requests st" "cs_store st' = cs_store st" "keysIn (cs_gathers st') = insert (pg_id prepared) (keysIn (cs_gathers st))"
    using assms(1) by (auto simp: openGather_def Let_def split: if_splits)
  then show ?thesis using assms(2,3) by (simp add: idsFrom_def requestsWf_def)
qed

lemma performStep_ids:
  assumes "performStep ports st (event, now) = (st', es)" "idsFrom ids st \<and> requestsWf st"
    and "set (openedIds [(event, now)]) \<subseteq> set ids" "foreignRequests (po_env ports) ids [(event, now)]"
  shows "idsFrom ids st' \<and> requestsWf st'"
proof (cases event)
  case (OpenStep prepared settled)
  then show ?thesis
    using assms by (auto simp: performStep_def openedIds_def List.map_filter_simps dest: openGather_ids split: sum.splits if_splits)
next
  case (ClassifyStep post)
  then show ?thesis using assms by (auto simp: performStep_def foreignRequests_def dest: classify_ids split: prod.splits)
next
  case (SettleAnswerStep cid r certified)
  then show ?thesis using assms by (auto simp: performStep_def dest: addsNoIds_keeps [OF settleAnswer_ids] split: if_splits)
next
  case (ReleaseStep cid)
  then have "addsNoIds st st'" using assms(1) by (auto simp: performStep_def releaseGather_def addsNoIds_def)
  from addsNoIds_keeps [OF this assms(2)] show ?thesis .
next
  case (CloseSettledStep i problem)
  then have "addsNoIds st st'"
    using assms(1) by (auto simp: performStep_def closeSettled_def Let_def addsNoIds_def split: option.splits if_splits)
  from addsNoIds_keeps [OF this assms(2)] show ?thesis .
next
  case (DeadlineStep cid)
  then have "addsNoIds st st'"
    using assms(1) by (auto simp: performStep_def deadlineReached_def dest: completeGather_ids split: option.splits if_splits)
  from addsNoIds_keeps [OF this assms(2)] show ?thesis .
next
  case (ClaimStep cid r)
  then have "addsNoIds st st'" using assms(1) by (auto simp: performStep_def dest: claim_ids split: sum.splits)
  from addsNoIds_keeps [OF this assms(2)] show ?thesis .
next
  case (RefusalStep cid member)
  then have "addsNoIds st st'" using assms(1) by (auto simp: performStep_def recordRefusal_def dest: updateGather_ids)
  from addsNoIds_keeps [OF this assms(2)] show ?thesis .
next
  case (SettleStep prepared sends)
  then have "addsNoIds st st'" using assms(1) by (auto simp: performStep_def dest: settleRequests_ids split: prod.splits)
  from addsNoIds_keeps [OF this assms(2)] show ?thesis .
next
  case (GroupSettledStep prepared result)
  then have "addsNoIds st st'" using assms(1) by (auto simp: performStep_def dest: settleGroupRequest_ids split: prod.splits)
  from addsNoIds_keeps [OF this assms(2)] show ?thesis .
next
  case (BindFailedStep prepared problem)
  then have "addsNoIds st st'" using assms(1) by (auto simp: performStep_def dest: groupBindFailed_ids)
  from addsNoIds_keeps [OF this assms(2)] show ?thesis .
next
  case (ReopenStep r)
  then have "addsNoIds st st'" using assms(1) reopen_ids [of st r] by (auto simp: performStep_def split: if_splits)
  from addsNoIds_keeps [OF this assms(2)] show ?thesis .
next
  case (SettleRequestStep cid presented)
  then have "addsNoIds st st'" using assms(1) settleRequest_ids [of st cid presented] by (auto simp: performStep_def)
  from addsNoIds_keeps [OF this assms(2)] show ?thesis .
qed

lemma openedIds_Cons: "openedIds (step # steps) = openedIds [step] @ openedIds steps"
  by (auto simp: openedIds_def List.map_filter_simps split: option.splits)

lemma run_ids:
  assumes "runCollective ports st steps = (st', es)" "idsFrom ids st \<and> requestsWf st"
    and "set (openedIds steps) \<subseteq> set ids" "foreignRequests (po_env ports) ids steps"
  shows "idsFrom ids st' \<and> requestsWf st'"
  using assms
proof (induction steps arbitrary: st es)
  case Nil
  then show ?case by simp
next
  case (Cons step steps)
  obtain st1 es1 where first: "performStep ports st (fst step, snd step) = (st1, es1)" by fastforce
  obtain es2 where rest: "runCollective ports st1 steps = (st', es2)" using Cons.prems(1) first by (auto split: prod.splits)
  have "idsFrom ids st1 \<and> requestsWf st1"
    using Cons.prems(3,4) by (intro performStep_ids [OF first Cons.prems(2)]) (auto simp: openedIds_Cons [of step steps] foreignRequests_def)
  then show ?case
    using Cons.prems(3,4) by (intro Cons.IH [OF rest]) (auto simp: openedIds_Cons [of step steps] foreignRequests_def)
qed

lemma reachable_ids:
  "runCollective ports emptyCollective steps = (st, es) \<Longrightarrow> foreignRequests (po_env ports) (openedIds steps) steps \<Longrightarrow>
   idsApart st \<and> requestsWf st"
  using run_ids [of ports emptyCollective steps st es "openedIds steps"] idsFrom_apart [of "openedIds steps" st] empty_requests(1)
  by (simp add: idsFrom_def [of _ emptyCollective]) (simp add: emptyCollective_def)

lemma classify_again:
  assumes "requestsWf st" "idsApart st" "classify ports st post now = (st', effects, item)"
  shows "\<exists>again. classify ports st' post now = (st', again, item) \<and> list_all isWarning again"
proof (cases "readCollectiveValue (po_env ports) (im_content (cp_message post))")
  case (Inl e)
  then show ?thesis using assms(3) by (auto simp: classify_def isWarning_def)
next
  case (Inr read)
  show ?thesis
  proof (cases read)
    case None
    then show ?thesis using Inr assms(3) by (auto simp: classify_def)
  next
    case (Some v)
    then have item: "collectiveItem ports st post v now = (st', effects, item)" using Inr assms(3) by (simp add: classify_def)
    have "\<exists>again. collectiveItem ports st' post v now = (st', again, item) \<and> list_all isWarning again"
    proof (cases v)
      case MulticastValue
      then show ?thesis using item by (auto simp: collectiveItem_def)
    next
      case (CollectingValue op cid nonce deadlineAt schema)
      then have "requestItem ports st post op cid nonce deadlineAt schema now = (st', item)"
        using item by (auto simp: collectiveItem_def split: prod.splits)
      from requestItem_again [OF this] show ?thesis using CollectingValue by (simp add: collectiveItem_def)
    next
      case (ResponseValue cid response)
      then have "recordAnswer ports st post cid response = (st', effects)" "item = None"
        using item by (auto simp: collectiveItem_def split: prod.splits)
      with recordAnswer_again [OF assms(1,2)] show ?thesis using ResponseValue by (simp add: collectiveItem_def)
    next
      case (CloseValue cid included)
      then have "receiveClose ports st (cp_message post) cid included = (st', effects)" "item = None"
        using item by (auto simp: collectiveItem_def split: prod.splits)
      with receiveClose_again [OF assms(1)] show ?thesis using CloseValue by (fastforce simp: collectiveItem_def)
    qed
    then show ?thesis using Inr Some by (simp add: classify_def)
  qed
qed

text \<open>
  C36: In every state an endpoint can reach, classifying a certified post again at the same time changes nothing: the
  state stays as the first pass left it, the same item is presented, and no result or failure is emitted a second
  time. The posts classified on the way there came from other endpoints, whose requests never have the
  identifier of an operation this endpoint opened, since that is the hash of its own address and a nonce.
\<close>

theorem classify_idempotent:
  assumes "runCollective ports emptyCollective steps = (st, past)" "foreignRequests (po_env ports) (openedIds steps) steps"
    and "classify ports st post now = (st', effects, item)"
  shows "\<exists>again. classify ports st' post now = (st', again, item) \<and> list_all isWarning again"
  using reachable_ids [OF assms(1,2)] classify_again [OF _ _ assms(3)] by blast

theorem classify_idempotent_witness:
  "\<exists>item again. classify samplePorts (sampleHeld ROpen []) sampleAsk 0 = (sampleHeld ROpen [], again, item) \<and> list_all isWarning again"
proof -
  obtain item where "classify samplePorts emptyCollective sampleAsk 0 = (sampleHeld ROpen [], [], item)"
    using sample_classified by blast
  moreover have "runCollective samplePorts emptyCollective [] = (emptyCollective, [])" by simp
  moreover have "foreignRequests (po_env samplePorts) (openedIds []) []" by (simp add: foreignRequests_def)
  ultimately show ?thesis using classify_idempotent by blast
qed

end
