(* ===== verification/Collective_Agreement.thy ===== *)
theory Collective_Agreement
  imports Collective_Members
begin

text \<open>
  An all_gather's one result: the requester counts each member's first answer in its group's certified chain and
  closes with the record hashes it counted; a member keeps the same first answers, its own recorded when
  its send returned, and builds from the close's list the same outcomes, whether the close reaches it before or
  after its own answer settled.
\<close>

section \<open>Maps\<close>

lemma newMap_snoc: "newMap (ps @ [(k, v)]) = jmSet k v (newMap ps)"
  by (simp add: newMap_def)

lemma jmGet_newMap: "jmGet (newMap ps) k = map_of (rev ps) k"
proof (induction ps rule: rev_induct)
  case Nil
  then show ?case by (simp add: newMap_def jmGet_def)
next
  case (snoc p ps)
  then show ?case by (cases p) (simp add: newMap_snoc jmGet_jmSet)
qed

lemma jmGet_newMap_distinct: "distinct (map fst ps) \<Longrightarrow> jmGet (newMap ps) k = map_of ps k"
proof -
  assume "distinct (map fst ps)"
  moreover from this have "distinct (map fst (rev ps))" by (simp add: rev_map [symmetric])
  ultimately show ?thesis
    unfolding jmGet_newMap by (metis (no_types, lifting) map_of_inject_set set_rev)
qed

section \<open>First answers\<close>

text \<open>The answers of a chain, each with its sender; the first of each member counts.\<close>

type_synonym answer_chain = "(string \<times> certified_answer) list"

definition firstAnswer :: "string list \<Rightarrow> answer_chain \<Rightarrow> string \<Rightarrow> certified_answer option" where
  "firstAnswer members chain m = (if m \<in> set members then map_of chain m else None)"

definition countedHashes :: "string list \<Rightarrow> answer_chain \<Rightarrow> record_hash list" where
  "countedHashes members chain = List.map_filter (\<lambda>m. map_option an_recordHash (firstAnswer members chain m)) members"

definition countedOutcomes :: "form_texts \<Rightarrow> form_schema \<Rightarrow> string list \<Rightarrow> answer_chain \<Rightarrow> (string \<times> member_outcome) list" where
  "countedOutcomes texts schema members chain =
     map (\<lambda>m. (m, case firstAnswer members chain m of
        Some answer \<Rightarrow> outcomeOfResponse texts schema (an_response answer) | None \<Rightarrow> NoAnswer)) members"

definition listedOf :: "string \<times> certified_answer \<Rightarrow> listed_answer" where
  "listedOf = (\<lambda>(m, a). \<lparr>la_member = m, la_recordHash = an_recordHash a, la_response = an_response a\<rparr>)"

text \<open>The counted answers with their members, in member order.\<close>

definition countedAnswers :: "string list \<Rightarrow> answer_chain \<Rightarrow> (string \<times> certified_answer) list" where
  "countedAnswers members chain = List.map_filter (\<lambda>m. map_option (Pair m) (firstAnswer members chain m)) members"

lemma map_filter_map_option: "map f (List.map_filter g xs) = List.map_filter (\<lambda>x. map_option f (g x)) xs"
  by (induction xs) (auto simp: List.map_filter_simps split: option.splits)

lemma countedHashes_answers: "countedHashes members chain = map (an_recordHash \<circ> snd) (countedAnswers members chain)"
  by (simp add: countedHashes_def countedAnswers_def map_filter_map_option option.map_comp o_def)

lemma countedAnswers_members: "map fst (countedAnswers members chain) = filter (\<lambda>m. firstAnswer members chain m \<noteq> None) members"
proof -
  have "map fst (List.map_filter (\<lambda>m. map_option (Pair m) (f m)) ms) = filter (\<lambda>m. f m \<noteq> None) ms" for f :: "string \<Rightarrow> 'a option" and ms
    by (induction ms) (auto simp: List.map_filter_simps split: option.splits)
  then show ?thesis by (simp add: countedAnswers_def)
qed

lemma in_countedAnswers: "(m, a) \<in> set (countedAnswers members chain) \<longleftrightarrow> firstAnswer members chain m = Some a"
  by (force simp: countedAnswers_def List.map_filter_def firstAnswer_def split: if_splits)

section \<open>What a close's list selects\<close>

text \<open>Member holds every counted answer, under distinct record hashes.\<close>

definition holdsCounted :: "string list \<Rightarrow> answer_chain \<Rightarrow> shared_answers \<Rightarrow> bool" where
  "holdsCounted members chain shared \<longleftrightarrow>
     sa_members shared = members \<and> jmWf (sa_answers shared) \<and>
     distinct (map (an_recordHash \<circ> snd) (sa_answers shared)) \<and>
     (\<forall>m a. firstAnswer members chain m = Some a \<longrightarrow> jmGet (sa_answers shared) m = Some a)"

lemma listedAnswers_counted:
  assumes "distinct members" "holdsCounted members chain shared"
  shows "listedAnswers shared (countedHashes members chain) = (map listedOf (countedAnswers members chain), False, False)"
proof -
  define byHash where "byHash = newMap (map (\<lambda>(member, answer). (an_recordHash answer,
      \<lparr>la_member = member, la_recordHash = an_recordHash answer, la_response = an_response answer\<rparr>)) (sa_answers shared))"
  have lookup: "jmGet byHash (an_recordHash a) = Some (listedOf (m, a))" if "(m, a) \<in> set (countedAnswers members chain)" for m a
  proof -
    have "(m, a) \<in> set (sa_answers shared)"
      using that assms(2) by (auto simp: in_countedAnswers holdsCounted_def jmGet_def dest: map_of_SomeD)
    then have "(an_recordHash a, listedOf (m, a)) \<in> set (map (\<lambda>(member, answer). (an_recordHash answer,
        \<lparr>la_member = member, la_recordHash = an_recordHash answer, la_response = an_response answer\<rparr>)) (sa_answers shared))"
      by (force simp: listedOf_def)
    moreover have "distinct (map fst (map (\<lambda>(member, answer). (an_recordHash answer,
        \<lparr>la_member = member, la_recordHash = an_recordHash answer, la_response = an_response answer\<rparr>)) (sa_answers shared)))"
      using assms(2) by (simp add: holdsCounted_def o_def case_prod_unfold)
    ultimately show ?thesis unfolding byHash_def by (simp add: jmGet_newMap_distinct)
  qed
  have selected: "List.map_filter (jmGet byHash) (countedHashes members chain) = map listedOf (countedAnswers members chain)"
  proof -
    have "List.map_filter (jmGet byHash) (map (an_recordHash \<circ> snd) cs) = map listedOf cs"
      if "set cs \<subseteq> set (countedAnswers members chain)" for cs
      using that by (induction cs) (auto simp: List.map_filter_simps lookup)
    then show ?thesis by (simp add: countedHashes_answers)
  qed
  have "map la_member (map listedOf (countedAnswers members chain)) = map fst (countedAnswers members chain)"
    by (simp add: listedOf_def case_prod_unfold)
  then have "distinct (map la_member (map listedOf (countedAnswers members chain)))"
    using assms(1) by (simp add: countedAnswers_members)
  then show ?thesis
    using selected by (simp add: listedAnswers_def byHash_def [symmetric] Let_def countedHashes_answers jsSet_distinct)
qed

lemma memberOutcomes_counted:
  assumes "distinct members"
  shows "memberOutcomes members (newMap (map (\<lambda>answer. (la_member answer, outcomeOfResponse texts schema (la_response answer)))
      (map listedOf (countedAnswers members chain)))) = countedOutcomes texts schema members chain"
proof -
  let ?pairs = "map (\<lambda>answer. (la_member answer, outcomeOfResponse texts schema (la_response answer))) (map listedOf (countedAnswers members chain))"
  have keys: "map fst ?pairs = map fst (countedAnswers members chain)" by (simp add: listedOf_def case_prod_unfold)
  then have dist: "distinct (map fst ?pairs)" using assms by (simp add: countedAnswers_members)
  have "jmGet (newMap ?pairs) m = map_option (\<lambda>a. outcomeOfResponse texts schema (an_response a)) (firstAnswer members chain m)"
    if "m \<in> set members" for m
  proof (cases "firstAnswer members chain m")
    case None
    then have "m \<notin> set (map fst ?pairs)" unfolding keys countedAnswers_members by simp
    then have "map_of ?pairs m = None" unfolding map_of_eq_None_iff set_map .
    then show ?thesis using None dist by (simp add: jmGet_newMap_distinct)
  next
    case (Some a)
    then have "(m, a) \<in> set (countedAnswers members chain)" by (simp add: in_countedAnswers)
    then have "(m, outcomeOfResponse texts schema (an_response a)) \<in> set ?pairs" by (force simp: listedOf_def)
    then show ?thesis using Some dist unfolding jmGet_newMap_distinct [OF dist] by simp
  qed
  then show ?thesis by (auto simp: memberOutcomes_def countedOutcomes_def split: option.splits)
qed

section \<open>The asker\<close>

text \<open>Answer posts of one all_gather in its group's conversation, each with the response it carries.\<close>

definition answersIn :: "collective_environment \<Rightarrow> collective_id \<Rightarrow> string \<Rightarrow> certified_post \<times> collective_response \<Rightarrow> bool" where
  "answersIn env cid to = (\<lambda>(post, response).
     readCollectiveValue env (im_content (cp_message post)) = Inr (Some (ResponseValue cid response)) \<and>
     im_members (cp_message post) \<noteq> None \<and> im_address (cp_message post) = to)"

definition chainOf :: "(certified_post \<times> collective_response) list \<Rightarrow> answer_chain" where
  "chainOf posts = map (\<lambda>(post, response). (im_sender (cp_message post), \<lparr>an_recordHash = cp_recordHash post, an_response = response\<rparr>)) posts"

text \<open>Steps that classify these posts, each at any time.\<close>

definition classifies :: "(certified_post \<times> collective_response) list \<Rightarrow> (collective_event \<times> int) list \<Rightarrow> bool" where
  "classifies posts steps \<longleftrightarrow> map fst steps = map (\<lambda>(post, _). ClassifyStep post) posts"

lemma classifies_simps [simp]:
  "classifies [] steps \<longleftrightarrow> steps = []"
  "classifies ((post, response) # posts) steps \<longleftrightarrow> (\<exists>now rest. steps = (ClassifyStep post, now) # rest \<and> classifies posts rest)"
  by (cases steps; auto simp: classifies_def)+

lemma chainOf_simps [simp]:
  "chainOf [] = []"
  "chainOf ((post, response) # posts) = (im_sender (cp_message post), \<lparr>an_recordHash = cp_recordHash post, an_response = response\<rparr>) # chainOf posts"
  "chainOf (posts @ others) = chainOf posts @ chainOf others"
  by (simp_all add: chainOf_def)

lemma firstAnswer_append:
  "firstAnswer members (chain @ chain') m = (case firstAnswer members chain m of Some a \<Rightarrow> Some a | None \<Rightarrow> firstAnswer members chain' m)"
  by (simp add: firstAnswer_def map_add_def split: option.splits)

lemma firstAnswer_single: "firstAnswer members [(sender, a)] m = (if m \<in> set members \<and> m = sender then Some a else None)"
  by (auto simp: firstAnswer_def)

lemma firstAnswer_outside: "m \<notin> set members \<Longrightarrow> firstAnswer members chain m = None"
  by (simp add: firstAnswer_def)

lemma performStep_answer:
  "answersIn (po_env ports) cid to (post, response) \<Longrightarrow>
   performStep ports st (ClassifyStep post, now) = recordAnswer ports st post cid response"
  by (auto simp: answersIn_def performStep_def classify_def collectiveItem_def split: prod.splits)

definition countsChain :: "collective_ports \<Rightarrow> collective_id \<Rightarrow> open_gather \<Rightarrow> answer_chain \<Rightarrow> collective_state \<Rightarrow> bool" where
  "countsChain ports cid opened chain st \<longleftrightarrow>
     jmGet (cs_gathers st) cid = Some opened \<and>
     (\<forall>m. jmGet (gs_outcomes (recordsOf st cid)) m =
        map_option (\<lambda>a. outcomeOfResponse (cv_texts (po_env ports)) (gr_schema (og_request opened)) (an_response a))
          (firstAnswer (gr_members (og_request opened)) chain m)) \<and>
     (\<forall>m. jmGet (gs_answerHashes (recordsOf st cid)) m =
        map_option an_recordHash (firstAnswer (gr_members (og_request opened)) chain m))"

text \<open>The close a completed all_gather posts, and the result it keeps for when the close is certified.\<close>

definition closedWith :: "collective_ports \<Rightarrow> collective_id \<Rightarrow> gather_request \<Rightarrow> answer_chain \<Rightarrow> content_part list \<Rightarrow> collective_state \<Rightarrow> bool" where
  "closedWith ports cid request chain content st \<longleftrightarrow>
     encodeCollectiveContent (po_env ports) (CloseValue cid (countedHashes (gr_members request) chain)) None = Some content \<and>
     list_ex (\<lambda>c. cg_id c = cid \<and> cg_result c = \<lparr>ri_op = gr_op request, ri_id = cid, ri_to = gr_to request,
         ri_question = gr_question request,
         ri_outcomes = countedOutcomes (cv_texts (po_env ports)) (gr_schema request) (gr_members request) chain\<rparr>) (cs_closing st)"

lemma completeGather_closes:
  assumes "countsChain ports cid opened chain st" "gr_op (og_request opened) = AllGather" "completeGather ports st cid = (st', es)"
  shows "jmGet (cs_gathers st') cid = None"
    "SendClose cid to content \<in> set es \<Longrightarrow> closedWith ports cid (og_request opened) chain content st'"
proof -
  have gather: "jmGet (cs_gathers st) cid = Some opened" using assms(1) by (simp add: countsChain_def)
  show "jmGet (cs_gathers st') cid = None"
    using assms gather by (auto simp: completeGather_def closeAllGather_def Let_def jmGet_jmDelete split: option.splits)
  have hashes: "List.map_filter (jmGet (gs_answerHashes (recordsOf st cid))) (gr_members (og_request opened)) =
      countedHashes (gr_members (og_request opened)) chain"
    using assms(1) by (auto simp: countsChain_def countedHashes_def intro!: arg_cong2 [where f = List.map_filter])
  have outcomes: "memberOutcomes (gr_members (og_request opened)) (gs_outcomes (recordsOf st cid)) =
      countedOutcomes (cv_texts (po_env ports)) (gr_schema (og_request opened)) (gr_members (og_request opened)) chain"
    using assms(1) by (auto simp: countsChain_def memberOutcomes_def countedOutcomes_def split: option.splits)
  show "closedWith ports cid (og_request opened) chain content st'" if "SendClose cid to content \<in> set es"
    using that assms(2,3) gather
    by (auto simp: completeGather_def closeAllGather_def Let_def closedWith_def hashes outcomes split: option.splits)
qed

lemma recordAnswer_counts:
  assumes "countsChain ports cid opened chain st" "gr_op (og_request opened) = AllGather"
    and "answersIn (po_env ports) cid (gr_to (og_request opened)) (post, response)"
    and "recordAnswer ports st post cid response = (st', es)"
  obtains (counting) "countsChain ports cid opened (chain @ chainOf [(post, response)]) st'" "es = []"
  | (completed) st1 effects where "countsChain ports cid opened (chain @ chainOf [(post, response)]) st1"
      "completeGather ports st1 cid = (st', effects)" "es = effects @ [StopTimer cid]"
proof -
  let ?sender = "im_sender (cp_message post)"
  let ?members = "gr_members (og_request opened)"
  have gather: "jmGet (cs_gathers st) cid = Some opened" using assms(1) by (simp add: countsChain_def)
  have here: "answeredInConversation (og_request opened) (cp_message post)"
    using assms(2,3) by (auto simp: answeredInConversation_def answersIn_def)
  have counted: "recordCountedAnswer ports st opened post cid response = (st', es)"
    using assms(4) gather by (simp add: recordAnswer_def)
  show thesis
  proof (cases "?sender \<notin> set ?members \<or> firstAnswer ?members chain ?sender \<noteq> None")
    case True
    then have "?sender \<notin> set ?members \<or> jmGet (gs_outcomes (recordsOf st cid)) ?sender \<noteq> None"
      using assms(1) by (auto simp: countsChain_def)
    then have "st' = st" "es = []" using counted by (auto simp: recordCountedAnswer_def Let_def)
    moreover have "firstAnswer ?members (chain @ chainOf [(post, response)]) = firstAnswer ?members chain"
      using True by (auto simp: firstAnswer_append firstAnswer_single firstAnswer_outside fun_eq_iff split: option.splits)
    ultimately show thesis using counting assms(1) by (simp add: countsChain_def)
  next
    case False
    then have new: "?sender \<in> set ?members" "jmGet (gs_outcomes (recordsOf st cid)) ?sender = None" "firstAnswer ?members chain ?sender = None"
      using assms(1) by (auto simp: countsChain_def)
    define records where "records = (recordsOf st cid)\<lparr>
      gs_outcomes := jmSet ?sender (outcomeOfResponse (cv_texts (po_env ports)) (gr_schema (og_request opened)) response)
        (gs_outcomes (recordsOf st cid)),
      gs_answerHashes := jmSet ?sender (cp_recordHash post) (gs_answerHashes (recordsOf st cid))\<rparr>"
    let ?st = "changedGather cid opened records st"
    have first: "firstAnswer ?members (chain @ chainOf [(post, response)]) m =
        (if m = ?sender then Some \<lparr>an_recordHash = cp_recordHash post, an_response = response\<rparr> else firstAnswer ?members chain m)" for m
      using new by (auto simp: firstAnswer_append firstAnswer_single split: option.splits)
    have "recordsOf ?st cid = records" by (simp add: recordsOf_def changedGather_def jmGet_jmSet)
    then have counts: "countsChain ports cid opened (chain @ chainOf [(post, response)]) ?st"
      using assms(1) unfolding countsChain_def first
      by (simp add: changedGather_def jmGet_jmSet records_def)
    have "(if og_requestsSettled opened \<and> length (gs_outcomes records) = length (gr_members (og_request opened))
        then (case completeGather ports ?st cid of (st'', effects) \<Rightarrow> (st'', effects @ [StopTimer cid])) else (?st, [])) = (st', es)"
      using counted new here gather
      unfolding recordCountedAnswer_def Let_def updateGather_def records_def changedGather_def by simp
    then show thesis
      using counting completed counts by (auto split: if_splits prod.splits)
  qed
qed

lemma recordAnswer_done:
  "jmGet (cs_gathers st) cid = None \<Longrightarrow> recordAnswer ports st post cid response = (st', es) \<Longrightarrow>
   es = [] \<and> jmGet (cs_gathers st') cid = None \<and> cs_closing st' = cs_closing st"
  by (auto simp: recordAnswer_def recordPeerAnswer_def Let_def setRequest_def split: option.splits prod.splits if_splits)

lemma run_done:
  "jmGet (cs_gathers st) cid = None \<Longrightarrow> list_all (answersIn (po_env ports) cid to) posts \<Longrightarrow>
   classifies posts steps \<Longrightarrow> runCollective ports st steps = (st', es) \<Longrightarrow>
   es = [] \<and> jmGet (cs_gathers st') cid = None \<and> cs_closing st' = cs_closing st"
proof (induction posts arbitrary: st es steps)
  case Nil
  then show ?case by simp
next
  case (Cons p posts)
  obtain post response where p: "p = (post, response)" by fastforce
  obtain now steps' where steps: "steps = (ClassifyStep post, now) # steps'" "classifies posts steps'" using Cons.prems(3) p by auto
  obtain st1 es1 where step: "recordAnswer ports st post cid response = (st1, es1)" by fastforce
  have answer: "performStep ports st (ClassifyStep post, now) = (st1, es1)"
    using performStep_answer [of ports cid to post response st now] Cons.prems(2) p step by simp
  note first = recordAnswer_done [OF Cons.prems(1) step]
  obtain es2 where rest: "runCollective ports st1 steps' = (st', es2)" and es: "es = es1 @ es2"
    using Cons.prems(4) answer steps by (auto split: prod.splits)
  then show ?case using Cons.IH [OF _ _ steps(2) rest] first Cons.prems(2) by simp
qed

text \<open>A run over the answers of a group either leaves the operation counting them all or closed it after some of them.\<close>

lemma run_counts:
  assumes "countsChain ports cid opened chain st" "gr_op (og_request opened) = AllGather"
    and "list_all (answersIn (po_env ports) cid (gr_to (og_request opened))) posts"
    and "classifies posts steps" "runCollective ports st steps = (st', es)"
  shows "countsChain ports cid opened (chain @ chainOf posts) st' \<and> es = [] \<or>
    jmGet (cs_gathers st') cid = None \<and>
    (\<forall>to content. SendClose cid to content \<in> set es \<longrightarrow>
      (\<exists>counted later. posts = counted @ later \<and> closedWith ports cid (og_request opened) (chain @ chainOf counted) content st'))"
  using assms
proof (induction posts arbitrary: chain st es steps)
  case Nil
  then show ?case by simp
next
  case (Cons p posts)
  obtain post response where p: "p = (post, response)" by fastforce
  obtain now steps' where steps: "steps = (ClassifyStep post, now) # steps'" "classifies posts steps'" using Cons.prems(4) p by auto
  obtain st1 es1 where step: "recordAnswer ports st post cid response = (st1, es1)" by fastforce
  have here: "answersIn (po_env ports) cid (gr_to (og_request opened)) (post, response)" using Cons.prems(3) p by simp
  have answer: "performStep ports st (ClassifyStep post, now) = (st1, es1)" using performStep_answer [OF here] step by simp
  obtain es2 where rest: "runCollective ports st1 steps' = (st', es2)" and es: "es = es1 @ es2"
    using Cons.prems(5) answer steps by (auto split: prod.splits)
  have posts: "list_all (answersIn (po_env ports) cid (gr_to (og_request opened))) posts" using Cons.prems(3) by simp
  from Cons.prems(1,2) here step show ?case
  proof (cases rule: recordAnswer_counts)
    case counting
    from Cons.IH [OF counting(1) Cons.prems(2) posts steps(2) rest] show ?thesis
    proof
      assume "countsChain ports cid opened ((chain @ chainOf [(post, response)]) @ chainOf posts) st' \<and> es2 = []"
      then show ?thesis using counting(2) es p by simp
    next
      assume ended: "jmGet (cs_gathers st') cid = None \<and> (\<forall>to content. SendClose cid to content \<in> set es2 \<longrightarrow>
        (\<exists>counted later. posts = counted @ later \<and>
          closedWith ports cid (og_request opened) ((chain @ chainOf [(post, response)]) @ chainOf counted) content st'))"
      have "\<exists>counted later. p # posts = counted @ later \<and> closedWith ports cid (og_request opened) (chain @ chainOf counted) content st'"
        if sent: "SendClose cid to content \<in> set es" for to content
      proof -
        obtain counted later where split: "posts = counted @ later"
          "closedWith ports cid (og_request opened) ((chain @ chainOf [(post, response)]) @ chainOf counted) content st'"
          using ended sent [unfolded es counting(2) append_Nil] by blast
        then have "p # posts = (p # counted) @ later" "closedWith ports cid (og_request opened) (chain @ chainOf (p # counted)) content st'"
          using p by simp_all
        then show ?thesis by blast
      qed
      then show ?thesis using ended by blast
    qed
  next
    case (completed st2 effects)
    note closes = completeGather_closes [OF completed(1) Cons.prems(2) completed(2)]
    note later = run_done [OF closes(1) posts steps(2) rest]
    have "\<exists>counted later. p # posts = counted @ later \<and> closedWith ports cid (og_request opened) (chain @ chainOf counted) content st'"
      if sent: "SendClose cid to content \<in> set es" for to content
    proof -
      have "SendClose cid to content \<in> set effects" using sent es later completed(3) by simp
      then have "closedWith ports cid (og_request opened) (chain @ chainOf [p]) content st'"
        using closes(2) later p by (simp add: closedWith_def)
      moreover have "p # posts = [p] @ posts" by simp
      ultimately show ?thesis by blast
    qed
    then show ?thesis using later by blast
  qed
qed

section \<open>A member\<close>

text \<open>Posts of the group, without the endpoint's own, which are never delivered to it.\<close>

definition deliveredTo :: "string \<Rightarrow> (certified_post \<times> collective_response) list \<Rightarrow> (certified_post \<times> collective_response) list" where
  "deliveredTo self posts = filter (\<lambda>(post, _). im_sender (cp_message post) \<noteq> self) posts"

lemma firstAnswer_delivered:
  "m \<noteq> self \<Longrightarrow> firstAnswer members (chainOf (deliveredTo self posts)) m = firstAnswer members (chainOf posts) m"
  by (induction posts) (auto simp: deliveredTo_def firstAnswer_def)

text \<open>
  What a member does about its own answer, in any order and as often as it likes: it claims the request, gives
  the claim up, settles an answer as certified or failed; and its host is shown the request or not.
\<close>

definition ownStep :: "collective_id \<Rightarrow> nat \<Rightarrow> collective_event \<Rightarrow> bool" where
  "ownStep cid r event \<longleftrightarrow>
     (case event of
        ClaimStep cid' r' \<Rightarrow> cid' = cid \<and> r' = r
      | ReopenStep r' \<Rightarrow> r' = r
      | SettleAnswerStep cid' r' _ \<Rightarrow> cid' = cid \<and> r' = r
      | SettleRequestStep cid' _ \<Rightarrow> cid' = cid
      | _ \<Rightarrow> False)"

definition settlesOnly :: "certified_answer option \<Rightarrow> collective_event \<Rightarrow> bool" where
  "settlesOnly own event \<longleftrightarrow> (case event of SettleAnswerStep _ _ (Some a) \<Rightarrow> own = Some a | _ \<Rightarrow> True)"

definition isClassify :: "collective_event \<Rightarrow> bool" where
  "isClassify event \<longleftrightarrow> (case event of ClassifyStep _ \<Rightarrow> True | _ \<Rightarrow> False)"

text \<open>
  A member's steps up to the close: the delivered posts in order, interleaved in any way with what it does about its
  own answer; an answer it settles as certified is its first in the chain.
\<close>

definition memberSteps ::
  "collective_id \<Rightarrow> nat \<Rightarrow> certified_answer option \<Rightarrow> (certified_post \<times> collective_response) list \<Rightarrow> (collective_event \<times> int) list \<Rightarrow> bool" where
  "memberSteps cid r own posts steps \<longleftrightarrow>
     list_all (\<lambda>(event, _). isClassify event \<or> ownStep cid r event \<and> settlesOnly own event) steps \<and>
     classifies posts (filter (\<lambda>(event, _). isClassify event) steps)"

lemma memberSteps_Cons:
  "memberSteps cid r own posts ((event, now) # steps) \<longleftrightarrow>
     (case event of
        ClassifyStep post \<Rightarrow> (\<exists>response rest. posts = (post, response) # rest \<and> memberSteps cid r own rest steps)
      | _ \<Rightarrow> ownStep cid r event \<and> settlesOnly own event \<and> memberSteps cid r own posts steps)"
  by (cases posts) (auto simp: memberSteps_def isClassify_def classifies_def split: collective_event.splits)

text \<open>
  What a member keeps of the chain it has seen, in which state its request is: every other member's first answer, and
  its own once its send returned.
\<close>

definition memberHolds ::
  "collective_ports \<Rightarrow> collective_id \<Rightarrow> nat \<Rightarrow> received_request \<Rightarrow> string list \<Rightarrow> certified_answer option \<Rightarrow> answer_chain \<Rightarrow>
   request_state \<Rightarrow> collective_state \<Rightarrow> bool" where
  "memberHolds ports cid r asked members own chain state st \<longleftrightarrow>
     requestsWf st \<and> claimsWf st \<and> jmGet (cs_gathers st) cid = None \<and> jmGet (cs_requests st) cid = Some r \<and> state \<noteq> RClosed \<and>
     (\<exists>answers. cs_store st ! r = asked\<lparr>rq_state := state, rq_shared := Some \<lparr>sa_members = members, sa_answers = answers, sa_heldClose = None\<rparr>\<rparr> \<and>
       jmWf answers \<and>
       (\<forall>m. jmGet answers m = (if m = po_self ports then (if state = RAnswered then own else None) else firstAnswer members chain m)))"

lemma memberHoldsE:
  assumes "memberHolds ports cid r asked members own chain state st"
  obtains answers where "requestsWf st" "claimsWf st" "jmGet (cs_gathers st) cid = None" "jmGet (cs_requests st) cid = Some r"
    "state \<noteq> RClosed" "r < length (cs_store st)" "stateAt st r = state"
    "cs_store st ! r = asked\<lparr>rq_state := state, rq_shared := Some \<lparr>sa_members = members, sa_answers = answers, sa_heldClose = None\<rparr>\<rparr>"
    "jmWf answers"
    "\<And>m. jmGet answers m = (if m = po_self ports then (if state = RAnswered then own else None) else firstAnswer members chain m)"
  using assms request_ref by (fastforce simp: memberHolds_def stateAt_def)

lemma memberHoldsI:
  assumes "requestsWf st" "claimsWf st" "jmGet (cs_gathers st) cid = None" "jmGet (cs_requests st) cid = Some r" "state \<noteq> RClosed"
    and "cs_store st ! r = asked\<lparr>rq_state := state, rq_shared := Some \<lparr>sa_members = members, sa_answers = answers, sa_heldClose = None\<rparr>\<rparr>"
    and "jmWf answers"
    and "\<And>m. jmGet answers m = (if m = po_self ports then (if state = RAnswered then own else None) else firstAnswer members chain m)"
  shows "memberHolds ports cid r asked members own chain state st"
  using assms unfolding memberHolds_def by blast

lemma memberHolds_answer:
  assumes held: "memberHolds ports cid r asked members own chain state st"
    and post: "answersIn (po_env ports) cid (rq_to asked) (post, response)" "im_sender (cp_message post) \<noteq> po_self ports"
    and step: "performStep ports st (ClassifyStep post, now) = (st', es)"
  shows "es = [] \<and> memberHolds ports cid r asked members own (chain @ chainOf [(post, response)]) state st'"
proof -
  let ?sender = "im_sender (cp_message post)"
  let ?answer = "\<lparr>an_recordHash = cp_recordHash post, an_response = response\<rparr>"
  obtain answers where st: "requestsWf st" "claimsWf st" "jmGet (cs_gathers st) cid = None" "jmGet (cs_requests st) cid = Some r"
      "state \<noteq> RClosed" "r < length (cs_store st)"
      "cs_store st ! r = asked\<lparr>rq_state := state, rq_shared := Some \<lparr>sa_members = members, sa_answers = answers, sa_heldClose = None\<rparr>\<rparr>"
      "jmWf answers"
      "\<And>m. jmGet answers m = (if m = po_self ports then (if state = RAnswered then own else None) else firstAnswer members chain m)"
    using held by (rule memberHoldsE) blast
  define answers' where "answers' = (if ?sender \<in> set members \<and> jmGet answers ?sender = None then jmSet ?sender ?answer answers else answers)"
  have shared: "keepFirstAnswer \<lparr>sa_members = members, sa_answers = answers, sa_heldClose = None\<rparr> ?sender ?answer =
      \<lparr>sa_members = members, sa_answers = answers', sa_heldClose = None\<rparr>"
    by (simp add: keepFirstAnswer_def answers'_def)
  let ?st = "setRequest r (asked\<lparr>rq_state := state, rq_shared := Some \<lparr>sa_members = members, sa_answers = answers', sa_heldClose = None\<rparr>\<rparr>) st"
  have "recordAnswer ports st post cid response = (?st, [])"
    using st(3-7) post(1) by (auto simp: recordAnswer_def recordPeerAnswer_def Let_def shared answersIn_def)
  then have st': "st' = ?st" "es = []" using step performStep_answer [OF post(1)] by simp_all
  have kept: "keepsRequests st st'" by (rule performStep_keeps [OF st(1,2) _ step]) (simp add: namesHeld_def)
  have "jmGet answers' m = (if m = po_self ports then (if state = RAnswered then own else None)
      else firstAnswer members (chain @ chainOf [(post, response)]) m)" for m
    using st(9) [of m] st(9) [of ?sender] post(2)
    by (auto simp: answers'_def jmGet_jmSet firstAnswer_append firstAnswer_single firstAnswer_outside split: option.splits)
  moreover have "jmWf answers'" using st(8) by (simp add: answers'_def jmWf_jmSet)
  ultimately have "memberHolds ports cid r asked members own (chain @ chainOf [(post, response)]) state st'"
    using kept st(3-6) by (intro memberHoldsI [where answers = answers']) (simp_all add: st' setRequest_def keepsRequests_def)
  then show ?thesis using st'(2) by simp
qed

lemma memberHolds_own:
  assumes held: "memberHolds ports cid r asked members own chain state st"
    and own: "ownStep cid r event" "settlesOnly own event" and step: "performStep ports st (event, now) = (st', es)"
  shows "es = [] \<and> (\<exists>state'. memberHolds ports cid r asked members own chain state' st')"
proof -
  obtain answers where st: "requestsWf st" "claimsWf st" "jmGet (cs_gathers st) cid = None" "jmGet (cs_requests st) cid = Some r"
      "state \<noteq> RClosed" "r < length (cs_store st)" "stateAt st r = state"
      "cs_store st ! r = asked\<lparr>rq_state := state, rq_shared := Some \<lparr>sa_members = members, sa_answers = answers, sa_heldClose = None\<rparr>\<rparr>"
      "jmWf answers"
      "\<And>m. jmGet answers m = (if m = po_self ports then (if state = RAnswered then own else None) else firstAnswer members chain m)"
    using held by (rule memberHoldsE) blast
  have "namesHeld st event" using own(1) st(4) by (auto simp: namesHeld_def ownStep_def split: collective_event.splits)
  from performStep_keeps [OF st(1,2) this step] have wf: "requestsWf st'" "claimsWf st'" by (simp_all add: keepsRequests_def)
  have changed: "memberHolds ports cid r asked members own chain state' st'"
    if "cs_gathers st' = cs_gathers st" "cs_requests st' = cs_requests st" "state' \<notin> {RAnswered, RClosed}"
      "cs_store st' ! r = (cs_store st ! r)\<lparr>rq_state := state'\<rparr>" "state \<noteq> RAnswered" for state'
    using that wf st by (intro memberHoldsI [where answers = answers]) simp_all
  have sending: "state = RSending" if "r \<in> set (cs_claims st)" using st(2,5,7) that by (auto simp: claimsWf_def)
  show ?thesis
  proof (cases event)
    case (ClaimStep cid' r')
    then have event: "event = ClaimStep cid r" using own(1) by (simp add: ownStep_def)
    show ?thesis
    proof (cases "claimRequest st cid r now")
      case (Inl e)
      then have "st' = st" "es = []" using step event by (simp_all add: performStep_def)
      then show ?thesis using held by blast
    next
      case (Inr sending)
      note claimed = claimRequest_cases [OF st(1,4) Inr]
      have "st' = sending" "es = []" using step event Inr by (simp_all add: performStep_def)
      moreover have "memberHolds ports cid r asked members own chain RSending st'"
        using claimed(1,3) st(6,7) calculation(1) by (intro changed) (simp_all add: setRequest_def)
      ultimately show ?thesis by blast
    qed
  next
    case (ReopenStep r')
    then have event: "event = ReopenStep r" using own(1) by (simp add: ownStep_def)
    show ?thesis
    proof (cases "r \<in> set (cs_claims st)")
      case True
      have "st' = reopenRequest st r" "es = []" using step event True by (simp_all add: performStep_def)
      moreover have "memberHolds ports cid r asked members own chain ROpen st'"
        using sending [OF True] st(6,8) calculation(1) by (intro changed) (simp_all add: reopenRequest_def Let_def setRequest_def)
      ultimately show ?thesis by blast
    next
      case False
      then have "st' = st" "es = []" using step event by (simp_all add: performStep_def)
      then show ?thesis using held by blast
    qed
  next
    case (SettleAnswerStep cid' r' certified)
    then have event: "event = SettleAnswerStep cid r certified" using own(1) by (simp add: ownStep_def)
    show ?thesis
    proof (cases "r \<in> set (cs_claims st)")
      case True
      then have settle: "settleAnswer ports st cid r certified = (st', es)" using step event by (simp add: performStep_def)
      show ?thesis
      proof (cases certified)
        case None
        then have "st' = setRequest r (asked\<lparr>rq_state := ROpen, rq_shared := Some \<lparr>sa_members = members, sa_answers = answers,
            sa_heldClose = None\<rparr>\<rparr>) (st\<lparr>cs_claims := remove1 r (cs_claims st)\<rparr>)" "es = []"
          using settle st(8) sending [OF True] by (simp_all add: settleAnswer_def Let_def)
        moreover have "memberHolds ports cid r asked members own chain ROpen st'"
          using sending [OF True] st(6,8) calculation(1) by (intro changed) (simp_all add: setRequest_def)
        ultimately show ?thesis by blast
      next
        case (Some answer)
        then have "own = Some answer" using own(2) event by (simp add: settlesOnly_def)
        moreover let ?answers = "jmSet (po_self ports) answer answers"
        have st': "st' = setRequest r (asked\<lparr>rq_state := RAnswered, rq_shared := Some \<lparr>sa_members = members, sa_answers = ?answers,
            sa_heldClose = None\<rparr>\<rparr>) (st\<lparr>cs_claims := remove1 r (cs_claims st)\<rparr>)" "es = []"
          using settle Some st(8) sending [OF True] by (simp_all add: settleAnswer_def Let_def)
        have "memberHolds ports cid r asked members own chain RAnswered st'"
          using wf st(3,4,6,9,10) st'(1) \<open>own = Some answer\<close>
          by (intro memberHoldsI [where answers = ?answers]) (simp_all add: setRequest_def jmWf_jmSet jmGet_jmSet)
        then show ?thesis using st'(2) by blast
      qed
    next
      case False
      then have "st' = st" "es = []" using step event by (simp_all add: performStep_def)
      then show ?thesis using held by blast
    qed
  next
    case (SettleRequestStep cid' presented)
    then have st': "st' = settleRequest st cid presented" "es = []" using own(1) step by (simp_all add: ownStep_def performStep_def)
    show ?thesis
    proof (cases "state = RUnadmitted")
      case True
      then have "memberHolds ports cid r asked members own chain (if presented then ROpen else RWithheld) st'"
        using st(4,6,8) st'(1) by (intro changed) (simp_all add: settleRequest_def Let_def setRequest_def)
      then show ?thesis using st'(2) by blast
    next
      case False
      then have "st' = st" using st(4,8) st'(1) by (simp add: settleRequest_def Let_def)
      then show ?thesis using held st'(2) by blast
    qed
  qed (use own(1) in \<open>simp_all add: ownStep_def\<close>)
qed

lemma run_holds:
  assumes "memberHolds ports cid r asked members own chain state st"
    and "list_all (answersIn (po_env ports) cid (rq_to asked)) posts" "deliveredTo (po_self ports) posts = posts"
    and "memberSteps cid r own posts steps" "runCollective ports st steps = (st', es)"
  shows "es = [] \<and> (\<exists>state'. memberHolds ports cid r asked members own (chain @ chainOf posts) state' st')"
  using assms
proof (induction steps arbitrary: st es chain state posts)
  case Nil
  then have "posts = []" by (cases posts) (auto simp: memberSteps_def)
  with Nil show ?case by auto
next
  case (Cons step steps)
  obtain event now where e: "step = (event, now)" by fastforce
  obtain st1 es1 where first: "performStep ports st (event, now) = (st1, es1)" by fastforce
  obtain es2 where rest: "runCollective ports st1 steps = (st', es2)" and es: "es = es1 @ es2"
    using Cons.prems(5) e first by (auto split: prod.splits)
  show ?case
  proof (cases "isClassify event")
    case True
    then obtain post response later where post: "event = ClassifyStep post" "posts = (post, response) # later" "memberSteps cid r own later steps"
      using Cons.prems(4) e by (auto simp: memberSteps_Cons isClassify_def split: collective_event.splits)
    have sent: "im_sender (cp_message post) \<noteq> po_self ports" "deliveredTo (po_self ports) later = later"
      using Cons.prems(3) post(2) by (auto simp: deliveredTo_def filter_eq_Cons_iff split: if_splits dest: arg_cong [where f = length])
    have here: "answersIn (po_env ports) cid (rq_to asked) (post, response)" using Cons.prems(2) post(2) by simp
    have next_held: "es1 = [] \<and> memberHolds ports cid r asked members own (chain @ chainOf [(post, response)]) state st1"
      by (rule memberHolds_answer [OF Cons.prems(1) here sent(1) first [unfolded post(1)]])
    from Cons.IH [OF conjunct2 [OF next_held] _ sent(2) post(3) rest] Cons.prems(2) post(2) next_held es
    show ?thesis by simp
  next
    case False
    then have own: "ownStep cid r event" "settlesOnly own event" "memberSteps cid r own posts steps"
      using Cons.prems(4) e by (auto simp: memberSteps_Cons isClassify_def split: collective_event.splits)
    from memberHolds_own [OF Cons.prems(1) own(1,2) first]
    obtain state1 where "es1 = []" "memberHolds ports cid r asked members own chain state1 st1" by blast
    with Cons.IH [OF this(2) Cons.prems(2,3) own(3) rest] es show ?thesis by simp
  qed
qed

text \<open>Kept answers come from the chain, so they have distinct record hashes when the chain's records do.\<close>

lemma holdsCounted_chain:
  assumes "sa_members shared = members" "jmWf (sa_answers shared)" "distinct (map (an_recordHash \<circ> snd) seen)"
    and "\<forall>m a. jmGet (sa_answers shared) m = Some a \<longrightarrow> firstAnswer members seen m = Some a"
    and "\<forall>m a. firstAnswer members chain m = Some a \<longrightarrow> jmGet (sa_answers shared) m = Some a"
  shows "holdsCounted members chain shared"
proof -
  have sub: "set (sa_answers shared) \<subseteq> set seen"
  proof (clarify)
    fix m a assume "(m, a) \<in> set (sa_answers shared)"
    then have "jmGet (sa_answers shared) m = Some a" using assms(2) by (simp add: jmWf_def jmGet_def)
    then have "firstAnswer members seen m = Some a" using assms(4) by blast
    then show "(m, a) \<in> set seen" by (auto simp: firstAnswer_def split: if_splits dest: map_of_SomeD)
  qed
  moreover have "distinct (sa_answers shared)" using assms(2) by (simp add: jmWf_def distinct_map)
  moreover have "inj_on (an_recordHash \<circ> snd) (set (sa_answers shared))"
    using assms(3) sub by (meson distinct_map inj_on_subset)
  ultimately show ?thesis using assms(1,2,5) by (simp add: holdsCounted_def distinct_map)
qed

lemma firstAnswer_prefix: "firstAnswer members chain m = Some a \<Longrightarrow> firstAnswer members (chain @ later) m = Some a"
  by (simp add: firstAnswer_append)

section \<open>The close at a member\<close>

definition resultsOf :: "collective_effect list \<Rightarrow> result_item list" where
  "resultsOf effects = List.map_filter (\<lambda>e. case e of Emit (ResultItem r) _ _ \<Rightarrow> Some r | _ \<Rightarrow> None) effects"

lemma resultsOf_simps [simp]:
  "resultsOf [] = []"
  "resultsOf (Emit (ResultItem r) provenance closes # es) = r # resultsOf es"
  "resultsOf (es @ fs) = resultsOf es @ resultsOf fs"
  by (simp_all add: resultsOf_def List.map_filter_simps List.map_filter_def)

definition memberResult :: "collective_ports \<Rightarrow> collective_id \<Rightarrow> received_request \<Rightarrow> string list \<Rightarrow> answer_chain \<Rightarrow> result_item" where
  "memberResult ports cid asked members chain = \<lparr>ri_op = AllGather, ri_id = cid, ri_to = rq_to asked, ri_question = rq_question asked,
     ri_outcomes = countedOutcomes (cv_texts (po_env ports)) (rq_schema asked) members chain\<rparr>"

lemma applyClose_counted:
  assumes "distinct members" "holdsCounted members chain shared" "hc_included close = countedHashes members chain"
    and "applyClose ports st cid r shared close = (st', es)"
  shows "resultsOf es = [memberResult ports cid (cs_store st ! r) members chain]"
proof -
  have "sa_members shared = members" using assms(2) by (simp add: holdsCounted_def)
  then show ?thesis
    using assms(4) listedAnswers_counted [OF assms(1,2)] memberOutcomes_counted [OF assms(1)]
    by (auto simp: applyClose_def assms(3) Let_def memberResult_def)
qed

text \<open>A close that lists an answer the member does not hold yet waits for the answer in flight.\<close>

lemma applyClose_held:
  assumes "rq_state (cs_store st ! r) = RSending"
    and "a \<in> set (hc_included close)" "a \<notin> set (map (an_recordHash \<circ> snd) (sa_answers shared))"
  shows "applyClose ports st cid r shared close =
    (setRequest r ((cs_store st ! r)\<lparr>rq_shared := Some (shared\<lparr>sa_heldClose := Some close\<rparr>)\<rparr>) st, [])"
proof -
  define byHash where "byHash = newMap (map (\<lambda>(member, answer). (an_recordHash answer,
      \<lparr>la_member = member, la_recordHash = an_recordHash answer, la_response = an_response answer\<rparr>)) (sa_answers shared))"
  have "jmGet byHash a = None"
    using assms(3) by (force simp: byHash_def jmGet_newMap map_of_eq_None_iff)
  then have "length (List.map_filter (jmGet byHash) (hc_included close)) < length (hc_included close)"
    using assms(2) length_filter_less [of a "hc_included close" "\<lambda>x. jmGet byHash x \<noteq> None"]
    by (simp add: List.map_filter_def o_def)
  then have "fst (snd (listedAnswers shared (hc_included close)))" by (simp add: listedAnswers_def byHash_def Let_def)
  then show ?thesis using assms(1) by (auto simp: applyClose_def Let_def split: prod.splits)
qed

text \<open>The close post of the requester, in the group's conversation.\<close>

definition closePost :: "certified_post \<Rightarrow> received_request \<Rightarrow> content_part list \<Rightarrow> bool" where
  "closePost post asked content \<longleftrightarrow> im_content (cp_message post) = content \<and> im_members (cp_message post) \<noteq> None \<and>
     im_address (cp_message post) = rq_to asked \<and> im_sender (cp_message post) = rq_from asked"

lemma performStep_close:
  assumes "encodeCollectiveContent (po_env ports) (CloseValue cid included) None = Some content" "closePost post asked content"
    and "jmGet (cs_requests st) cid = Some r" "rq_shared (cs_store st ! r) = Some shared" "sa_heldClose shared = None"
    and "rq_to (cs_store st ! r) = rq_to asked" "rq_from (cs_store st ! r) = rq_from asked" "rq_state (cs_store st ! r) \<noteq> RClosed"
  shows "performStep ports st (ClassifyStep post, now) =
    applyClose ports st cid r shared \<lparr>hc_postId = im_postId (cp_message post), hc_included = included\<rparr>"
proof -
  have "receiveClose ports st (cp_message post) cid included =
      applyClose ports st cid r shared \<lparr>hc_postId = im_postId (cp_message post), hc_included = included\<rparr>"
    using assms(2-8) by (auto simp: receiveClose_def Let_def closePost_def)
  then show ?thesis
    using read_encoded [OF assms(1)] assms(2)
    by (simp add: performStep_def classify_def collectiveItem_def closePost_def split: prod.splits)
qed

section \<open>Both orders of the close and the member's own answer\<close>

lemma memberResult_shared [simp]:
  "memberResult ports cid (asked\<lparr>rq_shared := shared\<rparr>) = memberResult ports cid asked"
  "memberResult ports cid (asked\<lparr>rq_state := state\<rparr>) = memberResult ports cid asked"
  by (simp_all add: memberResult_def fun_eq_iff)

text \<open>Of the chain, the members answer each once under a record hash of its own; the member is one of them.\<close>

definition chainAgrees :: "string \<Rightarrow> string list \<Rightarrow> answer_chain \<Rightarrow> bool" where
  "chainAgrees self members chain \<longleftrightarrow>
     distinct members \<and> self \<in> set members \<and> distinct (map (an_recordHash \<circ> snd) chain)"

text \<open>The member saw the counted and the late answers before the close; others follow it.\<close>

lemma keptAnswers_counted:
  assumes "chainAgrees self members (counted @ late @ beyond)" "jmWf answers"
    and "\<And>m. jmGet answers m = (if m = self then mine else firstAnswer members (counted @ late) m)"
    and "mine = map_of (counted @ late @ beyond) self \<or> mine = None \<and> firstAnswer members counted self = None"
  shows "holdsCounted members counted \<lparr>sa_members = members, sa_answers = answers, sa_heldClose = h\<rparr>"
proof -
  have self: "firstAnswer members (counted @ late @ beyond) self = map_of (counted @ late @ beyond) self"
    and seen: "distinct (map (an_recordHash \<circ> snd) (counted @ late @ beyond))"
    using assms(1) by (simp_all add: chainAgrees_def firstAnswer_def)
  have longer: "firstAnswer members (counted @ late @ beyond) m = Some a" if "firstAnswer members (counted @ late) m = Some a" for m a
    using firstAnswer_prefix [OF that, of beyond] by simp
  show ?thesis
  proof (rule holdsCounted_chain [OF _ _ seen])
    show "\<forall>m a. jmGet (sa_answers \<lparr>sa_members = members, sa_answers = answers, sa_heldClose = h\<rparr>) m = Some a \<longrightarrow>
        firstAnswer members (counted @ late @ beyond) m = Some a"
      using assms(3,4) self longer by auto
    show "\<forall>m a. firstAnswer members counted m = Some a \<longrightarrow>
        jmGet (sa_answers \<lparr>sa_members = members, sa_answers = answers, sa_heldClose = h\<rparr>) m = Some a"
    proof (intro allI impI)
      fix m a assume first: "firstAnswer members counted m = Some a"
      show "jmGet (sa_answers \<lparr>sa_members = members, sa_answers = answers, sa_heldClose = h\<rparr>) m = Some a"
      proof (cases "m = self")
        case True
        then have "firstAnswer members (counted @ late @ beyond) self = Some a" using firstAnswer_prefix [OF first, of "late @ beyond"] by simp
        then show ?thesis using True assms(3,4) self first by auto
      next
        case False
        then show ?thesis using assms(3) firstAnswer_prefix [OF first, of late] by simp
      qed
    qed
  qed (use assms(2) in auto)
qed

lemma own_hash_missing:
  assumes "chainAgrees self members (counted @ late @ beyond)" "jmWf answers"
    and "\<And>m. jmGet answers m = (if m = self then None else firstAnswer members (counted @ late) m)"
    and "firstAnswer members counted self = Some a"
  shows "an_recordHash a \<notin> set (map (an_recordHash \<circ> snd) answers)"
proof
  assume "an_recordHash a \<in> set (map (an_recordHash \<circ> snd) answers)"
  then obtain m b where mb: "(m, b) \<in> set answers" "an_recordHash b = an_recordHash a" by auto
  then have "jmGet answers m = Some b" using assms(2) by (simp add: jmWf_def jmGet_def)
  then have "m \<noteq> self" "(m, b) \<in> set (counted @ late @ beyond)"
    using assms(3) [of m] by (auto simp: firstAnswer_def split: if_splits dest!: map_of_SomeD)
  moreover have "(self, a) \<in> set (counted @ late @ beyond)"
    using assms(4) by (auto simp: firstAnswer_def split: if_splits dest!: map_of_SomeD)
  moreover have "inj_on (an_recordHash \<circ> snd) (set (counted @ late @ beyond))"
    using assms(1) unfolding chainAgrees_def distinct_map by blast
  ultimately have "(m, b) = (self, a)"
    using mb(2) inj_onD [of "an_recordHash \<circ> snd" "set (counted @ late @ beyond)" "(m, b)" "(self, a)"] by simp
  then show False using \<open>m \<noteq> self\<close> by simp
qed

section \<open>After the close\<close>

text \<open>A closed request emits nothing, whatever becomes of an answer still in flight.\<close>

definition requestEnded :: "collective_id \<Rightarrow> nat \<Rightarrow> collective_state \<Rightarrow> bool" where
  "requestEnded cid r st \<longleftrightarrow> requestsWf st \<and> claimsWf st \<and> jmGet (cs_requests st) cid = Some r \<and> stateAt st r = RClosed"

lemma requestEnded_step:
  assumes closed: "requestEnded cid r st" and own: "ownStep cid r event" and step: "performStep ports st (event, now) = (st', es)"
  shows "es = [] \<and> requestEnded cid r st'"
proof -
  have st: "requestsWf st" "claimsWf st" "jmGet (cs_requests st) cid = Some r" "rq_state (cs_store st ! r) = RClosed"
    using closed by (simp_all add: requestEnded_def stateAt_def)
  have "namesHeld st event" using own st(3) by (auto simp: namesHeld_def ownStep_def split: collective_event.splits)
  from performStep_keeps [OF st(1,2) this step] have wf: "requestsWf st'" "claimsWf st'" by (simp_all add: keepsRequests_def)
  have refused: "claimRequest st cid r now \<noteq> Inr claimed" for claimed
    using claimRequest_cases(1) [OF st(1,3), of now claimed] st(4) by (auto simp: stateAt_def)
  have "es = [] \<and> cs_requests st' = cs_requests st \<and> cs_store st' = cs_store st"
    using own step st(3,4) refused
    by (auto simp: ownStep_def performStep_def reopenRequest_def settleAnswer_def settleRequest_def Let_def
        split: collective_event.splits sum.splits if_splits)
  then show ?thesis using wf st(3,4) by (simp add: requestEnded_def stateAt_def)
qed

lemma requestEnded_run:
  "requestEnded cid r st \<Longrightarrow> list_all (\<lambda>(event, _). ownStep cid r event) steps \<Longrightarrow> runCollective ports st steps = (st', es) \<Longrightarrow> es = []"
proof (induction steps arbitrary: st es)
  case Nil
  then show ?case by simp
next
  case (Cons step steps)
  obtain st1 es1 where first: "performStep ports st (fst step, snd step) = (st1, es1)" by fastforce
  obtain es2 where rest: "runCollective ports st1 steps = (st', es2)" "es = es1 @ es2"
    using Cons.prems(3) first by (auto split: prod.splits)
  have "es1 = [] \<and> requestEnded cid r st1"
    using Cons.prems(2) by (intro requestEnded_step [OF Cons.prems(1) _ first]) (auto split: prod.splits)
  then show ?case using Cons.IH [OF _ _ rest(1)] Cons.prems(2) rest(2) by simp
qed

text \<open>
  When the close comes, an answer of the member's own that the chain already has is settled, or still in flight and then
  settles as certified.
\<close>

definition answerSettles :: "collective_id \<Rightarrow> nat \<Rightarrow> certified_answer option \<Rightarrow> collective_state \<Rightarrow> (collective_event \<times> int) list \<Rightarrow> bool" where
  "answerSettles cid r own st after \<longleftrightarrow>
     (case own of
        None \<Rightarrow> True
      | Some a \<Rightarrow> stateAt st r = RAnswered \<or>
          stateAt st r = RSending \<and> (case after of (event, _) # _ \<Rightarrow> event = SettleAnswerStep cid r (Some a) | [] \<Rightarrow> False))"

lemma applyClose_closes:
  assumes "distinct members" "holdsCounted members chain shared" "hc_included close = countedHashes members chain"
    and "applyClose ports st cid r shared close = (st', es)" "r < length (cs_store st)"
  shows "stateAt st' r = RClosed \<and> cs_requests st' = cs_requests st"
  using assms(3-5) listedAnswers_counted [OF assms(1,2)]
  by (auto simp: applyClose_def Let_def stateAt_def setRequest_def split: if_splits)

lemma member_result:
  assumes holds: "memberHolds ports cid r asked members own seen state st"
    and same: "\<And>m. m \<noteq> po_self ports \<Longrightarrow> firstAnswer members seen m = firstAnswer members (counted @ late) m"
    and agrees: "chainAgrees (po_self ports) members (counted @ late @ beyond)"
    and own: "own = map_of (counted @ late @ beyond) (po_self ports)"
    and settles: "answerSettles cid r (map_of (counted @ late) (po_self ports)) st after"
    and close: "encodeCollectiveContent (po_env ports) (CloseValue cid (countedHashes members counted)) None = Some content"
      "closePost post asked content"
    and after: "list_all (\<lambda>(event, _). ownStep cid r event) after"
    and run: "runCollective ports st ((ClassifyStep post, now) # after) = (st', es)"
  shows "resultsOf es = [memberResult ports cid asked members counted]"
proof -
  let ?close = "\<lparr>hc_postId = im_postId (cp_message post), hc_included = countedHashes members counted\<rparr>"
  have dist: "distinct members" and inside: "po_self ports \<in> set members" using agrees by (simp_all add: chainAgrees_def)
  obtain answers where held: "requestsWf st" "claimsWf st" "jmGet (cs_gathers st) cid = None" "jmGet (cs_requests st) cid = Some r"
      "state \<noteq> RClosed" "r < length (cs_store st)" "stateAt st r = state"
      "cs_store st ! r = asked\<lparr>rq_state := state, rq_shared := Some \<lparr>sa_members = members, sa_answers = answers, sa_heldClose = None\<rparr>\<rparr>"
      "jmWf answers"
      "\<And>m. jmGet answers m = (if m = po_self ports then (if state = RAnswered then own else None) else firstAnswer members seen m)"
    using holds by (rule memberHoldsE) blast
  have kept: "jmGet answers m = (if m = po_self ports then (if state = RAnswered then own else None) else firstAnswer members (counted @ late) m)" for m
    using held(10) [of m] same [of m] by simp
  let ?shared = "\<lparr>sa_members = members, sa_answers = answers, sa_heldClose = None\<rparr>"
  obtain st1 es1 where closing: "performStep ports st (ClassifyStep post, now) = (st1, es1)" by fastforce
  obtain es2 where rest: "runCollective ports st1 after = (st', es2)" and es: "es = es1 @ es2"
    using run closing by (auto split: prod.splits)
  have applied: "applyClose ports st cid r ?shared ?close = (st1, es1)"
    using closing held(4,5,8) performStep_close [OF close, of st r ?shared] by simp
  have "requestsWf st1" "claimsWf st1"
    using performStep_keeps [OF held(1,2) _ closing] by (simp_all add: keepsRequests_def namesHeld_def)
  note wf1 = this
  show ?thesis
  proof (cases "state = RAnswered \<or> firstAnswer members counted (po_self ports) = None")
    case True
    then have counted: "holdsCounted members counted ?shared"
      using own by (intro keptAnswers_counted [OF agrees held(9) kept]) auto
    have "requestEnded cid r st1"
      using applyClose_closes [OF dist counted _ applied held(6)] wf1 held(4) by (simp add: requestEnded_def)
    then have "es2 = []" by (rule requestEnded_run [OF _ after rest])
    then show ?thesis using applyClose_counted [OF dist counted _ applied] es held(8) by simp
  next
    case False
    then obtain a where a: "firstAnswer members counted (po_self ports) = Some a" "state \<noteq> RAnswered" by auto
    have up: "firstAnswer members (counted @ late) (po_self ports) = Some a" using a(1) by (rule firstAnswer_prefix)
    then have "map_of (counted @ late) (po_self ports) = Some a" using inside by (simp add: firstAnswer_def)
    then obtain now' rest' where flight: "state = RSending" "after = (SettleAnswerStep cid r (Some a), now') # rest'"
      using settles held(7) a(2) by (auto simp: answerSettles_def split: list.splits)
    have mine: "own = Some a" using firstAnswer_prefix [OF up, of beyond] own inside by (simp add: firstAnswer_def)
    have none: "jmGet answers m = (if m = po_self ports then None else firstAnswer members (counted @ late) m)" for m
      using kept [of m] a(2) by simp
    let ?held = "asked\<lparr>rq_state := RSending, rq_shared := Some (?shared\<lparr>sa_heldClose := Some ?close\<rparr>)\<rparr>"
    have listed: "an_recordHash a \<in> set (countedHashes members counted)"
    proof -
      have "(po_self ports, a) \<in> set (countedAnswers members counted)" using a(1) by (simp add: in_countedAnswers)
      then have "(an_recordHash \<circ> snd) (po_self ports, a) \<in> set (map (an_recordHash \<circ> snd) (countedAnswers members counted))"
        by (simp only: set_map imageI)
      then show ?thesis unfolding countedHashes_answers by simp
    qed
    have "applyClose ports st cid r ?shared ?close = (setRequest r ?held st, [])"
      using listed own_hash_missing [OF agrees held(9) none a(1)] flight(1) held(8) by (subst applyClose_held) auto
    then have st1: "st1 = setRequest r ?held st" "es1 = []" using applied by simp_all
    have "r \<in> set (cs_claims st1)" using held(2,6,7) flight(1) st1(1) by (simp add: claimsWf_def setRequest_def)
    let ?shared' = "\<lparr>sa_members = members, sa_answers = jmSet (po_self ports) a answers, sa_heldClose = None\<rparr>"
    let ?st = "setRequest r (asked\<lparr>rq_state := RAnswered, rq_shared := Some ?shared'\<rparr>) (st\<lparr>cs_claims := remove1 r (cs_claims st)\<rparr>)"
    have at_r: "cs_store ?st ! r = asked\<lparr>rq_state := RAnswered, rq_shared := Some ?shared'\<rparr>"
      using held(6) by (simp add: setRequest_def)
    obtain st2 es3 where settled: "performStep ports st1 (SettleAnswerStep cid r (Some a), now') = (st2, es3)" by fastforce
    then have last: "applyClose ports ?st cid r ?shared' ?close = (st2, es3)"
      using \<open>r \<in> set (cs_claims st1)\<close> held(6) st1(1) by (simp add: performStep_def settleAnswer_def Let_def setRequest_def)
    have counted: "holdsCounted members counted ?shared'"
      using own mine by (intro keptAnswers_counted [OF agrees, where mine = "Some a"]) (simp_all add: jmWf_jmSet held(9) jmGet_jmSet none)
    obtain es4 where tail: "runCollective ports st2 rest' = (st', es4)" "es2 = es3 @ es4"
      using rest flight(2) settled by (auto split: prod.splits)
    have "requestsWf st2" "claimsWf st2"
      using performStep_keeps [OF wf1 _ settled] by (simp_all add: keepsRequests_def namesHeld_def)
    then have "requestEnded cid r st2"
      using applyClose_closes [OF dist counted _ last] held(4,6) by (simp add: requestEnded_def setRequest_def)
    moreover have "list_all (\<lambda>(event, _). ownStep cid r event) rest'" using after flight(2) by simp
    ultimately have "es4 = []" by (rule requestEnded_run [OF _ _ tail(1)])
    then show ?thesis using applyClose_counted [OF dist counted _ last] es st1(2) tail(2) at_r by simp
  qed
qed

lemma run_append:
  "runCollective ports st (xs @ ys) =
    (case runCollective ports st xs of (st', es) \<Rightarrow> case runCollective ports st' ys of (st'', fs) \<Rightarrow> (st'', es @ fs))"
  by (induction xs arbitrary: st) (auto split: prod.splits)

section \<open>One result\<close>

text \<open>How the asker's run ends: by an answer, or at the deadline.\<close>

definition askerEnding :: "collective_id \<Rightarrow> (collective_event \<times> int) list \<Rightarrow> bool" where
  "askerEnding cid steps \<longleftrightarrow> steps = [] \<or> (\<exists>now. steps = [(DeadlineStep cid, now)])"

lemma asker_closes:
  assumes "countsChain ports cid opened [] st" "gr_op (og_request opened) = AllGather"
    and "list_all (answersIn (po_env ports) cid (gr_to (og_request opened))) posts"
    and "classifies posts steps" "askerEnding cid finish" "runCollective ports st (steps @ finish) = (st', es)"
    and "SendClose cid to content \<in> set es"
  shows "\<exists>counted later. posts = counted @ later \<and> closedWith ports cid (og_request opened) (chainOf counted) content st'"
proof -
  obtain st1 es1 where chain: "runCollective ports st steps = (st1, es1)" by fastforce
  obtain es2 where rest: "runCollective ports st1 finish = (st', es2)" and es: "es = es1 @ es2"
    using assms(6) chain by (auto simp: run_append split: prod.splits)
  from run_counts [OF assms(1-4) chain] show ?thesis
  proof
    assume counting: "countsChain ports cid opened ([] @ chainOf posts) st1 \<and> es1 = []"
    then obtain due where "finish = [(DeadlineStep cid, due)]" using assms(5,7) es rest by (auto simp: askerEnding_def)
    then obtain es3 where "completeGather ports st1 cid = (st', es3)" "es2 = es3"
      using rest counting assms(7) es by (auto simp: performStep_def deadlineReached_def countsChain_def split: prod.splits if_splits)
    then have "closedWith ports cid (og_request opened) (chainOf posts) content st'"
      using completeGather_closes(2) [of ports cid opened "chainOf posts" st1 st' es3 to content] counting assms(2,7) es by simp
    then show ?thesis by blast
  next
    assume ended: "jmGet (cs_gathers st1) cid = None \<and> (\<forall>to content. SendClose cid to content \<in> set es1 \<longrightarrow>
      (\<exists>counted later. posts = counted @ later \<and> closedWith ports cid (og_request opened) ([] @ chainOf counted) content st1))"
    then have "st' = st1 \<and> es2 = []"
      using rest assms(5) by (auto simp: askerEnding_def performStep_def deadlineReached_def)
    then show ?thesis using ended assms(7) es by auto
  qed
qed

text \<open>
  The member's request as its endpoint first classified it: shared with these members, unanswered, shown to the host or
  waiting for its firewall.
\<close>

definition justAsked :: "collective_id \<Rightarrow> nat \<Rightarrow> received_request \<Rightarrow> string list \<Rightarrow> collective_state \<Rightarrow> bool" where
  "justAsked cid r asked members st \<longleftrightarrow>
     jmGet (cs_gathers st) cid = None \<and> jmGet (cs_requests st) cid = Some r \<and> cs_store st ! r = asked \<and>
     rq_state asked \<in> {RUnadmitted, ROpen} \<and> rq_shared asked = Some \<lparr>sa_members = members, sa_answers = [], sa_heldClose = None\<rparr>"

lemma justAsked_holds:
  assumes "requestsWf st" "claimsWf st" "justAsked cid r asked members st"
  shows "memberHolds ports cid r asked members own [] (rq_state asked) st"
  using assms by (intro memberHoldsI [where answers = "[]"]) (auto simp: justAsked_def firstAnswer_def jmWf_def jmGet_def)

text \<open>
  C4: Every member's all_gather result is the asker's. The asker classifies answers of the group's certified chain until
  one completes the operation or its deadline comes, and posts its close. A member sees the chain without its own posts
  and then the close; in between, in any order, it claims and gives up the request, sends its own answer
  and sees its send fail or settle, before or after its peers' answers and before or after the close. If its answer
  is in the chain when the close comes, it is settled or in flight by then and settles as certified. The member
  emits exactly one result, equal to the one the asker keeps until its close is certified: the same outcome for
  each member, in the same order. Assumed are distinct members and distinct record hashes in the chain, answers
  that read as answers to this request, and claims that meet the request they matched.
\<close>

theorem all_gather_results_agree:
  assumes "countsChain asker cid opened [] st" "gr_op (og_request opened) = AllGather"
    and "list_all (answersIn (po_env asker) cid (gr_to (og_request opened))) (posts @ later)"
    and "classifies posts steps" "askerEnding cid finish" "runCollective asker st (steps @ finish) = (st', es)"
    and "SendClose cid to content \<in> set es"
    and "po_env member = po_env asker" "claimsCurrent member emptyCollective history"
    and "runCollective member emptyCollective history = (mst, past)" "justAsked cid r asked (gr_members (og_request opened)) mst"
    and "rq_schema asked = gr_schema (og_request opened)" "rq_to asked = gr_to (og_request opened)" "rq_question asked = gr_question (og_request opened)"
    and "chainAgrees (po_self member) (gr_members (og_request opened)) (chainOf (posts @ later) @ beyond)"
    and "memberSteps cid r (map_of (chainOf (posts @ later) @ beyond) (po_self member)) (deliveredTo (po_self member) (posts @ later)) before"
    and "runCollective member mst before = (closing, fs)"
    and "answerSettles cid r (map_of (chainOf (posts @ later)) (po_self member)) closing after"
    and "list_all (\<lambda>(event, _). ownStep cid r event) after" "closePost post asked content"
    and "runCollective member closing ((ClassifyStep post, now) # after) = (mst', gs)"
  shows "list_ex (\<lambda>c. cg_id c = cid \<and> resultsOf (fs @ gs) = [cg_result c]) (cs_closing st')"
proof -
  let ?members = "gr_members (og_request opened)"
  let ?self = "po_self member"
  let ?seen = "chainOf (deliveredTo ?self (posts @ later))"
  let ?own = "map_of (chainOf (posts @ later) @ beyond) ?self"
  obtain counted rest where split: "posts = counted @ rest" and closed: "closedWith asker cid (og_request opened) (chainOf counted) content st'"
    using asker_closes [OF assms(1,2) _ assms(4-7)] assms(3) by auto
  have all: "chainOf (posts @ later) = chainOf counted @ (chainOf rest @ chainOf later)" using split by simp
  have answers: "list_all (answersIn (po_env member) cid (rq_to asked)) (deliveredTo ?self (posts @ later))"
    using assms(3,8,13) by (auto simp: deliveredTo_def list_all_iff)
  have wf: "requestsWf mst" "claimsWf mst" using run_keeps [OF empty_requests assms(9,10)] by (simp_all add: keepsRequests_def)
  from run_holds [OF justAsked_holds [OF wf assms(11)] answers _ assms(16,17)]
  obtain state where held: "fs = []" "memberHolds member cid r asked ?members ?own ?seen state closing"
    by (auto simp: deliveredTo_def)
  have encoded: "encodeCollectiveContent (po_env member) (CloseValue cid (countedHashes ?members (chainOf counted))) None = Some content"
    using closed assms(8) by (simp add: closedWith_def)
  have "resultsOf gs = [memberResult member cid asked ?members (chainOf counted)]"
  proof (rule member_result [OF held(2) _ _ _ _ encoded assms(20,19,21)])
    show "firstAnswer ?members ?seen m = firstAnswer ?members (chainOf counted @ (chainOf rest @ chainOf later)) m" if "m \<noteq> ?self" for m
      using firstAnswer_delivered [OF that] all by simp
    show "chainAgrees ?self ?members (chainOf counted @ (chainOf rest @ chainOf later) @ beyond)" using assms(15) all by simp
    show "?own = map_of (chainOf counted @ (chainOf rest @ chainOf later) @ beyond) ?self" using all by simp
    show "answerSettles cid r (map_of (chainOf counted @ (chainOf rest @ chainOf later)) ?self) closing after" using assms(18) all by simp
  qed
  then have results: "resultsOf (fs @ gs) = [memberResult member cid asked ?members (chainOf counted)]" using held(1) by simp
  obtain c where "c \<in> set (cs_closing st')" "cg_id c = cid" "cg_result c = memberResult member cid asked ?members (chainOf counted)"
    using closed assms(2,8,12-14) by (auto simp: closedWith_def list_ex_iff memberResult_def)
  then show ?thesis using results by (auto simp: list_ex_iff)
qed

section \<open>A sample group\<close>

text \<open>Ann asks Bob and Cy, and both decline; the last answer closes the operation. Bob's send returns before Cy's answer comes.\<close>

definition groupHash :: "8 word \<Rightarrow> record_hash" where
  "groupHash b = ''rch_'' @ b64_encode rfc4648 (replicate 32 b)"

definition groupPorts :: "string \<Rightarrow> collective_ports" where
  "groupPorts self = \<lparr>po_env = sampleCollective, po_self = self, po_admission = False\<rparr>"

definition groupGather :: open_gather where
  "groupGather = \<lparr>og_request = \<lparr>gr_op = AllGather, gr_to = ''group:ann,bob,cy'', gr_question = ''Which day?'',
     gr_members = [''agent:bob'', ''agent:cy''], gr_schema = sampleSchema\<rparr>, og_timer = 60000, og_requestsSettled = True\<rparr>"

definition groupAsker :: collective_state where
  "groupAsker = emptyCollective\<lparr>cs_gathers := [(sampleCid, groupGather)]\<rparr>"

definition groupAsked :: received_request where
  "groupAsked = \<lparr>rq_postId = ''pst_agent:ann'', rq_recordHash = groupHash 9, rq_from = ''agent:ann'', rq_to = ''group:ann,bob,cy'',
     rq_question = ''Which day?'', rq_schema = sampleSchema, rq_deadlineAt = 60000, rq_state = ROpen,
     rq_shared = Some \<lparr>sa_members = [''agent:bob'', ''agent:cy''], sa_answers = [], sa_heldClose = None\<rparr>\<rparr>"

definition groupMember :: collective_state where
  "groupMember = emptyCollective\<lparr>cs_requests := [(sampleCid, 0)], cs_store := [groupAsked]\<rparr>"

definition groupPost :: "string \<Rightarrow> record_hash \<Rightarrow> content_part list \<Rightarrow> collective_value \<Rightarrow> certified_post" where
  "groupPost sender hash texts v = \<lparr>cp_message = \<lparr>im_postId = ''pst_'' @ sender, im_address = ''group:ann,bob,cy'', im_sender = sender,
     im_members = Some [''agent:ann'', ''agent:bob'', ''agent:cy''],
     im_content = texts @ [DataPart (FObj [(COLLECTIVE_DATA_KEY, collectiveValueJson v)])]\<rparr>, cp_recordHash = hash\<rparr>"

definition groupAsk :: certified_post where
  "groupAsk = groupPost ''agent:ann'' (groupHash 9) [TextPart ''Which day?'']
     (CollectingValue AllGather sampleCid sampleNonce 60000 sampleSchema)"

definition groupAnswer :: "string \<Rightarrow> 8 word \<Rightarrow> certified_post \<times> collective_response" where
  "groupAnswer sender b = (groupPost sender (groupHash b) [] (ResponseValue sampleCid DeclineResponse), DeclineResponse)"

definition groupPosts :: "(certified_post \<times> collective_response) list" where
  "groupPosts = [groupAnswer ''agent:bob'' 0, groupAnswer ''agent:cy'' 1]"

definition bobAnswer :: certified_answer where
  "bobAnswer = \<lparr>an_recordHash = groupHash 0, an_response = DeclineResponse\<rparr>"

definition groupClose :: certified_post where
  "groupClose = groupPost ''agent:ann'' (groupHash 2) [] (CloseValue sampleCid [groupHash 0, groupHash 1])"

definition annSteps :: "(collective_event \<times> int) list" where
  "annSteps = map (\<lambda>(post, _). (ClassifyStep post, 5)) groupPosts"

definition bobSteps :: "(collective_event \<times> int) list" where
  "bobSteps = [(ClaimStep sampleCid 0, 1), (SettleAnswerStep sampleCid 0 (Some bobAnswer), 3),
     (ClassifyStep (fst (groupAnswer ''agent:cy'' 1)), 4)]"

lemma groupHash_canonical: "isRecordHash sampleCollective (groupHash b)"
  by (simp add: isRecordHash_def groupHash_def sampleCollective_def sampleClient_def sampleIdentity_def
      isCanonicalIdentifier_def startsWith_def decodeCanonicalBase64Url_encoded rfc4648_laws HASH_BYTE_LENGTH_def)

lemma groupHash_inject: "groupHash b = groupHash c \<longleftrightarrow> b = c"
proof
  assume "groupHash b = groupHash c"
  then have "b64_decode rfc4648 (b64_encode rfc4648 (replicate 32 b)) = b64_decode rfc4648 (b64_encode rfc4648 (replicate 32 c))"
    by (simp add: groupHash_def)
  then show "b = c" using rfc4648_laws by (simp add: base64urlLaws_def)
qed simp

lemma sample_encoded:
  "validCollectiveValue sampleCollective v \<Longrightarrow>
   encodeCollectiveContent sampleCollective v None = Some [DataPart (FObj [(COLLECTIVE_DATA_KEY, collectiveValueJson v)])]"
  by (simp add: encodeCollectiveContent_def contentFits_def sampleCollective_def del: validCollectiveValue.simps collectiveValueJson.simps)

lemma sample_close_encoded:
  "encodeCollectiveContent sampleCollective (CloseValue sampleCid [groupHash 0, groupHash 1]) None = Some (im_content (cp_message groupClose))"
  using sample_encoded [of "CloseValue sampleCid [groupHash 0, groupHash 1]"] sampleCid_canonical groupHash_canonical
  by (simp add: groupClose_def groupPost_def del: collectiveValueJson.simps)

lemma sample_answersIn: "answersIn sampleCollective sampleCid ''group:ann,bob,cy'' (groupAnswer sender b)"
proof -
  have "validCollectiveValue sampleCollective (ResponseValue sampleCid DeclineResponse)" by (simp add: sampleCid_canonical)
  from read_encoded [OF sample_encoded [OF this]] show ?thesis
    by (simp add: answersIn_def groupAnswer_def groupPost_def del: collectiveValueJson.simps)
qed

lemma group_read:
  "readCollectiveValue sampleCollective (im_content (cp_message groupAsk)) =
     Inr (Some (CollectingValue AllGather sampleCid sampleNonce 60000 sampleSchema))"
proof -
  have "validCollectiveValue sampleCollective (CollectingValue AllGather sampleCid sampleNonce 60000 sampleSchema)"
    by (simp add: sampleCid_canonical sampleNonce_ok isEpochMillis_def MAXIMUM_EPOCH_MILLIS_def validFormSchema_def sampleSchema_def
        requiredDeclared_def)
  from decodeCollectiveValue_json [OF this] show ?thesis
    by (simp add: readCollectiveValue_def groupAsk_def groupPost_def List.map_filter_simps collectivePartValue_def del: collectiveValueJson.simps)
qed

lemma groupAsk_message [simp]:
  "im_postId (cp_message groupAsk) = ''pst_agent:ann''" "im_address (cp_message groupAsk) = ''group:ann,bob,cy''"
  "im_sender (cp_message groupAsk) = ''agent:ann''" "im_members (cp_message groupAsk) = Some [''agent:ann'', ''agent:bob'', ''agent:cy'']"
  "cp_recordHash groupAsk = groupHash 9" "questionText (im_content (cp_message groupAsk)) = ''Which day?''"
  by (simp_all add: groupAsk_def groupPost_def questionText_def List.map_filter_simps)

lemma group_asked: "performStep (groupPorts ''agent:bob'') emptyCollective (ClassifyStep groupAsk, 0) = (groupMember, [])"
proof -
  have "receivedRequest sampleCollective groupAsk AllGather sampleCid sampleNonce 60000 sampleSchema 0 ROpen = Some groupAsked"
    by (simp add: receivedRequest_def Let_def trustedRequest_def sampleCid_def groupAsked_def retainedUntil_def CLOSE_WAIT_def
        RECEIVED_DEADLINE_HORIZON_def MAXIMUM_DEADLINE_SECONDS_def RECEIVED_DEADLINE_ALLOWANCE_def)
  then show ?thesis
    using group_read
    by (simp add: performStep_def classify_def groupPorts_def collectiveItem_def requestItem_def Let_def emptyCollective_def jmGet_def
        forgetExpiredRequests_def groupMember_def) (simp add: groupAsked_def)
qed

text \<open>Bob's states on the way to the close.\<close>

definition bobHolds :: "request_state \<Rightarrow> (string, certified_answer) jsmap \<Rightarrow> nat list \<Rightarrow> collective_state" where
  "bobHolds state answers claims = emptyCollective\<lparr>cs_requests := [(sampleCid, 0)], cs_store := [groupAsked\<lparr>rq_state := state,
     rq_shared := Some \<lparr>sa_members = [''agent:bob'', ''agent:cy''], sa_answers = answers, sa_heldClose = None\<rparr>\<rparr>], cs_claims := claims\<rparr>"

lemma bob_claims: "performStep (groupPorts ''agent:bob'') groupMember (ClaimStep sampleCid 0, 1) = (bobHolds RSending [] [0], [])"
  by (simp add: performStep_def claimRequest_def groupMember_def heldRequests_def matchOpenRequest_def Let_def groupAsked_def
      requestShown_def requestUnavailable_def setRequest_def bobHolds_def emptyCollective_def)

lemma bob_settles:
  "performStep (groupPorts ''agent:bob'') (bobHolds RSending [] [0]) (SettleAnswerStep sampleCid 0 (Some bobAnswer), 3) =
     (bobHolds RAnswered [(''agent:bob'', bobAnswer)] [], [])"
  by (simp add: performStep_def settleAnswer_def Let_def bobHolds_def setRequest_def groupPorts_def emptyCollective_def)

lemma bob_sees_cy:
  "performStep (groupPorts ''agent:bob'') (bobHolds RAnswered [(''agent:bob'', bobAnswer)] []) (ClassifyStep (fst (groupAnswer ''agent:cy'' 1)), 4) =
     (bobHolds RAnswered [(''agent:bob'', bobAnswer), (''agent:cy'', \<lparr>an_recordHash = groupHash 1, an_response = DeclineResponse\<rparr>)] [], [])"
proof -
  have here: "answersIn (po_env (groupPorts ''agent:bob'')) sampleCid ''group:ann,bob,cy'' (fst (groupAnswer ''agent:cy'' 1), DeclineResponse)"
    using sample_answersIn [of "''agent:cy''" 1] by (simp add: groupPorts_def groupAnswer_def)
  have "im_sender (cp_message (fst (groupAnswer ''agent:cy'' 1))) = ''agent:cy''" "im_address (cp_message (fst (groupAnswer ''agent:cy'' 1))) = ''group:ann,bob,cy''"
      "im_members (cp_message (fst (groupAnswer ''agent:cy'' 1))) \<noteq> None" "cp_recordHash (fst (groupAnswer ''agent:cy'' 1)) = groupHash 1"
    by (simp_all add: groupAnswer_def groupPost_def)
  then show ?thesis
    unfolding performStep_answer [OF here]
    by (simp add: recordAnswer_def bobHolds_def emptyCollective_def jmGet_def recordPeerAnswer_def Let_def groupAsked_def keepFirstAnswer_def
        setRequest_def)
qed

lemma bob_run:
  "runCollective (groupPorts ''agent:bob'') groupMember bobSteps =
     (bobHolds RAnswered [(''agent:bob'', bobAnswer), (''agent:cy'', \<lparr>an_recordHash = groupHash 1, an_response = DeclineResponse\<rparr>)] [], [])"
  by (simp add: bobSteps_def bob_claims bob_settles bob_sees_cy)

lemma ann_run:
  obtains st' where "runCollective (groupPorts ''agent:ann'') groupAsker annSteps =
    (st', [SendClose sampleCid ''group:ann,bob,cy'' (im_content (cp_message groupClose)), StopTimer sampleCid])"
proof -
  let ?ports = "groupPorts ''agent:ann''"
  have here: "answersIn (po_env ?ports) sampleCid ''group:ann,bob,cy'' (fst (groupAnswer sender b), DeclineResponse)" for sender b
    using sample_answersIn [of sender b] by (simp add: groupPorts_def groupAnswer_def)
  have answer: "im_sender (cp_message (fst (groupAnswer sender b))) = sender" "im_address (cp_message (fst (groupAnswer sender b))) = ''group:ann,bob,cy''"
      "im_members (cp_message (fst (groupAnswer sender b))) \<noteq> None" "cp_recordHash (fst (groupAnswer sender b)) = groupHash b" for sender b
    by (simp_all add: groupAnswer_def groupPost_def)
  let ?outcome = "outcomeOfResponse (cv_texts sampleCollective) sampleSchema DeclineResponse"
  let ?st = "groupAsker\<lparr>cs_records := [(sampleCid, \<lparr>gs_outcomes = [(''agent:bob'', ?outcome)], gs_answerHashes = [(''agent:bob'', groupHash 0)]\<rparr>)]\<rparr>"
  have first: "performStep ?ports groupAsker (ClassifyStep (fst (groupAnswer ''agent:bob'' 0)), 5) = (?st, [])"
    unfolding performStep_answer [OF here] using answer
    by (simp add: recordAnswer_def recordCountedAnswer_def groupAsker_def emptyCollective_def jmGet_def groupGather_def Let_def
        answeredInConversation_def recordsOf_def updateGather_def groupPorts_def)
  have "\<exists>st'. performStep ?ports ?st (ClassifyStep (fst (groupAnswer ''agent:cy'' 1)), 5) =
      (st', [SendClose sampleCid ''group:ann,bob,cy'' (im_content (cp_message groupClose)), StopTimer sampleCid])"
    unfolding performStep_answer [OF here] using answer sample_close_encoded
    by (simp add: recordAnswer_def recordCountedAnswer_def groupAsker_def emptyCollective_def jmGet_def groupGather_def Let_def
        answeredInConversation_def recordsOf_def updateGather_def groupPorts_def completeGather_def closeAllGather_def List.map_filter_simps)
  then obtain st' where "performStep ?ports ?st (ClassifyStep (fst (groupAnswer ''agent:cy'' 1)), 5) =
      (st', [SendClose sampleCid ''group:ann,bob,cy'' (im_content (cp_message groupClose)), StopTimer sampleCid])" by blast
  then show thesis using that first by (simp add: annSteps_def groupPosts_def groupAnswer_def)
qed

theorem all_gather_results_agree_witness:
  "case runCollective (groupPorts ''agent:ann'') groupAsker (annSteps @ []) of
     (st', _) \<Rightarrow> case runCollective (groupPorts ''agent:bob'') groupMember bobSteps of
     (closing, fs) \<Rightarrow> case runCollective (groupPorts ''agent:bob'') closing [(ClassifyStep groupClose, 6)] of
     (_, gs) \<Rightarrow> list_ex (\<lambda>c. cg_id c = sampleCid \<and> resultsOf (fs @ gs) = [cg_result c]) (cs_closing st')"
proof -
  let ?chain = "[(''agent:bob'', bobAnswer), (''agent:cy'', \<lparr>an_recordHash = groupHash 1, an_response = DeclineResponse\<rparr>)]"
  let ?closing = "bobHolds RAnswered ?chain []"
  obtain st' where ann: "runCollective (groupPorts ''agent:ann'') groupAsker (annSteps @ []) =
      (st', [SendClose sampleCid ''group:ann,bob,cy'' (im_content (cp_message groupClose)), StopTimer sampleCid])"
    using ann_run by (metis append_Nil2)
  obtain mst' gs where close: "runCollective (groupPorts ''agent:bob'') ?closing [(ClassifyStep groupClose, 6)] = (mst', gs)" by fastforce
  have chain: "chainOf groupPosts = ?chain" by (simp add: groupPosts_def groupAnswer_def groupPost_def bobAnswer_def)
  have "list_ex (\<lambda>c. cg_id c = sampleCid \<and> resultsOf ([] @ gs) = [cg_result c]) (cs_closing st')"
  proof (rule all_gather_results_agree [where later = "[]" and beyond = "[]", OF _ _ _ _ _ ann _ _ _ _ _ _ _ _ _ _ bob_run _ _ _ close])
    show "countsChain (groupPorts ''agent:ann'') sampleCid groupGather [] groupAsker"
      by (simp add: countsChain_def groupAsker_def emptyCollective_def recordsOf_def jmGet_def firstAnswer_def)
    show "gr_op (og_request groupGather) = AllGather" by (simp add: groupGather_def)
    show "list_all (answersIn (po_env (groupPorts ''agent:ann'')) sampleCid (gr_to (og_request groupGather))) (groupPosts @ [])"
      using sample_answersIn by (simp add: groupPosts_def groupGather_def groupPorts_def)
    show "classifies groupPosts annSteps" by (simp add: classifies_def annSteps_def case_prod_unfold)
    show "askerEnding sampleCid []" by (simp add: askerEnding_def)
    show "SendClose sampleCid ''group:ann,bob,cy'' (im_content (cp_message groupClose)) \<in>
        set [SendClose sampleCid ''group:ann,bob,cy'' (im_content (cp_message groupClose)), StopTimer sampleCid]" by simp
    show "claimsCurrent (groupPorts ''agent:bob'') emptyCollective [(ClassifyStep groupAsk, 0)]" by (simp add: namesHeld_def)
    show "runCollective (groupPorts ''agent:bob'') emptyCollective [(ClassifyStep groupAsk, 0)] = (groupMember, [])"
      by (simp add: group_asked)
    show "justAsked sampleCid 0 groupAsked (gr_members (og_request groupGather)) groupMember"
      by (simp add: justAsked_def groupMember_def emptyCollective_def jmGet_def groupAsked_def groupGather_def)
    show "chainAgrees (po_self (groupPorts ''agent:bob'')) (gr_members (og_request groupGather)) (chainOf (groupPosts @ []) @ [])"
      by (simp add: chain chainAgrees_def groupPorts_def groupGather_def bobAnswer_def groupHash_inject)
    show "memberSteps sampleCid 0 (map_of (chainOf (groupPosts @ []) @ []) (po_self (groupPorts ''agent:bob'')))
        (deliveredTo (po_self (groupPorts ''agent:bob'')) (groupPosts @ [])) bobSteps"
      by (simp add: chain memberSteps_def bobSteps_def groupPorts_def isClassify_def ownStep_def settlesOnly_def deliveredTo_def groupPosts_def)
        (simp add: groupAnswer_def groupPost_def bobAnswer_def)
    show "answerSettles sampleCid 0 (map_of (chainOf (groupPosts @ [])) (po_self (groupPorts ''agent:bob''))) ?closing []"
      by (simp add: chain answerSettles_def groupPorts_def stateAt_def bobHolds_def)
    show "closePost groupClose groupAsked (im_content (cp_message groupClose))"
      by (simp add: closePost_def groupClose_def groupPost_def groupAsked_def)
  qed (simp_all add: groupPorts_def groupAsked_def groupGather_def)
  then show ?thesis using ann bob_run close by simp
qed

end
