(* ===== verification/Spec2Isabelle.thy ===== *)
theory Spec2Isabelle
  imports Router_System Router_Send Records_Certificates Firewall_Policy_Facts Registry_Admission Authenticated_Facts
    Conversation_Address_Facts Collective_Forms_Facts Collective_Agreement Collective_Ledger
begin

text \<open>
  MoltZap carries signed messages between agents.  An \<^emph>\<open>identity\<close> layer gives every agent an
  Ed25519 key and a signed card; a \<^emph>\<open>Registry\<close> admits agents and issues their cards; a \<^emph>\<open>Router\<close>
  keeps a bounded, replayable feed of opaque signed messages and serves it by long polls; the
  \<^emph>\<open>client\<close> turns the feed into conversations whose records are certified by quorums of members,
  runs \<^emph>\<open>collective\<close> questions over them (one agent asks several, and for an all_gather every member
  learns the one result), and a \<^emph>\<open>firewall\<close> decides which drafts leave and which messages reach
  the owner.  This library
  models the decisions of these parts, as total executable functions translated from the
  TypeScript under src/packages, and proves what the parts promise each other.

  \<^bold>\<open>Conventions.\<close>  An Effect that may fail is a value of type \<open>'e + 'a\<close> with the error on the left;
  a mutable reference or a table is a record that an operation takes and returns; a JavaScript
  \<open>Map\<close> keeps its insertion order (\<open>jsmap\<close> of \<^verbatim>\<open>Prelude\<close>, with the laws of the locale \<open>js_map\<close>);
  concurrency is an inductive step relation whose steps are the atomic sections of the code.
  Strings are lists of 8-bit characters, and the bytes of a text are its characters, so the model
  covers texts in their UTF-8 form.  A definition has the name the source gives it, and a suffix
  where HOL already uses that name.

  \<^bold>\<open>Parameters.\<close>  Code outside the repository is an argument of the definitions that call it: the
  JSON parser and the RFC 8785 canonicalizer (\<open>identity_environment\<close>), SHA-256, the Ed25519
  verification of \<open>jose\<close> (\<open>jose_verifier\<close>), compact JWE encryption (\<open>jwe\<close>, with the law \<open>jweLaws\<close>
  that decryption inverts encryption), the decision provider and the digest of a policy
  (\<open>decision_provider\<close>, \<open>english_revision\<close>), regular expressions over prose, a rounding function
  for the floating-point confidence of an answer, structured fields, URLs and HTTP message signatures
  (\<open>signature_library\<close>), the signing of cards by \<open>jose\<close>, the migration runner, and the
  texts the schema library and the number printer give (\<open>form_texts\<close>).  Properties that rely on such a law name it as a
  hypothesis, and their witnesses instantiate the parameter with a concrete function.

  \<^bold>\<open>Identity\<close> (src/packages/identity/src).
  \<^item> \<^verbatim>\<open>Base64\<close> and \<^verbatim>\<open>Identifiers\<close>: the base64url codec of RFC 4648 and the canonical identifiers of
    identifiers.ts, their validity and their order.
  \<^item> \<^verbatim>\<open>Ed25519\<close>: the byte-level predicates of agent-key.ts on public keys and signatures.  They are
    shown to agree with the arithmetic they stand for (canonical coordinate, scalar below the group
    order).
  \<^item> \<^verbatim>\<open>Nonce_Store\<close>, \<^verbatim>\<open>Http_Signature\<close>, \<^verbatim>\<open>Http_Sample\<close> (http-signature.ts): the locale \<open>nonce_store\<close> of a store that
    accepts a nonce once while its signature lives, and the verification of signed requests. \<open>signedRequest\<close> states
    what a verified signature vouches for, down to the URL of the request's own target and the nonce it names.
  \<^item> \<^verbatim>\<open>Bounded_Cache\<close>, \<^verbatim>\<open>Canonical_Text\<close>, \<^verbatim>\<open>Authenticated_Http\<close>, \<^verbatim>\<open>Authenticated_Facts\<close> (bounded-cache.ts,
    authenticated-http.ts): the request handler with its in-memory nonces (\<open>memory_nonces\<close>) and the
    shared card lookups as interleaved steps: callers are bound to verified cards, no request is accepted
    twice, and no caller of a lookup is left waiting.
  \<^item> \<^verbatim>\<open>Json\<close>, \<^verbatim>\<open>Signed_Message\<close>, \<^verbatim>\<open>Agent_Card\<close>: the closed decoders of canonical-json.ts,
    signed-message.ts and agent-card.ts, and the verification of messages and cards.

  \<^bold>\<open>Registry\<close> (src/packages/registry/src and identity/src/registry/contract.ts).
  \<^item> \<^verbatim>\<open>Registry_Storage\<close>, \<^verbatim>\<open>Registry_Facts\<close>, \<^verbatim>\<open>Registry_Sample\<close> (storage.ts, issuance.ts): the tables as records and
    the statements over them; a registered card is found, a retry gets the first answer, and the
    pages of a listing cover the directory.
  \<^item> \<^verbatim>\<open>Registry_Admission\<close> (admission.ts): a bootstrap request is admitted with its credential, by its own
    key, and once (\<open>registry_nonces\<close> interprets \<open>nonce_store\<close> on the durable table).

  \<^bold>\<open>Router\<close> (src/packages/router/src/router).
  \<^item> \<^verbatim>\<open>Router_Contract\<close> (contract.ts): identifiers, error envelopes and representation limits.
  \<^item> \<^verbatim>\<open>Router_Feed\<close> (feed.ts): the feed with its retry index.  Every run keeps the index, the
    ordering and the byte and entry bounds; appending evicts the shortest prefix that is enough.
  \<^item> \<^verbatim>\<open>Router_Waiters\<close>, \<^verbatim>\<open>Router_System\<close> (poll-waiters.ts and the held half of poll.ts): sends and held
    polls as interleaved atomic steps; no accepted message is missed by a poll that waits for it.
  \<^item> \<^verbatim>\<open>Router_Cursor\<close>, \<^verbatim>\<open>Router_Poll\<close> (poll-cursor.ts, poll.ts): cursors round-trip and are
    authenticated; a chain of polls delivers each retained message exactly once, in order.
  \<^item> \<^verbatim>\<open>Router_Send\<close> (send.ts): only verified messages are stored, and errors have a fixed precedence.

  \<^bold>\<open>Records\<close> (src/packages/client/src/communication/records and encoding).
  \<^item> \<^verbatim>\<open>Records_Values\<close>, \<^verbatim>\<open>Records_Verification\<close>: the schemas, canonical hashes and every verifier of
    verification.ts.  \<^verbatim>\<open>Records_Quorum\<close> states the quorum contract as the locale \<open>quorum_system\<close> and
    discharges it for \<open>minimumCertificateEvidenceCount\<close>; \<^verbatim>\<open>Records_Certificates\<close> holds the theorems: a
    certificate names accountable signers, and two certificates of one membership share a correct
    voter.  \<^verbatim>\<open>Records_Sample\<close> is the concrete conversation of their witnesses.

  \<^bold>\<open>Conversations and collectives\<close> (src/packages/client/src/communication/conversations and collectives).
  \<^item> \<^verbatim>\<open>Conversation_Address\<close>, \<^verbatim>\<open>Conversation_Address_Facts\<close> (address.ts, errors.ts): the canonical address of a
    destination. Each member of a group renders the same address, whatever spelling it was given.
  \<^item> \<^verbatim>\<open>Text_Patterns\<close>, \<^verbatim>\<open>Answer_Formats\<close> (answer-formats.ts): regular expressions with a matcher by derivatives,
    proved to decide the language, and the string formats of a form.
  \<^item> \<^verbatim>\<open>Collective_Forms\<close>, \<^verbatim>\<open>Collective_Forms_Facts\<close> (part/grammar.ts, validation.ts, forms.ts): the grammar of a
    form field and the check of an answer, which accepts exactly the answers of an independent
    description of each field. A number of a form is the rational it stands for.
  \<^item> \<^verbatim>\<open>Collective_Part\<close>, \<^verbatim>\<open>Collective_Part_Facts\<close> (part/index.ts): the collective part of a post, which round-trips.
  \<^item> \<^verbatim>\<open>Collective_Requests\<close>, \<^verbatim>\<open>Collective_Operations\<close> (received-request.ts, shared-answers.ts, request-sends.ts,
    operation.ts): the state of an endpoint and its handlers. A handler that runs without a yield is one
    function that returns its effects; what a suspended fiber will do is state (answers in flight, closes
    being posted, timers by their deadline), so a run is a sequence of steps in any order.
    A received request is an object that its answer may outlive in the map, so requests live in a
    store and the map holds references.
  \<^item> \<^verbatim>\<open>Collective_Ledger\<close>: every operation ends once, in a result, a failure or a refusal, and its opened and closed
    spans balance. \<^verbatim>\<open>Collective_Members\<close>: a request has at most one answer in flight and a certified answer
    is its last, and classifying a post again changes nothing.
    \<^verbatim>\<open>Collective_Agreement\<close>: every member's all_gather result is the asker's, however its own answer, its
    peers' answers and the close interleave.

  \<^bold>\<open>Firewall\<close> (src/packages/client/src/firewall).
  \<^item> \<^verbatim>\<open>Firewall_Values\<close>, \<^verbatim>\<open>Firewall_Decision\<close>, \<^verbatim>\<open>Firewall_Chain\<close>, \<^verbatim>\<open>Firewall_Guarantees\<close> (evaluator): the
    composition of findings into a decision and the chain of middleware, which fails closed: behind an
    admission stand only results within their budgets (\<open>returnedInBounds\<close>) that answer the rules (\<open>answersRules\<close>).
  \<^item> \<^verbatim>\<open>Firewall_Questions\<close>, \<^verbatim>\<open>Firewall_English\<close>, \<^verbatim>\<open>Firewall_English_Facts\<close>: policies in English.
  \<^item> \<^verbatim>\<open>Firewall_Rules\<close>, \<^verbatim>\<open>Firewall_Rules_Facts\<close>: the norms of collectives and the built-in rules.
  \<^item> \<^verbatim>\<open>Firewall_Policy\<close>, \<^verbatim>\<open>Firewall_Policy_Facts\<close>: owner edits, which survive a restart and never touch
    the fixed policy.

  \<^bold>\<open>Bounds and fuel.\<close>  No definition needs fuel: the loops of the source run over finite lists or
  decrease a measure that the termination proofs give.

  \<^bold>\<open>Not modelled.\<close>  HTTP framing and RPC plumbing, the client's SQLite store and the conversation engine that drives it
  (certification, recovery and re-anchoring as long-running fibers), key generation and signing with
  platform key handles, process management, telemetry, the host channels, and the build scripts.
  Most of these are I/O over libraries outside the repository. The store and the engine do decide (which
  votes to cast, when to re-anchor); the properties of records hold of the certificates they exchange, not of them.
\<close>

end
